(* ===== verification/GoStrings.thy ===== *)
theory GoStrings
  imports Prelude "HOL-Library.Sublist" "HOL-Library.List_Lexorder" "HOL-Library.Char_ord"
begin

text \<open>
  The Go standard-library string functions the plugin calls, on byte strings. A Go string
  is its UTF-8 bytes, so \<open>length\<close> is Go's \<open>len\<close> and slicing is by byte.
  \<^item> \<open>TrimSpace\<close> is exact on valid UTF-8: it removes every rune with the Unicode
    White_Space property, one to three bytes each, at both ends.
  \<^item> \<open>ToLower\<close> and \<open>EqualFold\<close> are exact on ASCII; the case tables of non-ASCII
    letters are not modelled, and their bytes are left as they are.
  \<^item> \<open>filepath_Base\<close> is the function of the Unix builds.
  \<^item> the order of strings is the bytewise lexicographic order of Go's \<open><\<close>.
\<close>

section \<open>Case\<close>

definition lower_char :: "char \<Rightarrow> char" where
  "lower_char c = (if 65 \<le> (of_char c :: nat) \<and> (of_char c :: nat) \<le> 90
                   then char_of ((of_char c :: nat) + 32) else c)"

lemma lower_char_Char [simp, code]:
  "lower_char (Char b0 b1 b2 b3 b4 b5 b6 b7) =
     (if \<not> b7 \<and> b6 \<and> \<not> b5 \<and> (b0 \<or> b1 \<or> b2 \<or> b3 \<or> b4) \<and> \<not> (b4 \<and> b3 \<and> (b2 \<or> (b1 \<and> b0)))
      then Char b0 b1 b2 b3 b4 True b6 b7 else Char b0 b1 b2 b3 b4 b5 b6 b7)"
  by (cases b0; cases b1; cases b2; cases b3; cases b4; cases b5; cases b6; cases b7)
     (simp_all add: lower_char_def char_of_def bit_iff_odd)

lemma lower_char_idem [simp]: "lower_char (lower_char c) = lower_char c"
  by (cases c) simp

definition ToLower :: "string \<Rightarrow> string" where
  "ToLower s = map lower_char s"

lemma ToLower_simps [simp]:
  "ToLower [] = []" "ToLower (c # s) = lower_char c # ToLower s"
  by (simp_all add: ToLower_def)

lemma ToLower_append [simp]: "ToLower (s @ t) = ToLower s @ ToLower t"
  by (simp add: ToLower_def)

lemma ToLower_idem [simp]: "ToLower (ToLower s) = ToLower s"
  by (induction s) auto

lemma length_ToLower [simp]: "length (ToLower s) = length s"
  by (simp add: ToLower_def)

lemma ToLower_eq_Nil [simp]: "ToLower s = [] \<longleftrightarrow> s = []" "[] = ToLower s \<longleftrightarrow> s = []"
  by (auto simp: ToLower_def)

lemma ToLower_take: "ToLower (take n s) = take n (ToLower s)"
  by (simp add: ToLower_def take_map)

lemma ToLower_drop: "ToLower (drop n s) = drop n (ToLower s)"
  by (simp add: ToLower_def drop_map)

lemma ToLower_rev: "ToLower (rev s) = rev (ToLower s)"
  by (simp add: ToLower_def rev_map)

definition EqualFold :: "string \<Rightarrow> string \<Rightarrow> bool" where
  "EqualFold s t \<longleftrightarrow> ToLower s = ToLower t"

section \<open>White space\<close>

definition ascii_space :: "char \<Rightarrow> bool" where
  "ascii_space c \<longleftrightarrow> c = CHR '' '' \<or> c = CHR 0x09 \<or> c = CHR 0x0A \<or> c = CHR 0x0B \<or> c = CHR 0x0C \<or> c = CHR 0x0D"

text \<open>U+0085 and U+00A0.\<close>

definition space2 :: "char \<Rightarrow> char \<Rightarrow> bool" where
  "space2 a b \<longleftrightarrow> a = CHR 0xC2 \<and> (b = CHR 0x85 \<or> b = CHR 0xA0)"

text \<open>U+1680, U+2000 to U+200A, U+2028, U+2029, U+202F, U+205F and U+3000.\<close>

definition space3 :: "char \<Rightarrow> char \<Rightarrow> char \<Rightarrow> bool" where
  "space3 a b c \<longleftrightarrow>
     a = CHR 0xE1 \<and> b = CHR 0x9A \<and> c = CHR 0x80
   \<or> a = CHR 0xE2 \<and> b = CHR 0x80 \<and>
       (c = CHR 0x80 \<or> c = CHR 0x81 \<or> c = CHR 0x82 \<or> c = CHR 0x83 \<or> c = CHR 0x84 \<or> c = CHR 0x85
        \<or> c = CHR 0x86 \<or> c = CHR 0x87 \<or> c = CHR 0x88 \<or> c = CHR 0x89 \<or> c = CHR 0x8A
        \<or> c = CHR 0xA8 \<or> c = CHR 0xA9 \<or> c = CHR 0xAF)
   \<or> a = CHR 0xE2 \<and> b = CHR 0x81 \<and> c = CHR 0x9F
   \<or> a = CHR 0xE3 \<and> b = CHR 0x80 \<and> c = CHR 0x80"

definition sp2 :: "bool \<Rightarrow> char \<Rightarrow> char \<Rightarrow> bool" where
  "sp2 r a b = (if r then space2 b a else space2 a b)"

definition sp3 :: "bool \<Rightarrow> char \<Rightarrow> char \<Rightarrow> char \<Rightarrow> bool" where
  "sp3 r a b c = (if r then space3 c b a else space3 a b c)"

text \<open>Strip spaces at the front; with \<open>r\<close> the string (and so each rune) is reversed.\<close>

fun strip :: "bool \<Rightarrow> string \<Rightarrow> string" where
  "strip r [] = []"
| "strip r (a # s) =
     (if ascii_space a then strip r s
      else case s of [] \<Rightarrow> a # s
           | b # s' \<Rightarrow>
               if sp2 r a b then strip r s'
               else case s' of [] \<Rightarrow> a # s
                    | c # s'' \<Rightarrow> if sp3 r a b c then strip r s'' else a # s)"

definition TrimSpace :: "string \<Rightarrow> string" where
  "TrimSpace s = rev (strip True (rev (strip False s)))"

fun leads :: "bool \<Rightarrow> string \<Rightarrow> bool" where
  "leads r [] = False"
| "leads r (a # s) =
     (ascii_space a \<or>
      (case s of [] \<Rightarrow> False
       | b # s' \<Rightarrow> sp2 r a b \<or> (case s' of [] \<Rightarrow> False | c # s'' \<Rightarrow> sp3 r a b c)))"

lemma strip_eqs:
  "strip r [a] = (if ascii_space a then [] else [a])"
  "strip r [a, b] = (if ascii_space a then strip r [b] else if sp2 r a b then [] else [a, b])"
  "strip r (a # b # c # s) =
     (if ascii_space a then strip r (b # c # s)
      else if sp2 r a b then strip r (c # s)
      else if sp3 r a b c then strip r s else a # b # c # s)"
  by simp_all

lemma leads_eqs:
  "leads r [a] = ascii_space a"
  "leads r [a, b] = (ascii_space a \<or> sp2 r a b)"
  "leads r (a # b # c # s) = (ascii_space a \<or> sp2 r a b \<or> sp3 r a b c)"
  by simp_all

declare strip.simps(2) [simp del] leads.simps(2) [simp del]
declare strip_eqs [simp] leads_eqs [simp]

lemma triple_cases:
  obtains "s = []" | a where "s = [a]" | a b where "s = [a, b]" | a b c t where "s = a # b # c # t"
  by (metis list.exhaust)

text \<open>What stripping removes: the string is unchanged, or it loses its first one to three bytes.\<close>

lemma strip_cases:
  obtains (stop) "strip r s = s" "\<not> leads r s"
  | (less) k where "0 < k" "k \<le> length s" "strip r s = strip r (drop k s)"
proof (cases s rule: triple_cases)
  case 1
  then show thesis by (intro stop) simp_all
next
  case (2 a)
  then show thesis
    by (cases "ascii_space a") (auto intro: stop less[of 1])
next
  case (3 a b)
  then show thesis
    by (cases "ascii_space a"; cases "sp2 r a b") (auto intro: stop less[of 1] less[of 2])
next
  case (4 a b c t)
  then show thesis
    by (cases "ascii_space a"; cases "sp2 r a b"; cases "sp3 r a b c")
      (auto intro: stop less[of 1] less[of 2] less[of 3] simp: numeral_3_eq_3)
qed

lemma strip_drop: "\<exists>k. strip r s = drop k s"
proof (induction s rule: length_induct)
  case (1 s)
  show ?case
  proof (cases rule: strip_cases [of r s])
    case stop
    then show ?thesis by (metis drop_0)
  next
    case (less k)
    then have "length (drop k s) < length s" by simp
    with 1 obtain j where "strip r (drop k s) = drop j (drop k s)" by blast
    with less show ?thesis by auto
  qed
qed

lemma leads_strip [simp]: "\<not> leads r (strip r s)"
proof (induction s rule: length_induct)
  case (1 s)
  show ?case
  proof (cases rule: strip_cases [of r s])
    case stop
    then show ?thesis by simp
  next
    case (less k)
    with 1 show ?thesis by simp
  qed
qed

lemma strip_id: "\<not> leads r s \<Longrightarrow> strip r s = s"
  by (cases s rule: triple_cases) auto

lemma strip_idem [simp]: "strip r (strip r s) = strip r s"
  by (simp add: strip_id)

lemma leads_append: "leads r s \<Longrightarrow> leads r (s @ t)"
  by (cases s rule: triple_cases; cases t rule: triple_cases) auto

lemma leads_take: "leads r (take k s) \<Longrightarrow> leads r s"
  by (metis append_take_drop_id leads_append)

lemma TrimSpace_take:
  obtains k where "TrimSpace s = take k (strip False s)"
proof -
  obtain j where "strip True (rev (strip False s)) = drop j (rev (strip False s))"
    using strip_drop by blast
  then have "TrimSpace s = take (length (strip False s) - j) (strip False s)"
    by (simp add: TrimSpace_def rev_drop)
  then show ?thesis by (rule that)
qed

lemma not_leads_TrimSpace [simp]: "\<not> leads False (TrimSpace s)"
proof -
  obtain k where "TrimSpace s = take k (strip False s)"
    by (rule TrimSpace_take)
  then show ?thesis
    using leads_take[of False k "strip False s"] by auto
qed

lemma not_leads_rev_TrimSpace [simp]: "\<not> leads True (rev (TrimSpace s))"
  by (simp add: TrimSpace_def)

lemma TrimSpace_id: "\<not> leads False s \<Longrightarrow> \<not> leads True (rev s) \<Longrightarrow> TrimSpace s = s"
  by (simp add: TrimSpace_def strip_id)

lemma TrimSpace_idem [simp]: "TrimSpace (TrimSpace s) = TrimSpace s"
  by (simp add: TrimSpace_id)

text \<open>Only white space strips to nothing, and then its last character is white space too.\<close>

lemma strip_Nil_leads_rev: "strip False s = [] \<Longrightarrow> s \<noteq> [] \<Longrightarrow> leads True (rev s)"
proof (induction "length s" arbitrary: s rule: less_induct)
  case less
  have tail: "leads True (rev (p @ t))" if "t \<noteq> []" "strip False t = []" "p \<noteq> []" "s = p @ t" for p t
    using less(1) [of t] that by (simp add: leads_append)
  show ?case
  proof (cases s rule: triple_cases)
    case (4 a b c t)
    consider "ascii_space a" | "\<not> ascii_space a" "sp2 False a b" | "\<not> ascii_space a" "\<not> sp2 False a b" "sp3 False a b c"
      using less.prems 4 by (auto split: if_splits)
    then show ?thesis
    proof cases
      case 1
      with less.prems 4 tail [of "b # c # t" "[a]"] show ?thesis by simp
    next
      case 2
      with less.prems 4 tail [of "c # t" "[a, b]"] show ?thesis by simp
    next
      case 3
      then have "strip False t = []" using less.prems 4 by simp
      moreover have "leads True ([c, b, a] @ [])" if "t = []" using 3 by (simp add: sp3_def)
      ultimately show ?thesis using 4 tail [of t "[a, b, c]"] by (cases "t = []") auto
    qed
  qed (use less.prems in \<open>auto simp: sp2_def split: if_splits\<close>)
qed

lemma TrimSpace_not_blank:
  assumes "s \<noteq> []" and "\<not> leads True (rev s)"
  shows "TrimSpace s \<noteq> []"
proof
  assume blank: "TrimSpace s = []"
  obtain k where k: "strip False s = drop k s" using strip_drop by blast
  have "rev (drop k s) = take (length s - k) (rev s)" by (simp add: rev_drop)
  then have "\<not> leads True (rev (strip False s))" using assms(2) leads_take k by metis
  then have "strip False s = []" using blank by (simp add: TrimSpace_def strip_id)
  with assms strip_Nil_leads_rev show False by blast
qed

lemma length_strip_le: "length (strip r s) \<le> length s"
  by (metis strip_drop length_drop diff_le_self)

lemma length_TrimSpace_le: "length (TrimSpace s) \<le> length s"
proof -
  have "length (TrimSpace s) \<le> length (strip False s)"
    unfolding TrimSpace_def by (metis length_rev length_strip_le)
  also have "\<dots> \<le> length s" by (rule length_strip_le)
  finally show ?thesis .
qed

lemma TrimSpace_Nil [simp]: "TrimSpace [] = []"
  by (simp add: TrimSpace_def)

lemma spaces_lower_char [simp]:
  "ascii_space (lower_char a) = ascii_space a"
  "sp2 r (lower_char a) (lower_char b) = sp2 r a b"
  "sp3 r (lower_char a) (lower_char b) (lower_char c) = sp3 r a b c"
  by (cases a; cases b; cases c;
      force simp: ascii_space_def sp2_def sp3_def space2_def space3_def)+

lemma ToLower_strip: "ToLower (strip r s) = strip r (ToLower s)"
proof (induction s rule: length_induct)
  case (1 s)
  show ?case
  proof (cases s rule: triple_cases)
    case (4 a b c t)
    with 1 show ?thesis by simp
  qed (use 1 in simp_all)
qed

lemma ToLower_TrimSpace: "ToLower (TrimSpace s) = TrimSpace (ToLower s)"
  by (simp add: TrimSpace_def ToLower_strip ToLower_rev)

lemma TrimSpace_eq_Nil_ToLower [simp]: "TrimSpace (ToLower s) = [] \<longleftrightarrow> TrimSpace s = []"
  by (metis ToLower_TrimSpace ToLower_eq_Nil(1))

section \<open>Prefixes, suffixes, substrings\<close>

definition HasPrefix :: "string \<Rightarrow> string \<Rightarrow> bool" where
  "HasPrefix s p \<longleftrightarrow> take (length p) s = p"

definition HasSuffix :: "string \<Rightarrow> string \<Rightarrow> bool" where
  "HasSuffix s p \<longleftrightarrow> length p \<le> length s \<and> drop (length s - length p) s = p"

fun Contains :: "string \<Rightarrow> string \<Rightarrow> bool" where
  "Contains [] p = (p = [])"
| "Contains (c # s) p = (HasPrefix (c # s) p \<or> Contains s p)"

definition TrimPrefix :: "string \<Rightarrow> string \<Rightarrow> string" where
  "TrimPrefix s p = (if HasPrefix s p then drop (length p) s else s)"

lemma HasPrefix_iff: "HasPrefix s p \<longleftrightarrow> (\<exists>t. s = p @ t)"
  by (metis HasPrefix_def append_eq_conv_conj append_take_drop_id)

lemma HasPrefix_append [simp]: "HasPrefix (p @ s) p"
  by (simp add: HasPrefix_def)

lemma TrimPrefix_append [simp]: "TrimPrefix (p @ s) p = s"
  by (simp add: TrimPrefix_def)

lemma HasSuffix_iff: "HasSuffix s p \<longleftrightarrow> (\<exists>t. s = t @ p)"
proof
  assume "HasSuffix s p"
  then have "s = take (length s - length p) s @ p"
    by (metis HasSuffix_def append_take_drop_id)
  then show "\<exists>t. s = t @ p" ..
qed (auto simp: HasSuffix_def)

lemma Contains_iff: "Contains s p \<longleftrightarrow> (\<exists>u v. s = u @ p @ v)"
proof (induction s)
  case (Cons c s)
  then show ?case by (auto simp: HasPrefix_iff Cons_eq_append_conv)
qed simp

text \<open>Drop the last \<open>n\<close> bytes: Go's \<open>value[:len(value)-n]\<close>.\<close>

definition drop_last :: "nat \<Rightarrow> string \<Rightarrow> string" where
  "drop_last n s = take (length s - n) s"

lemma ToLower_drop_last: "ToLower (drop_last n s) = drop_last n (ToLower s)"
  by (simp add: drop_last_def ToLower_take)

section \<open>\<open>filepath.Base\<close>\<close>

definition filepath_Base :: "string \<Rightarrow> string" where
  "filepath_Base path =
     (if path = [] then ''.''
      else let stripped = rev (dropWhile (\<lambda>c. c = CHR ''/'') (rev path));
               base = rev (takeWhile (\<lambda>c. c \<noteq> CHR ''/'') (rev stripped))
           in if base = [] then ''/'' else base)"

lemma lower_char_slash [simp]: "lower_char c = CHR ''/'' \<longleftrightarrow> c = CHR ''/''"
  by (cases c) auto

lemma dropWhile_lower: "dropWhile (\<lambda>c. c = CHR ''/'') (ToLower s) = ToLower (dropWhile (\<lambda>c. c = CHR ''/'') s)"
  by (induction s) auto

lemma takeWhile_lower: "takeWhile (\<lambda>c. c \<noteq> CHR ''/'') (ToLower s) = ToLower (takeWhile (\<lambda>c. c \<noteq> CHR ''/'') s)"
  by (induction s) auto

lemma ToLower_Base: "ToLower (filepath_Base s) = filepath_Base (ToLower s)"
  by (simp add: filepath_Base_def Let_def dropWhile_lower takeWhile_lower flip: ToLower_rev)

lemma length_Base_le: "s \<noteq> [] \<Longrightarrow> length (filepath_Base s) \<le> length s"
proof -
  assume "s \<noteq> []"
  let ?d = "dropWhile (\<lambda>c. c = CHR ''/'') (rev s)"
  have "length (takeWhile (\<lambda>c. c \<noteq> CHR ''/'') ?d) \<le> length s"
    by (metis length_rev le_trans length_takeWhile_le length_dropWhile_le)
  moreover have "Suc 0 \<le> length s" using \<open>s \<noteq> []\<close> by (cases s) auto
  ultimately show ?thesis
    using \<open>s \<noteq> []\<close> by (simp add: filepath_Base_def Let_def)
qed

lemma Base_not_Nil [simp]: "filepath_Base s \<noteq> []"
  by (simp add: filepath_Base_def Let_def)

lemma length_Base_less: "s \<noteq> [] \<Longrightarrow> filepath_Base s \<noteq> s \<Longrightarrow> length (filepath_Base s) < length s"
proof -
  assume s: "s \<noteq> []" "filepath_Base s \<noteq> s"
  let ?slash = "\<lambda>c. c = CHR ''/''" and ?word = "\<lambda>c. c \<noteq> CHR ''/''"
  define a where "a = takeWhile ?slash (rev s)"
  define w where "w = takeWhile ?word (dropWhile ?slash (rev s))"
  define c where "c = dropWhile ?word (dropWhile ?slash (rev s))"
  have split: "rev s = a @ w @ c" by (simp add: a_def w_def c_def)
  have base: "filepath_Base s = (if w = [] then ''/'' else rev w)"
    using s(1) by (simp add: filepath_Base_def Let_def w_def)
  show ?thesis
  proof (cases "w = []")
    case True
    then have "dropWhile ?slash (rev s) = []"
      by (cases "dropWhile ?slash (rev s)") (auto simp: w_def dropWhile_eq_Cons_conv)
    then have "\<forall>x\<in>set s. x = CHR ''/''" by simp
    with s True base show ?thesis by (cases s; cases "tl s") auto
  next
    case False
    have len: "length s = length a + length w + length c"
      using split by (metis add.assoc length_append length_rev)
    have "length w \<noteq> length s"
    proof
      assume "length w = length s"
      with len have "a = []" "c = []" by auto
      with split base False s(2) show False by (metis append_Nil append_Nil2 rev_rev_ident)
    qed
    with len base False show ?thesis by simp
  qed
qed

section \<open>\<open>strconv\<close>\<close>

text \<open>Decimal digits, most significant first.\<close>

definition digit_char :: "nat \<Rightarrow> char" where
  "digit_char d = char_of (48 + d)"

definition is_digit :: "char \<Rightarrow> bool" where
  "is_digit c \<longleftrightarrow> 48 \<le> (of_char c :: nat) \<and> (of_char c :: nat) \<le> 57"

definition digit_val :: "char \<Rightarrow> nat" where
  "digit_val c = of_char c - 48"

fun nat_digits :: "nat \<Rightarrow> string" where
  "nat_digits n = (if n < 10 then [digit_char n] else nat_digits (n div 10) @ [digit_char (n mod 10)])"

declare nat_digits.simps [simp del]

definition Itoa :: "int \<Rightarrow> string" where
  "Itoa i = (if i < 0 then CHR ''-'' # nat_digits (nat (- i)) else nat_digits (nat i))"

definition digits_val :: "string \<Rightarrow> nat" where
  "digits_val s = foldl (\<lambda>n c. 10 * n + digit_val c) 0 s"

text \<open>\<open>strconv.Atoi\<close> and \<open>strconv.ParseInt(_, 10, 64)\<close>: an optional sign, at least one
  digit, nothing else, and a value in the range of \<open>int64\<close>.\<close>

definition in_int64 :: "int \<Rightarrow> bool" where
  "in_int64 i \<longleftrightarrow> - (2 ^ 63) \<le> i \<and> i < 2 ^ 63"

definition Atoi :: "string \<Rightarrow> int option" where
  "Atoi s =
     (let neg = (s \<noteq> [] \<and> hd s = CHR ''-'');
          body = (if s \<noteq> [] \<and> (hd s = CHR ''-'' \<or> hd s = CHR ''+'') then tl s else s);
          v = (if neg then - int (digits_val body) else int (digits_val body))
      in if body \<noteq> [] \<and> list_all is_digit body \<and> in_int64 v then Some v else None)"

lemma of_char_digit: "d < 10 \<Longrightarrow> of_char (digit_char d) = 48 + d"
  by (simp add: digit_char_def)

lemma digit_char_simps [simp]:
  "d < 10 \<Longrightarrow> is_digit (digit_char d)"
  "d < 10 \<Longrightarrow> digit_val (digit_char d) = d"
  by (simp_all add: is_digit_def digit_val_def of_char_digit)

lemma digits_val_nat_digits [simp]: "digits_val (nat_digits n) = n"
proof (induction n rule: nat_digits.induct)
  case (1 n)
  show ?case
  proof (cases "n < 10")
    case True
    then show ?thesis by (simp add: nat_digits.simps [of n] digits_val_def)
  next
    case False
    with 1 show ?thesis by (subst nat_digits.simps) (simp add: digits_val_def)
  qed
qed

lemma nat_digits_is_digit: "list_all is_digit (nat_digits n)"
proof (induction n rule: nat_digits.induct)
  case (1 n)
  then show ?case by (cases "n < 10") (simp_all add: nat_digits.simps [of n])
qed

lemma nat_digits_not_Nil [simp]: "nat_digits n \<noteq> []"
  by (subst nat_digits.simps) simp

lemma is_digit_not_sign: "is_digit c \<Longrightarrow> c \<noteq> CHR ''-'' \<and> c \<noteq> CHR ''+'' \<and> c \<noteq> CHR '':''"
  by (auto simp: is_digit_def)

lemma Atoi_nat_digits: "int n < 2 ^ 63 \<Longrightarrow> Atoi (nat_digits n) = Some (int n)"
proof -
  assume n: "int n < 2 ^ 63"
  have "is_digit (hd (nat_digits n))"
    by (metis nat_digits_is_digit nat_digits_not_Nil list.set_sel(1) Ball_set)
  with n nat_digits_is_digit [of n] show ?thesis
    by (auto simp: Atoi_def Let_def in_int64_def dest: is_digit_not_sign)
qed

lemma Itoa_roundtrip: "in_int64 i \<Longrightarrow> Atoi (Itoa i) = Some i"
proof (cases "i < 0")
  case True
  assume "in_int64 i"
  with True show ?thesis
    by (simp add: Itoa_def Atoi_def Let_def nat_digits_is_digit)
next
  case False
  assume "in_int64 i"
  with False show ?thesis
    using Atoi_nat_digits [of "nat i"] by (simp add: Itoa_def in_int64_def)
qed

text \<open>The lines up to and after the first occurrence of a byte (\<open>strings.IndexByte\<close>).\<close>

definition IndexByte :: "string \<Rightarrow> char \<Rightarrow> nat option" where
  "IndexByte s c = (if c \<in> set s then Some (length (takeWhile (\<lambda>d. d \<noteq> c) s)) else None)"

lemma IndexByte_append: "c \<notin> set s \<Longrightarrow> IndexByte (s @ c # t) c = Some (length s)"
  by (induction s) (auto simp: IndexByte_def)

text \<open>\<open>strings.Join\<close>.\<close>

fun Join :: "string list \<Rightarrow> string \<Rightarrow> string" where
  "Join [] sep = []"
| "Join [s] sep = s"
| "Join (s # t # ss) sep = s @ sep @ Join (t # ss) sep"

text \<open>\<open>strings.Trim\<close> with a set of ASCII cut characters.\<close>

definition TrimSet :: "string \<Rightarrow> char list \<Rightarrow> string" where
  "TrimSet s cs = rev (dropWhile (\<lambda>c. c \<in> set cs) (rev (dropWhile (\<lambda>c. c \<in> set cs) s)))"

end
