(* ===== verification/Identity.thy ===== *)
theory Identity
  imports GoStrings
begin

text \<open>
  Providers, account identities and their aliases: \<open>provider.go\<close>, the value helpers of
  \<open>reporting.go\<close>, the alias functions of \<open>summary.go\<close>, the scheduler candidate of
  \<open>main.go\<close> and the credential shapes of \<open>privacy.go\<close>. The main results: the alias
  expansion is the closure of the path-base and suffix steps, and expanding its own output
  adds nothing (the stability its comment claims).
\<close>

section \<open>Providers (\<open>provider.go\<close>)\<close>

definition providerCodex :: string where "providerCodex = ''codex''"
definition providerXAI :: string where "providerXAI = ''xai''"

definition canonicalProvider :: "string \<Rightarrow> string" where
  "canonicalProvider value = ToLower (TrimSpace value)"

definition canonicalProviderOr :: "string \<Rightarrow> string \<Rightarrow> string" where
  "canonicalProviderOr value fallback =
     (let provider = canonicalProvider value
      in if provider \<noteq> [] then provider else canonicalProvider fallback)"

definition requiredCanonicalProvider :: "string \<Rightarrow> (string, string) result" where
  "requiredCanonicalProvider value =
     (let provider = canonicalProvider value
      in if provider = [] then Inl ''provider is required'' else Inr provider)"

lemma canonicalProvider_idem [simp]: "canonicalProvider (canonicalProvider s) = canonicalProvider s"
  by (simp add: canonicalProvider_def flip: ToLower_TrimSpace)

lemma canonicalProvider_Nil [simp]: "canonicalProvider [] = []"
  by (simp add: canonicalProvider_def)

section \<open>Loosely typed values (\<open>reporting.go\<close>)\<close>

text \<open>
  A Go \<open>any\<close> decoded from JSON or built by the plugin. A floating-point number carries
  the integer it equals, if it equals one, and the text \<open>strconv.FormatFloat(v, 'f', -1, 64)\<close>
  prints; every other value carries what \<open>json.Marshal\<close> returns for it.
\<close>

datatype any_value =
    AnyNil
  | AnyString string
  | AnyBytes string
  | AnyInt int
  | AnyInt64 int
  | AnyFloat "int option" string
  | AnyOther "string option"

type_synonym metadata = "(string \<times> any_value) list"
type_synonym attributes = "(string \<times> string) list"
type_synonym headers = "(string \<times> string list) list"

fun stringFromAny :: "any_value \<Rightarrow> string" where
  "stringFromAny (AnyString v) = TrimSpace v"
| "stringFromAny (AnyBytes v) = TrimSpace v"
| "stringFromAny (AnyInt v) = Itoa v"
| "stringFromAny (AnyInt64 v) = Itoa v"
| "stringFromAny (AnyFloat (Some i) text) = Itoa i"
| "stringFromAny (AnyFloat None text) = text"
| "stringFromAny AnyNil = []"
| "stringFromAny (AnyOther None) = []"
| "stringFromAny (AnyOther (Some raw)) = TrimSet (TrimSpace raw) [CHR 0x22]"

fun firstNonEmptyString :: "string list \<Rightarrow> string" where
  "firstNonEmptyString [] = []"
| "firstNonEmptyString (v # vs) =
     (let trimmed = TrimSpace v in if trimmed \<noteq> [] then trimmed else firstNonEmptyString vs)"

lemma TrimSpace_firstNonEmptyString [simp]: "TrimSpace (firstNonEmptyString vs) = firstNonEmptyString vs"
  by (induction vs) (auto simp: Let_def)

lemma firstNonEmptyString_Nil_iff: "firstNonEmptyString vs = [] \<longleftrightarrow> (\<forall>v\<in>set vs. TrimSpace v = [])"
  by (induction vs) (auto simp: Let_def)

text \<open>The list order of \<open>headers\<close> is the order in which the runtime iterates over the map.\<close>

definition headerValue :: "headers \<Rightarrow> string \<Rightarrow> string" where
  "headerValue headers key =
     (case find (\<lambda>(k, values). EqualFold k key \<and> values \<noteq> []) headers of
        None \<Rightarrow> [] | Some (k, values) \<Rightarrow> TrimSpace (hd values))"

definition headerInt :: "headers \<Rightarrow> string \<Rightarrow> int option" where
  "headerInt headers key =
     (let value = headerValue headers key in if value = [] then None else Atoi value)"

definition headerIntValue :: "headers \<Rightarrow> string \<Rightarrow> int" where
  "headerIntValue headers key = (case headerInt headers key of None \<Rightarrow> 0 | Some n \<Rightarrow> n)"

section \<open>Aliases (\<open>summary.go\<close>)\<close>

definition normalizeAccountAlias :: "string \<Rightarrow> string" where
  "normalizeAccountAlias value = ToLower (TrimSpace value)"

lemma normalizeAccountAlias_idem [simp]:
  "normalizeAccountAlias (normalizeAccountAlias s) = normalizeAccountAlias s"
  by (simp add: normalizeAccountAlias_def flip: ToLower_TrimSpace)

lemma normalizeAccountAlias_TrimSpace [simp]:
  "normalizeAccountAlias (TrimSpace s) = normalizeAccountAlias s"
  by (simp add: normalizeAccountAlias_def)

definition fileNameIfJSON :: "string \<Rightarrow> string" where
  "fileNameIfJSON value =
     (let v = TrimSpace value
      in if v = [] then []
         else let base = filepath_Base v
              in if HasSuffix (ToLower base) ''.json'' then base else [])"

text \<open>The values one dequeued value puts on the queue of \<open>expandAccountAliases\<close>.\<close>

definition alias_children :: "bool \<Rightarrow> string \<Rightarrow> string list" where
  "alias_children includeCPAStem value =
     (let base = filepath_Base value; lower = ToLower value
      in (if base \<noteq> [] \<and> base \<noteq> value then [base] else [])
       @ (if includeCPAStem \<and> HasSuffix lower ''.cpa.json'' then [drop_last 9 value] else [])
       @ (if HasSuffix lower ''.json'' then [drop_last 5 value] else []))"

lemma HasSuffix_length: "HasSuffix s p \<Longrightarrow> length p \<le> length s"
  by (simp add: HasSuffix_def)

lemma alias_children_shorter:
  "value \<noteq> [] \<Longrightarrow> c \<in> set (alias_children b value) \<Longrightarrow> length c < length value"
  by (auto simp: alias_children_def Let_def drop_last_def dest!: HasSuffix_length
      intro: length_Base_less split: if_splits)

lemma length_alias_children: "length (alias_children b value) \<le> 3"
  by (simp add: alias_children_def Let_def)

text \<open>
  The loop of \<open>expandAccountAliases\<close> over its queue, with the processed values and the
  output so far (\<open>seen\<close> is the set of the output). Every value put on the queue is
  shorter than the one it comes from, and there are at most three, which bounds the queue.
\<close>

definition queue_weight :: "string list \<Rightarrow> nat" where
  "queue_weight q = (\<Sum>s\<leftarrow>q. 4 ^ length s)"

lemma queue_weight_simps [simp]:
  "queue_weight [] = 0"
  "queue_weight (s # q) = 4 ^ length s + queue_weight q"
  "queue_weight (q @ r) = queue_weight q + queue_weight r"
  by (simp_all add: queue_weight_def)

lemma queue_weight_children:
  assumes "\<And>c. c \<in> set cs \<Longrightarrow> length c < n" and "length cs \<le> 3"
  shows "queue_weight cs < 4 ^ n"
proof (cases n)
  case 0
  with assms(1) have "cs = []" by (cases cs) auto
  then show ?thesis by (simp add: 0)
next
  case (Suc k)
  with assms(1) have le: "length c \<le> k" if "c \<in> set cs" for c using that by force
  have "queue_weight cs \<le> length cs * 4 ^ k"
    using le by (induction cs) (auto intro!: add_mono power_increasing)
  also have "\<dots> \<le> 3 * 4 ^ k" using assms(2) by (rule mult_right_mono) simp
  also have "\<dots> < 4 ^ n" by (simp add: Suc)
  finally show ?thesis .
qed

lemma expand_loop_decreases:
  "TrimSpace q \<noteq> [] \<Longrightarrow> queue_weight (queue @ alias_children b (TrimSpace q)) < queue_weight (q # queue)"
proof -
  assume "TrimSpace q \<noteq> []"
  then have "queue_weight (alias_children b (TrimSpace q)) < 4 ^ length (TrimSpace q)"
    by (intro queue_weight_children) (auto dest: alias_children_shorter simp: length_alias_children)
  also have "\<dots> \<le> 4 ^ length q" by (intro power_increasing length_TrimSpace_le) simp
  finally show ?thesis by simp
qed

function expand_loop :: "bool \<Rightarrow> string list \<Rightarrow> string list \<Rightarrow> string list \<Rightarrow> string list" where
  "expand_loop b [] processed out = out"
| "expand_loop b (q # queue) processed out =
     (let value = TrimSpace q
      in if value = [] \<or> value \<in> set processed then expand_loop b queue processed out
         else let alias = normalizeAccountAlias value;
                  out' = (if alias \<noteq> [] then add_new alias out else out)
              in expand_loop b (queue @ alias_children b value) (value # processed) out')"
  by pat_completeness auto

termination
  by (relation "measure (\<lambda>(b, q, p, out). queue_weight q)") (use expand_loop_decreases in auto)

definition expandAccountAliases :: "string list \<Rightarrow> bool \<Rightarrow> string list" where
  "expandAccountAliases values includeCPAStem = expand_loop includeCPAStem values [] []"

definition normalizeAccountAliases :: "string list \<Rightarrow> string list" where
  "normalizeAccountAliases values = expandAccountAliases values True"

definition strictFileIdentityAliases :: "string list \<Rightarrow> string list" where
  "strictFileIdentityAliases values = expandAccountAliases values False"

declare expand_loop.simps(2) [simp del]

lemma expand_loop_skip:
  "TrimSpace q = [] \<or> TrimSpace q \<in> set processed \<Longrightarrow>
   expand_loop b (q # queue) processed out = expand_loop b queue processed out"
  by (simp add: expand_loop.simps(2))

lemma expand_loop_take:
  "TrimSpace q \<noteq> [] \<Longrightarrow> TrimSpace q \<notin> set processed \<Longrightarrow>
   expand_loop b (q # queue) processed out =
     expand_loop b (queue @ alias_children b (TrimSpace q)) (TrimSpace q # processed)
       (add_new (ToLower (TrimSpace q)) out)"
  by (simp add: expand_loop.simps(2) Let_def normalizeAccountAlias_def)

text \<open>
  What the loop computes: the values reachable from the trimmed inputs by the child steps,
  in lower case.
\<close>

inductive alias_reach :: "bool \<Rightarrow> string set \<Rightarrow> string \<Rightarrow> bool" for b V where
  input: "v \<in> V \<Longrightarrow> TrimSpace v \<noteq> [] \<Longrightarrow> alias_reach b V (TrimSpace v)"
| child: "alias_reach b V v \<Longrightarrow> c \<in> set (alias_children b v) \<Longrightarrow> TrimSpace c \<noteq> [] \<Longrightarrow>
    alias_reach b V (TrimSpace c)"

lemma alias_reach_trimmed: "alias_reach b V v \<Longrightarrow> TrimSpace v = v \<and> v \<noteq> []"
  by (induction rule: alias_reach.induct) auto

lemma normalizeAccountAlias_trimmed: "TrimSpace v = v \<Longrightarrow> normalizeAccountAlias v = ToLower v"
  by (simp add: normalizeAccountAlias_def)

lemma expand_loop_sound:
  assumes "\<And>v. v \<in> set queue \<Longrightarrow> TrimSpace v \<noteq> [] \<Longrightarrow> alias_reach b V (TrimSpace v)"
    and "set out \<subseteq> ToLower ` Collect (alias_reach b V)"
  shows "set (expand_loop b queue processed out) \<subseteq> ToLower ` Collect (alias_reach b V)"
  using assms
proof (induction b queue processed out rule: expand_loop.induct)
  case (1 b processed out)
  then show ?case by simp
next
  case (2 b q queue processed out)
  let ?v = "TrimSpace q"
  show ?case
  proof (cases "?v = [] \<or> ?v \<in> set processed")
    case True
    with 2 show ?thesis by (simp add: expand_loop_skip)
  next
    case False
    let ?out = "add_new (ToLower ?v) out"
    have reach: "alias_reach b V ?v" using 2(3) False by simp
    have out: "set ?out \<subseteq> ToLower ` Collect (alias_reach b V)"
      using 2(4) reach by auto
    have queue: "alias_reach b V (TrimSpace v)"
      if "v \<in> set (queue @ alias_children b ?v)" "TrimSpace v \<noteq> []" for v
      using that 2(3) reach by (auto intro: alias_reach.child)
    have "set (expand_loop b (queue @ alias_children b ?v) (?v # processed) ?out)
        \<subseteq> ToLower ` Collect (alias_reach b V)"
      by (rule 2(2)) (use out queue False in \<open>auto simp: normalizeAccountAlias_def\<close>)
    with False show ?thesis by (simp add: expand_loop_take)
  qed
qed

definition alias_closed :: "bool \<Rightarrow> string set \<Rightarrow> string list \<Rightarrow> string list \<Rightarrow> string list \<Rightarrow> bool" where
  "alias_closed b V queue processed out \<longleftrightarrow>
     (\<forall>v\<in>V. TrimSpace v = [] \<or> TrimSpace v \<in> set processed \<or> v \<in> set queue)
   \<and> (\<forall>p\<in>set processed. ToLower p \<in> set out
       \<and> (\<forall>c\<in>set (alias_children b p). TrimSpace c = [] \<or> TrimSpace c \<in> set processed \<or> c \<in> set queue))"

lemma alias_closed_reach:
  assumes "alias_closed b V [] processed out" and "alias_reach b V v"
  shows "v \<in> set processed"
  using assms(2,1) by (induction rule: alias_reach.induct) (auto simp: alias_closed_def)

lemma expand_loop_complete:
  assumes "alias_closed b V queue processed out" and "alias_reach b V v"
  shows "ToLower v \<in> set (expand_loop b queue processed out)"
  using assms
proof (induction b queue processed out rule: expand_loop.induct)
  case (1 b processed out)
  then have "v \<in> set processed" by (rule alias_closed_reach)
  with 1 show ?case by (simp add: alias_closed_def)
next
  case (2 b q queue processed out)
  let ?v = "TrimSpace q"
  show ?case
  proof (cases "?v = [] \<or> ?v \<in> set processed")
    case True
    with 2(3) have "alias_closed b V queue processed out" by (auto simp: alias_closed_def)
    with 2 True show ?thesis by (simp add: expand_loop_skip)
  next
    case False
    let ?out = "add_new (ToLower ?v) out"
    have "alias_closed b V (queue @ alias_children b ?v) (?v # processed) ?out"
      using 2(3) by (auto simp: alias_closed_def)
    then have "ToLower v \<in> set (expand_loop b (queue @ alias_children b ?v) (?v # processed) ?out)"
      by (intro 2(2)) (use 2(4) False in \<open>auto simp: normalizeAccountAlias_def\<close>)
    with False show ?thesis by (simp add: expand_loop_take)
  qed
qed

lemma set_expandAccountAliases:
  "set (expandAccountAliases values b) = ToLower ` Collect (alias_reach b (set values))"
proof
  show "set (expandAccountAliases values b) \<subseteq> ToLower ` Collect (alias_reach b (set values))"
    unfolding expandAccountAliases_def by (rule expand_loop_sound) (auto intro: alias_reach.input)
  have "alias_closed b (set values) values [] []" by (simp add: alias_closed_def)
  then show "ToLower ` Collect (alias_reach b (set values)) \<subseteq> set (expandAccountAliases values b)"
    unfolding expandAccountAliases_def by (auto intro: expand_loop_complete)
qed

lemma distinct_expand_loop: "distinct out \<Longrightarrow> distinct (expand_loop b queue processed out)"
  by (induction b queue processed out rule: expand_loop.induct)
     (simp_all add: expand_loop.simps(2) Let_def)

lemma distinct_expandAccountAliases: "distinct (expandAccountAliases values b)"
  by (simp add: expandAccountAliases_def distinct_expand_loop)

lemma expandAccountAliases_normal:
  assumes "a \<in> set (expandAccountAliases values b)"
  shows "normalizeAccountAlias a = a" and "a \<noteq> []"
proof -
  from assms obtain v where "alias_reach b (set values) v" and a: "a = ToLower v"
    by (auto simp: set_expandAccountAliases)
  then have v: "TrimSpace v = v" "v \<noteq> []" using alias_reach_trimmed by auto
  then show "normalizeAccountAlias a = a" "a \<noteq> []"
    by (simp_all add: a normalizeAccountAlias_def flip: ToLower_TrimSpace)
qed

lemma HasSuffix_ToLower_drop: "HasSuffix s p \<Longrightarrow> ToLower s = s \<Longrightarrow> ToLower (drop_last n s) = drop_last n s"
  by (simp add: ToLower_drop_last)

lemma alias_children_ToLower:
  "c \<in> set (alias_children b (ToLower v)) \<Longrightarrow> \<exists>c'\<in>set (alias_children b v). c = ToLower c'"
proof -
  assume c: "c \<in> set (alias_children b (ToLower v))"
  have base: "ToLower (filepath_Base v) \<noteq> ToLower v \<Longrightarrow> filepath_Base v \<noteq> v" by auto
  show ?thesis
    using c base
    by (auto simp: alias_children_def Let_def ToLower_drop_last simp flip: ToLower_Base split: if_splits)
qed

lemma alias_reach_ToLower:
  assumes "alias_reach b (ToLower ` Collect (alias_reach b V)) w"
  shows "\<exists>v. alias_reach b V v \<and> w = ToLower v"
  using assms
proof (induction rule: alias_reach.induct)
  case (input u)
  then obtain v where v: "alias_reach b V v" "u = ToLower v" by auto
  then have "TrimSpace u = ToLower v" using alias_reach_trimmed by (simp flip: ToLower_TrimSpace)
  with v show ?case by blast
next
  case (child u c)
  then obtain v where v: "alias_reach b V v" "u = ToLower v" by blast
  with child.hyps obtain c' where c': "c' \<in> set (alias_children b v)" "c = ToLower c'"
    using alias_children_ToLower by blast
  with child.hyps v have "alias_reach b V (TrimSpace c')"
    by (intro alias_reach.child) auto
  with c' show ?case by (auto simp flip: ToLower_TrimSpace)
qed

lemma alias_reach_ToLower_mem:
  "alias_reach b V v \<Longrightarrow> alias_reach b (ToLower ` Collect (alias_reach b V)) (ToLower v)"
proof -
  assume v: "alias_reach b V v"
  then have "TrimSpace (ToLower v) = ToLower v" "v \<noteq> []"
    using alias_reach_trimmed by (simp_all flip: ToLower_TrimSpace)
  then show ?thesis
    using alias_reach.input [of "ToLower v" "ToLower ` Collect (alias_reach b V)" b] v by auto
qed

lemma set_expandAccountAliases_idem:
  "set (expandAccountAliases (expandAccountAliases values b) b) = set (expandAccountAliases values b)"
proof -
  let ?R = "Collect (alias_reach b (set values))"
  have "ToLower ` Collect (alias_reach b (ToLower ` ?R)) = ToLower ` ?R"
  proof (intro subset_antisym subsetI)
    fix x assume "x \<in> ToLower ` Collect (alias_reach b (ToLower ` ?R))"
    then obtain w where w: "alias_reach b (ToLower ` ?R) w" "x = ToLower w" by blast
    from alias_reach_ToLower [OF w(1)] w(2) show "x \<in> ToLower ` ?R" by auto
  next
    fix x assume "x \<in> ToLower ` ?R"
    then obtain v where v: "alias_reach b (set values) v" "x = ToLower v" by blast
    from alias_reach_ToLower_mem [OF v(1)] v(2)
    show "x \<in> ToLower ` Collect (alias_reach b (ToLower ` ?R))"
      by (metis ToLower_idem imageI mem_Collect_eq)
  qed
  then show ?thesis by (simp add: set_expandAccountAliases)
qed

lemma expandAccountAliases_mono:
  "set vs \<subseteq> set ws \<Longrightarrow> set (expandAccountAliases vs b) \<subseteq> set (expandAccountAliases ws b)"
proof -
  assume sub: "set vs \<subseteq> set ws"
  have "alias_reach b (set ws) v" if "alias_reach b (set vs) v" for v
    using that by (induction rule: alias_reach.induct) (use sub in \<open>auto intro: alias_reach.intros\<close>)
  then show ?thesis by (auto simp: set_expandAccountAliases)
qed

lemma normalizeAccountAlias_in_expand:
  "v \<in> set values \<Longrightarrow> TrimSpace v \<noteq> [] \<Longrightarrow> normalizeAccountAlias v \<in> set (expandAccountAliases values b)"
  by (auto simp: set_expandAccountAliases normalizeAccountAlias_def intro: alias_reach.input)

lemma expandAccountAliases_Nil_iff:
  "expandAccountAliases values b = [] \<longleftrightarrow> (\<forall>v\<in>set values. TrimSpace v = [])"
proof -
  have "expandAccountAliases values b = [] \<longleftrightarrow> Collect (alias_reach b (set values)) = {}"
    by (metis set_empty set_expandAccountAliases image_is_empty)
  also have "\<dots> \<longleftrightarrow> (\<forall>v\<in>set values. TrimSpace v = [])"
  proof safe
    fix v assume "Collect (alias_reach b (set values)) = {}" "v \<in> set values"
    then show "TrimSpace v = []" using alias_reach.input by blast
  next
    fix x assume "alias_reach b (set values) x" and none: "\<forall>v\<in>set values. TrimSpace v = []"
    then show "x \<in> {}" by (induction rule: alias_reach.induct) auto
  qed
  finally show ?thesis .
qed

lemma expandAccountAliases_mono_trimmed:
  assumes "\<And>v. v \<in> set vs \<Longrightarrow> TrimSpace v \<noteq> [] \<Longrightarrow> \<exists>w\<in>set ws. TrimSpace w = TrimSpace v"
  shows "set (expandAccountAliases vs b) \<subseteq> set (expandAccountAliases ws b)"
proof -
  have "alias_reach b (set ws) v" if "alias_reach b (set vs) v" for v
    using that
  proof (induction rule: alias_reach.induct)
    case (input v)
    then obtain w where w: "w \<in> set ws" "TrimSpace w = TrimSpace v" using assms by blast
    then show ?case using input alias_reach.input [of w "set ws" b] by simp
  next
    case (child v c)
    then show ?case by (intro alias_reach.child)
  qed
  then show ?thesis by (auto simp: set_expandAccountAliases)
qed

text \<open>One value and its alias expand to the same aliases.\<close>

lemma alias_children_ToLower_mem:
  "c \<in> set (alias_children b v) \<Longrightarrow> ToLower c \<in> set (alias_children b (ToLower v))"
proof -
  assume c: "c \<in> set (alias_children b v)"
  have "ToLower (filepath_Base v) \<noteq> ToLower v" if "filepath_Base v \<noteq> v"
  proof (cases "v = []")
    case False
    with that have "length (filepath_Base v) < length v" by (intro length_Base_less) auto
    then show ?thesis by (metis length_ToLower less_irrefl)
  qed simp
  with c show ?thesis
    by (auto simp: alias_children_def Let_def ToLower_drop_last simp flip: ToLower_Base split: if_splits)
qed

lemma alias_reach_alias:
  "alias_reach b {normalizeAccountAlias v} w \<longleftrightarrow> (\<exists>u. alias_reach b {v} u \<and> w = ToLower u)"
proof
  assume "alias_reach b {normalizeAccountAlias v} w"
  then show "\<exists>u. alias_reach b {v} u \<and> w = ToLower u"
  proof (induction rule: alias_reach.induct)
    case (input u)
    then have "u = ToLower (TrimSpace v)" "TrimSpace v \<noteq> []" by (auto simp: normalizeAccountAlias_def)
    then show ?case by (auto simp flip: ToLower_TrimSpace intro!: exI [of _ "TrimSpace v"] alias_reach.input)
  next
    case (child u c)
    then obtain u' where u': "alias_reach b {v} u'" "u = ToLower u'" by blast
    with child.hyps obtain c' where "c' \<in> set (alias_children b u')" "c = ToLower c'"
      using alias_children_ToLower by blast
    with u' child.hyps show ?case by (auto simp flip: ToLower_TrimSpace intro: alias_reach.child)
  qed
next
  assume "\<exists>u. alias_reach b {v} u \<and> w = ToLower u"
  then obtain u where "alias_reach b {v} u" "w = ToLower u" by blast
  then show "alias_reach b {normalizeAccountAlias v} w"
  proof (induction arbitrary: w rule: alias_reach.induct)
    case (input u)
    then show ?case
      using alias_reach.input [of "normalizeAccountAlias v" "{normalizeAccountAlias v}" b]
      by (auto simp: normalizeAccountAlias_def simp flip: ToLower_TrimSpace)
  next
    case (child u c)
    then have "alias_reach b {normalizeAccountAlias v} (TrimSpace (ToLower c))"
      using alias_children_ToLower_mem by (intro alias_reach.child) (auto simp flip: ToLower_TrimSpace)
    with child.prems show ?case by (simp flip: ToLower_TrimSpace)
  qed
qed

lemma normalizeAccountAliases_alias:
  "set (normalizeAccountAliases [normalizeAccountAlias v]) = set (normalizeAccountAliases [v])"
proof -
  have "ToLower ` Collect (alias_reach True {normalizeAccountAlias v}) = ToLower ` Collect (alias_reach True {v})"
    by (auto simp: alias_reach_alias image_def)
  then show ?thesis by (simp add: normalizeAccountAliases_def set_expandAccountAliases)
qed

text \<open>An expansion holds the aliases of each of its members.\<close>

lemma normalizeAccountAliases_member:
  assumes "a \<in> set (normalizeAccountAliases vs)"
  shows "set (normalizeAccountAliases [a]) \<subseteq> set (normalizeAccountAliases vs)"
  using expandAccountAliases_mono [of "[a]" "expandAccountAliases vs True" True] set_expandAccountAliases_idem [of vs True] assms
  by (simp add: normalizeAccountAliases_def)

lemma normalizeAccountAliases_source:
  assumes "a \<in> set (normalizeAccountAliases vs)"
  shows "\<exists>v\<in>set vs. TrimSpace v \<noteq> [] \<and> a \<in> set (normalizeAccountAliases [v])"
proof -
  obtain u where u: "alias_reach True (set vs) u" "a = ToLower u"
    using assms by (auto simp: normalizeAccountAliases_def set_expandAccountAliases)
  from u(1) have "\<exists>v\<in>set vs. TrimSpace v \<noteq> [] \<and> alias_reach True {v} u"
    by (induction rule: alias_reach.induct) (auto intro: alias_reach.intros)
  with u(2) show ?thesis by (auto simp: normalizeAccountAliases_def set_expandAccountAliases)
qed

text \<open>An auth file name keeps its suffix, so it is never blank.\<close>

lemma fileNameIfJSON_blank [simp]: "TrimSpace v = [] \<Longrightarrow> fileNameIfJSON v = []"
  by (simp add: fileNameIfJSON_def)

lemma fileNameIfJSON_TrimSpace [simp]: "fileNameIfJSON (TrimSpace v) = fileNameIfJSON v"
  by (simp add: fileNameIfJSON_def)

lemma fileNameIfJSON_not_blank: "fileNameIfJSON v \<noteq> [] \<Longrightarrow> TrimSpace (fileNameIfJSON v) \<noteq> []"
proof -
  assume "fileNameIfJSON v \<noteq> []"
  then have "HasSuffix (ToLower (fileNameIfJSON v)) ''.json''"
    by (auto simp: fileNameIfJSON_def Let_def split: if_splits)
  then obtain p where p: "ToLower (fileNameIfJSON v) = p @ ''.json''" by (auto simp: HasSuffix_iff)
  have "TrimSpace (ToLower (fileNameIfJSON v)) \<noteq> []"
    unfolding p by (rule TrimSpace_not_blank) (simp_all add: ascii_space_def sp2_def sp3_def space2_def space3_def)
  then show ?thesis by (simp flip: ToLower_TrimSpace)
qed

section \<open>Scheduler candidates (\<open>main.go\<close>)\<close>

record schedulerAuthCandidate =
  c_ID :: string
  c_Provider :: string
  c_Priority :: int
  c_Status :: string
  c_Attributes :: attributes
  c_Metadata :: metadata

text \<open>The zero value of the struct, returned where the code has no candidate.\<close>

definition no_candidate :: schedulerAuthCandidate where
  "no_candidate = \<lparr>c_ID = [], c_Provider = [], c_Priority = 0, c_Status = [], c_Attributes = [], c_Metadata = []\<rparr>"

definition attr :: "schedulerAuthCandidate \<Rightarrow> string \<Rightarrow> string" where
  "attr c k = lookup_or [] (c_Attributes c) k"

definition meta :: "schedulerAuthCandidate \<Rightarrow> string \<Rightarrow> string" where
  "meta c k = stringFromAny (lookup_or AnyNil (c_Metadata c) k)"

subsection \<open>Credential shapes (\<open>privacy.go\<close>)\<close>

definition normalizeRawAPIKey :: "string \<Rightarrow> string" where
  "normalizeRawAPIKey value =
     (let v = TrimSpace value
      in if 7 \<le> length v \<and> EqualFold (take 7 v) ''bearer '' then TrimSpace (drop 7 v) else v)"

text \<open>\<open>strings.Split\<close> with a one-byte separator.\<close>

fun Split :: "string \<Rightarrow> char \<Rightarrow> string list" where
  "Split [] sep = [[]]"
| "Split (c # s) sep =
     (if c = sep then [] # Split s sep
      else case Split s sep of [] \<Rightarrow> [[c]] | p # ps \<Rightarrow> (c # p) # ps)"

lemma Split_not_Nil [simp]: "Split s c \<noteq> []"
  by (induction s) (auto split: list.split)

lemma Split_no_sep: "c \<notin> set s \<Longrightarrow> Split s c = [s]"
  by (induction s) auto

lemma Split_append: "c \<notin> set s \<Longrightarrow> Split (s @ c # t) c = s # Split t c"
  by (induction s) auto

lemma Split_join: "Split (s @ c # t) c = Split s c @ Split t c"
proof (induction s)
  case (Cons a s)
  then show ?case by (cases "Split s c") auto
qed simp

definition char_between :: "nat \<Rightarrow> nat \<Rightarrow> char \<Rightarrow> bool" where
  "char_between lo hi c \<longleftrightarrow> lo \<le> (of_char c :: nat) \<and> (of_char c :: nat) \<le> hi"

definition is_hex :: "char \<Rightarrow> bool" where
  "is_hex c \<longleftrightarrow> is_digit c \<or> char_between 97 102 c \<or> char_between 65 70 c"

definition is_alnum :: "char \<Rightarrow> bool" where
  "is_alnum c \<longleftrightarrow> is_digit c \<or> char_between 97 122 c \<or> char_between 65 90 c"

definition validAPIKeyFingerprintSuffix :: "string \<Rightarrow> bool" where
  "validAPIKeyFingerprintSuffix value \<longleftrightarrow>
     length value = 4 \<and> list_all (\<lambda>c. char_between 33 126 c \<and> c \<noteq> CHR '':'') value"

definition parseAPIKeyFingerprint :: "string \<Rightarrow> (string \<times> string \<times> string) option" where
  "parseAPIKeyFingerprint value =
     (case Split (TrimSpace value) (CHR '':'') of
        [tag, version, digest, hint] \<Rightarrow>
          (if EqualFold tag ''keyfp'' \<and> (version = ''v0'' \<or> version = ''v1'') \<and> length digest = 32
              \<and> validAPIKeyFingerprintSuffix hint \<and> list_all is_hex digest
           then Some (version, ToLower digest, hint) else None)
      | _ \<Rightarrow> None)"

definition isAPIKeyFingerprint :: "string \<Rightarrow> bool" where
  "isAPIKeyFingerprint value \<longleftrightarrow> parseAPIKeyFingerprint value \<noteq> None"

definition safeKeyLast4 :: "string \<Rightarrow> string" where
  "safeKeyLast4 value =
     (let v = normalizeRawAPIKey value; last4 = drop (length v - 4) v
      in if length v < 4 then ''----'' else if list_all is_alnum last4 then last4 else ''----'')"

definition looksLikeUUID :: "string \<Rightarrow> bool" where
  "looksLikeUUID value \<longleftrightarrow>
     length value = 36
   \<and> value ! 8 = CHR ''-'' \<and> value ! 13 = CHR ''-'' \<and> value ! 18 = CHR ''-'' \<and> value ! 23 = CHR ''-''
   \<and> list_all (\<lambda>i. i \<in> {8, 13, 18, 23} \<or> is_hex (value ! i)) [0..<36]"

definition looksLikeOpaqueCredential :: "string \<Rightarrow> bool" where
  "looksLikeOpaqueCredential value =
     (let v = TrimSpace value
      in if length v < 24 \<or> CHR ''@'' \<in> set v \<or> list_ex (\<lambda>c. c \<in> {CHR '' '', CHR 0x5C, CHR ''/''}) v
            \<or> fileNameIfJSON v \<noteq> [] \<or> looksLikeUUID v then False
         else list_all (\<lambda>c. is_alnum c \<or> c \<in> {CHR ''-'', CHR ''_'', CHR ''.''}) v
              \<and> 20 \<le> length (filter is_alnum v))"

definition credentialPrefixes :: "string list" where
  "credentialPrefixes = [''sk-svcacct-'', ''sk-proj-'', ''sk-ant-'', ''xai-'', ''aiza'', ''ark-'', ''sk-'']"

definition credentialShapedValue :: "string \<Rightarrow> string option" where
  "credentialShapedValue value =
     (let v = TrimSpace value
      in if v = [] then None
         else if isAPIKeyFingerprint v then Some v
         else let rest = TrimSpace (drop 7 v);
                  bearer = (7 \<le> length v \<and> EqualFold (take 7 v) ''bearer '' \<and> rest \<noteq> []);
                  v1 = (if bearer then rest else v);
                  v2 = (if HasPrefix (ToLower v1) ''codex:apikey:'' then TrimSpace (drop 13 v1) else v1);
                  credentialLike = (bearer \<or> looksLikeOpaqueCredential v2
                                    \<or> list_ex (HasPrefix (ToLower v2)) credentialPrefixes)
              in if credentialLike then Some v2 else None)"

text \<open>
  \<open>configuredAPIKeyStorageValue\<close> is the HMAC fingerprint of a credential under the secret
  kept beside the database: the argument \<open>fp\<close> of the definitions below.
\<close>

type_synonym fingerprinter = "string \<Rightarrow> string"

definition storedCredentialAlias :: "fingerprinter \<Rightarrow> string \<Rightarrow> string" where
  "storedCredentialAlias fp value =
     (let v = TrimSpace value
      in if v = [] \<or> isAPIKeyFingerprint v then v
         else case credentialShapedValue v of None \<Rightarrow> [] | Some credential \<Rightarrow> fp credential)"

definition schedulerCandidateExplicitAPIKey :: "schedulerAuthCandidate \<Rightarrow> string" where
  "schedulerCandidateExplicitAPIKey c =
     firstNonEmptyString [attr c ''api_key'', attr c ''api-key'', attr c ''APIKey'',
       meta c ''api_key'', meta c ''api-key'', meta c ''APIKey'']"

subsection \<open>The identity of a candidate\<close>

definition candidateAuthIndex :: "schedulerAuthCandidate \<Rightarrow> string" where
  "candidateAuthIndex c = firstNonEmptyString [attr c ''auth_index'', meta c ''auth_index'']"

definition candidateSource :: "schedulerAuthCandidate \<Rightarrow> string" where
  "candidateSource c = firstNonEmptyString [attr c ''source'', meta c ''source'']"

definition schedulerCandidateAuthFile :: "schedulerAuthCandidate \<Rightarrow> string" where
  "schedulerCandidateAuthFile c =
     (let files = map fileNameIfJSON
            [attr c ''auth_file'', meta c ''auth_file'', attr c ''path'', attr c ''file'',
             meta c ''path'', meta c ''file'', candidateAuthIndex c, candidateSource c, c_ID c]
      in case find (\<lambda>f. f \<noteq> []) files of None \<Rightarrow> [] | Some f \<Rightarrow> f)"

definition strictAuthStateAliasesForValues :: "string \<Rightarrow> string \<Rightarrow> string \<Rightarrow> string \<Rightarrow> string list" where
  "strictAuthStateAliasesForValues authID authIndex source authFile =
     normalizeAccountAliases
       (filter (\<lambda>f. f \<noteq> []) (map fileNameIfJSON [authFile, authID, authIndex, source]))"

definition fileBackedAuthState :: "string list \<Rightarrow> bool" where
  "fileBackedAuthState values \<longleftrightarrow> list_ex (\<lambda>v. fileNameIfJSON v \<noteq> []) values"

definition authStateMatchAliases :: "string \<Rightarrow> string \<Rightarrow> string \<Rightarrow> string \<Rightarrow> string list" where
  "authStateMatchAliases authID authIndex source authFile =
     (let strict = strictAuthStateAliasesForValues authID authIndex source authFile
      in if strict \<noteq> [] then strict else normalizeAccountAliases [authID, authIndex, source, authFile])"

definition schedulerCandidateStrictAliases :: "schedulerAuthCandidate \<Rightarrow> string list" where
  "schedulerCandidateStrictAliases c =
     (let authFile = firstNonEmptyString [attr c ''auth_file'', meta c ''auth_file'', attr c ''path'',
            attr c ''file'', meta c ''path'', meta c ''file''];
          file = schedulerCandidateAuthFile c
      in if file \<noteq> [] then normalizeAccountAliases [file]
         else strictAuthStateAliasesForValues (c_ID c) (candidateAuthIndex c) (candidateSource c) authFile)"

definition candidateIdentityValues :: "schedulerAuthCandidate \<Rightarrow> string list" where
  "candidateIdentityValues c =
     [c_ID c, candidateAuthIndex c, candidateSource c,
      firstNonEmptyString [attr c ''auth_file'', meta c ''auth_file''],
      firstNonEmptyString [attr c ''email'', meta c ''email''],
      firstNonEmptyString [attr c ''path'', attr c ''file'', meta c ''path'', meta c ''file'']]"

definition candidateCredentialValues :: "schedulerAuthCandidate \<Rightarrow> string list" where
  "candidateCredentialValues c =
     [c_ID c, attr c ''auth_index'', attr c ''source'', attr c ''api_key'',
      meta c ''auth_index'', meta c ''source'', meta c ''api_key'']"

text \<open>The closure \<open>add\<close>, and what the loop body adds for one identity value, in order.\<close>

definition add_alias :: "string list \<Rightarrow> string \<Rightarrow> string list" where
  "add_alias aliases value =
     (let alias = normalizeAccountAlias value in if alias = [] then aliases else add_new alias aliases)"

definition jsonStems :: "string \<Rightarrow> string list" where
  "jsonStems v =
     (let lower = ToLower v
      in if HasSuffix lower ''.cpa.json'' then [drop_last 9 v, drop_last 5 v]
         else if HasSuffix lower ''.json'' then [drop_last 5 v] else [])"

definition identityVariants :: "string \<Rightarrow> string list" where
  "identityVariants value =
     (let v = TrimSpace value
      in if v = [] then []
         else let base = filepath_Base v
              in [v] @ (if base \<noteq> v then [base] else []) @ jsonStems v @ jsonStems base)"

definition schedulerCandidateAliases :: "fingerprinter \<Rightarrow> schedulerAuthCandidate \<Rightarrow> string list" where
  "schedulerCandidateAliases fp c =
     (let a1 = foldl add_alias [] (concat (map identityVariants (candidateIdentityValues c)));
          fingerprints = filter (\<lambda>f. f \<noteq> []) (map (storedCredentialAlias fp) (candidateCredentialValues c));
          a2 = foldl add_alias a1 fingerprints;
          explicit = normalizeRawAPIKey (schedulerCandidateExplicitAPIKey c)
      in if explicit \<noteq> [] then add_alias a2 (fp explicit) else a2)"

subsection \<open>Facts on candidate aliases\<close>

lemma set_add_alias: "set (add_alias aliases v) = set aliases \<union> ({normalizeAccountAlias v} - {[]})"
  by (auto simp: add_alias_def Let_def)

lemma set_foldl_add_alias:
  "set (foldl add_alias aliases vs) = set aliases \<union> (normalizeAccountAlias ` set vs - {[]})"
  by (induction vs arbitrary: aliases) (auto simp: set_add_alias)

lemma distinct_add_alias [simp]: "distinct (add_alias aliases v) = distinct aliases"
  by (auto simp: add_alias_def Let_def)

lemma distinct_foldl_add_alias [simp]: "distinct (foldl add_alias aliases vs) = distinct aliases"
  by (induction vs arbitrary: aliases) auto

lemma distinct_schedulerCandidateAliases: "distinct (schedulerCandidateAliases fp c)"
  by (simp add: schedulerCandidateAliases_def Let_def)

lemma schedulerCandidateAliases_normal:
  "a \<in> set (schedulerCandidateAliases fp c) \<Longrightarrow> normalizeAccountAlias a = a \<and> a \<noteq> []"
  by (auto simp: schedulerCandidateAliases_def Let_def set_foldl_add_alias set_add_alias split: if_splits)

lemma normalizeAccountAliases_normal:
  "a \<in> set (normalizeAccountAliases vs) \<Longrightarrow> normalizeAccountAlias a = a \<and> a \<noteq> []"
  using expandAccountAliases_normal by (auto simp: normalizeAccountAliases_def)

lemma strictAuthStateAliases_normal:
  "a \<in> set (strictAuthStateAliasesForValues i x s f) \<Longrightarrow> normalizeAccountAlias a = a \<and> a \<noteq> []"
  by (auto simp: strictAuthStateAliasesForValues_def dest: normalizeAccountAliases_normal)

lemma schedulerCandidateStrictAliases_normal:
  "a \<in> set (schedulerCandidateStrictAliases c) \<Longrightarrow> normalizeAccountAlias a = a \<and> a \<noteq> []"
  by (auto simp: schedulerCandidateStrictAliases_def Let_def dest: normalizeAccountAliases_normal
      strictAuthStateAliases_normal split: if_splits)

lemma candidate_ID_alias:
  "TrimSpace (c_ID c) \<noteq> [] \<Longrightarrow> normalizeAccountAlias (c_ID c) \<in> set (schedulerCandidateAliases fp c)"
  by (auto simp: schedulerCandidateAliases_def Let_def set_foldl_add_alias set_add_alias
      candidateIdentityValues_def identityVariants_def normalizeAccountAlias_def split: if_splits)

subsection \<open>The candidates an identity stands for\<close>

text \<open>
  Which candidates a recorded identity stands for, without any table: one that names an auth file stands for the
  candidates of that file, any other for the candidates that are known by it under one of their names.
\<close>

definition identifies :: "fingerprinter \<Rightarrow> string \<Rightarrow> schedulerAuthCandidate \<Rightarrow> bool" where
  "identifies fp identity c \<longleftrightarrow>
     (let file = fileNameIfJSON identity
      in if file \<noteq> [] then list_ex (\<lambda>a. a \<in> set (schedulerCandidateStrictAliases c)) (normalizeAccountAliases [file])
         else list_ex (\<lambda>a. a \<in> set (schedulerCandidateAliases fp c)) (normalizeAccountAliases [identity]))"

lemma strip_keeps_dot: "\<exists>q. strip False (p @ CHR ''.'' # t) = q @ CHR ''.'' # t"
proof (induction p rule: length_induct)
  case (1 p)
  have ih: "\<exists>q. strip False (p' @ CHR ''.'' # t) = q @ CHR ''.'' # t" if "length p' < length p" for p'
    using 1 that by blast
  note dot = ascii_space_def sp2_def sp3_def space2_def space3_def
  show ?case
  proof (cases p rule: triple_cases)
    case 1
    then show ?thesis by (intro exI [of _ "[]"]) (simp add: strip_id, cases t rule: triple_cases; simp add: dot strip_id)
  next
    case (2 a)
    then show ?thesis using ih [of "[]"] exI [of _ "[a]"]
      by (cases t) (auto simp: dot)
  next
    case (3 a b)
    then show ?thesis using ih [of "[]"] ih [of "[b]"] exI [of _ "[a, b]"] by (auto simp: dot)
  next
    case (4 a b c u)
    then show ?thesis using ih [of u] ih [of "c # u"] ih [of "b # c # u"] exI [of _ "a # b # c # u"] by auto
  qed
qed

lemma TrimSpace_keeps_json: "HasSuffix L ''.json'' \<Longrightarrow> HasSuffix (TrimSpace L) ''.json''"
proof -
  assume "HasSuffix L ''.json''"
  then obtain p where p: "L = p @ ''.json''" by (auto simp: HasSuffix_iff)
  then obtain q where q: "strip False L = q @ ''.json''" using strip_keeps_dot [of p "''json''"] by auto
  have "\<not> leads True (rev (strip False L))"
    unfolding q by (simp add: ascii_space_def sp2_def sp3_def space2_def space3_def)
  then show ?thesis by (simp add: TrimSpace_def strip_id q HasSuffix_iff)
qed

lemma set_TrimSpace: "set (TrimSpace s) \<subseteq> set s"
proof -
  obtain k j where "strip False s = drop k s" "TrimSpace s = take j (strip False s)"
    using strip_drop TrimSpace_take by metis
  then show ?thesis by (metis set_drop_subset set_take_subset subset_trans)
qed

lemma filepath_Base_plain: "v \<noteq> [] \<Longrightarrow> CHR ''/'' \<notin> set v \<Longrightarrow> filepath_Base v = v"
proof -
  assume v: "v \<noteq> []" "CHR ''/'' \<notin> set v"
  then have "dropWhile (\<lambda>c. c = CHR ''/'') (rev v) = rev v" by (cases "rev v") auto
  moreover have "takeWhile (\<lambda>c. c \<noteq> CHR ''/'') (rev v) = rev v"
    using v(2) unfolding takeWhile_eq_all_conv by auto
  ultimately show ?thesis using v(1) by (simp add: filepath_Base_def del: takeWhile_eq_all_conv)
qed

lemma fileNameIfJSON_twice: "fileNameIfJSON (fileNameIfJSON v) = TrimSpace (fileNameIfJSON v)"
proof (cases "fileNameIfJSON v = []")
  case False
  let ?f = "TrimSpace (fileNameIfJSON v)"
  have base: "fileNameIfJSON v = filepath_Base (TrimSpace v)" "HasSuffix (ToLower (fileNameIfJSON v)) ''.json''"
    using False by (auto simp: fileNameIfJSON_def Let_def split: if_splits)
  have "?f \<noteq> []" using False by (rule fileNameIfJSON_not_blank)
  moreover have "CHR ''/'' \<notin> set (fileNameIfJSON v)"
  proof
    assume "CHR ''/'' \<in> set (fileNameIfJSON v)"
    then have "fileNameIfJSON v = ''/''"
      unfolding base(1) filepath_Base_def Let_def by (auto dest: set_takeWhileD split: if_splits)
    with base(2) show False by (simp add: HasSuffix_def)
  qed
  then have "CHR ''/'' \<notin> set ?f" using set_TrimSpace by blast
  ultimately have "filepath_Base ?f = ?f" by (simp add: filepath_Base_plain)
  moreover have "HasSuffix (ToLower ?f) ''.json''" using TrimSpace_keeps_json [OF base(2)] by (simp add: ToLower_TrimSpace)
  ultimately show ?thesis using \<open>?f \<noteq> []\<close> by (simp add: fileNameIfJSON_def Let_def)
qed simp

lemma set_aliases_cong:
  "normalizeAccountAlias v = normalizeAccountAlias w \<Longrightarrow> set (normalizeAccountAliases [v]) = set (normalizeAccountAliases [w])"
  by (metis normalizeAccountAliases_alias)

lemma identifies_TrimSpace [simp]: "identifies fp (TrimSpace v) c = identifies fp v c"
  using set_aliases_cong [of "TrimSpace v" v] by (simp add: identifies_def Let_def list_ex_iff)

lemma identifies_file:
  "fileNameIfJSON v \<noteq> [] \<Longrightarrow> identifies fp (fileNameIfJSON v) c = identifies fp v c"
  using set_aliases_cong [of "TrimSpace (fileNameIfJSON v)" "fileNameIfJSON v"] fileNameIfJSON_not_blank [of v]
  by (simp add: identifies_def Let_def list_ex_iff fileNameIfJSON_twice)

text \<open>The first alias of an expansion is that of the first value that is not blank.\<close>

lemma expand_loop_hd: "out \<noteq> [] \<Longrightarrow> expand_loop b queue processed out \<noteq> [] \<and> hd (expand_loop b queue processed out) = hd out"
proof (induction b queue processed out rule: expand_loop.induct)
  case (2 b q queue processed out)
  then show ?case
    by (cases "TrimSpace q = [] \<or> TrimSpace q \<in> set processed")
       (simp_all add: expand_loop_skip expand_loop_take add_new_def normalizeAccountAlias_def Let_def split: if_splits)
qed simp

lemma normalizeAccountAliases_hd:
  "normalizeAccountAliases vs \<noteq> [] \<Longrightarrow> hd (normalizeAccountAliases vs) = normalizeAccountAlias (firstNonEmptyString vs)"
proof (induction vs)
  case (Cons v vs)
  show ?case
  proof (cases "TrimSpace v = []")
    case True
    with Cons show ?thesis by (simp add: normalizeAccountAliases_def expandAccountAliases_def expand_loop_skip)
  next
    case False
    then show ?thesis
      by (simp add: normalizeAccountAliases_def expandAccountAliases_def expand_loop_take expand_loop_hd
          normalizeAccountAlias_def add_new_def Let_def)
  qed
qed (simp add: normalizeAccountAliases_def expandAccountAliases_def)

section \<open>Properties\<close>

text \<open>The alias expansion is exactly a closure. For any values, paths and suffixes included,
  the aliases are the lower-case forms of what the trimmed values reach by taking the base of a path and
  by dropping a \<open>.json\<close> (and, when asked, a \<open>.cpa.json\<close>) suffix; the queue of the
  code misses none of them and adds nothing else, and no alias is listed twice.\<close>

theorem alias_expansion_closure:
  "set (expandAccountAliases values b) = ToLower ` Collect (alias_reach b (set values))
   \<and> distinct (expandAccountAliases values b)"
  by (simp add: set_expandAccountAliases distinct_expandAccountAliases)

text \<open>The alias expansion is stable: expanding stored aliases again adds and loses nothing, so aliases
  written by one build match aliases computed by another.\<close>

theorem alias_expansion_stable:
  "set (expandAccountAliases (expandAccountAliases values b) b) = set (expandAccountAliases values b)"
  by (rule set_expandAccountAliases_idem)

end
