(* ===== verification/Route_Filter.thy ===== *)
theory Route_Filter
  imports Identity
begin

text \<open>
  Route and status validation of a pick request (\<open>scheduler_filter.go\<close>), with the request
  and error types of \<open>main.go\<close> and the quarantine lookup of \<open>privacy.go\<close>. The lemmas
  show that what is left is exactly the admissible candidates in their order, that the plugin
  takes the decision over exactly when something was removed, and that it fails closed.
\<close>

section \<open>Requests and errors (\<open>main.go\<close>)\<close>

record schedulerRejectError =
  e_Code :: string
  e_Message :: string
  e_HTTPStatus :: int

datatype pick_error =
    Reject schedulerRejectError
  | SchedulerStateChanged
  | OtherError string

text \<open>
  The request filter. The set \<open>allowed\<close> of the code is the set of \<open>f_allowedList\<close>;
  the quarantined providers are an association list.
\<close>

record schedulerRequestFilter =
  f_allowedList :: "string list"
  f_routeFiltered :: nat
  f_statusFiltered :: nat
  f_quarantined :: "(string \<times> string) list"

record schedulerPickRequest =
  r_Provider :: string
  r_Providers :: "string list"
  r_Model :: string
  r_Stream :: bool
  r_Headers :: headers
  r_Metadata :: metadata
  r_Candidates :: "schedulerAuthCandidate list"
  r_filter :: "schedulerRequestFilter option"

record schedulerPickResponse =
  p_AuthID :: string
  p_DelegateBuiltin :: string
  p_Handled :: bool

definition StatusServiceUnavailable :: int where "StatusServiceUnavailable = 503"

definition unavailable :: "string \<Rightarrow> string \<Rightarrow> pick_error" where
  "unavailable code message = Reject \<lparr>e_Code = code, e_Message = message, e_HTTPStatus = StatusServiceUnavailable\<rparr>"

definition filter_forceHandle :: "schedulerRequestFilter option \<Rightarrow> bool" where
  "filter_forceHandle f = (case f of None \<Rightarrow> False
     | Some f \<Rightarrow> 0 < f_routeFiltered f \<or> 0 < f_statusFiltered f \<or> f_quarantined f \<noteq> [])"

definition filter_mixed :: "schedulerRequestFilter option \<Rightarrow> bool" where
  "filter_mixed f = (case f of None \<Rightarrow> False | Some f \<Rightarrow> 1 < length (f_allowedList f))"

definition schedulerCandidateActive :: "schedulerAuthCandidate \<Rightarrow> bool" where
  "schedulerCandidateActive c =
     (let status = canonicalProvider (c_Status c) in status = [] \<or> status = ''active'')"

section \<open>The quarantine snapshot (\<open>privacy.go\<close>)\<close>

type_synonym quarantine = "(string \<times> string) list option"

definition quarantineReason :: "quarantine \<Rightarrow> string \<Rightarrow> string option" where
  "quarantineReason snapshot provider =
     (case snapshot of None \<Rightarrow> None
      | Some providers \<Rightarrow>
          let p = TrimSpace provider
          in if p = [] then None
             else case map_of providers p of
                    Some reason \<Rightarrow> Some reason
                  | None \<Rightarrow> map_option snd (find (\<lambda>(normalized, reason). EqualFold p normalized) providers))"

text \<open>\<open>newAPIKeyPrivacyQuarantineSnapshot\<close>: keys are canonical; no provider gives no snapshot.\<close>

definition newQuarantineSnapshot :: "(string \<times> string) list \<Rightarrow> quarantine" where
  "newQuarantineSnapshot providers =
     (let copied = foldl (\<lambda>m (provider, reason).
            let p = canonicalProvider provider in if p = [] then m else AList.update p reason m) [] providers
      in if copied = [] then None else Some copied)"

section \<open>Allowed providers\<close>

definition declaredProviders :: "string list \<Rightarrow> string list" where
  "declaredProviders raws =
     foldl (\<lambda>declared raw.
       let provider = canonicalProvider raw
       in if provider = [] \<or> provider = ''mixed'' then declared else add_new provider declared) [] raws"

definition schedulerAllowedProviders :: "schedulerPickRequest \<Rightarrow> (pick_error, string list) result" where
  "schedulerAllowedProviders req =
     (let routeProvider = canonicalProvider (r_Provider req);
          declared = declaredProviders (r_Providers req)
      in if routeProvider \<noteq> [] \<and> routeProvider \<noteq> ''mixed'' then
           if list_ex (\<lambda>provider. provider \<noteq> routeProvider) declared
           then Inl (unavailable ''auth_unavailable'' ''scheduler route provider declarations conflict'')
           else Inr [routeProvider]
         else if declared = [] then
           if r_Candidates req = [] then Inr []
           else Inl (unavailable ''auth_unavailable'' ''scheduler route does not declare an allowed provider'')
         else Inr (sort declared))"

section \<open>Filtering the candidates\<close>

definition empty_filter :: "string list \<Rightarrow> schedulerRequestFilter" where
  "empty_filter allowed = \<lparr>f_allowedList = allowed, f_routeFiltered = 0, f_statusFiltered = 0, f_quarantined = []\<rparr>"

text \<open>One iteration of the candidate loop: the filter counters and the kept candidates.\<close>

definition filter_candidate ::
  "quarantine \<Rightarrow> schedulerRequestFilter \<times> schedulerAuthCandidate list \<Rightarrow> schedulerAuthCandidate
   \<Rightarrow> schedulerRequestFilter \<times> schedulerAuthCandidate list" where
  "filter_candidate q = (\<lambda>(f, kept) c.
     let provider = canonicalProvider (c_Provider c)
     in if provider = [] \<or> provider \<notin> set (f_allowedList f)
        then (f\<lparr>f_routeFiltered := Suc (f_routeFiltered f)\<rparr>, kept)
        else if \<not> schedulerCandidateActive c
        then (f\<lparr>f_statusFiltered := Suc (f_statusFiltered f)\<rparr>, kept)
        else case quarantineReason q provider of
               Some reason \<Rightarrow> (f\<lparr>f_quarantined := AList.update provider reason (f_quarantined f)\<rparr>, kept)
             | None \<Rightarrow> (f, kept @ [c\<lparr>c_Provider := provider\<rparr>]))"

definition filter_candidates ::
  "quarantine \<Rightarrow> string list \<Rightarrow> schedulerAuthCandidate list \<Rightarrow> schedulerRequestFilter \<times> schedulerAuthCandidate list" where
  "filter_candidates q allowed cs = foldl (filter_candidate q) (empty_filter allowed, []) cs"

definition firstQuarantinedProvider :: "(string \<times> string) list \<Rightarrow> (string \<times> string) option" where
  "firstQuarantinedProvider providers =
     (case sort (keys providers) of [] \<Rightarrow> None | p # _ \<Rightarrow> Some (p, lookup_or [] providers p))"

definition newSchedulerPrivacyQuarantineError :: "string \<Rightarrow> string \<Rightarrow> pick_error" where
  "newSchedulerPrivacyQuarantineError provider reason =
     unavailable ''privacy_quarantine''
       (canonicalProvider provider @ '': provider privacy quarantine is active''
        @ (if TrimSpace reason \<noteq> [] then ''; '' @ TrimSpace reason else [])
        @ ''; restore the configured API key or explicitly release the legacy restriction'')"

definition prepareSchedulerRequest ::
  "quarantine \<Rightarrow> schedulerPickRequest \<Rightarrow> (pick_error, schedulerPickRequest) result" where
  "prepareSchedulerRequest q req =
     bind_result (schedulerAllowedProviders req) (\<lambda>allowed.
       if allowed = [] then Inr req
       else let (f, filtered) = filter_candidates q allowed (r_Candidates req)
            in case (if length allowed = 1 then quarantineReason q (hd allowed) else None) of
                 Some reason \<Rightarrow> Inl (newSchedulerPrivacyQuarantineError (hd allowed) reason)
               | None \<Rightarrow>
                   if filtered = [] \<and> r_Candidates req \<noteq> [] then
                     case firstQuarantinedProvider (f_quarantined f) of
                       Some (provider, reason) \<Rightarrow> Inl (newSchedulerPrivacyQuarantineError provider reason)
                     | None \<Rightarrow> Inl (unavailable ''auth_unavailable''
                                 ''no scheduler candidates remain after route and status validation'')
                   else Inr (req\<lparr>r_Provider := canonicalProvider (r_Provider req),
                                 r_Providers := allowed,
                                 r_Candidates := filtered,
                                 r_filter := Some f\<rparr>))"

section \<open>What filtering keeps\<close>

text \<open>The specification: a candidate is admissible for a route and a quarantine.\<close>

definition admissible :: "quarantine \<Rightarrow> string list \<Rightarrow> schedulerAuthCandidate \<Rightarrow> bool" where
  "admissible q allowed c \<longleftrightarrow>
     (let provider = canonicalProvider (c_Provider c)
      in provider \<noteq> [] \<and> provider \<in> set allowed \<and> schedulerCandidateActive c \<and> quarantineReason q provider = None)"

definition canonical_candidate :: "schedulerAuthCandidate \<Rightarrow> schedulerAuthCandidate" where
  "canonical_candidate c = c\<lparr>c_Provider := canonicalProvider (c_Provider c)\<rparr>"

lemma filter_candidate_allowed [simp]:
  "f_allowedList (fst (filter_candidate q fk c)) = f_allowedList (fst fk)"
  by (cases fk) (simp add: filter_candidate_def Let_def split: option.split)

lemma filter_candidate_kept:
  "snd (filter_candidate q fk c) =
     snd fk @ (if admissible q (f_allowedList (fst fk)) c then [canonical_candidate c] else [])"
  by (cases fk)
     (auto simp: filter_candidate_def admissible_def canonical_candidate_def Let_def split: option.split)

lemma foldl_filter_candidate:
  "f_allowedList (fst (foldl (filter_candidate q) fk cs)) = f_allowedList (fst fk)
 \<and> snd (foldl (filter_candidate q) fk cs) =
     snd fk @ map canonical_candidate (filter (admissible q (f_allowedList (fst fk))) cs)"
  by (induction cs arbitrary: fk) (simp_all add: filter_candidate_kept)

lemma filter_candidates_kept:
  "snd (filter_candidates q allowed cs) = map canonical_candidate (filter (admissible q allowed) cs)"
  by (simp add: filter_candidates_def foldl_filter_candidate empty_filter_def)

lemma filter_candidates_allowed:
  "f_allowedList (fst (filter_candidates q allowed cs)) = allowed"
  by (simp add: filter_candidates_def foldl_filter_candidate empty_filter_def)

lemma update_not_Nil [simp]: "AList.update k v m \<noteq> []"
  by (cases m) auto

lemma filter_candidate_force:
  "filter_forceHandle (Some (fst (filter_candidate q fk c))) \<longleftrightarrow>
     filter_forceHandle (Some (fst fk)) \<or> \<not> admissible q (f_allowedList (fst fk)) c"
  by (cases fk)
     (auto simp: filter_candidate_def filter_forceHandle_def admissible_def Let_def split: option.split)

lemma foldl_filter_candidate_force:
  "filter_forceHandle (Some (fst (foldl (filter_candidate q) fk cs))) \<longleftrightarrow>
     filter_forceHandle (Some (fst fk)) \<or> (\<exists>c\<in>set cs. \<not> admissible q (f_allowedList (fst fk)) c)"
  by (induction cs arbitrary: fk) (auto simp: filter_candidate_force)

lemma filter_candidates_force:
  "filter_forceHandle (Some (fst (filter_candidates q allowed cs))) \<longleftrightarrow>
     (\<exists>c\<in>set cs. \<not> admissible q allowed c)"
  unfolding filter_candidates_def foldl_filter_candidate_force
  by (simp add: empty_filter_def filter_forceHandle_def)

text \<open>Every recorded quarantine is one of the snapshot, under its canonical provider.\<close>

definition quarantines_recorded :: "quarantine \<Rightarrow> schedulerRequestFilter \<Rightarrow> bool" where
  "quarantines_recorded q f \<longleftrightarrow>
     (\<forall>p r. (p, r) \<in> set (f_quarantined f) \<longrightarrow> quarantineReason q p = Some r \<and> canonicalProvider p = p)"

lemma set_update_subset: "set (AList.update k v m) \<subseteq> insert (k, v) (set m)"
  by (induction m) auto

lemma filter_candidate_recorded:
  "quarantines_recorded q (fst fk) \<Longrightarrow> quarantines_recorded q (fst (filter_candidate q fk c))"
  using set_update_subset [of "canonicalProvider (c_Provider c)" _ "f_quarantined (fst fk)"]
  by (cases fk) (fastforce simp: filter_candidate_def quarantines_recorded_def Let_def split: option.split)

lemma foldl_filter_candidate_recorded:
  "quarantines_recorded q (fst fk) \<Longrightarrow> quarantines_recorded q (fst (foldl (filter_candidate q) fk cs))"
  by (induction cs arbitrary: fk) (simp_all add: filter_candidate_recorded)

lemma filter_candidates_recorded: "quarantines_recorded q (fst (filter_candidates q allowed cs))"
  unfolding filter_candidates_def
  by (rule foldl_filter_candidate_recorded) (simp add: quarantines_recorded_def empty_filter_def)

lemma admissible_canonical [simp]:
  "admissible q allowed (canonical_candidate c) = admissible q allowed c"
  by (simp add: admissible_def canonical_candidate_def schedulerCandidateActive_def Let_def)

lemma set_declaredProviders:
  "set (declaredProviders raws) = canonicalProvider ` set raws - {[], ''mixed''}"
proof -
  have "set (foldl (\<lambda>declared raw.
       let provider = canonicalProvider raw
       in if provider = [] \<or> provider = ''mixed'' then declared else add_new provider declared) ds raws)
     = set ds \<union> (canonicalProvider ` set raws - {[], ''mixed''})" for ds
    by (induction raws arbitrary: ds) (auto simp: Let_def)
  then show ?thesis by (simp add: declaredProviders_def)
qed

lemma distinct_declaredProviders: "distinct (declaredProviders raws)"
proof -
  have "distinct ds \<Longrightarrow> distinct (foldl (\<lambda>declared raw.
       let provider = canonicalProvider raw
       in if provider = [] \<or> provider = ''mixed'' then declared else add_new provider declared) ds raws)" for ds
    by (induction raws arbitrary: ds) (auto simp: Let_def)
  then show ?thesis by (simp add: declaredProviders_def)
qed

lemma allowed_origin:
  assumes "schedulerAllowedProviders req = Inr allowed" and "p \<in> set allowed"
  shows "p = canonicalProvider (r_Provider req) \<and> p \<noteq> [] \<and> p \<noteq> ''mixed''
       \<or> p \<in> set (declaredProviders (r_Providers req))"
proof (cases "canonicalProvider (r_Provider req) \<noteq> [] \<and> canonicalProvider (r_Provider req) \<noteq> ''mixed''")
  case True
  with assms show ?thesis
    by (cases "list_ex (\<lambda>p. p \<noteq> canonicalProvider (r_Provider req)) (declaredProviders (r_Providers req))")
      (auto simp: schedulerAllowedProviders_def)
next
  case False
  with assms show ?thesis
    by (cases "declaredProviders (r_Providers req) = []"; cases "r_Candidates req = []")
      (force simp: schedulerAllowedProviders_def)+
qed

lemma allowed_canonical:
  assumes "schedulerAllowedProviders req = Inr allowed" and "p \<in> set allowed"
  shows "canonicalProvider p = p" and "p \<noteq> []" and "p \<noteq> ''mixed''"
proof -
  have "\<exists>x. p = canonicalProvider x \<and> p \<noteq> [] \<and> p \<noteq> ''mixed''"
    using allowed_origin [OF assms] unfolding set_declaredProviders by blast
  then show "canonicalProvider p = p" and "p \<noteq> []" and "p \<noteq> ''mixed''" by auto
qed

text \<open>The shape of every successful preparation.\<close>

lemma prepare_cases:
  assumes "prepareSchedulerRequest q req = Inr req'"
  obtains (unrouted) "schedulerAllowedProviders req = Inr []" "req' = req"
  | (routed) allowed where "schedulerAllowedProviders req = Inr allowed" "allowed \<noteq> []"
      "r_Providers req' = allowed"
      "r_Provider req' = canonicalProvider (r_Provider req)"
      "r_Candidates req' = map canonical_candidate (filter (admissible q allowed) (r_Candidates req))"
      "r_filter req' = Some (fst (filter_candidates q allowed (r_Candidates req)))"
      "r_Model req' = r_Model req" "r_Headers req' = r_Headers req" "r_Metadata req' = r_Metadata req"
      "r_Candidates req' = [] \<longrightarrow> r_Candidates req = []"
      "length allowed = 1 \<longrightarrow> quarantineReason q (hd allowed) = None"
proof -
  from assms obtain allowed where allowed: "schedulerAllowedProviders req = Inr allowed"
    by (auto simp: prepareSchedulerRequest_def)
  show thesis
  proof (cases "allowed = []")
    case True
    have "req' = req" using assms allowed True by (simp add: prepareSchedulerRequest_def)
    then show thesis using allowed True by (intro unrouted) simp_all
  next
    case False
    obtain f kept where fk: "filter_candidates q allowed (r_Candidates req) = (f, kept)" by fastforce
    then have kept: "kept = map canonical_candidate (filter (admissible q allowed) (r_Candidates req))"
      by (metis filter_candidates_kept snd_conv)
    have f: "f = fst (filter_candidates q allowed (r_Candidates req))" by (simp add: fk)
    have single: "(if length allowed = 1 then quarantineReason q (hd allowed) else None) = None"
      using assms allowed False fk
      by (cases "if length allowed = 1 then quarantineReason q (hd allowed) else None")
        (simp_all add: prepareSchedulerRequest_def)
    have some: "\<not> (kept = [] \<and> r_Candidates req \<noteq> [])"
    proof
      assume "kept = [] \<and> r_Candidates req \<noteq> []"
      then show False
        using assms allowed False fk single
        by (cases "firstQuarantinedProvider (f_quarantined f)") (auto simp: prepareSchedulerRequest_def)
    qed
    have req': "req' = req\<lparr>r_Provider := canonicalProvider (r_Provider req), r_Providers := allowed,
        r_Candidates := kept, r_filter := Some f\<rparr>"
      using assms allowed False fk single some by (auto simp: prepareSchedulerRequest_def)
    show thesis
      by (rule routed [OF allowed False]) (use req' kept f some single in \<open>auto split: if_splits\<close>)
  qed
qed

lemma allowed_Nil: "schedulerAllowedProviders req = Inr [] \<Longrightarrow> r_Candidates req = []"
proof -
  assume none: "schedulerAllowedProviders req = Inr []"
  have "declaredProviders (r_Providers req) = []" if "sort (declaredProviders (r_Providers req)) = []"
    using that by (metis set_sort set_empty)
  with none show ?thesis by (auto simp: schedulerAllowedProviders_def Let_def split: if_splits)
qed

lemma firstQuarantinedProvider_None: "firstQuarantinedProvider m = None \<longleftrightarrow> m = []"
  by (cases "sort (keys m)") (auto simp: firstQuarantinedProvider_def dest: arg_cong [where f = set])

section \<open>Properties\<close>

text \<open>C36: A prepared request keeps exactly the admissible candidates. When the route validates, the
  candidates that remain are those of an allowed provider with an active status and no quarantine, in
  their order, with the provider in canonical form; the plugin takes the decision over exactly when some
  candidate was removed; and a request that had candidates never proceeds with none.\<close>

theorem prepared_candidates:
  assumes "prepareSchedulerRequest q req = Inr req'" and "r_Candidates req \<noteq> []"
  shows "\<exists>allowed. schedulerAllowedProviders req = Inr allowed \<and> r_Providers req' = allowed
     \<and> r_Candidates req' = map canonical_candidate (filter (admissible q allowed) (r_Candidates req))
     \<and> filter_forceHandle (r_filter req') = list_ex (\<lambda>c. \<not> admissible q allowed c) (r_Candidates req)
     \<and> filter_mixed (r_filter req') = (1 < length allowed)
     \<and> r_Candidates req' \<noteq> []"
  using assms(1)
proof (cases rule: prepare_cases)
  case unrouted
  have "r_Candidates req = []" by (rule allowed_Nil) (rule unrouted(1))
  with assms(2) show ?thesis by contradiction
next
  case (routed allowed)
  have kept: "r_Candidates req' \<noteq> []" using routed(10) assms(2) by blast
  show ?thesis
  proof (intro exI [of _ allowed] conjI)
    show "filter_forceHandle (r_filter req') = list_ex (\<lambda>c. \<not> admissible q allowed c) (r_Candidates req)"
      unfolding routed(6) filter_candidates_force by (simp add: list_ex_iff)
    show "filter_mixed (r_filter req') = (1 < length allowed)"
      unfolding routed(6) by (simp add: filter_mixed_def filter_candidates_allowed)
  qed (rule routed(1) routed(3) routed(5) kept)+
qed

definition example_request :: "schedulerAuthCandidate list \<Rightarrow> schedulerPickRequest" where
  "example_request cs = \<lparr>r_Provider = ''mixed'', r_Providers = ['' Codex'', ''xai''], r_Model = ''m'', r_Stream = False,
     r_Headers = [], r_Metadata = [], r_Candidates = cs, r_filter = None\<rparr>"

definition example_of :: "string \<Rightarrow> string \<Rightarrow> schedulerAuthCandidate" where
  "example_of name provider = no_candidate\<lparr>c_ID := name, c_Provider := provider\<rparr>"

definition example_filter :: "nat \<Rightarrow> schedulerRequestFilter" where
  "example_filter n = \<lparr>f_allowedList = [''codex'', ''xai''], f_routeFiltered = n, f_statusFiltered = 0, f_quarantined = []\<rparr>"

definition example_prepared :: "nat \<Rightarrow> schedulerAuthCandidate list \<Rightarrow> schedulerPickRequest" where
  "example_prepared n cs =
     (example_request [])\<lparr>r_Providers := [''codex'', ''xai''], r_Candidates := cs, r_filter := Some (example_filter n)\<rparr>"

theorem prepared_candidates_witness:
  "prepareSchedulerRequest None (example_request [example_of ''b'' ''other'', example_of ''a'' ''XAI''])
     = Inr (example_prepared 1 [example_of ''a'' ''xai''])
   \<and> filter_mixed (Some (example_filter 1))"
proof -
  have eval: "prepareSchedulerRequest None (example_request [example_of ''b'' ''other'', example_of ''a'' ''XAI''])
     = Inr (example_prepared 1 [example_of ''a'' ''xai''])"
    by code_simp
  have cands: "r_Candidates (example_request [example_of ''b'' ''other'', example_of ''a'' ''XAI'']) \<noteq> []"
    by (simp add: example_request_def)
  obtain allowed where "r_Providers (example_prepared 1 [example_of ''a'' ''xai'']) = allowed"
      "filter_mixed (r_filter (example_prepared 1 [example_of ''a'' ''xai''])) = (1 < length allowed)"
    using prepared_candidates [OF eval cands] by blast
  then have "filter_mixed (Some (example_filter 1))" by (auto simp: example_prepared_def)
  with eval show ?thesis by blast
qed

text \<open>Preparation fails closed, and only then. With a valid route that names some provider, the
  request is rejected exactly when its only provider is quarantined or when candidates were offered and
  none of them is admissible; and whatever makes it fail, the error is a 503 rejection, never a silent
  delegation.\<close>

theorem prepare_fails_closed:
  assumes "schedulerAllowedProviders req = Inr allowed" and "allowed \<noteq> []"
  shows "if (length allowed = 1 \<and> quarantineReason q (hd allowed) \<noteq> None)
            \<or> (r_Candidates req \<noteq> [] \<and> \<not> list_ex (admissible q allowed) (r_Candidates req))
         then \<exists>rej. prepareSchedulerRequest q req = Inl (Reject rej) \<and> e_HTTPStatus rej = 503
         else \<exists>req'. prepareSchedulerRequest q req = Inr req'"
proof -
  obtain f kept where fk: "filter_candidates q allowed (r_Candidates req) = (f, kept)" by fastforce
  then have kept: "kept = map canonical_candidate (filter (admissible q allowed) (r_Candidates req))"
    by (metis filter_candidates_kept snd_conv)
  have empty: "kept = [] \<longleftrightarrow> \<not> list_ex (admissible q allowed) (r_Candidates req)"
    by (auto simp: kept filter_empty_conv list_ex_iff)
  let ?single = "if length allowed = 1 then quarantineReason q (hd allowed) else None"
  have single: "(length allowed = 1 \<and> quarantineReason q (hd allowed) \<noteq> None) \<longleftrightarrow> ?single \<noteq> None" by simp
  have prep: "prepareSchedulerRequest q req =
      (case ?single of
         Some reason \<Rightarrow> Inl (newSchedulerPrivacyQuarantineError (hd allowed) reason)
       | None \<Rightarrow> if kept = [] \<and> r_Candidates req \<noteq> [] then
             case firstQuarantinedProvider (f_quarantined f) of
               Some (provider, reason) \<Rightarrow> Inl (newSchedulerPrivacyQuarantineError provider reason)
             | None \<Rightarrow> Inl (unavailable ''auth_unavailable''
                 ''no scheduler candidates remain after route and status validation'')
           else Inr (req\<lparr>r_Provider := canonicalProvider (r_Provider req), r_Providers := allowed,
                 r_Candidates := kept, r_filter := Some f\<rparr>))"
    using assms fk by (simp add: prepareSchedulerRequest_def)
  show ?thesis
    unfolding single empty [symmetric] prep
    by (cases ?single; cases "firstQuarantinedProvider (f_quarantined f)")
      (auto simp: unavailable_def StatusServiceUnavailable_def newSchedulerPrivacyQuarantineError_def)
qed

theorem prepare_fails_closed_witness:
  "\<exists>rej. prepareSchedulerRequest (Some [(''xai'', ''legacy'')]) ((example_request [])\<lparr>r_Provider := ''xAI'', r_Providers := []\<rparr>)
     = Inl (Reject rej) \<and> e_HTTPStatus rej = 503"
proof -
  let ?req = "(example_request [])\<lparr>r_Provider := ''xAI'', r_Providers := []\<rparr>"
  have allowed: "schedulerAllowedProviders ?req = Inr [''xai'']" by code_simp
  have "quarantineReason (Some [(''xai'', ''legacy'')]) ''xai'' \<noteq> None" by code_simp
  then show ?thesis using prepare_fails_closed [OF allowed, of "Some [(''xai'', ''legacy'')]"] by simp
qed

text \<open>Isolation. Whatever request is prepared, each candidate left carries a canonical provider that the
  route itself names or declares, is active, and is not of a quarantined provider.\<close>

theorem prepared_isolated:
  assumes "prepareSchedulerRequest q req = Inr req'" and "c \<in> set (r_Candidates req')"
  shows "canonicalProvider (c_Provider c) = c_Provider c \<and> quarantineReason q (c_Provider c) = None
       \<and> schedulerCandidateActive c
       \<and> (c_Provider c = canonicalProvider (r_Provider req) \<or> c_Provider c \<in> canonicalProvider ` set (r_Providers req))"
  using assms(1)
proof (cases rule: prepare_cases)
  case unrouted
  have "r_Candidates req = []" by (rule allowed_Nil) (rule unrouted(1))
  then have "r_Candidates req' = []" by (simp only: unrouted(2))
  then show ?thesis using assms(2) by (simp only: list.set) (rule emptyE)
next
  case (routed allowed)
  obtain d where d: "c = canonical_candidate d" "admissible q allowed d"
    using assms(2) unfolding routed(5) by auto
  then have p: "c_Provider c \<in> set allowed"
    by (simp add: canonical_candidate_def admissible_def Let_def)
  have "c_Provider c = canonicalProvider (r_Provider req) \<or> c_Provider c \<in> canonicalProvider ` set (r_Providers req)"
    using allowed_origin [OF routed(1) p] unfolding set_declaredProviders by blast
  with d show ?thesis
    by (simp add: canonical_candidate_def admissible_def schedulerCandidateActive_def Let_def)
qed

theorem prepared_isolated_witness:
  "quarantineReason None (c_Provider (example_of ''a'' ''xai'')) = None \<and> schedulerCandidateActive (example_of ''a'' ''xai'')"
proof -
  have eval: "prepareSchedulerRequest None (example_request [example_of ''a'' ''xai''])
      = Inr (example_prepared 0 [example_of ''a'' ''xai''])" by code_simp
  have "example_of ''a'' ''xai'' \<in> set (r_Candidates (example_prepared 0 [example_of ''a'' ''xai'']))"
    by (simp add: example_prepared_def)
  from prepared_isolated [OF eval this] show ?thesis by blast
qed

end
