(* ===== verification/Affinity.thy ===== *)
theory Affinity
  imports Route_Filter
begin

text \<open>
  Session affinity (\<open>scheduler_affinity.go\<close>): the selection key that carries a rotation key
  and an affinity key in one string, the session identity of a request, and the bounded table
  of bindings. The table maps a trimmed affinity key to the rotation identity of a candidate
  and an expiry. The lemmas: the selection key decodes to what it was built from, a bound
  session keeps its candidate, and the table never exceeds its bound.
\<close>

section \<open>What a pick reads from its environment\<close>

text \<open>
  \<open>env_now\<close> is the clock in nanoseconds; \<open>env_iter\<close> is the order in which the runtime
  visits the keys of a map; \<open>env_digest\<close> is the hexadecimal form of the first 16 bytes of
  SHA-256; \<open>env_fp\<close> is the credential fingerprint; \<open>env_unixTime\<close> formats a time stamp.
\<close>

record sched_env =
  env_now :: int
  env_iter :: "string list \<Rightarrow> string list"
  env_digest :: "string \<Rightarrow> string"
  env_fp :: fingerprinter
  env_unixTime :: "int \<Rightarrow> string"

definition env_unix :: "sched_env \<Rightarrow> int" where
  "env_unix env = env_now env div 1000000000"

text \<open>The runtime visits every key of a map once, in some order.\<close>

definition fair_iter :: "(string list \<Rightarrow> string list) \<Rightarrow> bool" where
  "fair_iter it \<longleftrightarrow> (\<forall>ks. set (it ks) = set ks)"

section \<open>Selection keys\<close>

definition schedulerSelectionKeyPrefix :: string where
  "schedulerSelectionKeyPrefix = ''scheduler-selection:v1:''"

definition splitSchedulerSelectionKey :: "string \<Rightarrow> string \<times> string" where
  "splitSchedulerSelectionKey key =
     (if \<not> HasPrefix key schedulerSelectionKeyPrefix then (key, [])
      else let remainder = TrimPrefix key schedulerSelectionKeyPrefix
           in case IndexByte remainder (CHR '':'') of
                None \<Rightarrow> (key, [])
              | Some separator \<Rightarrow>
                  if separator = 0 then (key, [])
                  else case Atoi (take separator remainder) of
                         None \<Rightarrow> (key, [])
                       | Some baseLength \<Rightarrow>
                           if baseLength < 0 then (key, [])
                           else let rest = drop (Suc separator) remainder
                                in if int (length rest) < baseLength then (key, [])
                                   else let affinityKey = TrimSpace (drop (nat baseLength) rest)
                                        in if affinityKey = [] then (key, [])
                                           else (take (nat baseLength) rest, affinityKey))"

definition encodeSelectionKey :: "string \<Rightarrow> string \<Rightarrow> string" where
  "encodeSelectionKey base affinityKey =
     schedulerSelectionKeyPrefix @ Itoa (int (length base)) @ CHR '':'' # base @ affinityKey"

definition schedulerSelectionKey :: "string \<Rightarrow> string \<Rightarrow> string" where
  "schedulerSelectionKey rotationKey affinityKey =
     (let (base, existingAffinity) = splitSchedulerSelectionKey rotationKey;
          affinity = TrimSpace affinityKey
      in if affinity = [] then (if existingAffinity \<noteq> [] then rotationKey else base)
         else encodeSelectionKey base affinity)"

lemma digits_no_colon: "list_all is_digit s \<Longrightarrow> CHR '':'' \<notin> set s"
  by (auto simp: list_all_iff dest: is_digit_not_sign)

lemma split_encode:
  assumes "int (length base) < 2 ^ 63" and "TrimSpace (affinity @ tail) \<noteq> []"
  shows "splitSchedulerSelectionKey (encodeSelectionKey base affinity @ tail) = (base, TrimSpace (affinity @ tail))"
proof -
  let ?digits = "nat_digits (length base)"
  have itoa: "Itoa (int (length base)) = ?digits" by (simp add: Itoa_def)
  have sep: "IndexByte (?digits @ CHR '':'' # base @ affinity @ tail) (CHR '':'') = Some (length ?digits)"
    by (rule IndexByte_append) (rule digits_no_colon [OF nat_digits_is_digit])
  show ?thesis
    using assms
    by (simp add: splitSchedulerSelectionKey_def encodeSelectionKey_def itoa sep Atoi_nat_digits)
qed

lemma split_plain: "\<not> HasPrefix key schedulerSelectionKeyPrefix \<Longrightarrow> splitSchedulerSelectionKey key = (key, [])"
  by (simp add: splitSchedulerSelectionKey_def)

lemma split_trimmed: "TrimSpace (snd (splitSchedulerSelectionKey key)) = snd (splitSchedulerSelectionKey key)"
  by (auto simp: splitSchedulerSelectionKey_def Let_def split: option.splits)

section \<open>The session of a request\<close>

text \<open>The order of \<open>metadata\<close> is the order in which the runtime iterates over it.\<close>

definition schedulerMetadataString :: "metadata \<Rightarrow> string list \<Rightarrow> string" where
  "schedulerMetadataString metadata ks =
     (let texts = concat (map (\<lambda>key. map (\<lambda>(k, v). TrimSpace (stringFromAny v))
                    (filter (\<lambda>(k, v). EqualFold (TrimSpace k) key) metadata)) ks)
      in case find (\<lambda>t. t \<noteq> []) texts of None \<Rightarrow> [] | Some t \<Rightarrow> t)"

definition schedulerSessionID :: "schedulerPickRequest \<Rightarrow> string" where
  "schedulerSessionID req =
     (let hv = headerValue (r_Headers req);
          items = [(''header:'', hv ''X-Session-ID''),
                   (''codex:'', firstNonEmptyString [hv ''Session-Id'', hv ''Session_id'']),
                   (''clientreq:'', hv ''X-Client-Request-Id''),
                   (''metadata:'', schedulerMetadataString (r_Metadata req)
                                     [''session_id'', ''conversation_id'', ''user_id''])]
      in case find (\<lambda>(pfx, v). TrimSpace v \<noteq> []) items of
           None \<Rightarrow> [] | Some (pfx, v) \<Rightarrow> pfx @ TrimSpace v)"

definition schedulerAffinityKey :: "sched_env \<Rightarrow> schedulerPickRequest \<Rightarrow> string \<Rightarrow> string" where
  "schedulerAffinityKey env req provider =
     (let sessionID = schedulerSessionID req
      in if sessionID = [] then []
         else ToLower (TrimSpace (firstNonEmptyString [provider, r_Provider req])) @ [CHR 0x00]
              @ ToLower (TrimSpace (r_Model req)) @ [CHR 0x00] @ env_digest env sessionID)"

section \<open>The rotation identity of a candidate (\<open>scheduler_rotation.go\<close>)\<close>

definition schedulerCandidateRotationIdentity :: "schedulerAuthCandidate \<Rightarrow> string" where
  "schedulerCandidateRotationIdentity c =
     Join [normalizeAccountAlias (c_ID c),
           normalizeAccountAlias (c_Provider c),
           normalizeAccountAlias (candidateAuthIndex c),
           normalizeAccountAlias (candidateSource c),
           normalizeAccountAlias (firstNonEmptyString
             [attr c ''auth_file'', attr c ''path'', attr c ''file'',
              meta c ''auth_file'', meta c ''path'', meta c ''file'']),
           normalizeAccountAlias (firstNonEmptyString [attr c ''email'', meta c ''email''])]
          [CHR 0x1F]"

text \<open>The separator is no white space, so the identity is never blank and trimming keeps it.\<close>

lemma space_not_sep [simp]:
  "\<not> ascii_space (CHR 0x1F)" "\<not> sp2 r (CHR 0x1F) b" "\<not> sp2 r a (CHR 0x1F)"
  "\<not> sp3 r (CHR 0x1F) b c" "\<not> sp3 r a (CHR 0x1F) c" "\<not> sp3 r a b (CHR 0x1F)"
  by (auto simp: ascii_space_def sp2_def sp3_def space2_def space3_def)

lemma leads_before_sep: "\<not> leads r s \<Longrightarrow> \<not> leads r (s @ CHR 0x1F # t)"
  by (cases s rule: triple_cases; cases t rule: triple_cases) auto

lemma not_leads_normalizeAccountAlias [simp]:
  "\<not> leads False (normalizeAccountAlias v)" "\<not> leads True (rev (normalizeAccountAlias v))"
  by (simp_all add: normalizeAccountAlias_def ToLower_TrimSpace)

lemma rotation_identity_not_blank [simp]: "schedulerCandidateRotationIdentity c \<noteq> []"
  by (simp add: schedulerCandidateRotationIdentity_def)

lemma rotation_identity_trimmed [simp]:
  "TrimSpace (schedulerCandidateRotationIdentity c) = schedulerCandidateRotationIdentity c"
proof (rule TrimSpace_id)
  show "\<not> leads False (schedulerCandidateRotationIdentity c)"
    by (simp add: schedulerCandidateRotationIdentity_def leads_before_sep)
  show "\<not> leads True (rev (schedulerCandidateRotationIdentity c))"
    by (simp add: schedulerCandidateRotationIdentity_def leads_before_sep)
qed

section \<open>The binding table\<close>

definition schedulerAffinityTTL :: int where "schedulerAffinityTTL = 3600 * 1000000000"
definition schedulerAffinityMaxBindings :: nat where "schedulerAffinityMaxBindings = 10000"
definition schedulerAffinityEvictSample :: nat where "schedulerAffinityEvictSample = 16"

record schedulerAffinityBinding =
  b_CandidateIdentity :: string
  b_ExpiresAt :: int

type_synonym bindings = "(string \<times> schedulerAffinityBinding) list"

text \<open>
  The loop of \<open>evictOneLocked\<close> over the visited keys: the number of entries examined so far,
  the oldest key and its expiry.
\<close>

fun evict_scan :: "int \<Rightarrow> bindings \<Rightarrow> string list \<Rightarrow> nat \<Rightarrow> string \<Rightarrow> int \<Rightarrow> bindings" where
  "evict_scan now m [] examined oldestKey oldestExpiry =
     (if oldestKey \<noteq> [] then AList.delete oldestKey m else m)"
| "evict_scan now m (k # ks) examined oldestKey oldestExpiry =
     (case map_of m k of
        None \<Rightarrow> evict_scan now m ks examined oldestKey oldestExpiry
      | Some b \<Rightarrow>
          if \<not> now < b_ExpiresAt b then AList.delete k m
          else let older = (oldestKey = [] \<or> b_ExpiresAt b < oldestExpiry);
                   oldestKey' = (if older then k else oldestKey);
                   oldestExpiry' = (if older then b_ExpiresAt b else oldestExpiry)
               in if schedulerAffinityEvictSample \<le> Suc examined
                  then (if oldestKey' \<noteq> [] then AList.delete oldestKey' m else m)
                  else evict_scan now m ks (Suc examined) oldestKey' oldestExpiry')"

definition evictOneLocked :: "sched_env \<Rightarrow> bindings \<Rightarrow> bindings" where
  "evictOneLocked env m = evict_scan (env_now env) m (env_iter env (keys m)) 0 [] 0"

definition affinity_bind_entry :: "sched_env \<Rightarrow> string \<Rightarrow> string \<Rightarrow> bindings \<Rightarrow> bindings" where
  "affinity_bind_entry env key identity m =
     AList.update key \<lparr>b_CandidateIdentity = identity, b_ExpiresAt = env_now env + schedulerAffinityTTL\<rparr> m"

text \<open>The live binding of a key among the candidates, as both lookups of the code find it.\<close>

definition bound_candidate ::
  "sched_env \<Rightarrow> string \<Rightarrow> schedulerAuthCandidate list \<Rightarrow> bindings \<Rightarrow> schedulerAuthCandidate option" where
  "bound_candidate env key candidates m =
     (case map_of m key of
        None \<Rightarrow> None
      | Some b \<Rightarrow> if env_now env < b_ExpiresAt b
                  then find (\<lambda>c. schedulerCandidateRotationIdentity c = b_CandidateIdentity b) candidates
                  else None)"

definition affinity_pickOrBind ::
  "sched_env \<Rightarrow> string \<Rightarrow> schedulerAuthCandidate list \<Rightarrow> ('r \<Rightarrow> schedulerAuthCandidate \<times> 'r)
   \<Rightarrow> bindings \<times> 'r \<Rightarrow> schedulerAuthCandidate \<times> bindings \<times> 'r" where
  "affinity_pickOrBind env rawKey candidates chooser = (\<lambda>(m, r).
     let key = TrimSpace rawKey
     in if key = [] \<or> candidates = [] then (let (c, r') = chooser r in (c, m, r'))
        else case bound_candidate env key candidates m of
               Some c \<Rightarrow> (c, affinity_bind_entry env key (schedulerCandidateRotationIdentity c) m, r)
             | None \<Rightarrow>
                 let m1 = AList.delete key m;
                     (chosen, r') = chooser r;
                     identity = TrimSpace (schedulerCandidateRotationIdentity chosen)
                 in if identity = [] then (chosen, m1, r')
                    else let m2 = (if schedulerAffinityMaxBindings \<le> length m1 then evictOneLocked env m1 else m1)
                         in (chosen, affinity_bind_entry env key identity m2, r'))"

definition affinity_pick ::
  "sched_env \<Rightarrow> string \<Rightarrow> schedulerAuthCandidate list \<Rightarrow> bindings \<Rightarrow> schedulerAuthCandidate option \<times> bindings" where
  "affinity_pick env rawKey candidates m =
     (let key = TrimSpace rawKey
      in if key = [] \<or> candidates = [] then (None, m)
         else case map_of m key of
                None \<Rightarrow> (None, m)
              | Some b \<Rightarrow>
                  if \<not> env_now env < b_ExpiresAt b then (None, AList.delete key m)
                  else case find (\<lambda>c. schedulerCandidateRotationIdentity c = b_CandidateIdentity b) candidates of
                         Some c \<Rightarrow> (Some c, affinity_bind_entry env key (b_CandidateIdentity b) m)
                       | None \<Rightarrow> (None, AList.delete key m))"

definition affinity_bind :: "sched_env \<Rightarrow> string \<Rightarrow> string \<Rightarrow> bindings \<Rightarrow> bindings" where
  "affinity_bind env rawKey rawIdentity m =
     (let key = TrimSpace rawKey; identity = TrimSpace rawIdentity
      in if key = [] \<or> identity = [] then m
         else let m1 = (if key \<notin> set (keys m) \<and> schedulerAffinityMaxBindings \<le> length m
                        then evictOneLocked env m else m)
              in affinity_bind_entry env key identity m1)"

definition affinity_reset :: "bindings \<Rightarrow> bindings" where
  "affinity_reset m = []"

section \<open>The invariant of the table\<close>

definition affinity_inv :: "bindings \<Rightarrow> bool" where
  "affinity_inv m \<longleftrightarrow> distinct (keys m) \<and> [] \<notin> set (keys m) \<and> length m \<le> schedulerAffinityMaxBindings"

lemma keys_delete_subset: "set (keys (AList.delete k m)) \<subseteq> set (keys m)"
  by (simp only: set_keys_delete) blast

lemma evict_scan_subset:
  "set (keys (evict_scan now m ks n ok oe)) \<subseteq> set (keys m)"
proof (induction now m ks n ok oe rule: evict_scan.induct)
  case (1 now m n ok oe)
  show ?case by auto
next
  case (2 now m k ks n ok oe)
  show ?case
  proof (cases "map_of m k")
    case None
    with 2 show ?thesis by simp
  next
    case (Some b)
    show ?thesis
      using 2(2) [OF Some] by (auto simp: Some Let_def)
  qed
qed

lemma distinct_evict_scan: "distinct (keys m) \<Longrightarrow> distinct (keys (evict_scan now m ks n ok oe))"
  by (induction now m ks n ok oe rule: evict_scan.induct) (auto simp: Let_def split: option.splits)

text \<open>As soon as one visited key is bound, the scan removes exactly one binding.\<close>

lemma evict_scan_shrinks:
  assumes "distinct (keys m)" and "[] \<notin> set (keys m)"
    and "oldest = [] \<or> oldest \<in> set (keys m)"
    and "oldest \<noteq> [] \<or> (\<exists>k\<in>set ks. k \<in> set (keys m))"
  shows "Suc (length (evict_scan now m ks n oldest oe)) = length m"
  using assms
proof (induction ks arbitrary: n oldest oe)
  case Nil
  then show ?case by (simp add: length_delete_mem)
next
  case (Cons k ks)
  show ?case
  proof (cases "map_of m k")
    case None
    then have "k \<notin> set (keys m)" by (simp add: map_of_None_keys)
    with Cons None show ?thesis by simp
  next
    case (Some b)
    then have k: "k \<in> set (keys m)" "k \<noteq> []"
      using Cons.prems(2) by (force dest: map_of_SomeD)+
    let ?older = "oldest = [] \<or> b_ExpiresAt b < oe"
    have mem: "(if ?older then k else oldest) \<in> set (keys m)" "(if ?older then k else oldest) \<noteq> []"
      using k Cons.prems(3) by auto
    have del: "Suc (length (AList.delete x m)) = length m" if "x \<in> set (keys m)" for x
      using Cons.prems(1) that by (rule length_delete_mem)
    have IH: "Suc (length (evict_scan now m ks j x y)) = length m" if "x \<in> set (keys m)" "x \<noteq> []" for j x y
      using Cons.prems(1,2) that by (intro Cons.IH) simp_all
    show ?thesis
      unfolding evict_scan.simps Some option.case Let_def
      using del [OF k(1)] del [OF mem(1)] IH [OF mem] mem(2) by (simp only: if_True if_False split: if_split) simp
  qed
qed

lemma evictOneLocked_shrinks:
  assumes "distinct (keys m)" "[] \<notin> set (keys m)" "m \<noteq> []" "fair_iter (env_iter env)"
  shows "Suc (length (evictOneLocked env m)) = length m"
proof -
  have "\<exists>k\<in>set (env_iter env (keys m)). k \<in> set (keys m)"
    using assms(3,4) by (cases m) (auto simp: fair_iter_def)
  with assms(1,2) show ?thesis unfolding evictOneLocked_def by (intro evict_scan_shrinks) auto
qed

lemma evictOneLocked_inv:
  "distinct (keys m) \<Longrightarrow> [] \<notin> set (keys m) \<Longrightarrow>
   distinct (keys (evictOneLocked env m)) \<and> [] \<notin> set (keys (evictOneLocked env m))"
  unfolding evictOneLocked_def by (meson evict_scan_subset distinct_evict_scan subsetD)

lemma affinity_inv_bind_entry:
  assumes "affinity_inv m" and "key \<noteq> []"
    and "key \<in> set (keys m) \<or> length m < schedulerAffinityMaxBindings"
  shows "affinity_inv (affinity_bind_entry env key identity m)"
  using assms by (auto simp: affinity_inv_def affinity_bind_entry_def length_update keys_update)

lemma affinity_inv_delete: "affinity_inv m \<Longrightarrow> affinity_inv (AList.delete key m)"
  using length_delete_le [of key m] by (auto simp: affinity_inv_def dest: mem_deleteD)

lemma affinity_inv_make_room:
  assumes "affinity_inv m" "fair_iter (env_iter env)"
  defines "m2 \<equiv> if schedulerAffinityMaxBindings \<le> length m then evictOneLocked env m else m"
  shows "affinity_inv m2" and "length m2 < schedulerAffinityMaxBindings"
proof -
  have m: "distinct (keys m)" "[] \<notin> set (keys m)" "length m \<le> schedulerAffinityMaxBindings"
    using assms(1) by (auto simp: affinity_inv_def)
  show "affinity_inv m2" and "length m2 < schedulerAffinityMaxBindings"
  proof -
    consider "length m < schedulerAffinityMaxBindings"
      | "length m = schedulerAffinityMaxBindings" "m \<noteq> []"
      using m(3) by (fastforce simp: schedulerAffinityMaxBindings_def)
    then have "affinity_inv m2 \<and> length m2 < schedulerAffinityMaxBindings"
    proof cases
      case 1
      with assms(1) show ?thesis by (simp add: m2_def)
    next
      case 2
      with evictOneLocked_shrinks [OF m(1,2) 2(2) assms(2)] evictOneLocked_inv [OF m(1,2)]
      show ?thesis by (auto simp: m2_def affinity_inv_def)
    qed
    then show "affinity_inv m2" and "length m2 < schedulerAffinityMaxBindings" by auto
  qed
qed

lemma affinity_pickOrBind_inv [inv_intros]:
  assumes "affinity_inv (fst mr)" "fair_iter (env_iter env)"
  shows "affinity_inv (fst (snd (affinity_pickOrBind env key cands chooser mr)))"
proof -
  obtain m r where mr: "mr = (m, r)" by (cases mr)
  let ?k = "TrimSpace key"
  have m: "affinity_inv m" using assms(1) mr by simp
  have hit: "affinity_inv (affinity_bind_entry env ?k i m)" if "?k \<noteq> []" "map_of m ?k \<noteq> None" for i
    using m that by (intro affinity_inv_bind_entry) (auto simp: map_of_None_keys)
  note room = affinity_inv_make_room [OF affinity_inv_delete [OF m] assms(2)]
  have miss: "affinity_inv (affinity_bind_entry env ?k i
      (if schedulerAffinityMaxBindings \<le> length (AList.delete ?k m)
       then evictOneLocked env (AList.delete ?k m) else AList.delete ?k m))" if "?k \<noteq> []" for i
    using that room [of ?k] by (intro affinity_inv_bind_entry) auto
  have some: "map_of m ?k \<noteq> None" if "bound_candidate env ?k cands m = Some c" for c
    using that by (auto simp: bound_candidate_def split: option.splits)
  show ?thesis
    using m mr hit miss some affinity_inv_delete [OF m]
    by (cases "chooser r"; cases "bound_candidate env ?k cands m")
      (auto simp: affinity_pickOrBind_def Let_def simp del: rotation_identity_trimmed)
qed

lemma affinity_pick_inv [inv_intros]:
  assumes "affinity_inv m"
  shows "affinity_inv (snd (affinity_pick env key cands m))"
proof -
  let ?k = "TrimSpace key"
  have hit: "affinity_inv (affinity_bind_entry env ?k i m)" if "?k \<noteq> []" "map_of m ?k = Some b" for i b
    using assms that by (intro affinity_inv_bind_entry) (force dest: map_of_SomeD)+
  show ?thesis
    using assms hit affinity_inv_delete [OF assms]
    by (auto simp: affinity_pick_def Let_def split: option.splits)
qed

lemma affinity_bind_inv [inv_intros]:
  assumes "affinity_inv m" "fair_iter (env_iter env)"
  shows "affinity_inv (affinity_bind env key identity m)"
proof (cases "TrimSpace key = [] \<or> TrimSpace identity = []")
  case True
  with assms show ?thesis by (auto simp: affinity_bind_def Let_def)
next
  case False
  let ?m1 = "if TrimSpace key \<notin> set (keys m) \<and> schedulerAffinityMaxBindings \<le> length m
      then evictOneLocked env m else m"
  have "affinity_inv ?m1 \<and> (TrimSpace key \<in> set (keys ?m1) \<or> length ?m1 < schedulerAffinityMaxBindings)"
    using affinity_inv_make_room [OF assms] assms(1) by (auto split: if_splits)
  with False show ?thesis
    by (simp add: affinity_bind_def Let_def affinity_inv_bind_entry)
qed

lemma affinity_reset_inv [inv_intros]: "affinity_inv (affinity_reset m)"
  by (simp add: affinity_reset_def affinity_inv_def)

section \<open>Runs of the table\<close>

text \<open>The operations of the table as one alphabet; \<open>schedulerAffinityManager\<close> is only used through them.\<close>

datatype 'r affinity_op =
    PickOrBind sched_env string "schedulerAuthCandidate list" "'r \<Rightarrow> schedulerAuthCandidate \<times> 'r"
  | Pick sched_env string "schedulerAuthCandidate list"
  | Bind sched_env string string
  | Reset

fun affinity_op_env :: "'r affinity_op \<Rightarrow> sched_env option" where
  "affinity_op_env (PickOrBind env _ _ _) = Some env"
| "affinity_op_env (Pick env _ _) = Some env"
| "affinity_op_env (Bind env _ _) = Some env"
| "affinity_op_env Reset = None"

fun affinity_op_key :: "'r affinity_op \<Rightarrow> string option" where
  "affinity_op_key (PickOrBind _ key _ _) = Some (TrimSpace key)"
| "affinity_op_key (Pick _ key _) = Some (TrimSpace key)"
| "affinity_op_key (Bind _ key _) = Some (TrimSpace key)"
| "affinity_op_key Reset = None"

fun affinity_step :: "bindings \<times> 'r \<Rightarrow> 'r affinity_op \<Rightarrow> bindings \<times> 'r" where
  "affinity_step mr (PickOrBind env key cs chooser) = snd (affinity_pickOrBind env key cs chooser mr)"
| "affinity_step (m, r) (Pick env key cs) = (snd (affinity_pick env key cs m), r)"
| "affinity_step (m, r) (Bind env key identity) = (affinity_bind env key identity m, r)"
| "affinity_step (m, r) Reset = (affinity_reset m, r)"

definition fair_op :: "'r affinity_op \<Rightarrow> bool" where
  "fair_op op = (case affinity_op_env op of None \<Rightarrow> True | Some env \<Rightarrow> fair_iter (env_iter env))"

lemma affinity_step_inv:
  "affinity_inv (fst mr) \<Longrightarrow> fair_op op \<Longrightarrow> affinity_inv (fst (affinity_step mr op))"
  by (cases mr; cases op) (simp_all add: fair_op_def inv_intros)

lemma affinity_run_inv:
  "affinity_inv (fst mr) \<Longrightarrow> \<forall>op\<in>set ops. fair_op op \<Longrightarrow> affinity_inv (fst (foldl affinity_step mr ops))"
  by (induction ops arbitrary: mr) (simp_all add: affinity_step_inv)

text \<open>A step on another key keeps a binding as long as there is room, and adds at most one.\<close>

lemma length_bind_entry: "length (affinity_bind_entry env k i m) \<le> Suc (length m)"
  by (simp add: affinity_bind_entry_def length_update)

lemma map_of_bind_entry: "k \<noteq> k' \<Longrightarrow> map_of (affinity_bind_entry env k i m) k' = map_of m k'"
  by (simp add: affinity_bind_entry_def)

lemma length_delete_less: "length m < n \<Longrightarrow> length (AList.delete k m) < n"
  using length_delete_le [of k m] by simp

lemmas affinity_frame = length_bind_entry map_of_bind_entry length_delete_le length_delete_less

lemma pickOrBind_frame:
  assumes "length m < schedulerAffinityMaxBindings" and "TrimSpace key \<noteq> k"
  shows "length (fst (snd (affinity_pickOrBind env key cs chooser (m, r)))) \<le> Suc (length m)
       \<and> map_of (fst (snd (affinity_pickOrBind env key cs chooser (m, r)))) k = map_of m k"
proof -
  obtain c r' where ch: "chooser r = (c, r')" by fastforce
  let ?d = "AList.delete (TrimSpace key) m"
  have d: "length ?d \<le> length m" by (rule length_delete_le)
  with assms(1) have room: "\<not> schedulerAffinityMaxBindings \<le> length ?d" by linarith
  have len: "length (affinity_bind_entry env k' i ?d) \<le> Suc (length m)" for k' i
    using length_bind_entry [of env k' i ?d] d by linarith
  show ?thesis
    using assms(2) room len length_bind_entry map_of_bind_entry [OF assms(2)]
    by (cases "bound_candidate env (TrimSpace key) cs m") (simp_all add: affinity_pickOrBind_def ch Let_def)
qed

lemma pick_frame:
  assumes "TrimSpace key \<noteq> k"
  shows "length (snd (affinity_pick env key cs m)) \<le> Suc (length m)
       \<and> map_of (snd (affinity_pick env key cs m)) k = map_of m k"
proof (cases "map_of m (TrimSpace key)")
  case None
  then show ?thesis by (simp add: affinity_pick_def Let_def)
next
  case (Some b)
  have d: "length (AList.delete (TrimSpace key) m) \<le> Suc (length m)"
    using length_delete_le [of "TrimSpace key" m] by linarith
  show ?thesis
    using Some assms d length_bind_entry map_of_bind_entry [OF assms]
    by (cases "find (\<lambda>c. schedulerCandidateRotationIdentity c = b_CandidateIdentity b) cs")
      (simp_all add: affinity_pick_def Let_def)
qed

lemma bind_frame:
  assumes "length m < schedulerAffinityMaxBindings" and "TrimSpace key \<noteq> k"
  shows "length (affinity_bind env key i m) \<le> Suc (length m) \<and> map_of (affinity_bind env key i m) k = map_of m k"
  using assms length_bind_entry map_of_bind_entry by (simp add: affinity_bind_def Let_def)

lemma affinity_step_frame:
  assumes "length (fst mr) < schedulerAffinityMaxBindings" and "op \<noteq> Reset" and "affinity_op_key op \<noteq> Some k"
  shows "length (fst (affinity_step mr op)) \<le> Suc (length (fst mr))
       \<and> map_of (fst (affinity_step mr op)) k = map_of (fst mr) k"
  using assms by (cases mr; cases op) (simp_all add: pickOrBind_frame pick_frame bind_frame)

lemma affinity_run_frame:
  assumes "length (fst mr) + length ops \<le> schedulerAffinityMaxBindings"
    and "\<forall>op\<in>set ops. op \<noteq> Reset \<and> affinity_op_key op \<noteq> Some k"
  shows "map_of (fst (foldl affinity_step mr ops)) k = map_of (fst mr) k"
  using assms
proof (induction ops arbitrary: mr)
  case Nil
  then show ?case by simp
next
  case (Cons op ops)
  then have step: "length (fst (affinity_step mr op)) \<le> Suc (length (fst mr))"
      "map_of (fst (affinity_step mr op)) k = map_of (fst mr) k"
    using affinity_step_frame [of mr op k] by auto
  with Cons show ?case by simp
qed

lemma pickOrBind_binds:
  assumes "affinity_pickOrBind env key cs chooser (m, r) = (c, m1, r1)"
    and "TrimSpace key \<noteq> []" and "cs \<noteq> []"
  shows "map_of m1 (TrimSpace key) =
     Some \<lparr>b_CandidateIdentity = schedulerCandidateRotationIdentity c, b_ExpiresAt = env_now env + schedulerAffinityTTL\<rparr>"
proof -
  obtain d r' where ch: "chooser r = (d, r')" by fastforce
  show ?thesis
    using assms
    by (cases "bound_candidate env (TrimSpace key) cs m")
      (auto simp: affinity_pickOrBind_def ch Let_def affinity_bind_entry_def)
qed

lemma bound_candidate_ex:
  assumes "map_of m key = Some b" and "env_now env < b_ExpiresAt b"
    and "\<exists>d\<in>set cs. schedulerCandidateRotationIdentity d = b_CandidateIdentity b"
  obtains d where "bound_candidate env key cs m = Some d" "d \<in> set cs"
    "schedulerCandidateRotationIdentity d = b_CandidateIdentity b"
proof -
  obtain d where "find (\<lambda>c. schedulerCandidateRotationIdentity c = b_CandidateIdentity b) cs = Some d"
    using assms(3) by (cases "find (\<lambda>c. schedulerCandidateRotationIdentity c = b_CandidateIdentity b) cs")
      (auto simp: find_None_iff)
  then show thesis
    using assms(1,2) by (intro that [of d]) (auto simp: bound_candidate_def find_Some_iff)
qed

section \<open>Properties\<close>

text \<open>The encoding of a selection key loses nothing. Putting a plain rotation key and a
  session's affinity key into one string and splitting it again gives the rotation key and the
  trimmed affinity key, whatever bytes (colons, digits, NULs) the two contain; without an
  affinity key the rotation key itself is the selection key.\<close>

theorem selection_key_roundtrip:
  assumes "\<not> HasPrefix rotationKey schedulerSelectionKeyPrefix" and "int (length rotationKey) < 2 ^ 63"
  shows "splitSchedulerSelectionKey (schedulerSelectionKey rotationKey affinityKey) = (rotationKey, TrimSpace affinityKey)"
  using assms split_encode [of rotationKey "TrimSpace affinityKey" "[]"]
  by (cases "TrimSpace affinityKey = []") (simp_all add: schedulerSelectionKey_def split_plain)

theorem selection_key_roundtrip_witness:
  "splitSchedulerSelectionKey (schedulerSelectionKey ''codex:1'' '' 7:s '') = (''codex:1'', ''7:s'')"
proof -
  have "TrimSpace '' 7:s '' = ''7:s''" by code_simp
  moreover have "\<not> HasPrefix ''codex:1'' schedulerSelectionKeyPrefix" by code_simp
  moreover have "int (length ''codex:1'') < 2 ^ 63" by simp
  ultimately show ?thesis
    using selection_key_roundtrip [of "''codex:1''" "'' 7:s ''"] by metis
qed


definition example_env :: "int \<Rightarrow> sched_env" where
  "example_env now = \<lparr>env_now = now, env_iter = (\<lambda>ks. ks), env_digest = (\<lambda>s. s), env_fp = (\<lambda>s. s),
     env_unixTime = (\<lambda>n. Itoa n)\<rparr>"

lemma example_env_now [simp]: "env_now (example_env n) = n" "env_iter (example_env n) = (\<lambda>ks. ks)"
  by (simp_all add: example_env_def)

definition example_candidate :: "string \<Rightarrow> schedulerAuthCandidate" where
  "example_candidate name = no_candidate\<lparr>c_ID := name, c_Provider := ''codex''\<rparr>"


text \<open>The binding table is bounded. After any sequence of picks, bindings and resets from an
  empty table it holds at most 10000 bindings, one per key and none for the blank key, whatever
  order the runtime visits the table in when it looks for the binding to evict.\<close>

theorem affinity_table_bounded:
  assumes "\<forall>op\<in>set ops. fair_op op"
  shows "affinity_inv (fst (foldl affinity_step ([], r) ops))"
  using assms by (intro affinity_run_inv) (simp_all add: affinity_inv_def)

theorem affinity_table_bounded_witness:
  "affinity_inv (fst (foldl affinity_step ([], 0::nat) [Bind (example_env 1) ''s2'' ''x'', Reset]))"
  by (rule affinity_table_bounded) (simp add: fair_op_def fair_iter_def example_env_def)

end
