(* ===== verification/Restrictions.thy ===== *)
theory Restrictions
  imports Affinity Complex_Main
begin

text \<open>
  Restriction rows and the snapshots the scheduler filters with (\<open>reporting.go\<close>,
  \<open>scheduler_state.go\<close>): the merge of bans and invalid credentials, deduplication by
  identity, and the alias indexes of the codex and xAI snapshots. The lemmas: an index lookup
  agrees with the row-by-row reference of \<open>main.go\<close>, and merging loses no restriction.
\<close>

section \<open>Rows (\<open>summary.go\<close>, \<open>xai_accounts.go\<close>)\<close>

text \<open>A \<open>float64\<close>: not a number, an infinity, or the rational it stands for.\<close>

datatype go_float = NaN | PosInf | NegInf | Fin rat

record autobanRow =
  ab_AuthID :: string
  ab_AuthIndex :: string
  ab_Source :: string
  ab_Provider :: string
  ab_AuthFile :: string
  ab_Window :: string
  ab_Reason :: string
  ab_BannedAt :: int
  ab_BannedAtText :: string
  ab_ResetAt :: int
  ab_ResetAtText :: string
  ab_SecondsRemaining :: int
  ab_Active :: bool
  ab_LastStatusCode :: int
  ab_PrimaryUsedPercent :: "go_float option"
  ab_PrimaryResetAt :: "int option"
  ab_SecondaryUsedPercent :: "go_float option"
  ab_SecondaryResetAt :: "int option"

record invalidAuthRow =
  ia_AuthID :: string
  ia_AuthIndex :: string
  ia_Source :: string
  ia_Provider :: string
  ia_Reason :: string
  ia_InvalidatedAt :: int
  ia_InvalidatedAtText :: string
  ia_Active :: bool
  ia_LastStatusCode :: int
  ia_AuthFile :: string
  ia_AuthFileMTime :: int

record xaiAccountStateRow =
  xs_StateKey :: string
  xs_AuthID :: string
  xs_AuthIndex :: string
  xs_Source :: string
  xs_Provider :: string
  xs_State :: string
  xs_Reason :: string
  xs_ObservedAt :: int
  xs_ObservedAtText :: string
  xs_ResetAt :: int
  xs_ResetAtText :: string
  xs_SecondsRemaining :: int
  xs_Active :: bool
  xs_LastStatusCode :: int
  xs_AuthFile :: string
  xs_AuthFileMTime :: int

definition StatusUnauthorized :: int where "StatusUnauthorized = 401"
definition StatusPaymentRequired :: int where "StatusPaymentRequired = 402"
definition StatusForbidden :: int where "StatusForbidden = 403"

section \<open>Invalid credentials as bans (\<open>reporting.go\<close>)\<close>

text \<open>The two reset texts are Chinese; these are their UTF-8 bytes.\<close>

definition bytes :: "nat list \<Rightarrow> string" where
  "bytes ns = map (char_of :: nat \<Rightarrow> char) ns"

definition resetAfterLogin :: string where
  "resetAfterLogin = bytes [0xE9, 0x87, 0x8D, 0xE6, 0x96, 0xB0, 0xE7, 0x99, 0xBB, 0xE5, 0xBD, 0x95,
     0xE5, 0x90, 0x8E, 0xE8, 0xA7, 0xA3, 0xE9, 0x99, 0xA4]"

definition resetAfterReplacing :: string where
  "resetAfterReplacing = bytes [0xE5, 0x88, 0xA0, 0xE9, 0x99, 0xA4, 0xE6, 0x88, 0x96, 0xE6, 0x9B, 0xBF,
     0xE6, 0x8D, 0xA2, 0xE8, 0xAE, 0xA4, 0xE8, 0xAF, 0x81, 0xE6, 0x96, 0x87, 0xE4, 0xBB, 0xB6,
     0xE5, 0x90, 0x8E, 0xE8, 0xA7, 0xA3, 0xE9, 0x99, 0xA4]"

definition invalidAuthIsWorkspaceDeactivated :: "invalidAuthRow \<Rightarrow> bool" where
  "invalidAuthIsWorkspaceDeactivated row \<longleftrightarrow>
     ia_LastStatusCode row = StatusPaymentRequired \<or> Contains (ToLower (ia_Reason row)) ''deactivated_workspace''"

text \<open>The reason is already non-empty where the code tests it again, so those branches are dead.\<close>

definition invalidAuthAsAutoban :: "invalidAuthRow \<Rightarrow> autobanRow" where
  "invalidAuthAsAutoban invalid =
     (let status = (if ia_LastStatusCode invalid = 0 then StatusUnauthorized else ia_LastStatusCode invalid);
          reason = (let r = TrimSpace (ia_Reason invalid)
                    in if r = [] then ''401 unauthorized: credential is invalid'' else r);
          (window, resetText) =
            (if invalidAuthIsWorkspaceDeactivated invalid then (''402'', resetAfterReplacing)
             else if status = StatusForbidden then (''403'', resetAfterReplacing)
             else (''401'', resetAfterLogin))
      in \<lparr>ab_AuthID = ia_AuthID invalid, ab_AuthIndex = ia_AuthIndex invalid, ab_Source = ia_Source invalid,
          ab_Provider = firstNonEmptyString [ia_Provider invalid, ''codex''], ab_AuthFile = ia_AuthFile invalid,
          ab_Window = window, ab_Reason = reason, ab_BannedAt = ia_InvalidatedAt invalid,
          ab_BannedAtText = ia_InvalidatedAtText invalid, ab_ResetAt = 0, ab_ResetAtText = resetText,
          ab_SecondsRemaining = -1, ab_Active = True, ab_LastStatusCode = status,
          ab_PrimaryUsedPercent = None, ab_PrimaryResetAt = None,
          ab_SecondaryUsedPercent = None, ab_SecondaryResetAt = None\<rparr>)"

section \<open>Deduplication\<close>

definition autobanIsPermanentAuthState :: "autobanRow \<Rightarrow> bool" where
  "autobanIsPermanentAuthState row =
     (let window = ToLower (TrimSpace (ab_Window row))
      in window \<in> {''401'', ''402'', ''403''}
         \<or> ab_LastStatusCode row \<in> {StatusUnauthorized, StatusPaymentRequired, StatusForbidden})"

definition autobanStatePriority :: "autobanRow \<Rightarrow> int" where
  "autobanStatePriority row = (if autobanIsPermanentAuthState row then 2 else 1)"

definition autobanIdentityScore :: "autobanRow \<Rightarrow> int" where
  "autobanIdentityScore row =
     (if fileNameIfJSON (ab_AuthFile row) \<noteq> [] \<or> fileNameIfJSON (ab_AuthID row) \<noteq> [] then 3
      else if fileNameIfJSON (ab_AuthIndex row) \<noteq> [] \<or> fileNameIfJSON (ab_Source row) \<noteq> [] then 2
      else if TrimSpace (ab_AuthID row) \<noteq> [] \<or> TrimSpace (ab_AuthIndex row) \<noteq> [] then 1
      else 0)"

definition preferAutobanIdentity :: "autobanRow \<Rightarrow> autobanRow \<Rightarrow> bool" where
  "preferAutobanIdentity candidate current =
     (if autobanStatePriority candidate \<noteq> autobanStatePriority current
      then autobanStatePriority current < autobanStatePriority candidate
      else if autobanIdentityScore candidate \<noteq> autobanIdentityScore current
      then autobanIdentityScore current < autobanIdentityScore candidate
      else ab_ResetAt current < ab_ResetAt candidate)"

definition or_else :: "'a option \<Rightarrow> 'a option \<Rightarrow> 'a option" where
  "or_else x y = (case x of None \<Rightarrow> y | Some _ \<Rightarrow> x)"

text \<open>The steps of \<open>mergeDuplicateAutobanRow\<close> on the preferred row, in order.\<close>

definition merge_fill :: "autobanRow \<Rightarrow> autobanRow \<Rightarrow> autobanRow" where
  "merge_fill m other =
     m\<lparr>ab_Active := ab_Active m \<or> ab_Active other,
       ab_Provider := firstNonEmptyString [ab_Provider m, ab_Provider other],
       ab_Source := firstNonEmptyString [ab_Source m, ab_Source other],
       ab_AuthFile := firstNonEmptyString [ab_AuthFile m, ab_AuthFile other],
       ab_LastStatusCode := (if ab_LastStatusCode m = 0 then ab_LastStatusCode other else ab_LastStatusCode m)\<rparr>"

definition merge_banned :: "autobanRow \<Rightarrow> autobanRow \<Rightarrow> autobanRow" where
  "merge_banned m other =
     (if ab_BannedAt m = 0 \<or> (0 < ab_BannedAt other \<and> ab_BannedAt other < ab_BannedAt m)
      then m\<lparr>ab_BannedAt := ab_BannedAt other, ab_BannedAtText := ab_BannedAtText other\<rparr> else m)"

definition merge_reset :: "autobanRow \<Rightarrow> autobanRow \<Rightarrow> autobanRow" where
  "merge_reset m other =
     (if \<not> autobanIsPermanentAuthState m \<and> ab_ResetAt m < ab_ResetAt other
      then m\<lparr>ab_ResetAt := ab_ResetAt other, ab_ResetAtText := ab_ResetAtText other,
             ab_SecondsRemaining := ab_SecondsRemaining other,
             ab_Window := firstNonEmptyString [ab_Window other, ab_Window m],
             ab_Reason := firstNonEmptyString [ab_Reason other, ab_Reason m]\<rparr> else m)"

definition merge_usage :: "autobanRow \<Rightarrow> autobanRow \<Rightarrow> autobanRow" where
  "merge_usage m other =
     m\<lparr>ab_PrimaryUsedPercent := or_else (ab_PrimaryUsedPercent m) (ab_PrimaryUsedPercent other),
       ab_PrimaryResetAt := or_else (ab_PrimaryResetAt m) (ab_PrimaryResetAt other),
       ab_SecondaryUsedPercent := or_else (ab_SecondaryUsedPercent m) (ab_SecondaryUsedPercent other),
       ab_SecondaryResetAt := or_else (ab_SecondaryResetAt m) (ab_SecondaryResetAt other)\<rparr>"

definition merge_into :: "autobanRow \<Rightarrow> autobanRow \<Rightarrow> autobanRow" where
  "merge_into m other = merge_usage (merge_reset (merge_banned (merge_fill m other) other) other) other"

definition mergeDuplicateAutobanRow :: "autobanRow \<Rightarrow> autobanRow \<Rightarrow> autobanRow" where
  "mergeDuplicateAutobanRow left right =
     (if preferAutobanIdentity right left then merge_into right left else merge_into left right)"

definition autobanDedupeKey :: "autobanRow \<Rightarrow> string" where
  "autobanDedupeKey row =
     (let provider = canonicalProviderOr (ab_Provider row) providerCodex;
          files = filter (\<lambda>f. f \<noteq> []) (map fileNameIfJSON [ab_AuthFile row, ab_AuthID row, ab_AuthIndex row, ab_Source row])
      in case files of
           file # _ \<Rightarrow> provider @ '':file:'' @ normalizeAccountAlias file
         | [] \<Rightarrow> (case authStateMatchAliases (ab_AuthID row) (ab_AuthIndex row) (ab_Source row) (ab_AuthFile row) of
                    [] \<Rightarrow> []
                  | alias # _ \<Rightarrow> provider @ '':alias:'' @ alias))"

definition dedupe_row :: "autobanRow list \<times> (string \<times> nat) list \<Rightarrow> autobanRow \<Rightarrow> autobanRow list \<times> (string \<times> nat) list" where
  "dedupe_row = (\<lambda>(out, seen) row.
     let key = autobanDedupeKey row
     in if key = [] then (out @ [row], seen)
        else case map_of seen key of
               Some idx \<Rightarrow> (out[idx := mergeDuplicateAutobanRow (out ! idx) row], seen)
             | None \<Rightarrow> (out @ [row], AList.update key (length out) seen))"

definition dedupeAutobanRows :: "autobanRow list \<Rightarrow> autobanRow list" where
  "dedupeAutobanRows rows = (if length rows < 2 then rows else fst (foldl dedupe_row ([], []) rows))"

definition mergeEffectiveAutobans :: "autobanRow list \<Rightarrow> invalidAuthRow list \<Rightarrow> autobanRow list" where
  "mergeEffectiveAutobans bans invalids =
     (if invalids = [] then dedupeAutobanRows bans
      else dedupeAutobanRows (bans @ map invalidAuthAsAutoban (filter ia_Active invalids)))"

section \<open>Snapshots (\<open>scheduler_state.go\<close>)\<close>

type_synonym alias_index = "(string \<times> nat list) list"

text \<open>
  The two snapshot structs differ only in the type of their rows. The time stamps
  \<open>sn_expiresAt\<close> and \<open>env_now\<close> are in nanoseconds, the reset times in seconds; 0 is
  the zero time.
\<close>

record 'row schedulerSnapshot =
  sn_rows :: "'row list"
  sn_broadByAlias :: alias_index
  sn_strictByAlias :: alias_index
  sn_earliestResetAt :: int
  sn_expiresAt :: int

type_synonym codexSchedulerSnapshot = "autobanRow schedulerSnapshot"
type_synonym xaiSchedulerSnapshot = "xaiAccountStateRow schedulerSnapshot"

definition schedulerRestrictedSnapshotTTL :: int where "schedulerRestrictedSnapshotTTL = 2 * 1000000000"
definition schedulerHealthySnapshotTTL :: int where "schedulerHealthySnapshotTTL = 30 * 1000000000"

text \<open>The aliases a row is indexed under, and whether they are strict (those of its auth files).\<close>

definition codexRowAliases :: "autobanRow \<Rightarrow> string list \<times> bool" where
  "codexRowAliases r =
     (let strict = strictAuthStateAliasesForValues (ab_AuthID r) (ab_AuthIndex r) (ab_Source r) (ab_AuthFile r)
      in if strict \<noteq> [] then (strict, True)
         else (normalizeAccountAliases [ab_AuthID r, ab_AuthIndex r, ab_Source r, ab_AuthFile r], False))"

definition xaiStateAliases :: "xaiAccountStateRow \<Rightarrow> string list" where
  "xaiStateAliases r = normalizeAccountAliases [xs_StateKey r, xs_AuthID r, xs_AuthIndex r, xs_Source r, xs_AuthFile r]"

definition xaiRowAliases :: "xaiAccountStateRow \<Rightarrow> string list \<times> bool" where
  "xaiRowAliases r =
     (let files = strictAuthStateAliasesForValues (xs_AuthID r) (xs_AuthIndex r) (xs_Source r) (xs_AuthFile r);
          stateKeyFile = fileNameIfJSON (xs_StateKey r);
          strict = (if stateKeyFile \<noteq> [] then normalizeAccountAliases (files @ [stateKeyFile]) else files)
      in if strict \<noteq> [] then (strict, True) else (xaiStateAliases r, False))"

definition index_add :: "nat \<Rightarrow> alias_index \<Rightarrow> string \<Rightarrow> alias_index" where
  "index_add i ix alias = AList.update alias (lookup_or [] ix alias @ [i]) ix"

text \<open>One iteration of the indexing loop, over the row and its number.\<close>

definition index_row ::
  "('row \<Rightarrow> string list \<times> bool) \<Rightarrow> alias_index \<times> alias_index \<Rightarrow> nat \<times> 'row \<Rightarrow> alias_index \<times> alias_index" where
  "index_row row_aliases = (\<lambda>(broad, strict) (i, row).
     let (aliases, isStrict) = row_aliases row
     in if isStrict then (broad, foldl (index_add i) strict aliases)
        else (foldl (index_add i) broad aliases, strict))"

definition index_rows :: "('row \<Rightarrow> string list \<times> bool) \<Rightarrow> 'row list \<Rightarrow> alias_index \<times> alias_index" where
  "index_rows row_aliases rows = foldl (index_row row_aliases) ([], []) (enumerate 0 rows)"

definition earliest_reset :: "int \<Rightarrow> int list \<Rightarrow> int" where
  "earliest_reset now resets =
     foldl (\<lambda>earliest r. if now < r \<and> (earliest = 0 \<or> r < earliest) then r else earliest) 0 resets"

definition snapshot_of ::
  "('row \<Rightarrow> string list \<times> bool) \<Rightarrow> ('row \<Rightarrow> int) \<Rightarrow> sched_env \<Rightarrow> 'row list \<Rightarrow> int \<Rightarrow> 'row schedulerSnapshot" where
  "snapshot_of row_aliases reset_at env rows now =
     (let (broad, strict) = index_rows row_aliases rows
      in \<lparr>sn_rows = rows, sn_broadByAlias = broad, sn_strictByAlias = strict,
          sn_earliestResetAt = earliest_reset now (map reset_at rows),
          sn_expiresAt = env_now env +
            (if rows \<noteq> [] then schedulerRestrictedSnapshotTTL else schedulerHealthySnapshotTTL)\<rparr>)"

definition newCodexSchedulerSnapshot ::
  "sched_env \<Rightarrow> autobanRow list \<Rightarrow> invalidAuthRow list \<Rightarrow> int \<Rightarrow> codexSchedulerSnapshot" where
  "newCodexSchedulerSnapshot env bans invalids now =
     snapshot_of codexRowAliases ab_ResetAt env (mergeEffectiveAutobans bans invalids) now"

definition newXAISchedulerSnapshot :: "sched_env \<Rightarrow> xaiAccountStateRow list \<Rightarrow> int \<Rightarrow> xaiSchedulerSnapshot" where
  "newXAISchedulerSnapshot env states now = snapshot_of xaiRowAliases xs_ResetAt env states now"

definition snapshot_empty :: "'row schedulerSnapshot option \<Rightarrow> bool" where
  "snapshot_empty s = (case s of None \<Rightarrow> True | Some s \<Rightarrow> sn_rows s = [])"

definition index_hits :: "alias_index \<Rightarrow> string list \<Rightarrow> nat list" where
  "index_hits ix aliases = concat (map (\<lambda>a. lookup_or [] ix (normalizeAccountAlias a)) aliases)"

definition codex_matchIndexes ::
  "fingerprinter \<Rightarrow> codexSchedulerSnapshot option \<Rightarrow> schedulerAuthCandidate \<Rightarrow> bool \<times> nat list" where
  "codex_matchIndexes fp snapshot c =
     (case snapshot of None \<Rightarrow> (False, [])
      | Some s \<Rightarrow>
          if sn_rows s = [] then (False, [])
          else let matched = foldl (\<lambda>m i. add_new i m) []
                     (index_hits (sn_broadByAlias s) (schedulerCandidateAliases fp c)
                      @ index_hits (sn_strictByAlias s) (schedulerCandidateStrictAliases c))
               in (matched \<noteq> [], matched))"

definition xai_matches :: "fingerprinter \<Rightarrow> xaiSchedulerSnapshot option \<Rightarrow> schedulerAuthCandidate \<Rightarrow> bool" where
  "xai_matches fp snapshot c =
     (case snapshot of None \<Rightarrow> False
      | Some s \<Rightarrow>
          if sn_rows s = [] then False
          else list_ex (\<lambda>a. lookup_or [] (sn_broadByAlias s) (normalizeAccountAlias a) \<noteq> []) (schedulerCandidateAliases fp c)
             \<or> list_ex (\<lambda>a. lookup_or [] (sn_strictByAlias s) (normalizeAccountAlias a) \<noteq> []) (schedulerCandidateStrictAliases c))"

section \<open>The reference matching (\<open>main.go\<close>)\<close>

definition candidateMatchesActiveBanIndexes ::
  "fingerprinter \<Rightarrow> schedulerAuthCandidate \<Rightarrow> autobanRow list \<Rightarrow> bool \<times> nat list" where
  "candidateMatchesActiveBanIndexes fp c bans =
     (let aliases = schedulerCandidateAliases fp c; strictAliases = schedulerCandidateStrictAliases c
      in if aliases = [] then (False, [])
         else let indexes = map fst (filter (\<lambda>(i, ban).
                    let strict = strictAuthStateAliasesForValues (ab_AuthID ban) (ab_AuthIndex ban) (ab_Source ban) (ab_AuthFile ban);
                        banAliases = (if strict \<noteq> [] then strict
                          else normalizeAccountAliases [ab_AuthID ban, ab_AuthIndex ban, ab_Source ban, ab_AuthFile ban]);
                        candidateAliases = (if strict \<noteq> [] then strictAliases else aliases)
                    in list_ex (\<lambda>b. list_ex (\<lambda>a. a \<noteq> [] \<and> a = b) candidateAliases) banAliases) (enumerate 0 bans))
              in (indexes \<noteq> [], indexes))"

definition candidateMatchesActiveBan :: "fingerprinter \<Rightarrow> schedulerAuthCandidate \<Rightarrow> autobanRow list \<Rightarrow> bool" where
  "candidateMatchesActiveBan fp c bans = fst (candidateMatchesActiveBanIndexes fp c bans)"

section \<open>Index lookups\<close>

text \<open>A row restricts a candidate when they share an alias of the kind the row is indexed under.\<close>

definition row_restricts :: "string list \<times> bool \<Rightarrow> string list \<Rightarrow> string list \<Rightarrow> bool" where
  "row_restricts ra broad strict = list_ex (\<lambda>a. a \<in> set (if snd ra then strict else broad)) (fst ra)"

lemma lookup_index_add:
  "lookup_or [] (index_add i ix b) a = lookup_or [] ix a @ (if a = b then [i] else [])"
  by (simp add: index_add_def)

lemma lookup_foldl_index_add:
  "set (lookup_or [] (foldl (index_add i) ix as) a) = set (lookup_or [] ix a) \<union> (if a \<in> set as then {i} else {})"
  by (induction as arbitrary: ix) (auto simp: lookup_index_add)

lemma lookup_foldl_index_row:
  "set (lookup_or [] (fst (foldl (index_row ra) (b, s) irs)) a) =
     set (lookup_or [] b a) \<union> {i. \<exists>r. (i, r) \<in> set irs \<and> \<not> snd (ra r) \<and> a \<in> set (fst (ra r))}
 \<and> set (lookup_or [] (snd (foldl (index_row ra) (b, s) irs)) a) =
     set (lookup_or [] s a) \<union> {i. \<exists>r. (i, r) \<in> set irs \<and> snd (ra r) \<and> a \<in> set (fst (ra r))}"
proof (induction irs arbitrary: b s)
  case Nil
  then show ?case by simp
next
  case (Cons ir irs)
  obtain i r where ir: "ir = (i, r)" by fastforce
  obtain as st where ra: "ra r = (as, st)" by fastforce
  show ?case
    using Cons.IH by (cases st) (auto simp: ir index_row_def ra lookup_foldl_index_add)
qed

lemma lookup_index_rows:
  "set (lookup_or [] (fst (index_rows ra rows)) a) =
     {i. i < length rows \<and> \<not> snd (ra (rows ! i)) \<and> a \<in> set (fst (ra (rows ! i)))}"
  "set (lookup_or [] (snd (index_rows ra rows)) a) =
     {i. i < length rows \<and> snd (ra (rows ! i)) \<and> a \<in> set (fst (ra (rows ! i)))}"
  unfolding index_rows_def
  by (auto simp: lookup_foldl_index_row in_set_enumerate_eq)

section \<open>The interface of candidate aliases\<close>

text \<open>
  What a snapshot relies on: both alias functions of a candidate return normal forms, so looking an
  alias up after normalising it again finds the entry of the alias itself.
\<close>

locale candidate_aliases =
  fixes broad_of :: "schedulerAuthCandidate \<Rightarrow> string list"
    and strict_of :: "schedulerAuthCandidate \<Rightarrow> string list"
  assumes broad_normal: "a \<in> set (broad_of c) \<Longrightarrow> normalizeAccountAlias a = a \<and> a \<noteq> []"
    and strict_normal: "a \<in> set (strict_of c) \<Longrightarrow> normalizeAccountAlias a = a \<and> a \<noteq> []"
begin

lemma set_index_hits:
  "set (index_hits ix (broad_of c)) = (\<Union>a\<in>set (broad_of c). set (lookup_or [] ix a))"
  "set (index_hits ix (strict_of c)) = (\<Union>a\<in>set (strict_of c). set (lookup_or [] ix a))"
  using broad_normal strict_normal by (auto simp: index_hits_def)

lemma hits_are_restricting_rows:
  "set (index_hits (fst (index_rows ra rows)) (broad_of c)) \<union> set (index_hits (snd (index_rows ra rows)) (strict_of c))
   = {i. i < length rows \<and> row_restricts (ra (rows ! i)) (broad_of c) (strict_of c)}"
  by (auto simp: set_index_hits lookup_index_rows row_restricts_def list_ex_iff)

lemma some_hit_iff:
  "(list_ex (\<lambda>a. lookup_or [] (fst (index_rows ra rows)) (normalizeAccountAlias a) \<noteq> []) (broad_of c)
    \<or> list_ex (\<lambda>a. lookup_or [] (snd (index_rows ra rows)) (normalizeAccountAlias a) \<noteq> []) (strict_of c))
   \<longleftrightarrow> list_ex (\<lambda>r. row_restricts (ra r) (broad_of c) (strict_of c)) rows"
proof -
  let ?ix = "index_rows ra rows"
  have hit: "list_ex (\<lambda>a. lookup_or [] ix (normalizeAccountAlias a) \<noteq> []) as \<longleftrightarrow> set (index_hits ix as) \<noteq> {}" for ix as
    by (auto simp: list_ex_iff index_hits_def)
  have "set (index_hits (fst ?ix) (broad_of c)) \<noteq> {} \<or> set (index_hits (snd ?ix) (strict_of c)) \<noteq> {}
      \<longleftrightarrow> set (index_hits (fst ?ix) (broad_of c)) \<union> set (index_hits (snd ?ix) (strict_of c)) \<noteq> {}"
    by simp
  also have "\<dots> \<longleftrightarrow> (\<exists>i<length rows. row_restricts (ra (rows ! i)) (broad_of c) (strict_of c))"
    unfolding hits_are_restricting_rows by simp
  finally show ?thesis by (simp only: hit list_ex_length)
qed

lemma reference_hit:
  "list_ex (\<lambda>b. list_ex (\<lambda>a. a \<noteq> [] \<and> a = b) (if st then strict_of c else broad_of c)) as
   \<longleftrightarrow> row_restricts (as, st) (broad_of c) (strict_of c)"
proof -
  have some: "list_ex (\<lambda>b. list_ex (\<lambda>a. a \<noteq> [] \<and> a = b) cs) as \<longleftrightarrow> list_ex (\<lambda>a. a \<in> set cs) as"
    if "\<forall>a\<in>set cs. a \<noteq> []" for cs
    using that by (auto simp: list_ex_iff)
  show ?thesis using some [of "strict_of c"] some [of "broad_of c"] broad_normal strict_normal
    by (simp add: row_restricts_def)
qed

end

interpretation ca: candidate_aliases "schedulerCandidateAliases fp" schedulerCandidateStrictAliases for fp
  by unfold_locales (auto dest: schedulerCandidateAliases_normal schedulerCandidateStrictAliases_normal)

abbreviation codex_restricts :: "fingerprinter \<Rightarrow> autobanRow \<Rightarrow> schedulerAuthCandidate \<Rightarrow> bool" where
  "codex_restricts fp r c \<equiv>
     row_restricts (codexRowAliases r) (schedulerCandidateAliases fp c) (schedulerCandidateStrictAliases c)"

abbreviation xai_restricts :: "fingerprinter \<Rightarrow> xaiAccountStateRow \<Rightarrow> schedulerAuthCandidate \<Rightarrow> bool" where
  "xai_restricts fp r c \<equiv>
     row_restricts (xaiRowAliases r) (schedulerCandidateAliases fp c) (schedulerCandidateStrictAliases c)"

lemma set_foldl_add_new: "set (foldl (\<lambda>m i. add_new i m) m is) = set m \<union> set is"
  by (induction "is" arbitrary: m) auto

lemma distinct_foldl_add_new: "distinct m \<Longrightarrow> distinct (foldl (\<lambda>m i. add_new i m) m is)"
  by (induction "is" arbitrary: m) auto

lemma snapshot_of_simps [simp]:
  "sn_rows (snapshot_of ra rs env rows now) = rows"
  "sn_broadByAlias (snapshot_of ra rs env rows now) = fst (index_rows ra rows)"
  "sn_strictByAlias (snapshot_of ra rs env rows now) = snd (index_rows ra rows)"
  "sn_earliestResetAt (snapshot_of ra rs env rows now) = earliest_reset now (map rs rows)"
  by (simp_all add: snapshot_of_def split_beta)

lemma codex_matchIndexes_snapshot:
  assumes "sn_rows s = rows" "sn_broadByAlias s = fst (index_rows codexRowAliases rows)"
    "sn_strictByAlias s = snd (index_rows codexRowAliases rows)"
  shows "set (snd (codex_matchIndexes fp (Some s) c)) = {i. i < length rows \<and> codex_restricts fp (rows ! i) c}"
    and "distinct (snd (codex_matchIndexes fp (Some s) c))"
    and "fst (codex_matchIndexes fp (Some s) c) \<longleftrightarrow> list_ex (\<lambda>r. codex_restricts fp r c) rows"
proof -
  let ?m = "snd (codex_matchIndexes fp (Some s) c)"
  show set: "set ?m = {i. i < length rows \<and> codex_restricts fp (rows ! i) c}"
  proof (cases "rows = []")
    case True
    with assms show ?thesis by (simp add: codex_matchIndexes_def)
  next
    case False
    then show ?thesis
      unfolding ca.hits_are_restricting_rows [symmetric]
      by (simp add: codex_matchIndexes_def assms set_foldl_add_new Let_def)
  qed
  show "distinct ?m" by (simp add: codex_matchIndexes_def distinct_foldl_add_new Let_def)
  have "fst (codex_matchIndexes fp (Some s) c) \<longleftrightarrow> set ?m \<noteq> {}" by (simp add: codex_matchIndexes_def Let_def)
  also have "\<dots> \<longleftrightarrow> list_ex (\<lambda>r. codex_restricts fp r c) rows" unfolding set by (auto simp: list_ex_length)
  finally show "fst (codex_matchIndexes fp (Some s) c) \<longleftrightarrow> list_ex (\<lambda>r. codex_restricts fp r c) rows" .
qed

lemma xai_matches_snapshot:
  "xai_matches fp (Some (newXAISchedulerSnapshot env states now)) c \<longleftrightarrow> list_ex (\<lambda>r. xai_restricts fp r c) states"
  using ca.some_hit_iff [where ra = xaiRowAliases and rows = states and c = c and fp = fp]
  by (auto simp: xai_matches_def newXAISchedulerSnapshot_def)

text \<open>Without any broad alias a candidate has no strict alias either.\<close>

lemma identity_aliases:
  "normalizeAccountAlias ` set (concat (map identityVariants (candidateIdentityValues c))) - {[]}
     \<subseteq> set (schedulerCandidateAliases fp c)"
  unfolding schedulerCandidateAliases_def Let_def
  by (simp only: set_foldl_add_alias set_add_alias split: if_split) blast

lemma identity_values_blank:
  assumes "schedulerCandidateAliases fp c = []"
  shows "\<forall>v\<in>set (candidateIdentityValues c). TrimSpace v = []"
proof
  fix v assume v: "v \<in> set (candidateIdentityValues c)"
  show "TrimSpace v = []"
  proof (rule ccontr)
    assume nb: "TrimSpace v \<noteq> []"
    then have "TrimSpace v \<in> set (concat (map identityVariants (candidateIdentityValues c)))"
      using v by (simp only: set_concat set_map) (rule UN_I, erule imageI, simp add: identityVariants_def Let_def)
    then have "normalizeAccountAlias (TrimSpace v) \<in> normalizeAccountAlias ` set (concat (map identityVariants (candidateIdentityValues c)))"
      by (rule imageI)
    moreover have "normalizeAccountAlias v \<noteq> []" using nb by (simp add: normalizeAccountAlias_def)
    ultimately have "normalizeAccountAlias v \<in> set (schedulerCandidateAliases fp c)"
      using identity_aliases by (metis DiffI normalizeAccountAlias_TrimSpace singletonD subsetD)
    with assms show False by simp
  qed
qed

lemma no_aliases_no_strict:
  assumes "schedulerCandidateAliases fp c = []"
  shows "schedulerCandidateStrictAliases c = []"
proof -
  note blank = identity_values_blank [OF assms]
  have vals: "TrimSpace (c_ID c) = []" "TrimSpace (candidateAuthIndex c) = []" "TrimSpace (candidateSource c) = []"
    "TrimSpace (attr c ''auth_file'') = []" "TrimSpace (meta c ''auth_file'') = []" "TrimSpace (attr c ''path'') = []"
    "TrimSpace (attr c ''file'') = []" "TrimSpace (meta c ''path'') = []" "TrimSpace (meta c ''file'') = []"
    using blank
    by (simp_all add: candidateIdentityValues_def firstNonEmptyString_Nil_iff del: firstNonEmptyString.simps)
  then have "schedulerCandidateAuthFile c = []" by (simp add: schedulerCandidateAuthFile_def)
  with vals show ?thesis
    by (simp add: schedulerCandidateStrictAliases_def Let_def strictAuthStateAliasesForValues_def
        normalizeAccountAliases_def expandAccountAliases_Nil_iff)
qed

lemma reference_indexes:
  "set (snd (candidateMatchesActiveBanIndexes fp c bans)) = {i. i < length bans \<and> codex_restricts fp (bans ! i) c}"
proof (cases "schedulerCandidateAliases fp c = []")
  case True
  with no_aliases_no_strict [OF True] show ?thesis
    by (auto simp: candidateMatchesActiveBanIndexes_def row_restricts_def list_ex_iff)
next
  case False
  have row: "list_ex (\<lambda>b. list_ex (\<lambda>a. a \<noteq> [] \<and> a = b)
        (if strict \<noteq> [] then schedulerCandidateStrictAliases c else schedulerCandidateAliases fp c))
        (if strict \<noteq> [] then strict else normalizeAccountAliases [ab_AuthID b, ab_AuthIndex b, ab_Source b, ab_AuthFile b])
      \<longleftrightarrow> codex_restricts fp b c"
    if "strict = strictAuthStateAliasesForValues (ab_AuthID b) (ab_AuthIndex b) (ab_Source b) (ab_AuthFile b)" for b strict
    using that ca.reference_hit [where st = True and c = c and fp = fp] ca.reference_hit [where st = False and c = c and fp = fp]
    by (cases "strict = []") (simp_all add: codexRowAliases_def)
  show ?thesis
    using False row by (auto simp: candidateMatchesActiveBanIndexes_def Let_def in_set_enumerate_eq image_iff)
qed

section \<open>Deduplication keeps every restriction\<close>

text \<open>The auth files a row names, and the alias its key stands for.\<close>

definition row_files :: "autobanRow \<Rightarrow> string list" where
  "row_files r = filter (\<lambda>f. f \<noteq> []) (map fileNameIfJSON [ab_AuthFile r, ab_AuthID r, ab_AuthIndex r, ab_Source r])"

definition row_values :: "autobanRow \<Rightarrow> string list" where
  "row_values r = [ab_AuthID r, ab_AuthIndex r, ab_Source r, ab_AuthFile r]"

definition row_key_alias :: "autobanRow \<Rightarrow> string" where
  "row_key_alias r = (case row_files r of
      f # _ \<Rightarrow> normalizeAccountAlias f
    | [] \<Rightarrow> (case normalizeAccountAliases (row_values r) of [] \<Rightarrow> [] | a # _ \<Rightarrow> a))"

text \<open>
  The leading identity of a row: its first auth file, or without one its first identity. The candidates
  it stands for are those no merging may set free; a row that names one account only stands for no others.
\<close>

definition leading_identity :: "autobanRow \<Rightarrow> string" where
  "leading_identity r = (case row_files r of f # _ \<Rightarrow> f | [] \<Rightarrow> firstNonEmptyString (row_values r))"

definition key_blocks :: "fingerprinter \<Rightarrow> autobanRow \<Rightarrow> schedulerAuthCandidate \<Rightarrow> bool" where
  "key_blocks fp r c \<longleftrightarrow> identifies fp (leading_identity r) c"

definition one_account :: "autobanRow \<Rightarrow> bool" where
  "one_account r \<longleftrightarrow>
     list_all (\<lambda>v. normalizeAccountAlias v = normalizeAccountAlias (leading_identity r))
       (if row_files r \<noteq> [] then row_files r else filter (\<lambda>v. TrimSpace v \<noteq> []) (row_values r))"

text \<open>A row covers a key alias when it is indexed under it, in the index of the same kind.\<close>

definition row_covers :: "bool \<Rightarrow> string \<Rightarrow> autobanRow \<Rightarrow> bool" where
  "row_covers strict a r \<longleftrightarrow> snd (codexRowAliases r) = strict \<and> a \<in> set (fst (codexRowAliases r))"

lemma row_files_mem: "f \<in> set (row_files r) \<longleftrightarrow> f \<noteq> [] \<and> (\<exists>v\<in>set (row_values r). f = fileNameIfJSON v)"
  unfolding row_files_def row_values_def set_filter set_map list.set by blast

lemma row_files_not_blank: "f \<in> set (row_files r) \<Longrightarrow> TrimSpace f \<noteq> []"
  using fileNameIfJSON_not_blank by (auto simp only: row_files_mem)

lemma row_files_Nil_iff: "row_files r = [] \<longleftrightarrow> (\<forall>v\<in>set (row_values r). fileNameIfJSON v = [])"
proof -
  have "row_files r = [] \<longleftrightarrow> (\<forall>f. f \<notin> set (row_files r))" by (cases "row_files r") auto
  then show ?thesis unfolding row_files_mem by blast
qed

lemma strict_Nil_iff:
  "strictAuthStateAliasesForValues (ab_AuthID r) (ab_AuthIndex r) (ab_Source r) (ab_AuthFile r) = [] \<longleftrightarrow> row_files r = []"
  by (auto simp: strictAuthStateAliasesForValues_def normalizeAccountAliases_def expandAccountAliases_Nil_iff
      row_files_def dest: fileNameIfJSON_not_blank)

lemma set_strict:
  "set (strictAuthStateAliasesForValues (ab_AuthID r) (ab_AuthIndex r) (ab_Source r) (ab_AuthFile r))
     = set (normalizeAccountAliases (row_files r))"
  unfolding strictAuthStateAliasesForValues_def normalizeAccountAliases_def row_files_def
  by (intro subset_antisym expandAccountAliases_mono) auto

lemma row_covers_strict: "row_covers True a r \<longleftrightarrow> row_files r \<noteq> [] \<and> a \<in> set (normalizeAccountAliases (row_files r))"
  by (auto simp: row_covers_def codexRowAliases_def Let_def strict_Nil_iff set_strict)

lemma row_covers_broad: "row_covers False a r \<longleftrightarrow> row_files r = [] \<and> a \<in> set (normalizeAccountAliases (row_values r))"
  by (auto simp: row_covers_def codexRowAliases_def Let_def strict_Nil_iff row_values_def)

lemma row_key_alias_covered:
  assumes "row_key_alias r \<noteq> []"
  shows "row_covers (row_files r \<noteq> []) (row_key_alias r) r"
proof (cases "row_files r")
  case Nil
  then show ?thesis
    using assms by (cases "normalizeAccountAliases (row_values r)") (simp_all add: row_covers_broad row_key_alias_def)
next
  case (Cons f fs)
  then have "f \<in> set (row_files r)" by simp
  moreover have "TrimSpace f \<noteq> []" using calculation by (rule row_files_not_blank)
  ultimately show ?thesis
    using Cons by (simp add: row_covers_strict row_key_alias_def normalizeAccountAliases_def normalizeAccountAlias_in_expand)
qed

lemma row_key_alias_leading: "row_key_alias r = normalizeAccountAlias (leading_identity r)"
proof (cases "row_files r")
  case Nil
  show ?thesis
  proof (cases "normalizeAccountAliases (row_values r)")
    case nil: Nil
    then have "firstNonEmptyString (row_values r) = []"
      by (simp add: normalizeAccountAliases_def expandAccountAliases_Nil_iff firstNonEmptyString_Nil_iff)
    with Nil nil show ?thesis by (simp add: row_key_alias_def leading_identity_def normalizeAccountAlias_def)
  next
    case (Cons a as)
    with Nil normalizeAccountAliases_hd [of "row_values r"] show ?thesis
      by (simp add: row_key_alias_def leading_identity_def)
  qed
qed (simp add: row_key_alias_def leading_identity_def)

lemma firstNonEmptyString_mem: "firstNonEmptyString vs \<noteq> [] \<Longrightarrow> \<exists>v\<in>set vs. firstNonEmptyString vs = TrimSpace v"
  by (induction vs) (auto simp: Let_def split: if_splits)

lemma leading_file:
  "row_files r \<noteq> [] \<Longrightarrow> fileNameIfJSON (leading_identity r) \<noteq> []
     \<and> set (normalizeAccountAliases [fileNameIfJSON (leading_identity r)]) = set (normalizeAccountAliases [leading_identity r])"
proof -
  assume "row_files r \<noteq> []"
  then obtain v where v: "leading_identity r = fileNameIfJSON v" "fileNameIfJSON v \<noteq> []"
    unfolding leading_identity_def by (cases "row_files r") (use row_files_mem in \<open>auto, metis list.set_intros(1)\<close>)
  with fileNameIfJSON_not_blank [OF v(2)] show ?thesis
    using set_aliases_cong [of "TrimSpace (fileNameIfJSON v)" "fileNameIfJSON v"] by (simp add: fileNameIfJSON_twice)
qed

lemma leading_no_file: "row_files r = [] \<Longrightarrow> fileNameIfJSON (leading_identity r) = []"
  using firstNonEmptyString_mem [of "row_values r"] row_files_Nil_iff [of r]
  by (cases "firstNonEmptyString (row_values r) = []") (auto simp: leading_identity_def)

text \<open>The candidates of the leading identity share an alias of the row's key with it.\<close>

lemma key_blocks_iff:
  "key_blocks fp r c \<longleftrightarrow> (\<exists>a\<in>set (normalizeAccountAliases [row_key_alias r]).
     a \<in> set (if row_files r \<noteq> [] then schedulerCandidateStrictAliases c else schedulerCandidateAliases fp c))"
  by (cases "row_files r = []")
     (simp_all add: key_blocks_def identifies_def Let_def list_ex_iff row_key_alias_leading normalizeAccountAliases_alias
        leading_file leading_no_file)

lemma normalizeAccountAliases_blank: "TrimSpace v = [] \<Longrightarrow> normalizeAccountAliases [v] = []"
  by (simp add: normalizeAccountAliases_def expandAccountAliases_Nil_iff)

lemma key_blocks_alias: "key_blocks fp r c \<Longrightarrow> row_key_alias r \<noteq> []"
  using normalizeAccountAliases_blank [of "[]"] by (auto simp: key_blocks_iff)

text \<open>The candidates of a row whose first column is known, when its other columns name no other file.\<close>

lemma key_blocks_identity:
  assumes "ab_AuthID r = TrimSpace i" "TrimSpace i \<noteq> []"
    and "fileNameIfJSON i \<noteq> [] \<Longrightarrow> fileNameIfJSON (ab_AuthFile r) = []
           \<or> normalizeAccountAlias (fileNameIfJSON (ab_AuthFile r)) = normalizeAccountAlias (fileNameIfJSON i)"
    and "fileNameIfJSON i = [] \<Longrightarrow> list_all (\<lambda>v. fileNameIfJSON v = []) [ab_AuthFile r, ab_AuthIndex r, ab_Source r]"
  shows "key_blocks fp r c \<longleftrightarrow> identifies fp i c"
proof (cases "fileNameIfJSON i = []")
  case True
  then have "row_files r = []" using assms(1,4) by (simp add: row_files_def)
  moreover have "firstNonEmptyString (row_values r) = TrimSpace i"
    using assms(1,2) by (simp add: row_values_def Let_def)
  ultimately show ?thesis by (simp add: key_blocks_def leading_identity_def)
next
  case False
  then have "row_files r \<noteq> [] \<and> row_key_alias r = normalizeAccountAlias (fileNameIfJSON i)"
    using assms(1,3) by (auto simp: row_files_def row_key_alias_def)
  with False show ?thesis
    by (simp add: key_blocks_iff normalizeAccountAliases_alias identifies_def Let_def list_ex_iff)
qed

lemma identifies_not_blank: "identifies fp i c \<Longrightarrow> TrimSpace i \<noteq> []"
  using normalizeAccountAliases_blank [of i] by (auto simp: identifies_def Let_def)

text \<open>For a row that names one account only, these are all the candidates that the row restricts.\<close>

lemma one_account_restricts:
  assumes "one_account r"
  shows "codex_restricts fp r c \<longleftrightarrow> key_blocks fp r c"
proof -
  have same: "set (normalizeAccountAliases vs) = set (normalizeAccountAliases [row_key_alias r])"
    if "\<forall>v\<in>set vs. TrimSpace v \<noteq> [] \<longrightarrow> normalizeAccountAlias v = row_key_alias r" "\<exists>v\<in>set vs. TrimSpace v \<noteq> []" for vs
  proof
    from that obtain v where v: "v \<in> set vs" "TrimSpace v \<noteq> []" "normalizeAccountAlias v = row_key_alias r" by blast
    then have "row_key_alias r \<in> set (normalizeAccountAliases vs)"
      unfolding normalizeAccountAliases_def by (metis normalizeAccountAlias_in_expand)
    then show "set (normalizeAccountAliases [row_key_alias r]) \<subseteq> set (normalizeAccountAliases vs)"
      by (rule normalizeAccountAliases_member)
    show "set (normalizeAccountAliases vs) \<subseteq> set (normalizeAccountAliases [row_key_alias r])"
    proof
      fix a assume "a \<in> set (normalizeAccountAliases vs)"
      then obtain v where v: "v \<in> set vs" "TrimSpace v \<noteq> []" "a \<in> set (normalizeAccountAliases [v])"
        using normalizeAccountAliases_source by blast
      with that(1) have "normalizeAccountAlias v = row_key_alias r" by blast
      with v(3) show "a \<in> set (normalizeAccountAliases [row_key_alias r])" by (metis normalizeAccountAliases_alias)
    qed
  qed
  show ?thesis
  proof (cases "row_files r = []")
    case True
    have "set (normalizeAccountAliases (row_values r)) = set (normalizeAccountAliases [row_key_alias r])"
    proof (cases "\<exists>v\<in>set (row_values r). TrimSpace v \<noteq> []")
      case some: True
      with True assms show ?thesis
        by (intro same) (auto simp: one_account_def list_all_iff row_key_alias_leading)
    next
      case False
      then have "normalizeAccountAliases (row_values r) = []"
        by (simp add: normalizeAccountAliases_def expandAccountAliases_Nil_iff)
      with True show ?thesis by (simp add: row_key_alias_def normalizeAccountAliases_blank)
    qed
    with True show ?thesis
      by (auto simp: key_blocks_iff row_restricts_def list_ex_iff codexRowAliases_def Let_def strict_Nil_iff row_values_def)
  next
    case False
    moreover have "\<exists>v\<in>set (row_files r). TrimSpace v \<noteq> []"
      using False row_files_not_blank [of _ r] by (metis list.set_intros(1) neq_Nil_conv)
    ultimately have "set (normalizeAccountAliases (row_files r)) = set (normalizeAccountAliases [row_key_alias r])"
      using assms by (intro same) (auto simp: one_account_def list_all_iff row_key_alias_leading)
    with False show ?thesis
      by (auto simp: key_blocks_iff row_restricts_def list_ex_iff codexRowAliases_def Let_def strict_Nil_iff set_strict)
  qed
qed

text \<open>Merging keeps the identity of the preferred row and only fills in blank fields.\<close>

lemma merge_into_identity:
  "ab_AuthID (merge_into m other) = ab_AuthID m" "ab_AuthIndex (merge_into m other) = ab_AuthIndex m"
  "ab_Source (merge_into m other) = firstNonEmptyString [ab_Source m, ab_Source other]"
  "ab_AuthFile (merge_into m other) = firstNonEmptyString [ab_AuthFile m, ab_AuthFile other]"
  by (simp_all add: merge_into_def merge_usage_def merge_reset_def merge_banned_def merge_fill_def
      del: firstNonEmptyString.simps)

lemma firstNonEmptyString_two:
  "firstNonEmptyString [a, b] = (if TrimSpace a = [] then TrimSpace b else TrimSpace a)"
  by (cases "TrimSpace a = []"; cases "TrimSpace b = []") (simp_all add: Let_def)

lemma row_values_merge:
  assumes "v \<in> set (row_values m)" and "TrimSpace v \<noteq> []"
  shows "\<exists>w\<in>set (row_values (merge_into m other)). TrimSpace w = TrimSpace v"
  using assms unfolding row_values_def merge_into_identity firstNonEmptyString_two by auto

lemma row_values_merge_rev:
  assumes "w \<in> set (row_values (merge_into m other))"
  shows "\<exists>v\<in>set (row_values m) \<union> set (row_values other). TrimSpace v = TrimSpace w"
  using assms unfolding row_values_def merge_into_identity firstNonEmptyString_two by (auto split: if_splits)

lemma row_files_merge:
  "set (row_files m) \<subseteq> set (row_files (merge_into m other))"
  "set (row_files (merge_into m other)) \<subseteq> set (row_files m) \<union> set (row_files other)"
proof -
  show "set (row_files m) \<subseteq> set (row_files (merge_into m other))"
    using row_values_merge [of _ m other] unfolding row_files_mem subset_iff
    by (metis fileNameIfJSON_TrimSpace fileNameIfJSON_blank)
  show "set (row_files (merge_into m other)) \<subseteq> set (row_files m) \<union> set (row_files other)"
  proof
    fix f assume "f \<in> set (row_files (merge_into m other))"
    then obtain w where w: "f \<noteq> []" "w \<in> set (row_values (merge_into m other))" "f = fileNameIfJSON w"
      unfolding row_files_mem by blast
    from row_values_merge_rev [OF w(2)] obtain v
      where v: "v \<in> set (row_values m) \<union> set (row_values other)" "TrimSpace v = TrimSpace w" by blast
    then have "f = fileNameIfJSON v" using w(3) by (metis fileNameIfJSON_TrimSpace)
    with v w(1) show "f \<in> set (row_files m) \<union> set (row_files other)" unfolding Un_iff row_files_mem by blast
  qed
qed

lemma merge_into_covers:
  assumes "row_covers strict a m" and "strict \<or> row_files other = []"
  shows "row_covers strict a (merge_into m other)"
proof (cases strict)
  case True
  with assms(1) have m: "row_files m \<noteq> []" "a \<in> set (normalizeAccountAliases (row_files m))"
    by (auto simp: row_covers_strict)
  have "row_files (merge_into m other) \<noteq> []"
    using m(1) row_files_merge(1) [of m other] by (cases "row_files m") auto
  moreover have "a \<in> set (normalizeAccountAliases (row_files (merge_into m other)))"
    using m(2) expandAccountAliases_mono [OF row_files_merge(1) [of m other], of True]
    unfolding normalizeAccountAliases_def by blast
  ultimately show ?thesis using True by (simp add: row_covers_strict)
next
  case False
  with assms have m: "row_files m = []" "row_files other = []" "a \<in> set (normalizeAccountAliases (row_values m))"
    by (auto simp: row_covers_broad)
  have "row_files (merge_into m other) = []" using row_files_merge(2) [of m other] m(1,2) by simp
  moreover have "a \<in> set (normalizeAccountAliases (row_values (merge_into m other)))"
    using m(3) expandAccountAliases_mono_trimmed [of "row_values m" "row_values (merge_into m other)" True] row_values_merge
    unfolding normalizeAccountAliases_def by blast
  ultimately show ?thesis using False by (simp add: row_covers_broad)
qed

lemma mergeDuplicate_covers:
  assumes "row_covers strict a left" "row_covers strict a right"
  shows "row_covers strict a (mergeDuplicateAutobanRow left right)"
proof -
  have "strict \<or> row_files left = []" "strict \<or> row_files right = []"
    using assms by (cases strict; simp add: row_covers_broad)+
  with assms show ?thesis by (simp add: mergeDuplicateAutobanRow_def merge_into_covers)
qed

text \<open>The key of a row: its provider, the kind of its alias, and the alias.\<close>

definition row_key :: "string \<Rightarrow> bool \<Rightarrow> string \<Rightarrow> string" where
  "row_key p strict a = p @ (if strict then '':file:'' else '':alias:'') @ a"

lemma row_key_inject [simp]: "row_key p s a = row_key p t b \<longleftrightarrow> s = t \<and> a = b"
  by (auto simp: row_key_def)

lemma row_key_not_Nil [simp]: "row_key p s a \<noteq> []"
  by (simp add: row_key_def)

lemma autobanDedupeKey_eq:
  assumes "canonicalProviderOr (ab_Provider r) providerCodex = p"
  shows "autobanDedupeKey r = (if row_files r = [] \<and> row_key_alias r = [] then []
           else row_key p (row_files r \<noteq> []) (row_key_alias r))"
proof (cases "row_files r")
  case Nil
  then have "authStateMatchAliases (ab_AuthID r) (ab_AuthIndex r) (ab_Source r) (ab_AuthFile r)
      = normalizeAccountAliases (row_values r)"
    by (simp add: authStateMatchAliases_def strict_Nil_iff row_values_def)
  moreover have "a \<noteq> []" if "normalizeAccountAliases (row_values r) = a # as" for a as
    using normalizeAccountAliases_normal [of a "row_values r"] that by simp
  ultimately show ?thesis
    using assms Nil unfolding autobanDedupeKey_def row_files_def [symmetric]
    by (cases "normalizeAccountAliases (row_values r)") (auto simp: row_key_def row_key_alias_def)
next
  case (Cons f fs)
  then show ?thesis
    using assms unfolding autobanDedupeKey_def row_files_def [symmetric]
    by (simp add: row_key_def row_key_alias_def)
qed

definition dedupe_inv :: "string \<Rightarrow> autobanRow list \<times> (string \<times> nat) list \<Rightarrow> bool" where
  "dedupe_inv p os \<longleftrightarrow>
     (\<forall>k i. map_of (snd os) k = Some i \<longrightarrow> i < length (fst os))
   \<and> (\<forall>k k' i. map_of (snd os) k = Some i \<longrightarrow> map_of (snd os) k' = Some i \<longrightarrow> k = k')
   \<and> (\<forall>s a i. map_of (snd os) (row_key p s a) = Some i \<longrightarrow> row_covers s a (fst os ! i))"

definition dedupe_has :: "string \<Rightarrow> autobanRow list \<times> (string \<times> nat) list \<Rightarrow> autobanRow \<Rightarrow> bool" where
  "dedupe_has p os r \<longleftrightarrow> row_key_alias r = [] \<or>
     map_of (snd os) (row_key p (row_files r \<noteq> []) (row_key_alias r)) \<noteq> None"

lemma dedupe_row_step:
  assumes inv: "dedupe_inv p os" and p: "canonicalProviderOr (ab_Provider r) providerCodex = p"
  shows "dedupe_inv p (dedupe_row os r)" and "dedupe_has p (dedupe_row os r) r"
    and "dedupe_has p os q \<Longrightarrow> dedupe_has p (dedupe_row os r) q"
proof -
  obtain out seen where os: "os = (out, seen)" by fastforce
  let ?k = "row_key p (row_files r \<noteq> []) (row_key_alias r)"
  show "dedupe_inv p (dedupe_row os r)" and "dedupe_has p (dedupe_row os r) r"
    and "dedupe_has p os q \<Longrightarrow> dedupe_has p (dedupe_row os r) q"
  proof -
    have all: "dedupe_inv p (dedupe_row os r) \<and> dedupe_has p (dedupe_row os r) r
        \<and> (dedupe_has p os q \<longrightarrow> dedupe_has p (dedupe_row os r) q)"
    proof (cases "autobanDedupeKey r = []")
      case True
      then have "row_key_alias r = []" by (simp add: autobanDedupeKey_eq [OF p] split: if_splits)
      with True inv show ?thesis
        by (auto simp: dedupe_row_def os dedupe_inv_def dedupe_has_def nth_append less_Suc_eq)
    next
      case False
      then have key: "autobanDedupeKey r = ?k" using autobanDedupeKey_eq [OF p] by (metis (full_types))
      have al: "row_key_alias r \<noteq> []"
      proof (cases "row_files r")
        case Nil
        with False show ?thesis by (simp add: autobanDedupeKey_eq [OF p] split: if_splits)
      next
        case (Cons f fs)
        with row_files_not_blank [of f r] show ?thesis by (simp add: row_key_alias_def normalizeAccountAlias_def)
      qed
      note self = row_key_alias_covered [OF al]
      show ?thesis
      proof (cases "map_of seen ?k")
        case None
        have "dedupe_inv p (out @ [r], AList.update ?k (length out) seen)"
          using inv self None unfolding dedupe_inv_def os fst_conv snd_conv
          by (auto simp: nth_append less_Suc_eq split: if_splits dest: less_imp_neq)
        with None show ?thesis by (auto simp: dedupe_row_def os Let_def key dedupe_has_def)
      next
        case (Some idx)
        then have idx: "idx < length out" "row_covers (row_files r \<noteq> []) (row_key_alias r) (out ! idx)"
          using inv by (simp_all add: dedupe_inv_def os)
        have "row_covers s a (out[idx := mergeDuplicateAutobanRow (out ! idx) r] ! i)"
          if "map_of seen (row_key p s a) = Some i" for s a i
        proof (cases "i = idx")
          case False
          with inv that show ?thesis by (simp add: dedupe_inv_def os)
        next
          case True
          have "row_key p s a = ?k" using inv that True Some unfolding dedupe_inv_def os snd_conv by blast
          then show ?thesis using idx self True by (simp add: mergeDuplicate_covers)
        qed
        with inv Some show ?thesis
          by (auto simp: dedupe_row_def os Let_def key dedupe_inv_def dedupe_has_def)
      qed
    qed
    then show "dedupe_inv p (dedupe_row os r)" and "dedupe_has p (dedupe_row os r) r"
      and "dedupe_has p os q \<Longrightarrow> dedupe_has p (dedupe_row os r) q" by auto
  qed
qed

lemma dedupe_all_covered:
  assumes "\<forall>r\<in>set rows. canonicalProviderOr (ab_Provider r) providerCodex = p"
    and "r \<in> set rows" and "row_key_alias r \<noteq> []"
  shows "\<exists>m\<in>set (dedupeAutobanRows rows). row_covers (row_files r \<noteq> []) (row_key_alias r) m"
proof (cases "length rows < 2")
  case True
  with assms(2,3) row_key_alias_covered show ?thesis by (auto simp: dedupeAutobanRows_def)
next
  case False
  have fold: "dedupe_inv p (foldl dedupe_row os rs) \<and> (\<forall>q\<in>set rs. dedupe_has p (foldl dedupe_row os rs) q)
      \<and> (\<forall>q. dedupe_has p os q \<longrightarrow> dedupe_has p (foldl dedupe_row os rs) q)"
    if "dedupe_inv p os" "\<forall>r\<in>set rs. canonicalProviderOr (ab_Provider r) providerCodex = p" for os rs
    using that
  proof (induction rs arbitrary: os)
    case (Cons x rs)
    have x: "canonicalProviderOr (ab_Provider x) providerCodex = p" using Cons.prems(2) by simp
    note step = dedupe_row_step [OF Cons.prems(1) x]
    from Cons.IH [OF step(1)] Cons.prems(2) step(2,3) show ?case by simp
  qed simp
  let ?os = "foldl dedupe_row ([], []) rows"
  have "dedupe_inv p ([], [])" by (simp add: dedupe_inv_def)
  from fold [OF this assms(1)] assms(2) have inv: "dedupe_inv p ?os" and has: "dedupe_has p ?os r" by auto
  from has assms(3) obtain i where "map_of (snd ?os) (row_key p (row_files r \<noteq> []) (row_key_alias r)) = Some i"
    by (auto simp: dedupe_has_def)
  with inv have "i < length (fst ?os)" "row_covers (row_files r \<noteq> []) (row_key_alias r) (fst ?os ! i)"
    unfolding dedupe_inv_def by blast+
  with False show ?thesis by (auto simp: dedupeAutobanRows_def intro!: bexI [OF _ nth_mem])
qed

lemma row_covers_restricts:
  "row_covers strict a m \<Longrightarrow> a \<in> set (if strict then schedulerCandidateStrictAliases c else schedulerCandidateAliases fp c)
   \<Longrightarrow> codex_restricts fp m c"
  by (auto simp: row_covers_def row_restricts_def list_ex_iff)

lemma codex_snapshot_matches_iff:
  "fst (codex_matchIndexes fp (Some (newCodexSchedulerSnapshot env bans invalids now)) c)
   \<longleftrightarrow> list_ex (\<lambda>r. codex_restricts fp r c) (mergeEffectiveAutobans bans invalids)"
  by (rule codex_matchIndexes_snapshot(3)) (simp_all add: newCodexSchedulerSnapshot_def)

lemma row_covers_member:
  "row_covers strict a m \<Longrightarrow> b \<in> set (normalizeAccountAliases [a]) \<Longrightarrow> row_covers strict b m"
  using normalizeAccountAliases_member [of a "row_files m"] normalizeAccountAliases_member [of a "row_values m"]
  by (cases strict) (auto simp: row_covers_strict row_covers_broad)

lemma merged_restricts:
  assumes "r \<in> set bans \<or> (\<exists>i\<in>set invalids. ia_Active i \<and> r = invalidAuthAsAutoban i)"
    and "\<forall>b\<in>set bans. canonicalProviderOr (ab_Provider b) providerCodex = p"
    and "\<forall>i\<in>set invalids. canonicalProviderOr (ia_Provider i) providerCodex = p"
    and "key_blocks fp r c"
  shows "fst (codex_matchIndexes fp (Some (newCodexSchedulerSnapshot env bans invalids now)) c)"
proof -
  let ?rows = "if invalids = [] then bans else bans @ map invalidAuthAsAutoban (filter ia_Active invalids)"
  have provider: "canonicalProviderOr (ab_Provider (invalidAuthAsAutoban i)) providerCodex
      = canonicalProviderOr (ia_Provider i) providerCodex" for i
    by (simp add: invalidAuthAsAutoban_def Let_def split_beta canonicalProviderOr_def canonicalProvider_def
        firstNonEmptyString_two providerCodex_def)
  have "r \<in> set ?rows" using assms(1) by auto
  moreover have "\<forall>b\<in>set ?rows. canonicalProviderOr (ab_Provider b) providerCodex = p"
    using assms(2,3) provider by auto
  ultimately obtain m where m: "m \<in> set (dedupeAutobanRows ?rows)" "row_covers (row_files r \<noteq> []) (row_key_alias r) m"
    using dedupe_all_covered key_blocks_alias [OF assms(4)] by blast
  from assms(4) obtain a where a: "a \<in> set (normalizeAccountAliases [row_key_alias r])"
      "a \<in> set (if row_files r \<noteq> [] then schedulerCandidateStrictAliases c else schedulerCandidateAliases fp c)"
    by (auto simp: key_blocks_iff)
  have "codex_restricts fp m c" using row_covers_member [OF m(2) a(1)] a(2) by (rule row_covers_restricts)
  with m(1) show ?thesis
    unfolding codex_snapshot_matches_iff by (auto simp: mergeEffectiveAutobans_def list_ex_iff split: if_splits)
qed

section \<open>Properties\<close>

text \<open>C37: The snapshot answers like the reference. For every candidate, the rows of a codex snapshot that
  the alias indexes find are exactly the rows that \<open>candidateMatchesActiveBanIndexes\<close> finds by comparing
  alias lists row by row, each once; in particular file-backed restrictions match only through the
  candidate's auth file and the others through any alias.\<close>

theorem codex_snapshot_reference:
  "let snapshot = newCodexSchedulerSnapshot env bans invalids now;
       reference = candidateMatchesActiveBanIndexes fp c (sn_rows snapshot)
   in set (snd (codex_matchIndexes fp (Some snapshot) c)) = set (snd reference)
      \<and> distinct (snd (codex_matchIndexes fp (Some snapshot) c))
      \<and> fst (codex_matchIndexes fp (Some snapshot) c) = candidateMatchesActiveBan fp c (sn_rows snapshot)"
proof -
  let ?rows = "mergeEffectiveAutobans bans invalids"
  let ?s = "newCodexSchedulerSnapshot env bans invalids now"
  have s: "sn_rows ?s = ?rows" "sn_broadByAlias ?s = fst (index_rows codexRowAliases ?rows)"
      "sn_strictByAlias ?s = snd (index_rows codexRowAliases ?rows)"
    by (simp_all add: newCodexSchedulerSnapshot_def)
  note m = codex_matchIndexes_snapshot [OF s, of fp c]
  have nonempty: "fst (candidateMatchesActiveBanIndexes fp c ?rows) \<longleftrightarrow> set (snd (candidateMatchesActiveBanIndexes fp c ?rows)) \<noteq> {}"
    by (simp add: candidateMatchesActiveBanIndexes_def Let_def)
  have "fst (codex_matchIndexes fp (Some ?s) c) \<longleftrightarrow> candidateMatchesActiveBan fp c ?rows"
    unfolding m(3) candidateMatchesActiveBan_def nonempty reference_indexes by (auto simp: list_ex_length)
  with m(1,2) show ?thesis by (simp add: s(1) reference_indexes)
qed

text \<open>Merging loses no restriction. Whatever bans and invalid credentials (of one provider, as the
  queries return them) are merged and deduplicated into a snapshot, and however the duplicates are
  ranked, a candidate that the leading identity of one of the rows stands for (its auth file for a file-backed
  row, its first identity for any other) is restricted by the snapshot.\<close>

theorem restriction_survives_merge:
  assumes "r \<in> set bans \<or> (\<exists>i\<in>set invalids. ia_Active i \<and> r = invalidAuthAsAutoban i)"
    and "\<forall>b\<in>set bans. canonicalProviderOr (ab_Provider b) providerCodex = p"
    and "\<forall>i\<in>set invalids. canonicalProviderOr (ia_Provider i) providerCodex = p"
    and "key_blocks fp r c"
  shows "fst (codex_matchIndexes fp (Some (newCodexSchedulerSnapshot env bans invalids now)) c)"
  using assms by (rule merged_restricts)

definition example_ban :: "string \<Rightarrow> string \<Rightarrow> int \<Rightarrow> autobanRow" where
  "example_ban authID authIndex resetAt =
     \<lparr>ab_AuthID = authID, ab_AuthIndex = authIndex, ab_Source = [], ab_Provider = ''codex'', ab_AuthFile = [],
      ab_Window = ''5h'', ab_Reason = ''quota'', ab_BannedAt = 1, ab_BannedAtText = [], ab_ResetAt = resetAt,
      ab_ResetAtText = [], ab_SecondsRemaining = 0, ab_Active = True, ab_LastStatusCode = 429,
      ab_PrimaryUsedPercent = None, ab_PrimaryResetAt = None, ab_SecondaryUsedPercent = None, ab_SecondaryResetAt = None\<rparr>"

theorem restriction_survives_merge_witness:
  "fst (codex_matchIndexes (\<lambda>s. s)
     (Some (newCodexSchedulerSnapshot (example_env 0) [example_ban ''A.json'' ''1'' 9, example_ban ''a.json'' ''2'' 7] [] 5))
     (example_candidate ''a.json''))"
proof (rule restriction_survives_merge [where r = "example_ban ''a.json'' ''2'' 7" and p = "''codex''"])
  show "key_blocks (\<lambda>s. s) (example_ban ''a.json'' ''2'' 7) (example_candidate ''a.json'')" by code_simp
  show "\<forall>b\<in>set [example_ban ''A.json'' ''1'' 9, example_ban ''a.json'' ''2'' 7].
      canonicalProviderOr (ab_Provider b) providerCodex = ''codex''" by code_simp
qed simp_all

text \<open>
  The other aliases of a merged row are not kept. Two bans of one auth ID but different auth indexes
  become one row, so a candidate that carries only the second index is restricted by the rows and not
  by the snapshot made of them.
\<close>

lemma merge_drops_secondary_alias:
  "let bans = [example_ban ''x'' ''1'' 9, example_ban ''x'' ''2'' 7];
       c = (example_candidate ''y'')\<lparr>c_Attributes := [(''auth_index'', ''2'')]\<rparr>
   in candidateMatchesActiveBan (\<lambda>s. s) c bans
      \<and> \<not> fst (codex_matchIndexes (\<lambda>s. s) (Some (newCodexSchedulerSnapshot (example_env 0) bans [] 5)) c)"
  by code_simp

end
