(* ===== verification/Config.thy ===== *)
theory Config
  imports Restrictions
begin

text \<open>
  The plugin configuration (\<open>main.go\<close>): its defaults, the line-based reading of the YAML scalars,
  the clamping of every number, and the normal forms of the two modes. The lemmas: reading a
  configuration and normalising it always lands in the bounds, and normalising is idempotent.
\<close>

section \<open>The configuration\<close>

record pluginConfig =
  cf_AccountProtectionEnabled :: bool
  cf_AccountProtectionFreeConcurrency :: int
  cf_AccountProtectionPlusConcurrency :: int
  cf_AccountProtectionK12Concurrency :: int
  cf_AccountProtectionTeamConcurrency :: int
  cf_AccountProtectionProConcurrency :: int
  cf_AccountProtectionFreeTokenLimit :: int
  cf_AccountProtectionPlusTokenLimit :: int
  cf_AccountProtectionK12TokenLimit :: int
  cf_AccountProtectionTeamTokenLimit :: int
  cf_AccountProtectionProTokenLimit :: int
  cf_AccountProtectionTokenWindowSeconds :: int
  cf_AccountProtectionReservationTTLSeconds :: int
  cf_QuotaTriggerEnabled :: bool
  cf_QuotaTriggerIntervalMinutes :: int
  cf_QuotaTriggerMode :: string
  cf_QuotaTriggerMaxConcurrency :: int
  cf_QuotaTriggerTimeoutSeconds :: int
  cf_QuotaTriggerMinAccountCooldownMinutes :: int
  cf_ModelPriceAutoUpdateEnabled :: bool
  cf_ModelPriceUpdateIntervalHours :: int
  cf_ModelPriceUpdateURL :: string
  cf_ModelPriceUpdateTimeoutSeconds :: int
  cf_UsageRetentionDays :: int
  cf_QuotaTriggerRetentionDays :: int
  cf_RequestDetailRetentionDays :: int
  cf_SummaryPrecomputeEnabled :: bool
  cf_SummaryPrecomputeIntervalSeconds :: int
  cf_SummaryPrecomputeMode :: string
  cf_SummaryCacheMaxAgeSeconds :: int
  cf_SummaryMaintenanceIntervalSeconds :: int
  cf_SummaryPrecomputeActiveWindowTTLSeconds :: int

definition defaultModelPriceURL :: string where
  "defaultModelPriceURL = ''https://raw.githubusercontent.com/BerriAI/litellm/main/model_prices_and_context_window.json''"

definition defaultPluginConfig :: pluginConfig where
  "defaultPluginConfig = \<lparr>
     cf_AccountProtectionEnabled = False,
     cf_AccountProtectionFreeConcurrency = 2,
     cf_AccountProtectionPlusConcurrency = 5,
     cf_AccountProtectionK12Concurrency = 5,
     cf_AccountProtectionTeamConcurrency = 5,
     cf_AccountProtectionProConcurrency = 10,
     cf_AccountProtectionFreeTokenLimit = 2000000,
     cf_AccountProtectionPlusTokenLimit = 8000000,
     cf_AccountProtectionK12TokenLimit = 8000000,
     cf_AccountProtectionTeamTokenLimit = 8000000,
     cf_AccountProtectionProTokenLimit = 12000000,
     cf_AccountProtectionTokenWindowSeconds = 300,
     cf_AccountProtectionReservationTTLSeconds = 900,
     cf_QuotaTriggerEnabled = False,
     cf_QuotaTriggerIntervalMinutes = 10,
     cf_QuotaTriggerMode = ''probe'',
     cf_QuotaTriggerMaxConcurrency = 1,
     cf_QuotaTriggerTimeoutSeconds = 20,
     cf_QuotaTriggerMinAccountCooldownMinutes = 10,
     cf_ModelPriceAutoUpdateEnabled = True,
     cf_ModelPriceUpdateIntervalHours = 6,
     cf_ModelPriceUpdateURL = defaultModelPriceURL,
     cf_ModelPriceUpdateTimeoutSeconds = 20,
     cf_UsageRetentionDays = 90,
     cf_QuotaTriggerRetentionDays = 30,
     cf_RequestDetailRetentionDays = 30,
     cf_SummaryPrecomputeEnabled = True,
     cf_SummaryPrecomputeIntervalSeconds = 30,
     cf_SummaryPrecomputeMode = ''active_dirty'',
     cf_SummaryCacheMaxAgeSeconds = 30,
     cf_SummaryMaintenanceIntervalSeconds = 180,
     cf_SummaryPrecomputeActiveWindowTTLSeconds = 120\<rparr>"

section \<open>Scalars\<close>

definition clampInt :: "int \<Rightarrow> int \<Rightarrow> int \<Rightarrow> int" where
  "clampInt value lo hi = (if value < lo then lo else if hi < value then hi else value)"

definition parseInt :: "string \<Rightarrow> int \<Rightarrow> int \<Rightarrow> int \<Rightarrow> int" where
  "parseInt value fallback lo hi = (case Atoi (TrimSpace value) of
     None \<Rightarrow> fallback | Some n \<Rightarrow> if n < lo then lo else if hi < n then hi else n)"

definition parseBoolString :: "string \<Rightarrow> bool \<Rightarrow> bool" where
  "parseBoolString value fallback =
     (let v = ToLower (TrimSpace value)
      in if v \<in> {''1'', ''true'', ''yes'', ''y'', ''on''} then True
         else if v \<in> {''0'', ''false'', ''no'', ''n'', ''off''} then False
         else fallback)"

text \<open>What precedes the first occurrence of a separator, and what follows the first colon.\<close>

fun before_sub :: "string \<Rightarrow> string \<Rightarrow> string option" where
  "before_sub [] sub = (if sub = [] then Some [] else None)"
| "before_sub (c # s) sub =
     (if HasPrefix (c # s) sub then Some [] else map_option (\<lambda>p. c # p) (before_sub s sub))"

text \<open>The entry a line gives, if it gives one.\<close>

definition yaml_line :: "string \<Rightarrow> (string \<times> string) option" where
  "yaml_line raw =
     (let line = TrimSpace raw
      in if line = [] \<or> HasPrefix line ''#'' then None
         else case IndexByte line (CHR '':'') of
                None \<Rightarrow> None
              | Some i \<Rightarrow>
                  let key = TrimSpace (take i line)
                  in if key = [] \<or> CHR '' '' \<in> set key \<or> CHR 0x09 \<in> set key then None
                     else let value = TrimSpace (drop (Suc i) line);
                              uncommented = (case before_sub value '' #'' of
                                None \<Rightarrow> value | Some p \<Rightarrow> TrimSpace p)
                          in Some (key, TrimSet uncommented [CHR 0x22, CHR 0x27]))"

definition yamlScalars :: "string \<Rightarrow> (string \<times> string) list" where
  "yamlScalars raw =
     foldl (\<lambda>m line. case yaml_line line of None \<Rightarrow> m | Some (k, v) \<Rightarrow> AList.update k v m) [] (Split raw (CHR 0x0A))"

definition configValue :: "(string \<times> string) list \<Rightarrow> string list \<Rightarrow> string option" where
  "configValue values ks = (case find (\<lambda>k. map_of values k \<noteq> None) ks of None \<Rightarrow> None | Some k \<Rightarrow> map_of values k)"

definition config_int :: "(string \<times> string) list \<Rightarrow> string list \<Rightarrow> int \<Rightarrow> int \<Rightarrow> int \<Rightarrow> int" where
  "config_int values ks old lo hi = (case configValue values ks of None \<Rightarrow> old | Some v \<Rightarrow> parseInt v old lo hi)"

definition config_bool :: "(string \<times> string) list \<Rightarrow> string list \<Rightarrow> bool \<Rightarrow> bool" where
  "config_bool values ks old = (case configValue values ks of None \<Rightarrow> old | Some v \<Rightarrow> parseBoolString v old)"

definition config_string :: "(string \<times> string) list \<Rightarrow> string list \<Rightarrow> string \<Rightarrow> string" where
  "config_string values ks old = (case configValue values ks of None \<Rightarrow> old | Some v \<Rightarrow> v)"

section \<open>Reading and normalising\<close>

text \<open>Each field depends on its own keys and its own old value; non-ASCII keys are written as their bytes.\<close>

definition parsePluginConfigYAML :: "string \<Rightarrow> pluginConfig \<Rightarrow> pluginConfig" where
  "parsePluginConfigYAML raw cfg =
     (let values = yamlScalars raw
      in \<lparr>
          cf_AccountProtectionEnabled = config_bool values [''account_protection_enabled'', bytes [0xE5, 0xBC, 0x80, 0xE5, 0x90, 0xAF, 0xE8, 0xB4, 0xA6, 0xE5, 0x8F, 0xB7, 0xE4, 0xBF, 0x9D, 0xE6, 0x8A, 0xA4, 0xE8, 0xB0, 0x83, 0xE5, 0xBA, 0xA6]] (cf_AccountProtectionEnabled cfg),
          cf_AccountProtectionFreeConcurrency = config_int values [''account_protection_free_concurrency'', bytes [0x46, 0x72, 0x65, 0x65, 0x20, 0xE5, 0xB9, 0xB6, 0xE5, 0x8F, 0x91, 0xE4, 0xB8, 0x8A, 0xE9, 0x99, 0x90]] (cf_AccountProtectionFreeConcurrency cfg) 1 100,
          cf_AccountProtectionPlusConcurrency = config_int values [''account_protection_plus_concurrency'', bytes [0x50, 0x6C, 0x75, 0x73, 0x20, 0xE5, 0xB9, 0xB6, 0xE5, 0x8F, 0x91, 0xE4, 0xB8, 0x8A, 0xE9, 0x99, 0x90]] (cf_AccountProtectionPlusConcurrency cfg) 1 100,
          cf_AccountProtectionK12Concurrency = config_int values [''account_protection_k12_concurrency'', bytes [0x4B, 0x31, 0x32, 0x20, 0xE5, 0xB9, 0xB6, 0xE5, 0x8F, 0x91, 0xE4, 0xB8, 0x8A, 0xE9, 0x99, 0x90]] (cf_AccountProtectionK12Concurrency cfg) 1 100,
          cf_AccountProtectionTeamConcurrency = config_int values [''account_protection_team_concurrency'', bytes [0x54, 0x65, 0x61, 0x6D, 0x20, 0xE5, 0xB9, 0xB6, 0xE5, 0x8F, 0x91, 0xE4, 0xB8, 0x8A, 0xE9, 0x99, 0x90]] (cf_AccountProtectionTeamConcurrency cfg) 1 100,
          cf_AccountProtectionProConcurrency = config_int values [''account_protection_pro_concurrency'', bytes [0x50, 0x72, 0x6F, 0x20, 0xE5, 0xB9, 0xB6, 0xE5, 0x8F, 0x91, 0xE4, 0xB8, 0x8A, 0xE9, 0x99, 0x90]] (cf_AccountProtectionProConcurrency cfg) 1 100,
          cf_AccountProtectionFreeTokenLimit = config_int values [''account_protection_free_token_limit'', bytes [0x46, 0x72, 0x65, 0x65, 0x20, 0x35, 0x20, 0xE5, 0x88, 0x86, 0xE9, 0x92, 0x9F, 0x20, 0x54, 0x6F, 0x6B, 0x65, 0x6E, 0x20, 0xE4, 0xB8, 0x8A, 0xE9, 0x99, 0x90]] (cf_AccountProtectionFreeTokenLimit cfg) 1 100000000,
          cf_AccountProtectionPlusTokenLimit = config_int values [''account_protection_plus_token_limit'', bytes [0x50, 0x6C, 0x75, 0x73, 0x20, 0x35, 0x20, 0xE5, 0x88, 0x86, 0xE9, 0x92, 0x9F, 0x20, 0x54, 0x6F, 0x6B, 0x65, 0x6E, 0x20, 0xE4, 0xB8, 0x8A, 0xE9, 0x99, 0x90]] (cf_AccountProtectionPlusTokenLimit cfg) 1 100000000,
          cf_AccountProtectionK12TokenLimit = config_int values [''account_protection_k12_token_limit'', bytes [0x4B, 0x31, 0x32, 0x20, 0x35, 0x20, 0xE5, 0x88, 0x86, 0xE9, 0x92, 0x9F, 0x20, 0x54, 0x6F, 0x6B, 0x65, 0x6E, 0x20, 0xE4, 0xB8, 0x8A, 0xE9, 0x99, 0x90]] (cf_AccountProtectionK12TokenLimit cfg) 1 100000000,
          cf_AccountProtectionTeamTokenLimit = config_int values [''account_protection_team_token_limit'', bytes [0x54, 0x65, 0x61, 0x6D, 0x20, 0x35, 0x20, 0xE5, 0x88, 0x86, 0xE9, 0x92, 0x9F, 0x20, 0x54, 0x6F, 0x6B, 0x65, 0x6E, 0x20, 0xE4, 0xB8, 0x8A, 0xE9, 0x99, 0x90]] (cf_AccountProtectionTeamTokenLimit cfg) 1 100000000,
          cf_AccountProtectionProTokenLimit = config_int values [''account_protection_pro_token_limit'', bytes [0x50, 0x72, 0x6F, 0x20, 0x35, 0x20, 0xE5, 0x88, 0x86, 0xE9, 0x92, 0x9F, 0x20, 0x54, 0x6F, 0x6B, 0x65, 0x6E, 0x20, 0xE4, 0xB8, 0x8A, 0xE9, 0x99, 0x90]] (cf_AccountProtectionProTokenLimit cfg) 1 100000000,
          cf_AccountProtectionTokenWindowSeconds = config_int values [''account_protection_token_window_seconds'', bytes [0xE8, 0xB4, 0xA6, 0xE5, 0x8F, 0xB7, 0xE4, 0xBF, 0x9D, 0xE6, 0x8A, 0xA4, 0x20, 0x54, 0x6F, 0x6B, 0x65, 0x6E, 0x20, 0xE7, 0xAA, 0x97, 0xE5, 0x8F, 0xA3, 0xE7, 0xA7, 0x92, 0xE6, 0x95, 0xB0]] (cf_AccountProtectionTokenWindowSeconds cfg) 30 3600,
          cf_AccountProtectionReservationTTLSeconds = config_int values [''account_protection_reservation_ttl_seconds'', bytes [0xE8, 0xB4, 0xA6, 0xE5, 0x8F, 0xB7, 0xE4, 0xBF, 0x9D, 0xE6, 0x8A, 0xA4, 0xE9, 0xA2, 0x84, 0xE7, 0xBA, 0xA6, 0xE8, 0xB6, 0x85, 0xE6, 0x97, 0xB6, 0xE7, 0xA7, 0x92, 0xE6, 0x95, 0xB0]] (cf_AccountProtectionReservationTTLSeconds cfg) 30 7200,
          cf_QuotaTriggerEnabled = config_bool values [''quota_trigger_enabled'', bytes [0xE5, 0xBC, 0x80, 0xE5, 0x90, 0xAF, 0xE5, 0xAE, 0x9A, 0xE6, 0x97, 0xB6, 0xE9, 0xA2, 0x9D, 0xE5, 0xBA, 0xA6, 0xE8, 0xA7, 0xA6, 0xE5, 0x8F, 0x91]] (cf_QuotaTriggerEnabled cfg),
          cf_QuotaTriggerIntervalMinutes = config_int values [''quota_trigger_interval_minutes'', bytes [0xE8, 0xA7, 0xA6, 0xE5, 0x8F, 0x91, 0xE9, 0x97, 0xB4, 0xE9, 0x9A, 0x94, 0xE5, 0x88, 0x86, 0xE9, 0x92, 0x9F]] (cf_QuotaTriggerIntervalMinutes cfg) 1 1440,
          cf_QuotaTriggerMode = config_string values [''quota_trigger_mode'', bytes [0xE8, 0xA7, 0xA6, 0xE5, 0x8F, 0x91, 0xE6, 0xA8, 0xA1, 0xE5, 0xBC, 0x8F]] (cf_QuotaTriggerMode cfg),
          cf_QuotaTriggerMaxConcurrency = config_int values [''quota_trigger_max_concurrency'', bytes [0xE6, 0x9C, 0x80, 0xE5, 0xA4, 0xA7, 0xE5, 0xB9, 0xB6, 0xE5, 0x8F, 0x91, 0xE8, 0xB4, 0xA6, 0xE5, 0x8F, 0xB7, 0xE6, 0x95, 0xB0]] (cf_QuotaTriggerMaxConcurrency cfg) 1 32,
          cf_QuotaTriggerTimeoutSeconds = config_int values [''quota_trigger_timeout_seconds'', bytes [0xE5, 0x8D, 0x95, 0xE8, 0xB4, 0xA6, 0xE5, 0x8F, 0xB7, 0xE8, 0xB6, 0x85, 0xE6, 0x97, 0xB6, 0xE7, 0xA7, 0x92, 0xE6, 0x95, 0xB0]] (cf_QuotaTriggerTimeoutSeconds cfg) 3 300,
          cf_QuotaTriggerMinAccountCooldownMinutes = config_int values [''quota_trigger_min_account_cooldown_minutes'', bytes [0xE5, 0x8D, 0x95, 0xE8, 0xB4, 0xA6, 0xE5, 0x8F, 0xB7, 0xE6, 0x9C, 0x80, 0xE5, 0xB0, 0x8F, 0xE5, 0x86, 0xB7, 0xE5, 0x8D, 0xB4, 0xE5, 0x88, 0x86, 0xE9, 0x92, 0x9F]] (cf_QuotaTriggerMinAccountCooldownMinutes cfg) 1 1440,
          cf_ModelPriceAutoUpdateEnabled = config_bool values [''model_price_auto_update_enabled'', bytes [0xE8, 0x87, 0xAA, 0xE5, 0x8A, 0xA8, 0xE6, 0x9B, 0xB4, 0xE6, 0x96, 0xB0, 0xE6, 0xA8, 0xA1, 0xE5, 0x9E, 0x8B, 0xE4, 0xBB, 0xB7, 0xE6, 0xA0, 0xBC, 0xE8, 0xA1, 0xA8]] (cf_ModelPriceAutoUpdateEnabled cfg),
          cf_ModelPriceUpdateIntervalHours = config_int values [''model_price_update_interval_hours'', bytes [0xE6, 0xA8, 0xA1, 0xE5, 0x9E, 0x8B, 0xE4, 0xBB, 0xB7, 0xE6, 0xA0, 0xBC, 0xE6, 0x9B, 0xB4, 0xE6, 0x96, 0xB0, 0xE9, 0x97, 0xB4, 0xE9, 0x9A, 0x94, 0xE5, 0xB0, 0x8F, 0xE6, 0x97, 0xB6]] (cf_ModelPriceUpdateIntervalHours cfg) 1 168,
          cf_ModelPriceUpdateURL = config_string values [''model_price_update_url'', bytes [0xE6, 0xA8, 0xA1, 0xE5, 0x9E, 0x8B, 0xE4, 0xBB, 0xB7, 0xE6, 0xA0, 0xBC, 0xE8, 0xA1, 0xA8, 0xE5, 0x9C, 0xB0, 0xE5, 0x9D, 0x80]] (cf_ModelPriceUpdateURL cfg),
          cf_ModelPriceUpdateTimeoutSeconds = config_int values [''model_price_update_timeout_seconds'', bytes [0xE6, 0xA8, 0xA1, 0xE5, 0x9E, 0x8B, 0xE4, 0xBB, 0xB7, 0xE6, 0xA0, 0xBC, 0xE6, 0x9B, 0xB4, 0xE6, 0x96, 0xB0, 0xE8, 0xB6, 0x85, 0xE6, 0x97, 0xB6, 0xE7, 0xA7, 0x92, 0xE6, 0x95, 0xB0]] (cf_ModelPriceUpdateTimeoutSeconds cfg) 3 300,
          cf_UsageRetentionDays = config_int values [''usage_retention_days'', bytes [0xE7, 0x94, 0xA8, 0xE9, 0x87, 0x8F, 0xE4, 0xBF, 0x9D, 0xE7, 0x95, 0x99, 0xE5, 0xA4, 0xA9, 0xE6, 0x95, 0xB0]] (cf_UsageRetentionDays cfg) 7 3650,
          cf_QuotaTriggerRetentionDays = config_int values [''quota_trigger_retention_days'', bytes [0xE9, 0xA2, 0x9D, 0xE5, 0xBA, 0xA6, 0xE8, 0xA7, 0xA6, 0xE5, 0x8F, 0x91, 0xE8, 0xAE, 0xB0, 0xE5, 0xBD, 0x95, 0xE4, 0xBF, 0x9D, 0xE7, 0x95, 0x99, 0xE5, 0xA4, 0xA9, 0xE6, 0x95, 0xB0]] (cf_QuotaTriggerRetentionDays cfg) 1 3650,
          cf_RequestDetailRetentionDays = config_int values [''request_detail_retention_days'', bytes [0xE8, 0xAF, 0xB7, 0xE6, 0xB1, 0x82, 0xE6, 0x98, 0x8E, 0xE7, 0xBB, 0x86, 0xE4, 0xBF, 0x9D, 0xE7, 0x95, 0x99, 0xE5, 0xA4, 0xA9, 0xE6, 0x95, 0xB0]] (cf_RequestDetailRetentionDays cfg) 1 3650,
          cf_SummaryPrecomputeEnabled = config_bool values [''summary_precompute_enabled'', bytes [0xE5, 0xBC, 0x80, 0xE5, 0x90, 0xAF, 0xE5, 0x90, 0x8E, 0xE5, 0x8F, 0xB0, 0xE9, 0xA2, 0x84, 0xE8, 0xAE, 0xA1, 0xE7, 0xAE, 0x97]] (cf_SummaryPrecomputeEnabled cfg),
          cf_SummaryPrecomputeIntervalSeconds = config_int values [''summary_precompute_interval_seconds'', bytes [0xE9, 0xA2, 0x84, 0xE8, 0xAE, 0xA1, 0xE7, 0xAE, 0x97, 0xE9, 0x97, 0xB4, 0xE9, 0x9A, 0x94, 0xE7, 0xA7, 0x92, 0xE6, 0x95, 0xB0]] (cf_SummaryPrecomputeIntervalSeconds cfg) 5 3600,
          cf_SummaryPrecomputeMode = config_string values [''summary_precompute_mode''] (cf_SummaryPrecomputeMode cfg),
          cf_SummaryCacheMaxAgeSeconds = config_int values [''summary_cache_max_age_seconds''] (cf_SummaryCacheMaxAgeSeconds cfg) 1 3600,
          cf_SummaryMaintenanceIntervalSeconds = config_int values [''summary_maintenance_interval_seconds''] (cf_SummaryMaintenanceIntervalSeconds cfg) 10 3600,
          cf_SummaryPrecomputeActiveWindowTTLSeconds = config_int values [''summary_precompute_active_window_ttl_seconds''] (cf_SummaryPrecomputeActiveWindowTTLSeconds cfg) 30 86400\<rparr>)"

definition normalizePrecomputeMode :: "string \<Rightarrow> string" where
  "normalizePrecomputeMode value =
     (let mode = ToLower (TrimSpace value)
      in if mode \<in> {[], ''active'', ''dirty'', ''active-dirty'', ''active_dirty''} then ''active_dirty''
         else if mode \<in> {''legacy'', ''all'', ''full''} then ''legacy'' else ''active_dirty'')"

definition normalizeTriggerMode :: "string \<Rightarrow> string" where
  "normalizeTriggerMode value =
     (let mode = ToLower (TrimSpace value);
          mode' = (if mode \<in> {bytes [0xE6, 0x8E, 0xA2, 0xE6, 0xB5, 0x8B, 0xE8, 0xAF, 0xB7, 0xE6, 0xB1, 0x82], bytes [0xE7, 0x9C, 0x9F, 0xE5, 0xAE, 0x9E, 0xE8, 0xAF, 0xB7, 0xE6, 0xB1, 0x82], bytes [0xE7, 0x9C, 0x9F, 0xE5, 0xAE, 0x9E, 0xE6, 0x8E, 0xA2, 0xE6, 0xB5, 0x8B], bytes [0x70, 0x72, 0x6F, 0x62, 0x65, 0xE6, 0xA8, 0xA1, 0xE5, 0xBC, 0x8F], bytes [0x70, 0x72, 0x6F, 0x62, 0x65, 0x20, 0xE6, 0xA8, 0xA1, 0xE5, 0xBC, 0x8F]} then ''probe''
                   else if mode \<in> {''quota'', ''quota mode'', bytes [0xE5, 0x8F, 0xAA, 0xE6, 0x9F, 0xA5, 0xE8, 0xAF, 0xA2, 0xE9, 0xA2, 0x9D, 0xE5, 0xBA, 0xA6], bytes [0xE6, 0x9F, 0xA5, 0xE8, 0xAF, 0xA2, 0xE9, 0xA2, 0x9D, 0xE5, 0xBA, 0xA6], bytes [0xE9, 0xA2, 0x9D, 0xE5, 0xBA, 0xA6, 0xE6, 0x9F, 0xA5, 0xE8, 0xAF, 0xA2], bytes [0x71, 0x75, 0x6F, 0x74, 0x61, 0xE6, 0xA8, 0xA1, 0xE5, 0xBC, 0x8F], bytes [0x71, 0x75, 0x6F, 0x74, 0x61, 0x20, 0xE6, 0xA8, 0xA1, 0xE5, 0xBC, 0x8F]} then ''quota''
                   else mode)
      in if mode' \<noteq> ''probe'' \<and> mode' \<noteq> ''quota'' then ''probe'' else mode')"

definition normalizePluginConfig :: "pluginConfig \<Rightarrow> pluginConfig" where
  "normalizePluginConfig cfg = \<lparr>
     cf_AccountProtectionEnabled = cf_AccountProtectionEnabled cfg,
     cf_AccountProtectionFreeConcurrency = clampInt (cf_AccountProtectionFreeConcurrency cfg) 1 100,
     cf_AccountProtectionPlusConcurrency = clampInt (cf_AccountProtectionPlusConcurrency cfg) 1 100,
     cf_AccountProtectionK12Concurrency = clampInt (cf_AccountProtectionK12Concurrency cfg) 1 100,
     cf_AccountProtectionTeamConcurrency = clampInt (cf_AccountProtectionTeamConcurrency cfg) 1 100,
     cf_AccountProtectionProConcurrency = clampInt (cf_AccountProtectionProConcurrency cfg) 1 100,
     cf_AccountProtectionFreeTokenLimit = clampInt (cf_AccountProtectionFreeTokenLimit cfg) 1 100000000,
     cf_AccountProtectionPlusTokenLimit = clampInt (cf_AccountProtectionPlusTokenLimit cfg) 1 100000000,
     cf_AccountProtectionK12TokenLimit = clampInt (cf_AccountProtectionK12TokenLimit cfg) 1 100000000,
     cf_AccountProtectionTeamTokenLimit = clampInt (cf_AccountProtectionTeamTokenLimit cfg) 1 100000000,
     cf_AccountProtectionProTokenLimit = clampInt (cf_AccountProtectionProTokenLimit cfg) 1 100000000,
     cf_AccountProtectionTokenWindowSeconds = clampInt (cf_AccountProtectionTokenWindowSeconds cfg) 30 3600,
     cf_AccountProtectionReservationTTLSeconds = clampInt (cf_AccountProtectionReservationTTLSeconds cfg) 30 7200,
     cf_QuotaTriggerEnabled = cf_QuotaTriggerEnabled cfg,
     cf_QuotaTriggerIntervalMinutes = clampInt (cf_QuotaTriggerIntervalMinutes cfg) 1 1440,
     cf_QuotaTriggerMode = normalizeTriggerMode (cf_QuotaTriggerMode cfg),
     cf_QuotaTriggerMaxConcurrency = clampInt (cf_QuotaTriggerMaxConcurrency cfg) 1 32,
     cf_QuotaTriggerTimeoutSeconds = clampInt (cf_QuotaTriggerTimeoutSeconds cfg) 3 300,
     cf_QuotaTriggerMinAccountCooldownMinutes = clampInt (cf_QuotaTriggerMinAccountCooldownMinutes cfg) 1 1440,
     cf_ModelPriceAutoUpdateEnabled = cf_ModelPriceAutoUpdateEnabled cfg,
     cf_ModelPriceUpdateIntervalHours = clampInt (cf_ModelPriceUpdateIntervalHours cfg) 1 168,
     cf_ModelPriceUpdateURL = (if TrimSpace (cf_ModelPriceUpdateURL cfg) = [] then defaultModelPriceURL else cf_ModelPriceUpdateURL cfg),
     cf_ModelPriceUpdateTimeoutSeconds = clampInt (cf_ModelPriceUpdateTimeoutSeconds cfg) 3 300,
     cf_UsageRetentionDays = clampInt (cf_UsageRetentionDays cfg) 7 3650,
     cf_QuotaTriggerRetentionDays = clampInt (cf_QuotaTriggerRetentionDays cfg) 1 3650,
     cf_RequestDetailRetentionDays = clampInt (cf_RequestDetailRetentionDays cfg) 1 3650,
     cf_SummaryPrecomputeEnabled = cf_SummaryPrecomputeEnabled cfg,
     cf_SummaryPrecomputeIntervalSeconds = clampInt (cf_SummaryPrecomputeIntervalSeconds cfg) 5 3600,
     cf_SummaryPrecomputeMode = normalizePrecomputeMode (cf_SummaryPrecomputeMode cfg),
     cf_SummaryCacheMaxAgeSeconds = clampInt (cf_SummaryCacheMaxAgeSeconds cfg) 1 3600,
     cf_SummaryMaintenanceIntervalSeconds = clampInt (cf_SummaryMaintenanceIntervalSeconds cfg) 10 3600,
     cf_SummaryPrecomputeActiveWindowTTLSeconds = clampInt (cf_SummaryPrecomputeActiveWindowTTLSeconds cfg) 30 86400\<rparr>"

text \<open>\<open>configurePlugin\<close>: the effective configuration for the raw text, if any.\<close>

definition effectiveConfig :: "string \<Rightarrow> pluginConfig" where
  "effectiveConfig raw =
     normalizePluginConfig (if raw = [] then defaultPluginConfig else parsePluginConfigYAML raw defaultPluginConfig)"

text \<open>The bounds every normalised configuration meets.\<close>

definition config_bounded :: "pluginConfig \<Rightarrow> bool" where
  "config_bounded cfg \<longleftrightarrow> list_all (\<lambda>(v, lo, hi). lo \<le> v \<and> v \<le> hi)
     [(cf_AccountProtectionFreeConcurrency cfg, 1, 100),
      (cf_AccountProtectionPlusConcurrency cfg, 1, 100),
      (cf_AccountProtectionK12Concurrency cfg, 1, 100),
      (cf_AccountProtectionTeamConcurrency cfg, 1, 100),
      (cf_AccountProtectionProConcurrency cfg, 1, 100),
      (cf_AccountProtectionFreeTokenLimit cfg, 1, 100000000),
      (cf_AccountProtectionPlusTokenLimit cfg, 1, 100000000),
      (cf_AccountProtectionK12TokenLimit cfg, 1, 100000000),
      (cf_AccountProtectionTeamTokenLimit cfg, 1, 100000000),
      (cf_AccountProtectionProTokenLimit cfg, 1, 100000000),
      (cf_AccountProtectionTokenWindowSeconds cfg, 30, 3600),
      (cf_AccountProtectionReservationTTLSeconds cfg, 30, 7200),
      (cf_QuotaTriggerIntervalMinutes cfg, 1, 1440),
      (cf_QuotaTriggerMaxConcurrency cfg, 1, 32),
      (cf_QuotaTriggerTimeoutSeconds cfg, 3, 300),
      (cf_QuotaTriggerMinAccountCooldownMinutes cfg, 1, 1440),
      (cf_ModelPriceUpdateIntervalHours cfg, 1, 168),
      (cf_ModelPriceUpdateTimeoutSeconds cfg, 3, 300),
      (cf_UsageRetentionDays cfg, 7, 3650),
      (cf_QuotaTriggerRetentionDays cfg, 1, 3650),
      (cf_RequestDetailRetentionDays cfg, 1, 3650),
      (cf_SummaryPrecomputeIntervalSeconds cfg, 5, 3600),
      (cf_SummaryCacheMaxAgeSeconds cfg, 1, 3600),
      (cf_SummaryMaintenanceIntervalSeconds cfg, 10, 3600),
      (cf_SummaryPrecomputeActiveWindowTTLSeconds cfg, 30, 86400)]
   \<and> cf_SummaryPrecomputeMode cfg \<in> {''active_dirty'', ''legacy''}
   \<and> cf_QuotaTriggerMode cfg \<in> {''probe'', ''quota''}
   \<and> TrimSpace (cf_ModelPriceUpdateURL cfg) \<noteq> []"

lemma clampInt_bounds: "lo \<le> hi \<Longrightarrow> lo \<le> clampInt v lo hi \<and> clampInt v lo hi \<le> hi"
  by (simp add: clampInt_def)

lemma clampInt_idem [simp]: "lo \<le> hi \<Longrightarrow> clampInt (clampInt v lo hi) lo hi = clampInt v lo hi"
  by (auto simp: clampInt_def)

lemma clampInt_id: "lo \<le> v \<Longrightarrow> v \<le> hi \<Longrightarrow> clampInt v lo hi = v"
  by (simp add: clampInt_def)

lemma normalizePrecomputeMode_range: "normalizePrecomputeMode m \<in> {''active_dirty'', ''legacy''}"
  by (simp add: normalizePrecomputeMode_def Let_def)

lemma normalizeTriggerMode_range: "normalizeTriggerMode m \<in> {''probe'', ''quota''}"
  unfolding normalizeTriggerMode_def Let_def by (simp only: split: if_split) blast

lemma modes_fixed:
  "normalizePrecomputeMode ''active_dirty'' = ''active_dirty''" "normalizePrecomputeMode ''legacy'' = ''legacy''"
  "normalizeTriggerMode ''probe'' = ''probe''" "normalizeTriggerMode ''quota'' = ''quota''"
  by code_simp+

lemma modes_idem [simp]:
  "normalizePrecomputeMode (normalizePrecomputeMode m) = normalizePrecomputeMode m"
  "normalizeTriggerMode (normalizeTriggerMode m) = normalizeTriggerMode m"
  using normalizePrecomputeMode_range [of m] normalizeTriggerMode_range [of m] modes_fixed by auto

lemma default_url_not_blank [simp]: "TrimSpace defaultModelPriceURL \<noteq> []"
  by code_simp

lemma normalizePluginConfig_bounded: "config_bounded (normalizePluginConfig cfg)"
  using normalizePrecomputeMode_range [of "cf_SummaryPrecomputeMode cfg"] normalizeTriggerMode_range [of "cf_QuotaTriggerMode cfg"]
  unfolding config_bounded_def by (simp add: normalizePluginConfig_def clampInt_bounds)

lemma bounded_normal: "config_bounded cfg \<Longrightarrow> normalizePluginConfig cfg = cfg"
proof -
  assume b: "config_bounded cfg"
  have modes: "normalizePrecomputeMode (cf_SummaryPrecomputeMode cfg) = cf_SummaryPrecomputeMode cfg"
    "normalizeTriggerMode (cf_QuotaTriggerMode cfg) = cf_QuotaTriggerMode cfg"
    using b modes_fixed unfolding config_bounded_def by auto
  show ?thesis
    using b unfolding config_bounded_def
    by (intro pluginConfig.equality) (simp_all add: normalizePluginConfig_def clampInt_id modes)
qed

section \<open>Lines\<close>

lemma leads_before_ascii:
  assumes "\<not> leads r s" "s \<noteq> []" "c \<in> {CHR '':'', CHR '' ''}"
  shows "\<not> leads r (s @ c # t)"
proof -
  have "\<not> sp2 r a c" "\<not> sp3 r a b c" "\<not> sp3 r a c b" for a b
    using assms(3) by (auto simp: sp2_def sp3_def space2_def space3_def)
  with assms(1,2) show ?thesis by (cases s rule: triple_cases; cases t rule: triple_cases) auto
qed

definition plain_entry :: "string \<times> string \<Rightarrow> bool" where
  "plain_entry = (\<lambda>(k, v). k \<noteq> [] \<and> v \<noteq> [] \<and> TrimSpace k = k \<and> TrimSpace v = v \<and> \<not> HasPrefix k ''#''
     \<and> set k \<inter> {CHR '':'', CHR '' '', CHR 0x09, CHR 0x0A} = {} \<and> CHR 0x0A \<notin> set v
     \<and> before_sub v '' #'' = None \<and> TrimSet v [CHR 0x22, CHR 0x27] = v)"

definition entry_line :: "string \<times> string \<Rightarrow> string" where
  "entry_line = (\<lambda>(k, v). k @ '': '' @ v)"

lemma trimmed_not_leads: "TrimSpace s = s \<Longrightarrow> \<not> leads False s \<and> \<not> leads True (rev s)"
  using not_leads_TrimSpace [of s] not_leads_rev_TrimSpace [of s] by simp

lemma TrimSpace_drops_space: "TrimSpace (CHR '' '' # v) = TrimSpace v"
proof -
  have "ascii_space (CHR '' '')" by (simp add: ascii_space_def)
  then have "strip False (CHR '' '' # v) = strip False v" by (cases v rule: triple_cases) simp_all
  then show ?thesis by (simp add: TrimSpace_def)
qed

lemma yaml_line_entry:
  assumes "plain_entry (k, v)"
  shows "yaml_line (entry_line (k, v)) = Some (k, v)"
proof -
  have e: "k \<noteq> []" "v \<noteq> []" "TrimSpace k = k" "TrimSpace v = v" "\<not> HasPrefix k ''#''"
      "CHR '':'' \<notin> set k" "CHR '' '' \<notin> set k" "CHR 0x09 \<notin> set k"
      "before_sub v '' #'' = None" "TrimSet v [CHR 0x22, CHR 0x27] = v"
    using assms by (auto simp: plain_entry_def)
  let ?line = "k @ CHR '':'' # CHR '' '' # v"
  have trim: "TrimSpace ?line = ?line"
  proof (rule TrimSpace_id)
    show "\<not> leads False ?line" by (rule leads_before_ascii) (use trimmed_not_leads [OF e(3)] e(1) in auto)
    have "\<not> leads True (rev v @ CHR '' '' # CHR '':'' # rev k)"
      by (rule leads_before_ascii) (use trimmed_not_leads [OF e(4)] e(2) in auto)
    then show "\<not> leads True (rev ?line)" by simp
  qed
  have "\<not> HasPrefix ?line ''#''" using e(1,5) by (cases k) (simp_all add: HasPrefix_def)
  moreover have "IndexByte ?line (CHR '':'') = Some (length k)" by (rule IndexByte_append [OF e(6)])
  ultimately show ?thesis using e trim by (simp add: entry_line_def yaml_line_def TrimSpace_drops_space)
qed

lemma Split_Join: "ss \<noteq> [] \<Longrightarrow> \<forall>s\<in>set ss. c \<notin> set s \<Longrightarrow> Split (Join ss [c]) c = ss"
  by (induction ss rule: induct_list012) (simp_all add: Split_no_sep Split_append)

lemma fold_entries:
  assumes "\<forall>e\<in>set es. plain_entry e" and "distinct (keys (m @ es))"
  shows "foldl (\<lambda>m line. case yaml_line line of None \<Rightarrow> m | Some (k, v) \<Rightarrow> AList.update k v m) m (map entry_line es) = m @ es"
  using assms
proof (induction es arbitrary: m)
  case (Cons e es)
  obtain k v where e: "e = (k, v)" by fastforce
  have "yaml_line (entry_line e) = Some (k, v)" using Cons.prems(1) e yaml_line_entry by simp
  moreover have "AList.update k v m = m @ [(k, v)]" using Cons.prems(2) e by (intro update_absent) auto
  ultimately show ?case using Cons.IH [of "m @ [(k, v)]"] Cons.prems e by simp
qed simp

lemma yaml_line_key: "yaml_line raw = Some (k, v) \<Longrightarrow> CHR '' '' \<notin> set k"
  by (auto simp: yaml_line_def Let_def split: if_splits option.splits)

lemma yamlScalars_keys: "k \<in> set (keys (yamlScalars raw)) \<Longrightarrow> CHR '' '' \<notin> set k"
proof -
  have all: "\<forall>k\<in>set (keys m). CHR '' '' \<notin> set k \<Longrightarrow>
      \<forall>k\<in>set (keys (foldl (\<lambda>m line. case yaml_line line of None \<Rightarrow> m | Some (k, v) \<Rightarrow> AList.update k v m) m lines)). CHR '' '' \<notin> set k" for m lines
  proof (induction lines arbitrary: m)
    case (Cons line lines)
    show ?case
    proof (cases "yaml_line line")
      case (Some kv)
      obtain k v where kv: "kv = (k, v)" by fastforce
      have "\<forall>k\<in>set (keys (AList.update k v m)). CHR '' '' \<notin> set k"
        using Cons.prems yaml_line_key [of line k v] Some kv by simp
      from Cons.IH [OF this] Some kv show ?thesis by simp
    qed (use Cons in simp)
  qed simp
  then show "k \<in> set (keys (yamlScalars raw)) \<Longrightarrow> CHR '' '' \<notin> set k"
    using all [of "[]" "Split raw (CHR 0x0A)"] unfolding yamlScalars_def by auto
qed

text \<open>
  So the configuration keys of the source that contain a blank (the bytes below are the alias of
  \<open>account_protection_free_concurrency\<close>, which starts with \<open>Free\<close> and a blank) are never found.
\<close>

lemma spaced_alias_ignored:
  "map_of (yamlScalars raw) (bytes [0x46, 0x72, 0x65, 0x65, 0x20, 0xE5, 0xB9, 0xB6, 0xE5, 0x8F, 0x91, 0xE4, 0xB8, 0x8A, 0xE9, 0x99, 0x90]) = None"
proof -
  have "CHR '' '' \<in> set (bytes [0x46, 0x72, 0x65, 0x65, 0x20, 0xE5, 0xB9, 0xB6, 0xE5, 0x8F, 0x91, 0xE4, 0xB8, 0x8A, 0xE9, 0x99, 0x90])"
    by code_simp
  with yamlScalars_keys show ?thesis unfolding map_of_None_keys by blast
qed

section \<open>Properties\<close>

text \<open>Whatever the configuration text holds, the effective configuration is within its bounds: every
  number lies in its documented range, both modes are one of their two normal forms and the price URL is
  not blank; and normalising it again changes nothing.\<close>

theorem effective_config_bounded:
  "config_bounded (effectiveConfig raw) \<and> normalizePluginConfig (effectiveConfig raw) = effectiveConfig raw"
proof -
  have "config_bounded (effectiveConfig raw)"
    unfolding effectiveConfig_def by (rule normalizePluginConfig_bounded)
  then show ?thesis by (simp add: bounded_normal)
qed

text \<open>The scalar reader reads back what a plain writer writes: entries with distinct keys, written one per
  line as key, colon, blank and value, are read as exactly those entries, in order, as long as no key holds a
  blank, a tab, a colon or a line break and no value needs quoting or looks like it has a comment.\<close>

theorem yaml_roundtrip:
  assumes "es \<noteq> []" and "\<forall>e\<in>set es. plain_entry e" and "distinct (keys es)"
  shows "yamlScalars (Join (map entry_line es) [CHR 0x0A]) = es"
proof -
  have "\<forall>s\<in>set (map entry_line es). CHR 0x0A \<notin> set s"
    using assms(2) by (auto simp: entry_line_def plain_entry_def)
  then have "Split (Join (map entry_line es) [CHR 0x0A]) (CHR 0x0A) = map entry_line es"
    using assms(1) by (intro Split_Join) simp_all
  with fold_entries [of es "[]"] assms show ?thesis by (simp add: yamlScalars_def)
qed

theorem yaml_roundtrip_witness:
  "yamlScalars (Join (map entry_line [(''usage_retention_days'', ''14''), (''model_price_update_url'', ''https://x/y#z'')]) [CHR 0x0A])
     = [(''usage_retention_days'', ''14''), (''model_price_update_url'', ''https://x/y#z'')]"
proof (rule yaml_roundtrip)
  have "plain_entry (''usage_retention_days'', ''14'')" "plain_entry (''model_price_update_url'', ''https://x/y#z'')"
    by code_simp+
  then show "\<forall>e\<in>set [(''usage_retention_days'', ''14''), (''model_price_update_url'', ''https://x/y#z'')]. plain_entry e"
    by simp
qed simp_all

end
