(* ===== verification/Rotation.thy ===== *)
theory Rotation
  imports Affinity "HOL-Library.Multiset"
begin

text \<open>
  Round-robin rotation (\<open>scheduler_rotation.go\<close>): the top-priority candidates ordered by
  rotation identity, one 64-bit cursor per rotation key, at most 1024 cursors, and the composition
  with session affinity (\<open>pick\<close>, \<open>pickSchedulerCandidate\<close>). The lemmas: the
  rotation serves its candidates in turn even when picks of other keys interleave, the cursor
  table is bounded, and a pick is always one of the top-priority candidates.
\<close>

section \<open>The top-priority candidates in order\<close>

definition highest_priority :: "schedulerAuthCandidate list \<Rightarrow> int" where
  "highest_priority cs =
     foldl (\<lambda>highest c. if highest < c_Priority c then c_Priority c else highest) (c_Priority (hd cs)) (tl cs)"

definition highestPrioritySchedulerCandidates :: "schedulerAuthCandidate list \<Rightarrow> schedulerAuthCandidate list" where
  "highestPrioritySchedulerCandidates cs =
     (if cs = [] then []
      else sort_key schedulerCandidateRotationIdentity (filter (\<lambda>c. c_Priority c = highest_priority cs) cs))"

record schedulerRotationChoice =
  ch_candidate :: schedulerAuthCandidate
  ch_identity :: string

definition highestPrioritySchedulerChoices :: "schedulerAuthCandidate list \<Rightarrow> schedulerRotationChoice list" where
  "highestPrioritySchedulerChoices cs =
     (if cs = [] then []
      else sort_key ch_identity
             (map (\<lambda>c. \<lparr>ch_candidate = c, ch_identity = schedulerCandidateRotationIdentity c\<rparr>)
                  (filter (\<lambda>c. c_Priority c = highest_priority cs) cs)))"

lemma highest_priority_Max: "cs \<noteq> [] \<Longrightarrow> highest_priority cs = Max (c_Priority ` set cs)"
proof -
  have fold: "foldl (\<lambda>h c. if h < c_Priority c then c_Priority c else h) p xs = Max (insert p (c_Priority ` set xs))"
    for p and xs :: "schedulerAuthCandidate list"
  proof (induction xs arbitrary: p)
    case (Cons x xs)
    have "Max (insert p (insert (c_Priority x) A)) = Max (insert (if p < c_Priority x then c_Priority x else p) A)"
      if "finite A" for A
      using that by (cases "A = {}") auto
    with Cons show ?case by simp
  qed simp
  show "cs \<noteq> [] \<Longrightarrow> highest_priority cs = Max (c_Priority ` set cs)"
    by (cases cs) (simp_all add: highest_priority_def fold)
qed

lemma set_highest:
  "set (highestPrioritySchedulerCandidates cs) = {c \<in> set cs. \<forall>d\<in>set cs. c_Priority d \<le> c_Priority c}"
proof (cases "cs = []")
  case False
  have "c_Priority c = Max (c_Priority ` set cs) \<longleftrightarrow> (\<forall>d\<in>set cs. c_Priority d \<le> c_Priority c)" if "c \<in> set cs" for c
    using that by (subst eq_Max_iff) auto
  with False show ?thesis by (auto simp: highestPrioritySchedulerCandidates_def highest_priority_Max)
qed (simp add: highestPrioritySchedulerCandidates_def)

lemma highest_not_Nil [simp]: "highestPrioritySchedulerCandidates cs = [] \<longleftrightarrow> cs = []"
proof (cases "cs = []")
  case False
  obtain c where "c \<in> set cs" "c_Priority c = Max (c_Priority ` set cs)"
    using Max_in [of "c_Priority ` set cs"] False by (metis (no_types) List.finite_set finite_imageI imageE image_is_empty set_empty)
  then have "c \<in> set (highestPrioritySchedulerCandidates cs)" by (auto simp: set_highest)
  with False show ?thesis by auto
qed (simp add: highestPrioritySchedulerCandidates_def)

lemma highest_subset: "set (highestPrioritySchedulerCandidates cs) \<subseteq> set cs"
  by (auto simp: set_highest)

lemma highest_idem [simp]:
  "highestPrioritySchedulerCandidates (highestPrioritySchedulerCandidates cs) = highestPrioritySchedulerCandidates cs"
proof (cases "cs = []")
  case False
  let ?h = "highestPrioritySchedulerCandidates cs"
  have "c_Priority c = highest_priority ?h" if "c \<in> set ?h" for c
    using that False by (subst highest_priority_Max) (auto simp: set_highest intro!: Max_eqI [symmetric])
  then have "filter (\<lambda>c. c_Priority c = highest_priority ?h) ?h = ?h" by simp
  moreover have "sorted (map schedulerCandidateRotationIdentity ?h)"
    using False by (simp add: highestPrioritySchedulerCandidates_def)
  ultimately show ?thesis
    using False highest_not_Nil [of cs]
    by (simp add: highestPrioritySchedulerCandidates_def [of ?h] sorted_sort_id sort_key_id_if_sorted)
qed (simp add: highestPrioritySchedulerCandidates_def)

text \<open>Sorting decorated choices or bare candidates by identity is the same.\<close>

lemma insort_key_map: "insort_key g (f x) (map f xs) = map f (insort_key (\<lambda>y. g (f y)) x xs)"
  by (induction xs) auto

lemma sort_key_map: "sort_key g (map f xs) = map f (sort_key (\<lambda>y. g (f y)) xs)"
  by (induction xs) (auto simp: insort_key_map)

lemma choices_are_candidates:
  "map ch_candidate (highestPrioritySchedulerChoices cs) = highestPrioritySchedulerCandidates cs"
  by (simp add: highestPrioritySchedulerChoices_def highestPrioritySchedulerCandidates_def sort_key_map comp_def)

section \<open>Cursors\<close>

definition schedulerRotationMaxCursors :: nat where "schedulerRotationMaxCursors = 1024"
definition schedulerRotationCursorTTL :: int where "schedulerRotationCursorTTL = 30 * 60 * 1000000000"

record schedulerRotationCursor =
  cur_next :: "64 word"
  cur_lastUsed :: int

type_synonym cursor_table = "(string \<times> schedulerRotationCursor) list"

record schedulerRotationManager =
  rot_cursors :: cursor_table
  rot_operations :: "64 word"

definition rotation_reset :: "schedulerRotationManager \<Rightarrow> schedulerRotationManager" where
  "rotation_reset rot = rot\<lparr>rot_cursors := [], rot_operations := 0\<rparr>"

text \<open>The loop of \<open>pruneLocked\<close> over the visited keys, then its last deletion.\<close>

fun prune_scan :: "int \<Rightarrow> cursor_table \<Rightarrow> string list \<Rightarrow> string \<Rightarrow> int \<Rightarrow> cursor_table \<times> string" where
  "prune_scan expiresBefore m [] oldestKey oldestUsed = (m, oldestKey)"
| "prune_scan expiresBefore m (k # ks) oldestKey oldestUsed =
     (case map_of m k of
        None \<Rightarrow> prune_scan expiresBefore m ks oldestKey oldestUsed
      | Some cursor \<Rightarrow>
          if cur_lastUsed cursor \<le> expiresBefore
          then prune_scan expiresBefore (AList.delete k m) ks oldestKey oldestUsed
          else if oldestKey = [] \<or> cur_lastUsed cursor < oldestUsed
          then prune_scan expiresBefore m ks k (cur_lastUsed cursor)
          else prune_scan expiresBefore m ks oldestKey oldestUsed)"

definition pruneLocked :: "sched_env \<Rightarrow> bool \<Rightarrow> cursor_table \<Rightarrow> cursor_table" where
  "pruneLocked env requireSpace m =
     (let (m', oldestKey) = prune_scan (env_now env - schedulerRotationCursorTTL) m (env_iter env (keys m)) [] 0
      in if requireSpace \<and> schedulerRotationMaxCursors \<le> length m' \<and> oldestKey \<noteq> []
         then AList.delete oldestKey m' else m')"

definition pickRotated ::
  "sched_env \<Rightarrow> string \<Rightarrow> schedulerAuthCandidate list \<Rightarrow> schedulerRotationManager
   \<Rightarrow> schedulerAuthCandidate \<times> schedulerRotationManager" where
  "pickRotated env key cs rot =
     (let ordered = highestPrioritySchedulerChoices cs
      in if ordered = [] then (no_candidate, rot)
         else let operations = rot_operations rot + 1;
                  cursor = lookup_or \<lparr>cur_next = 0, cur_lastUsed = 0\<rparr> (rot_cursors rot) key;
                  exists = (key \<in> set (keys (rot_cursors rot)));
                  pruned = (if \<not> exists \<and> schedulerRotationMaxCursors \<le> length (rot_cursors rot)
                            then pruneLocked env True (rot_cursors rot)
                            else if operations mod 256 = 0 then pruneLocked env False (rot_cursors rot)
                            else rot_cursors rot);
                  chosen = ch_candidate (ordered ! (unat (cur_next cursor) mod length ordered))
              in (chosen, \<lparr>rot_cursors = AList.update key
                             (cursor\<lparr>cur_next := cur_next cursor + 1, cur_lastUsed := env_now env\<rparr>) pruned,
                           rot_operations = operations\<rparr>))"

section \<open>Selection: rotation under affinity\<close>

type_synonym selection = "bindings \<times> schedulerRotationManager"

definition rotation_pick ::
  "sched_env \<Rightarrow> string \<Rightarrow> schedulerAuthCandidate list \<Rightarrow> selection \<Rightarrow> schedulerAuthCandidate \<times> selection" where
  "rotation_pick env key cs s =
     (let (rotationKey, affinityKey) = splitSchedulerSelectionKey key;
          eligible = highestPrioritySchedulerCandidates cs
      in affinity_pickOrBind env affinityKey eligible (pickRotated env rotationKey eligible) s)"

definition schedulerRotationKey :: "sched_env \<Rightarrow> schedulerPickRequest \<Rightarrow> string \<Rightarrow> string" where
  "schedulerRotationKey env req provider =
     (let p = ToLower (TrimSpace provider);
          p' = (if p = [] then ToLower (TrimSpace (r_Provider req)) else p)
      in schedulerSelectionKey (p' @ [CHR 0x00] @ ToLower (TrimSpace (r_Model req))) (schedulerAffinityKey env req p'))"

definition pickSchedulerCandidate ::
  "sched_env \<Rightarrow> string \<Rightarrow> string \<Rightarrow> schedulerAuthCandidate list \<Rightarrow> selection
   \<Rightarrow> schedulerAuthCandidate \<times> selection" where
  "pickSchedulerCandidate env rotationKey affinityKey cs =
     rotation_pick env (schedulerSelectionKey rotationKey affinityKey) cs"

section \<open>The cursor table\<close>

definition rotation_inv :: "schedulerRotationManager \<Rightarrow> bool" where
  "rotation_inv rot \<longleftrightarrow> distinct (keys (rot_cursors rot)) \<and> [] \<notin> set (keys (rot_cursors rot))
     \<and> length (rot_cursors rot) \<le> schedulerRotationMaxCursors"

text \<open>
  What the scan leaves: the live cursors, and of those visited (if any) one as the oldest.
\<close>

lemma prune_scan_table:
  "set (keys (fst (prune_scan e m ks ok ou))) \<subseteq> set (keys m)
 \<and> length (fst (prune_scan e m ks ok ou)) \<le> length m
 \<and> (distinct (keys m) \<longrightarrow> distinct (keys (fst (prune_scan e m ks ok ou))))"
proof (induction e m ks ok ou rule: prune_scan.induct)
  case (2 e m k ks ok ou)
  show ?case
  proof (cases "map_of m k")
    case (Some c)
    have "length (AList.delete k m) \<le> length m" by (rule length_delete_le)
    with 2(2-4) [OF Some] Some show ?thesis
      by (cases "cur_lastUsed c \<le> e"; cases "ok = [] \<or> cur_lastUsed c < ou") auto
  qed (use 2 in simp)
qed simp

lemma prune_scan_live:
  "map_of m k = Some c \<Longrightarrow> e < cur_lastUsed c \<Longrightarrow> map_of (fst (prune_scan e m ks ok ou)) k = Some c"
proof (induction e m ks ok ou rule: prune_scan.induct)
  case (2 e m k' ks ok ou)
  show ?case
  proof (cases "map_of m k'")
    case (Some c')
    with 2 show ?thesis
      by (cases "cur_lastUsed c' \<le> e"; cases "ok = [] \<or> cur_lastUsed c' < ou"; cases "k = k'") auto
  qed (use 2 in simp)
qed simp

text \<open>With no expired cursor the table is unchanged, and the oldest key is one of it.\<close>

lemma prune_scan_oldest:
  assumes "distinct (keys m)" and "[] \<notin> set (keys m)"
    and "length (fst (prune_scan e m ks ok ou)) = length m"
    and "ok = [] \<or> ok \<in> set (keys m)"
    and "ok \<noteq> [] \<or> (\<exists>k\<in>set ks. k \<in> set (keys m))"
  shows "snd (prune_scan e m ks ok ou) \<noteq> [] \<and> fst (prune_scan e m ks ok ou) = m
       \<and> snd (prune_scan e m ks ok ou) \<in> set (keys m)"
  using assms
proof (induction ks arbitrary: ok ou)
  case (Cons k ks)
  show ?case
  proof (cases "map_of m k")
    case None
    then have "k \<notin> set (keys m)" by (simp add: map_of_None_keys)
    with Cons None show ?thesis by simp
  next
    case (Some c)
    then have k: "k \<in> set (keys m)" "k \<noteq> []"
      using Cons.prems(2) by (force dest: map_of_SomeD)+
    have live: "\<not> cur_lastUsed c \<le> e"
    proof
      assume "cur_lastUsed c \<le> e"
      then have "length m = length (fst (prune_scan e (AList.delete k m) ks ok ou))"
        using Cons.prems(3) Some by simp
      also have "\<dots> \<le> length (AList.delete k m)" using prune_scan_table by blast
      finally show False using length_delete_mem [OF Cons.prems(1) k(1)] by simp
    qed
    show ?thesis
    proof (cases "ok = [] \<or> cur_lastUsed c < ou")
      case True
      with Cons.IH [of k "cur_lastUsed c"] Cons.prems Some live k show ?thesis by simp
    next
      case False
      with Cons.IH [of ok ou] Cons.prems Some live show ?thesis by simp
    qed
  qed
qed simp

lemma pruneLocked_table:
  "set (keys (pruneLocked env b m)) \<subseteq> set (keys m) \<and> length (pruneLocked env b m) \<le> length m
   \<and> (distinct (keys m) \<longrightarrow> distinct (keys (pruneLocked env b m)))"
proof -
  let ?s = "prune_scan (env_now env - schedulerRotationCursorTTL) m (env_iter env (keys m)) [] 0"
  have "length (AList.delete (snd ?s) (fst ?s)) \<le> length (fst ?s)" by (rule length_delete_le)
  with prune_scan_table [of "env_now env - schedulerRotationCursorTTL" m "env_iter env (keys m)" "[]" 0]
  show ?thesis by (auto simp: pruneLocked_def split_beta Let_def)
qed

lemma pruneLocked_room:
  assumes "distinct (keys m)" "[] \<notin> set (keys m)" "length m \<le> schedulerRotationMaxCursors" "fair_iter (env_iter env)"
  shows "length (pruneLocked env True m) < schedulerRotationMaxCursors"
proof -
  let ?e = "env_now env - schedulerRotationCursorTTL" and ?ks = "env_iter env (keys m)"
  obtain m' ok where s: "prune_scan ?e m ?ks [] 0 = (m', ok)" by fastforce
  show ?thesis
  proof (cases "length m' < schedulerRotationMaxCursors")
    case True
    then show ?thesis by (simp add: pruneLocked_def s)
  next
    case False
    with assms(3) prune_scan_table [of ?e m ?ks "[]" 0] s have len: "length m' = length m"
      and full: "length m = schedulerRotationMaxCursors" by auto
    have "m \<noteq> []" using full by (auto simp: schedulerRotationMaxCursors_def)
    then have "\<exists>k\<in>set ?ks. k \<in> set (keys m)"
      using assms(4) by (cases m) (auto simp: fair_iter_def)
    then have "ok \<noteq> [] \<and> m' = m \<and> ok \<in> set (keys m)"
      using prune_scan_oldest [OF assms(1,2), of ?e ?ks "[]" 0] s len by simp
    with length_delete_mem [OF assms(1), of ok] full show ?thesis by (simp add: pruneLocked_def s)
  qed
qed

lemma pickRotated_Nil [simp]: "pickRotated env key [] rot = (no_candidate, rot)"
  by (simp add: pickRotated_def highestPrioritySchedulerChoices_def)

lemma choices_Nil [simp]: "highestPrioritySchedulerChoices cs = [] \<longleftrightarrow> cs = []"
  using choices_are_candidates [of cs] highest_not_Nil [of cs] by (metis map_is_Nil_conv)

lemma length_choices [simp]: "length (highestPrioritySchedulerChoices cs) = length (highestPrioritySchedulerCandidates cs)"
  by (simp flip: choices_are_candidates)

lemma pickRotated_chosen:
  "cs \<noteq> [] \<Longrightarrow> fst (pickRotated env key cs rot) =
     highestPrioritySchedulerCandidates cs !
       (unat (cur_next (lookup_or \<lparr>cur_next = 0, cur_lastUsed = 0\<rparr> (rot_cursors rot) key))
          mod length (highestPrioritySchedulerCandidates cs))"
  unfolding choices_are_candidates [symmetric, of cs]
  by (subst nth_map) (simp_all add: pickRotated_def Let_def)

lemma rotation_inv_update:
  "rotation_inv rot \<Longrightarrow> key \<noteq> [] \<Longrightarrow> key \<in> set (keys (rot_cursors rot)) \<or> length (rot_cursors rot) < schedulerRotationMaxCursors
   \<Longrightarrow> rotation_inv \<lparr>rot_cursors = AList.update key cur (rot_cursors rot), rot_operations = n\<rparr>"
  by (auto simp: rotation_inv_def length_update)

lemma pickRotated_inv [inv_intros]:
  assumes "rotation_inv rot" "key \<noteq> []" "fair_iter (env_iter env)"
  shows "rotation_inv (snd (pickRotated env key cs rot))"
proof (cases "cs = []")
  case False
  let ?m = "rot_cursors rot"
  have m: "distinct (keys ?m)" "[] \<notin> set (keys ?m)" "length ?m \<le> schedulerRotationMaxCursors"
    using assms(1) by (auto simp: rotation_inv_def)
  define pruned where "pruned = (if key \<notin> set (keys ?m) \<and> schedulerRotationMaxCursors \<le> length ?m
      then pruneLocked env True ?m
      else if (rot_operations rot + 1) mod 256 = 0 then pruneLocked env False ?m else ?m)"
  have table: "set (keys pruned) \<subseteq> set (keys ?m)" "length pruned \<le> length ?m" "distinct (keys pruned)"
    using pruneLocked_table [of env _ ?m] m(1) by (simp_all add: pruned_def)
  have room: "key \<in> set (keys ?m) \<or> length pruned < schedulerRotationMaxCursors"
    using pruneLocked_room [OF m assms(3)] pruneLocked_table [of env False ?m]
    by (auto simp: pruned_def intro: le_less_trans)
  have "length (AList.update key cur pruned) \<le> schedulerRotationMaxCursors" for cur
  proof (cases "key \<in> set (keys pruned)")
    case False
    have "length pruned < length ?m" if "key \<in> set (keys ?m)"
    proof -
      have "set (keys pruned) \<subset> set (keys ?m)" using that False table(1) by blast
      then have "card (set (keys pruned)) < card (set (keys ?m))" by (simp add: psubset_card_mono)
      then show ?thesis by (simp only: distinct_card [OF m(1)] distinct_card [OF table(3)] length_map)
    qed
    with room m(3) have "length pruned < schedulerRotationMaxCursors" by (meson less_le_trans)
    with False show ?thesis by (simp add: length_update)
  qed (use table(2) m(3) in \<open>simp add: length_update\<close>)
  moreover have "[] \<notin> set (keys (AList.update key cur pruned))" for cur
    using assms(2) m(2) table(1) by auto
  moreover have "\<exists>cur. rot_cursors (snd (pickRotated env key cs rot)) = AList.update key cur pruned"
    using False unfolding pruned_def by (simp add: pickRotated_def Let_def) blast
  ultimately show ?thesis using table(3) by (fastforce simp: rotation_inv_def simp del: length_update)
qed (use assms in simp)

section \<open>Fairness\<close>

text \<open>A run of picks: each with its environment, its rotation key and its candidates.\<close>

type_synonym rotation_call = "sched_env \<times> string \<times> schedulerAuthCandidate list"

fun rotation_run :: "rotation_call list \<Rightarrow> schedulerRotationManager
    \<Rightarrow> schedulerAuthCandidate list \<times> schedulerRotationManager" where
  "rotation_run [] rot = ([], rot)"
| "rotation_run ((env, key, cs) # calls) rot =
     (let (c, rot') = pickRotated env key cs rot; (rest, rot'') = rotation_run calls rot'
      in (c # rest, rot''))"

text \<open>The answers to the calls of one key.\<close>

definition served_to :: "string \<Rightarrow> rotation_call list \<Rightarrow> schedulerRotationManager \<Rightarrow> schedulerAuthCandidate list" where
  "served_to key calls rot =
     map snd (filter (\<lambda>(call, c). fst (snd call) = key) (zip calls (fst (rotation_run calls rot))))"

lemma served_to_simps [simp]:
  "served_to key [] rot = []"
  "served_to key ((env, k, cs) # calls) rot =
     (if k = key then [fst (pickRotated env k cs rot)] else []) @ served_to key calls (snd (pickRotated env k cs rot))"
  by (simp_all add: served_to_def split_beta Let_def)

definition cursor_of :: "schedulerRotationManager \<Rightarrow> string \<Rightarrow> schedulerRotationCursor" where
  "cursor_of rot key = lookup_or \<lparr>cur_next = 0, cur_lastUsed = 0\<rparr> (rot_cursors rot) key"

lemma pickRotated_own:
  assumes "cs \<noteq> []"
  shows "map_of (rot_cursors (snd (pickRotated env key cs rot))) key =
     Some \<lparr>cur_next = cur_next (cursor_of rot key) + 1, cur_lastUsed = env_now env\<rparr>"
  using assms by (simp add: pickRotated_def Let_def cursor_of_def)

lemma pickRotated_length: "length (rot_cursors (snd (pickRotated env key cs rot))) \<le> Suc (length (rot_cursors rot))"
  using pruneLocked_table [of env _ "rot_cursors rot"]
  by (cases "cs = []") (simp_all add: pickRotated_def Let_def length_update le_SucI)

lemma pruneLocked_live:
  "map_of m k = Some cur \<Longrightarrow> env_now env - schedulerRotationCursorTTL < cur_lastUsed cur
   \<Longrightarrow> map_of (pruneLocked env False m) k = Some cur"
  by (simp add: pruneLocked_def split_beta Let_def prune_scan_live)

text \<open>A pick of another key keeps a cursor that is live, when the table has room.\<close>

lemma pickRotated_other:
  assumes "key \<noteq> k" and "map_of (rot_cursors rot) k = Some cur"
    and "env_now env - schedulerRotationCursorTTL < cur_lastUsed cur"
    and "length (rot_cursors rot) < schedulerRotationMaxCursors"
  shows "map_of (rot_cursors (snd (pickRotated env key cs rot))) k = Some cur"
  using assms pruneLocked_live [OF assms(2,3)]
  by (cases "cs = []") (simp_all add: pickRotated_def Let_def)

text \<open>
  The window of a run: every call falls within one cursor TTL of \<open>t\<close>, the calls of the key ask for
  the same candidates, and the key's cursor is fresh or was used in the window.
\<close>

definition rotation_window ::
  "int \<Rightarrow> string \<Rightarrow> schedulerAuthCandidate list \<Rightarrow> rotation_call list \<Rightarrow> schedulerRotationManager \<Rightarrow> bool" where
  "rotation_window t key own calls rot \<longleftrightarrow>
     list_all (\<lambda>(env, k, cs). t \<le> env_now env \<and> env_now env < t + schedulerRotationCursorTTL \<and> (k = key \<longrightarrow> cs = own)) calls
     \<and> own \<noteq> []
     \<and> length (rot_cursors rot) + length calls \<le> schedulerRotationMaxCursors
     \<and> unat (cur_next (cursor_of rot key)) + length calls < 2 ^ 64
     \<and> (case map_of (rot_cursors rot) key of None \<Rightarrow> True | Some cur \<Rightarrow> t \<le> cur_lastUsed cur)"

lemma pickRotated_other_None:
  assumes "key \<noteq> k" and "map_of (rot_cursors rot) k = None"
  shows "map_of (rot_cursors (snd (pickRotated env key cs rot))) k = None"
proof -
  have "map_of (pruneLocked env b (rot_cursors rot)) k = None" for b
    using assms(2) pruneLocked_table [of env b "rot_cursors rot"] by (auto simp only: map_of_None_keys)
  with assms show ?thesis by (cases "cs = []") (simp_all add: pickRotated_def Let_def)
qed

lemma rotation_window_step:
  assumes "rotation_window t key own ((env, k, cs) # calls) rot"
  shows "rotation_window t key own calls (snd (pickRotated env k cs rot))"
    and "unat (cur_next (cursor_of (snd (pickRotated env k cs rot)) key)) =
      (if k = key then Suc else id) (unat (cur_next (cursor_of rot key)))"
proof -
  let ?rot = "snd (pickRotated env k cs rot)"
  have w: "t \<le> env_now env" "env_now env < t + schedulerRotationCursorTTL" "k = key \<Longrightarrow> cs = own" "own \<noteq> []"
      "length (rot_cursors rot) < schedulerRotationMaxCursors"
      "unat (cur_next (cursor_of rot key)) + Suc (length calls) < 2 ^ 64"
    using assms by (auto simp: rotation_window_def)
  have len: "length (rot_cursors ?rot) + length calls \<le> schedulerRotationMaxCursors"
    using pickRotated_length [of env k cs rot] assms by (simp add: rotation_window_def)
  have other: "map_of (rot_cursors ?rot) key = map_of (rot_cursors rot) key" if "k \<noteq> key"
  proof (cases "map_of (rot_cursors rot) key")
    case None
    with that show ?thesis by (simp add: pickRotated_other_None)
  next
    case (Some cur)
    have "t \<le> cur_lastUsed cur" using assms Some by (simp add: rotation_window_def)
    with Some that w(1,2,5) show ?thesis by (simp add: pickRotated_other)
  qed
  show next1: "unat (cur_next (cursor_of ?rot key)) = (if k = key then Suc else id) (unat (cur_next (cursor_of rot key)))"
  proof (cases "k = key")
    case True
    have "unat (cur_next (cursor_of rot key) + 1) = Suc (unat (cur_next (cursor_of rot key)))"
      using w(6) by (simp add: unat_word_ariths)
    with True w(3,4) show ?thesis
      using pickRotated_own [of cs env key rot] by (simp add: cursor_of_def lookup_or_def)
  next
    case False
    with other show ?thesis by (simp add: cursor_of_def lookup_or_def)
  qed
  have "case map_of (rot_cursors ?rot) key of None \<Rightarrow> True | Some cur \<Rightarrow> t \<le> cur_lastUsed cur"
    using assms other w pickRotated_own [of cs env key rot]
    by (cases "k = key") (simp_all add: rotation_window_def)
  with assms len next1 show "rotation_window t key own calls ?rot"
    by (cases "k = key") (simp_all add: rotation_window_def)
qed

lemma rotation_run_serves:
  assumes "rotation_window t key own calls rot"
  shows "served_to key calls rot =
     map (\<lambda>i. highestPrioritySchedulerCandidates own !
                ((unat (cur_next (cursor_of rot key)) + i) mod length (highestPrioritySchedulerCandidates own)))
         [0..<length (filter (\<lambda>(_, k, _). k = key) calls)]"
  using assms
proof (induction calls arbitrary: rot)
  case Nil
  then show ?case by simp
next
  case (Cons call calls)
  obtain env k cs where call: "call = (env, k, cs)" by (cases call)
  note step = rotation_window_step [OF Cons.prems [unfolded call]]
  note IH = Cons.IH [OF step(1)]
  show ?case
  proof (cases "k = key")
    case True
    have cs: "cs = own" "own \<noteq> []" using Cons.prems True call by (auto simp: rotation_window_def)
    with True IH step(2) show ?thesis
      by (simp add: call pickRotated_chosen upt_conv_Cons map_Suc_upt [symmetric] flip: cursor_of_def del: upt_Suc)
  next
    case False
    with IH step(2) show ?thesis by (simp add: call)
  qed
qed

text \<open>Whole turns of a rotation are balanced.\<close>

lemma map_rotate_turn: "map (\<lambda>i. xs ! ((n + i) mod length xs)) [0..<length xs] = rotate n xs"
  by (rule nth_equalityI) (simp_all add: nth_rotate)

lemma mset_rotate: "mset (rotate n xs) = mset xs"
  unfolding rotate_drop_take by (metis append_take_drop_id mset_append union_commute)

lemma mset_turns: "mset (map (\<lambda>i. xs ! ((n + i) mod length xs)) [0..<q * length xs]) = repeat_mset q (mset xs)"
proof (induction q)
  case 0
  then show ?case by simp
next
  case (Suc q)
  have "[0..<Suc q * length xs] = [0..<q * length xs] @ map (\<lambda>i. q * length xs + i) [0..<length xs]"
    using upt_add_eq_append [of 0 "q * length xs" "length xs"] map_add_upt [of "q * length xs" "length xs"]
    by (simp add: add.commute)
  moreover have "(n + (q * length xs + i)) mod length xs = (n + i) mod length xs" for i
    by (metis add.assoc add.commute mod_mult_self1)
  ultimately have "mset (map (\<lambda>i. xs ! ((n + i) mod length xs)) [0..<Suc q * length xs])
      = repeat_mset q (mset xs) + mset (map (\<lambda>i. xs ! ((n + i) mod length xs)) [0..<length xs])"
    using Suc by (simp add: comp_def)
  also have "mset (map (\<lambda>i. xs ! ((n + i) mod length xs)) [0..<length xs]) = mset xs"
    by (simp only: map_rotate_turn mset_rotate)
  finally show ?case by (simp add: add.commute)
qed

section \<open>The chooser contract\<close>

text \<open>
  What every consumer of a pick relies on: the chosen candidate is one of those offered, and none
  of them has a higher priority.
\<close>

locale candidate_chooser =
  fixes choose_from :: "schedulerAuthCandidate list \<Rightarrow> 's \<Rightarrow> schedulerAuthCandidate \<times> 's"
  assumes chooses_top: "cs \<noteq> [] \<Longrightarrow> fst (choose_from cs s) \<in> set (highestPrioritySchedulerCandidates cs)"
begin

lemma chooses_offered: "cs \<noteq> [] \<Longrightarrow> fst (choose_from cs s) \<in> set cs"
  using chooses_top highest_subset by blast

lemma chooses_admissible: "filter P cs \<noteq> [] \<Longrightarrow> P (fst (choose_from (filter P cs) s))"
  using chooses_offered [of "filter P cs"] by auto

lemma chooses_priority: "c \<in> set cs \<Longrightarrow> c_Priority c \<le> c_Priority (fst (choose_from cs s))"
  using chooses_top [of cs s] by (cases "cs = []") (auto simp: set_highest)

end

lemma pickOrBind_mem:
  assumes "\<And>r. fst (chooser r) \<in> set cs"
  shows "fst (affinity_pickOrBind env key cs chooser (m, r)) \<in> set cs"
proof -
  have bound: "c \<in> set cs" if "bound_candidate env k cs m = Some c" for k c
    using that by (auto simp: bound_candidate_def split: option.splits if_splits dest: find_Some_mem)
  show ?thesis
    using assms [of r] by (auto simp: affinity_pickOrBind_def Let_def split_beta bound split: option.split)
qed

lemma pickRotated_top:
  assumes "cs \<noteq> []"
  shows "fst (pickRotated env key cs rot) \<in> set (highestPrioritySchedulerCandidates cs)"
  unfolding pickRotated_chosen [OF assms] by (rule nth_mem) (simp add: assms)

interpretation rotated: candidate_chooser "pickRotated env key" for env key
  by unfold_locales (rule pickRotated_top)

interpretation picked: candidate_chooser "rotation_pick env key" for env key
proof unfold_locales
  fix cs :: "schedulerAuthCandidate list" and s :: selection
  assume cs: "cs \<noteq> []"
  obtain m r where s: "s = (m, r)" by fastforce
  obtain rk ak where key: "splitSchedulerSelectionKey key = (rk, ak)" by fastforce
  have "fst (pickRotated env rk (highestPrioritySchedulerCandidates cs) r') \<in> set (highestPrioritySchedulerCandidates cs)" for r'
    by (rule rotated.chooses_offered) (simp add: cs)
  then show "fst (rotation_pick env key cs s) \<in> set (highestPrioritySchedulerCandidates cs)"
    unfolding rotation_pick_def key prod.case Let_def s by (rule pickOrBind_mem)
qed

interpretation selected: candidate_chooser "pickSchedulerCandidate env rotationKey affinityKey" for env rotationKey affinityKey
  by unfold_locales (simp add: pickSchedulerCandidate_def picked.chooses_top)

section \<open>Properties\<close>

text \<open>C40: The rotation is fair. In a run of picks of several rotation keys within one cursor TTL,
  while the cursor table has room and the 64-bit cursor does not wrap, the picks of one key that
  ask for the same candidates are answered by its top-priority candidates in the order of
  rotation identity, one after the other; so over any whole number of turns every one of them
  is served equally often, however the picks of other keys interleave.\<close>

theorem rotation_fair:
  assumes "rotation_window t key own calls rot"
    and "length (filter (\<lambda>(_, k, _). k = key) calls) = turns * length (highestPrioritySchedulerCandidates own)"
  shows "mset (served_to key calls rot) = repeat_mset turns (mset (highestPrioritySchedulerCandidates own))"
  unfolding rotation_run_serves [OF assms(1)] assms(2) by (rule mset_turns)

theorem rotation_fair_witness:
  "let a = example_candidate ''a''; b = example_candidate ''b''; key = ''codex'';
       rot = \<lparr>rot_cursors = [], rot_operations = 255\<rparr>
   in mset (served_to key [(example_env 5, key, [b, a]), (example_env 6, ''xai'', [a]), (example_env 7, key, [b, a])] rot)
      = {#a, b#}"
proof -
  let ?a = "example_candidate ''a''" and ?b = "example_candidate ''b''" and ?k = "''codex''"
  let ?rot = "\<lparr>rot_cursors = [], rot_operations = 255\<rparr>"
  let ?calls = "[(example_env 5, ?k, [?b, ?a]), (example_env 6, ''xai'', [?a]), (example_env 7, ?k, [?b, ?a])]"
  have top: "highestPrioritySchedulerCandidates [?b, ?a] = [?a, ?b]" by code_simp
  have "rotation_window 0 ?k [?b, ?a] ?calls ?rot"
    by (simp add: rotation_window_def cursor_of_def example_env_def schedulerRotationMaxCursors_def
        schedulerRotationCursorTTL_def)
  from rotation_fair [OF this, of 1] show ?thesis by (simp add: Let_def top)
qed

text \<open>The cursor table is bounded. After any number of picks from an empty rotation, for any
  non-blank rotation keys, at any times and in whatever order the runtime visits the table, it holds at
  most 1024 cursors with distinct keys: a pick of a new key on a full table first drops the
  expired cursors, or else the one used least recently.\<close>

theorem rotation_table_bounded:
  assumes "\<forall>(env, key, cs)\<in>set calls. key \<noteq> [] \<and> fair_iter (env_iter env)"
  shows "rotation_inv (snd (rotation_run calls \<lparr>rot_cursors = [], rot_operations = 0\<rparr>))"
proof -
  have "rotation_inv rot \<Longrightarrow> rotation_inv (snd (rotation_run calls rot))" for rot
    using assms
  proof (induction calls arbitrary: rot)
    case (Cons call calls)
    then show ?case by (cases call) (simp add: split_beta pickRotated_inv)
  qed simp
  then show ?thesis by (simp add: rotation_inv_def)
qed

theorem rotation_table_bounded_witness:
  "rotation_inv (snd (rotation_run [(example_env 5, ''codex'', [example_candidate ''b''])]
     \<lparr>rot_cursors = [], rot_operations = 0\<rparr>))"
  by (rule rotation_table_bounded) (simp add: fair_iter_def example_env_def)

end
