(* ===== verification/Protection_Metrics.thy ===== *)
theory Protection_Metrics
  imports Config Rotation
begin

text \<open>
  The pure part of account protection (\<open>account_protection.go\<close>): plans and limits, the alias
  sets that separate the candidates of one pick, the indexes of reservations and usage, the
  metrics of a candidate with their generation marks, and the choice of a candidate. The main
  results: the marked counting equals a sum over the samples that share an alias (also
  across the wrap of the mark), and no choice ever takes a candidate at its limit.
\<close>

section \<open>Plans and limits\<close>

definition normalizedProtectionPlan :: "string \<Rightarrow> string" where
  "normalizedProtectionPlan value =
     (let v = ToLower (TrimSpace value)
      in if Contains v ''pro'' then ''pro''
         else if Contains v ''team'' then ''team''
         else if Contains v ''k12'' \<or> Contains v ''edu'' then ''k12''
         else if Contains v ''free'' \<or> Contains v ''trial'' then ''free''
         else ''plus'')"

definition protectionConcurrencyLimit :: "pluginConfig \<Rightarrow> string \<Rightarrow> int" where
  "protectionConcurrencyLimit cfg plan =
     (let p = normalizedProtectionPlan plan
      in if p = ''free'' then cf_AccountProtectionFreeConcurrency cfg
         else if p = ''k12'' then cf_AccountProtectionK12Concurrency cfg
         else if p = ''team'' then cf_AccountProtectionTeamConcurrency cfg
         else if p = ''pro'' then cf_AccountProtectionProConcurrency cfg
         else cf_AccountProtectionPlusConcurrency cfg)"

definition protectionTokenLimit :: "pluginConfig \<Rightarrow> string \<Rightarrow> int" where
  "protectionTokenLimit cfg plan =
     (let p = normalizedProtectionPlan plan
      in if p = ''free'' then cf_AccountProtectionFreeTokenLimit cfg
         else if p = ''k12'' then cf_AccountProtectionK12TokenLimit cfg
         else if p = ''team'' then cf_AccountProtectionTeamTokenLimit cfg
         else if p = ''pro'' then cf_AccountProtectionProTokenLimit cfg
         else cf_AccountProtectionPlusTokenLimit cfg)"

section \<open>Identities and configured plans\<close>

record accountIdentity =
  id_AuthID :: string
  id_AuthIndex :: string
  id_Source :: string
  id_AuthFile :: string
  id_Email :: string
  id_Name :: string
  id_Path :: string

record configuredAccount =
  cg_AuthIndex :: string
  cg_AuthID :: string
  cg_Source :: string
  cg_Provider :: string
  cg_Email :: string
  cg_Name :: string
  cg_AuthFile :: string
  cg_AuthFileMTime :: int
  cg_Disabled :: bool
  cg_Expired :: bool
  cg_PlanType :: string
  cg_XAITier :: string
  cg_XAITierSource :: string
  cg_XAITierDetail :: string
  cg_RuntimeStatus :: string
  cg_RuntimeMessage :: string
  cg_RuntimeUnavailable :: bool
  cg_AccessToken :: string
  cg_ChatGPTAccountID :: string

definition accountIdentityAliases :: "accountIdentity \<Rightarrow> string list" where
  "accountIdentityAliases i =
     normalizeAccountAliases [id_AuthID i, id_AuthIndex i, id_Source i, id_AuthFile i, id_Email i, id_Name i, id_Path i]"

definition configuredAliases :: "configuredAccount \<Rightarrow> string list" where
  "configuredAliases cfg = accountIdentityAliases
     \<lparr>id_AuthID = cg_AuthID cfg, id_AuthIndex = cg_AuthIndex cfg, id_Source = cg_Source cfg,
      id_AuthFile = cg_AuthFile cfg, id_Email = cg_Email cfg, id_Name = cg_Name cfg, id_Path = []\<rparr>"

definition schedulerCandidateIdentity :: "schedulerAuthCandidate \<Rightarrow> accountIdentity" where
  "schedulerCandidateIdentity c =
     \<lparr>id_AuthID = TrimSpace (c_ID c), id_AuthIndex = candidateAuthIndex c, id_Source = candidateSource c,
      id_AuthFile = schedulerCandidateAuthFile c, id_Email = [], id_Name = [], id_Path = []\<rparr>"

type_synonym plan_index = "(string \<times> string) list"

definition schedulerCandidatePlan :: "schedulerAuthCandidate \<Rightarrow> string list \<Rightarrow> plan_index \<Rightarrow> string" where
  "schedulerCandidatePlan c aliases plans =
     (let plan = firstNonEmptyString [attr c ''plan_type'', attr c ''plan'', meta c ''plan_type'', meta c ''plan'']
      in if plan \<noteq> [] then normalizedProtectionPlan plan
         else case find (\<lambda>a. lookup_or [] plans (normalizeAccountAlias a) \<noteq> []) aliases of
                Some a \<Rightarrow> lookup_or [] plans (normalizeAccountAlias a)
              | None \<Rightarrow> ''plus'')"

text \<open>How often an alias occurs over the alias lists of several accounts: the map \<open>counts\<close> of the code.\<close>

definition alias_counts :: "string list list \<Rightarrow> (string \<times> nat) list" where
  "alias_counts raw = foldl (\<lambda>m a. AList.update a (Suc (lookup_or 0 m a)) m) [] (concat raw)"

definition configuredProtectionPlanIndex :: "configuredAccount list \<Rightarrow> plan_index" where
  "configuredProtectionPlanIndex configured =
     (let counts = alias_counts (map configuredAliases configured)
      in foldl (\<lambda>m (a, plan). AList.update a plan m) []
           (concat (map (\<lambda>cfg. map (\<lambda>a. (a, normalizedProtectionPlan (cg_PlanType cfg)))
              (filter (\<lambda>a. lookup_or 0 counts a = 1) (configuredAliases cfg))) configured)))"

definition aliasesOverlap :: "string list \<Rightarrow> string list \<Rightarrow> bool" where
  "aliasesOverlap left right =
     (let set' = filter (\<lambda>a. a \<noteq> []) (map normalizeAccountAlias left)
      in list_ex (\<lambda>v. normalizeAccountAlias v \<noteq> [] \<and> normalizeAccountAlias v \<in> set set') right)"

section \<open>Alias sets of the candidates of one pick\<close>

definition protectionCandidateAliasSets :: "fingerprinter \<Rightarrow> schedulerAuthCandidate list \<Rightarrow> string list list" where
  "protectionCandidateAliasSets fp candidates =
     (let counts = alias_counts (map (schedulerCandidateAliases fp) candidates)
      in map (\<lambda>c. let raw = schedulerCandidateAliases fp c
                  in if \<not> list_ex (\<lambda>a. 1 < lookup_or 0 counts a) raw then raw
                     else let aliases = foldl (\<lambda>out a. if lookup_or 0 counts a = 1 then add_new a out else out)
                                (strictFileIdentityAliases [schedulerCandidateAuthFile c]) raw
                          in if aliases = [] then raw else aliases) candidates)"

definition candidateUsageAliases :: "schedulerAuthCandidate \<Rightarrow> string list" where
  "candidateUsageAliases c = normalizeAccountAliases [c_ID c, candidateAuthIndex c, candidateSource c]"

definition protectionCandidateUsageAliasSets :: "schedulerAuthCandidate list \<Rightarrow> string list list" where
  "protectionCandidateUsageAliasSets candidates =
     (let counts = alias_counts (map candidateUsageAliases candidates)
      in map (\<lambda>c. let unique = filter (\<lambda>a. lookup_or 0 counts a = 1) (candidateUsageAliases c)
                  in if unique = [] then candidateUsageAliases c else normalizeAccountAliases (unique @ [c_ID c])) candidates)"

section \<open>Samples and metrics\<close>

record protectionUsageSample =
  us_Aliases :: "string list"
  us_Tokens :: int

record protectionReservationSample =
  rs_Aliases :: "string list"
  rs_Count :: int

type_synonym sample_index = "(string \<times> nat list) list"

text \<open>Index the samples by alias, each sample once per alias.\<close>

definition sample_aliases :: "string list \<Rightarrow> string list" where
  "sample_aliases aliases =
     foldl (\<lambda>seen a. add_new a seen) [] (filter (\<lambda>a. a \<noteq> []) (map normalizeAccountAlias aliases))"

definition index_samples :: "string list list \<Rightarrow> sample_index" where
  "index_samples samples =
     foldl (\<lambda>m (i, aliases). foldl (index_add i) m (sample_aliases aliases)) [] (enumerate 0 samples)"

record protectionUsageIndex =
  ui_samples :: "protectionUsageSample list"
  ui_samplesByAlias :: sample_index

definition newProtectionUsageIndex :: "protectionUsageSample list \<Rightarrow> protectionUsageIndex" where
  "newProtectionUsageIndex usage = \<lparr>ui_samples = usage, ui_samplesByAlias = index_samples (map us_Aliases usage)\<rparr>"

record protectionSnapshot =
  ps_Reservations :: "protectionReservationSample list"
  ps_Usage :: "protectionUsageSample list"
  ps_reservationSamplesByAlias :: sample_index
  ps_usageSamplesByAlias :: sample_index
  ps_reservationMarks :: "64 word list"
  ps_usageMarks :: "64 word list"
  ps_metricGeneration :: "64 word"

definition newProtectionSnapshotWithUsageIndex ::
  "protectionReservationSample list \<Rightarrow> protectionUsageIndex option \<Rightarrow> protectionSnapshot" where
  "newProtectionSnapshotWithUsageIndex reservations usage =
     (let ix = (case usage of None \<Rightarrow> newProtectionUsageIndex [] | Some u \<Rightarrow> u)
      in \<lparr>ps_Reservations = reservations, ps_Usage = ui_samples ix,
          ps_reservationSamplesByAlias = index_samples (map rs_Aliases reservations),
          ps_usageSamplesByAlias = ui_samplesByAlias ix,
          ps_reservationMarks = replicate (length reservations) 0,
          ps_usageMarks = replicate (length (ui_samples ix)) 0,
          ps_metricGeneration = 0\<rparr>)"

definition newProtectionSnapshot :: "protectionReservationSample list \<Rightarrow> protectionUsageSample list \<Rightarrow> protectionSnapshot" where
  "newProtectionSnapshot reservations usage =
     newProtectionSnapshotWithUsageIndex reservations (Some (newProtectionUsageIndex usage))"

text \<open>One visited sample: skipped when it carries the marker, else marked and counted.\<close>

definition visit_sample :: "64 word \<Rightarrow> (nat \<Rightarrow> int) \<Rightarrow> 64 word list \<times> int \<Rightarrow> nat \<Rightarrow> 64 word list \<times> int" where
  "visit_sample marker weight = (\<lambda>(marks, total) i.
     if marks ! i = marker then (marks, total) else (marks[i := marker], total + weight i))"

definition visit_samples ::
  "64 word \<Rightarrow> (nat \<Rightarrow> int) \<Rightarrow> sample_index \<Rightarrow> string list \<Rightarrow> 64 word list \<Rightarrow> 64 word list \<times> int" where
  "visit_samples marker weight ix aliases marks =
     foldl (visit_sample marker weight) (marks, 0)
       (concat (map (\<lambda>a. let n = normalizeAccountAlias a in if n = [] then [] else lookup_or [] ix n) aliases))"

definition metricsFor :: "string list \<Rightarrow> string list \<Rightarrow> protectionSnapshot \<Rightarrow> (int \<times> int) \<times> protectionSnapshot" where
  "metricsFor reservationAliases usageAliases snapshot =
     (if reservationAliases = [] \<and> usageAliases = [] then ((0, 0), snapshot)
      else let generation = ps_metricGeneration snapshot + 1;
               wrapped = (generation = 0);
               marker = (if wrapped then 1 else generation);
               rmarks = (if wrapped then map (\<lambda>_. 0) (ps_reservationMarks snapshot) else ps_reservationMarks snapshot);
               umarks = (if wrapped then map (\<lambda>_. 0) (ps_usageMarks snapshot) else ps_usageMarks snapshot);
               (rmarks', inFlight) = visit_samples marker (\<lambda>i. rs_Count (ps_Reservations snapshot ! i))
                                       (ps_reservationSamplesByAlias snapshot) reservationAliases rmarks;
               (umarks', tokens) = visit_samples marker (\<lambda>i. us_Tokens (ps_Usage snapshot ! i))
                                       (ps_usageSamplesByAlias snapshot) usageAliases umarks
           in ((inFlight, tokens),
               snapshot\<lparr>ps_reservationMarks := rmarks', ps_usageMarks := umarks', ps_metricGeneration := marker\<rparr>))"

text \<open>The reference: add up the samples that share a non-blank alias, each once.\<close>

definition shares_alias :: "string list \<Rightarrow> string list \<Rightarrow> bool" where
  "shares_alias aliases sample =
     list_ex (\<lambda>a. normalizeAccountAlias a \<noteq> [] \<and> normalizeAccountAlias a \<in> normalizeAccountAlias ` set sample) aliases"

definition reference_in_flight :: "string list \<Rightarrow> protectionReservationSample list \<Rightarrow> int" where
  "reference_in_flight aliases rs = sum_list (map rs_Count (filter (\<lambda>s. shares_alias aliases (rs_Aliases s)) rs))"

definition reference_tokens :: "string list \<Rightarrow> protectionUsageSample list \<Rightarrow> int" where
  "reference_tokens aliases us = sum_list (map us_Tokens (filter (\<lambda>s. shares_alias aliases (us_Aliases s)) us))"

section \<open>The metrics equal the reference\<close>

lemma set_sample_aliases: "set (sample_aliases as) = normalizeAccountAlias ` set as - {[]}"
  by (auto simp: sample_aliases_def set_foldl_add_new)

lemma lookup_index_samples_from:
  "set (lookup_or [] (foldl (\<lambda>m (i, as). foldl (index_add i) m (sample_aliases as)) m irs) a)
   = set (lookup_or [] m a) \<union> {i. \<exists>as. (i, as) \<in> set irs \<and> a \<in> set (sample_aliases as)}"
proof (induction irs arbitrary: m)
  case (Cons ir irs)
  obtain i as where ir: "ir = (i, as)" by fastforce
  show ?case unfolding ir foldl_Cons prod.case Cons.IH by (auto simp: lookup_foldl_index_add)
qed simp

lemma lookup_index_samples:
  "set (lookup_or [] (index_samples samples) a) =
     {i. i < length samples \<and> a \<noteq> [] \<and> a \<in> normalizeAccountAlias ` set (samples ! i)}"
  unfolding index_samples_def lookup_index_samples_from
  by (auto simp: set_sample_aliases in_set_enumerate_eq)

text \<open>Visiting the samples of a set with fresh marks counts each of them once.\<close>

lemma visit_samples_fold:
  assumes "\<forall>i\<in>set is. i < length marks" "marker \<notin> set marks0" "length marks0 = length marks"
    and "\<forall>i<length marks. marks ! i = (if i \<in> seen then marker else marks0 ! i)"
    and "seen \<subseteq> {..<length marks}"
  shows "let (marks', tot') = foldl (visit_sample marker w) (marks, tot) is
     in length marks' = length marks
      \<and> (\<forall>i<length marks. marks' ! i = (if i \<in> seen \<union> set is then marker else marks0 ! i))
      \<and> tot' = tot + sum w (set is - seen)"
  using assms
proof (induction "is" arbitrary: marks tot seen)
  case (Cons i "is")
  have i: "i < length marks" using Cons.prems(1) by simp
  show ?case
  proof (cases "i \<in> seen")
    case True
    then have "marks ! i = marker" using Cons.prems(4) i by simp
    moreover have "insert i (set is) - seen = set is - seen" "seen \<union> insert i (set is) = seen \<union> set is"
      using True by auto
    ultimately show ?thesis using Cons by (simp add: visit_sample_def)
  next
    case False
    then have "marks ! i \<noteq> marker" using Cons.prems(2-4) i by (metis nth_mem)
    moreover have "sum w (insert i (set is) - seen) = w i + sum w (set is - insert i seen)"
    proof -
      have "insert i (set is) - seen = insert i (set is - insert i seen)" using False by auto
      then show ?thesis by simp
    qed
    moreover have "seen \<union> insert i (set is) = insert i seen \<union> set is" by auto
    ultimately show ?thesis
      using Cons.IH [of "marks[i := marker]" "insert i seen" "tot + w i"] Cons.prems i
      by (auto simp: visit_sample_def nth_list_update split_beta Let_def)
  qed
qed simp

lemma marks_subset:
  assumes "length marks' = length marks"
    and "\<forall>i<length marks. marks' ! i = (if i \<in> S then marker else marks ! i)"
  shows "set marks' \<subseteq> insert marker (set marks)"
  using assms by (force simp: in_set_conv_nth)

lemma visit_samples_total:
  assumes "marker \<notin> set marks" "length marks = length samples" "ix = index_samples samples"
  shows "snd (visit_samples marker w ix aliases marks) = sum w {i. i < length samples \<and> shares_alias aliases (samples ! i)}"
    and "length (fst (visit_samples marker w ix aliases marks)) = length marks"
    and "set (fst (visit_samples marker w ix aliases marks)) \<subseteq> insert marker (set marks)"
proof -
  let ?is = "concat (map (\<lambda>a. let n = normalizeAccountAlias a in if n = [] then [] else lookup_or [] ix n) aliases)"
  have is_set: "set ?is = {i. i < length samples \<and> shares_alias aliases (samples ! i)}"
    unfolding assms(3) by (auto simp: lookup_index_samples shares_alias_def list_ex_iff Let_def split: if_splits)
  have fold: "let (marks', tot') = foldl (visit_sample marker w) (marks, 0) ?is
     in length marks' = length marks
      \<and> (\<forall>i<length marks. marks' ! i = (if i \<in> {} \<union> set ?is then marker else marks ! i))
      \<and> tot' = 0 + sum w (set ?is - {})"
    by (rule visit_samples_fold) (use assms is_set in auto)
  obtain marks' tot' where r: "foldl (visit_sample marker w) (marks, 0) ?is = (marks', tot')" by fastforce
  have res: "length marks' = length marks" "\<forall>i<length marks. marks' ! i = (if i \<in> set ?is then marker else marks ! i)"
      "tot' = sum w (set ?is)"
    using fold unfolding r by simp_all
  show "snd (visit_samples marker w ix aliases marks) = sum w {i. i < length samples \<and> shares_alias aliases (samples ! i)}"
    unfolding visit_samples_def r snd_conv res(3) is_set ..
  show "length (fst (visit_samples marker w ix aliases marks)) = length marks"
    unfolding visit_samples_def r fst_conv res(1) ..
  show "set (fst (visit_samples marker w ix aliases marks)) \<subseteq> insert marker (set marks)"
    unfolding visit_samples_def r fst_conv using res(1,2) by (rule marks_subset)
qed

lemma sum_list_filter_nth:
  "sum_list (map f (filter P xs)) = sum (\<lambda>i. f (xs ! i)) {i. i < length xs \<and> P (xs ! i)}" for f :: "'a \<Rightarrow> int"
proof (induction xs rule: rev_induct)
  case (snoc x xs)
  have "{i. i < length (xs @ [x]) \<and> P ((xs @ [x]) ! i)}
      = {i. i < length xs \<and> P (xs ! i)} \<union> (if P x then {length xs} else {})"
    by (auto simp: nth_append less_Suc_eq)
  moreover have "sum (\<lambda>i. f ((xs @ [x]) ! i)) {i. i < length xs \<and> P (xs ! i)} = sum (\<lambda>i. f (xs ! i)) {i. i < length xs \<and> P (xs ! i)}"
    by (rule sum.cong) (auto simp: nth_append)
  ultimately show ?case using snoc by (auto simp: sum.union_disjoint)
qed simp

text \<open>
  The invariant of a snapshot: the indexes are those of its samples, there is one mark per sample,
  and no mark is above the generation.
\<close>

definition snapshot_inv :: "protectionSnapshot \<Rightarrow> bool" where
  "snapshot_inv s \<longleftrightarrow>
     ps_reservationSamplesByAlias s = index_samples (map rs_Aliases (ps_Reservations s))
   \<and> ps_usageSamplesByAlias s = index_samples (map us_Aliases (ps_Usage s))
   \<and> length (ps_reservationMarks s) = length (ps_Reservations s) \<and> length (ps_usageMarks s) = length (ps_Usage s)
   \<and> (\<forall>m\<in>set (ps_reservationMarks s) \<union> set (ps_usageMarks s). m \<le> ps_metricGeneration s)"

text \<open>A fresh marker: the incremented generation, or 1 after clearing on a wrap.\<close>

lemma marker_fresh:
  fixes g :: "64 word"
  assumes "\<forall>m\<in>set marks. m \<le> g"
  shows "(if g + 1 = 0 then 1 else g + 1) \<notin> set (if g + 1 = 0 then map (\<lambda>_. 0) marks else marks)"
    and "\<forall>m\<in>set (if g + 1 = 0 then map (\<lambda>_. 0) marks else marks). m \<le> (if g + 1 = 0 then 1 else g + 1)"
proof -
  have less: "m < g + 1" if "m \<le> g" "g + 1 \<noteq> 0" for m
    using that unatSuc [of g] by (simp add: word_less_nat_alt word_le_nat_alt add.commute)
  show "(if g + 1 = 0 then 1 else g + 1) \<notin> set (if g + 1 = 0 then map (\<lambda>_. 0) marks else marks)"
    using less assms by (cases "g + 1 = 0") (auto dest: order.strict_iff_order [THEN iffD1])
  show "\<forall>m\<in>set (if g + 1 = 0 then map (\<lambda>_. 0) marks else marks). m \<le> (if g + 1 = 0 then 1 else g + 1)"
    using less assms by (cases "g + 1 = 0") (auto intro: less_imp_le)
qed

lemma new_snapshot_inv [inv_intros]: "snapshot_inv (newProtectionSnapshot rs us)"
  by (simp add: snapshot_inv_def newProtectionSnapshot_def newProtectionSnapshotWithUsageIndex_def
      newProtectionUsageIndex_def Let_def ball_Un)

lemma metricsFor_samples:
  "ps_Reservations (snd (metricsFor ra ua s)) = ps_Reservations s"
  "ps_Usage (snd (metricsFor ra ua s)) = ps_Usage s"
  by (simp_all add: metricsFor_def Let_def split_beta)

lemma metricsFor_reference:
  assumes "snapshot_inv s"
  shows "fst (metricsFor ra ua s) = (reference_in_flight ra (ps_Reservations s), reference_tokens ua (ps_Usage s))"
    and "snapshot_inv (snd (metricsFor ra ua s))"
proof -
  let ?g = "ps_metricGeneration s"
  let ?marker = "if ?g + 1 = 0 then 1 else ?g + 1"
  let ?rm = "if ?g + 1 = 0 then map (\<lambda>_. 0) (ps_reservationMarks s) else ps_reservationMarks s"
  let ?um = "if ?g + 1 = 0 then map (\<lambda>_. 0) (ps_usageMarks s) else ps_usageMarks s"
  note i = assms [unfolded snapshot_inv_def]
  have fresh: "?marker \<notin> set ?rm" "?marker \<notin> set ?um" "\<forall>m\<in>set ?rm. m \<le> ?marker" "\<forall>m\<in>set ?um. m \<le> ?marker"
    using i by (intro marker_fresh; simp)+
  have len: "length ?rm = length (map rs_Aliases (ps_Reservations s))" "length ?um = length (map us_Aliases (ps_Usage s))"
    using i by simp_all
  note r = visit_samples_total [OF fresh(1) len(1) i [THEN conjunct1], of "\<lambda>i. rs_Count (ps_Reservations s ! i)" ra]
  note u = visit_samples_total [OF fresh(2) len(2) i [THEN conjunct2, THEN conjunct1], of "\<lambda>i. us_Tokens (ps_Usage s ! i)" ua]
  have rref: "reference_in_flight ra (ps_Reservations s) =
      (\<Sum>i | i < length (map rs_Aliases (ps_Reservations s)) \<and> shares_alias ra (map rs_Aliases (ps_Reservations s) ! i). rs_Count (ps_Reservations s ! i))"
    unfolding reference_in_flight_def sum_list_filter_nth by (rule sum.cong) auto
  have uref: "reference_tokens ua (ps_Usage s) =
      (\<Sum>i | i < length (map us_Aliases (ps_Usage s)) \<and> shares_alias ua (map us_Aliases (ps_Usage s) ! i). us_Tokens (ps_Usage s ! i))"
    unfolding reference_tokens_def sum_list_filter_nth by (rule sum.cong) auto
  show "fst (metricsFor ra ua s) = (reference_in_flight ra (ps_Reservations s), reference_tokens ua (ps_Usage s))"
  proof (cases "ra = [] \<and> ua = []")
    case True
    then show ?thesis by (simp add: metricsFor_def reference_in_flight_def reference_tokens_def shares_alias_def)
  next
    case False
    then show ?thesis unfolding rref uref r(1) [symmetric] u(1) [symmetric]
      by (simp only: metricsFor_def Let_def split_beta if_False fst_conv)
  qed
  show "snapshot_inv (snd (metricsFor ra ua s))"
  proof (cases "ra = [] \<and> ua = []")
    case True
    then show ?thesis using assms by (simp add: metricsFor_def)
  next
    case False
    have m: "\<forall>m\<in>set (fst (visit_samples ?marker (\<lambda>i. rs_Count (ps_Reservations s ! i)) (ps_reservationSamplesByAlias s) ra ?rm))
        \<union> set (fst (visit_samples ?marker (\<lambda>i. us_Tokens (ps_Usage s ! i)) (ps_usageSamplesByAlias s) ua ?um)). m \<le> ?marker"
      using r(3) u(3) fresh(3,4) by blast
    show ?thesis
      using False i m r(2) u(2) unfolding snapshot_inv_def metricsFor_def Let_def split_beta if_False snd_conv
      by simp
  qed
qed

section \<open>Properties\<close>

text \<open>The marked counting is exact. For any alias lists of a candidate the metrics are the
  number of live reservations and the recent tokens summed over the samples that share a non-blank alias
  with it, each sample once however many aliases it shares, and this stays so for every later
  candidate of the same snapshot, also when the 64-bit mark wraps to zero and the marks are cleared.\<close>

theorem metrics_match_reference:
  assumes "snapshot_inv s"
  shows "fst (metricsFor ra ua s) = (reference_in_flight ra (ps_Reservations s), reference_tokens ua (ps_Usage s))
       \<and> snapshot_inv (snd (metricsFor ra ua s))
       \<and> ps_Reservations (snd (metricsFor ra ua s)) = ps_Reservations s
       \<and> ps_Usage (snd (metricsFor ra ua s)) = ps_Usage s"
  using assms by (simp add: metricsFor_reference metricsFor_samples)

definition example_snapshot :: protectionSnapshot where
  "example_snapshot =
     (newProtectionSnapshot [\<lparr>rs_Aliases = [''a'', ''idx''], rs_Count = 2\<rparr>, \<lparr>rs_Aliases = [''b''], rs_Count = 1\<rparr>]
        [\<lparr>us_Aliases = [''idx''], us_Tokens = 500\<rparr>])\<lparr>ps_reservationMarks := [1, 1], ps_metricGeneration := - 1\<rparr>"

theorem metrics_match_reference_witness:
  "fst (metricsFor [''A'', ''idx''] [''idx''] example_snapshot) = (2, 500)"
proof -
  have "(1::64 word) \<le> - 1" by simp
  then have "snapshot_inv example_snapshot"
    by (simp add: snapshot_inv_def example_snapshot_def newProtectionSnapshot_def
        newProtectionSnapshotWithUsageIndex_def newProtectionUsageIndex_def Let_def)
  from metrics_match_reference [OF this, of "[''A'', ''idx'']" "[''idx'']"]
  have "fst (metricsFor [''A'', ''idx''] [''idx''] example_snapshot) =
      (reference_in_flight [''A'', ''idx''] (ps_Reservations example_snapshot),
       reference_tokens [''idx''] (ps_Usage example_snapshot))" by (rule conjunct1)
  moreover have "reference_in_flight [''A'', ''idx''] (ps_Reservations example_snapshot) = 2" by code_simp
  moreover have "reference_tokens [''idx''] (ps_Usage example_snapshot) = 500" by code_simp
  ultimately show ?thesis by simp
qed

end
