(* ===== verification/Protection_Choice.thy ===== *)
theory Protection_Choice
  imports Protection_Metrics
begin

text \<open>
  The choice among protected candidates (\<open>chooseProtectedCandidate\<close> and its helpers in
  \<open>account_protection.go\<close>): the session's account first, then the candidates under both limits, then
  those over the soft token threshold, and a saturation error when every candidate is at its hard
  concurrency limit. The lemmas: a choice is always below its limit and of the right tier, it fails
  exactly on saturation, and the cursor suffixes of the two tiers have no effect in a session.
\<close>

section \<open>Candidates with their limits\<close>

record protectionCandidate =
  pc_Candidate :: schedulerAuthCandidate
  pc_Aliases :: "string list"
  pc_AuthID :: string
  pc_AuthIndex :: string
  pc_Source :: string
  pc_PlanType :: string
  pc_InFlight :: int
  pc_Limit :: int
  pc_Tokens :: int
  pc_Threshold :: int

definition protectionCandidateFor ::
  "fingerprinter \<Rightarrow> schedulerAuthCandidate \<Rightarrow> pluginConfig \<Rightarrow> plan_index \<Rightarrow> string list \<Rightarrow> protectionCandidate" where
  "protectionCandidateFor fp candidate cfg configuredPlans aliases0 =
     (let identity = schedulerCandidateIdentity candidate;
          aliases = (if aliases0 = [] then schedulerCandidateAliases fp candidate else aliases0);
          plan = schedulerCandidatePlan candidate aliases configuredPlans
      in \<lparr>pc_Candidate = candidate, pc_Aliases = aliases, pc_AuthID = id_AuthID identity,
          pc_AuthIndex = (if id_AuthIndex identity = [] then id_AuthID identity else id_AuthIndex identity),
          pc_Source = id_Source identity, pc_PlanType = plan, pc_InFlight = 0,
          pc_Limit = protectionConcurrencyLimit cfg plan, pc_Tokens = 0,
          pc_Threshold = protectionTokenLimit cfg plan\<rparr>)"

definition below_limit :: "protectionCandidate \<Rightarrow> bool" where
  "below_limit state \<longleftrightarrow> pc_InFlight state < pc_Limit state"

definition demoted :: "protectionCandidate \<Rightarrow> bool" where
  "demoted state \<longleftrightarrow> 0 < pc_Threshold state \<and> pc_Threshold state \<le> pc_Tokens state"

definition highestAvailableProtectionPriority :: "protectionCandidate list \<Rightarrow> int option" where
  "highestAvailableProtectionPriority states =
     foldl (\<lambda>best state. if pc_Limit state \<le> pc_InFlight state then best
                       else case best of None \<Rightarrow> Some (c_Priority (pc_Candidate state))
                            | Some h \<Rightarrow> if h < c_Priority (pc_Candidate state) then Some (c_Priority (pc_Candidate state)) else Some h)
       None states"

type_synonym identity_index = "(string \<times> protectionCandidate) list"

definition add_state ::
  "schedulerAuthCandidate list \<times> identity_index \<Rightarrow> protectionCandidate \<Rightarrow> schedulerAuthCandidate list \<times> identity_index" where
  "add_state = (\<lambda>(cs, ix) state.
     let identity = schedulerCandidateRotationIdentity (pc_Candidate state)
     in if identity \<in> set (keys ix) then (cs, ix)
        else (cs @ [pc_Candidate state], AList.update identity state ix))"

definition protectionSelectionCandidates ::
  "protectionCandidate list \<Rightarrow> schedulerAuthCandidate list \<times> identity_index" where
  "protectionSelectionCandidates states = foldl add_state ([], []) states"

definition no_state :: protectionCandidate where
  "no_state = \<lparr>pc_Candidate = no_candidate, pc_Aliases = [], pc_AuthID = [], pc_AuthIndex = [], pc_Source = [],
     pc_PlanType = [], pc_InFlight = 0, pc_Limit = 0, pc_Tokens = 0, pc_Threshold = 0\<rparr>"

section \<open>The choice\<close>

definition boundProtectedCandidate ::
  "sched_env \<Rightarrow> protectionCandidate list \<Rightarrow> string \<Rightarrow> bindings \<Rightarrow> protectionCandidate option \<times> bindings" where
  "boundProtectedCandidate env states affinityKey m =
     (let (candidates, byIdentity) = protectionSelectionCandidates states;
          (chosen, m') = affinity_pick env affinityKey candidates m
      in (case chosen of None \<Rightarrow> None | Some c \<Rightarrow> map_of byIdentity (schedulerCandidateRotationIdentity c), m'))"

definition rotateProtectedCandidate ::
  "sched_env \<Rightarrow> protectionCandidate list \<Rightarrow> string \<Rightarrow> string list \<Rightarrow> selection \<Rightarrow> protectionCandidate \<times> selection" where
  "rotateProtectedCandidate env states rotationKey affinityKeys s =
     (let (candidates, byIdentity) = protectionSelectionCandidates states;
          (chosen, s') = pickSchedulerCandidate env rotationKey (firstNonEmptyString affinityKeys) candidates s
      in (lookup_or no_state byIdentity (schedulerCandidateRotationIdentity chosen), s'))"

definition saturated_error :: pick_error where
  "saturated_error = unavailable ''account_protection_saturated''
     ''all Codex auth candidates are at their configured concurrency limit; retry after an in-flight request completes''"

text \<open>The session's account is kept only when no other available candidate outranks it.\<close>

definition keeps_bound :: "protectionCandidate list \<Rightarrow> protectionCandidate \<Rightarrow> bool" where
  "keeps_bound states b \<longleftrightarrow> below_limit b \<and>
     (case highestAvailableProtectionPriority states of None \<Rightarrow> True | Some h \<Rightarrow> c_Priority (pc_Candidate b) = h)"

text \<open>The two tiers of the rotation: the candidates below both limits, then those below the hard limit.\<close>

definition choose_tiers ::
  "sched_env \<Rightarrow> protectionCandidate list \<Rightarrow> string \<Rightarrow> string \<Rightarrow> selection
   \<Rightarrow> (pick_error, protectionCandidate) result \<times> selection" where
  "choose_tiers env states rotationKey affinityKey s =
     (let eligible = filter (\<lambda>x. below_limit x \<and> \<not> demoted x) states
      in if eligible \<noteq> []
         then map_prod Inr id (rotateProtectedCandidate env eligible (rotationKey @ CHR 0x00 # ''normal'') [affinityKey] s)
         else if filter below_limit states \<noteq> []
         then map_prod Inr id (rotateProtectedCandidate env (filter below_limit states) (rotationKey @ CHR 0x00 # ''demoted'') [affinityKey] s)
         else (Inl saturated_error, s))"

definition chooseProtectedCandidate ::
  "sched_env \<Rightarrow> protectionCandidate list \<Rightarrow> string \<Rightarrow> string list \<Rightarrow> selection
   \<Rightarrow> (pick_error, protectionCandidate) result \<times> selection" where
  "chooseProtectedCandidate env states rotationKey affinityKeys = (\<lambda>(m, r).
     let affinityKey = firstNonEmptyString affinityKeys;
         (b, m1) = boundProtectedCandidate env states affinityKey m
     in case b of
          None \<Rightarrow> choose_tiers env states rotationKey affinityKey (m1, r)
        | Some state \<Rightarrow> if keeps_bound states state then (Inr state, (m1, r))
                        else choose_tiers env states rotationKey affinityKey (m1, r))"

section \<open>Lemmas\<close>

text \<open>The selection candidates are the candidates of the states, one per rotation identity.\<close>

definition selection_ok :: "protectionCandidate list \<Rightarrow> schedulerAuthCandidate list \<times> identity_index \<Rightarrow> bool" where
  "selection_ok states = (\<lambda>(cs, ix). distinct (keys ix)
     \<and> (\<forall>(i, x)\<in>set ix. x \<in> set states \<and> i = schedulerCandidateRotationIdentity (pc_Candidate x) \<and> pc_Candidate x \<in> set cs)
     \<and> (\<forall>c\<in>set cs. \<exists>x. (schedulerCandidateRotationIdentity c, x) \<in> set ix \<and> pc_Candidate x = c))"

lemma add_state_cases:
  obtains (present) "schedulerCandidateRotationIdentity (pc_Candidate x) \<in> set (keys (snd s))" "add_state s x = s"
  | (new) "schedulerCandidateRotationIdentity (pc_Candidate x) \<notin> set (keys (snd s))"
      "add_state s x = (fst s @ [pc_Candidate x], snd s @ [(schedulerCandidateRotationIdentity (pc_Candidate x), x)])"
  by (cases "schedulerCandidateRotationIdentity (pc_Candidate x) \<in> set (keys (snd s))")
    (simp_all add: add_state_def split_beta Let_def update_absent)

lemma selection_ok_add: 
  assumes "selection_ok states s" "x \<in> set states"
  shows "selection_ok states (add_state s x)"
proof (rule add_state_cases [of x s])
  let ?i = "schedulerCandidateRotationIdentity"
  assume new: "?i (pc_Candidate x) \<notin> set (keys (snd s))"
    "add_state s x = (fst s @ [pc_Candidate x], snd s @ [(?i (pc_Candidate x), x)])"
  with assms show ?thesis
    unfolding new(2) selection_ok_def split_beta fst_conv snd_conv by auto
qed (use assms in simp)

lemma selection_ok_states: "selection_ok states (protectionSelectionCandidates states)"
proof -
  have "set xs \<subseteq> set states \<Longrightarrow> selection_ok states s \<Longrightarrow> selection_ok states (foldl add_state s xs)" for xs s
    by (induction xs arbitrary: s) (auto simp: selection_ok_add)
  then show ?thesis by (simp add: protectionSelectionCandidates_def selection_ok_def)
qed

lemma selection_lookup:
  assumes "protectionSelectionCandidates states = (cs, ix)" "c \<in> set cs"
  shows "\<exists>x\<in>set states. map_of ix (schedulerCandidateRotationIdentity c) = Some x \<and> pc_Candidate x = c"
proof -
  obtain x where x: "(schedulerCandidateRotationIdentity c, x) \<in> set ix" "pc_Candidate x = c"
    using selection_ok_states [of states] assms by (auto simp: selection_ok_def)
  moreover have "map_of ix (schedulerCandidateRotationIdentity c) = Some x" "x \<in> set states"
    using selection_ok_states [of states] assms(1) x(1) by (auto simp: selection_ok_def intro: map_of_is_SomeI)
  ultimately show ?thesis by blast
qed

lemma selection_not_Nil: "states \<noteq> [] \<Longrightarrow> fst (protectionSelectionCandidates states) \<noteq> []"
proof -
  have grow: "fst s \<noteq> [] \<Longrightarrow> fst (foldl add_state s xs) \<noteq> []" for xs s
  proof (induction xs arbitrary: s)
    case (Cons x xs)
    then show ?case by (cases rule: add_state_cases [of x s]) simp_all
  qed simp
  show "states \<noteq> [] \<Longrightarrow> fst (protectionSelectionCandidates states) \<noteq> []"
    unfolding protectionSelectionCandidates_def
    by (cases states) (simp_all only: foldl_Cons, rule grow, simp add: add_state_def)
qed

text \<open>Every identity of the states is represented, by the first state that has it.\<close>

lemma selection_covers:
  "x \<in> set states \<Longrightarrow> \<exists>c\<in>set (fst (protectionSelectionCandidates states)).
     schedulerCandidateRotationIdentity c = schedulerCandidateRotationIdentity (pc_Candidate x)"
proof -
  let ?covered = "\<lambda>s y. \<exists>c\<in>set (fst s). schedulerCandidateRotationIdentity c = schedulerCandidateRotationIdentity (pc_Candidate y)"
  have keep: "?covered s y \<Longrightarrow> ?covered (add_state s z) y" for s y z
    by (cases rule: add_state_cases [of z s]) auto
  have new: "selection_ok states s \<Longrightarrow> ?covered (add_state s z) z" for s z
  proof (cases rule: add_state_cases [of z s])
    case present
    assume ok: "selection_ok states s"
    obtain y where "(schedulerCandidateRotationIdentity (pc_Candidate z), y) \<in> set (snd s)" using present(1) by auto
    with ok present(2) show ?thesis by (auto simp: selection_ok_def split_beta intro!: bexI [of _ "pc_Candidate y"])
  qed simp
  have "set xs \<subseteq> set states \<Longrightarrow> selection_ok states s \<Longrightarrow> x \<in> set xs \<or> ?covered s x \<Longrightarrow> ?covered (foldl add_state s xs) x" for xs s
  proof (induction xs arbitrary: s)
    case (Cons z xs)
    have "x = z \<or> x \<in> set xs \<or> ?covered s x" using Cons.prems(3) by auto
    then have "x \<in> set xs \<or> ?covered (add_state s z) x" using keep [of s x z] new [of s z] Cons.prems(2) by blast
    then show ?case using Cons.IH [of "add_state s z"] Cons.prems by (simp add: selection_ok_add)
  qed simp
  then show "x \<in> set states \<Longrightarrow> ?covered (protectionSelectionCandidates states) x"
    by (simp add: protectionSelectionCandidates_def selection_ok_def)
qed

lemma rotated_state:
  assumes "states \<noteq> []"
  shows "fst (rotateProtectedCandidate env states rk aks s) \<in> set states"
    and "\<forall>c\<in>set (fst (protectionSelectionCandidates states)).
           c_Priority c \<le> c_Priority (pc_Candidate (fst (rotateProtectedCandidate env states rk aks s)))"
proof -
  obtain cs ix where sel: "protectionSelectionCandidates states = (cs, ix)" by fastforce
  have cs: "cs \<noteq> []" using selection_not_Nil [OF assms] sel by simp
  let ?c = "fst (pickSchedulerCandidate env rk (firstNonEmptyString aks) cs s)"
  have mem: "?c \<in> set cs" using cs by (rule selected.chooses_offered)
  obtain x where x: "x \<in> set states" "map_of ix (schedulerCandidateRotationIdentity ?c) = Some x" "pc_Candidate x = ?c"
    using selection_lookup [OF sel mem] by blast
  have r: "fst (rotateProtectedCandidate env states rk aks s) = x"
    using x(2) by (simp add: rotateProtectedCandidate_def sel split_beta Let_def lookup_or_def)
  show "fst (rotateProtectedCandidate env states rk aks s) \<in> set states" using r x(1) by simp
  show "\<forall>c\<in>set (fst (protectionSelectionCandidates states)).
           c_Priority c \<le> c_Priority (pc_Candidate (fst (rotateProtectedCandidate env states rk aks s)))"
    unfolding r x(3) sel fst_conv by (auto intro: selected.chooses_priority)
qed

lemma bound_state:
  assumes "fst (boundProtectedCandidate env states key m) = Some x"
  shows "x \<in> set states"
proof -
  obtain cs ix where sel: "protectionSelectionCandidates states = (cs, ix)" by fastforce
  obtain i where "map_of ix i = Some x"
    using assms by (auto simp: boundProtectedCandidate_def sel split_beta Let_def split: option.splits)
  then have "(i, x) \<in> set ix" by (rule map_of_SomeD)
  then show ?thesis using selection_ok_states [of states] sel by (auto simp: selection_ok_def)
qed

lemma highestAvailable_spec:
  "highestAvailableProtectionPriority states =
     (let ps = map (\<lambda>x. c_Priority (pc_Candidate x)) (filter below_limit states)
      in if ps = [] then None else Some (Max (set ps)))"
proof (induction states rule: rev_induct)
  case (snoc x xs)
  have step: "highestAvailableProtectionPriority (xs @ [x]) =
     (if pc_Limit x \<le> pc_InFlight x then highestAvailableProtectionPriority xs
      else case highestAvailableProtectionPriority xs of None \<Rightarrow> Some (c_Priority (pc_Candidate x))
        | Some h \<Rightarrow> if h < c_Priority (pc_Candidate x) then Some (c_Priority (pc_Candidate x)) else Some h)"
    by (simp add: highestAvailableProtectionPriority_def)
  let ?ps = "\<lambda>xs. map (\<lambda>x. c_Priority (pc_Candidate x)) (filter below_limit xs)"
  show ?case
  proof (cases "below_limit x")
    case True
    then have "\<not> pc_Limit x \<le> pc_InFlight x" by (simp add: below_limit_def)
    moreover have "?ps (xs @ [x]) = ?ps xs @ [c_Priority (pc_Candidate x)]" using True by simp
    moreover have "Max (set (qs @ [q])) = max q (Max (set qs))" if "qs \<noteq> []" for qs and q :: int
      using that by simp
    moreover have "max a b = (if b < a then a else b)" for a b :: int by (simp add: max_def)
    ultimately show ?thesis unfolding step snoc Let_def
      by (cases "?ps xs = []") (simp_all del: filter_empty_conv map_append filter_append Max_insert set_append Max_less_iff)
  next
    case False
    then have "pc_Limit x \<le> pc_InFlight x" by (simp add: below_limit_def)
    with False show ?thesis unfolding step snoc by simp
  qed
qed (simp add: highestAvailableProtectionPriority_def)

lemma choose_tiers_within:
  assumes "fst (choose_tiers env states rk ak s) = Inr x"
  shows "x \<in> set states \<and> below_limit x"
proof -
  have tier: "fst (rotateProtectedCandidate env (filter P states) rk' aks s) \<in> set (filter P states)"
    if "filter P states \<noteq> []" for P rk' aks
    using that by (rule rotated_state(1))
  show ?thesis
    using assms tier [of "\<lambda>x. below_limit x \<and> \<not> demoted x" "rk @ CHR 0x00 # ''normal''" "[ak]"]
      tier [of below_limit "rk @ CHR 0x00 # ''demoted''" "[ak]"]
    unfolding choose_tiers_def Let_def set_filter
    by (simp only: fst_map_prod fst_conv sum.inject sum.distinct split: if_splits) blast+
qed

lemma choose_tiers_error: "isl (fst (choose_tiers env states rk ak s)) \<longleftrightarrow> (\<forall>x\<in>set states. \<not> below_limit x)"
  by (auto simp: choose_tiers_def Let_def filter_empty_conv)

lemma choose_cases:
  obtains (kept) x where "fst (boundProtectedCandidate env states (firstNonEmptyString aks) m) = Some x" "keeps_bound states x"
      "fst (chooseProtectedCandidate env states rk aks (m, r)) = Inr x"
  | (tiers) m' where
      "chooseProtectedCandidate env states rk aks (m, r) = choose_tiers env states rk (firstNonEmptyString aks) (m', r)"
      "\<And>x. fst (boundProtectedCandidate env states (firstNonEmptyString aks) m) = Some x \<Longrightarrow> \<not> keeps_bound states x"
proof (cases "fst (boundProtectedCandidate env states (firstNonEmptyString aks) m)")
  case None
  then show ?thesis using tiers [of "snd (boundProtectedCandidate env states (firstNonEmptyString aks) m)"]
    by (simp add: chooseProtectedCandidate_def split_beta Let_def)
next
  case (Some x)
  then show ?thesis using kept [of x] tiers [of "snd (boundProtectedCandidate env states (firstNonEmptyString aks) m)"]
    by (cases "keeps_bound states x") (simp_all add: chooseProtectedCandidate_def split_beta Let_def)
qed

lemma choose_within:
  assumes "fst (chooseProtectedCandidate env states rk aks s) = Inr x"
  shows "x \<in> set states \<and> below_limit x"
proof -
  obtain m r where s: "s = (m, r)" by fastforce
  show ?thesis
  proof (cases rule: choose_cases [of env states aks m rk r])
    case (kept y)
    with assms s show ?thesis using bound_state [OF kept(1)] by (simp add: keeps_bound_def)
  next
    case (tiers m')
    then show ?thesis using assms s choose_tiers_within by metis
  qed
qed

lemma choose_fails:
  "isl (fst (chooseProtectedCandidate env states rk aks s)) \<longleftrightarrow> (\<forall>x\<in>set states. \<not> below_limit x)"
proof -
  obtain m r where s: "s = (m, r)" by fastforce
  show ?thesis
  proof (cases rule: choose_cases [of env states aks m rk r])
    case (kept y)
    with s show ?thesis using bound_state [OF kept(1)] by (auto simp: keeps_bound_def)
  next
    case (tiers m')
    then show ?thesis using s by (simp add: choose_tiers_error)
  qed
qed

lemma choose_error_value:
  assumes "fst (chooseProtectedCandidate env states rk aks s) = Inl e"
  shows "e = saturated_error"
proof -
  obtain m r where s: "s = (m, r)" by fastforce
  show ?thesis using assms
    by (cases rule: choose_cases [of env states aks m rk r])
      (auto simp: s choose_tiers_def Let_def split: if_splits)
qed

text \<open>
  In a session the two tier suffixes are lost: the rotation key of the session already carries the
  affinity key, the suffix is appended behind it, and the selection key is built from the part before.
\<close>

lemma session_suffix_dropped:
  assumes "TrimSpace affinity = affinity" "affinity \<noteq> []" "TrimSpace (affinity @ tail) \<noteq> []" "int (length base) < 2 ^ 63"
    and "\<not> HasPrefix base schedulerSelectionKeyPrefix"
  shows "schedulerSelectionKey (schedulerSelectionKey base affinity @ tail) affinity = schedulerSelectionKey base affinity"
  using assms split_encode [OF assms(4,3)]
  by (simp add: schedulerSelectionKey_def split_plain)

text \<open>With one state per rotation identity, the rotation serves the highest priority of its states.\<close>

lemma rotated_priority:
  assumes "inj_on (schedulerCandidateRotationIdentity \<circ> pc_Candidate) (set states)" "y \<in> set states"
  shows "c_Priority (pc_Candidate y) \<le> c_Priority (pc_Candidate (fst (rotateProtectedCandidate env states rk aks s)))"
proof -
  obtain cs ix where sel: "protectionSelectionCandidates states = (cs, ix)" by fastforce
  obtain c where c: "c \<in> set cs"
      "schedulerCandidateRotationIdentity c = schedulerCandidateRotationIdentity (pc_Candidate y)"
    using selection_covers [OF assms(2)] sel by auto
  obtain x where x: "x \<in> set states" "pc_Candidate x = c" using selection_lookup [OF sel c(1)] by blast
  have "x = y" using inj_onD [OF assms(1), of x y] x c(2) assms(2) by simp
  moreover have "states \<noteq> []" using assms(2) by auto
  ultimately show ?thesis using rotated_state(2) [of states env rk aks s] c(1) x(2) sel by auto
qed

section \<open>Properties\<close>

text \<open>The hard limit holds for every choice: whatever the session binding, the rotation state and the soft
  token limits say, a chosen candidate is one of the offered ones and has fewer reservations in
  flight than its concurrency limit.\<close>

theorem protected_choice_within_limit:
  assumes "fst (chooseProtectedCandidate env states rotationKey affinityKeys s) = Inr x"
  shows "x \<in> set states \<and> pc_InFlight x < pc_Limit x"
  using choose_within [OF assms] by (simp add: below_limit_def)

definition example_state :: "string \<Rightarrow> int \<Rightarrow> int \<Rightarrow> protectionCandidate" where
  "example_state name inFlight tokens =
     no_state\<lparr>pc_Candidate := example_candidate name, pc_InFlight := inFlight, pc_Limit := 2,
              pc_Tokens := tokens, pc_Threshold := 100\<rparr>"

theorem protected_choice_within_limit_witness:
  "\<exists>x. fst (chooseProtectedCandidate (example_env 5) [example_state ''a'' 2 0, example_state ''b'' 1 900]
          ''k'' [] ([], \<lparr>rot_cursors = [], rot_operations = 0\<rparr>)) = Inr x
     \<and> x \<in> set [example_state ''a'' 2 0, example_state ''b'' 1 900] \<and> pc_InFlight x < pc_Limit x"
proof -
  let ?states = "[example_state ''a'' 2 0, example_state ''b'' 1 900]"
  let ?r = "fst (chooseProtectedCandidate (example_env 5) ?states ''k'' [] ([], \<lparr>rot_cursors = [], rot_operations = 0\<rparr>))"
  have "\<not> isl ?r" by (simp only: choose_fails) (simp add: below_limit_def example_state_def)
  then obtain x where "?r = Inr x" by (cases ?r) auto
  with protected_choice_within_limit [OF this] show ?thesis by blast
qed

text \<open>A protected choice fails exactly on saturation: it returns an error if and only if every offered
  candidate is at its concurrency limit (so also when none is offered), and the error is the 503
  saturation rejection. Soft token demotion and session bindings never make it fail.\<close>

theorem protected_choice_saturation:
  "fst (chooseProtectedCandidate env states rotationKey affinityKeys s) = Inl saturated_error
     \<longleftrightarrow> list_all (\<lambda>x. pc_Limit x \<le> pc_InFlight x) states"
  using choose_fails [of env states rotationKey affinityKeys s]
    choose_error_value [of env states rotationKey affinityKeys s]
  by (cases "fst (chooseProtectedCandidate env states rotationKey affinityKeys s)")
    (force simp: below_limit_def list_all_iff)+

text \<open>Outside a session the choice is by tier and priority: with one candidate per rotation identity,
  a candidate over its soft token threshold is chosen only when every available candidate is over its
  own, and the chosen one has the highest priority of the available candidates of its tier.\<close>

theorem sessionless_choice_tiers:
  assumes "fst (chooseProtectedCandidate env states rotationKey affinityKeys s) = Inr x"
    and "firstNonEmptyString affinityKeys = []"
    and "inj_on (schedulerCandidateRotationIdentity \<circ> pc_Candidate) (set states)"
    and "y \<in> set states" "pc_InFlight y < pc_Limit y"
  shows "if demoted x then demoted y \<and> c_Priority (pc_Candidate y) \<le> c_Priority (pc_Candidate x)
         else demoted y \<or> c_Priority (pc_Candidate y) \<le> c_Priority (pc_Candidate x)"
proof -
  obtain m r where s: "s = (m, r)" by fastforce
  let ?normal = "filter (\<lambda>x. below_limit x \<and> \<not> demoted x) states" and ?low = "filter below_limit states"
  have y: "y \<in> set ?low" using assms(4,5) by (simp add: below_limit_def)
  have tiers: "fst (choose_tiers env states rotationKey [] (m, r)) = Inr x"
    using assms(1,2) by (simp add: s chooseProtectedCandidate_def boundProtectedCandidate_def affinity_pick_def split_beta Let_def)
  have inj: "inj_on (schedulerCandidateRotationIdentity \<circ> pc_Candidate) (set (filter P states))" for P
    using assms(3) by (rule inj_on_subset) auto
  show ?thesis
  proof (cases "?normal = []")
    case False
    let ?x = "fst (rotateProtectedCandidate env ?normal (rotationKey @ CHR 0x00 # ''normal'') [[]] (m, r))"
    have "?x = x" using tiers False by (simp add: choose_tiers_def del: filter_empty_conv)
    moreover have "?x \<in> set ?normal" by (rule rotated_state(1) [OF False])
    moreover have "c_Priority (pc_Candidate y) \<le> c_Priority (pc_Candidate ?x)" if "\<not> demoted y"
      by (rule rotated_priority [OF inj]) (use y that in simp)
    ultimately show ?thesis by auto
  next
    case True
    let ?x = "fst (rotateProtectedCandidate env ?low (rotationKey @ CHR 0x00 # ''demoted'') [[]] (m, r))"
    have low: "?low \<noteq> []" using y by (metis empty_iff empty_set)
    have "?x = x" using tiers True low by (simp add: choose_tiers_def del: filter_empty_conv)
    moreover have "c_Priority (pc_Candidate y) \<le> c_Priority (pc_Candidate ?x)" by (rule rotated_priority [OF inj y])
    moreover have "demoted z" if "z \<in> set ?low" for z using True that by (auto simp: filter_empty_conv)
    moreover have "?x \<in> set ?low" by (rule rotated_state(1) [OF low])
    ultimately show ?thesis using y by auto
  qed
qed

theorem sessionless_choice_tiers_witness:
  "\<exists>x. fst (chooseProtectedCandidate (example_env 5) [example_state ''a'' 0 900, example_state ''b'' 1 5]
          ''k'' [] ([], \<lparr>rot_cursors = [], rot_operations = 0\<rparr>)) = Inr x \<and> \<not> demoted x"
proof -
  let ?states = "[example_state ''a'' 0 900, example_state ''b'' 1 5]"
  let ?r = "fst (chooseProtectedCandidate (example_env 5) ?states ''k'' [] ([], \<lparr>rot_cursors = [], rot_operations = 0\<rparr>))"
  have "\<not> isl ?r" by (simp only: choose_fails) (simp add: below_limit_def example_state_def)
  then obtain x where x: "?r = Inr x" by (cases ?r) auto
  have ids: "schedulerCandidateRotationIdentity (example_candidate ''a'') \<noteq> schedulerCandidateRotationIdentity (example_candidate ''b'')"
    by code_simp
  have "if demoted x then demoted (example_state ''b'' 1 5) \<and>
          c_Priority (pc_Candidate (example_state ''b'' 1 5)) \<le> c_Priority (pc_Candidate x)
        else demoted (example_state ''b'' 1 5) \<or>
          c_Priority (pc_Candidate (example_state ''b'' 1 5)) \<le> c_Priority (pc_Candidate x)"
    by (rule sessionless_choice_tiers [OF x]) (use ids in \<open>auto simp: example_state_def inj_on_def\<close>)
  then have "\<not> demoted x" by (simp add: demoted_def example_state_def split: if_splits)
  with x show ?thesis by blast
qed

end
