(* ===== verification/Usage_Record.thy ===== *)
theory Usage_Record
  imports Restrictions
begin

text \<open>
  The usage record a completed request is reported with (\<open>main.go\<close>). A time is its Unix
  nanoseconds, \<open>None\<close> the zero time; durations are nanoseconds.
\<close>

record usageFailure =
  uf_StatusCode :: int
  uf_Body :: string

record usageDetail =
  ud_InputTokens :: int
  ud_OutputTokens :: int
  ud_ReasoningTokens :: int
  ud_CachedTokens :: int
  ud_CacheReadTokens :: int
  ud_CacheCreationTokens :: int
  ud_TotalTokens :: int

record usageRecord =
  ur_Provider :: string
  ur_ExecutorType :: string
  ur_Model :: string
  ur_Alias :: string
  ur_APIKey :: string
  ur_AuthID :: string
  ur_AuthIndex :: string
  ur_AuthType :: string
  ur_AuthFile :: string
  ur_Source :: string
  ur_ReasoningEffort :: string
  ur_ServiceTier :: string
  ur_Generate :: bool
  ur_RequestedAt :: "int option"
  ur_Latency :: int
  ur_TTFT :: int
  ur_Failed :: bool
  ur_Failure :: usageFailure
  ur_Detail :: usageDetail
  ur_ResponseHeaders :: headers
  ur_generateSet :: bool

text \<open>The presence flag of the decoder: a record without the field counts as generated.\<close>

definition decode_generate :: "bool option \<Rightarrow> usageRecord \<Rightarrow> usageRecord" where
  "decode_generate presence r =
     (case presence of None \<Rightarrow> r\<lparr>ur_Generate := True\<rparr> | Some g \<Rightarrow> r\<lparr>ur_Generate := g, ur_generateSet := True\<rparr>)"

definition isGenerated :: "usageRecord \<Rightarrow> bool" where
  "isGenerated r \<longleftrightarrow> \<not> ur_generateSet r \<or> ur_Generate r"

definition no_usage :: usageRecord where
  "no_usage = \<lparr>ur_Provider = [], ur_ExecutorType = [], ur_Model = [], ur_Alias = [], ur_APIKey = [], ur_AuthID = [],
     ur_AuthIndex = [], ur_AuthType = [], ur_AuthFile = [], ur_Source = [], ur_ReasoningEffort = [], ur_ServiceTier = [],
     ur_Generate = False, ur_RequestedAt = None, ur_Latency = 0, ur_TTFT = 0, ur_Failed = False,
     ur_Failure = \<lparr>uf_StatusCode = 0, uf_Body = []\<rparr>,
     ur_Detail = \<lparr>ud_InputTokens = 0, ud_OutputTokens = 0, ud_ReasoningTokens = 0, ud_CachedTokens = 0,
       ud_CacheReadTokens = 0, ud_CacheCreationTokens = 0, ud_TotalTokens = 0\<rparr>,
     ur_ResponseHeaders = [], ur_generateSet = False\<rparr>"

end
