(* ===== verification/Protection.thy ===== *)
theory Protection
  imports Protection_Choice Usage_Record "HOL-Library.Product_Lexorder"
begin

text \<open>
  The reservation transaction of account protection (\<open>pickProtectedAuth\<close>) and the release of a
  reservation by a usage record (\<open>account_protection.go\<close>). A pick works on the rows as of its
  \<open>BEGIN IMMEDIATE\<close>, writes a copy and makes it the table when the commit succeeds; the outcomes
  of the database calls are arguments. The lemmas: a pick that fails leaves the table as it was, a
  pick that succeeds inserted exactly one reservation and was below its limit, and over any sequence of
  picks and releases no account ever has more live reservations than its limit.
\<close>

section \<open>The reservation table\<close>

record reservation =
  rv_ID :: int
  rv_Provider :: string
  rv_AuthID :: string
  rv_AuthIndex :: string
  rv_Source :: string
  rv_AuthFile :: string
  rv_PlanType :: string
  rv_CreatedAt :: int
  rv_ExpiresAt :: int

record reservation_db =
  rd_Rows :: "reservation list"
  rd_NextID :: int

type_synonym stored_identity = "string \<times> string \<times> string \<times> string"

definition reservation_key :: "reservation \<Rightarrow> stored_identity" where
  "reservation_key r = (rv_AuthID r, rv_AuthIndex r, rv_Source r, rv_AuthFile r)"

definition live :: "string \<Rightarrow> int \<Rightarrow> reservation \<Rightarrow> bool" where
  "live provider now r \<longleftrightarrow> rv_Provider r = provider \<and> now < rv_ExpiresAt r"

text \<open>The groups of the query come in the order of their first row; no result depends on it.\<close>

definition loadProtectionReservationSnapshot ::
  "reservation list \<Rightarrow> string \<Rightarrow> int \<Rightarrow> protectionReservationSample list" where
  "loadProtectionReservationSnapshot rows provider now =
     (let groups = map reservation_key (filter (live provider now) rows)
      in map (\<lambda>(authID, authIndex, source, authFile).
              \<lparr>rs_Aliases = normalizeAccountAliases [authID, authIndex, source, authFile],
               rs_Count = int (count_list groups (authID, authIndex, source, authFile))\<rparr>) (remdups groups))"

definition delete_expired :: "string \<Rightarrow> int \<Rightarrow> reservation_db \<Rightarrow> reservation_db" where
  "delete_expired provider now db =
     db\<lparr>rd_Rows := filter (\<lambda>r. \<not> (rv_Provider r = provider \<and> rv_ExpiresAt r \<le> now)) (rd_Rows db)\<rparr>"

definition insert_reservation :: "stored_identity \<Rightarrow> string \<Rightarrow> int \<Rightarrow> int \<Rightarrow> reservation_db \<Rightarrow> reservation_db" where
  "insert_reservation = (\<lambda>(authID, authIndex, source, authFile) plan now expires db.
     db\<lparr>rd_Rows := rd_Rows db @ [\<lparr>rv_ID = rd_NextID db, rv_Provider = providerCodex, rv_AuthID = authID,
          rv_AuthIndex = authIndex, rv_Source = source, rv_AuthFile = authFile, rv_PlanType = plan,
          rv_CreatedAt = now, rv_ExpiresAt = expires\<rparr>],
        rd_NextID := rd_NextID db + 1\<rparr>)"

section \<open>One pick\<close>

text \<open>
  The outcomes of the calls of one pick: \<open>None\<close> is success. \<open>pe_identity\<close> is the
  privacy-safe form of the identity columns of a candidate.
\<close>

record protect_env =
  pe_sched :: sched_env
  pe_lock :: "string option"
  pe_open :: "string option"
  pe_begin :: "string option"
  pe_cleanup :: "string option"
  pe_load :: "string option"
  pe_identity :: "schedulerAuthCandidate \<Rightarrow> stored_identity \<Rightarrow> (string, stored_identity) result"
  pe_insert :: "string option"
  pe_commit :: "string option"

datatype protection_event =
    ReservationTiming "string option"
  | ExpiredReservations nat

record protection_world =
  pw_db :: reservation_db
  pw_cleanupDB :: "nat option"
  pw_cleanupAt :: int
  pw_events :: "protection_event list"
  pw_selection :: selection

definition accountProtectionReservationCleanupInterval :: int where
  "accountProtectionReservationCleanupInterval = 30"

definition cleanup_due :: "nat \<Rightarrow> int \<Rightarrow> protection_world \<Rightarrow> bool" where
  "cleanup_due handle now w \<longleftrightarrow>
     pw_cleanupDB w \<noteq> Some handle \<or> accountProtectionReservationCleanupInterval \<le> now - pw_cleanupAt w"

text \<open>The states of the candidates, each with its metrics; the marks pass from one to the next.\<close>

fun protection_states ::
  "fingerprinter \<Rightarrow> pluginConfig \<Rightarrow> plan_index \<Rightarrow> (schedulerAuthCandidate \<times> string list \<times> string list) list
   \<Rightarrow> protectionSnapshot \<Rightarrow> protectionCandidate list" where
  "protection_states fp cfg plans [] snapshot = []"
| "protection_states fp cfg plans ((c, reservationAliases, usageAliasSet) # rest) snapshot =
     (let state = protectionCandidateFor fp c cfg plans reservationAliases;
          ((inFlight, tokens), snapshot') = metricsFor (pc_Aliases state) usageAliasSet snapshot
      in state\<lparr>pc_InFlight := inFlight, pc_Tokens := tokens\<rparr> # protection_states fp cfg plans rest snapshot')"

definition candidate_alias_sets ::
  "fingerprinter \<Rightarrow> schedulerAuthCandidate list \<Rightarrow> (schedulerAuthCandidate \<times> string list \<times> string list) list" where
  "candidate_alias_sets fp cs = zip cs (zip (protectionCandidateAliasSets fp cs) (protectionCandidateUsageAliasSets cs))"

definition log_event :: "protection_event \<Rightarrow> protection_world \<Rightarrow> protection_world" where
  "log_event e w = w\<lparr>pw_events := pw_events w @ [e]\<rparr>"

definition failed :: "string \<Rightarrow> protection_world \<Rightarrow> (pick_error, 'a) result \<times> protection_world" where
  "failed err w = (Inl (OtherError err), log_event (ReservationTiming (Some err)) w)"

text \<open>What follows a successful commit: the table, the timing, and the record of the cleanup.\<close>

definition committed :: "nat \<Rightarrow> int \<Rightarrow> bool \<Rightarrow> nat \<Rightarrow> reservation_db \<Rightarrow> protection_world \<Rightarrow> protection_world" where
  "committed handle now cleanup expired tx w =
     (let w1 = log_event (ReservationTiming None) (w\<lparr>pw_db := tx\<rparr>)
      in if cleanup then (log_event (ExpiredReservations expired) w1)\<lparr>pw_cleanupDB := Some handle, pw_cleanupAt := now\<rparr>
         else w1)"

text \<open>The end of the transaction, after the choice: store the reservation and commit.\<close>

definition reserve_chosen ::
  "protect_env \<Rightarrow> nat \<Rightarrow> int \<Rightarrow> pluginConfig \<Rightarrow> bool \<Rightarrow> nat \<Rightarrow> reservation_db \<Rightarrow> protectionCandidate
   \<Rightarrow> protection_world \<Rightarrow> (pick_error, schedulerAuthCandidate) result \<times> protection_world" where
  "reserve_chosen pe handle now cfg cleanup expired tx chosen w =
     (let identity = schedulerCandidateIdentity (pc_Candidate chosen)
      in case pe_identity pe (pc_Candidate chosen) (pc_AuthID chosen, pc_AuthIndex chosen, pc_Source chosen, id_AuthFile identity) of
           Inl err \<Rightarrow> failed err w
         | Inr stored \<Rightarrow>
             case pe_insert pe of
               Some err \<Rightarrow> failed err w
             | None \<Rightarrow>
                 case pe_commit pe of
                   Some err \<Rightarrow> failed err w
                 | None \<Rightarrow> (Inr (pc_Candidate chosen), committed handle now cleanup expired
                     (insert_reservation stored (pc_PlanType chosen) now
                        (now + cf_AccountProtectionReservationTTLSeconds cfg) tx) w))"

text \<open>From the loaded reservations on: the states, the choice, and the end of the transaction.\<close>

definition decide_in_tx ::
  "protect_env \<Rightarrow> nat \<Rightarrow> schedulerAuthCandidate list \<Rightarrow> pluginConfig \<Rightarrow> plan_index \<Rightarrow> protectionUsageIndex option
   \<Rightarrow> string \<Rightarrow> string list \<Rightarrow> bool \<Rightarrow> nat \<Rightarrow> reservation_db \<Rightarrow> protection_world
   \<Rightarrow> (pick_error, schedulerAuthCandidate) result \<times> protection_world" where
  "decide_in_tx pe handle candidates cfg plans usage rotationKey affinityKeys cleanup expired tx w =
     (let now = env_unix (pe_sched pe);
          fp = env_fp (pe_sched pe);
          reservations = loadProtectionReservationSnapshot (rd_Rows tx) providerCodex now;
          states = protection_states fp cfg plans (candidate_alias_sets fp candidates)
                     (newProtectionSnapshotWithUsageIndex reservations usage);
          (chosen, selection') = chooseProtectedCandidate (pe_sched pe) states rotationKey affinityKeys (pw_selection w);
          w1 = w\<lparr>pw_selection := selection'\<rparr>
      in case chosen of
           Inr state \<Rightarrow> reserve_chosen pe handle now cfg cleanup expired tx state w1
         | Inl err \<Rightarrow>
             case pe_commit pe of
               Some commitErr \<Rightarrow> failed commitErr w1
             | None \<Rightarrow> (Inl err, committed handle now cleanup expired tx w1))"

definition pickProtectedAuth ::
  "protect_env \<Rightarrow> nat \<Rightarrow> schedulerAuthCandidate list \<Rightarrow> pluginConfig \<Rightarrow> plan_index \<Rightarrow> protectionUsageIndex option
   \<Rightarrow> string \<Rightarrow> string list \<Rightarrow> protection_world \<Rightarrow> (pick_error, schedulerAuthCandidate) result \<times> protection_world" where
  "pickProtectedAuth pe handle candidates cfg plans usage rotationKey affinityKeys w =
     (case pe_lock pe of Some err \<Rightarrow> (Inl (OtherError err), w) | None \<Rightarrow>
      case pe_open pe of Some err \<Rightarrow> (Inl (OtherError err), w) | None \<Rightarrow>
      case pe_begin pe of Some err \<Rightarrow> failed err w | None \<Rightarrow>
      let now = env_unix (pe_sched pe);
          cleanup = cleanup_due handle now w;
          tx = (if cleanup then delete_expired providerCodex now (pw_db w) else pw_db w);
          expired = length (rd_Rows (pw_db w)) - length (rd_Rows tx)
      in case (if cleanup then pe_cleanup pe else None) of Some err \<Rightarrow> failed err w | None \<Rightarrow>
         case pe_load pe of Some err \<Rightarrow> failed err w | None \<Rightarrow>
         decide_in_tx pe handle candidates cfg plans usage rotationKey affinityKeys cleanup expired tx w)"

section \<open>Releasing a reservation\<close>

datatype reservation_column = AuthFileColumn | AuthIndexColumn | AuthIDColumn | SourceColumn

fun column_value :: "reservation_column \<Rightarrow> reservation \<Rightarrow> string" where
  "column_value AuthFileColumn r = rv_AuthFile r"
| "column_value AuthIndexColumn r = rv_AuthIndex r"
| "column_value AuthIDColumn r = rv_AuthID r"
| "column_value SourceColumn r = rv_Source r"

definition protectionReservationReleaseIdentity :: "usageRecord \<Rightarrow> (reservation_column \<times> string) option" where
  "protectionReservationReleaseIdentity rec =
     (case find (\<lambda>v. fileNameIfJSON v \<noteq> []) [ur_AuthFile rec, ur_AuthIndex rec, ur_AuthID rec, ur_Source rec] of
        Some v \<Rightarrow> Some (AuthFileColumn, normalizeAccountAlias (fileNameIfJSON v))
      | None \<Rightarrow>
          map_option (\<lambda>(column, v). (column, normalizeAccountAlias v))
            (find (\<lambda>(column, v). normalizeAccountAlias v \<noteq> [])
               [(AuthIndexColumn, ur_AuthIndex rec), (AuthIDColumn, ur_AuthID rec), (SourceColumn, ur_Source rec)]))"

text \<open>
  The conditional deletes run one after the other on the current table: \<open>before\<close> is what other
  connections did to it since the last one, or the error of the call.
\<close>

definition delete_id :: "int \<Rightarrow> string \<Rightarrow> reservation_db \<Rightarrow> reservation_db" where
  "delete_id rid provider db = db\<lparr>rd_Rows := filter (\<lambda>r. \<not> (rv_ID r = rid \<and> rv_Provider r = provider)) (rd_Rows db)\<rparr>"

fun deleteFirstProtectionReservation ::
  "(int \<Rightarrow> reservation_db \<Rightarrow> (string, reservation_db) result) \<Rightarrow> string \<Rightarrow> int list \<Rightarrow> reservation_db
   \<Rightarrow> (string, bool) result \<times> reservation_db" where
  "deleteFirstProtectionReservation before provider [] db = (Inr False, db)"
| "deleteFirstProtectionReservation before provider (rid # ids) db =
     (case before rid db of
        Inl err \<Rightarrow> (Inl err, db)
      | Inr db1 \<Rightarrow>
          let db2 = delete_id rid provider db1
          in if length (rd_Rows db2) < length (rd_Rows db1) then (Inr True, db2)
             else deleteFirstProtectionReservation before provider ids db2)"

definition matching_reservations :: "reservation_column \<Rightarrow> string \<Rightarrow> string \<Rightarrow> int \<Rightarrow> reservation_db \<Rightarrow> int list" where
  "matching_reservations column identity provider now db =
     map rv_ID (sort_key (\<lambda>r. (rv_CreatedAt r, rv_ID r))
       (filter (\<lambda>r. live provider now r \<and> ToLower (column_value column r) = identity) (rd_Rows db)))"

definition releaseProtectionReservation ::
  "(int \<Rightarrow> reservation_db \<Rightarrow> (string, reservation_db) result) \<Rightarrow> string option \<Rightarrow> int \<Rightarrow> usageRecord \<Rightarrow> reservation_db
   \<Rightarrow> (string, bool) result \<times> reservation_db" where
  "releaseProtectionReservation before query_err now rec db =
     (let provider = ToLower (TrimSpace (ur_Provider rec))
      in if provider \<noteq> providerCodex then (Inr False, db)
         else case protectionReservationReleaseIdentity rec of
                None \<Rightarrow> (Inr False, db)
              | Some (column, identity) \<Rightarrow>
                  case query_err of
                    Some err \<Rightarrow> (Inl err, db)
                  | None \<Rightarrow> deleteFirstProtectionReservation before provider
                              (matching_reservations column identity provider now db) db)"

section \<open>Counting live reservations\<close>

definition row_aliases :: "reservation \<Rightarrow> string list" where
  "row_aliases r = normalizeAccountAliases [rv_AuthID r, rv_AuthIndex r, rv_Source r, rv_AuthFile r]"

definition in_flight :: "string list \<Rightarrow> int \<Rightarrow> reservation list \<Rightarrow> nat" where
  "in_flight aliases now rows =
     length (filter (\<lambda>r. live providerCodex now r \<and> shares_alias aliases (row_aliases r)) rows)"

lemma in_flight_append [simp]: "in_flight as now (xs @ ys) = in_flight as now xs + in_flight as now ys"
  by (simp add: in_flight_def)

lemma in_flight_later: "now \<le> now' \<Longrightarrow> in_flight as now' rows \<le> in_flight as now rows"
  by (induction rows) (auto simp: in_flight_def live_def)

lemma in_flight_filter: "in_flight as now (filter P rows) \<le> in_flight as now rows"
  by (induction rows) (auto simp: in_flight_def)

lemma in_flight_delete_expired: "now \<le> now' \<Longrightarrow> in_flight as now' (rd_Rows (delete_expired p now db)) = in_flight as now' (rd_Rows db)"
proof -
  assume "now \<le> now'"
  then have "in_flight as now' (filter (\<lambda>r. \<not> (rv_Provider r = p \<and> rv_ExpiresAt r \<le> now)) rows) = in_flight as now' rows" for rows
    by (induction rows) (auto simp: in_flight_def live_def)
  then show ?thesis by (simp add: delete_expired_def)
qed

lemma sum_groups: "sum_list (map (\<lambda>k. int (count_list ks k)) (filter P (remdups ks))) = int (length (filter P ks))"
proof -
  have "sum_list (map (\<lambda>k. int (count_list ks k)) (filter P (remdups ks))) = (\<Sum>k\<in>set (filter P ks). int (count_list ks k))"
    by (subst sum_list_distinct_conv_sum_set) simp_all
  also have "\<dots> = (\<Sum>k\<in>set (filter P ks). int (count_list (filter P ks) k))"
  proof (rule sum.cong)
    fix k assume k: "k \<in> set (filter P ks)"
    have "count_list (filter P xs) k = count_list xs k" if "P k" for xs using that by (induction xs) auto
    with k show "int (count_list ks k) = int (count_list (filter P ks) k)" by simp
  qed simp
  also have "\<dots> = int (length (filter P ks))" by (simp only: of_nat_sum [symmetric]) (simp add: sum_count_set del: set_filter)
  finally show ?thesis .
qed

lemma reference_in_flight_rows:
  "reference_in_flight as (loadProtectionReservationSnapshot rows providerCodex now) = int (in_flight as now rows)"
proof -
  let ?P = "\<lambda>(i, x, s, f). shares_alias as (normalizeAccountAliases [i, x, s, f])"
  let ?groups = "map reservation_key (filter (live providerCodex now) rows)"
  have "reference_in_flight as (loadProtectionReservationSnapshot rows providerCodex now)
      = sum_list (map (\<lambda>k. int (count_list ?groups k)) (filter ?P (remdups ?groups)))"
    by (simp add: reference_in_flight_def loadProtectionReservationSnapshot_def Let_def filter_map comp_def split_def)
  also have "\<dots> = int (length (filter ?P ?groups))" by (rule sum_groups)
  also have "\<dots> = int (in_flight as now rows)"
    by (simp add: in_flight_def filter_map comp_def reservation_key_def row_aliases_def split_def conj_commute)
  finally show ?thesis .
qed

section \<open>One pick: what it reserves\<close>

definition usage_ok :: "protectionUsageIndex option \<Rightarrow> bool" where
  "usage_ok usage \<longleftrightarrow> (case usage of None \<Rightarrow> True | Some u \<Rightarrow> ui_samplesByAlias u = index_samples (map us_Aliases (ui_samples u)))"

lemma snapshot_with_usage_inv: "usage_ok usage \<Longrightarrow> snapshot_inv (newProtectionSnapshotWithUsageIndex rs usage)"
  by (cases usage) (simp_all add: usage_ok_def snapshot_inv_def newProtectionSnapshotWithUsageIndex_def
      newProtectionUsageIndex_def Let_def ball_Un)

lemma new_snapshot_reservations [simp]: "ps_Reservations (newProtectionSnapshotWithUsageIndex rs usage) = rs"
  by (simp add: newProtectionSnapshotWithUsageIndex_def Let_def)

definition state_of ::
  "fingerprinter \<Rightarrow> pluginConfig \<Rightarrow> plan_index \<Rightarrow> schedulerAuthCandidate \<times> string list \<times> string list \<Rightarrow> protectionCandidate" where
  "state_of fp cfg plans = (\<lambda>(c, ra, ua). protectionCandidateFor fp c cfg plans ra)"

lemma list_all2_partners:
  assumes "list_all2 P xs ys"
  shows "x \<in> set xs \<Longrightarrow> \<exists>y\<in>set ys. P x y" and "y \<in> set ys \<Longrightarrow> \<exists>x\<in>set xs. P x y"
  using assms by (induction xs ys rule: list_all2_induct) auto

lemma protection_states_spec:
  assumes "snapshot_inv snapshot"
  shows "list_all2 (\<lambda>e x. \<exists>tokens. x = (state_of fp cfg plans e)\<lparr>
      pc_InFlight := reference_in_flight (pc_Aliases (state_of fp cfg plans e)) (ps_Reservations snapshot), pc_Tokens := tokens\<rparr>)
      sets (protection_states fp cfg plans sets snapshot)"
  using assms
proof (induction sets arbitrary: snapshot)
  case (Cons e sets)
  obtain c ra ua where e: "e = (c, ra, ua)" by (metis prod_cases3)
  let ?st = "protectionCandidateFor fp c cfg plans ra"
  obtain i t s' where m: "metricsFor (pc_Aliases ?st) ua snapshot = ((i, t), s')" by (metis surj_pair)
  have "i = reference_in_flight (pc_Aliases ?st) (ps_Reservations snapshot)" "snapshot_inv s'"
    using metricsFor_reference [OF Cons.prems, of "pc_Aliases ?st" ua] m by simp_all
  moreover have "ps_Reservations s' = ps_Reservations snapshot" using metricsFor_samples(1) [of "pc_Aliases ?st" ua snapshot] m by simp
  ultimately show ?case using Cons.IH [of s'] m by (auto simp: e state_of_def Let_def)
qed simp

definition pick_tx :: "nat \<Rightarrow> int \<Rightarrow> protection_world \<Rightarrow> reservation_db" where
  "pick_tx handle now w = (if cleanup_due handle now w then delete_expired providerCodex now (pw_db w) else pw_db w)"

lemma world_frames [simp]:
  "pw_db (log_event e w) = pw_db w"
  "snd (failed err w) = log_event (ReservationTiming (Some err)) w"
  "fst (failed err w) = Inl (OtherError err)"
  "pw_db (committed handle now cleanup expired tx w) = tx"
  by (simp_all add: log_event_def failed_def committed_def Let_def)

lemma reserve_chosen_cases:
  obtains (reserved) stored where
      "pe_identity pe (pc_Candidate x) (pc_AuthID x, pc_AuthIndex x, pc_Source x, id_AuthFile (schedulerCandidateIdentity (pc_Candidate x))) = Inr stored"
      "fst (reserve_chosen pe handle now cfg cleanup expired tx x w) = Inr (pc_Candidate x)"
      "pw_db (snd (reserve_chosen pe handle now cfg cleanup expired tx x w)) =
         insert_reservation stored (pc_PlanType x) now (now + cf_AccountProtectionReservationTTLSeconds cfg) tx"
  | (aborted) err where "fst (reserve_chosen pe handle now cfg cleanup expired tx x w) = Inl (OtherError err)"
      "pw_db (snd (reserve_chosen pe handle now cfg cleanup expired tx x w)) = pw_db w"
proof (cases "pe_identity pe (pc_Candidate x) (pc_AuthID x, pc_AuthIndex x, pc_Source x, id_AuthFile (schedulerCandidateIdentity (pc_Candidate x)))")
  case (Inl err)
  then show ?thesis by (intro aborted [of err]) (simp_all add: reserve_chosen_def Let_def)
next
  case (Inr stored)
  show ?thesis
  proof (cases "pe_insert pe")
    case (Some err)
    with Inr show ?thesis by (intro aborted [of err]) (simp_all add: reserve_chosen_def Let_def)
  next
    case ins: None
    show ?thesis
    proof (cases "pe_commit pe")
      case (Some err)
      with Inr ins show ?thesis by (intro aborted [of err]) (simp_all add: reserve_chosen_def Let_def)
    next
      case None
      with Inr ins show ?thesis by (intro reserved [of stored]) (simp_all add: reserve_chosen_def Let_def)
    qed
  qed
qed

lemma pick_reaches_choice:
  obtains (early) err where "fst (pickProtectedAuth pe handle cs cfg plans usage rk aks w) = Inl (OtherError err)"
      "pw_db (snd (pickProtectedAuth pe handle cs cfg plans usage rk aks w)) = pw_db w"
  | (decided) cleanup expired where "pickProtectedAuth pe handle cs cfg plans usage rk aks w =
      decide_in_tx pe handle cs cfg plans usage rk aks cleanup expired (pick_tx handle (env_unix (pe_sched pe)) w) w"
proof (cases "pe_lock pe = None \<and> pe_open pe = None \<and> pe_begin pe = None \<and> pe_load pe = None
    \<and> (cleanup_due handle (env_unix (pe_sched pe)) w \<longrightarrow> pe_cleanup pe = None)")
  case True
  then show ?thesis by (intro decided) (simp add: pickProtectedAuth_def pick_tx_def Let_def cong: if_cong)
next
  case False
  then have "\<exists>err. fst (pickProtectedAuth pe handle cs cfg plans usage rk aks w) = Inl (OtherError err)
      \<and> pw_db (snd (pickProtectedAuth pe handle cs cfg plans usage rk aks w)) = pw_db w"
    unfolding pickProtectedAuth_def Let_def
    by (cases "pe_lock pe"; cases "pe_open pe"; cases "pe_begin pe"; cases "pe_load pe"; cases "pe_cleanup pe") (simp_all split: if_split)
  then show ?thesis using early by blast
qed

text \<open>What a pick does to the table, by its outcome.\<close>

lemma pick_cases:
  assumes "usage_ok usage" "now = env_unix (pe_sched pe)"
  obtains (reserved) e stored x tokens where
      "e \<in> set (candidate_alias_sets (env_fp (pe_sched pe)) cs)"
      "x = (state_of (env_fp (pe_sched pe)) cfg plans e)\<lparr>
         pc_InFlight := int (in_flight (pc_Aliases x) now (rd_Rows (pick_tx handle now w))), pc_Tokens := tokens\<rparr>"
      "pc_InFlight x < pc_Limit x"
      "pe_identity pe (pc_Candidate x) (pc_AuthID x, pc_AuthIndex x, pc_Source x, id_AuthFile (schedulerCandidateIdentity (pc_Candidate x))) = Inr stored"
      "fst (pickProtectedAuth pe handle cs cfg plans usage rk aks w) = Inr (pc_Candidate x)"
      "pw_db (snd (pickProtectedAuth pe handle cs cfg plans usage rk aks w)) =
         insert_reservation stored (pc_PlanType x) now (now + cf_AccountProtectionReservationTTLSeconds cfg) (pick_tx handle now w)"
  | (saturated) "fst (pickProtectedAuth pe handle cs cfg plans usage rk aks w) = Inl saturated_error"
      "pw_db (snd (pickProtectedAuth pe handle cs cfg plans usage rk aks w)) = pick_tx handle now w"
      "\<forall>e\<in>set (candidate_alias_sets (env_fp (pe_sched pe)) cs).
         pc_Limit (state_of (env_fp (pe_sched pe)) cfg plans e)
           \<le> int (in_flight (pc_Aliases (state_of (env_fp (pe_sched pe)) cfg plans e)) now (rd_Rows (pick_tx handle now w)))"
  | (aborted) err where "fst (pickProtectedAuth pe handle cs cfg plans usage rk aks w) = Inl (OtherError err)"
      "pw_db (snd (pickProtectedAuth pe handle cs cfg plans usage rk aks w)) = pw_db w"
proof -
  let ?now = "env_unix (pe_sched pe)" and ?fp = "env_fp (pe_sched pe)"
  let ?pick = "pickProtectedAuth pe handle cs cfg plans usage rk aks w"
  let ?sets = "candidate_alias_sets ?fp cs" and ?tx = "pick_tx handle ?now w"
  let ?states = "protection_states ?fp cfg plans ?sets
      (newProtectionSnapshotWithUsageIndex (loadProtectionReservationSnapshot (rd_Rows ?tx) providerCodex ?now) usage)"
  let ?choice = "chooseProtectedCandidate (pe_sched pe) ?states rk aks (pw_selection w)"
  let ?w1 = "w\<lparr>pw_selection := snd ?choice\<rparr>"
  have states: "list_all2 (\<lambda>e x. \<exists>tokens. x = (state_of ?fp cfg plans e)\<lparr>
      pc_InFlight := int (in_flight (pc_Aliases (state_of ?fp cfg plans e)) ?now (rd_Rows ?tx)), pc_Tokens := tokens\<rparr>) ?sets ?states"
    using protection_states_spec [OF snapshot_with_usage_inv [OF assms(1)], of ?fp cfg plans
        "loadProtectionReservationSnapshot (rd_Rows ?tx) providerCodex ?now" ?sets]
    by (simp add: reference_in_flight_rows)
  consider (early) err where "fst ?pick = Inl (OtherError err)" "pw_db (snd ?pick) = pw_db w"
    | (chosen) x cleanup expired where "fst ?choice = Inr x" "?pick = reserve_chosen pe handle ?now cfg cleanup expired ?tx x ?w1"
    | (full) e where "fst ?choice = Inl e" "fst ?pick = Inl e" "pw_db (snd ?pick) = ?tx"
  proof (cases rule: pick_reaches_choice [of pe handle cs cfg plans usage rk aks w])
    case (early err)
    then show ?thesis by (rule that(1))
  next
    case (decided cleanup expired)
    show ?thesis
    proof (cases "fst ?choice")
      case (Inr x)
      with decided show ?thesis by (intro that(2) [of x cleanup expired]) (simp_all add: decide_in_tx_def Let_def split_beta)
    next
      case (Inl e)
      with decided show ?thesis
        by (cases "pe_commit pe") (auto simp: decide_in_tx_def Let_def split_beta intro: that(1,3))
    qed
  qed
  then show ?thesis
  proof cases
    case early
    then show ?thesis by (rule aborted)
  next
    case full
    have "fst ?pick = Inl saturated_error" using full(1,2) choose_error_value by metis
    moreover have "\<forall>x\<in>set ?states. \<not> below_limit x" using full(1) choose_fails by (metis sum.disc(1))
    then have "\<forall>e\<in>set ?sets. pc_Limit (state_of ?fp cfg plans e)
           \<le> int (in_flight (pc_Aliases (state_of ?fp cfg plans e)) ?now (rd_Rows ?tx))"
      using list_all2_partners(1) [OF states] by (fastforce simp: below_limit_def)
    ultimately show ?thesis using full(3) assms(2) by (intro saturated) simp_all
  next
    case (chosen x cleanup expired)
    have x: "x \<in> set ?states" "below_limit x" using choose_within [OF chosen(1)] by simp_all
    obtain e tokens where e: "e \<in> set ?sets" "x = (state_of ?fp cfg plans e)\<lparr>
        pc_InFlight := int (in_flight (pc_Aliases (state_of ?fp cfg plans e)) ?now (rd_Rows ?tx)), pc_Tokens := tokens\<rparr>"
      using list_all2_partners(2) [OF states x(1)] by blast
    have al: "pc_Aliases x = pc_Aliases (state_of ?fp cfg plans e)" using e(2) by simp
    show ?thesis
    proof (cases rule: reserve_chosen_cases [of pe x handle ?now cfg cleanup expired ?tx ?w1])
      case (reserved stored)
      show ?thesis
        by (rule that(1) [of e x tokens stored]) (use e al x(2) reserved chosen(2) assms(2) in \<open>simp_all add: below_limit_def\<close>)
    next
      case (aborted err)
      then show ?thesis using chosen(2) by (intro that(3) [of err]) simp_all
    qed
  qed
qed

section \<open>Runs of picks and releases\<close>

datatype protection_op =
    Pick protect_env nat "schedulerAuthCandidate list" pluginConfig plan_index "protectionUsageIndex option" string "string list"
  | Release int "string option" "int \<Rightarrow> string option" usageRecord

fun op_time :: "protection_op \<Rightarrow> int" where
  "op_time (Pick pe handle cs cfg plans usage rk aks) = env_unix (pe_sched pe)"
| "op_time (Release now query_err errs rec) = now"

definition alone :: "(int \<Rightarrow> string option) \<Rightarrow> int \<Rightarrow> reservation_db \<Rightarrow> (string, reservation_db) result" where
  "alone errs rid db = (case errs rid of Some e \<Rightarrow> Inl e | None \<Rightarrow> Inr db)"

fun protection_step :: "protection_world \<Rightarrow> protection_op \<Rightarrow> protection_world" where
  "protection_step w (Pick pe handle cs cfg plans usage rk aks) = snd (pickProtectedAuth pe handle cs cfg plans usage rk aks w)"
| "protection_step w (Release now query_err errs rec) =
     w\<lparr>pw_db := snd (releaseProtectionReservation (alone errs) query_err now rec (pw_db w))\<rparr>"

text \<open>
  An operation respects the account with these aliases and this limit: a candidate it may choose is the
  account, with at most the limit, or stores an identity that shares no alias with it.
\<close>

definition stored_aliases :: "stored_identity \<Rightarrow> string list" where
  "stored_aliases = (\<lambda>(i, x, s, f). normalizeAccountAliases [i, x, s, f])"

definition respects_account :: "string list \<Rightarrow> int \<Rightarrow> protect_env \<Rightarrow> protectionCandidate \<Rightarrow> bool" where
  "respects_account as cap pe x \<longleftrightarrow>
     pc_Aliases x = as \<and> pc_Limit x \<le> cap
   \<or> (case pe_identity pe (pc_Candidate x) (pc_AuthID x, pc_AuthIndex x, pc_Source x, id_AuthFile (schedulerCandidateIdentity (pc_Candidate x))) of
        Inl _ \<Rightarrow> True | Inr stored \<Rightarrow> \<not> shares_alias as (stored_aliases stored))"

fun separate :: "string list \<Rightarrow> int \<Rightarrow> protection_op \<Rightarrow> bool" where
  "separate as cap (Pick pe handle cs cfg plans usage rk aks) \<longleftrightarrow>
     usage_ok usage \<and> list_all (\<lambda>e. respects_account as cap pe (state_of (env_fp (pe_sched pe)) cfg plans e))
       (candidate_alias_sets (env_fp (pe_sched pe)) cs)"
| "separate as cap (Release now query_err errs rec) \<longleftrightarrow> True"

lemma deleteFirst_only_deletes:
  "in_flight as now (rd_Rows (snd (deleteFirstProtectionReservation (alone errs) p ids db))) \<le> in_flight as now (rd_Rows db)"
proof (induction ids arbitrary: db)
  case (Cons rid ids)
  have del: "in_flight as now (rd_Rows (delete_id rid p db)) \<le> in_flight as now (rd_Rows db)"
    by (simp add: delete_id_def in_flight_filter)
  with Cons.IH [of "delete_id rid p db"] show ?case by (auto simp: alone_def Let_def split: option.split)
qed simp

lemma release_only_deletes:
  "in_flight as now (rd_Rows (snd (releaseProtectionReservation (alone errs) query_err t rec db))) \<le> in_flight as now (rd_Rows db)"
  by (auto simp: releaseProtectionReservation_def Let_def deleteFirst_only_deletes split: option.split)

lemma in_flight_pick_tx: "in_flight as now (rd_Rows (pick_tx handle now w)) = in_flight as now (rd_Rows (pw_db w))"
  by (simp add: pick_tx_def in_flight_delete_expired)

lemma in_flight_insert:
  "in_flight as now (rd_Rows (insert_reservation stored plan t expires db)) =
     in_flight as now (rd_Rows db) + (if now < expires \<and> shares_alias as (stored_aliases stored) then 1 else 0)"
  by (cases stored) (simp add: insert_reservation_def in_flight_def live_def row_aliases_def stored_aliases_def)

lemma step_within_limit:
  assumes "separate as cap op" "int (in_flight as t0 (rd_Rows (pw_db w))) \<le> cap" "t0 \<le> op_time op"
  shows "int (in_flight as (op_time op) (rd_Rows (pw_db (protection_step w op)))) \<le> cap"
proof (cases op)
  case (Release now query_err errs rec)
  have "in_flight as now (rd_Rows (pw_db (protection_step w op))) \<le> in_flight as t0 (rd_Rows (pw_db w))"
    using le_trans [OF release_only_deletes in_flight_later [of t0 now]] assms(3) Release by simp
  with assms(2) Release show ?thesis by simp
next
  case (Pick pe handle cs cfg plans usage rk aks)
  let ?t = "env_unix (pe_sched pe)"
  have later: "int (in_flight as ?t (rd_Rows (pw_db w))) \<le> cap"
    using in_flight_later [of t0 ?t as "rd_Rows (pw_db w)"] assms(2,3) Pick by simp
  have ok: "usage_ok usage" using assms(1) Pick by simp
  show ?thesis
    using ok refl
  proof (cases rule: pick_cases [of usage ?t pe cs handle w cfg plans rk aks])
    case (reserved e stored x tokens)
    let ?st = "state_of (env_fp (pe_sched pe)) cfg plans e"
    have same: "pc_Aliases x = pc_Aliases ?st" "pc_Limit x = pc_Limit ?st" "pc_Candidate x = pc_Candidate ?st"
        "pc_AuthID x = pc_AuthID ?st" "pc_AuthIndex x = pc_AuthIndex ?st" "pc_Source x = pc_Source ?st"
        "pc_InFlight x = int (in_flight (pc_Aliases x) ?t (rd_Rows (pick_tx handle ?t w)))"
      by (subst reserved(2), simp)+
    have "respects_account as cap pe ?st" using assms(1) reserved(1) Pick by (simp add: list_all_iff)
    then consider "pc_Aliases x = as" "pc_Limit x \<le> cap" | "\<not> shares_alias as (stored_aliases stored)"
      using reserved(4) same by (auto simp: respects_account_def)
    then show ?thesis
    proof cases
      case 1
      then show ?thesis using reserved(3,6) same(7) Pick by (simp add: in_flight_insert)
    next
      case 2
      then show ?thesis using later reserved(6) Pick by (simp add: in_flight_insert in_flight_pick_tx)
    qed
  next
    case saturated
    then show ?thesis using later Pick by (simp add: in_flight_pick_tx)
  next
    case (aborted err)
    then show ?thesis using later Pick by simp
  qed
qed

lemma run_within_limit:
  assumes "list_all (separate as cap) ops" "int (in_flight as t0 (rd_Rows (pw_db w))) \<le> cap"
    and "sorted (t0 # map op_time ops @ [now])"
  shows "int (in_flight as now (rd_Rows (pw_db (foldl protection_step w ops)))) \<le> cap"
  using assms
proof (induction ops arbitrary: t0 w)
  case Nil
  then show ?case using in_flight_later [of t0 now as "rd_Rows (pw_db w)"] by simp
next
  case (Cons op ops)
  have "int (in_flight as (op_time op) (rd_Rows (pw_db (protection_step w op)))) \<le> cap"
    using Cons.prems by (intro step_within_limit) auto
  with Cons.IH [of "op_time op" "protection_step w op"] Cons.prems show ?case by simp
qed

section \<open>Concurrent releases\<close>

text \<open>
  Several usage callbacks may select the same reservations; each then runs its own conditional
  deletes over the same ids.
\<close>

fun release_each :: "nat \<Rightarrow> string \<Rightarrow> int list \<Rightarrow> reservation_db \<Rightarrow> (string, bool) result list \<times> reservation_db" where
  "release_each 0 p ids db = ([], db)"
| "release_each (Suc n) p ids db =
     (let (r, db1) = deleteFirstProtectionReservation (alone (\<lambda>_. None)) p ids db;
          (rs, db2) = release_each n p ids db1
      in (r # rs, db2))"

definition holds_id :: "string \<Rightarrow> reservation_db \<Rightarrow> int \<Rightarrow> bool" where
  "holds_id p db rid \<longleftrightarrow> list_ex (\<lambda>r. rv_ID r = rid \<and> rv_Provider r = p) (rd_Rows db)"

lemma delete_absent_id: "\<not> holds_id p db rid \<Longrightarrow> delete_id rid p db = db"
  by (simp add: holds_id_def delete_id_def list_ex_iff filter_id_conv)

lemma delete_present_id: "holds_id p db rid \<Longrightarrow> length (rd_Rows (delete_id rid p db)) < length (rd_Rows db)"
  by (auto simp: holds_id_def delete_id_def list_ex_iff intro!: length_filter_less)

lemma deleteFirst_next:
  assumes "\<forall>i\<in>set gone. \<not> holds_id p db i" "holds_id p db rid"
  shows "deleteFirstProtectionReservation (alone (\<lambda>_. None)) p (gone @ rid # ids) db = (Inr True, delete_id rid p db)"
  using assms(1)
proof (induction "gone")
  case Nil
  then show ?case by (simp add: alone_def Let_def delete_present_id assms(2))
next
  case (Cons i gone)
  then show ?case by (simp add: alone_def Let_def delete_absent_id)
qed

definition ids_held :: "string \<Rightarrow> int list \<Rightarrow> reservation_db \<Rightarrow> bool" where
  "ids_held p ids db \<longleftrightarrow> distinct ids \<and> list_all (holds_id p db) ids"

lemma holds_after_delete: "rid \<noteq> i \<Longrightarrow> holds_id p (delete_id i p db) rid = holds_id p db rid"
  by (auto simp: holds_id_def delete_id_def list_ex_iff)

lemma not_holds_after_delete [simp]: "\<not> holds_id p (delete_id i p db) i"
  by (auto simp: holds_id_def delete_id_def list_ex_iff)

lemma release_each_takes:
  assumes "ids_held p ids db" "\<forall>i\<in>set gone. \<not> holds_id p db i" "n \<le> length ids"
  shows "release_each n p (gone @ ids) db = (replicate n (Inr True), foldl (\<lambda>d i. delete_id i p d) db (take n ids))"
  using assms
proof (induction n arbitrary: ids gone db)
  case (Suc n)
  then obtain rid rest where ids: "ids = rid # rest" by (cases ids) auto
  let ?db = "delete_id rid p db"
  have first: "deleteFirstProtectionReservation (alone (\<lambda>_. None)) p (gone @ rid # rest) db = (Inr True, ?db)"
    using Suc.prems(1,2) by (intro deleteFirst_next) (simp_all add: ids ids_held_def)
  have held: "ids_held p rest ?db"
  proof -
    have "holds_id p ?db i" if "i \<in> set rest" for i
      using that Suc.prems(1) by (subst holds_after_delete) (auto simp: ids ids_held_def list_all_iff)
    then show ?thesis using Suc.prems(1) by (simp add: ids ids_held_def list_all_iff)
  qed
  have "\<not> holds_id p ?db i" if "i \<in> set (gone @ [rid])" for i
    using that Suc.prems(2) by (cases "i = rid") (auto simp: holds_after_delete)
  with Suc.IH [OF held, of "gone @ [rid]"] Suc.prems(3) first show ?case by (simp add: ids)
qed simp

section \<open>Properties\<close>

text \<open>C9: A protected pick is one transaction. If it succeeds, it chose an offered candidate whose live reservations, as
  of the transaction, were fewer than its plan's limit, and the table is the one it read (expired
  rows removed when a cleanup was due) with exactly one reservation appended, for that candidate. If it is
  rejected as saturated, every candidate was at its limit and only the cleanup was kept. On
  every other error, from the lock to the commit, the table is the one it found.\<close>

theorem protected_pick_atomic:
  assumes "usage_ok usage" "now = env_unix (pe_sched pe)" "tx = pick_tx handle now w"
    and "pickProtectedAuth pe handle cs cfg plans usage rotationKey affinityKeys w = (outcome, w')"
  shows "case outcome of
     Inr c \<Rightarrow> \<exists>(x :: protectionCandidate) stored. pc_Candidate x = c \<and> c \<in> set cs
        \<and> int (in_flight (pc_Aliases x) now (rd_Rows tx)) < protectionConcurrencyLimit cfg (pc_PlanType x)
        \<and> pe_identity pe c (pc_AuthID x, pc_AuthIndex x, pc_Source x, schedulerCandidateAuthFile c) = Inr stored
        \<and> pw_db w' = insert_reservation stored (pc_PlanType x) now (now + cf_AccountProtectionReservationTTLSeconds cfg) tx
   | Inl e \<Rightarrow> pw_db w' = pw_db w
        \<or> e = saturated_error \<and> pw_db w' = tx
          \<and> list_all (\<lambda>e. let x = state_of (env_fp (pe_sched pe)) cfg plans e
                in pc_Limit x \<le> int (in_flight (pc_Aliases x) now (rd_Rows tx))) (candidate_alias_sets (env_fp (pe_sched pe)) cs)"
  using assms(1,2)
proof (cases rule: pick_cases [of usage now pe cs handle w cfg plans rotationKey affinityKeys])
  case (reserved e stored x tokens)
  obtain c ra ua where e: "e = (c, ra, ua)" by (metis prod_cases3)
  have c: "pc_Candidate x = c" "pc_Limit x = protectionConcurrencyLimit cfg (pc_PlanType x)"
      "pc_InFlight x = int (in_flight (pc_Aliases x) now (rd_Rows tx))"
    by (subst reserved(2), simp add: e state_of_def protectionCandidateFor_def Let_def assms(3))+
  have "c \<in> set cs" using reserved(1) by (auto simp: e candidate_alias_sets_def dest: set_zip_leftD)
  moreover have "id_AuthFile (schedulerCandidateIdentity c) = schedulerCandidateAuthFile c"
    by (simp add: schedulerCandidateIdentity_def)
  ultimately have "pc_Candidate x = c \<and> c \<in> set cs
      \<and> int (in_flight (pc_Aliases x) now (rd_Rows tx)) < protectionConcurrencyLimit cfg (pc_PlanType x)
      \<and> pe_identity pe c (pc_AuthID x, pc_AuthIndex x, pc_Source x, schedulerCandidateAuthFile c) = Inr stored
      \<and> pw_db w' = insert_reservation stored (pc_PlanType x) now (now + cf_AccountProtectionReservationTTLSeconds cfg) tx"
    using reserved(3,4,6) c assms(3,4) by simp
  moreover have out: "outcome = Inr c" using reserved(5) c(1) assms(4) by simp
  ultimately show ?thesis unfolding out sum.case by blast
next
  case saturated
  then show ?thesis using assms(3,4) by (simp add: list_all_iff Let_def)
next
  case (aborted err)
  then show ?thesis using assms(4) by simp
qed

definition example_protect_env :: "int \<Rightarrow> protect_env" where
  "example_protect_env now = \<lparr>pe_sched = example_env (now * 1000000000), pe_lock = None, pe_open = None, pe_begin = None,
     pe_cleanup = None, pe_load = None, pe_identity = (\<lambda>c stored. Inr stored), pe_insert = None, pe_commit = None\<rparr>"

definition example_world :: protection_world where
  "example_world = \<lparr>pw_db = \<lparr>rd_Rows = [], rd_NextID = 1\<rparr>, pw_cleanupDB = None, pw_cleanupAt = 0, pw_events = [],
     pw_selection = ([], \<lparr>rot_cursors = [], rot_operations = 0\<rparr>)\<rparr>"

definition example_pick :: "int \<Rightarrow> protection_op" where
  "example_pick now = Pick (example_protect_env now) 1 [example_candidate ''a'', example_candidate ''b'']
     defaultPluginConfig [] None ''k'' []"

theorem protected_pick_atomic_witness:
  "let (outcome, w') = pickProtectedAuth (example_protect_env 5) 1 [example_candidate ''a''] defaultPluginConfig [] None ''k'' [] example_world
   in outcome = Inr (example_candidate ''a'') \<and> length (rd_Rows (pw_db w')) = 1"
proof -
  let ?pick = "pickProtectedAuth (example_protect_env 5) 1 [example_candidate ''a''] defaultPluginConfig [] None ''k'' [] example_world"
  obtain outcome w' where p: "?pick = (outcome, w')" by fastforce
  have ok: "usage_ok None" by (simp add: usage_ok_def)
  have tx: "rd_Rows (pick_tx (Suc 0) (env_unix (pe_sched (example_protect_env 5))) example_world) = []" by code_simp
  have "\<not> isl (fst ?pick)" by code_simp
  then obtain c where c: "outcome = Inr c" using p by (cases outcome) auto
  have "length (rd_Rows (pw_db w')) = 1 \<and> c = example_candidate ''a''"
    using protected_pick_atomic [OF ok refl refl p] tx unfolding c
    by (auto simp: insert_reservation_def split_def)
  with c p show ?thesis by simp
qed

text \<open>C7: The hard concurrency limit holds over every run. Take an account by its reservation aliases and a
  limit. In any sequence of picks and releases with a clock that does not run backwards, in which
  each candidate either is that account with at most that limit or stores an identity that
  shares no alias with it, the account never has more live reservations than the limit, whatever fails, whatever
  plans, sessions and soft limits say, and however releases race.\<close>

theorem hard_concurrency_limit:
  assumes "list_all (separate as cap) ops"
    and "int (in_flight as t0 (rd_Rows (pw_db w))) \<le> cap"
    and "sorted (t0 # map op_time ops @ [now])"
  shows "int (in_flight as now (rd_Rows (pw_db (foldl protection_step w ops)))) \<le> cap"
  using assms by (rule run_within_limit)

theorem hard_concurrency_limit_witness:
  "int (in_flight [''a''] 9 (rd_Rows (pw_db (foldl protection_step example_world [example_pick 5, example_pick 7])))) \<le> 5"
proof (rule hard_concurrency_limit)
  show "int (in_flight [''a''] 0 (rd_Rows (pw_db example_world))) \<le> 5"
    by (simp add: example_world_def in_flight_def)
  show "sorted (0 # map op_time [example_pick 5, example_pick 7] @ [9])"
    by (simp add: example_pick_def example_protect_env_def env_unix_def)
  show "list_all (separate [''a''] 5) [example_pick 5, example_pick 7]" by code_simp
qed

text \<open>C10: Racing releases free distinct reservations. When several usage callbacks selected the same reservations
  and run their conditional deletes one after the other, the first takes the oldest, the next the
  next one, and so on: as long as there are enough, every callback succeeds, and exactly the reservations
  it reports are gone.\<close>

theorem racing_releases_distinct:
  assumes "ids_held provider ids db" "n \<le> length ids"
  shows "release_each n provider ids db = (replicate n (Inr True), foldl (\<lambda>d i. delete_id i provider d) db (take n ids))"
  using release_each_takes [OF assms(1), of "[]" n] assms(2) by simp

definition example_reservation :: "int \<Rightarrow> reservation" where
  "example_reservation i = \<lparr>rv_ID = i, rv_Provider = providerCodex, rv_AuthID = ''a'', rv_AuthIndex = [], rv_Source = [],
     rv_AuthFile = [], rv_PlanType = ''plus'', rv_CreatedAt = 0, rv_ExpiresAt = 100\<rparr>"

theorem racing_releases_distinct_witness:
  "release_each 2 providerCodex [3, 5, 8] \<lparr>rd_Rows = map example_reservation [3, 4, 5, 8], rd_NextID = 9\<rparr>
     = ([Inr True, Inr True], \<lparr>rd_Rows = map example_reservation [4, 8], rd_NextID = 9\<rparr>)"
proof -
  have "ids_held providerCodex [3, 5, 8] \<lparr>rd_Rows = map example_reservation [3, 4, 5, 8], rd_NextID = 9\<rparr>"
    by (simp add: ids_held_def holds_id_def example_reservation_def)
  from racing_releases_distinct [OF this, of 2] show ?thesis
    by (simp add: delete_id_def example_reservation_def numeral_2_eq_2)
qed

end
