(* ===== verification/Protection_Manager.thy ===== *)
theory Protection_Manager
  imports Protection
begin

text \<open>
  The caches of the protection manager (\<open>account_protection.go\<close>): the alias-to-plan index and the
  index of recent tokens, each refreshed in the background and abandoned when the plugin is
  reconfigured or stopped. A context and the done channel of a refresh are numbers, a cancelled
  context is in a list; the zero time is \<open>None\<close>. The lemmas: whatever refreshes are still running, what
  the caches hold was loaded since the last configuration, the token index is always
  consistent, and it belongs to the database and window it is kept under.
\<close>

section \<open>The manager\<close>

record protectionManager =
  pm_cfg :: pluginConfig
  pm_plans :: plan_index
  pm_plansLoadedAt :: int
  pm_plansRefreshing :: bool
  pm_plansGeneration :: "64 word"
  pm_plansRefreshStarted :: "64 word"
  pm_plansCtx :: "nat option"
  pm_plansRefreshDone :: "nat option"
  pm_usageDB :: "nat option"
  pm_usageSince :: int
  pm_usageLoadedAt :: "int option"
  pm_usage :: "protectionUsageIndex option"
  pm_usageRefreshing :: bool
  pm_usageGeneration :: "64 word"
  pm_usageCtx :: "nat option"
  pm_usageRefreshDone :: "nat option"
  pm_cancelled :: "nat list"
  pm_nextID :: nat

definition accountProtectionPlanRefreshInterval :: int where
  "accountProtectionPlanRefreshInterval = 30 * 1000000000"

definition accountProtectionUsageRefreshInterval :: int where
  "accountProtectionUsageRefreshInterval = 500000000"

definition usageMaxAdvance :: int where "usageMaxAdvance = 5 + 1"

text \<open>\<open>now.Sub(loadedAt)\<close> saturates at the greatest duration when nothing was loaded.\<close>

definition age_since :: "int \<Rightarrow> int option \<Rightarrow> int" where
  "age_since now loadedAt = (case loadedAt of None \<Rightarrow> 2 ^ 63 - 1 | Some t \<Rightarrow> now - t)"

definition alive :: "protectionManager \<Rightarrow> nat option \<Rightarrow> bool" where
  "alive m ctx = (case ctx of None \<Rightarrow> False | Some c \<Rightarrow> c \<notin> set (pm_cancelled m))"

definition cancel :: "nat option \<Rightarrow> protectionManager \<Rightarrow> protectionManager" where
  "cancel ctx m = (case ctx of None \<Rightarrow> m | Some c \<Rightarrow> m\<lparr>pm_cancelled := c # pm_cancelled m\<rparr>)"

section \<open>Configuration\<close>

definition stopPlanRefreshLocked :: "protectionManager \<Rightarrow> protectionManager" where
  "stopPlanRefreshLocked m = cancel (pm_plansCtx m)
     (m\<lparr>pm_plansCtx := None, pm_plansRefreshDone := None, pm_plansRefreshing := False,
        pm_plansGeneration := pm_plansGeneration m + 1\<rparr>)"

definition stopUsageRefreshLocked :: "protectionManager \<Rightarrow> protectionManager" where
  "stopUsageRefreshLocked m = cancel (pm_usageCtx m)
     (m\<lparr>pm_usageCtx := None, pm_usageRefreshDone := None, pm_usageRefreshing := False,
        pm_usageGeneration := pm_usageGeneration m + 1, pm_usageDB := None, pm_usageSince := 0,
        pm_usageLoadedAt := None, pm_usage := None\<rparr>)"

definition protection_stop :: "protectionManager \<Rightarrow> protectionManager" where
  "protection_stop m = stopUsageRefreshLocked (stopPlanRefreshLocked m)"

text \<open>\<open>accounts\<close> are the configured accounts read from the auth files.\<close>

definition protection_configure :: "pluginConfig \<Rightarrow> configuredAccount list \<Rightarrow> int \<Rightarrow> protectionManager \<Rightarrow> protectionManager" where
  "protection_configure cfg accounts now m0 =
     (let m = stopUsageRefreshLocked (stopPlanRefreshLocked m0);
          enabled = cf_AccountProtectionEnabled cfg;
          next = pm_nextID m
      in m\<lparr>pm_cfg := cfg,
           pm_plans := (if enabled then configuredProtectionPlanIndex accounts else []),
           pm_plansLoadedAt := now, pm_plansRefreshing := False,
           pm_plansGeneration := pm_plansGeneration m + 1,
           pm_plansCtx := (if enabled then Some next else None),
           pm_usageDB := None, pm_usageSince := 0, pm_usageLoadedAt := None, pm_usage := None,
           pm_usageRefreshing := False, pm_usageGeneration := pm_usageGeneration m + 1,
           pm_usageCtx := (if enabled then Some (next + 1) else None),
           pm_usageRefreshDone := None,
           pm_nextID := next + 2\<rparr>)"

section \<open>The plan index\<close>

record plan_refresh =
  pf_ctx :: nat
  pf_generation :: "64 word"
  pf_done :: nat

definition configuredPlans :: "int \<Rightarrow> protectionManager \<Rightarrow> plan_index \<times> plan_refresh option \<times> protectionManager" where
  "configuredPlans now m =
     (case pm_plansCtx m of
        Some ctx \<Rightarrow>
          if cf_AccountProtectionEnabled (pm_cfg m) \<and> alive m (Some ctx) \<and> \<not> pm_plansRefreshing m
             \<and> accountProtectionPlanRefreshInterval \<le> now - pm_plansLoadedAt m
          then (pm_plans m, Some \<lparr>pf_ctx = ctx, pf_generation = pm_plansGeneration m, pf_done = pm_nextID m\<rparr>,
                m\<lparr>pm_plansRefreshing := True, pm_plansRefreshStarted := pm_plansGeneration m,
                  pm_plansRefreshDone := Some (pm_nextID m), pm_nextID := pm_nextID m + 1\<rparr>)
          else (pm_plans m, None, m)
      | None \<Rightarrow> (pm_plans m, None, m))"

text \<open>The end of \<open>refreshConfiguredPlans\<close>: what it loaded is published only under its own context and generation.\<close>

definition refreshConfiguredPlans :: "plan_refresh \<Rightarrow> plan_index \<Rightarrow> int \<Rightarrow> protectionManager \<Rightarrow> protectionManager" where
  "refreshConfiguredPlans r plans now m =
     (if \<not> alive m (Some (pf_ctx r)) \<or> pm_plansCtx m \<noteq> Some (pf_ctx r) \<or> pm_plansGeneration m \<noteq> pf_generation r
         \<or> pm_plansRefreshStarted m \<noteq> pf_generation r then m
      else m\<lparr>pm_plans := plans, pm_plansLoadedAt := now, pm_plansRefreshing := False, pm_plansRefreshDone := None\<rparr>)"

section \<open>The token index\<close>

record usage_refresh =
  uf_ctx :: nat
  uf_generation :: "64 word"
  uf_db :: nat
  uf_cachedSince :: int
  uf_targetSince :: int
  uf_done :: nat

definition cachedUsageIndex :: "nat \<Rightarrow> int \<Rightarrow> int \<Rightarrow> protectionManager \<Rightarrow> protectionUsageIndex option \<times> bool \<times> bool" where
  "cachedUsageIndex db since now m =
     (if pm_usageDB m \<noteq> Some db \<or> pm_usage m = None \<or> since < pm_usageSince m then (None, False, False)
      else let age = max 0 (age_since now (pm_usageLoadedAt m));
               fresh = (since - pm_usageSince m \<le> usageMaxAdvance \<and> age < accountProtectionUsageRefreshInterval)
           in (pm_usage m, fresh, True))"

definition seedUsageIndex :: "nat \<Rightarrow> int \<Rightarrow> protectionManager \<Rightarrow> protectionUsageIndex option \<times> protectionManager" where
  "seedUsageIndex db since m =
     (if pm_usageDB m = Some db \<and> pm_usage m \<noteq> None \<and> pm_usageSince m \<le> since then (pm_usage m, m)
      else let usage = newProtectionUsageIndex []
           in (Some usage, m\<lparr>pm_usageDB := Some db, pm_usageSince := since, pm_usageLoadedAt := None, pm_usage := Some usage\<rparr>))"

definition startUsageRefresh :: "nat \<Rightarrow> int \<Rightarrow> int \<Rightarrow> protectionManager \<Rightarrow> bool \<times> usage_refresh option \<times> protectionManager" where
  "startUsageRefresh db since now m =
     (if pm_usageDB m \<noteq> Some db \<or> pm_usage m = None \<or> since < pm_usageSince m then (False, None, m)
      else if since - pm_usageSince m \<le> usageMaxAdvance
              \<and> age_since now (pm_usageLoadedAt m) < accountProtectionUsageRefreshInterval then (True, None, m)
      else if pm_usageRefreshing m then (True, None, m)
      else case pm_usageCtx m of
             None \<Rightarrow> (False, None, m)
           | Some ctx \<Rightarrow>
               if \<not> alive m (Some ctx) then (False, None, m)
               else (True, Some \<lparr>uf_ctx = ctx, uf_generation = pm_usageGeneration m, uf_db = db,
                                 uf_cachedSince = pm_usageSince m, uf_targetSince = since, uf_done = pm_nextID m\<rparr>,
                     m\<lparr>pm_usageRefreshing := True, pm_usageRefreshDone := Some (pm_nextID m), pm_nextID := pm_nextID m + 1\<rparr>))"

text \<open>\<open>loadUsageIndex\<close>: a fresh index as it is, a stale one while a refresh runs, else an empty one.\<close>

definition loadUsageIndex :: "nat \<Rightarrow> int \<Rightarrow> int \<Rightarrow> protectionManager
    \<Rightarrow> protectionUsageIndex option \<times> usage_refresh option \<times> protectionManager" where
  "loadUsageIndex db since now m =
     (let (usage, fresh, stale) = cachedUsageIndex db since now m
      in if fresh then (usage, None, m)
         else if stale then (let (_, started, m1) = startUsageRefresh db since now m in (usage, started, m1))
         else let (seeded, m1) = seedUsageIndex db since m;
                  (_, started, m2) = startUsageRefresh db since now m1
              in (seeded, started, m2))"

definition usageRefreshCurrent :: "usage_refresh \<Rightarrow> protectionManager \<Rightarrow> bool" where
  "usageRefreshCurrent r m \<longleftrightarrow> pm_usageCtx m = Some (uf_ctx r) \<and> pm_usageGeneration m = uf_generation r
     \<and> pm_usageRefreshDone m = Some (uf_done r) \<and> alive m (Some (uf_ctx r))"

text \<open>The publication at the end of \<open>refreshUsageIndex\<close>, and its deferred \<open>finishUsageRefresh\<close>.\<close>

definition publishUsageIndex :: "usage_refresh \<Rightarrow> protectionUsageSample list \<Rightarrow> int \<Rightarrow> protectionManager \<Rightarrow> protectionManager" where
  "publishUsageIndex r usage now m =
     (if pm_usageCtx m = Some (uf_ctx r) \<and> pm_usageGeneration m = uf_generation r \<and> pm_usageRefreshDone m = Some (uf_done r)
         \<and> pm_usageDB m = Some (uf_db r) \<and> pm_usageSince m = uf_cachedSince r \<and> alive m (Some (uf_ctx r))
      then m\<lparr>pm_usageDB := Some (uf_db r), pm_usageSince := uf_targetSince r, pm_usageLoadedAt := Some now,
             pm_usage := Some (newProtectionUsageIndex usage)\<rparr>
      else m)"

definition finishUsageRefresh :: "usage_refresh \<Rightarrow> protectionManager \<Rightarrow> protectionManager" where
  "finishUsageRefresh r m =
     (if pm_usageCtx m = Some (uf_ctx r) \<and> pm_usageGeneration m = uf_generation r \<and> pm_usageRefreshDone m = Some (uf_done r)
      then m\<lparr>pm_usageRefreshing := False, pm_usageRefreshDone := None\<rparr> else m)"

section \<open>Runs with background refreshes\<close>

text \<open>
  The manager with the refreshes that were started; each is tagged with the number of configurations
  and stops before it started. A refresh may publish or finish at any later time, in any order, or never.
\<close>

record manager_world =
  mw_manager :: protectionManager
  mw_epoch :: nat
  mw_plans :: "(plan_refresh \<times> nat) list"
  mw_usage :: "(usage_refresh \<times> nat) list"

definition started :: "nat \<Rightarrow> 'r option \<Rightarrow> ('r \<times> nat) list" where
  "started epoch r = (case r of None \<Rightarrow> [] | Some r \<Rightarrow> [(r, epoch)])"

inductive manager_step :: "manager_world \<Rightarrow> manager_world \<Rightarrow> bool" where
  configure: "manager_step w (w\<lparr>mw_manager := protection_configure cfg accounts now (mw_manager w), mw_epoch := Suc (mw_epoch w)\<rparr>)"
| stop: "manager_step w (w\<lparr>mw_manager := protection_stop (mw_manager w), mw_epoch := Suc (mw_epoch w)\<rparr>)"
| read_plans: "configuredPlans now (mw_manager w) = (plans, r, m) \<Longrightarrow>
    manager_step w (w\<lparr>mw_manager := m, mw_plans := started (mw_epoch w) r @ mw_plans w\<rparr>)"
| publish_plans: "(r, e) \<in> set (mw_plans w) \<Longrightarrow>
    manager_step w (w\<lparr>mw_manager := refreshConfiguredPlans r plans now (mw_manager w)\<rparr>)"
| load_usage: "loadUsageIndex db since now (mw_manager w) = (usage, r, m) \<Longrightarrow>
    manager_step w (w\<lparr>mw_manager := m, mw_usage := started (mw_epoch w) r @ mw_usage w\<rparr>)"
| publish_usage: "(r, e) \<in> set (mw_usage w) \<Longrightarrow>
    manager_step w (w\<lparr>mw_manager := publishUsageIndex r usage now (mw_manager w)\<rparr>)"
| finish_usage: "(r, e) \<in> set (mw_usage w) \<Longrightarrow>
    manager_step w (w\<lparr>mw_manager := finishUsageRefresh r (mw_manager w)\<rparr>)"

inductive_cases manager_stepE: "manager_step w w'"

definition manager_inv :: "manager_world \<Rightarrow> bool" where
  "manager_inv w \<longleftrightarrow>
     (\<forall>(r, e)\<in>set (mw_plans w). if e = mw_epoch w then pm_plansCtx (mw_manager w) = Some (pf_ctx r)
        else pf_ctx r \<in> set (pm_cancelled (mw_manager w)))
   \<and> (\<forall>(r, e)\<in>set (mw_usage w). if e = mw_epoch w then pm_usageCtx (mw_manager w) = Some (uf_ctx r)
        else uf_ctx r \<in> set (pm_cancelled (mw_manager w)))
   \<and> (\<forall>(r, e)\<in>set (mw_plans w). e \<le> mw_epoch w) \<and> (\<forall>(r, e)\<in>set (mw_usage w). e \<le> mw_epoch w)
   \<and> usage_ok (pm_usage (mw_manager w))"

text \<open>What each operation leaves alone.\<close>

lemma new_index_ok [simp]: "usage_ok (Some (newProtectionUsageIndex us))" "usage_ok None"
  by (simp_all add: usage_ok_def newProtectionUsageIndex_def)

lemma configuredPlans_frame:
  assumes "configuredPlans now m = (plans, r, m')"
  shows "pm_plansCtx m' = pm_plansCtx m \<and> pm_usageCtx m' = pm_usageCtx m \<and> pm_cancelled m' = pm_cancelled m
       \<and> pm_usage m' = pm_usage m \<and> (\<forall>x. r = Some x \<longrightarrow> pm_plansCtx m = Some (pf_ctx x))"
  using assms by (auto simp: configuredPlans_def split: option.splits if_splits)

lemma refreshConfiguredPlans_frame [simp]:
  "pm_plansCtx (refreshConfiguredPlans r plans now m) = pm_plansCtx m"
  "pm_usageCtx (refreshConfiguredPlans r plans now m) = pm_usageCtx m"
  "pm_cancelled (refreshConfiguredPlans r plans now m) = pm_cancelled m"
  "pm_usage (refreshConfiguredPlans r plans now m) = pm_usage m"
  by (simp_all add: refreshConfiguredPlans_def)

lemma startUsageRefresh_frame:
  assumes "startUsageRefresh db since now m = (b, r, m')"
  shows "pm_plansCtx m' = pm_plansCtx m \<and> pm_usageCtx m' = pm_usageCtx m \<and> pm_cancelled m' = pm_cancelled m
       \<and> pm_usage m' = pm_usage m \<and> pm_usageDB m' = pm_usageDB m \<and> pm_usageSince m' = pm_usageSince m
       \<and> (\<forall>x. r = Some x \<longrightarrow> pm_usageCtx m = Some (uf_ctx x))"
  using assms by (auto simp: startUsageRefresh_def split: option.splits if_splits)

lemma seedUsageIndex_frame:
  assumes "seedUsageIndex db since m = (u, m')"
  shows "pm_plansCtx m' = pm_plansCtx m \<and> pm_usageCtx m' = pm_usageCtx m \<and> pm_cancelled m' = pm_cancelled m
       \<and> (usage_ok (pm_usage m) \<longrightarrow> usage_ok (pm_usage m'))
       \<and> u = pm_usage m' \<and> pm_usage m' \<noteq> None \<and> pm_usageDB m' = Some db \<and> pm_usageSince m' \<le> since"
  using assms by (auto simp: seedUsageIndex_def Let_def simp del: not_None_eq split: if_splits)

lemma loadUsageIndex_frame:
  assumes "loadUsageIndex db since now m = (u, r, m')"
  shows "pm_plansCtx m' = pm_plansCtx m \<and> pm_usageCtx m' = pm_usageCtx m \<and> pm_cancelled m' = pm_cancelled m
       \<and> (usage_ok (pm_usage m) \<longrightarrow> usage_ok (pm_usage m')) \<and> (\<forall>x. r = Some x \<longrightarrow> pm_usageCtx m = Some (uf_ctx x))
       \<and> u = pm_usage m' \<and> pm_usage m' \<noteq> None \<and> pm_usageDB m' = Some db \<and> pm_usageSince m' \<le> since"
proof -
  obtain c fresh stale where c: "cachedUsageIndex db since now m = (c, fresh, stale)" by (metis prod_cases3)
  obtain s m1 where s: "seedUsageIndex db since m = (s, m1)" by fastforce
  obtain b2 r2 m2 where r2: "startUsageRefresh db since now m = (b2, r2, m2)" by (metis prod_cases3)
  obtain b3 r3 m3 where r3: "startUsageRefresh db since now m1 = (b3, r3, m3)" by (metis prod_cases3)
  have hit: "c = pm_usage m \<and> c \<noteq> None \<and> pm_usageDB m = Some db \<and> pm_usageSince m \<le> since" if "fresh \<or> stale"
    using c that by (auto simp: cachedUsageIndex_def Let_def simp del: not_None_eq split: if_splits)
  show ?thesis
    using assms hit seedUsageIndex_frame [OF s] startUsageRefresh_frame [OF r2] startUsageRefresh_frame [OF r3]
    by (auto simp: loadUsageIndex_def c s r2 r3 Let_def simp del: not_None_eq split: if_splits)
qed

lemma publishUsageIndex_frame [simp]:
  "pm_plansCtx (publishUsageIndex r us now m) = pm_plansCtx m"
  "pm_usageCtx (publishUsageIndex r us now m) = pm_usageCtx m"
  "pm_cancelled (publishUsageIndex r us now m) = pm_cancelled m"
  "usage_ok (pm_usage m) \<Longrightarrow> usage_ok (pm_usage (publishUsageIndex r us now m))"
  by (simp_all add: publishUsageIndex_def)

lemma finishUsageRefresh_frame [simp]:
  "pm_plansCtx (finishUsageRefresh r m) = pm_plansCtx m"
  "pm_usageCtx (finishUsageRefresh r m) = pm_usageCtx m"
  "pm_cancelled (finishUsageRefresh r m) = pm_cancelled m"
  "pm_usage (finishUsageRefresh r m) = pm_usage m"
  by (simp_all add: finishUsageRefresh_def)

lemma stop_frame:
  "set (pm_cancelled (protection_stop m)) = set (pm_cancelled m) \<union> set_option (pm_plansCtx m) \<union> set_option (pm_usageCtx m)"
  "pm_usage (protection_stop m) = None"
  by (auto simp: protection_stop_def stopUsageRefreshLocked_def stopPlanRefreshLocked_def cancel_def split: option.split)

lemma configure_frame:
  "pm_cancelled (protection_configure cfg accounts now m) = pm_cancelled (protection_stop m)"
  "pm_usage (protection_configure cfg accounts now m) = None"
  by (simp_all add: protection_configure_def protection_stop_def Let_def)

lemma manager_step_inv:
  assumes "manager_step w w'" "manager_inv w"
  shows "manager_inv w'"
proof -
  note i = assms(2) [unfolded manager_inv_def]
  have reset: "manager_inv (w\<lparr>mw_manager := m, mw_epoch := Suc (mw_epoch w)\<rparr>)"
    if "set (pm_cancelled m) = set (pm_cancelled (protection_stop (mw_manager w)))" "pm_usage m = None" for m
    using i that stop_frame(1) [of "mw_manager w"] by (fastforce simp: manager_inv_def split: if_splits)
  from assms(1) show ?thesis
  proof cases
    case (read_plans now plans r m)
    show ?thesis unfolding read_plans(1)
      using i configuredPlans_frame [OF read_plans(2)] by (cases r) (auto simp: manager_inv_def started_def)
  next
    case (load_usage db since now usage r m)
    show ?thesis unfolding load_usage(1)
      using i loadUsageIndex_frame [OF load_usage(2)] by (cases r) (auto simp: manager_inv_def started_def)
  next
    case (publish_usage r e usage now)
    then show ?thesis using i by (simp add: manager_inv_def split del: if_split cong: if_cong)
  next
    case (publish_plans r e plans now)
    then show ?thesis using i by (simp add: manager_inv_def split del: if_split cong: if_cong)
  next
    case (finish_usage r e)
    then show ?thesis using i by (simp add: manager_inv_def split del: if_split cong: if_cong)
  next
    case (configure cfg accounts now)
    then show ?thesis by (simp add: reset configure_frame)
  next
    case stop
    then show ?thesis by (simp add: reset stop_frame)
  qed
qed

definition manager_start :: "pluginConfig \<Rightarrow> manager_world" where
  "manager_start cfg = \<lparr>mw_manager = \<lparr>pm_cfg = cfg, pm_plans = [], pm_plansLoadedAt = 0, pm_plansRefreshing = False,
     pm_plansGeneration = 0, pm_plansRefreshStarted = 0, pm_plansCtx = None, pm_plansRefreshDone = None, pm_usageDB = None,
     pm_usageSince = 0, pm_usageLoadedAt = None, pm_usage = None, pm_usageRefreshing = False, pm_usageGeneration = 0,
     pm_usageCtx = None, pm_usageRefreshDone = None, pm_cancelled = [], pm_nextID = 0\<rparr>,
     mw_epoch = 0, mw_plans = [], mw_usage = []\<rparr>"

lemma reachable_inv: "manager_step\<^sup>*\<^sup>* (manager_start cfg) w \<Longrightarrow> manager_inv w"
proof (induction rule: rtranclp_induct)
  case base
  show ?case by (simp add: manager_inv_def manager_start_def)
qed (rule manager_step_inv)

definition example_config :: pluginConfig where
  "example_config = defaultPluginConfig\<lparr>cf_AccountProtectionEnabled := True\<rparr>"

definition example_managed :: "nat \<Rightarrow> manager_world" where
  "example_managed n = (if n = 0 then manager_start example_config
     else if n = 1 then (manager_start example_config)\<lparr>mw_manager := protection_configure example_config [] 0 (mw_manager (manager_start example_config)), mw_epoch := 1\<rparr>
     else let w = (manager_start example_config)\<lparr>mw_manager := protection_configure example_config [] 0 (mw_manager (manager_start example_config)), mw_epoch := 1\<rparr>;
              (plans, r, m) = configuredPlans 40000000000 (mw_manager w);
              (usage, u, m') = loadUsageIndex 7 100 40000000000 m;
              w' = w\<lparr>mw_manager := m', mw_plans := started 1 r, mw_usage := started 1 u\<rparr>
          in if n = 2 then w' else w'\<lparr>mw_manager := protection_stop m', mw_epoch := 2\<rparr>)"

lemma example_managed_reachable: "manager_step\<^sup>*\<^sup>* (manager_start example_config) (example_managed 3)"
proof -
  let ?w0 = "manager_start example_config" and ?w1 = "example_managed 1"
  obtain plans r m where p: "configuredPlans 40000000000 (mw_manager ?w1) = (plans, r, m)" by (metis prod_cases3)
  obtain usage u m' where l: "loadUsageIndex 7 100 40000000000 m = (usage, u, m')" by (metis prod_cases3)
  let ?a = "?w1\<lparr>mw_manager := m, mw_plans := started (mw_epoch ?w1) r @ mw_plans ?w1\<rparr>"
  have "manager_step ?w0 ?w1"
    using manager_step.configure [of ?w0 example_config "[]" 0] by (simp add: example_managed_def manager_start_def)
  also have "manager_step\<^sup>*\<^sup>* ?w1 ?a" using manager_step.read_plans [OF p] by simp
  also have "manager_step\<^sup>*\<^sup>* ?a (example_managed 2)"
    using manager_step.load_usage [of 7 100 40000000000 ?a usage u m'] l p
    by (simp add: example_managed_def manager_start_def Let_def)
  also have "manager_step (example_managed 2) (example_managed 3)"
    using manager_step.stop [of "example_managed 2"] l p
    by (simp add: example_managed_def manager_start_def Let_def numeral_2_eq_2)
  finally show ?thesis by simp
qed

section \<open>Properties\<close>

text \<open>C35: An abandoned refresh never publishes. In every reachable state, a plan refresh or token refresh that can
  still change the caches was started since the last configuration or stop, however many
  refreshes are still running, whatever they loaded, and even if the 64-bit generation wraps.\<close>

theorem abandoned_refresh_never_publishes:
  assumes "manager_step\<^sup>*\<^sup>* (manager_start cfg) w"
    and "(p, e) \<in> set (mw_plans w)" "(u, f) \<in> set (mw_usage w)"
  shows "(e = mw_epoch w \<or> refreshConfiguredPlans p plans now (mw_manager w) = mw_manager w)
       \<and> (f = mw_epoch w \<or> publishUsageIndex u samples now (mw_manager w) = mw_manager w)"
  using reachable_inv [OF assms(1)] assms(2,3)
  by (auto simp: manager_inv_def refreshConfiguredPlans_def publishUsageIndex_def alive_def split: if_splits)

theorem abandoned_refresh_never_publishes_witness:
  "let w = example_managed 3; (p, e) = hd (mw_plans w); (u, f) = hd (mw_usage w)
   in e \<noteq> mw_epoch w \<and> refreshConfiguredPlans p [(''a'', ''pro'')] 5 (mw_manager w) = mw_manager w
    \<and> publishUsageIndex u [] 5 (mw_manager w) = mw_manager w"
proof -
  let ?w = "example_managed 3"
  have n: "mw_plans ?w \<noteq> []" "mw_usage ?w \<noteq> []" "snd (hd (mw_plans ?w)) = 1" "snd (hd (mw_usage ?w)) = 1" "mw_epoch ?w = 2"
    by code_simp+
  obtain p e u f where h: "hd (mw_plans ?w) = (p, e)" "hd (mw_usage ?w) = (u, f)" by fastforce
  have "(p, e) \<in> set (mw_plans ?w)" "(u, f) \<in> set (mw_usage ?w)" using n(1,2) h by (metis hd_in_set)+
  from abandoned_refresh_never_publishes [OF example_managed_reachable this, of "[(''a'', ''pro'')]" 5 "[]"]
  show ?thesis using n h by (simp add: Let_def)
qed

text \<open>A served token index is consistent and wide enough. In every reachable state a pick gets an
  index whose alias table is that of its samples, which the cache holds for the database of the pick
  and for a window that starts no later than the one asked for; the request never waits for the
  database and never gets none.\<close>

theorem served_usage_index:
  assumes "manager_step\<^sup>*\<^sup>* (manager_start cfg) w"
    and "loadUsageIndex db since now (mw_manager w) = (usage, refresh, m)"
  shows "usage_ok usage \<and> usage \<noteq> None \<and> usage = pm_usage m \<and> pm_usageDB m = Some db \<and> pm_usageSince m \<le> since"
  using reachable_inv [OF assms(1)] loadUsageIndex_frame [OF assms(2)] by (simp add: manager_inv_def)

theorem served_usage_index_witness:
  "let (usage, refresh, m) = loadUsageIndex 7 100 5 (mw_manager (example_managed 3))
   in usage_ok usage \<and> usage \<noteq> None \<and> pm_usageDB m = Some 7 \<and> pm_usageSince m \<le> 100"
proof -
  obtain usage refresh m where l: "loadUsageIndex 7 100 5 (mw_manager (example_managed 3)) = (usage, refresh, m)"
    by (metis prod_cases3)
  show ?thesis unfolding l Let_def prod.case using served_usage_index [OF example_managed_reachable l] by blast
qed

end
