(* ===== verification/Store.thy ===== *)
theory Store
  imports Restrictions "HOL-Library.Product_Lexorder"
begin

text \<open>
  The restriction tables of the database and the queries that read the active rows
  (\<open>queryActiveAutobans\<close>, \<open>queryActiveInvalidAuths\<close>, \<open>queryActiveXAIStates\<close>). A table is the
  list of its rows in storage order; the text columns the queries compute are blank in a
  table. A query that fails is not modelled here: its callers take the result as an argument.
\<close>

section \<open>Tables\<close>

record store_db =
  db_bans :: "autobanRow list"
  db_invalids :: "invalidAuthRow list"
  db_xai :: "xaiAccountStateRow list"

definition unixTime :: "sched_env \<Rightarrow> int \<Rightarrow> string" where
  "unixTime env ts = (if ts \<le> 0 then [] else env_unixTime env ts)"

definition resetAfterRestore :: string where
  "resetAfterRestore = bytes [0xE8, 0xAE, 0xA4, 0xE8, 0xAF, 0x81, 0xE6, 0x96, 0x87, 0xE4, 0xBB, 0xB6, 0xE6, 0x81, 0xA2,
     0xE5, 0xA4, 0x8D, 0xE5, 0x90, 0x8E, 0xE8, 0xA7, 0xA3, 0xE9, 0x99, 0xA4]"

section \<open>Queries\<close>

text \<open>Rows that tie in the order of the query come in storage order.\<close>

definition scanAutoban :: "sched_env \<Rightarrow> int \<Rightarrow> autobanRow \<Rightarrow> autobanRow" where
  "scanAutoban env now r =
     r\<lparr>ab_AuthFile := firstNonEmptyString [fileNameIfJSON (ab_AuthID r), fileNameIfJSON (ab_AuthIndex r), fileNameIfJSON (ab_Source r)],
       ab_BannedAtText := unixTime env (ab_BannedAt r),
       ab_ResetAtText := unixTime env (ab_ResetAt r),
       ab_SecondsRemaining := (if now < ab_ResetAt r then ab_ResetAt r - now else 0)\<rparr>"

definition queryActiveAutobans :: "sched_env \<Rightarrow> autobanRow list \<Rightarrow> string \<Rightarrow> int \<Rightarrow> (string, autobanRow list) result" where
  "queryActiveAutobans env table provider now =
     bind_result (requiredCanonicalProvider provider) (\<lambda>p.
       Inr (map (scanAutoban env now)
             (sort_key (\<lambda>r. - ab_ResetAt r)
                (filter (\<lambda>r. ab_Provider r = p \<and> ab_Active r \<and> now < ab_ResetAt r) table))))"

definition queryActiveInvalidAuths :: "sched_env \<Rightarrow> invalidAuthRow list \<Rightarrow> string \<Rightarrow> (string, invalidAuthRow list) result" where
  "queryActiveInvalidAuths env table provider =
     bind_result (requiredCanonicalProvider provider) (\<lambda>p.
       Inr (map (\<lambda>r. r\<lparr>ia_InvalidatedAtText := unixTime env (ia_InvalidatedAt r)\<rparr>)
             (sort_key (\<lambda>r. - ia_InvalidatedAt r)
                (filter (\<lambda>r. ia_Provider r = p \<and> ia_Active r) table))))"

definition scanXAIState :: "sched_env \<Rightarrow> int \<Rightarrow> xaiAccountStateRow \<Rightarrow> xaiAccountStateRow" where
  "scanXAIState env now r =
     r\<lparr>xs_ObservedAtText := unixTime env (xs_ObservedAt r),
       xs_ResetAtText := (if 0 < xs_ResetAt r then unixTime env (xs_ResetAt r) else resetAfterRestore),
       xs_SecondsRemaining := (if 0 < xs_ResetAt r then max 0 (xs_ResetAt r - now) else -1)\<rparr>"

definition queryActiveXAIStates :: "sched_env \<Rightarrow> xaiAccountStateRow list \<Rightarrow> string \<Rightarrow> int \<Rightarrow> (string, xaiAccountStateRow list) result" where
  "queryActiveXAIStates env table provider now =
     bind_result (requiredCanonicalProvider provider) (\<lambda>p.
       Inr (map (scanXAIState env now)
             (sort_key (\<lambda>r. (if xs_ResetAt r = 0 then 1 else 0 :: int, xs_ResetAt r, - xs_ObservedAt r))
                (filter (\<lambda>r. xs_Provider r = p \<and> xs_Active r \<and> (xs_ResetAt r = 0 \<or> now < xs_ResetAt r)) table))))"

lemma requiredCanonicalProvider_known [simp]:
  "requiredCanonicalProvider providerCodex = Inr providerCodex" "requiredCanonicalProvider providerXAI = Inr providerXAI"
  by code_simp+

lemma set_query_bans:
  "queryActiveAutobans env table providerCodex now = Inr rows \<Longrightarrow>
   set rows = scanAutoban env now ` {r \<in> set table. ab_Provider r = providerCodex \<and> ab_Active r \<and> now < ab_ResetAt r}"
  by (auto simp: queryActiveAutobans_def)

lemma set_query_invalids:
  "queryActiveInvalidAuths env table providerCodex = Inr rows \<Longrightarrow>
   set rows = (\<lambda>r. r\<lparr>ia_InvalidatedAtText := unixTime env (ia_InvalidatedAt r)\<rparr>) `
     {r \<in> set table. ia_Provider r = providerCodex \<and> ia_Active r}"
  by (auto simp: queryActiveInvalidAuths_def)

lemma set_query_xai:
  "queryActiveXAIStates env table providerXAI now = Inr rows \<Longrightarrow>
   set rows = scanXAIState env now `
     {r \<in> set table. xs_Provider r = providerXAI \<and> xs_Active r \<and> (xs_ResetAt r = 0 \<or> now < xs_ResetAt r)}"
  by (auto simp: queryActiveXAIStates_def)

text \<open>The columns a query computes do not change what a row restricts.\<close>

lemma scanXAIState_aliases [simp]: "xaiRowAliases (scanXAIState env now r) = xaiRowAliases r"
  by (simp add: scanXAIState_def xaiRowAliases_def xaiStateAliases_def Let_def)

end
