(* ===== verification/State_Cache.thy ===== *)
theory State_Cache
  imports Store
begin

text \<open>
  The scheduler state cache (\<open>scheduler_state.go\<close>): per provider a published snapshot, a 64-bit
  generation and the number of restriction writes in flight. The operations of the cache, the
  staleness rule of a pick, and the protocol between writers, readers and the database as a
  step relation. The main result: while the generation has not wrapped, a published snapshot
  restricts every candidate that some committed restriction restricts.
\<close>

section \<open>The cache\<close>

text \<open>
  The struct holds the same four fields for codex and for xAI; a slot is the four fields of one
  provider.
\<close>

record 'row provider_slot =
  sl_Initialized :: bool
  sl_Snapshot :: "'row schedulerSnapshot option"
  sl_Generation :: "64 word"
  sl_Pending :: int

record schedulerStateCache =
  sc_codex :: "autobanRow provider_slot"
  sc_xai :: "xaiAccountStateRow provider_slot"

record schedulerStateGeneration =
  g_codex :: "64 word"
  g_xai :: "64 word"

definition empty_slot :: "'row provider_slot" where
  "empty_slot = \<lparr>sl_Initialized = False, sl_Snapshot = None, sl_Generation = 0, sl_Pending = 0\<rparr>"

definition empty_cache :: schedulerStateCache where
  "empty_cache = \<lparr>sc_codex = empty_slot, sc_xai = empty_slot\<rparr>"

definition schedulerSnapshotStaleGrace :: int where "schedulerSnapshotStaleGrace = 5 * 1000000000"

section \<open>Operations on one provider\<close>

definition slot_invalidate :: "'row provider_slot \<Rightarrow> 'row provider_slot" where
  "slot_invalidate s = s\<lparr>sl_Initialized := False, sl_Snapshot := None, sl_Generation := sl_Generation s + 1\<rparr>"

definition slot_begin_write :: "'row provider_slot \<Rightarrow> 'row provider_slot" where
  "slot_begin_write s =
     s\<lparr>sl_Generation := sl_Generation s + 1, sl_Pending := sl_Pending s + 1,
       sl_Initialized := False, sl_Snapshot := None\<rparr>"

definition slot_finish_write :: "'row provider_slot \<Rightarrow> 'row provider_slot" where
  "slot_finish_write s =
     s\<lparr>sl_Pending := (if 0 < sl_Pending s then sl_Pending s - 1 else sl_Pending s),
       sl_Generation := sl_Generation s + 1, sl_Initialized := False, sl_Snapshot := None\<rparr>"

definition slot_publish :: "64 word \<Rightarrow> 'row schedulerSnapshot option \<Rightarrow> 'row provider_slot \<Rightarrow> bool \<times> 'row provider_slot" where
  "slot_publish generation snapshot s =
     (if sl_Generation s \<noteq> generation \<or> 0 < sl_Pending s then (False, s)
      else (True, s\<lparr>sl_Generation := sl_Generation s + 1, sl_Initialized := True, sl_Snapshot := snapshot\<rparr>))"

text \<open>\<open>codex\<close> and \<open>xai\<close>: the snapshot if it is initialised, not past its earliest reset and not expired.\<close>

definition slot_read :: "sched_env \<Rightarrow> int \<Rightarrow> 'row provider_slot \<Rightarrow> 'row schedulerSnapshot option" where
  "slot_read env now s =
     (if \<not> sl_Initialized s then None
      else case sl_Snapshot s of None \<Rightarrow> None
           | Some sn \<Rightarrow>
               if 0 < sn_earliestResetAt sn \<and> sn_earliestResetAt sn \<le> now then None
               else if sn_expiresAt sn \<noteq> 0 \<and> \<not> env_now env < sn_expiresAt sn then None
               else Some sn)"

text \<open>The zero time of Go is \<open>0\<close> here; \<open>time.Unix(t, 0)\<close> is \<open>t\<close> seconds in nanoseconds.\<close>

definition unix_nano :: "int \<Rightarrow> int" where "unix_nano t = t * 1000000000"

definition schedulerSnapshotStaleState :: "sched_env \<Rightarrow> int \<Rightarrow> int \<Rightarrow> int \<Rightarrow> bool \<times> bool" where
  "schedulerSnapshotStaleState env expiresAt earliestResetAt now =
     (let observedAt = max (env_now env) (unix_nano now);
          resetSince = (if 0 < earliestResetAt \<and> earliestResetAt \<le> now then Some (unix_nano earliestResetAt) else None);
          staleSince = (if expiresAt \<noteq> 0 \<and> \<not> observedAt < expiresAt
                           \<and> (case resetSince of None \<Rightarrow> True | Some t \<Rightarrow> expiresAt < t)
                        then Some expiresAt else resetSince)
      in case staleSince of None \<Rightarrow> (False, True)
         | Some t \<Rightarrow> (True, observedAt - t \<le> schedulerSnapshotStaleGrace))"

definition slot_for_pick ::
  "sched_env \<Rightarrow> int \<Rightarrow> 'row provider_slot \<Rightarrow> 'row schedulerSnapshot option \<times> bool \<times> bool" where
  "slot_for_pick env now s =
     (if \<not> sl_Initialized s then (None, False, False)
      else case sl_Snapshot s of None \<Rightarrow> (None, False, False)
           | Some sn \<Rightarrow>
               let (stale, ok) = schedulerSnapshotStaleState env (sn_expiresAt sn) (sn_earliestResetAt sn) now
               in if \<not> ok then (None, stale, False) else (Some sn, stale, True))"

section \<open>Operations of the cache\<close>

datatype known_provider = Codex | XAI

definition provider_of :: "string \<Rightarrow> known_provider option" where
  "provider_of value =
     (let p = ToLower (TrimSpace value)
      in if p = ''codex'' then Some Codex else if p = ''xai'' then Some XAI else None)"

text \<open>The operations that return a flag say whether they ask the background worker for a refresh.\<close>

definition cache_invalidate :: "schedulerStateCache \<Rightarrow> schedulerStateCache" where
  "cache_invalidate c = c\<lparr>sc_codex := slot_invalidate (sc_codex c), sc_xai := slot_invalidate (sc_xai c)\<rparr>"

definition invalidateProvider :: "string \<Rightarrow> schedulerStateCache \<Rightarrow> bool \<times> schedulerStateCache" where
  "invalidateProvider provider c =
     (case provider_of provider of
        Some Codex \<Rightarrow> (True, c\<lparr>sc_codex := slot_invalidate (sc_codex c)\<rparr>)
      | Some XAI \<Rightarrow> (True, c\<lparr>sc_xai := slot_invalidate (sc_xai c)\<rparr>)
      | None \<Rightarrow> (False, c))"

definition needsDatabase :: "sched_env \<Rightarrow> string \<Rightarrow> bool \<Rightarrow> schedulerStateCache \<Rightarrow> bool" where
  "needsDatabase env provider protectionEnabled c =
     (if protectionEnabled \<and> EqualFold (TrimSpace provider) ''codex'' then True
      else case provider_of provider of
             Some Codex \<Rightarrow> slot_read env (env_unix env) (sc_codex c) = None
           | Some XAI \<Rightarrow> slot_read env (env_unix env) (sc_xai c) = None
           | None \<Rightarrow> False)"

definition generations :: "schedulerStateCache \<Rightarrow> schedulerStateGeneration" where
  "generations c = \<lparr>g_codex = sl_Generation (sc_codex c), g_xai = sl_Generation (sc_xai c)\<rparr>"

definition slot_bump :: "'row provider_slot \<Rightarrow> 'row provider_slot" where
  "slot_bump s = s\<lparr>sl_Generation := sl_Generation s + 1\<rparr>"

definition beginRefresh :: "schedulerStateCache \<Rightarrow> schedulerStateGeneration \<times> schedulerStateCache" where
  "beginRefresh c =
     (let c' = c\<lparr>sc_codex := slot_bump (sc_codex c), sc_xai := slot_bump (sc_xai c)\<rparr> in (generations c', c'))"

definition providerGeneration :: "string \<Rightarrow> schedulerStateCache \<Rightarrow> 64 word" where
  "providerGeneration provider c =
     (case provider_of provider of
        Some Codex \<Rightarrow> sl_Generation (sc_codex c)
      | Some XAI \<Rightarrow> sl_Generation (sc_xai c)
      | None \<Rightarrow> 0)"

definition publishCodexIfGeneration ::
  "64 word \<Rightarrow> codexSchedulerSnapshot option \<Rightarrow> schedulerStateCache \<Rightarrow> bool \<times> schedulerStateCache" where
  "publishCodexIfGeneration generation snapshot c =
     (let (ok, s) = slot_publish generation snapshot (sc_codex c) in (ok, c\<lparr>sc_codex := s\<rparr>))"

definition publishXAIIfGeneration ::
  "64 word \<Rightarrow> xaiSchedulerSnapshot option \<Rightarrow> schedulerStateCache \<Rightarrow> bool \<times> schedulerStateCache" where
  "publishXAIIfGeneration generation snapshot c =
     (let (ok, s) = slot_publish generation snapshot (sc_xai c) in (ok, c\<lparr>sc_xai := s\<rparr>))"

definition publishCodexOrCurrent ::
  "sched_env \<Rightarrow> 64 word \<Rightarrow> codexSchedulerSnapshot \<Rightarrow> int \<Rightarrow> schedulerStateCache
   \<Rightarrow> codexSchedulerSnapshot option \<times> schedulerStateCache" where
  "publishCodexOrCurrent env generation snapshot now c =
     (let (ok, c') = publishCodexIfGeneration generation (Some snapshot) c
      in if ok then (Some snapshot, c') else (slot_read env now (sc_codex c'), c'))"

definition publishXAIOrCurrent ::
  "sched_env \<Rightarrow> 64 word \<Rightarrow> xaiSchedulerSnapshot \<Rightarrow> int \<Rightarrow> schedulerStateCache
   \<Rightarrow> xaiSchedulerSnapshot option \<times> schedulerStateCache" where
  "publishXAIOrCurrent env generation snapshot now c =
     (let (ok, c') = publishXAIIfGeneration generation (Some snapshot) c
      in if ok then (Some snapshot, c') else (slot_read env now (sc_xai c'), c'))"

definition clearRestrictedIfGeneration ::
  "sched_env \<Rightarrow> string \<Rightarrow> 64 word \<Rightarrow> schedulerStateCache \<Rightarrow> bool \<times> schedulerStateCache" where
  "clearRestrictedIfGeneration env provider generation c =
     (case provider_of provider of
        Some Codex \<Rightarrow> publishCodexIfGeneration generation (Some (newCodexSchedulerSnapshot env [] [] (env_unix env))) c
      | Some XAI \<Rightarrow> publishXAIIfGeneration generation (Some (newXAISchedulerSnapshot env [] (env_unix env))) c
      | None \<Rightarrow> (False, c))"

text \<open>What \<open>applySnapshotRefresh\<close> does to one provider.\<close>

definition slot_apply_snapshot :: "64 word \<Rightarrow> 'row schedulerSnapshot option \<Rightarrow> 'row provider_slot \<Rightarrow> 'row provider_slot" where
  "slot_apply_snapshot generation snapshot s =
     (if sl_Generation s = generation \<and> sl_Pending s = 0
      then s\<lparr>sl_Generation := sl_Generation s + 1, sl_Initialized := True, sl_Snapshot := snapshot\<rparr>
      else s)"

definition applySnapshotRefresh ::
  "schedulerStateGeneration \<Rightarrow> codexSchedulerSnapshot option \<Rightarrow> xaiSchedulerSnapshot option
   \<Rightarrow> schedulerStateCache \<Rightarrow> schedulerStateCache" where
  "applySnapshotRefresh generation codex xai c =
     c\<lparr>sc_codex := slot_apply_snapshot (g_codex generation) codex (sc_codex c),
       sc_xai := slot_apply_snapshot (g_xai generation) xai (sc_xai c)\<rparr>"

text \<open>The older transition: a restricted provider becomes unknown, a healthy one gets an empty snapshot.\<close>

definition slot_apply_refresh ::
  "64 word \<Rightarrow> bool \<Rightarrow> 'row schedulerSnapshot \<Rightarrow> 'row provider_slot \<Rightarrow> 'row provider_slot" where
  "slot_apply_refresh generation restricted healthy s =
     (if sl_Generation s = generation \<and> sl_Pending s = 0
      then if restricted then s\<lparr>sl_Generation := sl_Generation s + 1, sl_Initialized := False, sl_Snapshot := None\<rparr>
           else s\<lparr>sl_Generation := sl_Generation s + 1, sl_Initialized := True, sl_Snapshot := Some healthy\<rparr>
      else s)"

definition applyRefresh ::
  "sched_env \<Rightarrow> schedulerStateGeneration \<Rightarrow> bool \<Rightarrow> bool \<Rightarrow> schedulerStateCache \<Rightarrow> schedulerStateCache" where
  "applyRefresh env generation codexRestricted xaiRestricted c =
     c\<lparr>sc_codex := slot_apply_refresh (g_codex generation) codexRestricted
                     (newCodexSchedulerSnapshot env [] [] (env_unix env)) (sc_codex c),
       sc_xai := slot_apply_refresh (g_xai generation) xaiRestricted
                     (newXAISchedulerSnapshot env [] (env_unix env)) (sc_xai c)\<rparr>"

definition slot_set_healthy :: "'row schedulerSnapshot \<Rightarrow> 'row provider_slot \<Rightarrow> 'row provider_slot" where
  "slot_set_healthy healthy s =
     (if 0 < sl_Pending s then s
      else s\<lparr>sl_Generation := sl_Generation s + 1, sl_Initialized := True, sl_Snapshot := Some healthy\<rparr>)"

definition setRestricted :: "sched_env \<Rightarrow> string \<Rightarrow> bool \<Rightarrow> schedulerStateCache \<Rightarrow> bool \<times> schedulerStateCache" where
  "setRestricted env provider restricted c =
     (if restricted then invalidateProvider provider c
      else case provider_of provider of
             Some Codex \<Rightarrow> (False, c\<lparr>sc_codex := slot_set_healthy (newCodexSchedulerSnapshot env [] [] (env_unix env)) (sc_codex c)\<rparr>)
           | Some XAI \<Rightarrow> (False, c\<lparr>sc_xai := slot_set_healthy (newXAISchedulerSnapshot env [] (env_unix env)) (sc_xai c)\<rparr>)
           | None \<Rightarrow> (False, c))"

definition beginRestrictionWrite :: "string \<Rightarrow> schedulerStateCache \<Rightarrow> schedulerStateCache" where
  "beginRestrictionWrite provider c =
     (case provider_of provider of
        Some Codex \<Rightarrow> c\<lparr>sc_codex := slot_begin_write (sc_codex c)\<rparr>
      | Some XAI \<Rightarrow> c\<lparr>sc_xai := slot_begin_write (sc_xai c)\<rparr>
      | None \<Rightarrow> c)"

definition finishRestrictionWrite :: "string \<Rightarrow> schedulerStateCache \<Rightarrow> bool \<times> schedulerStateCache" where
  "finishRestrictionWrite provider c =
     (case provider_of provider of
        Some Codex \<Rightarrow> (True, c\<lparr>sc_codex := slot_finish_write (sc_codex c)\<rparr>)
      | Some XAI \<Rightarrow> (True, c\<lparr>sc_xai := slot_finish_write (sc_xai c)\<rparr>)
      | None \<Rightarrow> (False, c))"

text \<open>
  \<open>refresh\<close> in its three phases: the generations are taken before the queries, and the snapshots
  are applied after them. \<open>db\<close> is what the queries see; their failure leaves the cache with the new
  generations.
\<close>

definition refresh_apply ::
  "sched_env \<Rightarrow> schedulerStateGeneration \<Rightarrow> (string, store_db) result \<Rightarrow> schedulerStateCache
   \<Rightarrow> (string, unit) result \<times> schedulerStateCache" where
  "refresh_apply env generation db c =
     (case bind_result db (\<lambda>t. bind_result (queryActiveAutobans env (db_bans t) providerCodex (env_unix env)) (\<lambda>bans.
              bind_result (queryActiveInvalidAuths env (db_invalids t) providerCodex) (\<lambda>invalids.
              bind_result (queryActiveXAIStates env (db_xai t) providerXAI (env_unix env)) (\<lambda>states.
              Inr (newCodexSchedulerSnapshot env bans invalids (env_unix env),
                   newXAISchedulerSnapshot env states (env_unix env)))))) of
        Inl err \<Rightarrow> (Inl err, c)
      | Inr (codex, xai) \<Rightarrow> (Inr (), applySnapshotRefresh generation (Some codex) (Some xai) c))"

section \<open>The protocol of writers, readers and the database\<close>

text \<open>
  One provider seen over time: its slot, the tables, the wall clock in seconds, the number of
  restriction writes in flight, the readers (the generation each one took, how many
  generations there had been, and the snapshot its query built) and the true number of generations.
\<close>

record ('row, 'db) protocol =
  pr_slot :: "'row provider_slot"
  pr_db :: 'db
  pr_now :: int
  pr_writers :: nat
  pr_readers :: "(64 word \<times> nat \<times> 'row schedulerSnapshot option) list"
  pr_generations :: nat

definition protocol_init :: "'db \<Rightarrow> int \<Rightarrow> ('row, 'db) protocol" where
  "protocol_init db now = \<lparr>pr_slot = empty_slot, pr_db = db, pr_now = now, pr_writers = 0, pr_readers = [], pr_generations = 0\<rparr>"

text \<open>
  A writer brackets its statement with \<open>beginRestrictionWrite\<close> and \<open>finishRestrictionWrite\<close>; the
  statement may change the tables in any way, or fail. Outside such a bracket the tables may
  only lose restrictions (releases, expiry, cleanup). A reader takes the generation (a background refresh
  by \<open>beginRefresh\<close>, a pick by \<open>providerGeneration\<close>), queries, and then a pick publishes
  (\<open>publishCodexIfGeneration\<close>, \<open>publishXAIIfGeneration\<close>) and a refresh applies (\<open>applySnapshotRefresh\<close>)
  what it built. Each may also give up, or publish late.
\<close>

inductive protocol_step :: "(sched_env \<Rightarrow> 'db \<Rightarrow> 'row schedulerSnapshot) \<Rightarrow> ('db \<Rightarrow> 'db \<Rightarrow> bool)
    \<Rightarrow> ('row, 'db) protocol \<Rightarrow> ('row, 'db) protocol \<Rightarrow> bool" for build removes where
  step_begin: "protocol_step build removes s
     (s\<lparr>pr_slot := slot_begin_write (pr_slot s), pr_writers := Suc (pr_writers s), pr_generations := Suc (pr_generations s)\<rparr>)"
| step_commit: "0 < pr_writers s \<Longrightarrow> protocol_step build removes s (s\<lparr>pr_db := db\<rparr>)"
| step_finish: "0 < pr_writers s \<Longrightarrow> protocol_step build removes s
     (s\<lparr>pr_slot := slot_finish_write (pr_slot s), pr_writers := pr_writers s - 1, pr_generations := Suc (pr_generations s)\<rparr>)"
| step_remove: "removes db (pr_db s) \<Longrightarrow> protocol_step build removes s (s\<lparr>pr_db := db\<rparr>)"
| step_tick: "pr_now s \<le> now \<Longrightarrow> protocol_step build removes s (s\<lparr>pr_now := now\<rparr>)"
| step_invalidate: "protocol_step build removes s
     (s\<lparr>pr_slot := slot_invalidate (pr_slot s), pr_generations := Suc (pr_generations s)\<rparr>)"
| step_refresh: "protocol_step build removes s
     (s\<lparr>pr_slot := slot_bump (pr_slot s), pr_generations := Suc (pr_generations s),
        pr_readers := (sl_Generation (pr_slot s) + 1, Suc (pr_generations s), None) # pr_readers s\<rparr>)"
| step_read: "protocol_step build removes s
     (s\<lparr>pr_readers := (sl_Generation (pr_slot s), pr_generations s, None) # pr_readers s\<rparr>)"
| step_query: "pr_readers s = before @ (g, n, sn) # after \<Longrightarrow> env_unix env = pr_now s \<Longrightarrow>
   protocol_step build removes s (s\<lparr>pr_readers := before @ (g, n, Some (build env (pr_db s))) # after\<rparr>)"
| step_publish: "(g, n, Some sn) \<in> set (pr_readers s) \<Longrightarrow> slot_publish g (Some sn) (pr_slot s) = (ok, slot) \<Longrightarrow>
   protocol_step build removes s
     (s\<lparr>pr_slot := slot, pr_generations := (if ok then Suc else id) (pr_generations s)\<rparr>)"
| step_apply: "(g, n, Some sn) \<in> set (pr_readers s) \<Longrightarrow> slot = slot_apply_snapshot g (Some sn) (pr_slot s) \<Longrightarrow>
   protocol_step build removes s
     (s\<lparr>pr_slot := slot, pr_generations := (if slot = pr_slot s then id else Suc) (pr_generations s)\<rparr>)"

text \<open>
  The interface between the cache and a provider: what the tables restrict at a time, and what
  a snapshot restricts. Building a snapshot loses nothing; removing rows and the passing of time
  only lift restrictions.
\<close>

locale restriction_source =
  fixes build :: "sched_env \<Rightarrow> 'db \<Rightarrow> 'row schedulerSnapshot"
    and removes :: "'db \<Rightarrow> 'db \<Rightarrow> bool"
    and blocks :: "int \<Rightarrow> 'db \<Rightarrow> schedulerAuthCandidate \<Rightarrow> bool"
    and matches :: "'row schedulerSnapshot \<Rightarrow> schedulerAuthCandidate \<Rightarrow> bool"
  assumes build_blocks: "blocks (env_unix env) db c \<Longrightarrow> matches (build env db) c"
    and removes_blocks: "removes db' db \<Longrightarrow> blocks now db' c \<Longrightarrow> blocks now db c"
    and time_blocks: "now \<le> later \<Longrightarrow> blocks later db c \<Longrightarrow> blocks now db c"
begin

definition covers :: "('row, 'db) protocol \<Rightarrow> 'row schedulerSnapshot \<Rightarrow> bool" where
  "covers s sn \<longleftrightarrow> (\<forall>c. blocks (pr_now s) (pr_db s) c \<longrightarrow> matches sn c)"

definition inv :: "('row, 'db) protocol \<Rightarrow> bool" where
  "inv s \<longleftrightarrow>
     sl_Pending (pr_slot s) = int (pr_writers s)
   \<and> sl_Generation (pr_slot s) = of_nat (pr_generations s)
   \<and> (\<forall>(g, n, _)\<in>set (pr_readers s). g = of_nat n \<and> n \<le> pr_generations s)
   \<and> (0 < pr_writers s \<longrightarrow> \<not> sl_Initialized (pr_slot s))
   \<and> (pr_generations s < 2 ^ 64 \<longrightarrow>
        (sl_Initialized (pr_slot s) \<longrightarrow> (\<exists>sn. sl_Snapshot (pr_slot s) = Some sn \<and> covers s sn))
      \<and> (pr_writers s = 0 \<longrightarrow>
           (\<forall>(g, n, osn)\<in>set (pr_readers s). n = pr_generations s \<longrightarrow> (\<forall>sn. osn = Some sn \<longrightarrow> covers s sn))))"

lemma inv_init: "inv (protocol_init db now)"
  by (simp add: inv_def protocol_init_def empty_slot_def)

lemma covers_weaken:
  "covers s sn \<Longrightarrow> (\<And>c. blocks (pr_now s') (pr_db s') c \<Longrightarrow> blocks (pr_now s) (pr_db s) c) \<Longrightarrow> covers s' sn"
  by (auto simp: covers_def)

text \<open>What a reader built under the current generation, with no writer in flight, covers the tables.\<close>

lemma inv_reader:
  assumes "inv s" "(g, n, Some sn) \<in> set (pr_readers s)" "sl_Generation (pr_slot s) = g" "pr_writers s = 0"
    and "pr_generations s < 2 ^ 64"
  shows "covers s sn"
proof -
  have "g = of_nat n" "n \<le> pr_generations s" using assms(1,2) by (auto simp: inv_def)
  then have "(of_nat n :: 64 word) = of_nat (pr_generations s)" using assms(1,3) by (simp add: inv_def)
  then have "unat (of_nat n :: 64 word) = unat (of_nat (pr_generations s) :: 64 word)" by simp
  then have "n = pr_generations s" using assms(5) \<open>n \<le> pr_generations s\<close> by (simp add: unat_of_nat)
  with assms show ?thesis by (fastforce simp: inv_def)
qed

lemma inv_step:
  assumes "protocol_step build removes s s'" and "inv s"
  shows "inv s'"
  using assms
proof (cases rule: protocol_step.cases)
  case step_begin
  with assms(2) show ?thesis
    by (auto simp: inv_def slot_begin_write_def)
next
  case (step_commit db)
  with assms(2) show ?thesis by (auto simp: inv_def)
next
  case step_finish
  with assms(2) show ?thesis by (auto simp: inv_def slot_finish_write_def of_nat_diff)
next
  case (step_remove db)
  have "covers s sn \<Longrightarrow> covers s' sn" for sn
    using step_remove removes_blocks by (auto simp: covers_def)
  with step_remove assms(2) show ?thesis by (fastforce simp: inv_def)
next
  case (step_tick now)
  have "covers s sn \<Longrightarrow> covers s' sn" for sn
    using step_tick time_blocks by (auto simp: covers_def)
  with step_tick assms(2) show ?thesis by (fastforce simp: inv_def)
next
  case step_invalidate
  with assms(2) show ?thesis by (auto simp: inv_def slot_invalidate_def)
next
  case step_refresh
  with assms(2) show ?thesis by (auto simp: inv_def slot_bump_def covers_def)
next
  case step_read
  with assms(2) show ?thesis by (auto simp: inv_def covers_def)
next
  case (step_query before g n sn after env)
  have new: "covers s' (build env (pr_db s))"
    using step_query build_blocks [of env "pr_db s"] by (auto simp: covers_def)
  with step_query assms(2) show ?thesis by (auto simp: inv_def covers_def)
next
  case (step_publish g n sn ok slot)
  show ?thesis
  proof (cases ok)
    case False
    with step_publish have "slot = pr_slot s" by (auto simp: slot_publish_def split: if_splits)
    with False step_publish assms(2) show ?thesis by (simp add: inv_def covers_def)
  next
    case True
    with step_publish have slot: "sl_Generation (pr_slot s) = g" "\<not> 0 < sl_Pending (pr_slot s)"
      "slot = (pr_slot s)\<lparr>sl_Generation := sl_Generation (pr_slot s) + 1, sl_Initialized := True, sl_Snapshot := Some sn\<rparr>"
      by (auto simp: slot_publish_def split: if_splits)
    have w: "pr_writers s = 0" using slot(2) assms(2) by (simp add: inv_def)
    have sn: "covers s sn" if "pr_generations s < 2 ^ 64"
      using assms(2) step_publish(2) slot(1) w that by (rule inv_reader)
    with True step_publish slot w assms(2) show ?thesis by (auto simp: inv_def covers_def)
  qed
next
  case (step_apply g n sn slot)
  show ?thesis
  proof (cases "sl_Generation (pr_slot s) = g \<and> sl_Pending (pr_slot s) = 0")
    case False
    with step_apply assms(2) show ?thesis by (auto simp: inv_def covers_def slot_apply_snapshot_def)
  next
    case True
    then have w: "pr_writers s = 0" using assms(2) by (simp add: inv_def)
    have sn: "covers s sn" if "pr_generations s < 2 ^ 64"
      using assms(2) step_apply(2) True w that by (blast intro: inv_reader)
    have slot: "slot = (pr_slot s)\<lparr>sl_Generation := sl_Generation (pr_slot s) + 1, sl_Initialized := True, sl_Snapshot := Some sn\<rparr>"
      using step_apply(3) True by (simp add: slot_apply_snapshot_def)
    moreover have "sl_Generation slot \<noteq> sl_Generation (pr_slot s)" by (simp add: slot)
    then have "slot \<noteq> pr_slot s" by auto
    ultimately show ?thesis using step_apply w sn True assms(2) by (auto simp: inv_def covers_def)
  qed
qed

lemma inv_reachable: "(protocol_step build removes)\<^sup>*\<^sup>* (protocol_init db now) s \<Longrightarrow> inv s"
  by (induction rule: rtranclp_induct) (auto intro: inv_init inv_step)

lemma published_covers:
  assumes "(protocol_step build removes)\<^sup>*\<^sup>* (protocol_init db now) s" and "pr_generations s < 2 ^ 64"
    and "sl_Initialized (pr_slot s)" and "blocks (pr_now s) (pr_db s) c"
  shows "\<exists>sn. sl_Snapshot (pr_slot s) = Some sn \<and> matches sn c"
  using inv_reachable [OF assms(1)] assms(2-4) by (auto simp: inv_def covers_def)

end

section \<open>The codex and xAI restrictions\<close>

text \<open>
  A codex row blocks the candidates its leading identity stands for (all that it restricts, when it names
  one account only: \<open>one_account_restricts\<close>); the tables are bans and invalid credentials.
\<close>

type_synonym codex_tables = "autobanRow list \<times> invalidAuthRow list"

definition scanned_file :: "autobanRow \<Rightarrow> autobanRow" where
  "scanned_file r = r\<lparr>ab_AuthFile :=
     firstNonEmptyString [fileNameIfJSON (ab_AuthID r), fileNameIfJSON (ab_AuthIndex r), fileNameIfJSON (ab_Source r)]\<rparr>"

definition codex_blocks :: "fingerprinter \<Rightarrow> int \<Rightarrow> codex_tables \<Rightarrow> schedulerAuthCandidate \<Rightarrow> bool" where
  "codex_blocks fp now db c \<longleftrightarrow>
     list_ex (\<lambda>r. ab_Provider r = providerCodex \<and> ab_Active r \<and> now < ab_ResetAt r \<and> key_blocks fp (scanned_file r) c) (fst db)
   \<or> list_ex (\<lambda>r. ia_Provider r = providerCodex \<and> ia_Active r \<and> key_blocks fp (invalidAuthAsAutoban r) c) (snd db)"

definition rows_of :: "(string, 'row list) result \<Rightarrow> 'row list" where
  "rows_of r = (case r of Inl _ \<Rightarrow> [] | Inr rows \<Rightarrow> rows)"

text \<open>What a codex reader publishes from the tables, and what it publishes for xAI.\<close>

definition codex_build :: "sched_env \<Rightarrow> codex_tables \<Rightarrow> codexSchedulerSnapshot" where
  "codex_build env db = newCodexSchedulerSnapshot env
     (rows_of (queryActiveAutobans env (fst db) providerCodex (env_unix env)))
     (rows_of (queryActiveInvalidAuths env (snd db) providerCodex)) (env_unix env)"

definition xai_build :: "sched_env \<Rightarrow> xaiAccountStateRow list \<Rightarrow> xaiSchedulerSnapshot" where
  "xai_build env db = newXAISchedulerSnapshot env (rows_of (queryActiveXAIStates env db providerXAI (env_unix env))) (env_unix env)"

definition xai_blocks :: "fingerprinter \<Rightarrow> int \<Rightarrow> xaiAccountStateRow list \<Rightarrow> schedulerAuthCandidate \<Rightarrow> bool" where
  "xai_blocks fp now db c \<longleftrightarrow>
     list_ex (\<lambda>r. xs_Provider r = providerXAI \<and> xs_Active r \<and> (xs_ResetAt r = 0 \<or> now < xs_ResetAt r) \<and> xai_restricts fp r c) db"

text \<open>Releases and clean-ups: every row that is still active was there before, and inactive rows do not count.\<close>

definition codex_removes :: "codex_tables \<Rightarrow> codex_tables \<Rightarrow> bool" where
  "codex_removes db' db \<longleftrightarrow>
     set (filter ab_Active (fst db')) \<subseteq> set (fst db) \<and> set (filter ia_Active (snd db')) \<subseteq> set (snd db)"

definition xai_removes :: "xaiAccountStateRow list \<Rightarrow> xaiAccountStateRow list \<Rightarrow> bool" where
  "xai_removes db' db \<longleftrightarrow> set (filter xs_Active db') \<subseteq> set db"

lemma row_values_scan: "row_values (scanAutoban env now r) = row_values (scanned_file r)"
  by (simp add: row_values_def scanAutoban_def scanned_file_def del: firstNonEmptyString.simps)

lemma row_files_scan: "row_files (scanAutoban env now r) = row_files (scanned_file r)"
  by (simp add: row_files_def scanAutoban_def scanned_file_def del: firstNonEmptyString.simps)

lemma row_key_alias_scan [simp]:
  "row_key_alias (scanAutoban env now r) = row_key_alias (scanned_file r)"
  "row_files (scanAutoban env now r) = row_files (scanned_file r)"
  unfolding row_key_alias_def row_values_scan row_files_scan by (rule refl)+

lemma key_blocks_scan [simp]: "key_blocks fp (scanAutoban env now r) c = key_blocks fp (scanned_file r) c"
  by (simp add: key_blocks_iff)

lemma invalid_text_irrelevant:
  "row_key_alias (invalidAuthAsAutoban (r\<lparr>ia_InvalidatedAtText := t\<rparr>)) = row_key_alias (invalidAuthAsAutoban r)"
  "row_files (invalidAuthAsAutoban (r\<lparr>ia_InvalidatedAtText := t\<rparr>)) = row_files (invalidAuthAsAutoban r)"
  by (simp_all add: row_key_alias_def row_files_def row_values_def invalidAuthAsAutoban_def Let_def split_beta)

lemma key_blocks_invalid [simp]:
  "key_blocks fp (invalidAuthAsAutoban (r\<lparr>ia_InvalidatedAtText := t\<rparr>)) c = key_blocks fp (invalidAuthAsAutoban r) c"
  by (simp add: key_blocks_iff invalid_text_irrelevant)

lemma canonicalProviderOr_codex [simp]: "canonicalProviderOr providerCodex providerCodex = providerCodex"
  by code_simp

lemma codex_build_matches:
  assumes "codex_blocks fp (env_unix env) db c"
  shows "fst (codex_matchIndexes fp (Some (codex_build env db)) c)"
proof -
  let ?bans = "rows_of (queryActiveAutobans env (fst db) providerCodex (env_unix env))"
  let ?inv = "rows_of (queryActiveInvalidAuths env (snd db) providerCodex)"
  have bans: "set ?bans = scanAutoban env (env_unix env) `
      {r \<in> set (fst db). ab_Provider r = providerCodex \<and> ab_Active r \<and> env_unix env < ab_ResetAt r}"
    by (simp add: rows_of_def queryActiveAutobans_def)
  have inv: "set ?inv = (\<lambda>r. r\<lparr>ia_InvalidatedAtText := unixTime env (ia_InvalidatedAt r)\<rparr>) `
      {r \<in> set (snd db). ia_Provider r = providerCodex \<and> ia_Active r}"
    by (simp add: rows_of_def queryActiveInvalidAuths_def)
  have providers: "\<forall>b\<in>set ?bans. canonicalProviderOr (ab_Provider b) providerCodex = providerCodex"
      "\<forall>i\<in>set ?inv. canonicalProviderOr (ia_Provider i) providerCodex = providerCodex"
    unfolding bans inv by (auto simp: scanAutoban_def)
  have "\<exists>r. (r \<in> set ?bans \<or> (\<exists>i\<in>set ?inv. ia_Active i \<and> r = invalidAuthAsAutoban i)) \<and> key_blocks fp r c"
  proof (cases "list_ex (\<lambda>r. ab_Provider r = providerCodex \<and> ab_Active r \<and> env_unix env < ab_ResetAt r
      \<and> key_blocks fp (scanned_file r) c) (fst db)")
    case True
    then obtain r where "r \<in> set (fst db)" "ab_Provider r = providerCodex" "ab_Active r" "env_unix env < ab_ResetAt r"
        "key_blocks fp (scanned_file r) c" by (auto simp: list_ex_iff)
    then have "scanAutoban env (env_unix env) r \<in> set ?bans" "key_blocks fp (scanAutoban env (env_unix env) r) c"
      unfolding bans by auto
    then show ?thesis by blast
  next
    case False
    with assms obtain i where i: "i \<in> set (snd db)" "ia_Provider i = providerCodex" "ia_Active i"
        "key_blocks fp (invalidAuthAsAutoban i) c" by (auto simp: codex_blocks_def list_ex_iff)
    let ?i = "i\<lparr>ia_InvalidatedAtText := unixTime env (ia_InvalidatedAt i)\<rparr>"
    have "?i \<in> set ?inv" unfolding inv using i by blast
    moreover have "ia_Active ?i" "key_blocks fp (invalidAuthAsAutoban ?i) c" using i by simp_all
    ultimately show ?thesis by blast
  qed
  then obtain r where "r \<in> set ?bans \<or> (\<exists>i\<in>set ?inv. ia_Active i \<and> r = invalidAuthAsAutoban i)" "key_blocks fp r c"
    by blast
  then show ?thesis
    unfolding codex_build_def by (intro merged_restricts [OF _ providers]) auto
qed

interpretation codex_source: restriction_source codex_build codex_removes "codex_blocks fp"
    "\<lambda>sn c. fst (codex_matchIndexes fp (Some sn) c)" for fp
proof unfold_locales
  show "codex_blocks fp (env_unix env) db c \<Longrightarrow> fst (codex_matchIndexes fp (Some (codex_build env db)) c)" for env db c
    by (rule codex_build_matches)
  show "codex_removes db' db \<Longrightarrow> codex_blocks fp now db' c \<Longrightarrow> codex_blocks fp now db c" for db' db now c
    by (auto simp: codex_removes_def codex_blocks_def list_ex_iff)
  show "now \<le> later \<Longrightarrow> codex_blocks fp later db c \<Longrightarrow> codex_blocks fp now db c" for now later db c
    by (auto simp: codex_blocks_def list_ex_iff dest: le_less_trans)
qed

interpretation xai_source: restriction_source xai_build xai_removes "xai_blocks fp"
    "\<lambda>sn c. xai_matches fp (Some sn) c" for fp
proof unfold_locales
  show "xai_blocks fp (env_unix env) db c \<Longrightarrow> xai_matches fp (Some (xai_build env db)) c" for env db c
    by (auto simp: xai_build_def xai_matches_snapshot xai_blocks_def rows_of_def queryActiveXAIStates_def list_ex_iff)
  show "xai_removes db' db \<Longrightarrow> xai_blocks fp now db' c \<Longrightarrow> xai_blocks fp now db c" for db' db now c
    by (auto simp: xai_removes_def xai_blocks_def list_ex_iff)
  show "now \<le> later \<Longrightarrow> xai_blocks fp later db c \<Longrightarrow> xai_blocks fp now db c" for now later db c
    by (force simp: xai_blocks_def list_ex_iff)
qed

lemma slot_for_pick_published:
  "slot_for_pick env now slot = (Some sn, stale, ok) \<Longrightarrow> sl_Initialized slot \<and> sl_Snapshot slot = Some sn \<and> ok"
  by (auto simp: slot_for_pick_def Let_def split: if_splits option.splits prod.splits)

section \<open>Properties\<close>

text \<open>The refresh of the background is the step \<open>step_apply\<close> of a reader whose query saw the tables it returns from.\<close>

lemma refresh_apply_step:
  assumes "(g_codex generation, n, Some (codex_build env (db_bans t, db_invalids t))) \<in> set (pr_readers s)"
    and "sc_codex c = pr_slot s"
  shows "\<exists>k. protocol_step codex_build codex_removes s
    (s\<lparr>pr_slot := sc_codex (snd (refresh_apply env generation (Inr t) c)), pr_generations := k\<rparr>)"
proof -
  have "sc_codex (snd (refresh_apply env generation (Inr t) c))
      = slot_apply_snapshot (g_codex generation) (Some (codex_build env (db_bans t, db_invalids t))) (pr_slot s)"
    using assms(2) by (simp add: refresh_apply_def applySnapshotRefresh_def codex_build_def rows_of_def
        queryActiveAutobans_def queryActiveInvalidAuths_def queryActiveXAIStates_def)
  then show ?thesis using step_apply [OF assms(1) refl] by metis
qed

text \<open>C3: The snapshot a pick is given covers the committed restrictions. In every run of writers, background refreshes,
  picks, releases, invalidations and the clock, in any interleaving and while the 64-bit generation has not
  wrapped, the snapshot a pick is given restricts every candidate that the leading identity of an active ban or
  invalid credential of the tables stands for at that moment: its credential file, or for a row without one its first identity.
  (A row that names one account stands for no others, \<open>one_account_restricts\<close>; the further identities of a row may be lost
  when rows are merged, \<open>merge_drops_secondary_alias\<close>.) The pending marker is what makes this true: it keeps a
  pick or a refresh that raced a writer's commit from publishing.\<close>

theorem codex_pick_sees_restrictions:
  assumes "(protocol_step codex_build codex_removes)\<^sup>*\<^sup>* (protocol_init db start) s"
    and "pr_generations s < 2 ^ 64"
    and "slot_for_pick env now (pr_slot s) = (Some sn, stale, ok)"
    and "codex_blocks fp (pr_now s) (pr_db s) c"
  shows "fst (codex_matchIndexes fp (Some sn) c)"
proof -
  have slot: "sl_Initialized (pr_slot s)" "sl_Snapshot (pr_slot s) = Some sn"
    using slot_for_pick_published [OF assms(3)] by auto
  show ?thesis
    using codex_source.published_covers [OF assms(1,2) slot(1) assms(4)] slot(2) by auto
qed

definition example_start :: "(autobanRow, codex_tables) protocol" where
  "example_start = protocol_init ([], []) 0"

definition example_written :: "(autobanRow, codex_tables) protocol" where
  "example_written = example_start\<lparr>pr_slot := empty_slot\<lparr>sl_Generation := 2\<rparr>, pr_db := ([example_ban ''a.json'' ''1'' 9], []),
     pr_generations := 2\<rparr>"

definition example_read :: "(autobanRow, codex_tables) protocol" where
  "example_read = example_written\<lparr>pr_readers := [(2, 2, Some (codex_build (example_env 0) ([example_ban ''a.json'' ''1'' 9], [])))]\<rparr>"

definition example_published :: "(autobanRow, codex_tables) protocol" where
  "example_published = example_read\<lparr>pr_slot := \<lparr>sl_Initialized = True,
       sl_Snapshot = Some (codex_build (example_env 0) ([example_ban ''a.json'' ''1'' 9], [])),
       sl_Generation = 3, sl_Pending = 0\<rparr>, pr_generations := 3\<rparr>"

lemma example_written_reachable: "(protocol_step codex_build codex_removes)\<^sup>*\<^sup>* example_start example_written"
proof -
  let ?step = "protocol_step codex_build codex_removes"
  let ?begun = "example_start\<lparr>pr_slot := slot_begin_write (pr_slot example_start),
     pr_writers := Suc (pr_writers example_start), pr_generations := Suc (pr_generations example_start)\<rparr>"
  let ?committed = "?begun\<lparr>pr_db := ([example_ban ''a.json'' ''1'' 9], [])\<rparr>"
  have s1: "?step example_start ?begun" by (rule step_begin)
  have s2: "?step ?begun ?committed" by (rule step_commit) simp
  have s3: "?step ?committed (?committed\<lparr>pr_slot := slot_finish_write (pr_slot ?committed),
      pr_writers := pr_writers ?committed - 1, pr_generations := Suc (pr_generations ?committed)\<rparr>)"
    by (rule step_finish) simp
  have eq: "?committed\<lparr>pr_slot := slot_finish_write (pr_slot ?committed),
      pr_writers := pr_writers ?committed - 1, pr_generations := Suc (pr_generations ?committed)\<rparr> = example_written"
    by (simp add: example_start_def example_written_def protocol_init_def slot_finish_write_def slot_begin_write_def empty_slot_def)
  show ?thesis
    by (rule converse_rtranclp_into_rtranclp, rule s1, rule converse_rtranclp_into_rtranclp, rule s2,
        rule r_into_rtranclp, rule s3 [unfolded eq])
qed

lemma example_published_reachable: "(protocol_step codex_build codex_removes)\<^sup>*\<^sup>* example_start example_published"
proof -
  let ?step = "protocol_step codex_build codex_removes"
  let ?reading = "example_written\<lparr>pr_readers := [(2, 2, None)]\<rparr>"
  have "?step example_written ?reading"
    using step_read [of codex_build codex_removes example_written]
    by (simp add: example_written_def example_start_def protocol_init_def)
  moreover have "?step ?reading example_read"
    using step_query [of ?reading "[]" 2 2 None "[]" "example_env 0" codex_build codex_removes]
    by (simp add: example_read_def example_written_def example_start_def protocol_init_def env_unix_def example_env_def)
  moreover have "?step example_read example_published"
    using step_publish [of 2 2 "codex_build (example_env 0) ([example_ban ''a.json'' ''1'' 9], [])" example_read True
        "pr_slot example_published" codex_build codex_removes]
    by (simp add: example_published_def example_read_def example_written_def example_start_def protocol_init_def
        slot_publish_def empty_slot_def)
  ultimately show ?thesis using example_written_reachable by (metis rtranclp.rtrancl_into_rtrancl)
qed

lemma example_snapshot_times:
  "sn_expiresAt (codex_build (example_env 0) ([example_ban ''a.json'' ''1'' 9], [])) = 2000000000"
  "sn_earliestResetAt (codex_build (example_env 0) ([example_ban ''a.json'' ''1'' 9], [])) = 9"
  by code_simp+

theorem codex_pick_sees_restrictions_witness:
  "fst (codex_matchIndexes (\<lambda>s. s) (Some (codex_build (example_env 0) ([example_ban ''a.json'' ''1'' 9], [])))
     (example_candidate ''a.json''))"
proof (rule codex_pick_sees_restrictions [OF example_published_reachable [unfolded example_start_def]])
  show "pr_generations example_published < 2 ^ 64" by (simp add: example_published_def)
  show "slot_for_pick (example_env 0) 0 (pr_slot example_published) =
      (Some (codex_build (example_env 0) ([example_ban ''a.json'' ''1'' 9], [])), False, True)"
    by (simp add: slot_for_pick_def example_published_def schedulerSnapshotStaleState_def example_snapshot_times
        unix_nano_def)
  show "codex_blocks (\<lambda>s. s) (pr_now example_published) (pr_db example_published) (example_candidate ''a.json'')"
    by code_simp
qed

text \<open>The same for xAI: the snapshot a pick is given restricts every candidate that shares an alias of
  its kind with an active xAI account state of the table.\<close>

theorem xai_pick_sees_restrictions:
  assumes "(protocol_step xai_build xai_removes)\<^sup>*\<^sup>* (protocol_init db start) s"
    and "pr_generations s < 2 ^ 64"
    and "slot_for_pick env now (pr_slot s) = (Some sn, stale, ok)"
    and "xai_blocks fp (pr_now s) (pr_db s) c"
  shows "xai_matches fp (Some sn) c"
proof -
  have slot: "sl_Initialized (pr_slot s)" "sl_Snapshot (pr_slot s) = Some sn"
    using slot_for_pick_published [OF assms(3)] by auto
  show ?thesis
    using xai_source.published_covers [OF assms(1,2) slot(1) assms(4)] slot(2) by auto
qed

definition example_state :: "string \<Rightarrow> xaiAccountStateRow" where
  "example_state key = \<lparr>xs_StateKey = key, xs_AuthID = [], xs_AuthIndex = [], xs_Source = [], xs_Provider = ''xai'',
     xs_State = ''forbidden'', xs_Reason = [], xs_ObservedAt = 1, xs_ObservedAtText = [], xs_ResetAt = 0, xs_ResetAtText = [],
     xs_SecondsRemaining = 0, xs_Active = True, xs_LastStatusCode = 403, xs_AuthFile = [], xs_AuthFileMTime = 0\<rparr>"

definition example_xai_published :: "(xaiAccountStateRow, xaiAccountStateRow list) protocol" where
  "example_xai_published = (protocol_init [example_state ''b.json''] 0)\<lparr>
     pr_slot := \<lparr>sl_Initialized = True, sl_Snapshot = Some (xai_build (example_env 0) [example_state ''b.json'']),
                 sl_Generation = 1, sl_Pending = 0\<rparr>,
     pr_readers := [(0, 0, Some (xai_build (example_env 0) [example_state ''b.json'']))], pr_generations := 1\<rparr>"

lemma example_xai_reachable:
  "(protocol_step xai_build xai_removes)\<^sup>*\<^sup>* (protocol_init [example_state ''b.json''] 0) example_xai_published"
proof -
  let ?step = "protocol_step xai_build xai_removes" and ?init = "protocol_init [example_state ''b.json''] 0"
  let ?reading = "?init\<lparr>pr_readers := [(0, 0, None)]\<rparr>"
  let ?queried = "?init\<lparr>pr_readers := [(0, 0, Some (xai_build (example_env 0) [example_state ''b.json'']))]\<rparr>"
  have s1: "?step ?init ?reading"
    using step_read [of xai_build xai_removes ?init] by (simp add: protocol_init_def empty_slot_def)
  have s2: "?step ?reading ?queried"
    using step_query [of ?reading "[]" 0 0 None "[]" "example_env 0" xai_build xai_removes]
    by (simp add: protocol_init_def env_unix_def example_env_def)
  have s3: "?step ?queried example_xai_published"
    using step_publish [of 0 0 "xai_build (example_env 0) [example_state ''b.json'']" ?queried True
        "pr_slot example_xai_published" xai_build xai_removes]
    by (simp add: example_xai_published_def protocol_init_def slot_publish_def empty_slot_def)
  show ?thesis
    by (rule converse_rtranclp_into_rtranclp, rule s1, rule converse_rtranclp_into_rtranclp, rule s2,
        rule r_into_rtranclp, rule s3)
qed

theorem xai_pick_sees_restrictions_witness:
  "xai_matches (\<lambda>s. s) (Some (xai_build (example_env 0) [example_state ''b.json''])) (example_candidate ''B.json'')"
proof (rule xai_pick_sees_restrictions [OF example_xai_reachable])
  show "pr_generations example_xai_published < 2 ^ 64" by (simp add: example_xai_published_def)
  have "sn_expiresAt (xai_build (example_env 0) [example_state ''b.json'']) = 2000000000"
      "sn_earliestResetAt (xai_build (example_env 0) [example_state ''b.json'']) = 0" by code_simp+
  then show "slot_for_pick (example_env 0) 0 (pr_slot example_xai_published) =
      (Some (xai_build (example_env 0) [example_state ''b.json'']), False, True)"
    by (simp add: slot_for_pick_def example_xai_published_def schedulerSnapshotStaleState_def unix_nano_def)
  show "xai_blocks (\<lambda>s. s) (pr_now example_xai_published) (pr_db example_xai_published) (example_candidate ''B.json'')"
    by code_simp
qed

text \<open>A stale snapshot is served for five seconds at most: when a pick is given a snapshot, neither its
  expiry nor the earliest reset of its rows lies more than the grace period before the moment of the pick
  (the later of the wall clock and the pick's own time).\<close>

theorem pick_staleness_bounded:
  assumes "slot_for_pick env now slot = (Some sn, stale, ok)"
  shows "(sn_expiresAt sn = 0 \<or> max (env_now env) (unix_nano now) - sn_expiresAt sn \<le> schedulerSnapshotStaleGrace)
       \<and> (sn_earliestResetAt sn \<le> 0 \<or> unix_nano now - unix_nano (sn_earliestResetAt sn) \<le> schedulerSnapshotStaleGrace)"
proof -
  obtain st where "schedulerSnapshotStaleState env (sn_expiresAt sn) (sn_earliestResetAt sn) now = (st, True)"
    using assms by (auto simp: slot_for_pick_def Let_def split: if_splits option.splits prod.splits)
  then show ?thesis
    by (auto simp: schedulerSnapshotStaleState_def Let_def schedulerSnapshotStaleGrace_def unix_nano_def split: if_splits)
qed

theorem pick_staleness_bounded_witness:
  "unix_nano 12 - unix_nano 9 \<le> schedulerSnapshotStaleGrace"
proof -
  let ?sn = "(codex_build (example_env 0) ([example_ban ''a.json'' ''1'' 9], []))\<lparr>sn_expiresAt := 0\<rparr>"
  have "slot_for_pick (example_env 0) 12 (empty_slot\<lparr>sl_Initialized := True, sl_Snapshot := Some ?sn\<rparr>) = (Some ?sn, True, True)"
    by (simp add: slot_for_pick_def schedulerSnapshotStaleState_def example_snapshot_times unix_nano_def
        schedulerSnapshotStaleGrace_def)
  from pick_staleness_bounded [OF this] example_snapshot_times show ?thesis by (simp add: unix_nano_def schedulerSnapshotStaleGrace_def)
qed

end
