(* ===== verification/Revision.thy ===== *)
theory Revision
  imports State_Cache
begin

text \<open>
  Reconciliation with other processes (\<open>provider_revision.go\<close>): the revision counters the
  database keeps, the invalidation of providers whose revision moved, and the loop that binds the
  quarantine snapshot to a privacy revision; with the reading of the quarantine markers of
  \<open>privacy.go\<close>. The main results: a moved revision always leaves its provider unknown, and a
  stabilised snapshot is the one of the revision it is observed under.
\<close>

section \<open>Revisions\<close>

record persistentSchedulerRevisions =
  rv_Codex :: int
  rv_XAI :: int
  rv_Privacy :: int

record persistentSchedulerRevisionState =
  rs_initialized :: bool
  rs_observed :: persistentSchedulerRevisions

definition no_revisions :: persistentSchedulerRevisions where
  "no_revisions = \<lparr>rv_Codex = 0, rv_XAI = 0, rv_Privacy = 0\<rparr>"

definition revision_reset :: "persistentSchedulerRevisions \<Rightarrow> persistentSchedulerRevisionState" where
  "revision_reset revisions = \<lparr>rs_initialized = True, rs_observed = revisions\<rparr>"

definition revision_clear :: persistentSchedulerRevisionState where
  "revision_clear = \<lparr>rs_initialized = False, rs_observed = no_revisions\<rparr>"

definition reconcileProviders ::
  "persistentSchedulerRevisions \<Rightarrow> (string \<Rightarrow> 'c \<Rightarrow> 'c) option \<Rightarrow> persistentSchedulerRevisionState \<times> 'c
   \<Rightarrow> bool \<times> persistentSchedulerRevisionState \<times> 'c" where
  "reconcileProviders revisions invalidate = (\<lambda>(s, c).
     if \<not> rs_initialized s then (False, \<lparr>rs_initialized = True, rs_observed = revisions\<rparr>, c)
     else let observed = rs_observed s;
              c1 = (case invalidate of None \<Rightarrow> c | Some inval \<Rightarrow>
                      if rv_Codex revisions \<noteq> rv_Codex observed then inval providerCodex c else c);
              c2 = (case invalidate of None \<Rightarrow> c1 | Some inval \<Rightarrow>
                      if rv_XAI revisions \<noteq> rv_XAI observed then inval providerXAI c1 else c1)
          in (rv_Privacy revisions \<noteq> rv_Privacy observed,
              s\<lparr>rs_observed := observed\<lparr>rv_Codex := rv_Codex revisions, rv_XAI := rv_XAI revisions\<rparr>\<rparr>, c2))"

definition privacyChanged :: "int \<Rightarrow> persistentSchedulerRevisionState \<Rightarrow> bool" where
  "privacyChanged revision s \<longleftrightarrow> \<not> rs_initialized s \<or> revision \<noteq> rv_Privacy (rs_observed s)"

definition observePrivacy :: "int \<Rightarrow> persistentSchedulerRevisionState \<Rightarrow> persistentSchedulerRevisionState" where
  "observePrivacy revision s =
     (if rs_initialized s then s\<lparr>rs_observed := (rs_observed s)\<lparr>rv_Privacy := revision\<rparr>\<rparr> else s)"

section \<open>Reading the revisions\<close>

definition schedulerRevisionCodexKey :: string where "schedulerRevisionCodexKey = ''scheduler_revision_codex''"
definition schedulerRevisionXAIKey :: string where "schedulerRevisionXAIKey = ''scheduler_revision_xai''"
definition schedulerRevisionPrivacyKey :: string where "schedulerRevisionPrivacyKey = ''scheduler_revision_privacy''"

definition revisionKeys :: "string list" where
  "revisionKeys = [schedulerRevisionCodexKey, schedulerRevisionXAIKey, schedulerRevisionPrivacyKey]"

datatype revision_error =
    InvalidRevision string string
  | MissingRevision string
  | RevisionQuery string
  | UnstableRevision nat
  | ContextDone string

text \<open>The loop over the rows of \<open>store_state\<close>; \<open>ParseInt\<close> to 64 bits in base 10 is \<open>Atoi\<close>.\<close>

fun scan_revisions :: "(string \<times> string) list \<Rightarrow> persistentSchedulerRevisions \<Rightarrow> string list
    \<Rightarrow> (revision_error, persistentSchedulerRevisions \<times> string list) result" where
  "scan_revisions [] revisions seen = Inr (revisions, seen)"
| "scan_revisions ((key, raw) # rows) revisions seen =
     (case Atoi (TrimSpace raw) of
        None \<Rightarrow> Inl (InvalidRevision key raw)
      | Some v \<Rightarrow>
          if v < 0 then Inl (InvalidRevision key raw)
          else if key = schedulerRevisionCodexKey then scan_revisions rows (revisions\<lparr>rv_Codex := v\<rparr>) (key # seen)
          else if key = schedulerRevisionXAIKey then scan_revisions rows (revisions\<lparr>rv_XAI := v\<rparr>) (key # seen)
          else if key = schedulerRevisionPrivacyKey then scan_revisions rows (revisions\<lparr>rv_Privacy := v\<rparr>) (key # seen)
          else scan_revisions rows revisions seen)"

definition queryPersistentSchedulerRevisions ::
  "(string \<times> string) list \<Rightarrow> (revision_error, persistentSchedulerRevisions) result" where
  "queryPersistentSchedulerRevisions store_state =
     bind_result (scan_revisions (filter (\<lambda>(k, v). k \<in> set revisionKeys) store_state) no_revisions []) (\<lambda>(revisions, seen).
       case find (\<lambda>k. k \<notin> set seen) revisionKeys of
         Some key \<Rightarrow> Inl (MissingRevision key)
       | None \<Rightarrow> Inr revisions)"

section \<open>Binding the quarantine snapshot to a revision\<close>

definition privacySnapshotMaxAttempts :: nat where "privacySnapshotMaxAttempts = 8"

text \<open>
  The two callbacks act on a world (the database and the in-memory snapshot, which other
  processes and the refresh change); a context error ends the loop between attempts.
\<close>

fun stabilize_loop ::
  "nat \<Rightarrow> ('w \<Rightarrow> revision_error option) \<Rightarrow> ('w \<Rightarrow> (revision_error, persistentSchedulerRevisions) result \<times> 'w)
   \<Rightarrow> ('w \<Rightarrow> (revision_error, unit) result \<times> 'w) \<Rightarrow> 'w
   \<Rightarrow> (revision_error, persistentSchedulerRevisions) result \<times> 'w" where
  "stabilize_loop 0 ctx_err read_rev refresh w = (Inl (UnstableRevision privacySnapshotMaxAttempts), w)"
| "stabilize_loop (Suc attempts) ctx_err read_rev refresh w =
     (case ctx_err w of
        Some err \<Rightarrow> (Inl err, w)
      | None \<Rightarrow>
          case read_rev w of
            (Inl err, w1) \<Rightarrow> (Inl err, w1)
          | (Inr before, w1) \<Rightarrow>
              case refresh w1 of
                (Inl err, w2) \<Rightarrow> (Inl err, w2)
              | (Inr _, w2) \<Rightarrow>
                  case read_rev w2 of
                    (Inl err, w3) \<Rightarrow> (Inl err, w3)
                  | (Inr after, w3) \<Rightarrow>
                      if rv_Privacy before = rv_Privacy after then (Inr after, w3)
                      else stabilize_loop attempts ctx_err read_rev refresh w3)"

definition stabilizePrivacySnapshot ::
  "('w \<Rightarrow> revision_error option) \<Rightarrow> ('w \<Rightarrow> (revision_error, persistentSchedulerRevisions) result \<times> 'w)
   \<Rightarrow> ('w \<Rightarrow> (revision_error, unit) result \<times> 'w) \<Rightarrow> 'w
   \<Rightarrow> (revision_error, persistentSchedulerRevisions) result \<times> 'w" where
  "stabilizePrivacySnapshot = stabilize_loop privacySnapshotMaxAttempts"

definition refreshStablePrivacySnapshot ::
  "('w \<Rightarrow> revision_error option) \<Rightarrow> ('w \<Rightarrow> (revision_error, persistentSchedulerRevisions) result \<times> 'w)
   \<Rightarrow> ('w \<Rightarrow> (revision_error, unit) result \<times> 'w) \<Rightarrow> persistentSchedulerRevisionState \<times> 'w
   \<Rightarrow> (revision_error, persistentSchedulerRevisions) result \<times> persistentSchedulerRevisionState \<times> 'w" where
  "refreshStablePrivacySnapshot ctx_err read_rev refresh = (\<lambda>(s, w).
     case stabilizePrivacySnapshot ctx_err read_rev refresh w of
       (Inl err, w') \<Rightarrow> (Inl err, s, w')
     | (Inr settled, w') \<Rightarrow> (Inr settled, observePrivacy (rv_Privacy settled) s, w'))"

text \<open>
  \<open>reconcilePersistentSchedulerRevisions\<close> with an open handle; the global store invalidates the
  global cache.
\<close>

definition reconcilePersistentSchedulerRevisions ::
  "bool \<Rightarrow> ('w \<Rightarrow> revision_error option) \<Rightarrow> ('w \<Rightarrow> (revision_error, persistentSchedulerRevisions) result \<times> 'w)
   \<Rightarrow> ('w \<Rightarrow> (revision_error, unit) result \<times> 'w) \<Rightarrow> persistentSchedulerRevisionState \<times> schedulerStateCache \<times> 'w
   \<Rightarrow> (revision_error, unit) result \<times> persistentSchedulerRevisionState \<times> schedulerStateCache \<times> 'w" where
  "reconcilePersistentSchedulerRevisions global ctx_err read_rev refresh = (\<lambda>(s, c, w).
     case read_rev w of
       (Inl err, w1) \<Rightarrow> (Inl err, s, c, w1)
     | (Inr revisions, w1) \<Rightarrow>
         let (changed, s1, c1) = reconcileProviders revisions
               (if global then Some (\<lambda>p c. snd (invalidateProvider p c)) else None) (s, c)
         in if \<not> changed then (Inr (), s1, c1, w1)
            else case read_rev w1 of
                   (Inl err, w2) \<Rightarrow> (Inl err, s1, c1, w2)
                 | (Inr latest, w2) \<Rightarrow>
                     if privacyChanged (rv_Privacy latest) s1
                     then (case refreshStablePrivacySnapshot ctx_err read_rev refresh (s1, w2) of
                             (Inl err, s2, w3) \<Rightarrow> (Inl err, s2, c1, w3)
                           | (Inr _, s2, w3) \<Rightarrow> (Inr (), s2, c1, w3))
                     else (Inr (), s1, c1, w2))"

section \<open>Quarantine markers (\<open>privacy.go\<close>)\<close>

definition apiKeyPrivacyQuarantinePrefix :: string where
  "apiKeyPrivacyQuarantinePrefix = ''api_key_privacy_quarantine_''"

definition normalizedPrivacyQuarantineProvider :: "string \<Rightarrow> string \<Rightarrow> string" where
  "normalizedPrivacyQuarantineProvider provider table =
     (let p = canonicalProvider provider
      in if p \<noteq> [] then p
         else if table = ''xai_account_states'' then providerXAI
         else if table = ''invalid_auths'' \<or> table = ''autoban_bans'' then providerCodex
         else canonicalProviderOr p providerCodex)"

text \<open>The fingerprints of a marker, or \<open>None\<close> when one of them is blank or malformed.\<close>

definition marker_fingerprints :: "string \<Rightarrow> string list option" where
  "marker_fingerprints value =
     (let fs = map (\<lambda>f. ToLower (TrimSpace f)) (Split value (CHR '',''))
      in if fs \<noteq> [] \<and> list_all (\<lambda>f. f \<noteq> [] \<and> isAPIKeyFingerprint f) fs then Some (sort fs) else None)"

definition malformed_reason :: string where
  "malformed_reason = ''privacy quarantine marker is malformed; repair the marker or explicitly remove it only after verifying legacy restrictions''"

definition legacy_reason :: string where
  "legacy_reason = ''legacy API-key identity requires configured-key recovery or explicit restriction release''"

definition load_marker ::
  "(string \<times> string) list \<times> (string \<times> string list) list \<Rightarrow> string \<times> string
   \<Rightarrow> (string \<times> string) list \<times> (string \<times> string list) list" where
  "load_marker = (\<lambda>(reasons, fingerprints) (key, value).
     let provider = ToLower (TrimSpace (TrimPrefix key apiKeyPrivacyQuarantinePrefix))
     in if provider = [] then (reasons, fingerprints)
        else case marker_fingerprints value of
               None \<Rightarrow> (AList.update provider malformed_reason reasons, AList.update provider [] fingerprints)
             | Some stored \<Rightarrow> (AList.update provider legacy_reason reasons, AList.update provider stored fingerprints))"

definition loadAPIKeyPrivacyQuarantine ::
  "(string \<times> string) list \<Rightarrow> (string \<times> string) list \<times> (string \<times> string list) list" where
  "loadAPIKeyPrivacyQuarantine store_state =
     foldl load_marker ([], []) (filter (\<lambda>(k, v). HasPrefix k apiKeyPrivacyQuarantinePrefix) store_state)"

text \<open>\<open>refreshAPIKeyPrivacyQuarantine\<close>: the snapshot the markers of the database give.\<close>

definition quarantine_of :: "(string \<times> string) list \<Rightarrow> quarantine" where
  "quarantine_of store_state = newQuarantineSnapshot (fst (loadAPIKeyPrivacyQuarantine store_state))"

definition first_quarantined :: "quarantine \<Rightarrow> string list \<Rightarrow> (string \<times> string) option" where
  "first_quarantined q providers =
     (case find (\<lambda>p. quarantineReason q p \<noteq> None) providers of
        None \<Rightarrow> None
      | Some p \<Rightarrow> (case quarantineReason q p of None \<Rightarrow> None | Some reason \<Rightarrow> Some (ToLower (TrimSpace p), reason)))"

definition schedulerRequestPrivacyQuarantine :: "quarantine \<Rightarrow> schedulerPickRequest \<Rightarrow> (string \<times> string) option" where
  "schedulerRequestPrivacyQuarantine q req =
     (case q of None \<Rightarrow> None
      | Some _ \<Rightarrow> first_quarantined q (r_Provider req # r_Providers req @ map c_Provider (r_Candidates req)))"

section \<open>A store that other processes write\<close>

text \<open>
  The interface the loop relies on: a revision and the markers it stands for, and the in-memory
  snapshot. Time only moves forward (\<open>later\<close>): the revision never decreases, and as long as it is
  the same the markers are the same (the triggers of the schema bump it with every marker
  write). A read returns the revision of some moment during the call; a refresh loads the
  markers of some moment during the call.
\<close>

locale privacy_store =
  fixes rev_of :: "'w \<Rightarrow> int"
    and markers :: "'w \<Rightarrow> 'm"
    and loaded :: "'w \<Rightarrow> 'm"
    and later :: "'w \<Rightarrow> 'w \<Rightarrow> bool"
    and read_rev :: "'w \<Rightarrow> (revision_error, persistentSchedulerRevisions) result \<times> 'w"
    and refresh :: "'w \<Rightarrow> (revision_error, unit) result \<times> 'w"
  assumes later_trans: "later u v \<Longrightarrow> later v w \<Longrightarrow> later u w"
    and later_rev: "later u v \<Longrightarrow> rev_of u \<le> rev_of v"
    and later_markers: "later u v \<Longrightarrow> rev_of u = rev_of v \<Longrightarrow> markers u = markers v"
    and read_moment: "read_rev w = (Inr r, w') \<Longrightarrow>
      \<exists>u. later w u \<and> later u w' \<and> rv_Privacy r = rev_of u \<and> loaded w' = loaded w"
    and refresh_moment: "refresh w = (Inr x, w') \<Longrightarrow> \<exists>u. later w u \<and> later u w' \<and> loaded w' = markers u"
begin

lemma stable_attempt:
  assumes "read_rev w = (Inr before, w1)" "refresh w1 = (Inr x, w2)" "read_rev w2 = (Inr after, w3)"
    and "rv_Privacy before = rv_Privacy after"
  shows "\<exists>u. later u w3 \<and> rev_of u = rv_Privacy after \<and> markers u = loaded w3"
proof -
  obtain a where a: "later a w1" "rv_Privacy before = rev_of a" using read_moment [OF assms(1)] by blast
  obtain b where b: "later w1 b" "later b w2" "loaded w2 = markers b" using refresh_moment [OF assms(2)] by blast
  obtain d where d: "later w2 d" "later d w3" "rv_Privacy after = rev_of d" "loaded w3 = loaded w2"
    using read_moment [OF assms(3)] by blast
  have ab: "later a b" "later b d" using a b d later_trans by blast+
  then have "rev_of b = rev_of d" using a(2) d(3) assms(4) later_rev [OF ab(1)] later_rev [OF ab(2)] by simp
  then have "markers b = markers d" using ab(2) later_markers by blast
  then show ?thesis using b(3) d by (intro exI [of _ d]) simp
qed

lemma stable_loop:
  "stabilize_loop n ctx_err read_rev refresh w = (Inr revisions, w') \<Longrightarrow>
   \<exists>u. later u w' \<and> rev_of u = rv_Privacy revisions \<and> markers u = loaded w'"
proof (induction n arbitrary: w)
  case (Suc n)
  show ?case
  proof (cases "ctx_err w")
    case None
    obtain r1 w1 where r1: "read_rev w = (r1, w1)" by fastforce
    obtain r2 w2 where r2: "refresh w1 = (r2, w2)" by fastforce
    obtain r3 w3 where r3: "read_rev w2 = (r3, w3)" by fastforce
    obtain before x after where ok: "r1 = Inr before" "r2 = Inr x" "r3 = Inr after"
      using Suc.prems None r1 r2 r3 by (cases r1; cases r2; cases r3) auto
    show ?thesis
    proof (cases "rv_Privacy before = rv_Privacy after")
      case True
      with Suc.prems None r1 r2 r3 ok have "after = revisions" "w3 = w'" by auto
      with stable_attempt [of w before w1 x w2 after w3] True r1 r2 r3 ok show ?thesis by simp
    next
      case False
      with Suc.prems None r1 r2 r3 ok have "stabilize_loop n ctx_err read_rev refresh w3 = (Inr revisions, w')" by simp
      then show ?thesis by (rule Suc.IH)
    qed
  qed (use Suc.prems in simp)
qed simp

end

text \<open>
  The store of the model: the markers, the privacy revision, the snapshot in memory, and the
  writes of other processes, one batch before each access.
\<close>

datatype marker_write = PutMarker string string | DropMarker string

record privacy_world =
  pw_markers :: "(string \<times> string) list"
  pw_revision :: int
  pw_loaded :: quarantine
  pw_pending :: "marker_write list list"

fun apply_marker_write :: "(string \<times> string) list \<times> int \<Rightarrow> marker_write \<Rightarrow> (string \<times> string) list \<times> int" where
  "apply_marker_write (m, r) (PutMarker provider value) =
     (AList.update (apiKeyPrivacyQuarantinePrefix @ provider) value m, r + 1)"
| "apply_marker_write (m, r) (DropMarker provider) =
     (if apiKeyPrivacyQuarantinePrefix @ provider \<in> set (keys m)
      then (AList.delete (apiKeyPrivacyQuarantinePrefix @ provider) m, r + 1) else (m, r))"

definition world_advance :: "privacy_world \<Rightarrow> privacy_world" where
  "world_advance w =
     (case pw_pending w of [] \<Rightarrow> w
      | batch # rest \<Rightarrow>
          let (m, r) = foldl apply_marker_write (pw_markers w, pw_revision w) batch
          in w\<lparr>pw_markers := m, pw_revision := r, pw_pending := rest\<rparr>)"

definition world_read :: "privacy_world \<Rightarrow> (revision_error, persistentSchedulerRevisions) result \<times> privacy_world" where
  "world_read w = (let w' = world_advance w in (Inr (no_revisions\<lparr>rv_Privacy := pw_revision w'\<rparr>), w'))"

definition world_refresh :: "privacy_world \<Rightarrow> (revision_error, unit) result \<times> privacy_world" where
  "world_refresh w = (let w' = world_advance w in (Inr (), w'\<lparr>pw_loaded := quarantine_of (pw_markers w')\<rparr>))"

definition world_later :: "privacy_world \<Rightarrow> privacy_world \<Rightarrow> bool" where
  "world_later w w' \<longleftrightarrow> pw_revision w \<le> pw_revision w' \<and> (pw_revision w = pw_revision w' \<longrightarrow> pw_markers w = pw_markers w')"

lemma apply_marker_writes_later:
  "snd mr \<le> snd (foldl apply_marker_write mr batch)
   \<and> (snd mr = snd (foldl apply_marker_write mr batch) \<longrightarrow> foldl apply_marker_write mr batch = mr)"
proof (induction batch arbitrary: mr)
  case (Cons x batch)
  have "snd mr \<le> snd (apply_marker_write mr x) \<and> (snd mr = snd (apply_marker_write mr x) \<longrightarrow> apply_marker_write mr x = mr)"
    by (cases mr; cases x) auto
  with Cons.IH [of "apply_marker_write mr x"] show ?case
    unfolding foldl_Cons by (metis order_antisym order_trans)
qed simp

lemma world_later_trans: "world_later u v \<Longrightarrow> world_later v w \<Longrightarrow> world_later u w"
  unfolding world_later_def by (metis order_antisym order_trans)

lemma world_later_advance: "world_later w (world_advance w)"
proof (cases "pw_pending w")
  case Nil
  then show ?thesis by (simp add: world_later_def world_advance_def)
next
  case (Cons batch rest)
  obtain m r where "foldl apply_marker_write (pw_markers w, pw_revision w) batch = (m, r)" by fastforce
  with apply_marker_writes_later [of "(pw_markers w, pw_revision w)" batch] Cons show ?thesis
    by (auto simp: world_later_def world_advance_def)
qed

lemma world_advance_loaded [simp]: "pw_loaded (world_advance w) = pw_loaded w"
  by (auto simp: world_advance_def split: list.splits prod.splits)

interpretation world: privacy_store pw_revision "\<lambda>w. quarantine_of (pw_markers w)" pw_loaded world_later world_read world_refresh
proof unfold_locales
  show "world_later u v \<Longrightarrow> world_later v w \<Longrightarrow> world_later u w" for u v w
    by (rule world_later_trans)
  show "world_later u v \<Longrightarrow> pw_revision u \<le> pw_revision v" for u v by (simp add: world_later_def)
  show "world_later u v \<Longrightarrow> pw_revision u = pw_revision v \<Longrightarrow> quarantine_of (pw_markers u) = quarantine_of (pw_markers v)" for u v
    by (simp add: world_later_def)
  have refl: "world_later w w" for w by (simp add: world_later_def)
  show "\<exists>u. world_later w u \<and> world_later u w' \<and> rv_Privacy r = pw_revision u \<and> pw_loaded w' = pw_loaded w"
    if "world_read w = (Inr r, w')" for w r w'
  proof (intro exI [of _ "world_advance w"] conjI)
    from that have w': "w' = world_advance w" by (simp add: world_read_def Let_def)
    show "world_later w (world_advance w)" by (rule world_later_advance)
    show "world_later (world_advance w) w'" unfolding w' by (rule refl)
  qed (use that in \<open>auto simp: world_read_def Let_def\<close>)
  show "\<exists>u. world_later w u \<and> world_later u w' \<and> pw_loaded w' = quarantine_of (pw_markers u)"
    if "world_refresh w = (Inr x, w')" for w x w'
  proof (intro exI [of _ "world_advance w"] conjI)
    show "world_later w (world_advance w)" by (rule world_later_advance)
    show "world_later (world_advance w) w'"
      using that by (auto simp: world_refresh_def Let_def world_later_def)
  qed (use that in \<open>auto simp: world_refresh_def Let_def\<close>)
qed

text \<open>An attempt without a write in between succeeds.\<close>

definition busy_batches :: "privacy_world \<Rightarrow> nat" where
  "busy_batches w = length (filter (\<lambda>b. b \<noteq> []) (pw_pending w))"

lemma advance_busy:
  "busy_batches (world_advance w) \<le> busy_batches w"
  "busy_batches (world_advance w) = busy_batches w \<Longrightarrow> pw_revision (world_advance w) = pw_revision w"
  by (auto simp: world_advance_def busy_batches_def split: list.splits prod.splits if_splits)

lemma stabilize_loop_succeeds:
  "busy_batches w < n \<Longrightarrow>
   \<exists>revisions w'. stabilize_loop n (\<lambda>_. None) world_read world_refresh w = (Inr revisions, w')"
proof (induction n arbitrary: w)
  case (Suc n)
  let ?w1 = "world_advance w"
  let ?w2 = "(world_advance ?w1)\<lparr>pw_loaded := quarantine_of (pw_markers (world_advance ?w1))\<rparr>"
  let ?w3 = "world_advance ?w2"
  have busy2: "busy_batches ?w2 = busy_batches (world_advance ?w1)" by (simp add: busy_batches_def)
  show ?case
  proof (cases "pw_revision ?w1 = pw_revision ?w3")
    case True
    then show ?thesis by (simp add: world_read_def world_refresh_def Let_def)
  next
    case False
    have le: "busy_batches ?w1 \<le> busy_batches w" "busy_batches ?w2 \<le> busy_batches ?w1" "busy_batches ?w3 \<le> busy_batches ?w2"
      using advance_busy(1) [of w] advance_busy(1) [of ?w1] advance_busy(1) [of ?w2] busy2 by simp_all
    have "busy_batches ?w3 \<noteq> busy_batches ?w1"
    proof
      assume "busy_batches ?w3 = busy_batches ?w1"
      then have "busy_batches (world_advance ?w1) = busy_batches ?w1" "busy_batches ?w3 = busy_batches ?w2"
        using le busy2 by simp_all
      then have "pw_revision (world_advance ?w1) = pw_revision ?w1" "pw_revision ?w3 = pw_revision ?w2"
        using advance_busy(2) by blast+
      with False show False by simp
    qed
    with le have "busy_batches ?w3 < busy_batches w" by simp
    then have "busy_batches ?w3 < n" using Suc.prems by simp
    from Suc.IH [OF this] False show ?thesis by (simp add: world_read_def world_refresh_def Let_def)
  qed
qed simp

section \<open>Properties\<close>

text \<open>C38: A quarantine snapshot is never observed under a revision it does not belong to. Whenever the
  stabilising loop returns a revision, the snapshot in memory is the one the markers of exactly that
  revision give, whatever marker writes of other processes happened before, between and after the
  reads and refreshes of all the attempts.\<close>

theorem stabilized_snapshot_matches_revision:
  assumes "stabilizePrivacySnapshot ctx_err world_read world_refresh w = (Inr revisions, w')"
  shows "\<exists>u. pw_revision u = rv_Privacy revisions \<and> world_later u w' \<and> quarantine_of (pw_markers u) = pw_loaded w'"
  using world.stable_loop assms unfolding stabilizePrivacySnapshot_def by blast

definition example_world :: privacy_world where
  "example_world = \<lparr>pw_markers = [], pw_revision = 4, pw_loaded = None,
     pw_pending = [[], [PutMarker ''xai'' ''bad'']]\<rparr>"

definition example_settled :: privacy_world where
  "example_settled = \<lparr>pw_markers = [(''api_key_privacy_quarantine_xai'', ''bad'')], pw_revision = 5,
     pw_loaded = Some [(''xai'', malformed_reason)], pw_pending = []\<rparr>"

lemma example_settles:
  "stabilizePrivacySnapshot (\<lambda>_. None) world_read world_refresh example_world
     = (Inr (no_revisions\<lparr>rv_Privacy := 5\<rparr>), example_settled)"
  by code_simp

theorem stabilized_snapshot_matches_revision_witness:
  "\<exists>u. pw_revision u = 5 \<and> world_later u example_settled \<and> quarantine_of (pw_markers u) = Some [(''xai'', malformed_reason)]"
  using stabilized_snapshot_matches_revision [OF example_settles] by (simp add: example_settled_def)

text \<open>The loop settles as soon as the markers rest. If other processes write markers in fewer batches
  than there are attempts, one of the eight attempts sees no write between its two reads and the loop
  returns.\<close>

theorem stabilize_succeeds:
  assumes "busy_batches w < privacySnapshotMaxAttempts"
  shows "\<exists>revisions w'. stabilizePrivacySnapshot (\<lambda>_. None) world_read world_refresh w = (Inr revisions, w')"
  using stabilize_loop_succeeds [OF assms] by (simp add: stabilizePrivacySnapshot_def)

theorem stabilize_succeeds_witness:
  "\<exists>revisions w'. stabilizePrivacySnapshot (\<lambda>_. None) world_read world_refresh example_world = (Inr revisions, w')"
  by (rule stabilize_succeeds) (simp add: busy_batches_def example_world_def privacySnapshotMaxAttempts_def)

text \<open>A provider whose revision moved is unknown before the revision counts as observed. When the
  revisions were observed before, reconciling invalidates exactly the providers whose revision
  changed, leaves the slot of the others alone, and from then on observes the new revisions.\<close>

theorem reconcile_invalidates_changed:
  assumes "rs_initialized s"
    and "reconcileProviders revisions (Some (\<lambda>p c. snd (invalidateProvider p c))) (s, c) = (changed, s', c')"
  shows "sc_codex c' = (if rv_Codex revisions \<noteq> rv_Codex (rs_observed s) then slot_invalidate (sc_codex c) else sc_codex c)
       \<and> sc_xai c' = (if rv_XAI revisions \<noteq> rv_XAI (rs_observed s) then slot_invalidate (sc_xai c) else sc_xai c)
       \<and> rv_Codex (rs_observed s') = rv_Codex revisions \<and> rv_XAI (rs_observed s') = rv_XAI revisions
       \<and> rv_Privacy (rs_observed s') = rv_Privacy (rs_observed s)
       \<and> changed = (rv_Privacy revisions \<noteq> rv_Privacy (rs_observed s))"
proof -
  have p: "provider_of providerCodex = Some Codex" "provider_of providerXAI = Some XAI" by code_simp+
  show ?thesis using assms by (auto simp: reconcileProviders_def invalidateProvider_def p Let_def)
qed

theorem reconcile_invalidates_changed_witness:
  "let r = \<lparr>rv_Codex = 2, rv_XAI = 1, rv_Privacy = 0\<rparr>;
       (changed, s', c') = reconcileProviders r (Some (\<lambda>p c. snd (invalidateProvider p c)))
         (revision_reset (r\<lparr>rv_Codex := 1\<rparr>), empty_cache)
   in sc_codex c' = slot_invalidate empty_slot \<and> sc_xai c' = empty_slot \<and> \<not> changed"
proof -
  let ?r = "\<lparr>rv_Codex = 2, rv_XAI = 1, rv_Privacy = 0\<rparr>"
  obtain changed s' c' where run: "reconcileProviders ?r (Some (\<lambda>p c. snd (invalidateProvider p c)))
      (revision_reset (?r\<lparr>rv_Codex := 1\<rparr>), empty_cache) = (changed, s', c')" by (metis prod_cases3)
  have "rs_initialized (revision_reset (?r\<lparr>rv_Codex := 1\<rparr>))" by (simp add: revision_reset_def)
  from reconcile_invalidates_changed [OF this run] run show ?thesis
    by (simp add: revision_reset_def empty_cache_def)
qed

end
