(* ===== verification/Picker.thy ===== *)
theory Picker
  imports Protection_Manager Revision
begin

text \<open>
  The pick of an account for one request: \<open>pickAuth\<close>, \<open>pickAuthOnce\<close>, \<open>pickXAIAuthOnce\<close> of
  \<open>main.go\<close> and \<open>pickMixedAuthOnce\<close> of \<open>scheduler_mixed.go\<close>, composed from the request filter, the restriction
  snapshots, the rotation under affinity and the protection transaction. The lemmas: a pick never
  answers with a restricted or filtered candidate, it leaves the choice to the host only when
  nothing was removed and no limit has to be enforced, and the mixed loop ends with a saturation error
  only when every tier of it is exhausted.
\<close>

section \<open>The state of a pick and the outcomes of its calls\<close>

text \<open>
  \<open>pk_global\<close> says whether the store is the global one, which owns the cache;
  \<open>pk_reconcile\<close> is the reconciliation with the persisted revisions, \<open>pk_others\<close> what other threads do to the
  cache between the reading of its generation and the publication; \<open>pk_protect n\<close> holds the outcomes
  of the protection transaction that runs with \<open>n\<close> candidates left.
\<close>

record pick_env =
  pk_env :: sched_env
  pk_global :: bool
  pk_reconcile :: "schedulerStateCache \<Rightarrow> string option \<times> schedulerStateCache"
  pk_quarantine :: quarantine
  pk_open :: "string option"
  pk_tables :: store_db
  pk_queryBans :: "string option"
  pk_queryInvalids :: "string option"
  pk_queryXAI :: "string option"
  pk_others :: "schedulerStateCache \<Rightarrow> schedulerStateCache"
  pk_handle :: nat
  pk_protect :: "nat \<Rightarrow> protect_env"

record pick_state =
  ks_cache :: schedulerStateCache
  ks_world :: protection_world
  ks_manager :: manager_world
  ks_refreshRequests :: nat
  ks_restrictionRecords :: "(int \<times> int \<times> int) list"

type_synonym 'a pick = "pick_state \<Rightarrow> (pick_error, 'a) result \<times> pick_state"

definition fail_pick :: "pick_error \<Rightarrow> 'a pick" where "fail_pick e ks = (Inl e, ks)"

definition return_pick :: "'a \<Rightarrow> 'a pick" where "return_pick x ks = (Inr x, ks)"

definition bind_pick :: "'a pick \<Rightarrow> ('a \<Rightarrow> 'b pick) \<Rightarrow> 'b pick" where
  "bind_pick m f ks = (case m ks of (Inl e, ks') \<Rightarrow> (Inl e, ks') | (Inr x, ks') \<Rightarrow> f x ks')"

text \<open>A call that fails with the given error, if any.\<close>

definition call_pick :: "string option \<Rightarrow> unit pick" where
  "call_pick err = (case err of None \<Rightarrow> return_pick () | Some e \<Rightarrow> fail_pick (OtherError e))"

definition lift_result :: "(string, 'a) result \<Rightarrow> 'a pick" where
  "lift_result r = (case r of Inl e \<Rightarrow> fail_pick (OtherError e) | Inr x \<Rightarrow> return_pick x)"

definition handled :: "string \<Rightarrow> schedulerPickResponse" where
  "handled authID = \<lparr>p_AuthID = authID, p_DelegateBuiltin = [], p_Handled = True\<rparr>"

definition not_handled :: schedulerPickResponse where
  "not_handled = \<lparr>p_AuthID = [], p_DelegateBuiltin = [], p_Handled = False\<rparr>"

section \<open>Restriction snapshots for a pick\<close>

definition request_refresh :: "bool \<Rightarrow> unit pick" where
  "request_refresh needed ks = (Inr (), if needed then ks\<lparr>ks_refreshRequests := ks_refreshRequests ks + 1\<rparr> else ks)"

text \<open>The snapshot the cache serves: the snapshot, whether it is stale, and whether it may be used.\<close>

definition codexForPick :: "pick_env \<Rightarrow> (codexSchedulerSnapshot option \<times> bool \<times> bool) pick" where
  "codexForPick pk ks =
     (Inr (if pk_global pk then slot_for_pick (pk_env pk) (env_unix (pk_env pk)) (sc_codex (ks_cache ks)) else (None, False, False)), ks)"

definition xaiForPick :: "pick_env \<Rightarrow> (xaiSchedulerSnapshot option \<times> bool \<times> bool) pick" where
  "xaiForPick pk ks =
     (Inr (if pk_global pk then slot_for_pick (pk_env pk) (env_unix (pk_env pk)) (sc_xai (ks_cache ks)) else (None, False, False)), ks)"

text \<open>Reading the tables and publishing what they say, when the cache could not serve.\<close>

definition load_codex :: "pick_env \<Rightarrow> (codexSchedulerSnapshot option) pick" where
  "load_codex pk ks =
     (let now = env_unix (pk_env pk);
          generation = providerGeneration ''codex'' (ks_cache ks)
      in bind_pick (call_pick (pk_queryBans pk)) (\<lambda>_.
         bind_pick (lift_result (queryActiveAutobans (pk_env pk) (db_bans (pk_tables pk)) providerCodex now)) (\<lambda>bans.
         bind_pick (call_pick (pk_queryInvalids pk)) (\<lambda>_.
         bind_pick (lift_result (queryActiveInvalidAuths (pk_env pk) (db_invalids (pk_tables pk)) providerCodex)) (\<lambda>invalids ks.
           let built = newCodexSchedulerSnapshot (pk_env pk) bans invalids now
           in if \<not> pk_global pk then (Inr (Some built), ks)
              else let (snapshot, c) = publishCodexOrCurrent (pk_env pk) generation built now (pk_others pk (ks_cache ks));
                       ks' = ks\<lparr>ks_cache := c\<rparr>
                   in case snapshot of None \<Rightarrow> (Inl SchedulerStateChanged, ks') | Some s \<Rightarrow> (Inr (Some s), ks'))))) ks)"

definition load_xai :: "pick_env \<Rightarrow> (xaiSchedulerSnapshot option) pick" where
  "load_xai pk ks =
     (let now = env_unix (pk_env pk);
          generation = providerGeneration ''xai'' (ks_cache ks)
      in bind_pick (call_pick (pk_queryXAI pk)) (\<lambda>_.
         bind_pick (lift_result (queryActiveXAIStates (pk_env pk) (db_xai (pk_tables pk)) providerXAI now)) (\<lambda>states ks.
           let built = newXAISchedulerSnapshot (pk_env pk) states now
           in if \<not> pk_global pk then (Inr (Some built), ks)
              else let (snapshot, c) = publishXAIOrCurrent (pk_env pk) generation built now (pk_others pk (ks_cache ks));
                       ks' = ks\<lparr>ks_cache := c\<rparr>
                   in case snapshot of None \<Rightarrow> (Inl SchedulerStateChanged, ks') | Some s \<Rightarrow> (Inr (Some s), ks'))) ks)"

section \<open>Errors and diagnostics\<close>

definition earliestActiveBanReset :: "autobanRow list \<Rightarrow> int \<Rightarrow> int" where
  "earliestActiveBanReset bans now =
     foldl (\<lambda>earliest b. if \<not> ab_Active b \<or> ab_ResetAt b \<le> now then earliest
                       else if earliest = 0 \<or> ab_ResetAt b < earliest then ab_ResetAt b else earliest) 0 bans"

definition earliestXAIStateReset :: "xaiAccountStateRow list \<Rightarrow> int \<Rightarrow> int" where
  "earliestXAIStateReset states now =
     foldl (\<lambda>earliest s. if xs_ResetAt s \<le> now then earliest
                       else if earliest = 0 \<or> xs_ResetAt s < earliest then xs_ResetAt s else earliest) 0 states"

definition newNoAvailableCodexAuthError :: "sched_env \<Rightarrow> autobanRow list \<Rightarrow> int \<Rightarrow> pick_error" where
  "newNoAvailableCodexAuthError env bans now =
     (let resetAt = earliestActiveBanReset bans now
      in unavailable ''auth_unavailable''
           (''no available Codex auth candidates: all candidates are auto-banned by 429/401/402/403''
            @ (if 0 < resetAt then ''; earliest autoban reset at '' @ unixTime env resetAt else [])))"

definition snapshot_rows :: "'row schedulerSnapshot option \<Rightarrow> 'row list" where
  "snapshot_rows s = (case s of None \<Rightarrow> [] | Some sn \<Rightarrow> sn_rows sn)"

definition newNoAvailableXAIAuthError :: "sched_env \<Rightarrow> xaiAccountStateRow list \<Rightarrow> int \<Rightarrow> pick_error" where
  "newNoAvailableXAIAuthError env states now =
     (let resetAt = earliestXAIStateReset states now
      in unavailable ''auth_unavailable''
           (''no available xAI auth candidates: all candidates are unavailable by 401/403/429''
            @ (if 0 < resetAt then ''; earliest retry at '' @ unixTime env resetAt else [])))"

definition newNoAvailableMixedAuthError ::
  "sched_env \<Rightarrow> codexSchedulerSnapshot option \<Rightarrow> xaiSchedulerSnapshot option \<Rightarrow> int \<Rightarrow> int \<Rightarrow> int \<Rightarrow> pick_error" where
  "newNoAvailableMixedAuthError env codex xai filteredCodex filteredXAI now =
     (let providers = (if 0 < filteredCodex then [''Codex''] else []) @ (if 0 < filteredXAI then [''xAI''] else []);
          message = ''no available mixed-provider auth candidates: all '' @ Join providers '' and ''
                      @ '' candidates are unavailable by active credential or quota restrictions'';
          earliest = (case codex of None \<Rightarrow> 0 | Some s \<Rightarrow> earliestActiveBanReset (sn_rows s) now);
          resetAt = (case xai of None \<Rightarrow> 0 | Some s \<Rightarrow> earliestXAIStateReset (sn_rows s) now);
          earliest' = (if 0 < resetAt \<and> (earliest = 0 \<or> resetAt < earliest) then resetAt else earliest)
      in unavailable ''auth_unavailable''
           (message @ (if 0 < earliest' then ''; earliest retry at '' @ unixTime env earliest' else [])))"

text \<open>The record of filtered candidates: restrictions, filtered candidates, and restrictions that matched none.\<close>

definition record_filtered :: "nat \<Rightarrow> nat list list \<Rightarrow> unit pick" where
  "record_filtered restrictions matched ks =
     (Inr (), if matched = [] then ks
        else ks\<lparr>ks_restrictionRecords := ks_restrictionRecords ks
               @ [(int restrictions, int (length matched), max 0 (int restrictions - int (card (set (concat matched)))))]\<rparr>)"

section \<open>Choosing\<close>

definition is_provider :: "string \<Rightarrow> schedulerAuthCandidate \<Rightarrow> bool" where
  "is_provider p c \<longleftrightarrow> canonicalProvider (c_Provider c) = p"

definition select_candidate :: "pick_env \<Rightarrow> string \<Rightarrow> string \<Rightarrow> schedulerAuthCandidate list \<Rightarrow> schedulerAuthCandidate pick" where
  "select_candidate pk rotationKey affinityKey cs ks =
     (let (c, sel) = pickSchedulerCandidate (pk_env pk) rotationKey affinityKey cs (pw_selection (ks_world ks))
      in (Inr c, ks\<lparr>ks_world := (ks_world ks)\<lparr>pw_selection := sel\<rparr>\<rparr>))"

definition protection_config :: "pick_state \<Rightarrow> pluginConfig" where
  "protection_config ks = pm_cfg (mw_manager (ks_manager ks))"

text \<open>The protection transaction with the plans and the token index the manager serves.\<close>

definition protected_pick ::
  "pick_env \<Rightarrow> nat \<Rightarrow> schedulerAuthCandidate list \<Rightarrow> pluginConfig \<Rightarrow> string \<Rightarrow> string \<Rightarrow> schedulerAuthCandidate pick" where
  "protected_pick pk n cs cfg rotationKey affinityKey ks =
     (let pe = pk_protect pk n;
          now = env_now (pe_sched pe);
          mw = ks_manager ks;
          (plans, planRefresh, m1) = configuredPlans now (mw_manager mw);
          (usage, usageRefresh, m2) = loadUsageIndex (pk_handle pk)
             (env_unix (pe_sched pe) - cf_AccountProtectionTokenWindowSeconds cfg) now m1;
          mw' = mw\<lparr>mw_manager := m2, mw_plans := started (mw_epoch mw) planRefresh @ mw_plans mw,
                   mw_usage := started (mw_epoch mw) usageRefresh @ mw_usage mw\<rparr>;
          (r, w) = pickProtectedAuth pe (pk_handle pk) cs cfg plans usage rotationKey [affinityKey] (ks_world ks)
      in (r, ks\<lparr>ks_manager := mw', ks_world := w\<rparr>))"

section \<open>Codex requests\<close>

definition isCodexSchedulerRequest :: "schedulerPickRequest \<Rightarrow> bool" where
  "isCodexSchedulerRequest req \<longleftrightarrow> EqualFold (TrimSpace (r_Provider req)) ''codex''
     \<or> (case r_Providers req of [p] \<Rightarrow> EqualFold (TrimSpace p) ''codex'' | _ \<Rightarrow> False)"

definition isXAISchedulerRequest :: "schedulerPickRequest \<Rightarrow> bool" where
  "isXAISchedulerRequest req \<longleftrightarrow> EqualFold (TrimSpace (r_Provider req)) ''xai''
     \<or> (case r_Providers req of [p] \<Rightarrow> EqualFold (TrimSpace p) ''xai'' | _ \<Rightarrow> False)"

definition codex_matched :: "pick_env \<Rightarrow> codexSchedulerSnapshot option \<Rightarrow> schedulerAuthCandidate \<Rightarrow> bool" where
  "codex_matched pk snapshot c = fst (codex_matchIndexes (env_fp (pk_env pk)) snapshot c)"

definition codex_excluded :: "pick_env \<Rightarrow> codexSchedulerSnapshot option \<Rightarrow> schedulerAuthCandidate \<Rightarrow> bool" where
  "codex_excluded pk snapshot c \<longleftrightarrow> EqualFold (c_Provider c) ''codex'' \<and> codex_matched pk snapshot c"

text \<open>The end of a Codex pick, once the snapshot is known.\<close>

definition codex_decide ::
  "pick_env \<Rightarrow> schedulerPickRequest \<Rightarrow> codexSchedulerSnapshot option \<Rightarrow> schedulerPickResponse pick" where
  "codex_decide pk req snapshot ks =
     (let cfg = protection_config ks;
          untouched = (\<not> cf_AccountProtectionEnabled cfg \<and> \<not> filter_forceHandle (r_filter req));
          now = env_unix (pk_env pk);
          excluded = filter (codex_excluded pk snapshot) (r_Candidates req);
          available = filter (\<lambda>c. \<not> codex_excluded pk snapshot c) (r_Candidates req);
          rotationKey = schedulerRotationKey (pk_env pk) req ''codex'';
          affinityKey = schedulerAffinityKey (pk_env pk) req ''codex''
      in if snapshot_empty snapshot \<and> untouched then (Inr not_handled, ks)
         else bind_pick (record_filtered (length (snapshot_rows snapshot))
                (map (\<lambda>c. snd (codex_matchIndexes (env_fp (pk_env pk)) snapshot c)) excluded)) (\<lambda>_ ks.
           if excluded = [] \<and> untouched then (Inr not_handled, ks)
           else if available = [] then (Inl (newNoAvailableCodexAuthError (pk_env pk) (snapshot_rows snapshot) now), ks)
           else bind_pick (if cf_AccountProtectionEnabled cfg then protected_pick pk 0 available cfg rotationKey affinityKey
                           else select_candidate pk rotationKey affinityKey available)
                  (\<lambda>chosen. return_pick (handled (c_ID chosen))) ks) ks)"

definition pick_codex :: "pick_env \<Rightarrow> schedulerPickRequest \<Rightarrow> schedulerPickResponse pick" where
  "pick_codex pk req ks =
     (if r_Candidates req = [] then (Inr not_handled, ks)
      else let cfg = protection_config ks;
               untouched = (\<not> cf_AccountProtectionEnabled cfg \<and> \<not> filter_forceHandle (r_filter req))
           in bind_pick (codexForPick pk) (\<lambda>(snapshot, stale, ready).
              bind_pick (request_refresh (pk_global pk \<and> (stale \<or> \<not> ready))) (\<lambda>_.
              if ready \<and> snapshot_empty snapshot \<and> untouched then return_pick not_handled
              else bind_pick (if \<not> ready \<or> cf_AccountProtectionEnabled cfg then call_pick (pk_open pk) else return_pick ()) (\<lambda>_.
                   bind_pick (if ready then return_pick snapshot else load_codex pk) (codex_decide pk req)))) ks)"

section \<open>xAI requests\<close>

definition xai_excluded :: "pick_env \<Rightarrow> xaiSchedulerSnapshot option \<Rightarrow> schedulerAuthCandidate \<Rightarrow> bool" where
  "xai_excluded pk snapshot c \<longleftrightarrow> EqualFold (TrimSpace (c_Provider c)) ''xai'' \<and> xai_matches (env_fp (pk_env pk)) snapshot c"

definition xai_decide :: "pick_env \<Rightarrow> schedulerPickRequest \<Rightarrow> xaiSchedulerSnapshot option \<Rightarrow> schedulerPickResponse pick" where
  "xai_decide pk req snapshot ks =
     (let now = env_unix (pk_env pk);
          states = snapshot_rows snapshot;
          excluded = filter (xai_excluded pk snapshot) (r_Candidates req);
          available = filter (\<lambda>c. \<not> xai_excluded pk snapshot c) (r_Candidates req)
      in if states = [] \<and> \<not> filter_forceHandle (r_filter req) then (Inr not_handled, ks)
         else if excluded = [] \<and> \<not> filter_forceHandle (r_filter req) then (Inr not_handled, ks)
         else if available = [] then (Inl (newNoAvailableXAIAuthError (pk_env pk) states now), ks)
         else let (chosen, sel) = rotation_pick (pk_env pk) (schedulerRotationKey (pk_env pk) req ''xai'') available (pw_selection (ks_world ks))
              in (Inr (handled (c_ID chosen)), ks\<lparr>ks_world := (ks_world ks)\<lparr>pw_selection := sel\<rparr>\<rparr>))"

definition pickXAIAuthOnce :: "pick_env \<Rightarrow> schedulerPickRequest \<Rightarrow> schedulerPickResponse pick" where
  "pickXAIAuthOnce pk req ks =
     (if r_Candidates req = [] then (Inr not_handled, ks)
      else bind_pick (xaiForPick pk) (\<lambda>(snapshot, stale, ready).
           bind_pick (request_refresh (pk_global pk \<and> (stale \<or> \<not> ready))) (\<lambda>_.
           if ready \<and> snapshot_rows snapshot = [] \<and> \<not> filter_forceHandle (r_filter req) then return_pick not_handled
           else bind_pick (if ready then return_pick snapshot
                           else bind_pick (call_pick (pk_open pk)) (\<lambda>_. load_xai pk)) (xai_decide pk req))) ks)"

section \<open>Mixed requests (\<open>scheduler_mixed.go\<close>)\<close>

text \<open>Without a filter the request is mixed when its providers name two different ones.\<close>

definition isMixedSchedulerRequest :: "schedulerPickRequest \<Rightarrow> bool" where
  "isMixedSchedulerRequest req =
     (case r_filter req of
        Some f \<Rightarrow> filter_mixed (Some f)
      | None \<Rightarrow>
          let provider = TrimSpace (r_Provider req);
              named = filter (\<lambda>v. v \<noteq> [] \<and> \<not> EqualFold v ''mixed'') (map TrimSpace (r_Providers req))
          in if provider \<noteq> [] \<and> \<not> EqualFold provider ''mixed'' then False
             else case named of [] \<Rightarrow> False | p # ps \<Rightarrow> list_ex (\<lambda>q. \<not> EqualFold p q) ps)"

definition mixed_provider :: "schedulerAuthCandidate \<Rightarrow> string" where
  "mixed_provider c = ToLower (TrimSpace (c_Provider c))"

definition mixed_excluded ::
  "pick_env \<Rightarrow> codexSchedulerSnapshot option \<Rightarrow> xaiSchedulerSnapshot option \<Rightarrow> schedulerAuthCandidate \<Rightarrow> bool" where
  "mixed_excluded pk codex xai c \<longleftrightarrow>
     (if mixed_provider c = ''codex'' then codex_matched pk codex c
      else mixed_provider c = ''xai'' \<and> xai_matches (env_fp (pk_env pk)) xai c)"

text \<open>The candidates left when the Codex candidates of the highest priority are saturated.\<close>

definition drop_tier :: "schedulerAuthCandidate list \<Rightarrow> schedulerAuthCandidate list" where
  "drop_tier remaining =
     filter (\<lambda>c. \<not> (canonicalProvider (c_Provider c) = providerCodex
                   \<and> c_Priority c = c_Priority (hd (highestPrioritySchedulerCandidates remaining)))) remaining"

definition is_saturation :: "pick_error \<Rightarrow> bool" where
  "is_saturation e = (case e of Reject r \<Rightarrow> e_Code r = ''account_protection_saturated'' | _ \<Rightarrow> False)"

definition no_healthy_error :: pick_error where
  "no_healthy_error = unavailable ''auth_unavailable'' ''no healthy scheduler candidates remain''"

lemma drop_tier_shrinks:
  assumes "c \<in> set (highestPrioritySchedulerCandidates remaining)" "canonicalProvider (c_Provider c) = providerCodex"
  shows "length (drop_tier remaining) < length remaining"
proof -
  let ?top = "highestPrioritySchedulerCandidates remaining"
  have "hd ?top \<in> set ?top" using assms(1) by (metis empty_iff empty_set hd_in_set)
  then have "c_Priority c = c_Priority (hd ?top)" "c \<in> set remaining" using assms(1) by (auto simp: set_highest intro: antisym)
  then show ?thesis unfolding drop_tier_def using assms(2) by (intro length_filter_less) auto
qed

text \<open>
  The loop of \<open>pickMixedAuthOnce\<close>. Each turn that goes on removes the Codex candidates of the highest
  priority, the chosen one among them, so it ends.
\<close>

function mixed_loop ::
  "pick_env \<Rightarrow> bool \<Rightarrow> pluginConfig \<Rightarrow> string \<Rightarrow> string \<Rightarrow> pick_error option \<Rightarrow> schedulerAuthCandidate list
   \<Rightarrow> schedulerPickResponse pick" where
  "mixed_loop pk protectCodex cfg rotationKey affinityKey saturated remaining ks =
     (if remaining = [] then (Inl (case saturated of None \<Rightarrow> no_healthy_error | Some e \<Rightarrow> e), ks)
      else let eligible = highestPrioritySchedulerCandidates remaining;
               chosen = fst (pickSchedulerCandidate (pk_env pk) rotationKey affinityKey eligible (pw_selection (ks_world ks)));
               ks1 = snd (select_candidate pk rotationKey affinityKey eligible ks)
           in if \<not> protectCodex \<or> canonicalProvider (c_Provider chosen) \<noteq> providerCodex then (Inr (handled (c_ID chosen)), ks1)
              else case pk_open pk of
                     Some err \<Rightarrow> (Inl (OtherError err), ks1)
                   | None \<Rightarrow>
                       case protected_pick pk (length remaining) (filter (is_provider providerCodex) eligible) cfg
                              (rotationKey @ CHR 0x00 # ''codex'') affinityKey ks1 of
                         (Inr c, ks2) \<Rightarrow> (Inr (handled (c_ID c)), ks2)
                       | (Inl e, ks2) \<Rightarrow>
                           if is_saturation e
                           then mixed_loop pk protectCodex cfg rotationKey affinityKey (Some e) (drop_tier remaining) ks2
                           else (Inl e, ks2))"
  by pat_completeness auto

termination
proof (relation "measure (\<lambda>(pk, protect, cfg, rk, ak, sat, remaining, ks). length remaining)")
  fix pk :: pick_env and protect :: bool and cfg :: pluginConfig and rk ak :: string and sat :: "pick_error option"
    and remaining :: "schedulerAuthCandidate list" and ks eligible chosen ks1 r ks2 e
  assume "remaining \<noteq> []" and e: "eligible = highestPrioritySchedulerCandidates remaining"
    and c: "chosen = fst (pickSchedulerCandidate (pk_env pk) rk ak eligible (pw_selection (ks_world ks)))"
    and codex: "\<not> (\<not> protect \<or> canonicalProvider (c_Provider chosen) \<noteq> providerCodex)"
  then have "eligible \<noteq> []" by simp
  then have "chosen \<in> set eligible" unfolding c by (rule selected.chooses_offered)
  then show "((pk, protect, cfg, rk, ak, Some e, drop_tier remaining, ks2), pk, protect, cfg, rk, ak, sat, remaining, ks)
      \<in> measure (\<lambda>(pk, protect, cfg, rk, ak, sat, remaining, ks). length remaining)"
    using codex e by (simp add: drop_tier_shrinks)
qed simp_all

declare mixed_loop.simps [simp del]

definition mixed_available ::
  "pick_env \<Rightarrow> schedulerPickRequest \<Rightarrow> codexSchedulerSnapshot option \<Rightarrow> xaiSchedulerSnapshot option \<Rightarrow> schedulerAuthCandidate list" where
  "mixed_available pk req codex xai = filter (\<lambda>c. \<not> mixed_excluded pk codex xai c) (r_Candidates req)"

text \<open>The end of a mixed pick, once both snapshots are known.\<close>

definition mixed_decide ::
  "pick_env \<Rightarrow> schedulerPickRequest \<Rightarrow> bool \<Rightarrow> codexSchedulerSnapshot option \<Rightarrow> xaiSchedulerSnapshot option \<Rightarrow> schedulerPickResponse pick" where
  "mixed_decide pk req hasCodex codex xai ks =
     (let cfg = protection_config ks;
          protectCodex = (hasCodex \<and> cf_AccountProtectionEnabled cfg);
          now = env_unix (pk_env pk);
          excluded = filter (mixed_excluded pk codex xai) (r_Candidates req);
          fromCodex = filter (\<lambda>c. mixed_provider c = ''codex'') excluded;
          fromXAI = filter (\<lambda>c. mixed_provider c \<noteq> ''codex'') excluded;
          available = mixed_available pk req codex xai
      in bind_pick (record_filtered (length (snapshot_rows codex))
           (map (\<lambda>c. snd (codex_matchIndexes (env_fp (pk_env pk)) codex c)) fromCodex)) (\<lambda>_ ks.
         if excluded = [] \<and> \<not> protectCodex \<and> \<not> filter_forceHandle (r_filter req) then (Inr not_handled, ks)
         else if available = []
         then (Inl (case (case r_filter req of None \<Rightarrow> None | Some f \<Rightarrow> firstQuarantinedProvider (f_quarantined f)) of
                      Some (provider, reason) \<Rightarrow> newSchedulerPrivacyQuarantineError provider reason
                    | None \<Rightarrow> newNoAvailableMixedAuthError (pk_env pk) codex xai (int (length fromCodex)) (int (length fromXAI)) now), ks)
         else mixed_loop pk protectCodex cfg (schedulerRotationKey (pk_env pk) req ''mixed'')
                (schedulerAffinityKey (pk_env pk) req ''mixed'') None available ks) ks)"

definition pickMixedAuthOnce :: "pick_env \<Rightarrow> schedulerPickRequest \<Rightarrow> schedulerPickResponse pick" where
  "pickMixedAuthOnce pk req ks =
     (let hasCodex = list_ex (\<lambda>c. mixed_provider c = ''codex'') (r_Candidates req);
          hasXAI = list_ex (\<lambda>c. mixed_provider c = ''xai'') (r_Candidates req)
      in if r_Candidates req = [] then (Inr not_handled, ks)
         else if \<not> hasCodex \<and> \<not> hasXAI
         then (if filter_forceHandle (r_filter req)
               then bind_pick (select_candidate pk (schedulerRotationKey (pk_env pk) req ''mixed'')
                      (schedulerAffinityKey (pk_env pk) req ''mixed'') (r_Candidates req))
                      (\<lambda>chosen. return_pick (handled (c_ID chosen))) ks
               else (Inr not_handled, ks))
         else bind_pick (if hasCodex then codexForPick pk else return_pick (None, False, True)) (\<lambda>(codex, codexStale, codexReady).
              bind_pick (if hasXAI then xaiForPick pk else return_pick (None, False, True)) (\<lambda>(xai, xaiStale, xaiReady).
              bind_pick (request_refresh (pk_global pk \<and> (codexStale \<or> \<not> codexReady \<or> xaiStale \<or> \<not> xaiReady))) (\<lambda>_.
              bind_pick (if codexReady then return_pick codex
                         else bind_pick (call_pick (pk_open pk)) (\<lambda>_. load_codex pk)) (\<lambda>codex.
              bind_pick (if xaiReady then return_pick xai
                         else bind_pick (call_pick (pk_open pk)) (\<lambda>_. load_xai pk)) (\<lambda>xai.
              mixed_decide pk req hasCodex codex xai))))) ks)"

section \<open>The pick\<close>

definition pick_other :: "pick_env \<Rightarrow> schedulerPickRequest \<Rightarrow> schedulerPickResponse pick" where
  "pick_other pk req ks =
     (case r_Candidates req of
        [] \<Rightarrow> (Inr not_handled, ks)
      | c # _ \<Rightarrow>
          if filter_forceHandle (r_filter req)
          then bind_pick (select_candidate pk (schedulerRotationKey (pk_env pk) req (c_Provider c))
                 (schedulerAffinityKey (pk_env pk) req (c_Provider c)) (r_Candidates req))
                 (\<lambda>chosen. return_pick (handled (c_ID chosen))) ks
          else (Inr not_handled, ks))"

definition dispatch_pick :: "pick_env \<Rightarrow> schedulerPickRequest \<Rightarrow> schedulerPickResponse pick" where
  "dispatch_pick pk req =
     (if isMixedSchedulerRequest req then pickMixedAuthOnce pk req
      else if isXAISchedulerRequest req then pickXAIAuthOnce pk req
      else if \<not> isCodexSchedulerRequest req then pick_other pk req
      else pick_codex pk req)"

definition pickAuthOnce :: "pick_env \<Rightarrow> schedulerPickRequest \<Rightarrow> schedulerPickResponse pick" where
  "pickAuthOnce pk req ks =
     (let (err, c) = pk_reconcile pk (ks_cache ks); ks1 = ks\<lparr>ks_cache := c\<rparr>
      in case err of
           Some e \<Rightarrow> (Inl (OtherError e), ks1)
         | None \<Rightarrow>
             case prepareSchedulerRequest (pk_quarantine pk) req of
               Inl e \<Rightarrow> (Inl e, ks1)
             | Inr prepared \<Rightarrow> dispatch_pick pk prepared ks1)"

text \<open>One more attempt, and only one, when the restriction state moved under the first.\<close>

definition retrySchedulerStateChange :: "bool \<Rightarrow> 'a pick \<Rightarrow> 'a pick \<Rightarrow> 'a pick" where
  "retrySchedulerStateChange cancelled first second ks =
     (case first ks of
        (Inl SchedulerStateChanged, ks') \<Rightarrow> if cancelled then (Inl SchedulerStateChanged, ks') else second ks'
      | outcome \<Rightarrow> outcome)"

definition pickAuth :: "bool \<Rightarrow> pick_env \<Rightarrow> pick_env \<Rightarrow> schedulerPickRequest \<Rightarrow> schedulerPickResponse pick" where
  "pickAuth cancelled pk pk' req = retrySchedulerStateChange cancelled (pickAuthOnce pk req) (pickAuthOnce pk' req)"

section \<open>Facts on picks\<close>

lemma pick_simps [simp]:
  "return_pick x ks = (Inr x, ks)"
  "fail_pick e ks = (Inl e, ks)"
  "bind_pick (return_pick x) f ks = f x ks"
  by (simp_all add: return_pick_def fail_pick_def bind_pick_def)

lemma bind_pick_Inr [simp]:
  "bind_pick m f ks = (Inr y, ks') \<longleftrightarrow> (\<exists>x ks1. m ks = (Inr x, ks1) \<and> f x ks1 = (Inr y, ks'))"
  by (auto simp: bind_pick_def split: prod.splits sum.splits)

lemma bind_pick_InrE:
  assumes "bind_pick m f ks = (Inr y, ks')"
  obtains x ks1 where "m ks = (Inr x, ks1)" "f x ks1 = (Inr y, ks')"
  using assms unfolding bind_pick_Inr by blast

lemma call_pick_Inr [simp]: "call_pick err ks = (Inr x, ks') \<longleftrightarrow> err = None \<and> ks' = ks"
  by (auto simp: call_pick_def split: option.splits)

lemma lift_result_Inr [simp]: "lift_result r ks = (Inr x, ks') \<longleftrightarrow> r = Inr x \<and> ks' = ks"
  by (auto simp: lift_result_def split: sum.splits)

lemma request_refresh_Inr [simp]:
  "request_refresh b ks = (Inr u, ks') \<longleftrightarrow> ks' = (if b then ks\<lparr>ks_refreshRequests := ks_refreshRequests ks + 1\<rparr> else ks)"
  by (auto simp: request_refresh_def)

lemma record_filtered_Inr [simp]:
  "record_filtered n ms ks = (Inr u, ks') \<longleftrightarrow> ks' = snd (record_filtered n ms ks)"
  by (auto simp: record_filtered_def)

lemma record_filtered_frame [simp]:
  "ks_cache (snd (record_filtered n ms ks)) = ks_cache ks"
  "ks_manager (snd (record_filtered n ms ks)) = ks_manager ks"
  "ks_world (snd (record_filtered n ms ks)) = ks_world ks"
  by (simp_all add: record_filtered_def)

lemma response_simps [simp]:
  "p_Handled (handled i) = True" "p_AuthID (handled i) = i" "p_Handled not_handled = False"
  "handled i \<noteq> not_handled"
  by (simp_all add: handled_def not_handled_def)

lemma select_candidate_Inr:
  assumes "select_candidate pk rk ak cs ks = (Inr c, ks')" "cs \<noteq> []"
  shows "c \<in> set cs"
  using assms selected.chooses_offered [of cs "pk_env pk" rk ak "pw_selection (ks_world ks)"]
  by (auto simp: select_candidate_def split_beta Let_def)

lemma protection_states_candidates:
  "pc_Candidate ` set (protection_states fp cfg plans sets snapshot) \<subseteq> fst ` set sets"
proof (induction sets arbitrary: snapshot)
  case (Cons e sets)
  have "pc_Candidate (protectionCandidateFor fp c cfg plans ra) = c" for c ra
    by (simp add: protectionCandidateFor_def Let_def)
  then show ?case using Cons.IH by (cases e) (fastforce simp: Let_def split_beta)
qed simp

lemma pickProtectedAuth_member:
  assumes "fst (pickProtectedAuth pe handle cs cfg plans usage rk aks w) = Inr c"
  shows "c \<in> set cs"
proof (cases rule: pick_reaches_choice [of pe handle cs cfg plans usage rk aks w])
  case (early err)
  with assms show ?thesis by simp
next
  case (decided cleanup expired)
  let ?tx = "pick_tx handle (env_unix (pe_sched pe)) w"
  let ?states = "protection_states (env_fp (pe_sched pe)) cfg plans (candidate_alias_sets (env_fp (pe_sched pe)) cs)
      (newProtectionSnapshotWithUsageIndex (loadProtectionReservationSnapshot (rd_Rows ?tx) providerCodex (env_unix (pe_sched pe))) usage)"
  let ?choice = "chooseProtectedCandidate (pe_sched pe) ?states rk aks (pw_selection w)"
  obtain x where x: "fst ?choice = Inr x"
    using assms unfolding decided decide_in_tx_def Let_def split_beta
    by (cases "fst ?choice"; cases "pe_commit pe") simp_all
  have "c = pc_Candidate x"
    using assms unfolding decided decide_in_tx_def Let_def split_beta x sum.case
    by (cases rule: reserve_chosen_cases [of pe x handle "env_unix (pe_sched pe)" cfg cleanup expired ?tx
          "w\<lparr>pw_selection := snd ?choice\<rparr>"]) simp_all
  moreover have "pc_Candidate x \<in> fst ` set (candidate_alias_sets (env_fp (pe_sched pe)) cs)"
    using choose_within [OF x] protection_states_candidates by blast
  ultimately show ?thesis by (auto simp: candidate_alias_sets_def dest: set_zip_leftD)
qed

lemma protected_pick_Inr: "protected_pick pk n cs cfg rk ak ks = (Inr c, ks') \<Longrightarrow> c \<in> set cs"
  by (rule pickProtectedAuth_member) (auto simp: protected_pick_def Let_def split_beta)

lemma mixed_loop_member:
  assumes "mixed_loop pk protect cfg rk ak sat remaining ks = (Inr resp, ks')"
  shows "\<exists>c\<in>set remaining. resp = handled (c_ID c)"
  using assms
proof (induction pk protect cfg rk ak sat remaining ks rule: mixed_loop.induct)
  case (1 pk protect cfg rk ak sat remaining ks)
  let ?top = "highestPrioritySchedulerCandidates remaining"
  let ?chosen = "fst (pickSchedulerCandidate (pk_env pk) rk ak ?top (pw_selection (ks_world ks)))"
  let ?ks1 = "snd (select_candidate pk rk ak ?top ks)"
  have ne: "remaining \<noteq> []" using 1(2) by (cases "remaining = []") (simp_all add: mixed_loop.simps)
  then have chosen: "?chosen \<in> set remaining" using selected.chooses_offered [of ?top] highest_subset by fastforce
  show ?case
  proof (cases "\<not> protect \<or> canonicalProvider (c_Provider ?chosen) \<noteq> providerCodex")
    case True
    with 1(2) ne chosen show ?thesis by (subst (asm) mixed_loop.simps) (auto simp: Let_def)
  next
    case False
    obtain r ks2 where p: "protected_pick pk (length remaining) (filter (is_provider providerCodex) ?top) cfg
        (rk @ CHR 0x00 # ''codex'') ak ?ks1 = (r, ks2)" by fastforce
    have open_ok: "pk_open pk = None"
      using 1(2) ne False by (subst (asm) mixed_loop.simps) (auto simp: Let_def split: option.splits)
    show ?thesis
    proof (cases r)
      case (Inr c)
      have "c \<in> set remaining" using protected_pick_Inr [OF p [unfolded Inr]] highest_subset by auto
      moreover have "resp = handled (c_ID c)"
        using 1(2) ne False p Inr open_ok by (subst (asm) mixed_loop.simps) (auto simp: Let_def)
      ultimately show ?thesis by blast
    next
      case (Inl e)
      have more: "is_saturation e" "mixed_loop pk protect cfg rk ak (Some e) (drop_tier remaining) ks2 = (Inr resp, ks')"
        using 1(2) ne False p Inl open_ok by (subst (asm) mixed_loop.simps, auto simp: Let_def split: if_splits)+
      have "set (drop_tier remaining) \<subseteq> set remaining" by (auto simp: drop_tier_def)
      with 1(1) [OF ne refl refl refl False open_ok p [symmetric] Inl more(1) more(2)] show ?thesis by blast
    qed
  qed
qed

lemma pickProtectedAuth_error:
  assumes "fst (pickProtectedAuth pe handle cs cfg plans usage rk aks w) = Inl e"
  shows "e = saturated_error \<or> (\<exists>err. e = OtherError err)"
proof (cases rule: pick_reaches_choice [of pe handle cs cfg plans usage rk aks w])
  case (early err)
  with assms show ?thesis by auto
next
  case (decided cleanup expired)
  let ?tx = "pick_tx handle (env_unix (pe_sched pe)) w"
  let ?states = "protection_states (env_fp (pe_sched pe)) cfg plans (candidate_alias_sets (env_fp (pe_sched pe)) cs)
      (newProtectionSnapshotWithUsageIndex (loadProtectionReservationSnapshot (rd_Rows ?tx) providerCodex (env_unix (pe_sched pe))) usage)"
  let ?choice = "chooseProtectedCandidate (pe_sched pe) ?states rk aks (pw_selection w)"
  show ?thesis
  proof (cases "fst ?choice")
    case (Inl e')
    then have "e' = saturated_error" by (rule choose_error_value)
    with assms Inl show ?thesis unfolding decided decide_in_tx_def Let_def split_beta
      by (cases "pe_commit pe") auto
  next
    case (Inr x)
    show ?thesis
      using assms unfolding decided decide_in_tx_def Let_def split_beta Inr sum.case
      by (cases rule: reserve_chosen_cases [of pe x handle "env_unix (pe_sched pe)" cfg cleanup expired ?tx
            "w\<lparr>pw_selection := snd ?choice\<rparr>"]) auto
  qed
qed

lemma saturated_is_saturation [simp]: "is_saturation saturated_error" "\<not> is_saturation (OtherError err)"
  by (simp_all add: is_saturation_def saturated_error_def unavailable_def)

lemma protected_pick_error:
  "protected_pick pk n cs cfg rk ak ks = (Inl e, ks') \<Longrightarrow> e = saturated_error \<or> (\<exists>err. e = OtherError err)"
  by (rule pickProtectedAuth_error) (auto simp: protected_pick_def Let_def split_beta)

lemma mixed_loop_error:
  assumes "mixed_loop pk protect cfg rk ak sat remaining ks = (Inl e, ks')"
    and "sat = None \<or> sat = Some saturated_error"
  shows "(\<exists>err. e = OtherError err) \<or>
     (e = saturated_error \<or> remaining = [] \<and> sat = None) \<and> (\<forall>c\<in>set remaining. is_provider providerCodex c)"
  using assms
proof (induction pk protect cfg rk ak sat remaining ks rule: mixed_loop.induct)
  case (1 pk protect cfg rk ak sat remaining ks)
  let ?top = "highestPrioritySchedulerCandidates remaining"
  let ?chosen = "fst (pickSchedulerCandidate (pk_env pk) rk ak ?top (pw_selection (ks_world ks)))"
  let ?ks1 = "snd (select_candidate pk rk ak ?top ks)"
  show ?case
  proof (cases "remaining = []")
    case True
    with 1(2,3) show ?thesis by (auto simp: mixed_loop.simps)
  next
    case ne: False
    have codex: "\<not> (\<not> protect \<or> canonicalProvider (c_Provider ?chosen) \<noteq> providerCodex)"
      using 1(2) ne by (subst (asm) mixed_loop.simps) (auto simp: Let_def split: if_splits)
    obtain r ks2 where p: "protected_pick pk (length remaining) (filter (is_provider providerCodex) ?top) cfg
        (rk @ CHR 0x00 # ''codex'') ak ?ks1 = (r, ks2)" by fastforce
    show ?thesis
    proof (cases "pk_open pk")
      case (Some err)
      then show ?thesis using 1(2) ne codex by (subst (asm) mixed_loop.simps) (auto simp: Let_def)
    next
      case open_ok: None
      obtain e' where e': "r = Inl e'"
        using 1(2) ne codex p open_ok by (subst (asm) mixed_loop.simps) (cases r; auto simp: Let_def)
      from protected_pick_error [OF p [unfolded e']] show ?thesis
      proof
        assume sat': "e' = saturated_error"
        have more: "mixed_loop pk protect cfg rk ak (Some saturated_error) (drop_tier remaining) ks2 = (Inl e, ks')"
          using 1(2) ne codex p e' sat' open_ok by (subst (asm) mixed_loop.simps) (simp add: Let_def)
        have step: "(\<exists>err. e = OtherError err) \<or> e = saturated_error \<and> (\<forall>c\<in>set (drop_tier remaining). is_provider providerCodex c)"
          using 1(1) [OF ne refl refl refl codex open_ok p [symmetric] e' _ more [folded sat']] sat' by auto
        have "is_provider providerCodex c" if "c \<in> set remaining" "c \<notin> set (drop_tier remaining)" for c
          using that by (auto simp: drop_tier_def is_provider_def)
        with step show ?thesis by blast
      next
        assume "\<exists>err. e' = OtherError err"
        then show ?thesis using 1(2) ne codex p e' open_ok by (subst (asm) mixed_loop.simps) (auto simp: Let_def)
      qed
    qed
  qed
qed

section \<open>What a pick answers\<close>

text \<open>A snapshot served in a pick: rebuilt from the tables, or current in the cache.\<close>

definition codex_serves :: "pick_env \<Rightarrow> schedulerStateCache \<Rightarrow> codexSchedulerSnapshot option \<Rightarrow> bool" where
  "codex_serves pk cache s \<longleftrightarrow>
     s = Some (codex_build (pk_env pk) (db_bans (pk_tables pk), db_invalids (pk_tables pk)))
   \<or> pk_global pk \<and> s \<noteq> None
     \<and> ((\<exists>stale. slot_for_pick (pk_env pk) (env_unix (pk_env pk)) (sc_codex cache) = (s, stale, True))
        \<or> s = slot_read (pk_env pk) (env_unix (pk_env pk)) (sc_codex (pk_others pk cache)))"

definition xai_serves :: "pick_env \<Rightarrow> schedulerStateCache \<Rightarrow> xaiSchedulerSnapshot option \<Rightarrow> bool" where
  "xai_serves pk cache s \<longleftrightarrow>
     s = Some (xai_build (pk_env pk) (db_xai (pk_tables pk)))
   \<or> pk_global pk \<and> s \<noteq> None
     \<and> ((\<exists>stale. slot_for_pick (pk_env pk) (env_unix (pk_env pk)) (sc_xai cache) = (s, stale, True))
        \<or> s = slot_read (pk_env pk) (env_unix (pk_env pk)) (sc_xai (pk_others pk cache)))"

lemma load_codex_Inr:
  assumes "load_codex pk ks = (Inr s, ks')"
  shows "codex_serves pk (ks_cache ks) s" and "ks_manager ks' = ks_manager ks"
    and "ks' = ks\<lparr>ks_cache := ks_cache ks'\<rparr>"
  using assms
  by (auto simp: load_codex_def codex_serves_def codex_build_def rows_of_def Let_def publishCodexOrCurrent_def
      publishCodexIfGeneration_def slot_publish_def split: if_splits option.splits prod.splits)

lemma load_xai_Inr:
  assumes "load_xai pk ks = (Inr s, ks')"
  shows "xai_serves pk (ks_cache ks) s" and "ks_manager ks' = ks_manager ks"
    and "ks' = ks\<lparr>ks_cache := ks_cache ks'\<rparr>"
  using assms
  by (auto simp: load_xai_def xai_serves_def xai_build_def rows_of_def Let_def publishXAIOrCurrent_def
      publishXAIIfGeneration_def slot_publish_def split: if_splits option.splits prod.splits)

lemma slot_for_pick_ready: "slot_for_pick env now slot = (s, stale, True) \<Longrightarrow> s \<noteq> None"
  by (rule notI) (simp add: slot_for_pick_def Let_def split_beta split: option.splits if_splits)

lemma codexForPick_Inr:
  assumes "codexForPick pk ks = (Inr (s, stale, ready), ks')"
  shows "ks' = ks" and "ready \<Longrightarrow> codex_serves pk (ks_cache ks) s"
  using assms by (auto simp: codexForPick_def codex_serves_def dest: slot_for_pick_ready split: if_splits)

lemma xaiForPick_Inr:
  assumes "xaiForPick pk ks = (Inr (s, stale, ready), ks')"
  shows "ks' = ks" and "ready \<Longrightarrow> xai_serves pk (ks_cache ks) s"
  using assms by (auto simp: xaiForPick_def xai_serves_def dest: slot_for_pick_ready split: if_splits)

text \<open>An outcome either serves a candidate with the property, or leaves the choice, and then all have it.\<close>

definition answers :: "(schedulerAuthCandidate \<Rightarrow> bool) \<Rightarrow> bool \<Rightarrow> schedulerAuthCandidate list \<Rightarrow> schedulerPickResponse \<Rightarrow> bool" where
  "answers P untouched cs resp \<longleftrightarrow>
     (\<exists>c\<in>set cs. resp = handled (c_ID c) \<and> P c)
   \<or> resp = not_handled \<and> (cs = [] \<or> untouched \<and> (\<forall>c\<in>set cs. P c))"

lemma empty_snapshot_excludes_none: "snapshot_empty s \<Longrightarrow> \<not> codex_excluded pk s c"
  by (auto simp: codex_excluded_def codex_matched_def codex_matchIndexes_def snapshot_empty_def split: option.splits)

lemma no_states_excludes_none: "snapshot_rows s = [] \<Longrightarrow> \<not> xai_excluded pk s c"
  by (auto simp: xai_excluded_def xai_matches_def snapshot_rows_def split: option.splits)

definition codex_untouched :: "schedulerPickRequest \<Rightarrow> pick_state \<Rightarrow> bool" where
  "codex_untouched req ks \<longleftrightarrow> \<not> cf_AccountProtectionEnabled (protection_config ks) \<and> \<not> filter_forceHandle (r_filter req)"

lemma codex_decide_answers:
  assumes "codex_decide pk req s ks = (Inr resp, ks')"
  shows "answers (\<lambda>c. \<not> codex_excluded pk s c) (codex_untouched req ks) (r_Candidates req) resp"
proof -
  let ?cs = "r_Candidates req"
  let ?available = "filter (\<lambda>c. \<not> codex_excluded pk s c) ?cs"
  show ?thesis
  proof (cases "snapshot_empty s \<and> codex_untouched req ks")
    case True
    with assms have "resp = not_handled" by (simp add: codex_decide_def codex_untouched_def Let_def)
    with True show ?thesis by (simp add: answers_def empty_snapshot_excludes_none)
  next
    case False
    show ?thesis
    proof (cases "filter (codex_excluded pk s) ?cs = [] \<and> codex_untouched req ks")
      case True
      with assms False have "resp = not_handled" by (auto simp: codex_decide_def codex_untouched_def Let_def)
      with True show ?thesis by (simp add: answers_def filter_empty_conv)
    next
      case touched: False
      then obtain c ks1 where c: "resp = handled (c_ID c)" "?available \<noteq> []"
          "protected_pick pk 0 ?available (protection_config ks) (schedulerRotationKey (pk_env pk) req ''codex'')
             (schedulerAffinityKey (pk_env pk) req ''codex'') ks1 = (Inr c, ks')
           \<or> select_candidate pk (schedulerRotationKey (pk_env pk) req ''codex'')
             (schedulerAffinityKey (pk_env pk) req ''codex'') ?available ks1 = (Inr c, ks')"
        using assms False by (auto simp: codex_decide_def codex_untouched_def Let_def simp del: filter_empty_conv split: if_splits)
      then have "c \<in> set ?available" using protected_pick_Inr select_candidate_Inr by blast
      with c(1) show ?thesis by (auto simp: answers_def)
    qed
  qed
qed

lemma pick_codex_answers:
  assumes "pick_codex pk req ks = (Inr resp, ks')"
  shows "\<exists>s. (r_Candidates req \<noteq> [] \<longrightarrow> codex_serves pk (ks_cache ks) s)
     \<and> answers (\<lambda>c. \<not> codex_excluded pk s c) (codex_untouched req ks) (r_Candidates req) resp"
proof (cases "r_Candidates req = []")
  case True
  with assms show ?thesis by (simp add: pick_codex_def answers_def)
next
  case False
  then obtain s stale ready ks1 where f: "codexForPick pk ks = (Inr (s, stale, ready), ks1)"
    using assms by (auto simp: pick_codex_def Let_def)
  note served = codexForPick_Inr [OF f]
  define ks2 where "ks2 = (if pk_global pk \<and> (stale \<or> \<not> ready) then ks\<lparr>ks_refreshRequests := ks_refreshRequests ks + 1\<rparr> else ks)"
  have ks2: "ks_cache ks2 = ks_cache ks" "codex_untouched req ks2 = codex_untouched req ks"
    by (simp_all add: ks2_def codex_untouched_def protection_config_def)
  show ?thesis
  proof (cases "ready \<and> snapshot_empty s \<and> codex_untouched req ks")
    case True
    then have "resp = not_handled"
      using assms False f served(1) by (simp add: pick_codex_def Let_def codex_untouched_def flip: ks2_def)
    with True served show ?thesis by (auto simp: answers_def empty_snapshot_excludes_none)
  next
    case touched: False
    show ?thesis
    proof (cases ready)
      case True
      then have "codex_decide pk req s ks2 = (Inr resp, ks')"
        using assms False f served(1) touched by (auto simp: pick_codex_def Let_def codex_untouched_def ks2_def split: if_splits)
      from codex_decide_answers [OF this] True served(2) show ?thesis by (auto simp: ks2)
    next
      case ready: False
      then obtain s' ks3 where l: "load_codex pk ks2 = (Inr s', ks3)" "codex_decide pk req s' ks3 = (Inr resp, ks')"
        using assms False f served(1) by (auto simp: pick_codex_def Let_def ks2_def split: if_splits)
      have "codex_untouched req ks3 = codex_untouched req ks"
        using load_codex_Inr(2) [OF l(1)] ks2(2) by (simp add: codex_untouched_def protection_config_def)
      with codex_decide_answers [OF l(2)] load_codex_Inr(1) [OF l(1)] show ?thesis by (auto simp: ks2)
    qed
  qed
qed

lemma xai_decide_answers:
  assumes "xai_decide pk req s ks = (Inr resp, ks')"
  shows "answers (\<lambda>c. \<not> xai_excluded pk s c) (\<not> filter_forceHandle (r_filter req)) (r_Candidates req) resp"
proof -
  let ?cs = "r_Candidates req"
  let ?available = "filter (\<lambda>c. \<not> xai_excluded pk s c) ?cs"
  consider (none) "snapshot_rows s = []" "\<not> filter_forceHandle (r_filter req)"
    | (all) "filter (xai_excluded pk s) ?cs = []" "\<not> filter_forceHandle (r_filter req)"
    | (touched) "\<not> (snapshot_rows s = [] \<and> \<not> filter_forceHandle (r_filter req))"
        "\<not> (filter (xai_excluded pk s) ?cs = [] \<and> \<not> filter_forceHandle (r_filter req))" by blast
  then show ?thesis
  proof cases
    case none
    with assms show ?thesis by (simp add: xai_decide_def Let_def answers_def no_states_excludes_none)
  next
    case all
    with assms show ?thesis by (simp add: xai_decide_def Let_def answers_def filter_empty_conv split: if_splits)
  next
    case touched
    then have a: "?available \<noteq> []" using assms by (auto simp: xai_decide_def Let_def simp del: filter_empty_conv split: if_splits)
    let ?c = "fst (rotation_pick (pk_env pk) (schedulerRotationKey (pk_env pk) req ''xai'') ?available (pw_selection (ks_world ks)))"
    have "resp = handled (c_ID ?c)"
      using assms touched a by (auto simp: xai_decide_def Let_def split_beta simp del: filter_empty_conv split: if_splits)
    moreover have "?c \<in> set ?available" by (rule picked.chooses_offered [OF a])
    ultimately show ?thesis by (auto simp: answers_def)
  qed
qed

lemma pick_xai_answers:
  assumes "pickXAIAuthOnce pk req ks = (Inr resp, ks')"
  shows "\<exists>s. (r_Candidates req \<noteq> [] \<longrightarrow> xai_serves pk (ks_cache ks) s)
     \<and> answers (\<lambda>c. \<not> xai_excluded pk s c) (\<not> filter_forceHandle (r_filter req)) (r_Candidates req) resp"
proof (cases "r_Candidates req = []")
  case True
  with assms show ?thesis by (simp add: pickXAIAuthOnce_def answers_def)
next
  case False
  then obtain s stale ready ks1 where f: "xaiForPick pk ks = (Inr (s, stale, ready), ks1)"
    using assms by (auto simp: pickXAIAuthOnce_def Let_def)
  note served = xaiForPick_Inr [OF f]
  define ks2 where "ks2 = (if pk_global pk \<and> (stale \<or> \<not> ready) then ks\<lparr>ks_refreshRequests := ks_refreshRequests ks + 1\<rparr> else ks)"
  have ks2: "ks_cache ks2 = ks_cache ks" by (simp add: ks2_def)
  show ?thesis
  proof (cases "ready \<and> snapshot_rows s = [] \<and> \<not> filter_forceHandle (r_filter req)")
    case True
    then have "resp = not_handled" using assms False f served(1) by (simp add: pickXAIAuthOnce_def flip: ks2_def)
    with True served show ?thesis by (auto simp: answers_def no_states_excludes_none)
  next
    case touched: False
    show ?thesis
    proof (cases ready)
      case True
      then have "xai_decide pk req s ks2 = (Inr resp, ks')"
        using assms False f served(1) touched by (auto simp: pickXAIAuthOnce_def ks2_def split: if_splits)
      from xai_decide_answers [OF this] True served(2) show ?thesis by auto
    next
      case ready: False
      then obtain s' ks3 where l: "load_xai pk ks2 = (Inr s', ks3)" "xai_decide pk req s' ks3 = (Inr resp, ks')"
        using assms False f served(1) by (auto simp: pickXAIAuthOnce_def ks2_def split: if_splits)
      with xai_decide_answers [OF l(2)] load_xai_Inr(1) [OF l(1)] show ?thesis by (auto simp: ks2)
    qed
  qed
qed

lemma mixed_decide_answers:
  assumes "mixed_decide pk req hasCodex codex xai ks = (Inr resp, ks')"
  shows "answers (\<lambda>c. \<not> mixed_excluded pk codex xai c)
     (\<not> (hasCodex \<and> cf_AccountProtectionEnabled (protection_config ks)) \<and> \<not> filter_forceHandle (r_filter req)) (r_Candidates req) resp"
proof -
  let ?excluded = "filter (mixed_excluded pk codex xai) (r_Candidates req)"
  let ?untouched = "\<not> (hasCodex \<and> cf_AccountProtectionEnabled (protection_config ks)) \<and> \<not> filter_forceHandle (r_filter req)"
  show ?thesis
  proof (cases "?excluded = [] \<and> ?untouched")
    case True
    then have "resp = not_handled" using assms by (simp add: mixed_decide_def Let_def split: if_splits)
    with True show ?thesis by (simp add: answers_def filter_empty_conv)
  next
    case False
    obtain ks1 where "mixed_loop pk (hasCodex \<and> cf_AccountProtectionEnabled (protection_config ks)) (protection_config ks)
        (schedulerRotationKey (pk_env pk) req ''mixed'') (schedulerAffinityKey (pk_env pk) req ''mixed'') None
        (mixed_available pk req codex xai) ks1 = (Inr resp, ks')"
      using assms False by (auto simp: mixed_decide_def Let_def simp del: filter_empty_conv split: if_splits)
    from mixed_loop_member [OF this] show ?thesis by (auto simp: answers_def mixed_available_def)
  qed
qed

text \<open>The cache the xAI snapshot of a mixed pick is read from: the first one, or the one the Codex load left.\<close>

definition after_codex :: "pick_env \<Rightarrow> codexSchedulerSnapshot option \<Rightarrow> schedulerStateCache \<Rightarrow> schedulerStateCache \<Rightarrow> bool" where
  "after_codex pk codex cache cache' \<longleftrightarrow>
     cache' = cache \<or> (\<exists>ks ks'. ks_cache ks = cache \<and> load_codex pk ks = (Inr codex, ks') \<and> cache' = ks_cache ks')"

lemma after_codex_refl: "after_codex pk codex cache cache"
  by (simp add: after_codex_def)

text \<open>The snapshots a pick over the candidates works with.\<close>

definition restrictions_served ::
  "pick_env \<Rightarrow> schedulerStateCache \<Rightarrow> schedulerAuthCandidate list \<Rightarrow> codexSchedulerSnapshot option \<Rightarrow> xaiSchedulerSnapshot option \<Rightarrow> bool" where
  "restrictions_served pk cache cs codex xai \<longleftrightarrow>
     (list_ex (is_provider ''codex'') cs \<longrightarrow> codex_serves pk cache codex)
   \<and> (list_ex (is_provider ''xai'') cs \<longrightarrow> (\<exists>cache'. after_codex pk codex cache cache' \<and> xai_serves pk cache' xai))"

lemma mixed_provider_is [simp]: "mixed_provider c = p \<longleftrightarrow> is_provider p c"
  by (simp add: mixed_provider_def is_provider_def canonicalProvider_def)

definition leaves_choice :: "schedulerPickRequest \<Rightarrow> pick_state \<Rightarrow> bool" where
  "leaves_choice req ks \<longleftrightarrow> \<not> filter_forceHandle (r_filter req)
     \<and> \<not> (list_ex (is_provider ''codex'') (r_Candidates req) \<and> cf_AccountProtectionEnabled (protection_config ks))"

text \<open>The stages of a mixed pick that reaches its decision.\<close>

lemma mixed_stages:
  fixes pk req
  defines "hasCodex \<equiv> list_ex (is_provider ''codex'') (r_Candidates req)"
    and "hasXAI \<equiv> list_ex (is_provider ''xai'') (r_Candidates req)"
  assumes "pickMixedAuthOnce pk req ks = (Inr resp, ks')"
    and known: "r_Candidates req \<noteq> []" "\<not> (\<not> hasCodex \<and> \<not> hasXAI)"
  obtains codex0 cs0 cr ks1 xai0 xs0 xr ks2 ks3 codex ks4 xai ks5 where
      "(if hasCodex then codexForPick pk else return_pick (None, False, True)) ks = (Inr (codex0, cs0, cr), ks1)"
      "(if hasXAI then xaiForPick pk else return_pick (None, False, True)) ks1 = (Inr (xai0, xs0, xr), ks2)"
      "ks3 = (if pk_global pk \<and> (cs0 \<or> \<not> cr \<or> xs0 \<or> \<not> xr) then ks2\<lparr>ks_refreshRequests := ks_refreshRequests ks2 + 1\<rparr> else ks2)"
      "(if cr then return_pick codex0 else bind_pick (call_pick (pk_open pk)) (\<lambda>_. load_codex pk)) ks3 = (Inr codex, ks4)"
      "(if xr then return_pick xai0 else bind_pick (call_pick (pk_open pk)) (\<lambda>_. load_xai pk)) ks4 = (Inr xai, ks5)"
      "mixed_decide pk req hasCodex codex xai ks5 = (Inr resp, ks')"
proof -
  let ?fc = "if hasCodex then codexForPick pk else return_pick (None, False, True)"
  let ?fx = "if hasXAI then xaiForPick pk else return_pick (None, False, True)"
  let ?open = "bind_pick (call_pick (pk_open pk))"
  have run: "bind_pick ?fc (\<lambda>(codex, codexStale, cr). bind_pick ?fx (\<lambda>(xai, xaiStale, xr).
      bind_pick (request_refresh (pk_global pk \<and> (codexStale \<or> \<not> cr \<or> xaiStale \<or> \<not> xr))) (\<lambda>_.
      bind_pick (if cr then return_pick codex else ?open (\<lambda>_. load_codex pk)) (\<lambda>codex.
      bind_pick (if xr then return_pick xai else ?open (\<lambda>_. load_xai pk)) (\<lambda>xai.
      mixed_decide pk req hasCodex codex xai))))) ks = (Inr resp, ks')"
    using assms known unfolding hasCodex_def hasXAI_def pickMixedAuthOnce_def Let_def mixed_provider_is by (simp only: if_False)
  obtain codex0 cs0 cr ks1 where fc: "?fc ks = (Inr (codex0, cs0, cr), ks1)" and
    run1: "bind_pick ?fx (\<lambda>(xai, xaiStale, xr).
      bind_pick (request_refresh (pk_global pk \<and> (cs0 \<or> \<not> cr \<or> xaiStale \<or> \<not> xr))) (\<lambda>_.
      bind_pick (if cr then return_pick codex0 else ?open (\<lambda>_. load_codex pk)) (\<lambda>codex.
      bind_pick (if xr then return_pick xai else ?open (\<lambda>_. load_xai pk)) (\<lambda>xai.
      mixed_decide pk req hasCodex codex xai)))) ks1 = (Inr resp, ks')"
    using run by (rule bind_pick_InrE) (simp only: split_paired_all case_prod_conv)
  obtain xai0 xs0 xr ks2 where fx: "?fx ks1 = (Inr (xai0, xs0, xr), ks2)" and
    run2: "bind_pick (request_refresh (pk_global pk \<and> (cs0 \<or> \<not> cr \<or> xs0 \<or> \<not> xr))) (\<lambda>_.
      bind_pick (if cr then return_pick codex0 else ?open (\<lambda>_. load_codex pk)) (\<lambda>codex.
      bind_pick (if xr then return_pick xai0 else ?open (\<lambda>_. load_xai pk)) (\<lambda>xai.
      mixed_decide pk req hasCodex codex xai))) ks2 = (Inr resp, ks')"
    using run1 by (rule bind_pick_InrE) (simp only: split_paired_all case_prod_conv)
  obtain ks3 where
    req: "ks3 = (if pk_global pk \<and> (cs0 \<or> \<not> cr \<or> xs0 \<or> \<not> xr) then ks2\<lparr>ks_refreshRequests := ks_refreshRequests ks2 + 1\<rparr> else ks2)" and
    run3: "bind_pick (if cr then return_pick codex0 else ?open (\<lambda>_. load_codex pk)) (\<lambda>codex.
      bind_pick (if xr then return_pick xai0 else ?open (\<lambda>_. load_xai pk)) (\<lambda>xai.
      mixed_decide pk req hasCodex codex xai)) ks3 = (Inr resp, ks')"
    using run2 by (rule bind_pick_InrE) (simp only: request_refresh_Inr)
  obtain codex ks4 xai ks5 where
    lc: "(if cr then return_pick codex0 else ?open (\<lambda>_. load_codex pk)) ks3 = (Inr codex, ks4)" and
    lx: "(if xr then return_pick xai0 else ?open (\<lambda>_. load_xai pk)) ks4 = (Inr xai, ks5)" and
    d: "mixed_decide pk req hasCodex codex xai ks5 = (Inr resp, ks')"
    using run3 by (elim bind_pick_InrE)
  show thesis by (rule that [OF fc fx req lc lx d])
qed

lemma pick_mixed_answers:
  assumes "pickMixedAuthOnce pk req ks = (Inr resp, ks')"
  shows "\<exists>codex xai. restrictions_served pk (ks_cache ks) (r_Candidates req) codex xai
     \<and> answers (\<lambda>c. \<not> mixed_excluded pk codex xai c) (leaves_choice req ks) (r_Candidates req) resp"
proof -
  let ?cs = "r_Candidates req"
  let ?hasCodex = "list_ex (is_provider ''codex'') ?cs" and ?hasXAI = "list_ex (is_provider ''xai'') ?cs"
  consider (empty) "?cs = []" | (foreign) "?cs \<noteq> []" "\<not> ?hasCodex \<and> \<not> ?hasXAI" | (known) "?cs \<noteq> []" "\<not> (\<not> ?hasCodex \<and> \<not> ?hasXAI)"
    by blast
  then show ?thesis
  proof cases
    case empty
    with assms show ?thesis by (auto simp: pickMixedAuthOnce_def restrictions_served_def answers_def)
  next
    case foreign
    then have served: "restrictions_served pk (ks_cache ks) ?cs None None" by (simp add: restrictions_served_def)
    have "\<not> mixed_excluded pk None None c" if "c \<in> set ?cs" for c
      using that foreign by (auto simp: mixed_excluded_def list_ex_iff)
    then have "answers (\<lambda>c. \<not> mixed_excluded pk None None c) (leaves_choice req ks) ?cs resp"
      using assms foreign by (auto simp: pickMixedAuthOnce_def answers_def leaves_choice_def dest: select_candidate_Inr split: if_splits)
    with served show ?thesis by blast
  next
    case known
    obtain codex0 cs0 cr ks1 xai0 xs0 xr ks2 ks3 codex ks4 xai ks5 where
      fc: "(if ?hasCodex then codexForPick pk else return_pick (None, False, True)) ks = (Inr (codex0, cs0, cr), ks1)" and
      fx: "(if ?hasXAI then xaiForPick pk else return_pick (None, False, True)) ks1 = (Inr (xai0, xs0, xr), ks2)" and
      req: "ks3 = (if pk_global pk \<and> (cs0 \<or> \<not> cr \<or> xs0 \<or> \<not> xr) then ks2\<lparr>ks_refreshRequests := ks_refreshRequests ks2 + 1\<rparr> else ks2)" and
      lc: "(if cr then return_pick codex0 else bind_pick (call_pick (pk_open pk)) (\<lambda>_. load_codex pk)) ks3 = (Inr codex, ks4)" and
      lx: "(if xr then return_pick xai0 else bind_pick (call_pick (pk_open pk)) (\<lambda>_. load_xai pk)) ks4 = (Inr xai, ks5)" and
      d: "mixed_decide pk req ?hasCodex codex xai ks5 = (Inr resp, ks')"
      using mixed_stages [OF assms known] by metis
    have c: "ks1 = ks" "?hasCodex \<and> cr \<longrightarrow> codex_serves pk (ks_cache ks) codex0" "\<not> ?hasCodex \<longrightarrow> cr"
      using fc codexForPick_Inr [of pk ks codex0 cs0 cr ks1] by (auto split: if_splits)
    have x: "ks2 = ks" "?hasXAI \<and> xr \<longrightarrow> xai_serves pk (ks_cache ks) xai0" "\<not> ?hasXAI \<longrightarrow> xr"
      using fx xaiForPick_Inr [of pk ks1 xai0 xs0 xr ks2] c(1) by (auto split: if_splits)
    have k3: "ks_cache ks3 = ks_cache ks" "ks_manager ks3 = ks_manager ks" by (auto simp: req x(1))
    have codex: "?hasCodex \<longrightarrow> codex_serves pk (ks_cache ks) codex" "ks_manager ks4 = ks_manager ks"
        "after_codex pk codex (ks_cache ks) (ks_cache ks4)"
      using lc c(2) k3 load_codex_Inr(1,2) [of pk ks3 codex ks4] by (auto simp: after_codex_def split: if_splits)
    have xai: "?hasXAI \<longrightarrow> (\<exists>cache'. after_codex pk codex (ks_cache ks) cache' \<and> xai_serves pk cache' xai)" "ks_manager ks5 = ks_manager ks"
      using lx x(2) codex(2,3) load_xai_Inr(1,2) [of pk ks4 xai ks5] by (auto simp: after_codex_def split: if_splits)
    have "answers (\<lambda>c. \<not> mixed_excluded pk codex xai c) (leaves_choice req ks) ?cs resp"
      using mixed_decide_answers [OF d] xai(2) by (simp add: leaves_choice_def protection_config_def conj_commute)
    with codex(1) xai(1) show ?thesis by (auto simp: restrictions_served_def)
  qed
qed

section \<open>Any request\<close>

text \<open>A prepared request is dispatched by the one provider its candidates have, or as a mixed one.\<close>

lemma canonical_EqualFold: "canonicalProvider p = p \<Longrightarrow> EqualFold p q \<longleftrightarrow> p = ToLower q"
  by (metis EqualFold_def ToLower_idem canonicalProvider_def)

lemma dispatch_empty: "r_Candidates req = [] \<Longrightarrow> dispatch_pick pk req ks = (Inr not_handled, ks)"
  by (simp add: dispatch_pick_def pickMixedAuthOnce_def pickXAIAuthOnce_def pick_other_def pick_codex_def)

lemma prepared_provider:
  assumes "prepareSchedulerRequest q req = Inr req'" and "c \<in> set (r_Candidates req')"
  shows "canonicalProvider (c_Provider c) = c_Provider c \<and> c_Provider c \<in> set (r_Providers req')"
  using assms(1)
proof (cases rule: prepare_cases)
  case unrouted
  have "r_Candidates req' = []" unfolding unrouted(2) by (rule allowed_Nil) (rule unrouted(1))
  with assms(2) show ?thesis by simp
next
  case (routed allowed)
  obtain d where "c = canonical_candidate d" "admissible q allowed d" using assms(2) unfolding routed(5) by auto
  then show ?thesis unfolding routed(3) by (simp add: canonical_candidate_def admissible_def Let_def)
qed

text \<open>The three ways a request with candidates is dispatched.\<close>

lemma dispatch_cases:
  assumes "prepareSchedulerRequest q req = Inr req'" and ne: "r_Candidates req' \<noteq> []"
  obtains (mixed) "dispatch_pick pk req' = pickMixedAuthOnce pk req'"
  | (single) p where "r_Providers req' = [p]" "p \<noteq> []"
      "dispatch_pick pk req' = (if p = ''xai'' then pickXAIAuthOnce pk req' else if p = ''codex'' then pick_codex pk req' else pick_other pk req')"
  using assms(1)
proof (cases rule: prepare_cases)
  case unrouted
  then show thesis using ne allowed_Nil by auto
next
  case (routed allowed)
  have f: "filter_mixed (r_filter req') \<longleftrightarrow> 1 < length allowed"
    unfolding routed(6) filter_mixed_def by (simp add: filter_candidates_allowed)
  show thesis
  proof (cases "1 < length allowed")
    case True
    then have "isMixedSchedulerRequest req'" using f routed(6) by (simp add: isMixedSchedulerRequest_def)
    then show thesis by (intro mixed) (simp add: dispatch_pick_def)
  next
    case False
    with routed(2) obtain p where p: "allowed = [p]" by (cases allowed) auto
    have notmixed: "\<not> isMixedSchedulerRequest req'" using f False routed(6) by (simp add: isMixedSchedulerRequest_def)
    note canonical = allowed_canonical [OF routed(1), of p, unfolded p, simplified]
    have route: "r_Provider req' = [] \<or> r_Provider req' = ''mixed'' \<or> r_Provider req' = p"
      using routed(1) unfolding p routed(4) schedulerAllowedProviders_def Let_def by (auto split: if_splits)
    have fold: "EqualFold (TrimSpace x) y \<longleftrightarrow> x = ToLower y" if "canonicalProvider x = x" for x y
      using that by (metis EqualFold_def ToLower_idem canonicalProvider_def)
    have "EqualFold (TrimSpace (r_Provider req')) y \<longleftrightarrow> r_Provider req' = ToLower y" for y
      by (rule fold) (simp add: routed(4))
    moreover have "EqualFold (TrimSpace p) y \<longleftrightarrow> p = ToLower y" for y by (rule fold) (rule canonical)
    ultimately have "isXAISchedulerRequest req' \<longleftrightarrow> p = ''xai''" "p \<noteq> ''xai'' \<Longrightarrow> isCodexSchedulerRequest req' \<longleftrightarrow> p = ''codex''"
      using route unfolding isXAISchedulerRequest_def isCodexSchedulerRequest_def routed(3) p by auto
    then show thesis
      by (intro single [of p]) (use routed(3) p canonical notmixed in \<open>auto simp: dispatch_pick_def fun_eq_iff\<close>)
  qed
qed

lemma pick_other_answers:
  assumes "pick_other pk req ks = (Inr resp, ks')"
  shows "answers (\<lambda>_. True) (\<not> filter_forceHandle (r_filter req)) (r_Candidates req) resp"
proof (cases "r_Candidates req = [] \<or> \<not> filter_forceHandle (r_filter req)")
  case True
  with assms show ?thesis by (auto simp: pick_other_def answers_def split: list.splits)
next
  case False
  then obtain rk ak c where "select_candidate pk rk ak (r_Candidates req) ks = (Inr c, ks')" "resp = handled (c_ID c)"
    using assms by (cases "r_Candidates req") (auto simp: pick_other_def)
  with False show ?thesis by (auto simp: answers_def dest: select_candidate_Inr)
qed

lemma dispatch_answers:
  assumes prep: "prepareSchedulerRequest q req = Inr req'" and run: "dispatch_pick pk req' ks = (Inr resp, ks')"
  shows "\<exists>codex xai. restrictions_served pk (ks_cache ks) (r_Candidates req') codex xai
     \<and> answers (\<lambda>c. \<not> mixed_excluded pk codex xai c) (leaves_choice req' ks) (r_Candidates req') resp"
proof (cases "r_Candidates req' = []")
  case True
  with run show ?thesis by (auto simp: dispatch_empty answers_def restrictions_served_def)
next
  case ne: False
  from prep ne show ?thesis
  proof (cases rule: dispatch_cases [of q req req' pk])
    case mixed
    with run show ?thesis by (intro pick_mixed_answers [of pk req' ks resp ks']) simp
  next
    case (single p)
    have each: "c_Provider c = p" "is_provider r c \<longleftrightarrow> p = r" if "c \<in> set (r_Candidates req')" for c r
      using prepared_provider [OF prep that] single(1) by (auto simp: is_provider_def)
    have some: "list_ex (is_provider r) (r_Candidates req') \<longleftrightarrow> p = r" for r
      using each ne by (cases "r_Candidates req'") (auto simp: list_ex_iff)
    have canonical: "canonicalProvider p = p" using each prepared_provider [OF prep] ne by (metis hd_in_set)
    have trim_xai: "TrimSpace ''xai'' = ''xai''" by code_simp
    have excluded: "codex_excluded pk s c \<longleftrightarrow> mixed_excluded pk s None c" if "c \<in> set (r_Candidates req')" "p = ''codex''" for s c
      using each [OF that(1)] that(2) by (simp add: codex_excluded_def mixed_excluded_def EqualFold_def)
    have excluded': "xai_excluded pk s c \<longleftrightarrow> mixed_excluded pk None s c" if "c \<in> set (r_Candidates req')" "p = ''xai''" for s c
      using each [OF that(1)] that(2) trim_xai by (simp add: xai_excluded_def mixed_excluded_def EqualFold_def)
    have leaves: "leaves_choice req' ks \<longleftrightarrow> \<not> filter_forceHandle (r_filter req') \<and> \<not> (p = ''codex'' \<and> cf_AccountProtectionEnabled (protection_config ks))"
      by (simp add: leaves_choice_def some)
    consider "p = ''xai''" | "p = ''codex''" | "p \<noteq> ''xai''" "p \<noteq> ''codex''" by blast
    then show ?thesis
    proof cases
      case 1
      with run single(3) have "pickXAIAuthOnce pk req' ks = (Inr resp, ks')" by simp
      from pick_xai_answers [OF this] obtain s where "xai_serves pk (ks_cache ks) s"
          "answers (\<lambda>c. \<not> xai_excluded pk s c) (\<not> filter_forceHandle (r_filter req')) (r_Candidates req') resp" using ne by blast
      with 1 show ?thesis
        by (intro exI [of _ None] exI [of _ s])
          (auto simp: restrictions_served_def some leaves answers_def excluded' intro: after_codex_refl)
    next
      case 2
      with run single(3) have "pick_codex pk req' ks = (Inr resp, ks')" by simp
      from pick_codex_answers [OF this] obtain s where "codex_serves pk (ks_cache ks) s"
          "answers (\<lambda>c. \<not> codex_excluded pk s c) (codex_untouched req' ks) (r_Candidates req') resp" using ne by blast
      with 2 show ?thesis
        by (intro exI [of _ s] exI [of _ None])
          (auto simp: restrictions_served_def some leaves answers_def excluded codex_untouched_def)
    next
      case 3
      with run single(3) have "pick_other pk req' ks = (Inr resp, ks')" by simp
      from pick_other_answers [OF this] show ?thesis
        using 3 each by (intro exI [of _ None]) (auto simp: restrictions_served_def some leaves answers_def mixed_excluded_def)
    qed
  qed
qed

text \<open>A pick is one attempt, or two when the first found the state moved; each begins with the reconciliation.\<close>

lemma once_cases:
  assumes "pickAuthOnce pk req ks = (Inr resp, ks')"
  obtains req' where "prepareSchedulerRequest (pk_quarantine pk) req = Inr req'"
    "dispatch_pick pk req' (ks\<lparr>ks_cache := snd (pk_reconcile pk (ks_cache ks))\<rparr>) = (Inr resp, ks')"
  using assms by (auto simp: pickAuthOnce_def Let_def split: prod.splits option.splits sum.splits)

definition attempts :: "pick_env \<Rightarrow> pick_env \<Rightarrow> schedulerPickRequest \<Rightarrow> pick_state \<Rightarrow> (pick_env \<times> pick_state) set" where
  "attempts pk pk' req ks = {(pk, ks), (pk', snd (pickAuthOnce pk req ks))}"

lemma pickAuth_attempt:
  assumes "pickAuth cancelled pk pk' req ks = (Inr resp, ks')"
  obtains pk0 ks0 where "(pk0, ks0) \<in> attempts pk pk' req ks" "pickAuthOnce pk0 req ks0 = (Inr resp, ks')"
  using assms unfolding pickAuth_def retrySchedulerStateChange_def attempts_def
  by (auto split: prod.splits sum.splits pick_error.splits if_splits)

definition reconciled :: "pick_env \<Rightarrow> pick_state \<Rightarrow> pick_state" where
  "reconciled pk ks = ks\<lparr>ks_cache := snd (pk_reconcile pk (ks_cache ks))\<rparr>"

lemma pick_answers:
  assumes "pickAuth cancelled pk pk' req ks = (Inr resp, ks')"
  obtains pk0 ks0 req' codex xai where "(pk0, ks0) \<in> attempts pk pk' req ks"
    "prepareSchedulerRequest (pk_quarantine pk0) req = Inr req'"
    "restrictions_served pk0 (ks_cache (reconciled pk0 ks0)) (r_Candidates req') codex xai"
    "answers (\<lambda>c. \<not> mixed_excluded pk0 codex xai c) (leaves_choice req' (reconciled pk0 ks0)) (r_Candidates req') resp"
proof -
  obtain pk0 ks0 where a: "(pk0, ks0) \<in> attempts pk pk' req ks" "pickAuthOnce pk0 req ks0 = (Inr resp, ks')"
    by (rule pickAuth_attempt [OF assms])
  from a(2) obtain req' where "prepareSchedulerRequest (pk_quarantine pk0) req = Inr req'"
      "dispatch_pick pk0 req' (reconciled pk0 ks0) = (Inr resp, ks')"
    unfolding reconciled_def by (rule once_cases)
  with dispatch_answers [OF this] a(1) that show thesis by blast
qed

text \<open>A prepared request that does not force handling offers the candidates of the request.\<close>

lemma prepared_untouched:
  assumes "prepareSchedulerRequest q req = Inr req'" and "\<not> filter_forceHandle (r_filter req')"
  shows "map c_ID (r_Candidates req') = map c_ID (r_Candidates req)"
  using assms(1)
proof (cases rule: prepare_cases)
  case unrouted
  then show ?thesis by simp
next
  case (routed allowed)
  have "\<forall>c\<in>set (r_Candidates req). admissible q allowed c"
    using assms(2) unfolding routed(6) filter_candidates_force by blast
  then show ?thesis unfolding routed(5) by (simp add: canonical_candidate_def)
qed

section \<open>Properties\<close>

text \<open>C1: A pick never answers with a restricted account. Whatever the request, the cache and the other
  threads, the account a handled pick names is a candidate the route filter admitted, and neither the Codex nor the
  xAI restrictions that were served to this attempt, from the cache or from the tables, match it.\<close>

theorem pick_never_restricted:
  assumes "pickAuth cancelled pk pk' req ks = (Inr resp, ks')" and "p_Handled resp"
  shows "\<exists>pk0 ks0 req' codex xai c. (pk0, ks0) \<in> attempts pk pk' req ks
     \<and> prepareSchedulerRequest (pk_quarantine pk0) req = Inr req' \<and> c \<in> set (r_Candidates req') \<and> p_AuthID resp = c_ID c
     \<and> restrictions_served pk0 (ks_cache (reconciled pk0 ks0)) (r_Candidates req') codex xai
     \<and> \<not> mixed_excluded pk0 codex xai c"
proof -
  obtain pk0 ks0 req' codex xai where a: "(pk0, ks0) \<in> attempts pk pk' req ks"
      "prepareSchedulerRequest (pk_quarantine pk0) req = Inr req'"
      "restrictions_served pk0 (ks_cache (reconciled pk0 ks0)) (r_Candidates req') codex xai"
      "answers (\<lambda>c. \<not> mixed_excluded pk0 codex xai c) (leaves_choice req' (reconciled pk0 ks0)) (r_Candidates req') resp"
    by (rule pick_answers [OF assms(1)])
  from a(4) assms(2) obtain c where "c \<in> set (r_Candidates req')" "\<not> mixed_excluded pk0 codex xai c" "p_AuthID resp = c_ID c"
    by (auto simp: answers_def)
  with a(1-3) show ?thesis by blast
qed

definition example_pick_env :: "autobanRow list \<Rightarrow> pick_env" where
  "example_pick_env bans = \<lparr>pk_env = example_env 0, pk_global = False, pk_reconcile = (\<lambda>c. (None, c)), pk_quarantine = None,
     pk_open = None, pk_tables = \<lparr>db_bans = bans, db_invalids = [], db_xai = []\<rparr>, pk_queryBans = None,
     pk_queryInvalids = None, pk_queryXAI = None, pk_others = (\<lambda>c. c), pk_handle = 0,
     pk_protect = (\<lambda>_. example_protect_env 0)\<rparr>"

definition example_pick_state :: "bool \<Rightarrow> pick_state" where
  "example_pick_state protected = \<lparr>ks_cache = \<lparr>sc_codex = empty_slot, sc_xai = empty_slot\<rparr>, ks_world = Protection.example_world,
     ks_manager = (example_managed 0)\<lparr>mw_manager := (mw_manager (example_managed 0))
       \<lparr>pm_cfg := defaultPluginConfig\<lparr>cf_AccountProtectionEnabled := protected\<rparr>\<rparr>\<rparr>,
     ks_refreshRequests = 0, ks_restrictionRecords = []\<rparr>"

definition example_codex_request :: "string list \<Rightarrow> schedulerPickRequest" where
  "example_codex_request ids = (example_request (map (\<lambda>i. example_of i ''codex'') ids))\<lparr>r_Provider := ''codex'', r_Providers := []\<rparr>"

theorem pick_never_restricted_witness:
  "\<exists>req' c. prepareSchedulerRequest None (example_codex_request [''a.json'', ''b.json'']) = Inr req'
     \<and> c \<in> set (r_Candidates req') \<and> c_ID c = ''b.json''"
proof -
  let ?pk = "example_pick_env [example_ban ''a.json'' ''1'' 9]"
  let ?run = "pickAuth False ?pk ?pk (example_codex_request [''a.json'', ''b.json'']) (example_pick_state False)"
  have "fst ?run = Inr (handled ''b.json'')" by code_simp
  then have run: "?run = (Inr (handled ''b.json''), snd ?run)" by (metis prod.collapse)
  have "pk_quarantine pk0 = None" if "(pk0, ks0) \<in> attempts ?pk ?pk r ks" for pk0 ks0 r ks
    using that by (auto simp: attempts_def example_pick_env_def)
  with pick_never_restricted [OF run] show ?thesis by (simp, metis)
qed

text \<open>The choice is left to the host only when the plugin has nothing to enforce: the host then chooses among
  exactly the candidates it offered, none of them is restricted by what was served, and no Codex
  limit is to be enforced.\<close>

theorem delegates_only_untouched:
  assumes "pickAuth cancelled pk pk' req ks = (Inr resp, ks')" and "\<not> p_Handled resp"
  shows "r_Candidates req = [] \<or> (\<exists>pk0 ks0 req' codex xai. (pk0, ks0) \<in> attempts pk pk' req ks
     \<and> prepareSchedulerRequest (pk_quarantine pk0) req = Inr req' \<and> map c_ID (r_Candidates req') = map c_ID (r_Candidates req)
     \<and> restrictions_served pk0 (ks_cache (reconciled pk0 ks0)) (r_Candidates req') codex xai
     \<and> (\<forall>c\<in>set (r_Candidates req'). \<not> mixed_excluded pk0 codex xai c)
     \<and> (list_ex (is_provider ''codex'') (r_Candidates req')
         \<longrightarrow> \<not> cf_AccountProtectionEnabled (protection_config (reconciled pk0 ks0))))"
proof -
  obtain pk0 ks0 req' codex xai where a: "(pk0, ks0) \<in> attempts pk pk' req ks"
      "prepareSchedulerRequest (pk_quarantine pk0) req = Inr req'"
      "restrictions_served pk0 (ks_cache (reconciled pk0 ks0)) (r_Candidates req') codex xai"
      "answers (\<lambda>c. \<not> mixed_excluded pk0 codex xai c) (leaves_choice req' (reconciled pk0 ks0)) (r_Candidates req') resp"
    by (rule pick_answers [OF assms(1)])
  show ?thesis
  proof (cases "r_Candidates req' = []")
    case True
    with a(2) show ?thesis by (auto elim: prepare_cases dest: allowed_Nil)
  next
    case False
    with a(4) assms(2) have d: "leaves_choice req' (reconciled pk0 ks0)" "\<forall>c\<in>set (r_Candidates req'). \<not> mixed_excluded pk0 codex xai c"
      by (auto simp: answers_def)
    then have "map c_ID (r_Candidates req') = map c_ID (r_Candidates req)"
      using prepared_untouched [OF a(2)] by (simp add: leaves_choice_def)
    moreover have "list_ex (is_provider ''codex'') (r_Candidates req')
         \<longrightarrow> \<not> cf_AccountProtectionEnabled (protection_config (reconciled pk0 ks0))"
      using d(1) by (simp add: leaves_choice_def)
    ultimately show ?thesis using a(1,2,3) d(2) by blast
  qed
qed

theorem delegates_only_untouched_witness:
  "\<exists>pk0 ks0 (req' :: schedulerPickRequest) codex xai. (pk0, ks0) \<in> attempts (example_pick_env []) (example_pick_env []) (example_codex_request [''a.json'']) (example_pick_state False)
     \<and> map c_ID (r_Candidates req') = [''a.json'']
     \<and> restrictions_served pk0 (ks_cache (reconciled pk0 ks0)) (r_Candidates req') codex xai"
proof -
  let ?run = "pickAuth False (example_pick_env []) (example_pick_env []) (example_codex_request [''a.json'']) (example_pick_state False)"
  have "fst ?run = Inr not_handled" by code_simp
  then have run: "?run = (Inr not_handled, snd ?run)" by (metis prod.collapse)
  have "map c_ID (r_Candidates (example_codex_request [''a.json''])) = [''a.json'']" by code_simp
  with delegates_only_untouched [OF run] show ?thesis by fastforce
qed

text \<open>C8: Saturation of Codex never hides a healthy account of another provider. As long as one candidate
  that is not Codex is unrestricted, a mixed request is answered with a candidate or left to the
  host, or fails on the database; it is never rejected for saturation or unavailability.\<close>

theorem mixed_falls_back:
  assumes "c \<in> set (r_Candidates req)" "\<not> mixed_excluded pk codex xai c" "\<not> is_provider providerCodex c"
  shows "(\<exists>c'\<in>set (r_Candidates req). fst (mixed_decide pk req hasCodex codex xai ks) = Inr (handled (c_ID c')))
     \<or> fst (mixed_decide pk req hasCodex codex xai ks) = Inr not_handled
     \<or> (\<exists>err. fst (mixed_decide pk req hasCodex codex xai ks) = Inl (OtherError err))"
proof (cases "mixed_decide pk req hasCodex codex xai ks")
  case (Pair r ks')
  show ?thesis
  proof (cases r)
    case (Inr resp)
    from mixed_decide_answers [OF Pair [unfolded Inr]] Pair Inr show ?thesis by (auto simp: answers_def)
  next
    case (Inl e)
    have some: "c \<in> set (mixed_available pk req codex xai)" using assms by (simp add: mixed_available_def)
    then obtain protect cfg rk ak ks1 where
        "mixed_loop pk protect cfg rk ak None (mixed_available pk req codex xai) ks1 = (Inl e, ks')"
      using Pair Inl by (auto simp: mixed_decide_def bind_pick_def record_filtered_def Let_def simp del: filter_empty_conv split: if_splits)
    from mixed_loop_error [OF this] have "\<exists>err. e = OtherError err" using some assms(3) by auto
    with Pair Inl show ?thesis by auto
  qed
qed

theorem mixed_falls_back_witness:
  "let pk = example_pick_env []; cs = [example_of ''a.json'' ''codex'', example_of ''x.json'' ''xai'']
   in (\<exists>c'\<in>set (r_Candidates (example_prepared 0 cs)). fst (mixed_decide pk (example_prepared 0 cs) True None None (example_pick_state True)) = Inr (handled (c_ID c')))
     \<or> fst (mixed_decide pk (example_prepared 0 cs) True None None (example_pick_state True)) = Inr not_handled
     \<or> (\<exists>err. fst (mixed_decide pk (example_prepared 0 cs) True None None (example_pick_state True)) = Inl (OtherError err))"
  unfolding Let_def
proof (rule mixed_falls_back [where c = "example_of ''x.json'' ''xai''"])
  show "\<not> mixed_excluded (example_pick_env []) None None (example_of ''x.json'' ''xai'')" by code_simp
  show "\<not> is_provider providerCodex (example_of ''x.json'' ''xai'')" by code_simp
qed (simp add: example_prepared_def)

end
