(* ===== verification/Auth_State.thy ===== *)
theory Auth_State
  imports Protection_Metrics State_Cache Usage_Record
begin

text \<open>
  What the recording of restrictions shares between the providers: how a usage record is tied to
  a credential file (\<open>authFileStateForRecord\<close> of \<open>summary.go\<close>, \<open>xaiAuthFileStateForRecord\<close>
  of \<open>xai_accounts.go\<close>), the alias sets of the configured accounts, the statements the code runs on a
  restriction table (\<open>INSERT ... ON CONFLICT\<close>, \<open>UPDATE ... SET active=0\<close>) and their brackets
  in the restriction cache. The lemmas say what a statement leaves of the table and that it keeps its
  primary key.
\<close>

section \<open>Configured accounts (\<open>summary.go\<close>, \<open>main.go\<close>)\<close>

definition configuredEmailCounts :: "configuredAccount list \<Rightarrow> (string \<times> nat) list" where
  "configuredEmailCounts configured =
     alias_counts (map (\<lambda>cfg. let email = normalizeAccountAlias (cg_Email cfg) in if email \<noteq> [] then [email] else []) configured)"

definition configuredAccountMatchAliases :: "configuredAccount \<Rightarrow> (string \<times> nat) list \<Rightarrow> string list" where
  "configuredAccountMatchAliases cfg emailCounts =
     (let email = normalizeAccountAlias (cg_Email cfg)
      in if email = [] \<or> lookup_or 0 emailCounts email \<le> 1
         then normalizeAccountAliases [cg_AuthFile cfg, cg_AuthIndex cfg, cg_AuthID cfg, cg_Source cfg, cg_Email cfg, cg_Name cfg]
         else normalizeAccountAliases [cg_AuthFile cfg, cg_AuthIndex cfg])"

definition configuredAliasSet :: "configuredAccount list \<Rightarrow> string list" where
  "configuredAliasSet configured = filter (\<lambda>a. a \<noteq> []) (concat (map configuredAliases configured))"

definition configuredStrictAliasSet :: "configuredAccount list \<Rightarrow> string list" where
  "configuredStrictAliasSet configured = filter (\<lambda>a. a \<noteq> [])
     (concat (map (\<lambda>cfg. normalizeAccountAliases [cg_AuthFile cfg, cg_AuthIndex cfg, cg_ChatGPTAccountID cfg]) configured))"

definition aliasesContainAny :: "string list \<Rightarrow> string list \<Rightarrow> bool" where
  "aliasesContainAny aliases values' \<longleftrightarrow> list_ex (\<lambda>a. a \<in> set aliases) (normalizeAccountAliases values')"

definition fileBackedCleanupAliases :: "string \<Rightarrow> string \<Rightarrow> string \<Rightarrow> string \<Rightarrow> string list" where
  "fileBackedCleanupAliases authID authIndex source authFile =
     normalizeAccountAliases (filter (\<lambda>f. f \<noteq> []) (map fileNameIfJSON [authFile, authID, authIndex, source]))"

section \<open>The credential file of a record\<close>

text \<open>
  The environment of a statement: the clock, the configured accounts of the two providers, the
  modification time of a credential file (0 when it cannot be read), whether each auth source is
  authoritative, and the error of the n-th statement of a call.
\<close>

record auth_env =
  ae_sched :: sched_env
  ae_codex :: "configuredAccount list"
  ae_xai :: "configuredAccount list"
  ae_mtime :: "string \<Rightarrow> int"
  ae_codexReadable :: bool
  ae_xaiReadable :: bool
  ae_fails :: "nat \<Rightarrow> string option"

definition authFileStateForName :: "auth_env \<Rightarrow> string \<Rightarrow> string \<times> int" where
  "authFileStateForName ae authFile = (authFile, ae_mtime ae authFile)"

text \<open>The file a record names itself, or that of the first account of the list the predicate accepts.\<close>

definition record_file_state :: "auth_env \<Rightarrow> (configuredAccount \<Rightarrow> bool) \<Rightarrow> configuredAccount list \<Rightarrow> usageRecord \<Rightarrow> string \<times> int" where
  "record_file_state ae accept configured rec =
     (let direct = fileNameIfJSON (ur_AuthFile rec);
          named = firstNonEmptyString [fileNameIfJSON (ur_AuthIndex rec), fileNameIfJSON (ur_Source rec), fileNameIfJSON (ur_AuthID rec)]
      in if direct \<noteq> [] then authFileStateForName ae direct
         else if named \<noteq> [] then authFileStateForName ae named
         else case find accept configured of
                None \<Rightarrow> ([], 0)
              | Some cfg \<Rightarrow> (cg_AuthFile cfg, cg_AuthFileMTime cfg))"

definition authFileStateForRecord :: "auth_env \<Rightarrow> usageRecord \<Rightarrow> string \<times> int" where
  "authFileStateForRecord ae rec =
     record_file_state ae
       (\<lambda>cfg. list_ex (\<lambda>a. a \<noteq> [] \<and> a \<in> set (configuredAccountMatchAliases cfg (configuredEmailCounts (ae_codex ae))))
                (normalizeAccountAliases [ur_AuthIndex rec, ur_AuthID rec, ur_Source rec])) (ae_codex ae) rec"

definition xaiAuthFileStateForRecord :: "auth_env \<Rightarrow> usageRecord \<Rightarrow> string \<times> int" where
  "xaiAuthFileStateForRecord ae rec =
     record_file_state ae
       (\<lambda>cfg. aliasesOverlap (normalizeAccountAliases [ur_AuthIndex rec, ur_AuthID rec, ur_Source rec])
                (configuredAccountMatchAliases cfg (configuredEmailCounts (ae_xai ae)))) (ae_xai ae) rec"

definition codexAuthRecordLooksFileBacked :: "auth_env \<Rightarrow> usageRecord \<Rightarrow> bool" where
  "codexAuthRecordLooksFileBacked ae rec \<longleftrightarrow>
     fst (authFileStateForRecord ae rec) \<noteq> [] \<or> fileBackedAuthState [ur_AuthID rec, ur_AuthIndex rec, ur_Source rec]"

text \<open>The aliases a successful request clears, and whether they are strict.\<close>

definition recoveryMatchAliasesForRecord :: "auth_env \<Rightarrow> usageRecord \<Rightarrow> string list \<times> bool" where
  "recoveryMatchAliasesForRecord ae rec =
     (let authFile = fst (authFileStateForRecord ae rec);
          email = normalizeAccountAlias (firstNonEmptyString [ur_Source rec, ur_AuthID rec]);
          strict = (ur_AuthFile rec \<noteq> [] \<or> authFile \<noteq> [] \<and> email \<noteq> []
                      \<and> 1 < lookup_or 0 (configuredEmailCounts (ae_codex ae)) email)
      in if strict
         then let aliases = strictAuthStateAliasesForValues (ur_AuthID rec) (ur_AuthIndex rec) (ur_Source rec) authFile
              in (aliases, aliases \<noteq> [])
         else (normalizeAccountAliases [ur_AuthID rec, ur_AuthIndex rec, ur_Source rec], False))"

definition successfulStatusCode :: "int \<Rightarrow> bool" where
  "successfulStatusCode status \<longleftrightarrow> status = 0 \<or> 200 \<le> status \<and> status < 300"

text \<open>Milliseconds are told from seconds by size.\<close>

definition normalizeUnixSeconds :: "int \<Rightarrow> int" where
  "normalizeUnixSeconds value = (if 10 ^ 12 < value then value div 1000 else value)"

definition normalizeInt64Ptr :: "int option \<Rightarrow> int option" where
  "normalizeInt64Ptr = map_option normalizeUnixSeconds"

section \<open>Statements on a table\<close>

definition upsert_row :: "('r \<Rightarrow> 'k) \<Rightarrow> ('r \<Rightarrow> 'r) \<Rightarrow> 'r \<Rightarrow> 'r list \<Rightarrow> 'r list" where
  "upsert_row key change new rows =
     (if key new \<in> key ` set rows then map (\<lambda>r. if key r = key new then change r else r) rows else rows @ [new])"

text \<open>An update of the rows a condition selects; the flag says whether there was one.\<close>

definition update_rows :: "('r \<Rightarrow> bool) \<Rightarrow> ('r \<Rightarrow> 'r) \<Rightarrow> 'r list \<Rightarrow> bool \<times> 'r list" where
  "update_rows P change rows = (list_ex P rows, map (\<lambda>r. if P r then change r else r) rows)"

text \<open>Statements one after the other until one fails; the flag says whether one of them changed a row.\<close>

fun run_statements ::
  "(nat \<Rightarrow> string option) \<Rightarrow> nat \<Rightarrow> ('w \<Rightarrow> bool \<times> 'w) list \<Rightarrow> bool \<Rightarrow> 'w \<Rightarrow> string option \<times> bool \<times> 'w" where
  "run_statements fails n [] changed w = (None, changed, w)"
| "run_statements fails n (s # ss) changed w =
     (case fails n of
        Some err \<Rightarrow> (Some err, changed, w)
      | None \<Rightarrow> let (c, w') = s w in run_statements fails (Suc n) ss (changed \<or> c) w')"

lemma run_statements_related:
  assumes "reflp R" "transp R" and "\<And>s v. s \<in> set ss \<Longrightarrow> R v (snd (s v))"
  shows "R w (snd (snd (run_statements fails n ss b w)))"
  using assms(3)
proof (induction ss arbitrary: n b w)
  case Nil
  show ?case using assms(1) by (simp add: reflpD)
next
  case (Cons s ss)
  obtain c w' where w': "s w = (c, w')" by fastforce
  have "R w w'" using Cons.prems [of s w] w' by simp
  moreover have "R w' (snd (snd (run_statements fails (Suc n) ss (b \<or> c) w')))" using Cons by simp
  ultimately show ?case using assms(1,2) w' by (cases "fails n") (auto intro: reflpD elim: transpE)
qed

lemma run_statements_unchanged:
  assumes "\<And>s v. s \<in> set ss \<Longrightarrow> \<not> fst (s v) \<Longrightarrow> snd (s v) = v"
    and "\<not> fst (snd (run_statements fails n ss b w))"
  shows "snd (snd (run_statements fails n ss b w)) = w \<and> \<not> b"
  using assms
proof (induction ss arbitrary: n b w)
  case (Cons s ss)
  obtain c w' where w': "s w = (c, w')" by fastforce
  show ?case
  proof (cases "fails n")
    case None
    then have run: "run_statements fails n (s # ss) b w = run_statements fails (Suc n) ss (b \<or> c) w'" by (simp add: w')
    have rest: "snd (snd (run_statements fails (Suc n) ss (b \<or> c) w')) = w' \<and> \<not> (b \<or> c)"
      by (rule Cons.IH) (use Cons.prems run in auto)
    have "w' = w" using Cons.prems(1) [of s w] w' rest by simp
    then show ?thesis using rest unfolding run by blast
  next
    case (Some err)
    with Cons.prems show ?thesis by simp
  qed
qed simp

lemma upsert_keys:
  assumes "\<And>r. key r = key new \<Longrightarrow> key (change r) = key new"
  shows "map key (upsert_row key change new rows) = (if key new \<in> key ` set rows then map key rows else map key rows @ [key new])"
  using assms by (auto simp: upsert_row_def)

lemma upsert_distinct:
  "(\<And>r. key r = key new \<Longrightarrow> key (change r) = key new) \<Longrightarrow> distinct (map key rows)
   \<Longrightarrow> distinct (map key (upsert_row key change new rows))"
  by (simp add: upsert_keys)

lemma upsert_replaced: "new \<in> set (upsert_row key (\<lambda>_. new) new rows)"
  by (auto simp: upsert_row_def image_iff)

lemma upsert_mem: "r \<in> set rows \<Longrightarrow> (if key r = key new then change r else r) \<in> set (upsert_row key change new rows)"
  by (cases "key new \<in> key ` set rows") (auto simp: upsert_row_def image_iff)

lemma update_rows_keys: "(\<And>r. key (change r) = key r) \<Longrightarrow> map key (snd (update_rows P change rows)) = map key rows"
  by (simp add: update_rows_def)

lemma update_rows_active:
  "(\<And>r. \<not> active (change r)) \<Longrightarrow> set (filter active (snd (update_rows P change rows))) \<subseteq> set rows"
  by (auto simp: update_rows_def)

lemma update_rows_unchanged: "\<not> fst (update_rows P change rows) \<Longrightarrow> snd (update_rows P change rows) = rows"
  by (auto simp: update_rows_def list_ex_iff intro: map_idI)

text \<open>A bracket around a change of the tables, as protocol steps.\<close>

lemma protocol_bracket:
  "\<exists>s'. (protocol_step build removes)\<^sup>*\<^sup>* s s' \<and> pr_slot s' = slot_finish_write (slot_begin_write (pr_slot s)) \<and> pr_db s' = db
     \<and> pr_writers s' = pr_writers s \<and> pr_readers s' = pr_readers s \<and> pr_now s' = pr_now s"
proof -
  let ?step = "protocol_step build removes"
  let ?a = "s\<lparr>pr_slot := slot_begin_write (pr_slot s), pr_writers := Suc (pr_writers s), pr_generations := Suc (pr_generations s)\<rparr>"
  let ?b = "?a\<lparr>pr_db := db\<rparr>"
  let ?c = "?b\<lparr>pr_slot := slot_finish_write (pr_slot ?b), pr_writers := pr_writers ?b - 1, pr_generations := Suc (pr_generations ?b)\<rparr>"
  have "?step s ?a" "?step ?a ?b" "?step ?b ?c" by (rule step_begin, rule step_commit, simp, rule step_finish, simp)
  then have "?step\<^sup>*\<^sup>* s ?c" by (meson converse_rtranclp_into_rtranclp rtranclp.rtrancl_refl)
  then show ?thesis by (intro exI [of _ ?c]) simp
qed

end
