(* ===== verification/Bans.thy ===== *)
theory Bans
  imports Auth_State
begin

text \<open>
  The life of a Codex restriction (\<open>main.go\<close>): how a failed request becomes a ban or an invalid
  credential, how a success, a release, an expiry or a clean-up ends it, and how a lost ban is restored
  from the recorded usage. The lemmas: every operation is a run of the protocol of \<open>State_Cache\<close>, a 429
  blocks its account until the window resets, a manual release is undone only by newer evidence, and a
  release touches only quota bans.
\<close>

section \<open>State\<close>

text \<open>A stored ban has two columns more than the row the queries return.\<close>

record stored_ban = autobanRow +
  sb_ReleasedAt :: int
  sb_ReleaseReason :: string

record ban_world =
  bw_bans :: "stored_ban list"
  bw_invalids :: "invalidAuthRow list"
  bw_cache :: schedulerStateCache
  bw_refreshRequests :: nat

definition ban_tables :: "ban_world \<Rightarrow> codex_tables" where
  "ban_tables w = (map autobanRow.truncate (bw_bans w), bw_invalids w)"

definition ban_key :: "('z) autobanRow_scheme \<Rightarrow> string \<times> string" where
  "ban_key r = (ab_Provider r, ab_AuthID r)"

definition invalid_key :: "invalidAuthRow \<Rightarrow> string \<times> string" where
  "invalid_key r = (ia_Provider r, ia_AuthID r)"

definition invalidate_codex :: "ban_world \<Rightarrow> ban_world" where
  "invalidate_codex w =
     (let (asks, c) = invalidateProvider ''codex'' (bw_cache w)
      in w\<lparr>bw_cache := c, bw_refreshRequests := bw_refreshRequests w + (if asks then 1 else 0)\<rparr>)"

definition open_write :: "ban_world \<Rightarrow> ban_world" where
  "open_write w = w\<lparr>bw_cache := beginRestrictionWrite ''codex'' (bw_cache w)\<rparr>"

definition close_write :: "ban_world \<Rightarrow> ban_world" where
  "close_write w =
     (let (asks, c) = finishRestrictionWrite ''codex'' (bw_cache w)
      in w\<lparr>bw_cache := c, bw_refreshRequests := bw_refreshRequests w + (if asks then 1 else 0)\<rparr>)"

text \<open>One statement between \<open>beginRestrictionWrite\<close> and the deferred \<open>finishRestrictionWrite\<close>.\<close>

definition restriction_write :: "string option \<Rightarrow> (ban_world \<Rightarrow> ban_world) \<Rightarrow> ban_world \<Rightarrow> string option \<times> ban_world" where
  "restriction_write err statement w =
     (let w1 = open_write w in (err, close_write (if err = None then statement w1 else w1)))"

definition update_bans :: "(stored_ban \<Rightarrow> bool) \<Rightarrow> (stored_ban \<Rightarrow> stored_ban) \<Rightarrow> ban_world \<Rightarrow> bool \<times> ban_world" where
  "update_bans P change w = (let (b, rows) = update_rows P change (bw_bans w) in (b, w\<lparr>bw_bans := rows\<rparr>))"

definition update_invalids :: "(invalidAuthRow \<Rightarrow> bool) \<Rightarrow> (invalidAuthRow \<Rightarrow> invalidAuthRow) \<Rightarrow> ban_world \<Rightarrow> bool \<times> ban_world" where
  "update_invalids P change w = (let (b, rows) = update_rows P change (bw_invalids w) in (b, w\<lparr>bw_invalids := rows\<rparr>))"

definition ban_off :: "stored_ban \<Rightarrow> stored_ban" where "ban_off r = r\<lparr>ab_Active := False\<rparr>"

definition invalid_off :: "invalidAuthRow \<Rightarrow> invalidAuthRow" where "invalid_off r = r\<lparr>ia_Active := False\<rparr>"

definition active_ban :: "stored_ban \<Rightarrow> bool" where
  "active_ban r \<longleftrightarrow> ab_Provider r = ''codex'' \<and> ab_Active r"

definition active_invalid :: "invalidAuthRow \<Rightarrow> bool" where
  "active_invalid r \<longleftrightarrow> ia_Provider r = ''codex'' \<and> ia_Active r"

text \<open>A statement whose change invalidates the cache at once.\<close>

definition execCodexSchedulerStateMutation ::
  "string option \<Rightarrow> (ban_world \<Rightarrow> bool \<times> ban_world) \<Rightarrow> ban_world \<Rightarrow> string option \<times> ban_world" where
  "execCodexSchedulerStateMutation err statement w =
     (case err of
        Some e \<Rightarrow> (Some e, w)
      | None \<Rightarrow> let (changed, w') = statement w in (None, if changed then invalidate_codex w' else w'))"

section \<open>Recording\<close>

text \<open>A quota window is full from 100 percent on; no comparison with a NaN holds.\<close>

definition percent_full :: "go_float option \<Rightarrow> bool" where
  "percent_full p = (case p of Some PosInf \<Rightarrow> True | Some (Fin q) \<Rightarrow> 100 \<le> q | _ \<Rightarrow> False)"

definition reset_known :: "int option \<Rightarrow> bool" where
  "reset_known r = (case r of None \<Rightarrow> False | Some t \<Rightarrow> 0 < t)"

text \<open>Reset, window and reason; the resets are the pointers after the normalisation of the first line.\<close>

definition classifyCodexBan ::
  "headers \<Rightarrow> go_float option \<Rightarrow> int option \<Rightarrow> go_float option \<Rightarrow> int option \<Rightarrow> int \<Rightarrow> int \<times> string \<times> string" where
  "classifyCodexBan headers primaryPct primaryReset0 secondaryPct secondaryReset0 now =
     (let primaryReset = normalizeInt64Ptr primaryReset0;
          secondaryReset = normalizeInt64Ptr secondaryReset0;
          primaryFull = percent_full primaryPct;
          secondaryFull = percent_full secondaryPct
      in if primaryFull \<and> secondaryFull \<and> reset_known secondaryReset
         then (the secondaryReset, ''week'', ''primary and secondary windows are full'')
         else if primaryFull \<and> secondaryFull \<and> reset_known primaryReset
         then (the primaryReset, ''5h'', ''both windows full, secondary reset missing'')
         else if secondaryFull \<and> reset_known secondaryReset
         then (the secondaryReset, ''week'', ''secondary weekly window is full'')
         else if primaryFull \<and> reset_known primaryReset
         then (the primaryReset, ''5h'', ''primary 5h window is full'')
         else if reset_known primaryReset \<and> headerIntValue headers ''x-codex-primary-window-minutes'' = 300
         then (the primaryReset, ''5h'', ''primary reset header present'')
         else if reset_known secondaryReset \<and> headerIntValue headers ''x-codex-secondary-window-minutes'' = 10080
         then (the secondaryReset, ''week'', ''secondary reset header present'')
         else (now + 18000, ''5h'', ''fallback: missing x-codex quota headers''))"

text \<open>The columns of a new ban; the columns the queries compute are blank.\<close>

definition new_ban ::
  "string \<Rightarrow> usageRecord \<Rightarrow> int \<times> string \<times> string \<Rightarrow> int \<Rightarrow> int \<Rightarrow> go_float option \<Rightarrow> int option \<Rightarrow> go_float option \<Rightarrow> int option \<Rightarrow> stored_ban" where
  "new_ban authID rec = (\<lambda>(resetAt, window, reason) bannedAt status pp pr sp sr.
     \<lparr>ab_AuthID = authID, ab_AuthIndex = TrimSpace (ur_AuthIndex rec), ab_Source = TrimSpace (ur_Source rec),
      ab_Provider = canonicalProviderOr (ur_Provider rec) providerCodex, ab_AuthFile = [], ab_Window = window, ab_Reason = reason,
      ab_BannedAt = bannedAt, ab_BannedAtText = [], ab_ResetAt = resetAt, ab_ResetAtText = [], ab_SecondsRemaining = 0,
      ab_Active = True, ab_LastStatusCode = status, ab_PrimaryUsedPercent = pp, ab_PrimaryResetAt = pr,
      ab_SecondaryUsedPercent = sp, ab_SecondaryResetAt = sr, sb_ReleasedAt = 0, sb_ReleaseReason = []\<rparr>)"

definition upsert_ban :: "stored_ban \<Rightarrow> ban_world \<Rightarrow> ban_world" where
  "upsert_ban row w = w\<lparr>bw_bans := upsert_row ban_key (\<lambda>_. row) row (bw_bans w)\<rparr>"

definition autoban_id :: "auth_env \<Rightarrow> usageRecord \<Rightarrow> string" where
  "autoban_id ae rec = firstNonEmptyString [fst (authFileStateForRecord ae rec), fileNameIfJSON (ur_AuthIndex rec),
     fileNameIfJSON (ur_AuthID rec), ur_AuthID rec, ur_AuthIndex rec, ur_Source rec]"

definition recordAutobanIfNeeded ::
  "auth_env \<Rightarrow> usageRecord \<Rightarrow> int \<Rightarrow> go_float option \<Rightarrow> int option \<Rightarrow> go_float option \<Rightarrow> int option \<Rightarrow> ban_world
   \<Rightarrow> string option \<times> ban_world" where
  "recordAutobanIfNeeded ae rec status primaryPct primaryReset secondaryPct secondaryReset w =
     (let now = env_unix (ae_sched ae);
          authID = autoban_id ae rec;
          pr = normalizeInt64Ptr primaryReset;
          sr = normalizeInt64Ptr secondaryReset
      in if \<not> EqualFold (TrimSpace (ur_Provider rec)) ''codex'' then (None, w)
         else if \<not> ur_Failed rec \<or> status \<noteq> 429 then (None, w)
         else if \<not> isGenerated rec \<and> primaryPct = None \<and> primaryReset = None \<and> secondaryPct = None \<and> secondaryReset = None
         then (None, w)
         else if authID = [] then (None, w)
         else restriction_write (ae_fails ae 0)
                (upsert_ban (new_ban (TrimSpace authID) rec (classifyCodexBan (ur_ResponseHeaders rec) primaryPct pr secondaryPct sr now)
                   now status primaryPct (normalizeInt64Ptr pr) secondaryPct (normalizeInt64Ptr sr))) w)"

definition codexWorkspaceDeactivatedBody :: "string \<Rightarrow> bool" where
  "codexWorkspaceDeactivatedBody body \<longleftrightarrow> Contains (ToLower body) ''deactivated_workspace''"

definition invalidAuthReasonForRecord :: "auth_env \<Rightarrow> usageRecord \<Rightarrow> int \<Rightarrow> string" where
  "invalidAuthReasonForRecord ae rec status =
     (if status = StatusUnauthorized then ''401 unauthorized: credential is invalid''
      else if status = StatusPaymentRequired
              \<and> (codexWorkspaceDeactivatedBody (uf_Body (ur_Failure rec)) \<or> codexAuthRecordLooksFileBacked ae rec)
      then ''402 deactivated_workspace: team workspace is deactivated''
      else [])"

definition invalidAuthIDForRecord :: "usageRecord \<Rightarrow> string \<Rightarrow> string" where
  "invalidAuthIDForRecord rec authFile =
     (if authFile \<noteq> [] then authFile else firstNonEmptyString [ur_AuthID rec, ur_AuthIndex rec, ur_Source rec])"

definition new_invalid :: "string \<Rightarrow> usageRecord \<Rightarrow> int \<Rightarrow> string \<Rightarrow> string \<times> int \<Rightarrow> int \<Rightarrow> invalidAuthRow" where
  "new_invalid authID rec status reason = (\<lambda>(authFile, mtime) invalidatedAt.
     \<lparr>ia_AuthID = TrimSpace authID, ia_AuthIndex = TrimSpace (ur_AuthIndex rec), ia_Source = TrimSpace (ur_Source rec),
      ia_Provider = canonicalProviderOr (ur_Provider rec) providerCodex, ia_Reason = reason, ia_InvalidatedAt = invalidatedAt,
      ia_InvalidatedAtText = [], ia_Active = True, ia_LastStatusCode = status, ia_AuthFile = authFile, ia_AuthFileMTime = mtime\<rparr>)"

definition upsertInvalidAuth :: "string option \<Rightarrow> invalidAuthRow \<Rightarrow> ban_world \<Rightarrow> string option \<times> ban_world" where
  "upsertInvalidAuth err row = restriction_write err (\<lambda>w. w\<lparr>bw_invalids := upsert_row invalid_key (\<lambda>_. row) row (bw_invalids w)\<rparr>)"

text \<open>\<open>RequestedAt.Unix()\<close>, or now when the record has no usable time.\<close>

definition record_time :: "auth_env \<Rightarrow> usageRecord \<Rightarrow> int" where
  "record_time ae rec = (case ur_RequestedAt rec of None \<Rightarrow> env_unix (ae_sched ae)
     | Some t \<Rightarrow> let s = t div 1000000000 in if s \<le> 0 then env_unix (ae_sched ae) else s)"

definition recordInvalidAuthIfNeeded :: "auth_env \<Rightarrow> usageRecord \<Rightarrow> int \<Rightarrow> ban_world \<Rightarrow> string option \<times> ban_world" where
  "recordInvalidAuthIfNeeded ae rec status w =
     (let reason = invalidAuthReasonForRecord ae rec status;
          file = authFileStateForRecord ae rec;
          authID = invalidAuthIDForRecord rec (fst file)
      in if \<not> EqualFold (TrimSpace (ur_Provider rec)) ''codex'' then (None, w)
         else if reason = [] then (None, w)
         else if authID = [] then (None, w)
         else upsertInvalidAuth (ae_fails ae 0) (new_invalid authID rec status reason file (record_time ae rec)) w)"

text \<open>
  \<open>recent\<close> is the answer to the query of the last requests of the aliases: status and failed flag,
  the latest first, at most as many as asked for; \<open>None\<close> is an error of the query.
\<close>

definition forbiddenInvalidAuthThreshold :: nat where "forbiddenInvalidAuthThreshold = 3"

definition recentForbiddenThresholdReached :: "(string list \<Rightarrow> nat \<Rightarrow> (int \<times> bool) list option) \<Rightarrow> string list \<Rightarrow> nat \<Rightarrow> bool" where
  "recentForbiddenThresholdReached recent aliases threshold =
     (if threshold = 0 \<or> aliases = [] then False
      else case recent (remdups (filter (\<lambda>a. a \<noteq> []) (map normalizeAccountAlias aliases))) threshold of
             None \<Rightarrow> False
           | Some rows \<Rightarrow> list_all (\<lambda>(status, failed). failed \<and> status = StatusForbidden) rows \<and> threshold \<le> length rows)"

definition recordRepeatedForbiddenIfNeeded ::
  "auth_env \<Rightarrow> (string list \<Rightarrow> nat \<Rightarrow> (int \<times> bool) list option) \<Rightarrow> usageRecord \<Rightarrow> int \<Rightarrow> ban_world \<Rightarrow> string option \<times> ban_world" where
  "recordRepeatedForbiddenIfNeeded ae recent rec status w =
     (let file = authFileStateForRecord ae rec;
          aliases = normalizeAccountAliases [fst file, fileNameIfJSON (ur_AuthID rec), fileNameIfJSON (ur_AuthIndex rec), ur_AuthIndex rec];
          authID = firstNonEmptyString [fst file, fileNameIfJSON (ur_AuthID rec), ur_AuthIndex rec]
      in if \<not> EqualFold (TrimSpace (ur_Provider rec)) ''codex'' \<or> \<not> isGenerated rec then (None, w)
         else if \<not> ur_Failed rec \<or> status \<noteq> StatusForbidden then (None, w)
         else if aliases = [] \<or> \<not> recentForbiddenThresholdReached recent aliases forbiddenInvalidAuthThreshold then (None, w)
         else if authID = [] then (None, w)
         else upsertInvalidAuth (ae_fails ae 0)
                (new_invalid authID rec status ''403 forbidden: repeated failures for this credential/workspace'' file
                   (env_unix (ae_sched ae))) w)"

section \<open>Recovery\<close>

text \<open>The two statements of one alias: the columns compared are fewer when the aliases are strict.\<close>

definition recovery_statements :: "int \<Rightarrow> bool \<Rightarrow> string \<Rightarrow> (ban_world \<Rightarrow> bool \<times> ban_world) list" where
  "recovery_statements recoveredAt strict a =
     [update_invalids (\<lambda>r. active_invalid r \<and> ia_InvalidatedAt r \<le> recoveredAt
        \<and> (ToLower (ia_AuthFile r) = a \<or> ToLower (ia_AuthID r) = a \<or> ToLower (ia_AuthIndex r) = a
           \<or> \<not> strict \<and> ToLower (ia_Source r) = a)) invalid_off,
      update_bans (\<lambda>r. active_ban r \<and> ab_BannedAt r \<le> recoveredAt
        \<and> (ToLower (ab_AuthID r) = a \<or> ToLower (ab_AuthIndex r) = a \<or> \<not> strict \<and> ToLower (ab_Source r) = a)) ban_off]"

definition clearRecoveredAuthStateIfNeeded :: "auth_env \<Rightarrow> usageRecord \<Rightarrow> int \<Rightarrow> ban_world \<Rightarrow> string option \<times> ban_world" where
  "clearRecoveredAuthStateIfNeeded ae rec status w =
     (if \<not> EqualFold (TrimSpace (ur_Provider rec)) ''codex'' then (None, w)
      else if \<not> isGenerated rec \<or> ur_Failed rec \<or> \<not> successfulStatusCode status then (None, w)
      else let (aliases, strict) = recoveryMatchAliasesForRecord ae rec;
               (err, changed, w') = run_statements (ae_fails ae) 0
                 (concat (map (recovery_statements (record_time ae rec) strict) aliases)) False w
           in (err, if err = None \<and> changed then invalidate_codex w' else w'))"

section \<open>Expiry and clean-up\<close>

definition expireAutobans :: "string option \<Rightarrow> int \<Rightarrow> ban_world \<Rightarrow> string option \<times> ban_world" where
  "expireAutobans err now = execCodexSchedulerStateMutation err (update_bans (\<lambda>r. active_ban r \<and> ab_ResetAt r \<le> now) ban_off)"

definition drop_invalid :: "string \<Rightarrow> ban_world \<Rightarrow> bool \<times> ban_world" where
  "drop_invalid authID = update_invalids (\<lambda>r. active_invalid r \<and> ia_AuthID r = authID) invalid_off"

definition drop_ban :: "string \<Rightarrow> ban_world \<Rightarrow> bool \<times> ban_world" where
  "drop_ban authID = update_bans (\<lambda>r. active_ban r \<and> ab_AuthID r = authID) ban_off"

text \<open>Mutations one after the other, each invalidating on its own change, until one fails.\<close>

fun run_mutations ::
  "(nat \<Rightarrow> string option) \<Rightarrow> nat \<Rightarrow> (ban_world \<Rightarrow> bool \<times> ban_world) list \<Rightarrow> ban_world \<Rightarrow> string option \<times> ban_world" where
  "run_mutations fails n [] w = (None, w)"
| "run_mutations fails n (s # ss) w =
     (case execCodexSchedulerStateMutation (fails n) s w of
        (Some err, w') \<Rightarrow> (Some err, w')
      | (None, w') \<Rightarrow> run_mutations fails (Suc n) ss w')"

text \<open>The active rows as the clean-ups read them, each set before its own loop.\<close>

definition active_bans :: "auth_env \<Rightarrow> ban_world \<Rightarrow> autobanRow list" where
  "active_bans ae w = rows_of (queryActiveAutobans (ae_sched ae) (fst (ban_tables w)) providerCodex (env_unix (ae_sched ae)))"

definition active_invalids :: "auth_env \<Rightarrow> ban_world \<Rightarrow> invalidAuthRow list" where
  "active_invalids ae w = rows_of (queryActiveInvalidAuths (ae_sched ae) (bw_invalids w) providerCodex)"

text \<open>Whether a restriction of these identity columns has no configured account any more.\<close>

definition account_missing :: "string list \<Rightarrow> string list \<Rightarrow> string \<Rightarrow> string \<Rightarrow> string \<Rightarrow> string \<Rightarrow> bool" where
  "account_missing configuredAliases' configuredStrict authID authIndex source authFile =
     (let cleanup = fileBackedCleanupAliases authID authIndex source authFile;
          strict = strictAuthStateAliasesForValues authID authIndex source authFile
      in if cleanup \<noteq> [] then \<not> aliasesContainAny configuredStrict cleanup
         else if strict = [] \<and> \<not> fileBackedAuthState [authID, authIndex, source, authFile] then False
         else if strict \<noteq> [] then \<not> aliasesContainAny configuredStrict strict
         else \<not> aliasesContainAny configuredAliases' [authID, authIndex, source, authFile])"

definition clearMissingInvalidAuths :: "auth_env \<Rightarrow> string list \<Rightarrow> string list \<Rightarrow> ban_world \<Rightarrow> string option \<times> ban_world" where
  "clearMissingInvalidAuths ae aliases strict w =
     run_mutations (ae_fails ae) 0
       (map (\<lambda>r. drop_invalid (ia_AuthID r))
          (filter (\<lambda>r. account_missing aliases strict (ia_AuthID r) (ia_AuthIndex r) (ia_Source r) (ia_AuthFile r))
             (active_invalids ae w))) w"

definition clearMissingAutobans :: "auth_env \<Rightarrow> string list \<Rightarrow> string list \<Rightarrow> ban_world \<Rightarrow> string option \<times> ban_world" where
  "clearMissingAutobans ae aliases strict w =
     run_mutations (\<lambda>n. ae_fails ae (length (bw_invalids w) + n)) 0
       (map (\<lambda>r. drop_ban (ab_AuthID r))
          (filter (\<lambda>r. account_missing aliases strict (ab_AuthID r) (ab_AuthIndex r) (ab_Source r) (ab_AuthFile r))
             (active_bans ae w))) w"

definition clearMissingConfiguredAuthState :: "auth_env \<Rightarrow> ban_world \<Rightarrow> string option \<times> ban_world" where
  "clearMissingConfiguredAuthState ae w =
     (if \<not> ae_codexReadable ae then (None, w)
      else let aliases = configuredAliasSet (ae_codex ae); strict = configuredStrictAliasSet (ae_codex ae)
           in case clearMissingInvalidAuths ae aliases strict w of
                (Some err, w') \<Rightarrow> (Some err, w')
              | (None, w') \<Rightarrow> clearMissingAutobans ae aliases strict w')"

text \<open>A credential file that changed after the failure ends the invalid credentials that refer to it.\<close>

definition clearReplacedInvalidAuths :: "auth_env \<Rightarrow> ban_world \<Rightarrow> string option \<times> ban_world" where
  "clearReplacedInvalidAuths ae w =
     (let counts = configuredEmailCounts (ae_codex ae);
          by_file = (\<lambda>cfg. update_invalids (\<lambda>r. active_invalid r \<and> ia_AuthFile r \<noteq> [] \<and> ia_AuthFile r = cg_AuthFile cfg
                        \<and> ia_InvalidatedAt r < cg_AuthFileMTime cfg) invalid_off);
          by_alias = (\<lambda>cfg a. update_invalids (\<lambda>r. active_invalid r \<and> ia_InvalidatedAt r < cg_AuthFileMTime cfg
                        \<and> (ia_AuthFile r = [] \<or> ToLower (ia_AuthFile r) = ToLower (cg_AuthFile cfg))
                        \<and> (ToLower (ia_AuthID r) = a \<or> ToLower (ia_AuthIndex r) = a \<or> ToLower (ia_Source r) = a)) invalid_off)
      in run_mutations (ae_fails ae) 0
           (concat (map (\<lambda>cfg. by_file cfg # map (by_alias cfg) (filter (\<lambda>a. a \<noteq> []) (configuredAccountMatchAliases cfg counts)))
              (filter (\<lambda>cfg. 0 < cg_AuthFileMTime cfg) (ae_codex ae)))) w)"

text \<open>
  \<open>later rec t\<close> is \<open>hasLaterSuccessfulUsage\<close>: the query for a success of the record's aliases after \<open>t\<close>.
\<close>

definition state_record :: "string \<Rightarrow> string \<Rightarrow> string \<Rightarrow> string \<Rightarrow> string \<Rightarrow> usageRecord" where
  "state_record provider authID authIndex authFile source = no_usage\<lparr>ur_Provider := firstNonEmptyString [provider, ''codex''],
     ur_AuthID := authID, ur_AuthIndex := authIndex, ur_AuthFile := authFile, ur_Source := source\<rparr>"

definition clearRecoveredAuthStatesFromUsage :: "auth_env \<Rightarrow> (usageRecord \<Rightarrow> int \<Rightarrow> bool) \<Rightarrow> ban_world \<Rightarrow> string option \<times> ban_world" where
  "clearRecoveredAuthStatesFromUsage ae later w =
     (let recovered_invalid = (\<lambda>r. later (state_record (ia_Provider r) (ia_AuthID r) (ia_AuthIndex r) (ia_AuthFile r) (ia_Source r)) (ia_InvalidatedAt r));
          recovered_ban = (\<lambda>r. later (state_record (ab_Provider r) (ab_AuthID r) (ab_AuthIndex r) (ab_AuthFile r) (ab_Source r)) (ab_BannedAt r))
      in case run_mutations (ae_fails ae) 0
                (map (\<lambda>r. drop_invalid (ia_AuthID r)) (filter recovered_invalid (active_invalids ae w))) w of
           (Some err, w') \<Rightarrow> (Some err, w')
         | (None, w') \<Rightarrow> run_mutations (\<lambda>n. ae_fails ae (length (bw_invalids w) + n)) 0
                (map (\<lambda>r. drop_ban (ab_AuthID r)) (filter recovered_ban (active_bans ae w'))) w')"

type_synonym quota_window = "go_float option \<times> int option"

definition quotaWindowObserved :: "quota_window \<Rightarrow> bool" where
  "quotaWindowObserved q \<longleftrightarrow> fst q \<noteq> None \<or> (case snd q of None \<Rightarrow> False | Some t \<Rightarrow> 0 < normalizeUnixSeconds t)"

text \<open>\<open>percent < 100\<close> is false of a NaN, so a NaN percentage counts as full here.\<close>

definition quotaWindowFull :: "int \<Rightarrow> quota_window \<Rightarrow> bool" where
  "quotaWindowFull now q \<longleftrightarrow> (case fst q of None \<Rightarrow> False | Some NaN \<Rightarrow> True | p \<Rightarrow> percent_full p)
     \<and> (case snd q of None \<Rightarrow> True | Some t \<Rightarrow> now < normalizeUnixSeconds t)"

definition quota_recovered :: "int \<Rightarrow> string \<Rightarrow> quota_window \<Rightarrow> quota_window \<Rightarrow> bool" where
  "quota_recovered now window primary secondary =
     (let w = ToLower (TrimSpace window)
      in if w = ''5h'' \<or> w = ''primary'' then quotaWindowObserved primary \<and> \<not> quotaWindowFull now primary
         else if w = ''week'' \<or> w = ''7d'' \<or> w = ''secondary'' then quotaWindowObserved secondary \<and> \<not> quotaWindowFull now secondary
         else (quotaWindowObserved primary \<or> quotaWindowObserved secondary)
              \<and> \<not> quotaWindowFull now primary \<and> \<not> quotaWindowFull now secondary)"

text \<open>\<open>windows i\<close> are the latest observed quota windows of the account of the i-th active ban.\<close>

definition reconcileAutobansWithQuotaSnapshots ::
  "auth_env \<Rightarrow> (nat \<Rightarrow> quota_window \<times> quota_window) \<Rightarrow> ban_world \<Rightarrow> string option \<times> ban_world" where
  "reconcileAutobansWithQuotaSnapshots ae windows w =
     (let now = env_unix (ae_sched ae);
          clear = (\<lambda>(i, ban). let (primary, secondary) = windows i in
             update_bans (\<lambda>r. active_ban r \<and> ab_AuthID r = ab_AuthID ban)
               (\<lambda>r. (ban_off r)\<lparr>ab_PrimaryUsedPercent := fst primary, ab_PrimaryResetAt := snd primary,
                               ab_SecondaryUsedPercent := fst secondary, ab_SecondaryResetAt := snd secondary\<rparr>))
      in run_mutations (ae_fails ae) 0
           (map clear (filter (\<lambda>(i, ban). quota_recovered now (ab_Window ban) (fst (windows i)) (snd (windows i)))
              (enumerate 0 (active_bans ae w)))) w)"

section \<open>Restoring bans from the recorded usage\<close>

record quota_failure =
  qf_AuthID :: string
  qf_AuthIndex :: string
  qf_Source :: string
  qf_RequestedAt :: int
  qf_Status :: int
  qf_Primary :: quota_window
  qf_Secondary :: quota_window

definition classifyStoredCodexBan :: "quota_window \<Rightarrow> quota_window \<Rightarrow> int \<Rightarrow> int \<times> string \<times> string" where
  "classifyStoredCodexBan primary secondary now =
     (let pr = (case snd primary of None \<Rightarrow> 0 | Some t \<Rightarrow> normalizeUnixSeconds t);
          sr = (case snd secondary of None \<Rightarrow> 0 | Some t \<Rightarrow> normalizeUnixSeconds t);
          primaryFull = (percent_full (fst primary) \<and> snd primary \<noteq> None \<and> now < pr);
          secondaryFull = (percent_full (fst secondary) \<and> snd secondary \<noteq> None \<and> now < sr)
      in if primaryFull \<and> secondaryFull
         then (if pr \<le> sr then (sr, ''week'', ''backfilled: primary and secondary windows are full'')
               else (pr, ''5h'', ''backfilled: primary and secondary windows are full''))
         else if secondaryFull then (sr, ''week'', ''backfilled: secondary weekly window is full'')
         else if primaryFull then (pr, ''5h'', ''backfilled: primary 5h window is full'')
         else (now, [], []))"

definition backfill_key :: "quota_failure \<Rightarrow> string" where
  "backfill_key f = firstNonEmptyString [fileNameIfJSON (qf_AuthIndex f), fileNameIfJSON (qf_AuthID f), fileNameIfJSON (qf_Source f),
     qf_AuthID f, qf_AuthIndex f, qf_Source f]"

definition backfilled_ban :: "quota_failure \<Rightarrow> int \<Rightarrow> stored_ban" where
  "backfilled_ban f now =
     (let (resetAt, window, reason) = classifyStoredCodexBan (qf_Primary f) (qf_Secondary f) now
      in \<lparr>ab_AuthID = backfill_key f, ab_AuthIndex = qf_AuthIndex f, ab_Source = qf_Source f, ab_Provider = providerCodex,
          ab_AuthFile = [], ab_Window = window, ab_Reason = reason, ab_BannedAt = qf_RequestedAt f, ab_BannedAtText = [],
          ab_ResetAt = resetAt, ab_ResetAtText = [], ab_SecondsRemaining = 0, ab_Active = True, ab_LastStatusCode = qf_Status f,
          ab_PrimaryUsedPercent = fst (qf_Primary f), ab_PrimaryResetAt = snd (qf_Primary f),
          ab_SecondaryUsedPercent = fst (qf_Secondary f), ab_SecondaryResetAt = snd (qf_Secondary f),
          sb_ReleasedAt = 0, sb_ReleaseReason = []\<rparr>)"

text \<open>
  The conflict clause: an active ban is only prolonged, and a released one comes back only for
  evidence newer than the release.
\<close>

definition backfill_conflict :: "int \<Rightarrow> stored_ban \<Rightarrow> stored_ban \<Rightarrow> stored_ban" where
  "backfill_conflict now new r =
     (if (\<not> ab_Active r \<or> ab_ResetAt r \<le> ab_ResetAt new)
         \<and> (sb_ReleasedAt r = 0 \<or> sb_ReleasedAt r < ab_BannedAt new \<or> ab_Active r)
      then new\<lparr>ab_Active := (if now < ab_ResetAt new \<and> (sb_ReleasedAt r = 0 \<or> sb_ReleasedAt r < ab_BannedAt new)
                            then True else ab_Active r),
               sb_ReleasedAt := (if sb_ReleasedAt r < ab_BannedAt new then 0 else sb_ReleasedAt r),
               sb_ReleaseReason := (if sb_ReleasedAt r < ab_BannedAt new then [] else sb_ReleaseReason r)\<rparr>
      else r)"

definition backfill_wanted :: "(usageRecord \<Rightarrow> int \<Rightarrow> bool) \<Rightarrow> int \<Rightarrow> quota_failure \<Rightarrow> bool" where
  "backfill_wanted later now f \<longleftrightarrow>
     backfill_key f \<noteq> [] \<and> now < fst (classifyStoredCodexBan (qf_Primary f) (qf_Secondary f) now)
     \<and> \<not> later (no_usage\<lparr>ur_Provider := providerCodex, ur_AuthID := qf_AuthID f, ur_AuthIndex := qf_AuthIndex f, ur_Source := qf_Source f\<rparr>)
            (qf_RequestedAt f)"

definition backfill_row :: "int \<Rightarrow> quota_failure \<Rightarrow> ban_world \<Rightarrow> ban_world" where
  "backfill_row now f w =
     (let new = backfilled_ban f now in w\<lparr>bw_bans := upsert_row ban_key (backfill_conflict now new) new (bw_bans w)\<rparr>)"

fun backfill_rows ::
  "(nat \<Rightarrow> string option) \<Rightarrow> nat \<Rightarrow> int \<Rightarrow> quota_failure list \<Rightarrow> ban_world \<Rightarrow> string option \<times> ban_world" where
  "backfill_rows fails n now [] w = (None, w)"
| "backfill_rows fails n now (f # fs) w =
     (case fails n of Some err \<Rightarrow> (Some err, w) | None \<Rightarrow> backfill_rows fails (Suc n) now fs (backfill_row now f w))"

text \<open>The write bracket is opened by the first row that is written and closed at the end, error or not.\<close>

definition backfillAutobansFromUsage ::
  "auth_env \<Rightarrow> (usageRecord \<Rightarrow> int \<Rightarrow> bool) \<Rightarrow> (string, quota_failure list) result \<Rightarrow> ban_world \<Rightarrow> string option \<times> ban_world" where
  "backfillAutobansFromUsage ae later failures w =
     (let now = env_unix (ae_sched ae)
      in case failures of
           Inl err \<Rightarrow> (Some err, w)
         | Inr fs \<Rightarrow>
             (case filter (backfill_wanted later now) fs of
                [] \<Rightarrow> (None, w)
              | wanted \<Rightarrow> let (err, w') = backfill_rows (ae_fails ae) 0 now wanted (open_write w) in (err, close_write w')))"

section \<open>Restoring deactivated workspaces\<close>

definition recordReferencesMissingCurrentAuthFile :: "usageRecord \<Rightarrow> configuredAccount list \<Rightarrow> bool \<Rightarrow> bool" where
  "recordReferencesMissingCurrentAuthFile rec configured authDirReadable \<longleftrightarrow>
     authDirReadable \<and> list_ex (\<lambda>f. \<not> aliasesContainAny (configuredStrictAliasSet configured) [f])
       (filter (\<lambda>f. f \<noteq> []) (map fileNameIfJSON [ur_AuthFile rec, ur_AuthID rec, ur_AuthIndex rec, ur_Source rec]))"

definition deactivation_current :: "auth_env \<Rightarrow> (usageRecord \<Rightarrow> int \<Rightarrow> bool) \<Rightarrow> usageRecord \<Rightarrow> int \<Rightarrow> bool" where
  "deactivation_current ae later rec failedAt \<longleftrightarrow>
     \<not> recordReferencesMissingCurrentAuthFile rec (ae_codex ae) (ae_codexReadable ae)
     \<and> codexAuthRecordLooksFileBacked ae rec
     \<and> \<not> (failedAt < snd (authFileStateForRecord ae rec) \<and> fst (authFileStateForRecord ae rec) \<noteq> [])
     \<and> \<not> later rec failedAt"

text \<open>The loop over the failures: the record, when it failed, and its status.\<close>

fun backfill_deactivated ::
  "auth_env \<Rightarrow> (nat \<Rightarrow> string option) \<Rightarrow> nat \<Rightarrow> (usageRecord \<Rightarrow> int \<Rightarrow> bool) \<Rightarrow> (usageRecord \<times> int \<times> int) list \<Rightarrow> ban_world
   \<Rightarrow> string option \<times> ban_world" where
  "backfill_deactivated ae fails n later [] w = (None, w)"
| "backfill_deactivated ae fails n later ((rec, failedAt, status) # rows) w =
     (if \<not> deactivation_current ae later rec failedAt then backfill_deactivated ae fails (Suc n) later rows w
      else case recordInvalidAuthIfNeeded (ae\<lparr>ae_fails := \<lambda>_. fails n\<rparr>) rec status w of
             (Some err, w') \<Rightarrow> (Some err, w')
           | (None, w') \<Rightarrow> backfill_deactivated ae fails (Suc n) later rows w')"

text \<open>The columns of the last failure of an account, from the usage events or the quota trigger runs.\<close>

record deactivated_row =
  dr_AuthID :: string
  dr_AuthIndex :: string
  dr_Source :: string
  dr_Provider :: string
  dr_AuthFile :: string
  dr_At :: int
  dr_Status :: int
  dr_Error :: string

definition backfillWorkspaceDeactivatedAuthsFromUsage ::
  "auth_env \<Rightarrow> (usageRecord \<Rightarrow> int \<Rightarrow> bool) \<Rightarrow> (string, deactivated_row list) result \<Rightarrow> ban_world \<Rightarrow> string option \<times> ban_world" where
  "backfillWorkspaceDeactivatedAuthsFromUsage ae later rows w =
     (case rows of
        Inl err \<Rightarrow> (Some err, w)
      | Inr rows \<Rightarrow> backfill_deactivated ae (ae_fails ae) 0 later
          (map (\<lambda>d. (no_usage\<lparr>ur_AuthID := dr_AuthID d, ur_AuthIndex := dr_AuthIndex d, ur_Source := dr_Source d,
                         ur_Provider := dr_Provider d, ur_RequestedAt := Some (dr_At d * 1000000000), ur_Failed := True,
                         ur_Failure := \<lparr>uf_StatusCode = dr_Status d, uf_Body = []\<rparr>\<rparr>, dr_At d, dr_Status d)) rows) w)"

definition backfillWorkspaceDeactivatedAuthsFromQuotaTriggerRuns ::
  "auth_env \<Rightarrow> (usageRecord \<Rightarrow> int \<Rightarrow> bool) \<Rightarrow> (string, deactivated_row list) result \<Rightarrow> ban_world \<Rightarrow> string option \<times> ban_world" where
  "backfillWorkspaceDeactivatedAuthsFromQuotaTriggerRuns ae later rows w =
     (case rows of
        Inl err \<Rightarrow> (Some err, w)
      | Inr rows \<Rightarrow> backfill_deactivated ae (ae_fails ae) 0 later
          (map (\<lambda>d. (no_usage\<lparr>ur_Provider := firstNonEmptyString [dr_Provider d, ''codex''], ur_AuthID := dr_AuthID d,
                         ur_AuthIndex := dr_AuthIndex d, ur_AuthFile := dr_AuthFile d, ur_Source := dr_Source d,
                         ur_RequestedAt := Some (dr_At d * 1000000000), ur_Failed := True,
                         ur_Failure := \<lparr>uf_StatusCode = dr_Status d, uf_Body = dr_Error d\<rparr>\<rparr>, dr_At d, dr_Status d)) rows) w)"

section \<open>Manual releases\<close>

record autobanReleaseItem =
  ri_AuthID :: string
  ri_AuthIndex :: string
  ri_Source :: string
  ri_AuthFile :: string

record autobanReleaseDetail = autobanReleaseItem +
  rd_Status :: string
  rd_Reason :: string

record autobanReleaseResult =
  rr_Released :: nat
  rr_Skipped :: nat
  rr_NotFound :: nat
  rr_Items :: "autobanReleaseDetail list"

definition queryActiveAutobanReleaseRows :: "ban_world \<Rightarrow> autobanRow list" where
  "queryActiveAutobanReleaseRows w =
     map (\<lambda>r. (autobanRow.truncate r)\<lparr>ab_AuthFile :=
              firstNonEmptyString [fileNameIfJSON (ab_AuthID r), fileNameIfJSON (ab_AuthIndex r), fileNameIfJSON (ab_Source r)]\<rparr>)
       (filter active_ban (bw_bans w))"

definition isReleasable429Autoban :: "autobanRow \<Rightarrow> bool" where
  "isReleasable429Autoban row \<longleftrightarrow>
     (let window = ToLower (TrimSpace (ab_Window row)); status = ab_LastStatusCode row
      in if status = StatusUnauthorized \<or> status = StatusPaymentRequired \<or> status = StatusForbidden then False
         else if window \<in> set [''401'', ''402'', ''403''] then False
         else if status = 429 then True
         else window \<in> set [''429'', ''5h'', ''primary'', ''7d'', ''week'', ''secondary''])"

definition match_aliases :: "string \<Rightarrow> string \<Rightarrow> string \<Rightarrow> string \<Rightarrow> string list" where
  "match_aliases authID authIndex source authFile =
     (let strict = strictAuthStateAliasesForValues authID authIndex source authFile
      in if strict \<noteq> [] then strict else authStateMatchAliases authID authIndex source authFile)"

definition autobanReleaseItemMatchesRow :: "'z autobanReleaseItem_scheme \<Rightarrow> autobanRow \<Rightarrow> bool" where
  "autobanReleaseItemMatchesRow item row \<longleftrightarrow>
     list_ex (\<lambda>l. l \<noteq> [] \<and> l \<in> set (match_aliases (ab_AuthID row) (ab_AuthIndex row) (ab_Source row) (ab_AuthFile row)))
       (match_aliases (ri_AuthID item) (ri_AuthIndex item) (ri_Source item) (ri_AuthFile item))"

definition markAutobanReleasedInBatch :: "string \<Rightarrow> int \<Rightarrow> ban_world \<Rightarrow> bool \<times> ban_world" where
  "markAutobanReleasedInBatch authID now =
     update_bans (\<lambda>r. active_ban r \<and> ab_AuthID r = TrimSpace authID)
       (\<lambda>r. (ban_off r)\<lparr>sb_ReleasedAt := now, sb_ReleaseReason := ''manual''\<rparr>)"

definition markAutobanReleased :: "string option \<Rightarrow> string \<Rightarrow> int \<Rightarrow> ban_world \<Rightarrow> (string, bool) result \<times> ban_world" where
  "markAutobanReleased err authID now w =
     (case err of
        Some e \<Rightarrow> (Inl e, w)
      | None \<Rightarrow> let (changed, w') = markAutobanReleasedInBatch authID now w
                 in (Inr changed, if changed then invalidate_codex w' else w'))"

definition release_detail :: "autobanRow \<Rightarrow> string \<Rightarrow> string \<Rightarrow> autobanReleaseDetail" where
  "release_detail row status reason = \<lparr>ri_AuthID = ab_AuthID row, ri_AuthIndex = ab_AuthIndex row, ri_Source = ab_Source row,
     ri_AuthFile = ab_AuthFile row, rd_Status = status, rd_Reason = reason\<rparr>"

definition skip_row :: "autobanRow \<Rightarrow> autobanReleaseResult \<Rightarrow> autobanReleaseResult" where
  "skip_row row r = r\<lparr>rr_Skipped := rr_Skipped r + 1, rr_Items := rr_Items r @ [release_detail row ''skipped'' ''not_429'']\<rparr>"

definition marked_row :: "autobanRow \<Rightarrow> bool \<Rightarrow> autobanReleaseResult \<Rightarrow> autobanReleaseResult" where
  "marked_row row ok r =
     (if ok then r\<lparr>rr_Released := rr_Released r + 1, rr_Items := rr_Items r @ [release_detail row ''released'' []]\<rparr>
      else r\<lparr>rr_NotFound := rr_NotFound r + 1, rr_Items := rr_Items r @ [release_detail row ''not_found'' []]\<rparr>)"

definition missing_item :: "autobanReleaseItem \<Rightarrow> autobanReleaseResult \<Rightarrow> autobanReleaseResult" where
  "missing_item item r = r\<lparr>rr_NotFound := rr_NotFound r + 1,
     rr_Items := rr_Items r @ [\<lparr>ri_AuthID = TrimSpace (ri_AuthID item), ri_AuthIndex = TrimSpace (ri_AuthIndex item),
       ri_Source = TrimSpace (ri_Source item), ri_AuthFile = TrimSpace (ri_AuthFile item), rd_Status = ''not_found'', rd_Reason = []\<rparr>]\<rparr>"

definition no_release :: autobanReleaseResult where
  "no_release = \<lparr>rr_Released = 0, rr_Skipped = 0, rr_NotFound = 0, rr_Items = []\<rparr>"

text \<open>The loops inside the transaction; the statement of the n-th row or item may fail.\<close>

fun release_all ::
  "(nat \<Rightarrow> string option) \<Rightarrow> nat \<Rightarrow> int \<Rightarrow> autobanRow list \<Rightarrow> autobanReleaseResult \<Rightarrow> ban_world
   \<Rightarrow> (string, autobanReleaseResult) result \<times> ban_world" where
  "release_all fails n now [] result w = (Inr result, w)"
| "release_all fails n now (row # rows) result w =
     (if \<not> isReleasable429Autoban row then release_all fails (Suc n) now rows (skip_row row result) w
      else case fails n of
             Some err \<Rightarrow> (Inl err, w)
           | None \<Rightarrow> let (ok, w') = markAutobanReleasedInBatch (ab_AuthID row) now w
                      in release_all fails (Suc n) now rows (marked_row row ok result) w')"

fun release_selected ::
  "(nat \<Rightarrow> string option) \<Rightarrow> nat \<Rightarrow> int \<Rightarrow> autobanRow list \<Rightarrow> string list \<Rightarrow> autobanReleaseItem list \<Rightarrow> autobanReleaseResult
   \<Rightarrow> ban_world \<Rightarrow> (string, autobanReleaseResult) result \<times> ban_world" where
  "release_selected fails n now rows released [] result w = (Inr result, w)"
| "release_selected fails n now rows released (item # items) result w =
     (case find (\<lambda>row. ab_AuthID row \<notin> set released \<and> autobanReleaseItemMatchesRow item row) rows of
        None \<Rightarrow> release_selected fails (Suc n) now rows released items (missing_item item result) w
      | Some row \<Rightarrow>
          if \<not> isReleasable429Autoban row
          then release_selected fails (Suc n) now rows released items (skip_row row result) w
          else case fails n of
                 Some err \<Rightarrow> (Inl err, w)
               | None \<Rightarrow>
                   let (ok, w') = markAutobanReleasedInBatch (ab_AuthID row) now w
                   in release_selected fails (Suc n) now rows (if ok then ab_AuthID row # released else released) items
                        (marked_row row ok result) w')"

record autobanReleaseRequest =
  rq_Scope :: string
  rq_Items :: "autobanReleaseItem list"

definition releaseAll429Autobans :: "(nat \<Rightarrow> string option) \<Rightarrow> int \<Rightarrow> ban_world \<Rightarrow> (string, autobanReleaseResult) result \<times> ban_world" where
  "releaseAll429Autobans fails now w = release_all fails 0 now (queryActiveAutobanReleaseRows w) no_release w"

definition releaseSelectedAutobans ::
  "(nat \<Rightarrow> string option) \<Rightarrow> int \<Rightarrow> autobanReleaseItem list \<Rightarrow> ban_world \<Rightarrow> (string, autobanReleaseResult) result \<times> ban_world" where
  "releaseSelectedAutobans fails now items w = release_selected fails 0 now (queryActiveAutobanReleaseRows w) [] items no_release w"

text \<open>
  The transaction: an error rolls it back. \<open>begin_err\<close>, \<open>query_err\<close> and \<open>commit_err\<close> are the errors of
  its other calls.
\<close>

definition releaseAutobans ::
  "auth_env \<Rightarrow> string option \<Rightarrow> string option \<Rightarrow> string option \<Rightarrow> autobanReleaseRequest \<Rightarrow> ban_world
   \<Rightarrow> (string, autobanReleaseResult) result \<times> ban_world" where
  "releaseAutobans ae begin_err query_err commit_err req w =
     (let now = env_unix (ae_sched ae);
          scope0 = ToLower (TrimSpace (rq_Scope req));
          scope = (if scope0 = [] then ''selected'' else scope0)
      in case begin_err of
           Some err \<Rightarrow> (Inl err, w)
         | None \<Rightarrow>
             if scope \<noteq> ''all429'' \<and> scope \<noteq> ''selected''
             then (Inl (''unsupported release scope '' @ [CHR 0x22] @ rq_Scope req @ [CHR 0x22]), w)
             else case query_err of
                    Some err \<Rightarrow> (Inl err, w)
                  | None \<Rightarrow>
                      case (if scope = ''all429'' then releaseAll429Autobans (ae_fails ae) now w
                            else releaseSelectedAutobans (ae_fails ae) now (rq_Items req) w) of
                        (Inl err, w') \<Rightarrow> (Inl err, w)
                      | (Inr result, w') \<Rightarrow>
                          case commit_err of
                            Some err \<Rightarrow> (Inl err, w)
                          | None \<Rightarrow> (Inr result, if 0 < rr_Released result then invalidate_codex w' else w'))"

section \<open>All operations\<close>

datatype ban_op =
    RecordAutoban usageRecord int "go_float option" "int option" "go_float option" "int option"
  | RecordInvalidAuth usageRecord int
  | RecordRepeatedForbidden "string list \<Rightarrow> nat \<Rightarrow> (int \<times> bool) list option" usageRecord int
  | ClearRecovered usageRecord int
  | ExpireAutobans
  | ClearMissing
  | ClearReplaced
  | ClearFromUsage "usageRecord \<Rightarrow> int \<Rightarrow> bool"
  | ReconcileQuota "nat \<Rightarrow> quota_window \<times> quota_window"
  | BackfillAutobans "usageRecord \<Rightarrow> int \<Rightarrow> bool" "(string, quota_failure list) result"
  | BackfillFromUsage "usageRecord \<Rightarrow> int \<Rightarrow> bool" "(string, deactivated_row list) result"
  | BackfillFromTriggers "usageRecord \<Rightarrow> int \<Rightarrow> bool" "(string, deactivated_row list) result"
  | Release "string option" "string option" "string option" autobanReleaseRequest
  | MarkReleased string

fun ban_step :: "auth_env \<Rightarrow> ban_op \<Rightarrow> ban_world \<Rightarrow> ban_world" where
  "ban_step ae (RecordAutoban rec status pp pr sp sr) w = snd (recordAutobanIfNeeded ae rec status pp pr sp sr w)"
| "ban_step ae (RecordInvalidAuth rec status) w = snd (recordInvalidAuthIfNeeded ae rec status w)"
| "ban_step ae (RecordRepeatedForbidden recent rec status) w = snd (recordRepeatedForbiddenIfNeeded ae recent rec status w)"
| "ban_step ae (ClearRecovered rec status) w = snd (clearRecoveredAuthStateIfNeeded ae rec status w)"
| "ban_step ae ExpireAutobans w = snd (expireAutobans (ae_fails ae 0) (env_unix (ae_sched ae)) w)"
| "ban_step ae ClearMissing w = snd (clearMissingConfiguredAuthState ae w)"
| "ban_step ae ClearReplaced w = snd (clearReplacedInvalidAuths ae w)"
| "ban_step ae (ClearFromUsage later) w = snd (clearRecoveredAuthStatesFromUsage ae later w)"
| "ban_step ae (ReconcileQuota windows) w = snd (reconcileAutobansWithQuotaSnapshots ae windows w)"
| "ban_step ae (BackfillAutobans later failures) w = snd (backfillAutobansFromUsage ae later failures w)"
| "ban_step ae (BackfillFromUsage later rows) w = snd (backfillWorkspaceDeactivatedAuthsFromUsage ae later rows w)"
| "ban_step ae (BackfillFromTriggers later rows) w = snd (backfillWorkspaceDeactivatedAuthsFromQuotaTriggerRuns ae later rows w)"
| "ban_step ae (Release begin_err query_err commit_err req) w = snd (releaseAutobans ae begin_err query_err commit_err req w)"
| "ban_step ae (MarkReleased authID) w = snd (markAutobanReleased (ae_fails ae 0) authID (env_unix (ae_sched ae)) w)"

text \<open>
  What every operation is built from: statements that deactivate rows, invalidations, and brackets
  around upserts. A relation that holds of each of them holds of each operation.
\<close>

locale ban_relation =
  fixes R S :: "ban_world \<Rightarrow> ban_world \<Rightarrow> bool"
  assumes R_refl: "R w w"
    and R_trans: "R u v \<Longrightarrow> R v w \<Longrightarrow> R u w"
    and R_bans: "(\<And>r. ban_key (change r) = ban_key r) \<Longrightarrow> (\<And>r. \<not> ab_Active (change r)) \<Longrightarrow> R w (snd (update_bans P change w))"
    and R_invalids: "(\<And>r. invalid_key (off r) = invalid_key r) \<Longrightarrow> (\<And>r. \<not> ia_Active (off r)) \<Longrightarrow> R w (snd (update_invalids Q off w))"
    and R_invalidate: "R w (invalidate_codex w)"
    and R_bracket: "S (open_write w) v \<Longrightarrow> R w (close_write v)"
    and S_refl: "S w w"
    and S_trans: "S u v \<Longrightarrow> S v w \<Longrightarrow> S u w"
    and S_ban: "(\<And>r. ban_key r = ban_key row \<Longrightarrow> ban_key (conflict r) = ban_key row)
        \<Longrightarrow> TrimSpace (ab_AuthID row) = ab_AuthID row \<Longrightarrow> S w (w\<lparr>bw_bans := upsert_row ban_key conflict row (bw_bans w)\<rparr>)"
    and S_invalid: "S w (w\<lparr>bw_invalids := upsert_row invalid_key (\<lambda>_. irow) irow (bw_invalids w)\<rparr>)"
begin

lemma R_write: "S (open_write w) (f (open_write w)) \<Longrightarrow> R w (snd (restriction_write err f w))"
  by (simp add: restriction_write_def Let_def R_bracket S_refl)

lemma R_exec: "R w (snd (s w)) \<Longrightarrow> R w (snd (execCodexSchedulerStateMutation err s w))"
  by (auto simp: execCodexSchedulerStateMutation_def Let_def split_def R_refl intro: R_trans R_invalidate split: option.split)

lemma R_mutations: "(\<And>s v. s \<in> set ss \<Longrightarrow> R v (snd (s v))) \<Longrightarrow> R w (snd (run_mutations fails n ss w))"
proof (induction ss arbitrary: n w)
  case (Cons s ss)
  obtain err w' where w': "execCodexSchedulerStateMutation (fails n) s w = (err, w')" by fastforce
  have "R w w'" using R_exec [of w s "fails n"] Cons.prems [of s w] w' by simp
  with Cons w' show ?case by (cases err) (auto intro: R_trans)
qed (simp add: R_refl)

lemma R_statements: "(\<And>s v. s \<in> set ss \<Longrightarrow> R v (snd (s v))) \<Longrightarrow> R w (snd (snd (run_statements fails n ss b w)))"
  by (rule run_statements_related) (auto intro: reflpI transpI R_refl R_trans)

lemma R_drop: "R v (snd (drop_invalid i v))" "R v (snd (drop_ban i v))"
  by (auto simp: drop_invalid_def drop_ban_def invalid_off_def ban_off_def invalid_key_def ban_key_def intro: R_invalids R_bans)

lemma R_recovery: "s \<in> set (recovery_statements t strict a) \<Longrightarrow> R v (snd (s v))"
  by (auto simp: recovery_statements_def invalid_off_def ban_off_def invalid_key_def ban_key_def intro!: R_invalids R_bans)

lemma R_upsertInvalid: "R w (snd (upsertInvalidAuth err irow w))"
  unfolding upsertInvalidAuth_def by (intro R_write S_invalid)

lemma R_recordInvalid: "R w (snd (recordInvalidAuthIfNeeded ae rec status w))"
  by (auto simp: recordInvalidAuthIfNeeded_def Let_def R_refl intro: R_upsertInvalid)

lemma R_recordAutoban: "R w (snd (recordAutobanIfNeeded ae rec status pp pr sp sr w))"
  by (auto simp: recordAutobanIfNeeded_def Let_def upsert_ban_def R_refl new_ban_def split_def intro!: R_write S_ban)

lemma R_repeated: "R w (snd (recordRepeatedForbiddenIfNeeded ae recent rec status w))"
  by (auto simp: recordRepeatedForbiddenIfNeeded_def Let_def R_refl intro: R_upsertInvalid)

lemma R_clearRecovered: "R w (snd (clearRecoveredAuthStateIfNeeded ae rec status w))"
proof -
  obtain aliases strict where a: "recoveryMatchAliasesForRecord ae rec = (aliases, strict)" by fastforce
  obtain err changed w' where run: "run_statements (ae_fails ae) 0
      (concat (map (recovery_statements (record_time ae rec) strict) aliases)) False w = (err, changed, w')" by (metis prod_cases3)
  have "R w w'" using R_statements [of "concat (map (recovery_statements (record_time ae rec) strict) aliases)" w "ae_fails ae" 0 False]
    by (auto simp: run intro: R_recovery)
  then show ?thesis
    by (auto simp: clearRecoveredAuthStateIfNeeded_def a run R_refl intro: R_trans R_invalidate)
qed

lemma R_expire: "R w (snd (expireAutobans err now w))"
  unfolding expireAutobans_def by (rule R_exec) (auto simp: ban_off_def ban_key_def intro!: R_bans)

lemma R_then: "R w (snd (f w)) \<Longrightarrow> (\<And>v. R v (snd (g v))) \<Longrightarrow>
    R w (snd (case f w of (Some err, w') \<Rightarrow> (Some err, w') | (None, w') \<Rightarrow> g w'))"
  by (auto split: prod.split option.split intro: R_trans)

lemma R_clearMissing: "R w (snd (clearMissingConfiguredAuthState ae w))"
proof -
  have "R v (snd (clearMissingInvalidAuths ae aliases strict v))" "R v (snd (clearMissingAutobans ae aliases strict v))" for v aliases strict
    unfolding clearMissingInvalidAuths_def clearMissingAutobans_def by (rule R_mutations, auto intro: R_drop)+
  then show ?thesis by (auto simp: clearMissingConfiguredAuthState_def Let_def R_refl intro: R_then)
qed

lemma R_clearReplaced: "R w (snd (clearReplacedInvalidAuths ae w))"
  unfolding clearReplacedInvalidAuths_def Let_def
  by (rule R_mutations) (auto simp: invalid_off_def invalid_key_def intro!: R_invalids)

lemma R_clearFromUsage: "R w (snd (clearRecoveredAuthStatesFromUsage ae later w))"
  unfolding clearRecoveredAuthStatesFromUsage_def Let_def
  by (rule R_then) (rule R_mutations, auto intro: R_drop)+

lemma R_reconcile: "R w (snd (reconcileAutobansWithQuotaSnapshots ae windows w))"
  unfolding reconcileAutobansWithQuotaSnapshots_def Let_def
  by (rule R_mutations) (auto simp: split_def ban_off_def ban_key_def intro!: R_bans)

lemma conflict_key: "ban_key r = ban_key row \<Longrightarrow> ban_key (backfill_conflict now row r) = ban_key row"
  by (simp add: backfill_conflict_def ban_key_def)

lemma S_backfill: "S w (snd (backfill_rows fails n now fs w))"
proof (induction fs arbitrary: n w)
  case (Cons f fs)
  have "S w (backfill_row now f w)" 
    unfolding backfill_row_def Let_def
    by (rule S_ban) (simp_all add: conflict_key backfilled_ban_def backfill_key_def split_def Let_def del: firstNonEmptyString.simps)
  with Cons show ?case by (cases "fails n") (auto intro: S_trans S_refl)
qed (simp add: S_refl)

lemma R_backfill: "R w (snd (backfillAutobansFromUsage ae later failures w))"
  by (auto simp: backfillAutobansFromUsage_def Let_def split_def R_refl simp del: backfill_rows.simps intro: R_bracket S_backfill
      split: sum.split list.split)

lemma R_deactivated: "R w (snd (backfill_deactivated ae fails n later rows w))"
proof (induction rows arbitrary: n w)
  case (Cons row rows)
  obtain rec t status where row: "row = (rec, t, status)" by (metis prod_cases3)
  obtain err w' where w': "recordInvalidAuthIfNeeded (ae\<lparr>ae_fails := \<lambda>_. fails n\<rparr>) rec status w = (err, w')" by fastforce
  have "R w w'" using R_recordInvalid [of w "ae\<lparr>ae_fails := \<lambda>_. fails n\<rparr>" rec status] w' by simp
  with Cons row w' show ?case by (cases err) (auto intro: R_trans)
qed (simp add: R_refl)

lemma R_mark: "R w (snd (markAutobanReleasedInBatch i now w))"
  unfolding markAutobanReleasedInBatch_def by (rule R_bans) (simp_all add: ban_off_def ban_key_def)

lemma R_release_all: "R w (snd (release_all fails n now rows result w))"
proof (induction rows arbitrary: n result w)
  case (Cons row rows)
  obtain ok w' where w': "markAutobanReleasedInBatch (ab_AuthID row) now w = (ok, w')" by fastforce
  have "R w w'" using R_mark [of w "ab_AuthID row" now] w' by simp
  with Cons w' show ?case by (cases "fails n") (auto intro: R_trans R_refl)
qed (simp add: R_refl)

lemma R_release_selected: "R w (snd (release_selected fails n now rows released items result w))"
proof (induction items arbitrary: n released result w)
  case (Cons item items)
  show ?case
    by (cases "fails n") (auto simp: split_def Let_def R_refl intro: Cons.IH R_trans [OF R_mark] split: option.split)
qed (simp add: R_refl)

lemma R_release: "R w (snd (releaseAutobans ae begin_err query_err commit_err req w))"
proof -
  have "R w (snd (releaseAll429Autobans (ae_fails ae) now w))" "R w (snd (releaseSelectedAutobans (ae_fails ae) now items w))" for now items
    unfolding releaseAll429Autobans_def releaseSelectedAutobans_def by (rule R_release_all, rule R_release_selected)
  then show ?thesis
    by (auto simp: releaseAutobans_def Let_def split_def R_refl intro: R_trans R_invalidate
        split: option.split sum.split prod.split) (metis R_invalidate R_trans snd_conv)+
qed

lemma R_step: "R w (ban_step ae op w)"
  by (cases op)
    (auto simp: R_recordAutoban R_recordInvalid R_repeated R_clearRecovered R_expire R_clearMissing R_clearReplaced
      R_clearFromUsage R_reconcile R_backfill R_release backfillWorkspaceDeactivatedAuthsFromUsage_def
      backfillWorkspaceDeactivatedAuthsFromQuotaTriggerRuns_def markAutobanReleased_def R_deactivated R_refl Let_def split_def
      intro: R_trans R_mark R_invalidate split: sum.split option.split)

end

section \<open>The operations run the protocol of the cache\<close>

lemma codex_provider [simp]: "provider_of ''codex'' = Some Codex"
  by code_simp

lemma cache_effects [simp]:
  "sc_codex (bw_cache (invalidate_codex w)) = slot_invalidate (sc_codex (bw_cache w))"
  "sc_codex (bw_cache (open_write w)) = slot_begin_write (sc_codex (bw_cache w))"
  "sc_codex (bw_cache (close_write w)) = slot_finish_write (sc_codex (bw_cache w))"
  "sc_xai (bw_cache (invalidate_codex w)) = sc_xai (bw_cache w)"
  "sc_xai (bw_cache (open_write w)) = sc_xai (bw_cache w)"
  "sc_xai (bw_cache (close_write w)) = sc_xai (bw_cache w)"
  "ban_tables (invalidate_codex w) = ban_tables w" "ban_tables (open_write w) = ban_tables w" "ban_tables (close_write w) = ban_tables w"
  "bw_bans (invalidate_codex w) = bw_bans w" "bw_bans (open_write w) = bw_bans w" "bw_bans (close_write w) = bw_bans w"
  "bw_invalids (invalidate_codex w) = bw_invalids w" "bw_invalids (open_write w) = bw_invalids w" "bw_invalids (close_write w) = bw_invalids w"
  by (simp_all add: invalidate_codex_def open_write_def close_write_def invalidateProvider_def beginRestrictionWrite_def
      finishRestrictionWrite_def ban_tables_def split_def Let_def)

lemma truncate_active [simp]: "ab_Active (autobanRow.truncate r) = ab_Active r" "ab_AuthID (autobanRow.truncate r) = ab_AuthID r"
  by (simp_all add: autobanRow.truncate_def)

text \<open>A protocol state that shows the codex slot and tables of a world.\<close>

definition shows_world :: "(autobanRow, codex_tables) protocol \<Rightarrow> ban_world \<Rightarrow> bool" where
  "shows_world s w \<longleftrightarrow> pr_slot s = sc_codex (bw_cache w) \<and> pr_db s = ban_tables w"

definition protocol_runs :: "ban_world \<Rightarrow> ban_world \<Rightarrow> bool" where
  "protocol_runs w w' \<longleftrightarrow> sc_xai (bw_cache w') = sc_xai (bw_cache w)
     \<and> (\<forall>s. shows_world s w \<longrightarrow> (\<exists>s'. (protocol_step codex_build codex_removes)\<^sup>*\<^sup>* s s' \<and> shows_world s' w'
          \<and> pr_writers s' = pr_writers s \<and> pr_readers s' = pr_readers s \<and> pr_now s' = pr_now s))"

lemma runs_step:
  assumes "sc_xai (bw_cache w') = sc_xai (bw_cache w)"
    and "\<And>s. shows_world s w \<Longrightarrow> \<exists>s'. protocol_step codex_build codex_removes s s' \<and> shows_world s' w'
          \<and> pr_writers s' = pr_writers s \<and> pr_readers s' = pr_readers s \<and> pr_now s' = pr_now s"
  shows "protocol_runs w w'"
  using assms unfolding protocol_runs_def by (meson r_into_rtranclp)

lemma runs_remove:
  assumes "codex_removes (ban_tables w') (ban_tables w)" "bw_cache w' = bw_cache w"
  shows "protocol_runs w w'"
proof (rule runs_step)
  show "\<exists>s'. protocol_step codex_build codex_removes s s' \<and> shows_world s' w'
      \<and> pr_writers s' = pr_writers s \<and> pr_readers s' = pr_readers s \<and> pr_now s' = pr_now s" if "shows_world s w" for s
    using that assms by (intro exI [of _ "s\<lparr>pr_db := ban_tables w'\<rparr>"]) (auto simp: shows_world_def intro: step_remove)
qed (simp add: assms(2))

lemma runs_bracket:
  assumes "bw_cache v = bw_cache (open_write w)"
  shows "protocol_runs w (close_write v)"
proof -
  have "\<exists>s'. (protocol_step codex_build codex_removes)\<^sup>*\<^sup>* s s' \<and> shows_world s' (close_write v)
      \<and> pr_writers s' = pr_writers s \<and> pr_readers s' = pr_readers s \<and> pr_now s' = pr_now s" if "shows_world s w" for s
    using that assms protocol_bracket [of codex_build codex_removes s "ban_tables v"] by (auto simp: shows_world_def)
  with assms show ?thesis by (simp add: protocol_runs_def)
qed

interpretation protocol: ban_relation protocol_runs "\<lambda>w v. bw_cache v = bw_cache w"
proof unfold_locales
  show "protocol_runs w w" for w by (auto simp: protocol_runs_def)
  show "protocol_runs u w" if "protocol_runs u v" "protocol_runs v w" for u v w
    using that unfolding protocol_runs_def by (metis rtranclp_trans)
  show "protocol_runs w (snd (update_bans P change w))" if "\<And>r. \<not> ab_Active (change r)" for w P change
  proof (rule runs_remove)
    have "set (filter ab_Active (snd (update_rows P change (bw_bans w)))) \<subseteq> set (bw_bans w)"
      using that by (rule update_rows_active)
    then show "codex_removes (ban_tables (snd (update_bans P change w))) (ban_tables w)"
      by (auto simp: codex_removes_def ban_tables_def update_bans_def split_def Let_def)
  qed (simp add: update_bans_def split_def Let_def)
  show "protocol_runs w (snd (update_invalids Q off w))" if "\<And>r. \<not> ia_Active (off r)" for w Q off
  proof (rule runs_remove)
    have "set (filter ia_Active (snd (update_rows Q off (bw_invalids w)))) \<subseteq> set (bw_invalids w)"
      using that by (rule update_rows_active)
    then show "codex_removes (ban_tables (snd (update_invalids Q off w))) (ban_tables w)"
      by (auto simp: codex_removes_def ban_tables_def update_invalids_def split_def Let_def)
  qed (simp add: update_invalids_def split_def Let_def)
  show "protocol_runs w (invalidate_codex w)" for w
  proof (rule runs_step)
    show "\<exists>s'. protocol_step codex_build codex_removes s s' \<and> shows_world s' (invalidate_codex w)
        \<and> pr_writers s' = pr_writers s \<and> pr_readers s' = pr_readers s \<and> pr_now s' = pr_now s" if "shows_world s w" for s
      using that step_invalidate [of codex_build codex_removes s]
      by (intro exI [of _ "s\<lparr>pr_slot := slot_invalidate (pr_slot s), pr_generations := Suc (pr_generations s)\<rparr>"])
        (simp add: shows_world_def)
  qed simp
qed (auto simp: runs_bracket)

text \<open>The primary keys of the two tables, and the trimmed form of the credential ids of the bans.\<close>

definition tables_ok :: "ban_world \<Rightarrow> bool" where
  "tables_ok w \<longleftrightarrow> distinct (map ban_key (bw_bans w)) \<and> distinct (map invalid_key (bw_invalids w))
     \<and> list_all (\<lambda>k. TrimSpace (snd k) = snd k) (map ban_key (bw_bans w))"

lemma tables_ok_simps [simp]:
  "tables_ok (invalidate_codex w) = tables_ok w" "tables_ok (open_write w) = tables_ok w" "tables_ok (close_write w) = tables_ok w"
  by (simp_all add: tables_ok_def)

interpretation primary_keys: ban_relation "\<lambda>w v. tables_ok w \<longrightarrow> tables_ok v" "\<lambda>w v. tables_ok w \<longrightarrow> tables_ok v"
proof unfold_locales
  show "tables_ok w \<longrightarrow> tables_ok (snd (update_bans P change w))" if "\<And>r. ban_key (change r) = ban_key r" for w P change
    using update_rows_keys [of ban_key change P "bw_bans w", OF that] by (simp add: tables_ok_def update_bans_def split_def Let_def)
  show "tables_ok w \<longrightarrow> tables_ok (snd (update_invalids Q off w))" if "\<And>r. invalid_key (off r) = invalid_key r" for w Q off
    using update_rows_keys [of invalid_key off Q "bw_invalids w", OF that] by (simp add: tables_ok_def update_invalids_def split_def Let_def)
  show "tables_ok w \<longrightarrow> tables_ok (w\<lparr>bw_bans := upsert_row ban_key conflict row (bw_bans w)\<rparr>)"
    if "\<And>r. ban_key r = ban_key row \<Longrightarrow> ban_key (conflict r) = ban_key row" "TrimSpace (ab_AuthID row) = ab_AuthID row" for w conflict row
    using upsert_keys [of ban_key row conflict "bw_bans w", OF that(1)] that(2)
      upsert_distinct [of ban_key row conflict "bw_bans w", OF that(1)]
    by (auto simp: tables_ok_def ban_key_def simp del: map_map)
  show "tables_ok w \<longrightarrow> tables_ok (w\<lparr>bw_invalids := upsert_row invalid_key (\<lambda>_. irow) irow (bw_invalids w)\<rparr>)" for w irow
    by (auto simp: tables_ok_def intro: upsert_distinct)
qed auto

section \<open>What a recorded ban blocks\<close>

lemma canonicalProviderOr_folded:
  assumes "EqualFold (TrimSpace p) ''codex''"
  shows "canonicalProviderOr p providerCodex = providerCodex"
proof -
  have "ToLower ''codex'' = ''codex''" by code_simp
  then have "canonicalProvider p = ''codex''" using assms by (simp add: EqualFold_def canonicalProvider_def)
  then show ?thesis by (simp add: canonicalProviderOr_def providerCodex_def)
qed

lemma ban_blocks:
  assumes "row \<in> set (bw_bans w)" "ab_Provider row = providerCodex" "ab_Active row" "now < ab_ResetAt row"
    and "key_blocks fp (scanned_file (autobanRow.truncate row)) c"
  shows "codex_blocks fp now (ban_tables w) c"
  using assms by (force simp: codex_blocks_def ban_tables_def list_ex_iff autobanRow.truncate_def)

text \<open>
  The account of a record, read off the record and the configured accounts and not off what is written: the first
  credential file its columns name; or that of the first configured account that shares an alias with it; or
  the first of some of its other identities.
\<close>

definition record_account :: "configuredAccount list \<Rightarrow> string list \<Rightarrow> usageRecord \<Rightarrow> string" where
  "record_account configured others rec =
     (case filter (\<lambda>f. f \<noteq> []) (map fileNameIfJSON [ur_AuthFile rec, ur_AuthIndex rec, ur_Source rec, ur_AuthID rec]) of
        file # _ \<Rightarrow> file
      | [] \<Rightarrow> (let names = normalizeAccountAliases [ur_AuthIndex rec, ur_AuthID rec, ur_Source rec];
                  known = filter (\<lambda>cfg. set names \<inter> set (configuredAccountMatchAliases cfg (configuredEmailCounts configured)) \<noteq> {}) configured
              in firstNonEmptyString (map cg_AuthFile (take 1 known) @ others)))"

lemma take_1_filter: "take (Suc 0) (filter P xs) = (case find P xs of None \<Rightarrow> [] | Some x \<Rightarrow> [x])"
  by (induction xs) simp_all

lemma record_file_account:
  "firstNonEmptyString (fst (authFileStateForRecord ae rec) # others) = TrimSpace (record_account (ae_codex ae) others rec)"
proof -
  let ?files = "map fileNameIfJSON [ur_AuthFile rec, ur_AuthIndex rec, ur_Source rec, ur_AuthID rec]"
  have blank: "TrimSpace (fileNameIfJSON v) = [] \<longleftrightarrow> fileNameIfJSON v = []" for v using fileNameIfJSON_not_blank by auto
  have accept: "list_ex (\<lambda>a. a \<noteq> [] \<and> a \<in> A) (normalizeAccountAliases vs) \<longleftrightarrow> set (normalizeAccountAliases vs) \<inter> A \<noteq> {}" for A vs
    using normalizeAccountAliases_normal by (fastforce simp: list_ex_iff)
  show ?thesis
  proof (cases "filter (\<lambda>f. f \<noteq> []) ?files")
    case Nil
    then show ?thesis
      by (auto simp: authFileStateForRecord_def record_file_state_def record_account_def Let_def accept take_1_filter
          split: option.split if_splits)
  next
    case (Cons f fs)
    then show ?thesis
      by (auto simp: authFileStateForRecord_def record_file_state_def record_account_def authFileStateForName_def Let_def blank
          split: if_splits)
  qed
qed

lemma autoban_id_account:
  "autoban_id ae rec = TrimSpace (record_account (ae_codex ae) [ur_AuthID rec, ur_AuthIndex rec, ur_Source rec] rec)"
proof -
  have "autoban_id ae rec = firstNonEmptyString [fst (authFileStateForRecord ae rec), ur_AuthID rec, ur_AuthIndex rec, ur_Source rec]"
  proof (cases "TrimSpace (fst (authFileStateForRecord ae rec)) = []")
    case True
    then have "TrimSpace (fileNameIfJSON v) = []" if "v \<in> {ur_AuthIndex rec, ur_AuthID rec}" for v
      using that fileNameIfJSON_not_blank
      by (fastforce simp: authFileStateForRecord_def record_file_state_def authFileStateForName_def Let_def split: if_splits)
    with True show ?thesis by (simp add: autoban_id_def)
  qed (simp add: autoban_id_def Let_def)
  then show ?thesis unfolding record_file_account .
qed

lemma record_account_no_file:
  "fileNameIfJSON (record_account configured others rec) = []
   \<Longrightarrow> fileNameIfJSON (ur_AuthIndex rec) = [] \<and> fileNameIfJSON (ur_Source rec) = [] \<and> fileNameIfJSON (ur_AuthID rec) = []"
  using fileNameIfJSON_not_blank
  by (auto simp: record_account_def fileNameIfJSON_twice Let_def split: if_splits)

text \<open>The row a quota failure writes.\<close>

definition quota_row :: "auth_env \<Rightarrow> usageRecord \<Rightarrow> go_float option \<Rightarrow> int option \<Rightarrow> go_float option \<Rightarrow> int option \<Rightarrow> stored_ban" where
  "quota_row ae rec pp pr sp sr =
     (let now = env_unix (ae_sched ae); pr' = normalizeInt64Ptr pr; sr' = normalizeInt64Ptr sr
      in new_ban (TrimSpace (autoban_id ae rec)) rec (classifyCodexBan (ur_ResponseHeaders rec) pp pr' sp sr' now)
           now 429 pp (normalizeInt64Ptr pr') sp (normalizeInt64Ptr sr'))"

lemma quota_row_blocks:
  assumes "identifies fp (record_account (ae_codex ae) [ur_AuthID rec, ur_AuthIndex rec, ur_Source rec] rec) c"
  shows "key_blocks fp (scanned_file (autobanRow.truncate (quota_row ae rec pp pr sp sr))) c"
proof -
  let ?i = "record_account (ae_codex ae) [ur_AuthID rec, ur_AuthIndex rec, ur_Source rec] rec"
  let ?row = "scanned_file (autobanRow.truncate (quota_row ae rec pp pr sp sr))"
  have row: "ab_AuthID ?row = TrimSpace ?i" "ab_AuthIndex ?row = TrimSpace (ur_AuthIndex rec)" "ab_Source ?row = TrimSpace (ur_Source rec)"
      "ab_AuthFile ?row = firstNonEmptyString [fileNameIfJSON ?i, fileNameIfJSON (ur_AuthIndex rec), fileNameIfJSON (ur_Source rec)]"
    by (simp_all add: scanned_file_def quota_row_def new_ban_def split_def Let_def autoban_id_account autobanRow.truncate_def
        del: firstNonEmptyString.simps)
  have "key_blocks fp ?row c \<longleftrightarrow> identifies fp ?i c"
  proof (rule key_blocks_identity [OF row(1)])
    show "TrimSpace ?i \<noteq> []" using assms by (rule identifies_not_blank)
    show "fileNameIfJSON (ab_AuthFile ?row) = []
        \<or> normalizeAccountAlias (fileNameIfJSON (ab_AuthFile ?row)) = normalizeAccountAlias (fileNameIfJSON ?i)"
      if "fileNameIfJSON ?i \<noteq> []"
      using fileNameIfJSON_not_blank [OF that] by (simp add: row(4) Let_def fileNameIfJSON_twice)
    show "list_all (\<lambda>v. fileNameIfJSON v = []) [ab_AuthFile ?row, ab_AuthIndex ?row, ab_Source ?row]" if "fileNameIfJSON ?i = []"
      using that record_account_no_file [OF that] by (simp add: row(2-4))
  qed
  with assms show ?thesis by simp
qed

lemma recordAutoban_quota:
  assumes "EqualFold (TrimSpace (ur_Provider rec)) ''codex''" "ur_Failed rec" "isGenerated rec" "autoban_id ae rec \<noteq> []"
    and "ae_fails ae 0 = None"
  shows "recordAutobanIfNeeded ae rec 429 pp pr sp sr w
       = (None, close_write (upsert_ban (quota_row ae rec pp pr sp sr) (open_write w)))"
  using assms by (simp add: recordAutobanIfNeeded_def quota_row_def restriction_write_def Let_def)

text \<open>What a backfill leaves of the table: nothing is written, or the wanted failures are, in their order.\<close>

lemma backfill_cases:
  obtains (untouched) "bw_bans (snd (backfillAutobansFromUsage ae later failures w)) = bw_bans w"
  | (written) fs gs where "failures = Inr fs" "set gs \<subseteq> set fs"
      "bw_bans (snd (backfillAutobansFromUsage ae later failures w))
         = bw_bans (snd (backfill_rows (ae_fails ae) 0 (env_unix (ae_sched ae)) gs (open_write w)))"
proof (cases failures)
  case (Inl err)
  then show thesis by (intro untouched) (simp add: backfillAutobansFromUsage_def)
next
  case (Inr fs)
  show thesis
  proof (cases "filter (backfill_wanted later (env_unix (ae_sched ae))) fs")
    case Nil
    with Inr show thesis by (intro untouched) (simp add: backfillAutobansFromUsage_def)
  next
    case (Cons g gs)
    then have "set (g # gs) \<subseteq> set fs" by (metis filter_is_subset)
    with Inr Cons show thesis
      by (intro written [of fs "g # gs"]) (simp_all add: backfillAutobansFromUsage_def Let_def split_def del: backfill_rows.simps)
  qed
qed

section \<open>Examples\<close>

definition example_auth_env :: "int \<Rightarrow> auth_env" where
  "example_auth_env now = \<lparr>ae_sched = example_env (now * 1000000000), ae_codex = [], ae_xai = [], ae_mtime = (\<lambda>_. 0),
     ae_codexReadable = False, ae_xaiReadable = False, ae_fails = (\<lambda>_. None)\<rparr>"

definition example_ban_world :: ban_world where
  "example_ban_world = \<lparr>bw_bans = [], bw_invalids = [], bw_cache = \<lparr>sc_codex = empty_slot, sc_xai = empty_slot\<rparr>, bw_refreshRequests = 0\<rparr>"

definition example_failure :: usageRecord where
  "example_failure = no_usage\<lparr>ur_Provider := '' Codex'', ur_AuthID := ''a.json'', ur_Failed := True\<rparr>"

definition example_stored :: "bool \<Rightarrow> int \<Rightarrow> int \<Rightarrow> stored_ban" where
  "example_stored active releasedAt status = (autobanRow.extend (example_ban ''a.json'' ''1'' 9)
     \<lparr>sb_ReleasedAt = releasedAt, sb_ReleaseReason = []\<rparr>)\<lparr>ab_Active := active, ab_LastStatusCode := status\<rparr>"

definition example_quota_failure :: "int \<Rightarrow> quota_failure" where
  "example_quota_failure t = \<lparr>qf_AuthID = ''a.json'', qf_AuthIndex = ''1'', qf_Source = [], qf_RequestedAt = t, qf_Status = 429,
     qf_Primary = (Some (Fin 100), Some 50), qf_Secondary = (None, None)\<rparr>"

section \<open>Properties\<close>

text \<open>C11: Every operation on the Codex restrictions refines the protocol the cache is proved for. Seen through the codex
  slot and the two tables, a recording, recovery, expiry, clean-up, reconciliation, backfill or release is a run of
  protocol steps, whatever it reads and whichever of its statements fail: only statements between
  \<open>beginRestrictionWrite\<close> and \<open>finishRestrictionWrite\<close> add a restriction, the bracket is always closed,
  and the xAI slot is left alone.\<close>

theorem codex_operations_run_protocol:
  assumes "shows_world s w"
  shows "\<exists>s'. (protocol_step codex_build codex_removes)\<^sup>*\<^sup>* s s' \<and> shows_world s' (ban_step ae op w)
       \<and> pr_writers s' = pr_writers s \<and> pr_readers s' = pr_readers s
       \<and> sc_xai (bw_cache (ban_step ae op w)) = sc_xai (bw_cache w)"
  using protocol.R_step [of w ae op] assms unfolding protocol_runs_def by blast

theorem codex_operations_run_protocol_witness:
  "let w = example_ban_world\<lparr>bw_bans := [example_stored True 0 429], bw_cache := \<lparr>sc_codex = pr_slot example_published, sc_xai = empty_slot\<rparr>\<rparr>
   in \<exists>s'. (protocol_step codex_build codex_removes)\<^sup>*\<^sup>* example_published s' \<and> shows_world s' (ban_step (example_auth_env 20) ExpireAutobans w)"
proof -
  let ?w = "example_ban_world\<lparr>bw_bans := [example_stored True 0 429], bw_cache := \<lparr>sc_codex = pr_slot example_published, sc_xai = empty_slot\<rparr>\<rparr>"
  have "pr_db example_published = ([example_ban ''a.json'' ''1'' 9], [])"
    by (simp add: example_published_def example_read_def example_written_def)
  moreover have "autobanRow.truncate (example_stored True 0 429) = example_ban ''a.json'' ''1'' 9" by code_simp
  ultimately have "shows_world example_published ?w" by (simp add: shows_world_def ban_tables_def example_ban_world_def)
  from codex_operations_run_protocol [OF this, of "example_auth_env 20" ExpireAutobans] show ?thesis by (auto simp: Let_def)
qed

text \<open>A quota failure blocks its account. When a generated Codex request fails with 429, the ban that is written
  is active and carries the reset that was classified from the response; until that moment every candidate that
  the account of the record stands for is blocked, and the cache cannot serve a snapshot taken before the write.\<close>

theorem quota_failure_blocks:
  assumes "EqualFold (TrimSpace (ur_Provider rec)) ''codex''" "ur_Failed rec" "isGenerated rec"
    and "ae_fails ae 0 = None"
    and "now < fst (classifyCodexBan (ur_ResponseHeaders rec) pp (normalizeInt64Ptr pr) sp (normalizeInt64Ptr sr) (env_unix (ae_sched ae)))"
    and "identifies fp (record_account (ae_codex ae) [ur_AuthID rec, ur_AuthIndex rec, ur_Source rec] rec) c"
  shows "\<exists>w'. recordAutobanIfNeeded ae rec 429 pp pr sp sr w = (None, w') \<and> codex_blocks fp now (ban_tables w') c
       \<and> \<not> sl_Initialized (sc_codex (bw_cache w'))"
proof -
  let ?row = "quota_row ae rec pp pr sp sr"
  let ?w = "close_write (upsert_ban ?row (open_write w))"
  have "?row \<in> set (bw_bans ?w)" by (simp add: upsert_ban_def upsert_replaced)
  moreover have "ab_Provider ?row = providerCodex" "ab_Active ?row" "now < ab_ResetAt ?row"
    using assms(1,5) by (simp_all add: quota_row_def new_ban_def Let_def split_def canonicalProviderOr_folded)
  ultimately have "codex_blocks fp now (ban_tables ?w) c" using quota_row_blocks [OF assms(6)] by (rule ban_blocks)
  moreover have "\<not> sl_Initialized (sc_codex (bw_cache ?w))" by (simp add: slot_finish_write_def)
  moreover have "autoban_id ae rec \<noteq> []" using identifies_not_blank [OF assms(6)] by (simp add: autoban_id_account)
  ultimately show ?thesis using recordAutoban_quota [OF assms(1-3) _ assms(4)] by blast
qed

theorem quota_failure_blocks_witness:
  "\<exists>w'. recordAutobanIfNeeded (example_auth_env 60) example_failure 429 (Some (Fin 100)) (Some 500) None None example_ban_world = (None, w')
     \<and> codex_blocks (\<lambda>s. s) 499 (ban_tables w') (example_candidate ''A.json'') \<and> \<not> sl_Initialized (sc_codex (bw_cache w'))"
proof (rule quota_failure_blocks)
  show "EqualFold (TrimSpace (ur_Provider example_failure)) ''codex''" "ur_Failed example_failure" "isGenerated example_failure"
    by code_simp+
  show "ae_fails (example_auth_env 60) 0 = None" by (simp add: example_auth_env_def)
  show "499 < fst (classifyCodexBan (ur_ResponseHeaders example_failure) (Some (Fin 100)) (normalizeInt64Ptr (Some 500)) None
      (normalizeInt64Ptr None) (env_unix (ae_sched (example_auth_env 60))))" by code_simp
  show "identifies (\<lambda>s. s) (record_account (ae_codex (example_auth_env 60)) [ur_AuthID example_failure, ur_AuthIndex example_failure,
      ur_Source example_failure] example_failure) (example_candidate ''A.json'')" by code_simp
qed

text \<open>A backfill never shortens a ban. Whatever the recorded usage holds and wherever the backfill fails, each active
  Codex ban is still there under its key, active, with a reset no earlier than before.\<close>

theorem backfill_never_shortens:
  assumes "r \<in> set (bw_bans w)" "ab_Active r"
  shows "\<exists>r'\<in>set (bw_bans (snd (backfillAutobansFromUsage ae later failures w))).
     ban_key r' = ban_key r \<and> ab_Active r' \<and> ab_ResetAt r \<le> ab_ResetAt r'"
proof -
  have loop: "\<exists>r'\<in>set (bw_bans (snd (backfill_rows fails n now fs v))). ban_key r' = ban_key r \<and> ab_Active r' \<and> ab_ResetAt r \<le> ab_ResetAt r'"
    if "\<exists>r'\<in>set (bw_bans v). ban_key r' = ban_key r \<and> ab_Active r' \<and> ab_ResetAt r \<le> ab_ResetAt r'" for fails n now fs v
    using that
  proof (induction fs arbitrary: n v)
    case (Cons f fs)
    then obtain r' where r': "r' \<in> set (bw_bans v)" "ban_key r' = ban_key r" "ab_Active r'" "ab_ResetAt r \<le> ab_ResetAt r'" by blast
    let ?new = "backfilled_ban f now"
    let ?r = "if ban_key r' = ban_key ?new then backfill_conflict now ?new r' else r'"
    have "?r \<in> set (bw_bans (backfill_row now f v))"
      unfolding backfill_row_def Let_def using upsert_mem [OF r'(1), of ban_key ?new "backfill_conflict now ?new"] by simp
    moreover have "ban_key ?r = ban_key r" "ab_Active ?r" "ab_ResetAt r \<le> ab_ResetAt ?r"
      using r' by (auto simp: backfill_conflict_def ban_key_def)
    ultimately have "\<exists>r'\<in>set (bw_bans (backfill_row now f v)). ban_key r' = ban_key r \<and> ab_Active r' \<and> ab_ResetAt r \<le> ab_ResetAt r'"
      by blast
    from Cons.IH [OF this] Cons.prems show ?case by (cases "fails n") simp_all
  qed simp
  show ?thesis
  proof (cases rule: backfill_cases [of ae later failures w])
    case untouched
    with assms show ?thesis by auto
  next
    case (written fs gs)
    have "\<exists>r'\<in>set (bw_bans (open_write w)). ban_key r' = ban_key r \<and> ab_Active r' \<and> ab_ResetAt r \<le> ab_ResetAt r'"
      using assms by auto
    from loop [OF this] show ?thesis unfolding written(3) .
  qed
qed

theorem backfill_never_shortens_witness:
  "\<exists>r'\<in>set (bw_bans (snd (backfillAutobansFromUsage (example_auth_env 5) (\<lambda>_ _. False) (Inr [example_quota_failure 3])
       (example_ban_world\<lparr>bw_bans := [example_stored True 0 429]\<rparr>)))).
     ban_key r' = ban_key (example_stored True 0 429) \<and> ab_Active r' \<and> ab_ResetAt (example_stored True 0 429) \<le> ab_ResetAt r'"
  by (rule backfill_never_shortens) (simp, code_simp)

text \<open>A manual release lasts against old evidence. A ban that was released by hand keeps its row through any
  backfill whose failures for that account are no newer than the release.\<close>

theorem manual_release_lasts:
  assumes "r \<in> set (bw_bans w)" "\<not> ab_Active r" "0 < sb_ReleasedAt r"
    and "\<forall>f\<in>set fs. backfill_key f = ab_AuthID r \<longrightarrow> qf_RequestedAt f \<le> sb_ReleasedAt r"
  shows "r \<in> set (bw_bans (snd (backfillAutobansFromUsage ae later (Inr fs) w)))"
proof -
  have loop: "r \<in> set (bw_bans (snd (backfill_rows fails n now gs v)))"
    if "r \<in> set (bw_bans v)" "set gs \<subseteq> set fs" for fails n now gs v
    using that
  proof (induction gs arbitrary: n v)
    case (Cons f gs)
    let ?new = "backfilled_ban f now"
    have old: "backfill_conflict now ?new r = r" if "ban_key r = ban_key ?new"
    proof -
      have "backfill_key f = ab_AuthID r" using that by (simp add: ban_key_def backfilled_ban_def split_def Let_def)
      then have "ab_BannedAt ?new \<le> sb_ReleasedAt r"
        using Cons.prems(2) assms(4) by (simp add: backfilled_ban_def split_def Let_def)
      then show ?thesis using assms(2,3) by (simp add: backfill_conflict_def)
    qed
    have "r \<in> set (bw_bans (backfill_row now f v))"
      using upsert_mem [OF Cons.prems(1), of ban_key ?new "backfill_conflict now ?new"] old
      by (simp add: backfill_row_def Let_def split: if_splits)
    then show ?case using Cons by (cases "fails n") simp_all
  qed simp
  show ?thesis
  proof (cases rule: backfill_cases [of ae later "Inr fs" w])
    case untouched
    with assms(1) show ?thesis by simp
  next
    case (written fs' gs)
    show ?thesis unfolding written(3) by (rule loop) (use assms(1) written(1,2) in simp_all)
  qed
qed

theorem manual_release_lasts_witness:
  "example_stored False 4 429 \<in> set (bw_bans (snd (backfillAutobansFromUsage (example_auth_env 5) (\<lambda>_ _. False)
     (Inr [example_quota_failure 3]) (example_ban_world\<lparr>bw_bans := [example_stored False 4 429]\<rparr>))))"
proof (rule manual_release_lasts)
  show "\<not> ab_Active (example_stored False 4 429)" "0 < sb_ReleasedAt (example_stored False 4 429)" by code_simp+
  show "\<forall>f\<in>set [example_quota_failure 3]. backfill_key f = ab_AuthID (example_stored False 4 429)
      \<longrightarrow> qf_RequestedAt f \<le> sb_ReleasedAt (example_stored False 4 429)" by code_simp
qed simp



lemma releasable_columns: "isReleasable429Autoban (r\<lparr>ab_AuthFile := f\<rparr>) = isReleasable429Autoban r"
  by (simp add: isReleasable429Autoban_def)

lemma mark_spares:
  "r \<in> set (bw_bans w) \<Longrightarrow> ab_AuthID r \<noteq> TrimSpace i \<Longrightarrow> r \<in> set (bw_bans (snd (markAutobanReleasedInBatch i now w)))"
  by (force simp: markAutobanReleasedInBatch_def update_bans_def update_rows_def Let_def)

lemma release_all_spares:
  assumes "r \<in> set (bw_bans w)" "\<forall>row\<in>set rows. isReleasable429Autoban row \<longrightarrow> ab_AuthID r \<noteq> TrimSpace (ab_AuthID row)"
  shows "r \<in> set (bw_bans (snd (release_all fails n now rows result w)))"
  using assms
proof (induction rows arbitrary: n result w)
  case (Cons row rows)
  then show ?case by (cases "fails n") (auto simp: split_def Let_def mark_spares)
qed simp

lemma release_selected_spares:
  assumes "r \<in> set (bw_bans w)" "\<forall>row\<in>set rows. isReleasable429Autoban row \<longrightarrow> ab_AuthID r \<noteq> TrimSpace (ab_AuthID row)"
  shows "r \<in> set (bw_bans (snd (release_selected fails n now rows released items result w)))"
  using assms
proof (induction items arbitrary: n released result w)
  case (Cons item items)
  show ?case
  proof (cases "find (\<lambda>row. ab_AuthID row \<notin> set released \<and> autobanReleaseItemMatchesRow item row) rows")
    case None
    with Cons show ?thesis by simp
  next
    case (Some row)
    then have "row \<in> set rows" by (blast dest: find_Some_mem)
    with Some Cons show ?thesis by (cases "fails n") (auto simp: split_def Let_def mark_spares)
  qed
qed simp

definition tallied :: "autobanReleaseResult \<Rightarrow> bool" where
  "tallied r \<longleftrightarrow> rr_Released r + rr_Skipped r + rr_NotFound r = length (rr_Items r)"

lemma tallied_simps [simp]: "tallied no_release" "tallied r \<Longrightarrow> tallied (skip_row row r)"
    "tallied r \<Longrightarrow> tallied (marked_row row ok r)" "tallied r \<Longrightarrow> tallied (missing_item item r)"
  by (simp_all add: tallied_def no_release_def skip_row_def marked_row_def missing_item_def)

lemma release_all_tallied:
  "fst (release_all fails n now rows result w) = Inr r \<Longrightarrow> tallied result \<Longrightarrow> tallied r"
  by (induction rows arbitrary: n result w) (auto simp: split_def Let_def split: if_splits option.splits)

lemma release_selected_tallied:
  "fst (release_selected fails n now rows released items result w) = Inr r \<Longrightarrow> tallied result \<Longrightarrow> tallied r"
  by (induction items arbitrary: n released result w) (auto simp: split_def Let_def split: if_splits option.splits)

text \<open>A ban for an invalid or forbidden credential, by the status or by the window it was recorded with.\<close>

definition credential_ban :: "stored_ban \<Rightarrow> bool" where
  "credential_ban r \<longleftrightarrow> ab_LastStatusCode r \<in> {401, 402, 403} \<or> ToLower (TrimSpace (ab_Window r)) \<in> {''401'', ''402'', ''403''}"

lemma credential_ban_kept: "credential_ban r \<Longrightarrow> \<not> isReleasable429Autoban (autobanRow.truncate r)"
  by (auto simp: credential_ban_def isReleasable429Autoban_def Let_def autobanRow.truncate_def StatusUnauthorized_def
      StatusPaymentRequired_def StatusForbidden_def)

lemma release_all_invalids: "bw_invalids (snd (release_all fails n now rows result w)) = bw_invalids w"
  by (induction rows arbitrary: n result w)
     (auto simp: split_def Let_def markAutobanReleasedInBatch_def update_bans_def split: option.split)

lemma release_selected_invalids: "bw_invalids (snd (release_selected fails n now rows released items result w)) = bw_invalids w"
  by (induction items arbitrary: n released result w)
     (auto simp: split_def Let_def markAutobanReleasedInBatch_def update_bans_def split: option.split)

lemma release_rows_differ:
  assumes "tables_ok w" "r \<in> set (bw_bans w)" "active_ban r" "\<not> isReleasable429Autoban (autobanRow.truncate r)"
  shows "\<forall>row\<in>set (queryActiveAutobanReleaseRows w). isReleasable429Autoban row \<longrightarrow> ab_AuthID r \<noteq> TrimSpace (ab_AuthID row)"
proof (intro ballI impI notI)
  fix row assume row: "row \<in> set (queryActiveAutobanReleaseRows w)" "isReleasable429Autoban row" "ab_AuthID r = TrimSpace (ab_AuthID row)"
  then obtain r0 where r0: "r0 \<in> set (bw_bans w)" "active_ban r0" "ab_AuthID row = ab_AuthID r0"
      "isReleasable429Autoban (autobanRow.truncate r0)"
    by (auto simp: queryActiveAutobanReleaseRows_def releasable_columns simp del: firstNonEmptyString.simps)
  have "TrimSpace (ab_AuthID r0) = ab_AuthID r0" using assms(1) r0(1) by (auto simp: tables_ok_def list_all_iff ban_key_def)
  then have "ban_key r0 = ban_key r" using row(3) r0(2,3) assms(3) by (simp add: ban_key_def active_ban_def)
  then have "r0 = r" using assms(1,2) r0(1) by (auto simp: tables_ok_def distinct_map dest: inj_onD)
  with assms(4) r0(4) show False by simp
qed

text \<open>C30: A release frees quota bans only. Whatever scope and items are asked for, an active ban for an invalid or forbidden
  credential (status or window 401, 402 or 403) keeps its row untouched, and so does every recorded invalid credential; a release
  that fails changes nothing at all; and a release that succeeds accounts for every item it lists as released, skipped or not found.\<close>

theorem release_spares_credential_bans:
  assumes "tables_ok w" "releaseAutobans ae begin_err query_err commit_err req w = (outcome, w')"
  shows "(\<forall>r\<in>set (bw_bans w). active_ban r \<and> credential_ban r \<longrightarrow> r \<in> set (bw_bans w'))
       \<and> bw_invalids w' = bw_invalids w
       \<and> (case outcome of Inl err \<Rightarrow> w' = w | Inr result \<Rightarrow> tallied result)"
proof -
  define now where "now = env_unix (ae_sched ae)"
  define run where "run = (if ToLower (TrimSpace (rq_Scope req)) = ''all429'' then releaseAll429Autobans (ae_fails ae) now w
      else releaseSelectedAutobans (ae_fails ae) now (rq_Items req) w)"
  have cases: "w' = w \<and> (\<exists>err. outcome = Inl err) \<or>
      (\<exists>result. fst run = Inr result \<and> outcome = Inr result \<and> bw_bans w' = bw_bans (snd run) \<and> bw_invalids w' = bw_invalids (snd run))"
    using assms(2) unfolding releaseAutobans_def run_def now_def Let_def
    by (auto split: option.splits if_splits sum.splits prod.splits)
  have "bw_invalids (snd run) = bw_invalids w"
    by (simp add: run_def releaseAll429Autobans_def releaseSelectedAutobans_def release_all_invalids release_selected_invalids)
  moreover have "\<forall>r\<in>set (bw_bans w). active_ban r \<and> credential_ban r \<longrightarrow> r \<in> set (bw_bans (snd run))"
    using credential_ban_kept release_rows_differ [OF assms(1)] release_all_spares release_selected_spares
    by (auto simp: run_def releaseAll429Autobans_def releaseSelectedAutobans_def)
  moreover have "tallied result" if "fst run = Inr result" for result
    using that release_all_tallied release_selected_tallied
    by (auto simp: run_def releaseAll429Autobans_def releaseSelectedAutobans_def split: if_splits)
  ultimately show ?thesis using cases by auto
qed

theorem release_spares_credential_bans_witness:
  "let w = example_ban_world\<lparr>bw_bans := [example_stored True 0 401]\<rparr>;
       (outcome, w') = releaseAutobans (example_auth_env 60) None None None \<lparr>rq_Scope = ''ALL429'', rq_Items = []\<rparr> w
   in active_ban (example_stored True 0 401) \<and> example_stored True 0 401 \<in> set (bw_bans w') \<and> (\<exists>result. outcome = Inr result \<and> tallied result)"
proof -
  let ?w = "example_ban_world\<lparr>bw_bans := [example_stored True 0 401]\<rparr>"
  let ?run = "releaseAutobans (example_auth_env 60) None None None \<lparr>rq_Scope = ''ALL429'', rq_Items = []\<rparr> ?w"
  have ok: "tables_ok ?w" by code_simp
  have row: "active_ban (example_stored True 0 401)" "credential_ban (example_stored True 0 401)" by code_simp+
  have "\<not> isl (fst ?run)" by code_simp
  then obtain result where "?run = (Inr result, snd ?run)" by (metis isl_def prod.collapse sum.exhaust_sel)
  moreover from release_spares_credential_bans [OF ok this] row have "example_stored True 0 401 \<in> set (bw_bans (snd ?run))" "tallied result" by auto
  ultimately show ?thesis using row(1) unfolding Let_def by (auto split: prod.split)
qed

text \<open>
  The reset that the response names is not compared with the clock: a reset in the past makes the ban
  void, so the account that just failed with 429 is picked again at once. The classification of
  recorded usage (\<open>classifyStoredCodexBan\<close>) does compare it.
\<close>

lemma past_reset_bans_nothing:
  "fst (classifyCodexBan [] (Some (Fin 100)) (Some 50) None None 60) = 50"
  "fst (classifyStoredCodexBan (Some (Fin 100), Some 50) (None, None) 60) = 60"
  "\<not> codex_blocks (\<lambda>s. s) 60 (ban_tables (snd (recordAutobanIfNeeded (example_auth_env 60) example_failure 429
        (Some (Fin 100)) (Some 50) None None example_ban_world))) (example_candidate ''a.json'')"
  by code_simp+

end
