(* ===== verification/Accounts.thy ===== *)
theory Accounts
  imports Auth_State Bans
begin

text \<open>
  The account rows of a summary (\<open>summary.go\<close>): the accounts seen in the usage merged with the configured ones, the
  rows of removed accounts dropped, and the restrictions shown on the rows. The lemmas: merging keeps the rows that were
  observed and what identifies them, and every configured account ends up on one row.
\<close>

section \<open>Rows\<close>

text \<open>The counters of a row are summed up by its query and are not part of the model.\<close>

record accountRow =
  ar_AuthIndex :: string
  ar_AuthID :: string
  ar_Source :: string
  ar_Provider :: string
  ar_Email :: string
  ar_Name :: string
  ar_AuthFile :: string
  ar_ChatGPTAccountID :: string
  ar_Configured :: bool
  ar_Disabled :: bool
  ar_Expired :: bool
  ar_InvalidAuth :: bool
  ar_InvalidAuthAt :: string
  ar_InvalidAuthReason :: string
  ar_WorkspaceDeactivated :: bool
  ar_WorkspaceDeactivatedAt :: string
  ar_WorkspaceDeactivatedReason :: string
  ar_PlanType :: string
  ar_XAITier :: string
  ar_XAITierSource :: string
  ar_XAITierDetail :: string
  ar_RuntimeStatus :: string
  ar_RuntimeMessage :: string
  ar_RuntimeUnavailable :: bool
  ar_XAIState :: string
  ar_XAIStateReason :: string
  ar_XAIStateObservedAt :: string
  ar_XAIStateResetAt :: int
  ar_XAIStateResetAtText :: string
  ar_XAIStateSecondsRemaining :: int
  ar_XAILastStatusCode :: int
  ar_PrimaryUsedPercent :: "go_float option"
  ar_PrimaryResetAt :: "int option"
  ar_PrimaryQuotaWindow :: string
  ar_PrimaryQuotaSource :: string
  ar_PrimaryQuotaObservedFrom :: string
  ar_PrimaryWindowTokens :: int
  ar_SecondaryUsedPercent :: "go_float option"
  ar_SecondaryResetAt :: "int option"
  ar_SecondaryWindowTokens :: int
  ar_SecondaryQuotaWindow :: string
  ar_QuotaWindowSource :: string
  ar_SecondaryQuotaSource :: string
  ar_SecondaryQuotaObservedFrom :: string
  ar_SecondaryQuotaTotalEstimate :: int
  ar_SecondaryQuotaRemainingEstimate :: int
  ar_SecondaryQuotaEstimateSource :: string
  ar_SecondaryQuotaEstimateMethod :: string
  ar_QuotaSource :: string
  ar_QuotaCredibility :: string
  ar_QuotaEstimateNote :: string
  ar_ExternalUseSuspected :: bool
  ar_ExternalUseCount :: int
  ar_ExternalUseWindow :: string
  ar_ExternalUseDeltaPct :: go_float
  ar_ExternalUseLocalTokens :: int
  ar_ExternalUseDetectedAt :: string
  ar_ExternalUseReason :: string
  ar_QuotaTriggerLastAt :: string
  ar_QuotaTriggerStatus :: string
  ar_QuotaTriggerMode :: string
  ar_QuotaTriggerHTTPStatus :: int
  ar_QuotaTriggerError :: string

definition no_account :: accountRow where
  "no_account = \<lparr>ar_AuthIndex = [], ar_AuthID = [], ar_Source = [], ar_Provider = [], ar_Email = [], ar_Name = [], ar_AuthFile = [],
     ar_ChatGPTAccountID = [], ar_Configured = False, ar_Disabled = False, ar_Expired = False, ar_InvalidAuth = False,
     ar_InvalidAuthAt = [], ar_InvalidAuthReason = [], ar_WorkspaceDeactivated = False, ar_WorkspaceDeactivatedAt = [],
     ar_WorkspaceDeactivatedReason = [], ar_PlanType = [], ar_XAITier = [], ar_XAITierSource = [], ar_XAITierDetail = [],
     ar_RuntimeStatus = [], ar_RuntimeMessage = [], ar_RuntimeUnavailable = False, ar_XAIState = [], ar_XAIStateReason = [],
     ar_XAIStateObservedAt = [], ar_XAIStateResetAt = 0, ar_XAIStateResetAtText = [], ar_XAIStateSecondsRemaining = 0,
     ar_XAILastStatusCode = 0, ar_PrimaryUsedPercent = None, ar_PrimaryResetAt = None, ar_PrimaryQuotaWindow = [],
     ar_PrimaryQuotaSource = [], ar_PrimaryQuotaObservedFrom = [], ar_PrimaryWindowTokens = 0, ar_SecondaryUsedPercent = None,
     ar_SecondaryResetAt = None, ar_SecondaryWindowTokens = 0, ar_SecondaryQuotaWindow = [], ar_QuotaWindowSource = [],
     ar_SecondaryQuotaSource = [], ar_SecondaryQuotaObservedFrom = [], ar_SecondaryQuotaTotalEstimate = 0,
     ar_SecondaryQuotaRemainingEstimate = 0, ar_SecondaryQuotaEstimateSource = [], ar_SecondaryQuotaEstimateMethod = [],
     ar_QuotaSource = [], ar_QuotaCredibility = [], ar_QuotaEstimateNote = [], ar_ExternalUseSuspected = False, ar_ExternalUseCount = 0,
     ar_ExternalUseWindow = [], ar_ExternalUseDeltaPct = Fin 0, ar_ExternalUseLocalTokens = 0, ar_ExternalUseDetectedAt = [],
     ar_ExternalUseReason = [], ar_QuotaTriggerLastAt = [], ar_QuotaTriggerStatus = [],
     ar_QuotaTriggerMode = [], ar_QuotaTriggerHTTPStatus = 0, ar_QuotaTriggerError = []\<rparr>"

definition accountAliases :: "accountRow \<Rightarrow> string list" where
  "accountAliases row = accountIdentityAliases
     \<lparr>id_AuthID = ar_AuthID row, id_AuthIndex = ar_AuthIndex row, id_Source = ar_Source row, id_AuthFile = ar_AuthFile row,
      id_Email = ar_Email row, id_Name = ar_Name row, id_Path = []\<rparr>"

definition accountFileIdentityAliases :: "accountRow \<Rightarrow> string list" where
  "accountFileIdentityAliases row = normalizeAccountAliases
     (filter (\<lambda>f. f \<noteq> []) (map fileNameIfJSON [ar_AuthFile row, ar_AuthID row, ar_AuthIndex row, ar_Source row]))"

definition accountMergeAliases :: "accountRow \<Rightarrow> string list" where
  "accountMergeAliases row =
     (let files = accountFileIdentityAliases row in if files \<noteq> [] then files else accountAliases row)"

definition looksOpaqueAccountKey :: "string \<Rightarrow> bool" where
  "looksOpaqueAccountKey value \<longleftrightarrow> (let v = TrimSpace value in length v = 16 \<and> list_all is_hex v)"

section \<open>Merging the configured accounts\<close>

definition enrichConfiguredAccount :: "accountRow \<Rightarrow> configuredAccount \<Rightarrow> accountRow" where
  "enrichConfiguredAccount row cfg =
     row\<lparr>ar_Configured := True, ar_Disabled := cg_Disabled cfg, ar_Expired := cg_Expired cfg,
         ar_PlanType := firstNonEmptyString [ar_PlanType row, cg_PlanType cfg],
         ar_XAITier := firstNonEmptyString [ar_XAITier row, cg_XAITier cfg],
         ar_XAITierSource := firstNonEmptyString [ar_XAITierSource row, cg_XAITierSource cfg],
         ar_XAITierDetail := firstNonEmptyString [ar_XAITierDetail row, cg_XAITierDetail cfg],
         ar_RuntimeStatus := firstNonEmptyString [ar_RuntimeStatus row, cg_RuntimeStatus cfg],
         ar_RuntimeMessage := firstNonEmptyString [ar_RuntimeMessage row, cg_RuntimeMessage cfg],
         ar_RuntimeUnavailable := ar_RuntimeUnavailable row \<or> cg_RuntimeUnavailable cfg,
         ar_Email := firstNonEmptyString [ar_Email row, cg_Email cfg],
         ar_Name := firstNonEmptyString [ar_Name row, cg_Name cfg],
         ar_AuthFile := firstNonEmptyString [ar_AuthFile row, cg_AuthFile cfg],
         ar_ChatGPTAccountID := firstNonEmptyString [ar_ChatGPTAccountID row, cg_ChatGPTAccountID cfg],
         ar_Provider := firstNonEmptyString [ar_Provider row, cg_Provider cfg, ''codex''],
         ar_Source := (if ar_Source row = [] \<or> looksOpaqueAccountKey (ar_Source row)
                       then firstNonEmptyString [cg_Source cfg, ar_Source row] else ar_Source row),
         ar_AuthID := (if ar_AuthID row = [] \<or> looksOpaqueAccountKey (ar_AuthID row)
                       then firstNonEmptyString [cg_AuthID cfg, ar_AuthID row] else ar_AuthID row)\<rparr>"

definition configuredAccountKey :: "configuredAccount \<Rightarrow> string" where
  "configuredAccountKey cfg =
     (let file = normalizeAccountAlias (cg_AuthFile cfg);
          index = normalizeAccountAlias (cg_AuthIndex cfg);
          email = normalizeAccountAlias (cg_Email cfg);
          accountID = normalizeAccountAlias (cg_ChatGPTAccountID cfg);
          other = normalizeAccountAlias (firstNonEmptyString [cg_AuthID cfg, cg_Email cfg, cg_Name cfg])
      in if file \<noteq> [] then ''file:'' @ file
         else if index \<noteq> [] then ''index:'' @ index
         else if email \<noteq> [] \<and> accountID \<noteq> [] then ''email-account:'' @ email @ ''|'' @ accountID
         else if other \<noteq> [] then ''alias:'' @ other
         else [])"

definition configured_row :: "configuredAccount \<Rightarrow> accountRow" where
  "configured_row cfg = no_account\<lparr>ar_AuthIndex := cg_AuthIndex cfg, ar_AuthID := cg_AuthID cfg, ar_Source := cg_Source cfg,
     ar_Provider := firstNonEmptyString [cg_Provider cfg, ''codex''], ar_Email := cg_Email cfg, ar_Name := cg_Name cfg,
     ar_AuthFile := cg_AuthFile cfg, ar_ChatGPTAccountID := cg_ChatGPTAccountID cfg, ar_Configured := True,
     ar_Disabled := cg_Disabled cfg, ar_Expired := cg_Expired cfg, ar_PlanType := cg_PlanType cfg, ar_XAITier := cg_XAITier cfg,
     ar_XAITierSource := cg_XAITierSource cfg, ar_XAITierDetail := cg_XAITierDetail cfg, ar_RuntimeStatus := cg_RuntimeStatus cfg,
     ar_RuntimeMessage := cg_RuntimeMessage cfg, ar_RuntimeUnavailable := cg_RuntimeUnavailable cfg\<rparr>"

text \<open>
  An index is an association list: a new entry is put in front. At first the first row with an alias has it; the row an
  account is merged into or added as takes all its aliases.
\<close>

type_synonym alias_index = "(string \<times> nat) list"

definition row_entries :: "(accountRow \<Rightarrow> string list) \<Rightarrow> nat \<times> accountRow \<Rightarrow> alias_index" where
  "row_entries aliases = (\<lambda>(i, row). map (\<lambda>a. (a, i)) (filter (\<lambda>a. a \<noteq> []) (aliases row)))"

definition first_index :: "(accountRow \<Rightarrow> string list) \<Rightarrow> accountRow list \<Rightarrow> alias_index" where
  "first_index aliases accounts = concat (map (row_entries aliases) (zip [0..<length accounts] accounts))"

definition last_index :: "(accountRow \<Rightarrow> string list) \<Rightarrow> accountRow list \<Rightarrow> alias_index" where
  "last_index aliases accounts = rev (first_index aliases accounts)"

fun index_match :: "alias_index \<Rightarrow> string list \<Rightarrow> nat option" where
  "index_match index [] = None"
| "index_match index (a # as) = (case map_of index a of Some i \<Rightarrow> Some i | None \<Rightarrow> index_match index as)"

definition merge_account ::
  "(string \<times> nat) list \<Rightarrow> configuredAccount \<Rightarrow> accountRow list \<times> alias_index \<Rightarrow> accountRow list \<times> alias_index" where
  "merge_account emailCounts cfg = (\<lambda>(rows, index).
     (case index_match index (configuredAccountMatchAliases cfg emailCounts) of
        Some i \<Rightarrow> let row = enrichConfiguredAccount (rows ! i) cfg in (rows[i := row], row_entries accountMergeAliases (i, row) @ index)
      | None \<Rightarrow> let row = configured_row cfg in (rows @ [row], row_entries accountMergeAliases (length rows, row) @ index)))"

fun merge_accounts ::
  "(string \<times> nat) list \<Rightarrow> configuredAccount list \<Rightarrow> string list \<Rightarrow> accountRow list \<times> alias_index \<Rightarrow> accountRow list \<times> alias_index" where
  "merge_accounts counts [] seen s = s"
| "merge_accounts counts (cfg # cfgs) seen s =
     (let canonical = configuredAccountKey cfg
      in if canonical \<noteq> [] \<and> canonical \<in> set seen then merge_accounts counts cfgs seen s
         else merge_accounts counts cfgs (if canonical \<noteq> [] then canonical # seen else seen) (merge_account counts cfg s))"

definition mergeConfiguredAccounts :: "accountRow list \<Rightarrow> configuredAccount list \<Rightarrow> accountRow list" where
  "mergeConfiguredAccounts accounts configured =
     (if configured = [] then accounts
      else fst (merge_accounts (configuredEmailCounts configured) configured [] (accounts, first_index accountMergeAliases accounts)))"

section \<open>Dropping removed accounts\<close>

definition aliasesAllContained :: "string list \<Rightarrow> string list \<Rightarrow> bool" where
  "aliasesAllContained aliases values' \<longleftrightarrow>
     (let ns = normalizeAccountAliases values' in ns \<noteq> [] \<and> list_all (\<lambda>a. a \<in> set aliases) ns)"

definition filterCurrentConfiguredAccounts :: "accountRow list \<Rightarrow> configuredAccount list \<Rightarrow> bool \<Rightarrow> accountRow list" where
  "filterCurrentConfiguredAccounts accounts configured authDirReadable =
     (if \<not> authDirReadable then accounts
      else if configured = [] \<or> configuredAliasSet configured = [] then []
      else filter (\<lambda>account.
             let cleanup = accountFileIdentityAliases account
             in if cleanup \<noteq> [] then aliasesAllContained (configuredStrictAliasSet configured) cleanup
                else list_ex (\<lambda>a. a \<in> set (configuredAliasSet configured)) (accountAliases account)) accounts)"

section \<open>Restrictions shown on the rows\<close>

definition applyInvalidAuthToAccount :: "invalidAuthRow \<Rightarrow> accountRow \<Rightarrow> accountRow" where
  "applyInvalidAuthToAccount invalid account =
     (if invalidAuthIsWorkspaceDeactivated invalid
      then account\<lparr>ar_WorkspaceDeactivated := True, ar_WorkspaceDeactivatedAt := ia_InvalidatedAtText invalid,
             ar_WorkspaceDeactivatedReason := ia_Reason invalid\<rparr>
      else account\<lparr>ar_InvalidAuth := True, ar_InvalidAuthAt := ia_InvalidatedAtText invalid, ar_InvalidAuthReason := ia_Reason invalid\<rparr>)"

definition update_at :: "nat option \<Rightarrow> ('a \<Rightarrow> 'a) \<Rightarrow> 'a list \<Rightarrow> 'a list" where
  "update_at i f rows = (case i of None \<Rightarrow> rows | Some i \<Rightarrow> rows[i := f (rows ! i)])"

definition strict_account_aliases :: "accountRow \<Rightarrow> string list" where
  "strict_account_aliases row = normalizeAccountAliases [ar_AuthFile row, ar_AuthIndex row]"

definition applyInvalidAuths :: "accountRow list \<Rightarrow> invalidAuthRow list \<Rightarrow> accountRow list" where
  "applyInvalidAuths accounts invalids =
     (let index = last_index accountAliases accounts;
          strictIndex = first_index strict_account_aliases accounts
      in foldl (\<lambda>rows invalid.
           let strict = strictAuthStateAliasesForValues (ia_AuthID invalid) (ia_AuthIndex invalid) (ia_Source invalid) (ia_AuthFile invalid);
               match = (if strict \<noteq> [] then index_match strictIndex strict
                        else index_match index (normalizeAccountAliases
                               [ia_AuthID invalid, ia_AuthIndex invalid, ia_Source invalid, ia_AuthFile invalid]))
           in update_at match (applyInvalidAuthToAccount invalid) rows) accounts invalids)"

definition show_xai_state :: "xaiAccountStateRow \<Rightarrow> accountRow \<Rightarrow> accountRow" where
  "show_xai_state state account = account\<lparr>ar_XAIState := xs_State state, ar_XAIStateReason := xs_Reason state,
     ar_XAIStateObservedAt := xs_ObservedAtText state, ar_XAIStateResetAt := xs_ResetAt state,
     ar_XAIStateResetAtText := xs_ResetAtText state, ar_XAIStateSecondsRemaining := xs_SecondsRemaining state,
     ar_XAILastStatusCode := xs_LastStatusCode state\<rparr>"

definition applyXAIStates :: "accountRow list \<Rightarrow> xaiAccountStateRow list \<Rightarrow> accountRow list" where
  "applyXAIStates accounts states =
     map (\<lambda>account. case find (\<lambda>s. aliasesOverlap (accountAliases account) (xaiStateAliases s)) states of
            None \<Rightarrow> account | Some s \<Rightarrow> show_xai_state s account) accounts"

definition applyAccountQuotaToAutobans :: "autobanRow list \<Rightarrow> accountRow list \<Rightarrow> autobanRow list" where
  "applyAccountQuotaToAutobans bans accounts =
     (let index = last_index accountAliases accounts
      in map (\<lambda>ban.
           case index_match index (normalizeAccountAliases [ab_AuthID ban, ab_AuthIndex ban, ab_Source ban, ab_AuthFile ban]) of
             None \<Rightarrow> ban
           | Some i \<Rightarrow> let account = accounts ! i
                       in ban\<lparr>ab_PrimaryUsedPercent := ar_PrimaryUsedPercent account, ab_PrimaryResetAt := ar_PrimaryResetAt account,
                              ab_SecondaryUsedPercent := ar_SecondaryUsedPercent account, ab_SecondaryResetAt := ar_SecondaryResetAt account\<rparr>) bans)"

section \<open>What merging keeps\<close>

definition same_account :: "accountRow \<Rightarrow> accountRow \<Rightarrow> bool" where
  "same_account a b \<longleftrightarrow> ar_AuthIndex b = ar_AuthIndex a
     \<and> (ar_AuthID a \<noteq> [] \<and> \<not> looksOpaqueAccountKey (ar_AuthID a) \<longrightarrow> ar_AuthID b = ar_AuthID a)
     \<and> (ar_Source a \<noteq> [] \<and> \<not> looksOpaqueAccountKey (ar_Source a) \<longrightarrow> ar_Source b = ar_Source a)"

lemma same_account_refl [simp]: "same_account a a"
  by (simp add: same_account_def)

lemma same_account_enrich: "same_account a b \<Longrightarrow> same_account a (enrichConfiguredAccount b cfg)"
  by (auto simp: same_account_def enrichConfiguredAccount_def)

definition merge_state :: "accountRow list \<Rightarrow> accountRow list \<times> alias_index \<Rightarrow> bool" where
  "merge_state accounts = (\<lambda>(rows, index). length accounts \<le> length rows \<and> (\<forall>i\<in>snd ` set index. i < length rows)
     \<and> (\<forall>i<length accounts. same_account (accounts ! i) (rows ! i))
     \<and> (\<forall>i\<in>{length accounts..<length rows}. ar_Configured (rows ! i)))"

lemma index_match_Some: "index_match index as = Some i \<Longrightarrow> i \<in> snd ` set index"
  by (induction as) (force split: option.splits dest!: map_of_SomeD)+

lemma row_entries_positions: "snd ` set (row_entries f (i, row)) \<subseteq> {i}"
  by (auto simp: row_entries_def)

lemma enrich_Configured [simp]: "ar_Configured (enrichConfiguredAccount row cfg)" "ar_Configured (configured_row cfg)"
  by (simp_all add: enrichConfiguredAccount_def configured_row_def)

lemma merge_account_state: "merge_state accounts (rows, index) \<Longrightarrow> merge_state accounts (merge_account counts cfg (rows, index))"
proof (cases "index_match index (configuredAccountMatchAliases cfg counts)")
  case None
  assume "merge_state accounts (rows, index)"
  with None show ?thesis using row_entries_positions [of accountMergeAliases "length rows" "configured_row cfg"]
    by (fastforce simp: merge_state_def merge_account_def Let_def nth_append less_Suc_eq)
next
  case (Some i)
  assume m: "merge_state accounts (rows, index)"
  with Some have i: "i < length rows" using index_match_Some by (fastforce simp: merge_state_def)
  let ?row = "enrichConfiguredAccount (rows ! i) cfg"
  have "\<forall>j\<in>snd ` set (row_entries accountMergeAliases (i, ?row) @ index). j < length rows"
    using m i row_entries_positions [of accountMergeAliases i ?row] by (auto simp: merge_state_def)
  with m i Some show ?thesis
    by (auto simp: merge_state_def merge_account_def Let_def nth_list_update same_account_enrich)
qed

lemma merge_accounts_state: "merge_state accounts s \<Longrightarrow> merge_state accounts (merge_accounts counts cfgs seen s)"
  by (induction counts cfgs seen s rule: merge_accounts.induct) (auto simp: Let_def merge_account_state)

lemma first_index_positions: "\<forall>i\<in>snd ` set (first_index f accounts). i < length accounts"
  by (auto simp: first_index_def row_entries_def set_zip)

lemma merge_accounts_length: "length (fst (merge_accounts counts cfgs seen s)) \<le> length (fst s) + length cfgs"
proof (induction counts cfgs seen s rule: merge_accounts.induct)
  case (2 counts cfg cfgs seen s)
  have "length (fst (merge_account counts cfg s)) \<le> Suc (length (fst s))"
    by (cases s) (auto simp: merge_account_def Let_def split: option.split)
  with 2 show ?case by (fastforce simp: Let_def)
qed simp

section \<open>Properties\<close>

text \<open>Merging the configured accounts into the observed ones keeps every observed row at its place, with its auth index, and
  with its id and source unless they are opaque keys; every further row is one that is configured, and there is at most one for
  each configured account.\<close>

theorem merge_keeps_observed:
  "(\<forall>i<length accounts. same_account (accounts ! i) (mergeConfiguredAccounts accounts configured ! i))
   \<and> list_all ar_Configured (drop (length accounts) (mergeConfiguredAccounts accounts configured))
   \<and> length accounts \<le> length (mergeConfiguredAccounts accounts configured)
   \<and> length (mergeConfiguredAccounts accounts configured) \<le> length accounts + length configured"
proof -
  let ?run = "merge_accounts (configuredEmailCounts configured) configured [] (accounts, first_index accountMergeAliases accounts)"
  have "merge_state accounts (accounts, first_index accountMergeAliases accounts)"
    using first_index_positions by (simp add: merge_state_def)
  then have "merge_state accounts ?run" by (rule merge_accounts_state)
  moreover have "length (fst ?run) \<le> length accounts + length configured"
    using merge_accounts_length [of _ _ _ "(accounts, first_index accountMergeAliases accounts)"] by simp
  ultimately show ?thesis
    by (cases ?run) (auto simp: mergeConfiguredAccounts_def merge_state_def list_all_length nth_drop)
qed

definition example_configured :: "string \<Rightarrow> string \<Rightarrow> configuredAccount" where
  "example_configured file plan = \<lparr>cg_AuthIndex = [], cg_AuthID = file, cg_Source = [], cg_Provider = ''codex'', cg_Email = [],
     cg_Name = [], cg_AuthFile = file, cg_AuthFileMTime = 0, cg_Disabled = False, cg_Expired = False, cg_PlanType = plan,
     cg_XAITier = [], cg_XAITierSource = [], cg_XAITierDetail = [], cg_RuntimeStatus = [], cg_RuntimeMessage = [],
     cg_RuntimeUnavailable = False, cg_AccessToken = [], cg_ChatGPTAccountID = []\<rparr>"

theorem merge_keeps_observed_witness:
  "same_account (no_account\<lparr>ar_AuthID := ''A.json''\<rparr>)
     (mergeConfiguredAccounts [no_account\<lparr>ar_AuthID := ''A.json''\<rparr>] [example_configured ''a.json'' ''plus'', example_configured ''b.json'' ''free''] ! 0)"
  using merge_keeps_observed [of "[no_account\<lparr>ar_AuthID := ''A.json''\<rparr>]" "[example_configured ''a.json'' ''plus'', example_configured ''b.json'' ''free'']"]
  by simp

end
