(* ===== verification/Usage_Tables.thy ===== *)
theory Usage_Tables
  imports Bans
begin

text \<open>
  The tables the usage and the quota trigger runs are kept in (\<open>schema.go\<close>), and the queries by which
  the restrictions are derived from them (\<open>main.go\<close>): the last outcomes of an account, a later success, and
  the last failure of each account. The lemmas say what these queries answer after a row is inserted.
\<close>

section \<open>Tables\<close>

record usage_event =
  ev_ID :: int
  ev_RequestedAt :: int
  ev_Provider :: string
  ev_ExecutorType :: string
  ev_Model :: string
  ev_Alias :: string
  ev_APIKey :: string
  ev_AuthID :: string
  ev_AuthIndex :: string
  ev_AuthType :: string
  ev_Source :: string
  ev_ReasoningEffort :: string
  ev_ServiceTier :: string
  ev_Generate :: bool
  ev_LatencyMs :: int
  ev_TTFTMs :: int
  ev_Failed :: bool
  ev_StatusCode :: int
  ev_Detail :: usageDetail
  ev_Primary :: quota_window
  ev_Secondary :: quota_window

record quotaTriggerRun =
  qr_AuthID :: string
  qr_AuthIndex :: string
  qr_Source :: string
  qr_Provider :: string
  qr_AuthFile :: string
  qr_Mode :: string
  qr_Status :: string
  qr_HTTPStatus :: int
  qr_Error :: string
  qr_StartedAt :: int
  qr_FinishedAt :: int
  qr_Primary :: quota_window
  qr_Secondary :: quota_window
  qr_PrimaryUsedTokens :: "int option"
  qr_PrimaryRemaining :: "int option"
  qr_PrimaryLimit :: "int option"
  qr_SecondaryUsedTokens :: "int option"
  qr_SecondaryRemaining :: "int option"
  qr_SecondaryLimit :: "int option"

text \<open>The rows in the order of their ids; an id is never used again (\<open>AUTOINCREMENT\<close>).\<close>

record usage_db =
  us_events :: "usage_event list"
  us_nextEvent :: int
  us_runs :: "(int \<times> quotaTriggerRun) list"
  us_nextRun :: int

definition insert_event :: "(int \<Rightarrow> usage_event) \<Rightarrow> usage_db \<Rightarrow> usage_db" where
  "insert_event row db = db\<lparr>us_events := us_events db @ [row (us_nextEvent db)], us_nextEvent := us_nextEvent db + 1\<rparr>"

definition insert_run :: "quotaTriggerRun \<Rightarrow> usage_db \<Rightarrow> usage_db" where
  "insert_run row db = db\<lparr>us_runs := us_runs db @ [(us_nextRun db, row)], us_nextRun := us_nextRun db + 1\<rparr>"

section \<open>Queries\<close>

definition sqlLowerIn :: "string list \<Rightarrow> string list \<Rightarrow> bool" where
  "sqlLowerIn columns aliases \<longleftrightarrow>
     list_ex (\<lambda>c. ToLower c \<in> set (filter (\<lambda>a. a \<noteq> []) (map normalizeAccountAlias aliases))) columns"

text \<open>The union of the two tables that \<open>recentForbiddenThresholdReached\<close> orders: time, sequence number, status, failed.\<close>

definition outcome_rows :: "usage_db \<Rightarrow> string list \<Rightarrow> (int \<times> int \<times> int \<times> bool) list" where
  "outcome_rows db aliases =
     map (\<lambda>e. (ev_RequestedAt e, ev_ID e, ev_StatusCode e, ev_Failed e))
       (filter (\<lambda>e. ev_Provider e = ''codex'' \<and> ev_Generate e \<and> sqlLowerIn [ev_AuthID e, ev_AuthIndex e] aliases) (us_events db))
     @ map (\<lambda>(i, r). (qr_FinishedAt r, i + 1000000000, qr_HTTPStatus r, qr_Status r \<noteq> ''success''))
         (filter (\<lambda>(i, r). qr_Provider r = ''codex'' \<and> sqlLowerIn [qr_AuthID r, qr_AuthIndex r, qr_AuthFile r] aliases)
            (us_runs db))"

definition recent_outcomes :: "usage_db \<Rightarrow> string list \<Rightarrow> nat \<Rightarrow> (int \<times> bool) list" where
  "recent_outcomes db aliases limit =
     take limit (map (\<lambda>(t, i, s, f). (s, f)) (sort_key (\<lambda>(t, i, s, f). (- t, - i)) (outcome_rows db aliases)))"

definition hasLaterSuccessfulUsage :: "auth_env \<Rightarrow> usage_db \<Rightarrow> usageRecord \<Rightarrow> int \<Rightarrow> bool" where
  "hasLaterSuccessfulUsage ae db rec after =
     (let (aliases, strict) = recoveryMatchAliasesForRecord ae rec
      in if aliases = [] then False
         else list_ex (\<lambda>e. ev_Provider e = ''codex'' \<and> after < ev_RequestedAt e \<and> \<not> ev_Failed e \<and> successfulStatusCode (ev_StatusCode e)
                \<and> sqlLowerIn ([ev_AuthID e, ev_AuthIndex e] @ (if strict then [] else [ev_Source e])) aliases) (us_events db)
            \<or> list_ex (\<lambda>(i, r). qr_Provider r = ''codex'' \<and> after < qr_FinishedAt r \<and> qr_Status r = ''success''
                \<and> sqlLowerIn ([qr_AuthID r, qr_AuthIndex r] @ (if strict then [] else [qr_Source r]) @ [qr_AuthFile r]) aliases) (us_runs db))"

text \<open>The account an event is counted under by the backfills: the key of the window function.\<close>

definition like_json :: "string \<Rightarrow> bool" where
  "like_json s \<longleftrightarrow> HasSuffix (ToLower s) ''.json''"

definition event_account :: "usage_event \<Rightarrow> string" where
  "event_account e = ToLower (if like_json (ev_AuthIndex e) then ev_AuthIndex e
     else if like_json (ev_AuthID e) then ev_AuthID e
     else if like_json (ev_Source e) then ev_Source e
     else if ev_AuthID e \<noteq> [] then ev_AuthID e else if ev_Source e \<noteq> [] then ev_Source e else ev_AuthIndex e)"

definition sql_trim :: "string \<Rightarrow> string" where
  "sql_trim s = TrimSet s [CHR '' '']"

definition codex_event :: "usage_event \<Rightarrow> bool" where
  "codex_event e \<longleftrightarrow> ToLower (sql_trim (ev_Provider e)) = ''codex'' \<and> (ev_AuthID e \<noteq> [] \<or> ev_Source e \<noteq> [] \<or> ev_AuthIndex e \<noteq> [])"

text \<open>\<open>ROW_NUMBER() OVER (PARTITION BY account ORDER BY requested_at DESC, id DESC) = 1\<close>.\<close>

definition latest_events :: "usage_db \<Rightarrow> usage_event list" where
  "latest_events db =
     (let es = filter codex_event (us_events db)
      in filter (\<lambda>e. list_all (\<lambda>d. event_account d = event_account e \<longrightarrow>
            ev_RequestedAt d < ev_RequestedAt e \<or> ev_RequestedAt d = ev_RequestedAt e \<and> ev_ID d \<le> ev_ID e) es) es)"

definition window_open :: "int \<Rightarrow> quota_window \<Rightarrow> bool" where
  "window_open now q \<longleftrightarrow> percent_full (fst q) \<and> (case snd q of None \<Rightarrow> False | Some t \<Rightarrow> now < t)"

definition latest_quota_failures :: "usage_db \<Rightarrow> int \<Rightarrow> quota_failure list" where
  "latest_quota_failures db now =
     take 1000 (map (\<lambda>e. \<lparr>qf_AuthID = ev_AuthID e, qf_AuthIndex = ev_AuthIndex e, qf_Source = ev_Source e,
                   qf_RequestedAt = ev_RequestedAt e, qf_Status = ev_StatusCode e, qf_Primary = ev_Primary e, qf_Secondary = ev_Secondary e\<rparr>)
       (sort_key (\<lambda>e. - ev_RequestedAt e)
         (filter (\<lambda>e. ev_Failed e \<and> ev_StatusCode e = 429 \<and> (window_open now (ev_Primary e) \<or> window_open now (ev_Secondary e)))
            (latest_events db))))"

definition latest_deactivations :: "usage_db \<Rightarrow> deactivated_row list" where
  "latest_deactivations db =
     take 1000 (map (\<lambda>e. \<lparr>dr_AuthID = ev_AuthID e, dr_AuthIndex = ev_AuthIndex e, dr_Source = ev_Source e, dr_Provider = ev_Provider e,
                   dr_AuthFile = [], dr_At = ev_RequestedAt e, dr_Status = ev_StatusCode e, dr_Error = []\<rparr>)
       (sort_key (\<lambda>e. - ev_RequestedAt e)
         (filter (\<lambda>e. ev_Failed e \<and> ev_StatusCode e = 402) (latest_events db))))"

definition run_account :: "quotaTriggerRun \<Rightarrow> string" where
  "run_account r = ToLower (if qr_AuthFile r \<noteq> [] then qr_AuthFile r else if qr_AuthID r \<noteq> [] then qr_AuthID r
     else if qr_AuthIndex r \<noteq> [] then qr_AuthIndex r else qr_Source r)"

definition latest_runs :: "usage_db \<Rightarrow> quotaTriggerRun list" where
  "latest_runs db =
     (let rs = filter (\<lambda>(i, r). ToLower (sql_trim (qr_Provider r)) = ''codex'' \<and> run_account r \<noteq> []) (us_runs db)
      in map snd (filter (\<lambda>(i, r). list_all (\<lambda>(j, q). run_account q = run_account r \<longrightarrow>
            qr_FinishedAt q < qr_FinishedAt r \<or> qr_FinishedAt q = qr_FinishedAt r \<and> j \<le> i) rs) rs))"

definition latest_run_deactivations :: "usage_db \<Rightarrow> deactivated_row list" where
  "latest_run_deactivations db =
     take 1000 (map (\<lambda>r. \<lparr>dr_AuthID = qr_AuthID r, dr_AuthIndex = qr_AuthIndex r, dr_Source = qr_Source r, dr_Provider = qr_Provider r,
                   dr_AuthFile = qr_AuthFile r, dr_At = qr_FinishedAt r, dr_Status = qr_HTTPStatus r, dr_Error = qr_Error r\<rparr>)
       (sort_key (\<lambda>r. - qr_FinishedAt r) (filter (\<lambda>r. qr_HTTPStatus r = 402) (latest_runs db))))"

definition latestQuotaTriggerFinishedAt :: "usage_db \<Rightarrow> configuredAccount \<Rightarrow> int option" where
  "latestQuotaTriggerFinishedAt db cfg =
     (let latest = foldl max 0 (concat (map (\<lambda>a. map (\<lambda>(i, r). qr_FinishedAt r) (filter (\<lambda>(i, r). qr_Provider r = ''codex''
            \<and> (ToLower (qr_AuthID r) = a \<or> ToLower (qr_AuthIndex r) = a \<or> ToLower (qr_Source r) = a \<or> ToLower (qr_AuthFile r) = a)) (us_runs db)))
          (filter (\<lambda>a. a \<noteq> []) (configuredAliases cfg))))
      in if 0 < latest then Some latest else None)"

section \<open>The last outcomes after an insertion\<close>

lemma sort_key_least:
  fixes f :: "'a \<Rightarrow> 'b :: linorder"
  assumes "\<forall>y\<in>set (xs @ ys). f x < f y"
  shows "sort_key f (xs @ x # ys) = x # sort_key f (xs @ ys)"
proof (rule properties_for_sort_key)
  show "mset (x # sort_key f (xs @ ys)) = mset (xs @ x # ys)" by simp
  show "filter (\<lambda>y. f k = f y) (x # sort_key f (xs @ ys)) = filter (\<lambda>y. f k = f y) (xs @ x # ys)"
    if "k \<in> set (x # sort_key f (xs @ ys))" for k
  proof (cases "f k = f x")
    case True
    then have "filter (\<lambda>y. f k = f y) (xs @ ys) = []" using assms by (auto simp: filter_empty_conv)
    with True show ?thesis by (simp add: filter_sort)
  next
    case False
    then show ?thesis using sort_key_stable [of f "f k" "xs @ ys"] by (simp add: eq_commute)
  qed
  show "sorted (map f (x # sort_key f (xs @ ys)))" using assms by (auto simp: less_imp_le)
qed

definition outcome_time :: "int \<times> int \<times> int \<times> bool \<Rightarrow> int" where
  "outcome_time row = fst row"

lemma recent_after_event:
  assumes "ev_Provider (row i) = ''codex''" "ev_Generate (row i)" "sqlLowerIn [ev_AuthID (row i), ev_AuthIndex (row i)] aliases"
    and "i = us_nextEvent db" "\<forall>r\<in>set (outcome_rows db aliases). outcome_time r < ev_RequestedAt (row i)"
  shows "recent_outcomes (insert_event row db) aliases (Suc n) = (ev_StatusCode (row i), ev_Failed (row i)) # recent_outcomes db aliases n"
proof -
  let ?f = "\<lambda>(t, i, s, f). (- t, - i) :: int \<times> int"
  obtain es rs where old: "outcome_rows db aliases = es @ rs"
      and new: "outcome_rows (insert_event row db) aliases = es @ (ev_RequestedAt (row i), ev_ID (row i), ev_StatusCode (row i), ev_Failed (row i)) # rs"
    using assms(1-4) by (simp add: outcome_rows_def insert_event_def)
  have "\<forall>y\<in>set (es @ rs). ?f (ev_RequestedAt (row i), ev_ID (row i), ev_StatusCode (row i), ev_Failed (row i)) < ?f y"
    using assms(5) unfolding old by (fastforce simp: outcome_time_def)
  from sort_key_least [OF this] show ?thesis by (simp add: recent_outcomes_def old new split_def)
qed

end
