(* ===== verification/Redact.thy ===== *)
theory Redact
  imports Identity
begin

text \<open>
  Redaction of error texts (\<open>sanitizeTriggerError\<close> of \<open>main.go\<close> and its helpers) and the Go string
  functions it needs. The lemmas: what is left of a text is empty, a fixed phrase, or a prefix of at most
  220 bytes of a text in which no field is shaped like a credential and no marker of a secret
  occurs; the search for an authorization header finds every one that stands between boundaries.
\<close>

section \<open>Fields and search\<close>

fun take_word :: "string \<Rightarrow> string \<times> string" where
  "take_word [] = ([], [])"
| "take_word (a # s) = (if leads False (a # s) then ([], a # s) else let (w, r) = take_word s in (a # w, r))"

lemma take_word_append: "fst (take_word s) @ snd (take_word s) = s"
  by (induction s) (auto simp: split_def Let_def)

lemma take_word_shrinks: "s \<noteq> [] \<Longrightarrow> \<not> leads False s \<Longrightarrow> length (snd (take_word s)) < length s"
  using take_word_append by (cases s) (auto simp: split_def Let_def, metis le_add2 le_imp_less_Suc length_append)

text \<open>\<open>strings.Fields\<close>: the maximal runs of bytes that are not white space.\<close>

function Fields :: "string \<Rightarrow> string list" where
  "Fields s = (let t = strip False s in if t = [] then [] else fst (take_word t) # Fields (snd (take_word t)))"
  by pat_completeness auto

termination
proof (relation "measure length")
  fix s t :: string
  assume t: "t = strip False s" "t \<noteq> []"
  then have "length (snd (take_word t)) < length t" using leads_strip take_word_shrinks by blast
  with length_strip_le [of False s] t(1) show "(snd (take_word t), s) \<in> measure length" by simp
qed simp

declare Fields.simps [simp del]

text \<open>\<open>strings.Index\<close>.\<close>

fun Index :: "string \<Rightarrow> string \<Rightarrow> nat option" where
  "Index s p = (if HasPrefix s p then Some 0 else case s of [] \<Rightarrow> None | _ # t \<Rightarrow> map_option Suc (Index t p))"

declare Index.simps [simp del]

lemma Index_Some:
  "Index s p = Some i \<Longrightarrow> i + length p \<le> length s \<and> HasPrefix (drop i s) p \<and> (\<forall>j<i. \<not> HasPrefix (drop j s) p)"
proof (induction s p arbitrary: i rule: Index.induct)
  case (1 s p)
  show ?case
  proof (cases "HasPrefix s p")
    case True
    with 1(2) show ?thesis by (auto simp: Index.simps [of s] HasPrefix_iff)
  next
    case False
    then obtain a t k where s: "s = a # t" "Index t p = Some k" "i = Suc k"
      using 1(2) by (auto simp: Index.simps [of s] split: list.splits)
    with 1(1) [OF False s(1)] False show ?thesis by (auto simp: less_Suc_eq_0_disj)
  qed
qed

lemma Index_None: "Index s p = None \<longleftrightarrow> (\<forall>i\<le>length s. \<not> HasPrefix (drop i s) p)"
proof (induction s p rule: Index.induct)
  case (1 s p)
  show ?case
  proof (cases s)
    case Nil
    then show ?thesis by (simp add: Index.simps [of "[]"])
  next
    case (Cons a t)
    have all: "(\<forall>i\<le>length s. \<not> HasPrefix (drop i s) p) \<longleftrightarrow> \<not> HasPrefix s p \<and> (\<forall>i\<le>length t. \<not> HasPrefix (drop i t) p)"
      unfolding Cons by (metis drop0 drop_Suc_Cons le0 length_Cons not_less_eq_eq old.nat.exhaust)
    show ?thesis
    proof (cases "HasPrefix s p")
      case True
      then show ?thesis unfolding all by (simp add: Index.simps [of s])
    next
      case False
      with 1 [OF False Cons] show ?thesis unfolding all by (simp add: Index.simps [of "a # t"] Cons)
    qed
  qed
qed

section \<open>Sensitive texts (\<open>main.go\<close>)\<close>

definition field_cut :: "char list" where
  "field_cut = [CHR 0x22, CHR 0x27, CHR 0x60, CHR ''['', CHR '']'', CHR ''{'', CHR ''}'', CHR ''('', CHR '')'', CHR '','', CHR '';'',
     CHR '':'', CHR ''='', CHR ''<'', CHR ''>'']"

definition trimmed_fields :: "string \<Rightarrow> string list" where
  "trimmed_fields text = map (\<lambda>f. TrimSet f field_cut) (Fields text)"

definition database_markers :: "string list" where
  "database_markers = [''sqlite'', ''no such table'', ''no such column'', ''sql logic error'', ''database disk image'',
     ''quick_check'', ''.db-wal'', ''.db-shm'', ''.db:'']"

definition is_letter :: "char \<Rightarrow> bool" where
  "is_letter c \<longleftrightarrow> CHR ''A'' \<le> c \<and> c \<le> CHR ''Z'' \<or> CHR ''a'' \<le> c \<and> c \<le> CHR ''z''"

definition path_field :: "string \<Rightarrow> bool" where
  "path_field f \<longleftrightarrow>
     HasPrefix f [CHR 0x5C, CHR 0x5C] \<or> HasPrefix f ''file://''
   \<or> 3 \<le> length f \<and> is_letter (f ! 0) \<and> f ! 1 = CHR '':'' \<and> (f ! 2 = CHR 0x5C \<or> f ! 2 = CHR ''/'')
   \<or> HasPrefix f ''/'' \<and> \<not> HasPrefix f ''//''"

definition containsSensitiveDiagnosticDetails :: "string \<Rightarrow> string \<Rightarrow> bool" where
  "containsSensitiveDiagnosticDetails text lower \<longleftrightarrow>
     list_ex (Contains lower) database_markers \<or> list_ex path_field (trimmed_fields text)"

definition isAuthorizationTokenByte :: "char \<Rightarrow> bool" where
  "isAuthorizationTokenByte c \<longleftrightarrow> CHR ''a'' \<le> c \<and> c \<le> CHR ''z'' \<or> CHR ''0'' \<le> c \<and> c \<le> CHR ''9'' \<or> c = CHR ''-'' \<or> c = CHR ''_''"

text \<open>A name stands free at an offset when no token byte precedes it and a delimiter follows it.\<close>

definition free_at :: "string \<Rightarrow> string \<Rightarrow> nat \<Rightarrow> bool" where
  "free_at lower name start \<longleftrightarrow>
     (start = 0 \<or> \<not> isAuthorizationTokenByte (lower ! (start - 1)))
     \<and> start + length name < length lower
     \<and> lower ! (start + length name) \<in> {CHR '':'', CHR ''='', CHR '' '', CHR 0x09, CHR 0x0D, CHR 0x0A}"

text \<open>The inner loop of \<open>containsAuthorizationHeader\<close>, from one occurrence of the name to the next.\<close>

function header_scan :: "string \<Rightarrow> string \<Rightarrow> nat \<Rightarrow> bool" where
  "header_scan lower name offset =
     (if length lower \<le> offset then False
      else case Index (drop offset lower) name of
             None \<Rightarrow> False
           | Some relative \<Rightarrow> free_at lower name (offset + relative) \<or> header_scan lower name (offset + relative + 1))"
  by pat_completeness auto

termination
  by (relation "measure (\<lambda>(lower, name, offset). length lower - offset)") auto

declare header_scan.simps [simp del]

definition containsAuthorizationHeader :: "string \<Rightarrow> bool" where
  "containsAuthorizationHeader lower \<longleftrightarrow> list_ex (\<lambda>name. header_scan lower name 0) [''authorization'', ''proxy-authorization'']"

definition secret_markers :: "string list" where
  "secret_markers = [''bearer '', ''authorization:'', ''authorization='', ''proxy-authorization:'', ''access_token'', ''access-token'',
     ''refresh_token'', ''refresh-token'', ''id_token'', ''id-token'', ''api_key'', ''api-key'', ''apikey'', ''x-api-key'']"

definition looksLikeCredentialToken :: "string \<Rightarrow> bool" where
  "looksLikeCredentialToken value \<longleftrightarrow> credentialShapedValue value \<noteq> None"

definition sanitizeTriggerError :: "string \<Rightarrow> string" where
  "sanitizeTriggerError value =
     (let text = TrimSpace value; lower = ToLower text
      in if text = [] \<or> text = ''{}'' \<or> text = ''[]'' then []
         else if containsSensitiveDiagnosticDetails text lower then ''trigger failed''
         else if containsAuthorizationHeader lower then ''trigger failed''
         else if list_ex (Contains lower) secret_markers then ''trigger failed''
         else if list_ex looksLikeCredentialToken (trimmed_fields text) then ''trigger failed''
         else take 220 text)"

section \<open>What the redaction finds\<close>

lemma from_next: "(\<exists>i\<ge>n. P i) \<longleftrightarrow> P n \<or> (\<exists>i\<ge>n + 1. P i)" for n :: nat
  by (metis Suc_eq_plus1 Suc_leD le_refl not_less_eq_eq verit_la_disequality)

lemma header_scan_iff:
  assumes "name \<noteq> []"
  shows "header_scan lower name offset \<longleftrightarrow> (\<exists>i\<ge>offset. HasPrefix (drop i lower) name \<and> free_at lower name i)"
proof (induction lower name offset rule: header_scan.induct)
  case (1 lower name offset)
  show ?case
  proof (cases "length lower \<le> offset")
    case True
    then have "\<not> free_at lower name i" if "offset \<le> i" for i using that by (simp add: free_at_def)
    with True show ?thesis by (auto simp: header_scan.simps [of lower])
  next
    case inside: False
    show ?thesis
    proof (cases "Index (drop offset lower) name")
      case None
      have "\<not> (HasPrefix (drop i lower) name \<and> free_at lower name i)" if "offset \<le> i" for i
      proof (cases "i \<le> length lower")
        case True
        with that have "i - offset \<le> length (drop offset lower)" "drop (i - offset) (drop offset lower) = drop i lower" by simp_all
        then show ?thesis using None unfolding Index_None by metis
      next
        case False
        then show ?thesis by (simp add: free_at_def)
      qed
      with None inside show ?thesis by (auto simp: header_scan.simps [of lower])
    next
      case (Some k)
      note k = Index_Some [OF Some]
      have earlier: "\<not> HasPrefix (drop i lower) name" if "offset \<le> i" "i < offset + k" for i
      proof -
        have "drop i lower = drop (i - offset) (drop offset lower)" "i - offset < k" using that by simp_all
        with k show ?thesis by simp
      qed
      have here: "HasPrefix (drop (offset + k) lower) name" using k by (simp add: add.commute)
      have "header_scan lower name offset \<longleftrightarrow> free_at lower name (offset + k) \<or> header_scan lower name (offset + k + 1)"
        using inside Some by (simp add: header_scan.simps [of lower name offset])
      also have "\<dots> \<longleftrightarrow> (\<exists>i\<ge>offset + k. HasPrefix (drop i lower) name \<and> free_at lower name i)"
        unfolding 1 [OF inside Some] using here from_next [of "offset + k" "\<lambda>i. HasPrefix (drop i lower) name \<and> free_at lower name i"]
        by blast
      also have "\<dots> \<longleftrightarrow> (\<exists>i\<ge>offset. HasPrefix (drop i lower) name \<and> free_at lower name i)"
        using earlier by (meson le_add1 le_trans not_le)
      finally show ?thesis .
    qed
  qed
qed

lemma Contains_take: "Contains (take n s) p \<Longrightarrow> Contains s p"
  by (metis Contains_iff append.assoc append_take_drop_id)

lemma header_take:
  assumes "containsAuthorizationHeader (take n lower)"
  shows "containsAuthorizationHeader lower"
proof -
  have "header_scan lower name 0" if "header_scan (take n lower) name 0" "name \<noteq> []" for name
  proof -
    note h = that
    from h(1) obtain i where i: "HasPrefix (drop i (take n lower)) name" "free_at (take n lower) name i"
      unfolding header_scan_iff [OF h(2)] by blast
    then have bound: "i + length name < n" "i + length name < length lower" by (simp_all add: free_at_def)
    then have "HasPrefix (drop i lower) name" using i(1) by (auto simp: HasPrefix_def drop_take)
    moreover have "free_at lower name i" using i(2) bound by (auto simp: free_at_def)
    ultimately show ?thesis unfolding header_scan_iff [OF h(2)] by blast
  qed
  with assms show ?thesis by (auto simp: containsAuthorizationHeader_def)
qed

section \<open>Properties\<close>

text \<open>C34: A stored error text gives no secret away. Whatever text is redacted, the result is empty, the fixed phrase, or
  at most 220 bytes off the front of the text; in that case the text has no field that is shaped like a
  credential or a path, and the result holds no marker of a secret or of the database and no
  authorization header.\<close>

theorem sanitized_hides_secrets:
  "sanitizeTriggerError value \<in> {[], ''trigger failed''}
 \<or> (\<exists>rest. TrimSpace value = sanitizeTriggerError value @ rest) \<and> length (sanitizeTriggerError value) \<le> 220
   \<and> \<not> list_ex (\<lambda>f. looksLikeCredentialToken f \<or> path_field f) (trimmed_fields (TrimSpace value))
   \<and> \<not> list_ex (Contains (ToLower (sanitizeTriggerError value))) (secret_markers @ database_markers)
   \<and> \<not> containsAuthorizationHeader (ToLower (sanitizeTriggerError value))"
proof (cases "sanitizeTriggerError value \<in> {[], ''trigger failed''}")
  case False
  let ?text = "TrimSpace value"
  from False have ok: "sanitizeTriggerError value = take 220 ?text" "\<not> containsSensitiveDiagnosticDetails ?text (ToLower ?text)"
      "\<not> containsAuthorizationHeader (ToLower ?text)" "\<not> list_ex (Contains (ToLower ?text)) secret_markers"
      "\<not> list_ex looksLikeCredentialToken (trimmed_fields ?text)"
    unfolding sanitizeTriggerError_def Let_def by (simp_all split: if_splits)
  have "\<exists>rest. ?text = take 220 ?text @ rest" by (metis append_take_drop_id)
  moreover have "\<not> list_ex (\<lambda>f. looksLikeCredentialToken f \<or> path_field f) (trimmed_fields ?text)"
      "\<not> list_ex (Contains (ToLower (take 220 ?text))) (secret_markers @ database_markers)"
    using ok by (auto simp: containsSensitiveDiagnosticDetails_def list_ex_iff ToLower_take dest: Contains_take)
  moreover have "\<not> containsAuthorizationHeader (ToLower (take 220 ?text))"
    using ok(3) header_take unfolding ToLower_take by blast
  ultimately show ?thesis unfolding ok(1) by simp
qed simp

end
