(* ===== verification/Privacy.thy ===== *)
theory Privacy
  imports Redact Usage_Record "HOL-Library.List_Lexorder" "HOL-Library.Product_Lexorder"
begin

text \<open>
  The privacy-safe form of credentials and identities (\<open>privacy.go\<close>): keyed fingerprints of API keys, the
  replacement of keys inside stored identities, and the columns of a usage record or of a scheduler identity as they are
  stored. The lemmas: fingerprints are read back; nothing that is shaped like a credential is stored, and without the secret
  nothing is stored at all; what is stored for an explicit key is an alias of the candidates that carry it.
\<close>

section \<open>Fingerprints\<close>

text \<open>
  \<open>ke_secret\<close> is what \<open>loadOrCreateAPIKeySecret\<close> gives for the database, \<open>ke_mac secret m\<close> the first 16 bytes of the
  HMAC-SHA256 in hexadecimal, \<open>ke_sha m\<close> those of the SHA-256.
\<close>

record key_env =
  ke_secret :: "(string, string) result"
  ke_mac :: "string \<Rightarrow> string \<Rightarrow> string"
  ke_sha :: "string \<Rightarrow> string"

definition fingerprintRawAPIKeyWithSecret :: "key_env \<Rightarrow> string \<Rightarrow> string \<Rightarrow> string" where
  "fingerprintRawAPIKeyWithSecret ke secret value =
     (let raw = normalizeRawAPIKey value
      in if raw = [] then [] else ''keyfp:v1:'' @ ke_mac ke secret raw @ '':'' @ safeKeyLast4 raw)"

definition legacyV0Fingerprint :: "key_env \<Rightarrow> string \<Rightarrow> string" where
  "legacyV0Fingerprint ke value =
     (let raw = normalizeRawAPIKey value
      in if raw = [] then [] else ''keyfp:v0:'' @ ke_sha ke raw @ '':'' @ safeKeyLast4 raw)"

definition fingerprintLegacyV0WithSecret :: "key_env \<Rightarrow> string \<Rightarrow> string \<Rightarrow> string \<Rightarrow> string" where
  "fingerprintLegacyV0WithSecret ke secret legacy hint =
     ''keyfp:v1:'' @ ke_mac ke secret (''legacy-v0:'' @ ToLower (TrimSpace legacy)) @ '':'' @ hint"

definition secretUnavailable :: "string \<Rightarrow> string" where
  "secretUnavailable err = ''API key fingerprint secret unavailable: '' @ err"

definition privacySafeAPIKeyWithError :: "key_env \<Rightarrow> string \<Rightarrow> (string, string) result" where
  "privacySafeAPIKeyWithError ke value =
     (let raw = normalizeRawAPIKey value
      in if raw = [] then Inr []
         else case ke_secret ke of
                Inl err \<Rightarrow> Inl (secretUnavailable err)
              | Inr secret \<Rightarrow>
                  if secret = [] then Inl (secretUnavailable ''API key fingerprint secret is empty'')
                  else case parseAPIKeyFingerprint raw of
                         Some (version, _, hint) \<Rightarrow>
                           if version = ''v0'' then Inr (fingerprintLegacyV0WithSecret ke secret raw hint)
                           else Inr (fingerprintRawAPIKeyWithSecret ke secret raw)
                       | None \<Rightarrow> Inr (fingerprintRawAPIKeyWithSecret ke secret raw))"

definition privacySafeAPIKey :: "key_env \<Rightarrow> string \<Rightarrow> string" where
  "privacySafeAPIKey ke value = (case privacySafeAPIKeyWithError ke value of Inl _ \<Rightarrow> [] | Inr f \<Rightarrow> f)"

section \<open>Keys inside stored identities\<close>

text \<open>\<open>strings.ReplaceAll\<close> with a text to replace that is not empty; the code calls it with no other.\<close>

function ReplaceAll :: "string \<Rightarrow> string \<Rightarrow> string \<Rightarrow> string" where
  "ReplaceAll s old new =
     (if old = [] then s
      else case Index s old of None \<Rightarrow> s | Some i \<Rightarrow> take i s @ new @ ReplaceAll (drop (i + length old) s) old new)"
  by pat_completeness auto

termination
proof (relation "measure (\<lambda>(s, _). length s)")
  show "((drop (i + length old) s, old, new), (s, old, new)) \<in> measure (\<lambda>(s, _). length s)"
    if "old \<noteq> []" "Index s old = Some i" for s old new i
  proof -
    have "0 < length old" "i + length old \<le> length s" using that Index_Some by auto
    then show ?thesis by (simp del: length_greater_0_conv)
  qed
qed simp

declare ReplaceAll.simps [simp del]

definition sanitizeStoredIdentity :: "string \<Rightarrow> string \<Rightarrow> string \<Rightarrow> string" where
  "sanitizeStoredIdentity value rawAPIKey fingerprint =
     (let v = TrimSpace value; raw = normalizeRawAPIKey rawAPIKey
      in if v = [] \<or> raw = [] \<or> fingerprint = [] then v
         else ReplaceAll (ReplaceAll (ReplaceAll v (''Bearer '' @ raw) fingerprint) (''bearer '' @ raw) fingerprint) raw fingerprint)"

definition is_v0 :: "string \<Rightarrow> bool" where
  "is_v0 f \<longleftrightarrow> (case parseAPIKeyFingerprint f of Some (version, _) \<Rightarrow> version = ''v0'' | None \<Rightarrow> False)"

definition fingerprintEncodedLength :: nat where "fingerprintEncodedLength = 9 + 32 + 1 + 4"

text \<open>The loop of \<open>rewriteLegacyV0Fingerprints\<close>, over the part of the value from the offset on.\<close>

function rewrite_v0 :: "(string \<Rightarrow> (string, string) result) \<Rightarrow> string \<Rightarrow> (string, string) result" where
  "rewrite_v0 resolve s =
     (case Index (ToLower s) ''keyfp:v0:'' of
        None \<Rightarrow> Inr s
      | Some start \<Rightarrow>
          if length s < start + fingerprintEncodedLength then Inr s
          else let candidate = take fingerprintEncodedLength (drop start s)
               in if is_v0 candidate
                  then bind_result (resolve candidate) (\<lambda>protected.
                         bind_result (rewrite_v0 resolve (drop (start + fingerprintEncodedLength) s)) (\<lambda>rest.
                           Inr (take start s @ protected @ rest)))
                  else bind_result (rewrite_v0 resolve (drop (start + 9) s)) (\<lambda>rest. Inr (take (start + 9) s @ rest)))"
  by pat_completeness auto

termination
  by (relation "measure (\<lambda>(_, s). length s)") (auto simp: fingerprintEncodedLength_def dest!: Index_Some)

declare rewrite_v0.simps [simp del]

definition rewriteLegacyV0Fingerprints :: "(string \<Rightarrow> (string, string) result) \<Rightarrow> string \<Rightarrow> (string, string) result" where
  "rewriteLegacyV0Fingerprints resolve value =
     (if \<not> Contains (ToLower value) ''keyfp:v0:'' then Inr value else rewrite_v0 resolve value)"

text \<open>Longer keys come first, so that a key inside another one does not break it up.\<close>

definition normalizedConfiguredCredentials :: "string list \<Rightarrow> string list" where
  "normalizedConfiguredCredentials configured =
     sort_key (\<lambda>k. (- int (length k), k))
       (remdups (filter (\<lambda>k. k \<noteq> [] \<and> \<not> isAPIKeyFingerprint k) (map normalizeRawAPIKey configured)))"

definition configuredCredentialWholeValue :: "string \<Rightarrow> string" where
  "configuredCredentialWholeValue value =
     (let v = TrimSpace value
      in if 7 \<le> length v \<and> EqualFold (take 7 v) ''bearer '' then TrimSpace (drop 7 v)
         else if 13 < length v \<and> EqualFold (take 13 v) ''codex:apikey:'' then TrimSpace (drop 13 v)
         else v)"

fun replace_credentials :: "key_env \<Rightarrow> string list \<Rightarrow> string \<Rightarrow> bool \<Rightarrow> (string, string \<times> bool) result" where
  "replace_credentials ke [] value replaced = Inr (value, replaced)"
| "replace_credentials ke (credential # credentials) value replaced =
     (if \<not> Contains value credential then replace_credentials ke credentials value replaced
      else bind_result (privacySafeAPIKeyWithError ke credential) (\<lambda>protected.
             replace_credentials ke credentials (ReplaceAll value credential protected) True))"

definition replaceNormalizedConfiguredCredentials :: "key_env \<Rightarrow> string \<Rightarrow> string list \<Rightarrow> (string, string \<times> bool) result" where
  "replaceNormalizedConfiguredCredentials ke value credentials =
     (if credentials = [] then Inr (value, False)
      else let whole = configuredCredentialWholeValue value
           in if whole \<in> set credentials
              then bind_result (privacySafeAPIKeyWithError ke whole) (\<lambda>protected. Inr (protected, True))
              else replace_credentials ke credentials value False)"

definition replaceConfiguredCredentials :: "key_env \<Rightarrow> string \<Rightarrow> string list \<Rightarrow> (string, string \<times> bool) result" where
  "replaceConfiguredCredentials ke value configured =
     replaceNormalizedConfiguredCredentials ke value (normalizedConfiguredCredentials configured)"

text \<open>The credential a value holds (empty for none), and whether it is the whole value.\<close>

fun configured_inside :: "string list \<Rightarrow> string \<Rightarrow> (string \<times> bool) option" where
  "configured_inside [] value = None"
| "configured_inside (key # configured) value =
     (let raw = normalizeRawAPIKey key
      in if raw = [] then configured_inside configured value
         else if value = raw then Some (raw, True)
         else if Contains value raw then Some (raw, False)
         else configured_inside configured value)"

definition credentialFromStoredIdentity :: "string \<Rightarrow> string list \<Rightarrow> string \<times> bool" where
  "credentialFromStoredIdentity value configured =
     (let v = TrimSpace value
      in if v = [] then ([], False)
         else case parseAPIKeyFingerprint v of
                Some (version, _, _) \<Rightarrow> if version = ''v0'' then (v, True) else ([], False)
              | None \<Rightarrow>
                  if 7 \<le> length v \<and> EqualFold (take 7 v) ''bearer '' \<and> TrimSpace (drop 7 v) \<noteq> [] then (TrimSpace (drop 7 v), True)
                  else if 13 < length v \<and> EqualFold (take 13 v) ''codex:apikey:'' \<and> TrimSpace (drop 13 v) \<noteq> []
                  then (TrimSpace (drop 13 v), True)
                  else case configured_inside configured v of
                         Some found \<Rightarrow> found
                       | None \<Rightarrow>
                           if list_ex (HasPrefix (ToLower v)) credentialPrefixes then (v, True)
                           else if looksLikeOpaqueCredential v then (v, True) else ([], False))"

text \<open>What both variants do once the configured keys are replaced.\<close>

definition protect_remaining :: "key_env \<Rightarrow> string \<times> bool \<Rightarrow> (string, string) result" where
  "protect_remaining ke = (\<lambda>(value, replaced).
     if replaced then Inr (TrimSpace value)
     else let (credential, replaceWhole) = credentialFromStoredIdentity value []
          in if credential = [] then Inr (TrimSpace value)
             else bind_result (privacySafeAPIKeyWithError ke credential) (\<lambda>protected.
                    Inr (if replaceWhole then protected else ReplaceAll value credential protected)))"

definition privacySafeStoredIdentity ::
  "key_env \<Rightarrow> string \<Rightarrow> string \<Rightarrow> string \<Rightarrow> string list \<Rightarrow> (string, string) result" where
  "privacySafeStoredIdentity ke value rawAPIKey fingerprint configured =
     bind_result (rewriteLegacyV0Fingerprints (privacySafeAPIKeyWithError ke) (sanitizeStoredIdentity value rawAPIKey fingerprint))
       (\<lambda>v. bind_result (replaceConfiguredCredentials ke v configured) (protect_remaining ke))"

section \<open>Records as they are stored\<close>

definition privacySafeUsageRecord :: "key_env \<Rightarrow> usageRecord \<Rightarrow> (string, usageRecord) result" where
  "privacySafeUsageRecord ke rec =
     (let rawAPIKey = TrimSpace (ur_APIKey rec)
      in bind_result (privacySafeAPIKeyWithError ke rawAPIKey) (\<lambda>fingerprint.
           let safe = (\<lambda>value. privacySafeStoredIdentity ke value rawAPIKey fingerprint [])
           in bind_result (safe (ur_AuthID rec)) (\<lambda>authID.
              bind_result (safe (ur_AuthIndex rec)) (\<lambda>authIndex.
              bind_result (safe (ur_Source rec)) (\<lambda>source.
              bind_result (safe (ur_AuthFile rec)) (\<lambda>authFile.
                Inr (rec\<lparr>ur_APIKey := fingerprint, ur_AuthID := authID, ur_AuthIndex := authIndex, ur_Source := source,
                         ur_AuthFile := authFile\<rparr>)))))))"

definition privacySafeSchedulerIdentity ::
  "key_env \<Rightarrow> schedulerAuthCandidate \<Rightarrow> string \<times> string \<times> string \<times> string \<Rightarrow> (string, string \<times> string \<times> string \<times> string) result" where
  "privacySafeSchedulerIdentity ke c = (\<lambda>(authID, authIndex, source, authFile).
     let rawAPIKey = schedulerCandidateExplicitAPIKey c
     in bind_result (privacySafeAPIKeyWithError ke rawAPIKey) (\<lambda>fingerprint.
          let safe = (\<lambda>value. privacySafeStoredIdentity ke value rawAPIKey fingerprint [])
          in bind_result (safe authID) (\<lambda>authID'.
             bind_result (safe authIndex) (\<lambda>authIndex'.
             bind_result (safe source) (\<lambda>source'.
             bind_result (safe authFile) (\<lambda>authFile'. Inr (authID', authIndex', source', authFile')))))))"

section \<open>The resolver of the migration\<close>

record legacyFingerprintResolver =
  lr_secret :: string
  lr_configuredKey :: "string list"
  lr_v0ToV1 :: "(string \<times> string) list"

text \<open>\<open>existing\<close> is what \<open>loadExistingAPIKeySecret\<close> gives. Two keys with one v0 fingerprint: the later one wins.\<close>

definition newLegacyFingerprintResolver ::
  "key_env \<Rightarrow> (string, string) result \<Rightarrow> string list \<Rightarrow> (string, legacyFingerprintResolver) result" where
  "newLegacyFingerprintResolver ke existing configured =
     bind_result existing (\<lambda>secret.
       let credentials = normalizedConfiguredCredentials configured
       in Inr \<lparr>lr_secret = secret, lr_configuredKey = credentials,
               lr_v0ToV1 = foldl (\<lambda>m raw. AList.update (ToLower (legacyV0Fingerprint ke raw)) (fingerprintRawAPIKeyWithSecret ke secret raw) m)
                             [] credentials\<rparr>)"

definition resolveV0 :: "legacyFingerprintResolver \<Rightarrow> string \<Rightarrow> string option" where
  "resolveV0 r fingerprint = map_of (lr_v0ToV1 r) (ToLower (TrimSpace fingerprint))"

definition protectV0 :: "key_env \<Rightarrow> legacyFingerprintResolver \<Rightarrow> string \<Rightarrow> (string, string) result" where
  "protectV0 ke r fingerprint =
     (case resolveV0 r fingerprint of
        Some protected \<Rightarrow> Inr protected
      | None \<Rightarrow>
          (case parseAPIKeyFingerprint fingerprint of
             None \<Rightarrow> Inl (''invalid legacy API key fingerprint '' @ [CHR 0x22] @ fingerprint @ [CHR 0x22])
           | Some (_, _, hint) \<Rightarrow> Inr (fingerprintLegacyV0WithSecret ke (lr_secret r) fingerprint hint)))"

definition privacySafeStoredIdentityForMigration ::
  "key_env \<Rightarrow> legacyFingerprintResolver \<Rightarrow> string \<Rightarrow> string \<Rightarrow> string \<Rightarrow> (string, string) result" where
  "privacySafeStoredIdentityForMigration ke r value rawAPIKey fingerprint =
     bind_result (rewriteLegacyV0Fingerprints (protectV0 ke r) (sanitizeStoredIdentity value rawAPIKey fingerprint))
       (\<lambda>v. bind_result (replaceNormalizedConfiguredCredentials ke v (lr_configuredKey r)) (protect_remaining ke))"

section \<open>Fingerprints are read back\<close>

definition digest_ok :: "string \<Rightarrow> bool" where
  "digest_ok d \<longleftrightarrow> length d = 32 \<and> list_all is_hex d \<and> ToLower d = d"

definition is_v1 :: "string \<Rightarrow> bool" where
  "is_v1 f \<longleftrightarrow> (case parseAPIKeyFingerprint f of Some (version, _) \<Rightarrow> version = ''v1'' | None \<Rightarrow> False)"

lemma visible_not_leads: "char_between 33 126 a \<Longrightarrow> \<not> leads True (a # s)"
  by (cases s; cases "tl s")
    (auto simp: char_between_def ascii_space_def sp2_def sp3_def space2_def space3_def leads.simps)

lemma hex_not_colon: "is_hex c \<Longrightarrow> c \<noteq> CHR '':''"
  by (auto simp: is_hex_def is_digit_def char_between_def)

lemma alnum_visible: "is_alnum c \<Longrightarrow> char_between 33 126 c \<and> c \<noteq> CHR '':''"
  by (auto simp: is_alnum_def is_digit_def char_between_def)

lemma safeKeyLast4_valid: "validAPIKeyFingerprintSuffix (safeKeyLast4 v)"
proof -
  let ?v = "normalizeRawAPIKey v"
  have "list_all is_alnum (drop (length ?v - 4) ?v) \<Longrightarrow> 4 \<le> length ?v \<Longrightarrow> ?thesis"
    using alnum_visible by (auto simp: safeKeyLast4_def validAPIKeyFingerprintSuffix_def Let_def list_all_iff)
  moreover have "validAPIKeyFingerprintSuffix ''----''" by code_simp
  ultimately show ?thesis by (auto simp: safeKeyLast4_def Let_def not_less)
qed

lemma fingerprint_split:
  assumes "v = ''v0'' \<or> v = ''v1''" "digest_ok d" "validAPIKeyFingerprintSuffix h"
  shows "Split (''keyfp:'' @ v @ '':'' @ d @ '':'' @ h) (CHR '':'') = [''keyfp'', v, d, h]"
proof -
  have "CHR '':'' \<notin> set d" "CHR '':'' \<notin> set h"
    using assms(2,3) hex_not_colon by (auto simp: digest_ok_def validAPIKeyFingerprintSuffix_def list_all_iff)
  then have "Split (d @ CHR '':'' # h) (CHR '':'') = [d, h]" by (simp add: Split_append Split_no_sep)
  with assms(1) show ?thesis by auto
qed

lemma fingerprint_trim:
  assumes "validAPIKeyFingerprintSuffix h"
  shows "TrimSpace (CHR ''k'' # s @ h) = CHR ''k'' # s @ h"
proof (rule TrimSpace_id)
  show "\<not> leads False (CHR ''k'' # s @ h)"
    by (cases "s @ h"; cases "tl (s @ h)") (auto simp: leads.simps ascii_space_def sp2_def sp3_def space2_def space3_def)
  from assms have "h \<noteq> []" by (auto simp: validAPIKeyFingerprintSuffix_def)
  then obtain h' c where "h = h' @ [c]" by (metis rev_exhaust)
  with assms show "\<not> leads True (rev (CHR ''k'' # s @ h))"
    using visible_not_leads by (simp add: validAPIKeyFingerprintSuffix_def)
qed

lemma parse_fingerprint:
  assumes "v = ''v0'' \<or> v = ''v1''" "digest_ok d" "validAPIKeyFingerprintSuffix h"
  shows "parseAPIKeyFingerprint (''keyfp:'' @ v @ '':'' @ d @ '':'' @ h) = Some (v, d, h)"
proof -
  have "TrimSpace (''keyfp:'' @ v @ '':'' @ d @ '':'' @ h) = ''keyfp:'' @ v @ '':'' @ d @ '':'' @ h"
    using fingerprint_trim [OF assms(3), of "''eyfp:'' @ v @ '':'' @ d @ '':''"] by simp
  moreover have "EqualFold ''keyfp'' ''keyfp''" by (simp add: EqualFold_def)
  ultimately show ?thesis
    using assms fingerprint_split [OF assms] by (simp add: parseAPIKeyFingerprint_def digest_ok_def del: append_Cons)
qed

lemmas parse_v1 = parse_fingerprint [where v = "''v1''", simplified] and parse_v0 = parse_fingerprint [where v = "''v0''", simplified]

lemma v1_fingerprint:
  "\<forall>k m. digest_ok (ke_mac ke k m) \<Longrightarrow> normalizeRawAPIKey raw \<noteq> [] \<Longrightarrow>
   parseAPIKeyFingerprint (fingerprintRawAPIKeyWithSecret ke secret raw)
     = Some (''v1'', ke_mac ke secret (normalizeRawAPIKey raw), safeKeyLast4 (normalizeRawAPIKey raw))"
  using parse_v1 [of "ke_mac ke secret (normalizeRawAPIKey raw)" "safeKeyLast4 (normalizeRawAPIKey raw)"] safeKeyLast4_valid
  by (simp add: fingerprintRawAPIKeyWithSecret_def Let_def)

lemma parsed_hint: "parseAPIKeyFingerprint f = Some (v, d, h) \<Longrightarrow> validAPIKeyFingerprintSuffix h"
  by (auto simp: parseAPIKeyFingerprint_def split: list.splits if_splits)

lemma legacy_fingerprint:
  "\<forall>k m. digest_ok (ke_mac ke k m) \<Longrightarrow> validAPIKeyFingerprintSuffix h \<Longrightarrow>
   parseAPIKeyFingerprint (fingerprintLegacyV0WithSecret ke secret legacy h)
     = Some (''v1'', ke_mac ke secret (''legacy-v0:'' @ ToLower (TrimSpace legacy)), h)"
  using parse_v1 [of "ke_mac ke secret (''legacy-v0:'' @ ToLower (TrimSpace legacy))" h]
  by (simp add: fingerprintLegacyV0WithSecret_def)

lemma protected_key:
  assumes "\<forall>k m. digest_ok (ke_mac ke k m)" "privacySafeAPIKeyWithError ke value = Inr f"
  shows "f = [] \<or> is_v1 f"
proof (cases "normalizeRawAPIKey value = []")
  case True
  with assms(2) show ?thesis by (simp add: privacySafeAPIKeyWithError_def)
next
  case False
  let ?raw = "normalizeRawAPIKey value"
  obtain secret where "ke_secret ke = Inr secret" "secret \<noteq> []"
    using assms(2) False by (auto simp: privacySafeAPIKeyWithError_def Let_def split: sum.splits if_splits)
  with assms(2) False have "f = fingerprintRawAPIKeyWithSecret ke secret ?raw
      \<or> (\<exists>v d h. parseAPIKeyFingerprint ?raw = Some (v, d, h) \<and> f = fingerprintLegacyV0WithSecret ke secret ?raw h)"
    by (auto simp: privacySafeAPIKeyWithError_def Let_def split: if_splits option.splits)
  then show ?thesis
  proof
    assume f: "f = fingerprintRawAPIKeyWithSecret ke secret ?raw"
    then show ?thesis using v1_fingerprint [OF assms(1), of ?raw secret]
      by (cases "normalizeRawAPIKey ?raw = []") (simp_all add: is_v1_def fingerprintRawAPIKeyWithSecret_def)
  next
    assume "\<exists>v d h. parseAPIKeyFingerprint ?raw = Some (v, d, h) \<and> f = fingerprintLegacyV0WithSecret ke secret ?raw h"
    then show ?thesis using legacy_fingerprint [OF assms(1) parsed_hint] by (auto simp: is_v1_def)
  qed
qed

text \<open>Everything but a missing secret goes through.\<close>

definition secret_present :: "key_env \<Rightarrow> bool" where
  "secret_present ke \<longleftrightarrow> (case ke_secret ke of Inl _ \<Rightarrow> False | Inr secret \<Rightarrow> secret \<noteq> [])"

lemma key_present: "secret_present ke \<Longrightarrow> \<exists>f. privacySafeAPIKeyWithError ke value = Inr f"
  by (auto simp: secret_present_def privacySafeAPIKeyWithError_def Let_def split: sum.splits option.splits)

lemma key_missing: "\<not> secret_present ke \<Longrightarrow> normalizeRawAPIKey value \<noteq> [] \<Longrightarrow> \<exists>err. privacySafeAPIKeyWithError ke value = Inl err"
  by (auto simp: secret_present_def privacySafeAPIKeyWithError_def Let_def split: sum.splits)

lemma rewrite_present: "(\<And>l. \<exists>f. resolve l = Inr f) \<Longrightarrow> \<exists>v. rewrite_v0 resolve s = Inr v"
proof (induction resolve s rule: rewrite_v0.induct)
  case (1 resolve s)
  show ?case
  proof (cases "Index (ToLower s) ''keyfp:v0:''")
    case None
    then show ?thesis by (simp add: rewrite_v0.simps [of _ s])
  next
    case (Some start)
    let ?candidate = "take fingerprintEncodedLength (drop start s)"
    consider "length s < start + fingerprintEncodedLength" | "\<not> length s < start + fingerprintEncodedLength" "is_v0 ?candidate"
      | "\<not> length s < start + fingerprintEncodedLength" "\<not> is_v0 ?candidate" by blast
    then show ?thesis
    proof cases
      case 2
      obtain f where "resolve ?candidate = Inr f" using 1(3) by blast
      moreover obtain v where "rewrite_v0 resolve (drop (start + fingerprintEncodedLength) s) = Inr v"
        using 1(1) [OF Some 2(1) refl 2(2)] 1(3) calculation by blast
      ultimately show ?thesis using Some 2 by (simp add: rewrite_v0.simps [of _ s])
    next
      case 3
      obtain v where "rewrite_v0 resolve (drop (start + 9) s) = Inr v" using 1(2) [OF Some 3(1) refl 3(2)] 1(3) by blast
      with Some 3 show ?thesis by (simp add: rewrite_v0.simps [of _ s])
    qed (use Some in \<open>simp add: rewrite_v0.simps [of _ s]\<close>)
  qed
qed

lemma no_configured [simp]: "replaceConfiguredCredentials ke v [] = Inr (v, False)"
  by (simp add: replaceConfiguredCredentials_def normalizedConfiguredCredentials_def replaceNormalizedConfiguredCredentials_def)

lemma credential_whole: "credentialFromStoredIdentity v [] = (credential, whole) \<Longrightarrow> credential \<noteq> [] \<Longrightarrow> whole"
  by (auto simp: credentialFromStoredIdentity_def Let_def split: if_splits option.splits)

text \<open>A value without a credential is not shaped like one; a fingerprint of the current version is none.\<close>

lemma no_credential_shape:
  assumes "fst (credentialFromStoredIdentity v []) = []"
  shows "credentialShapedValue (TrimSpace v) = None \<or> is_v1 (TrimSpace v)"
proof -
  let ?v = "TrimSpace v"
  consider "?v = []" | "isAPIKeyFingerprint ?v" | "?v \<noteq> []" "\<not> isAPIKeyFingerprint ?v" by blast
  then show ?thesis
  proof cases
    case 1
    then show ?thesis by (simp add: credentialShapedValue_def)
  next
    case 2
    then obtain version d h where p: "parseAPIKeyFingerprint ?v = Some (version, d, h)"
      by (auto simp: isAPIKeyFingerprint_def)
    then have "?v \<noteq> []" by (auto simp: parseAPIKeyFingerprint_def)
    with p assms have "version \<noteq> ''v0''" by (auto simp: credentialFromStoredIdentity_def)
    moreover from p have "version = ''v0'' \<or> version = ''v1''"
      by (auto simp: parseAPIKeyFingerprint_def split: list.splits if_splits)
    ultimately show ?thesis using p by (simp add: is_v1_def)
  next
    case 3
    let ?bearer = "7 \<le> length ?v \<and> EqualFold (take 7 ?v) ''bearer '' \<and> TrimSpace (drop 7 ?v) \<noteq> []"
    let ?codex = "13 < length ?v \<and> EqualFold (take 13 ?v) ''codex:apikey:'' \<and> TrimSpace (drop 13 ?v) \<noteq> []"
    have none: "parseAPIKeyFingerprint ?v = None" using 3(2) unfolding isAPIKeyFingerprint_def by blast
    have shape: "\<not> ?bearer" "\<not> ?codex" "\<not> list_ex (HasPrefix (ToLower ?v)) credentialPrefixes" "\<not> looksLikeOpaqueCredential ?v"
      using assms 3 none by (auto simp: credentialFromStoredIdentity_def Let_def split: if_splits)
    have codex: "TrimSpace (drop 13 ?v) = []" if "HasPrefix (ToLower ?v) ''codex:apikey:''"
    proof -
      have "take 13 (ToLower ?v) = ''codex:apikey:''" using that by (simp add: HasPrefix_def eval_nat_numeral)
      moreover have "ToLower ''codex:apikey:'' = ''codex:apikey:''" by code_simp
      ultimately show ?thesis using shape(2) by (cases "13 < length ?v") (simp_all add: EqualFold_def ToLower_take)
    qed
    have "\<not> looksLikeOpaqueCredential []" "\<not> list_ex (HasPrefix (ToLower [])) credentialPrefixes" by code_simp+
    with shape codex 3 show ?thesis by (auto simp: credentialShapedValue_def Let_def)
  qed
qed

definition stored_safe :: "string \<Rightarrow> bool" where
  "stored_safe f \<longleftrightarrow> credentialShapedValue f = None \<or> is_v1 f"

lemma stored_safe_Nil [simp]: "stored_safe []"
  by (simp add: stored_safe_def credentialShapedValue_def)

lemma stored_identity_safe:
  assumes "\<forall>k m. digest_ok (ke_mac ke k m)" "privacySafeStoredIdentity ke value raw fingerprint [] = Inr stored"
  shows "stored_safe stored"
proof -
  from assms(2) obtain v where v: "protect_remaining ke (v, False) = Inr stored"
    by (auto simp: privacySafeStoredIdentity_def)
  obtain credential whole where c: "credentialFromStoredIdentity v [] = (credential, whole)" by fastforce
  show ?thesis
  proof (cases "credential = []")
    case True
    with v c have "stored = TrimSpace v" by (simp add: protect_remaining_def)
    with True c no_credential_shape [of v] show ?thesis by (simp add: stored_safe_def)
  next
    case False
    with credential_whole [OF c] v c have "privacySafeAPIKeyWithError ke credential = Inr stored"
      by (simp add: protect_remaining_def)
    from protected_key [OF assms(1) this] show ?thesis by (elim disjE) (simp, simp add: stored_safe_def)
  qed
qed

lemma usage_record_safe:
  assumes "\<forall>k m. digest_ok (ke_mac ke k m)" "privacySafeUsageRecord ke rec = Inr stored"
  shows "(ur_APIKey stored = [] \<or> is_v1 (ur_APIKey stored))
     \<and> list_all stored_safe [ur_AuthID stored, ur_AuthIndex stored, ur_Source stored, ur_AuthFile stored]"
proof -
  from assms(2) obtain f a b c d where f: "privacySafeAPIKeyWithError ke (TrimSpace (ur_APIKey rec)) = Inr f"
      and cols: "privacySafeStoredIdentity ke (ur_AuthID rec) (TrimSpace (ur_APIKey rec)) f [] = Inr a"
        "privacySafeStoredIdentity ke (ur_AuthIndex rec) (TrimSpace (ur_APIKey rec)) f [] = Inr b"
        "privacySafeStoredIdentity ke (ur_Source rec) (TrimSpace (ur_APIKey rec)) f [] = Inr c"
        "privacySafeStoredIdentity ke (ur_AuthFile rec) (TrimSpace (ur_APIKey rec)) f [] = Inr d"
      and stored: "stored = rec\<lparr>ur_APIKey := f, ur_AuthID := a, ur_AuthIndex := b, ur_Source := c, ur_AuthFile := d\<rparr>"
    by (auto simp: privacySafeUsageRecord_def Let_def)
  then show ?thesis using protected_key [OF assms(1) f] cols [THEN stored_identity_safe [OF assms(1)]] by simp
qed

lemma stored_identity_total:
  assumes "secret_present ke"
  shows "\<exists>stored. privacySafeStoredIdentity ke value raw fingerprint [] = Inr stored"
proof -
  obtain v where v: "rewriteLegacyV0Fingerprints (privacySafeAPIKeyWithError ke) (sanitizeStoredIdentity value raw fingerprint) = Inr v"
    using rewrite_present [of "privacySafeAPIKeyWithError ke"] key_present [OF assms] unfolding rewriteLegacyV0Fingerprints_def by metis
  obtain credential whole where c: "credentialFromStoredIdentity v [] = (credential, whole)" by fastforce
  obtain f where "privacySafeAPIKeyWithError ke credential = Inr f" using key_present [OF assms] by blast
  with v c show ?thesis by (simp add: privacySafeStoredIdentity_def protect_remaining_def)
qed

section \<open>What is stored for an explicit key\<close>

lemma Index_longer: "length s < length p \<Longrightarrow> Index s p = None"
  using Index_Some by (cases "Index s p") fastforce+

lemma ReplaceAll_none [simp]: "Index s p = None \<Longrightarrow> ReplaceAll s p new = s"
  by (simp add: ReplaceAll.simps [of s])

lemma ReplaceAll_whole: "s \<noteq> [] \<Longrightarrow> ReplaceAll s s new = new"
  by (simp add: ReplaceAll.simps [of s s] Index.simps [of s] HasPrefix_def ReplaceAll.simps [of "[]"] Index.simps [of "[]"])

lemma visible_lower: "char_between 33 126 c \<and> c \<noteq> CHR '':'' \<Longrightarrow> char_between 33 126 (lower_char c) \<and> lower_char c \<noteq> CHR '':''"
proof (cases "65 \<le> (of_char c :: nat) \<and> (of_char c :: nat) \<le> 90")
  case True
  then have "of_char (lower_char c) = (of_char c :: nat) + 32" by (simp add: lower_char_def)
  with True show ?thesis by (auto simp: char_between_def)
next
  case False
  moreover assume "char_between 33 126 c \<and> c \<noteq> CHR '':''"
  moreover have "lower_char c = c" using False unfolding lower_char_def by argo
  ultimately show ?thesis by simp
qed

lemma fingerprint_no_v0:
  assumes "digest_ok d" "validAPIKeyFingerprintSuffix h"
  shows "\<not> Contains (ToLower (''keyfp:v1:'' @ d @ '':'' @ h)) ''keyfp:v0:''"
proof
  let ?f = "''keyfp:'' @ ''v1'' @ '':'' @ d @ '':'' @ ToLower h"
  have lower: "ToLower (''keyfp:v1:'' @ d @ '':'' @ h) = ?f"
    using assms(1) by (simp add: digest_ok_def ToLower_def lower_char_def)
  have valid: "validAPIKeyFingerprintSuffix (ToLower h)"
    using assms(2) visible_lower by (simp add: validAPIKeyFingerprintSuffix_def ToLower_def list_all_iff)
  assume "Contains (ToLower (''keyfp:v1:'' @ d @ '':'' @ h)) ''keyfp:v0:''"
  then obtain u w where "?f = (u @ ''keyfp'') @ CHR '':'' # (''v0'' @ CHR '':'' # w)" unfolding lower Contains_iff by auto
  then have "Split ?f (CHR '':'') = Split (u @ ''keyfp'') (CHR '':'') @ Split (''v0'' @ CHR '':'' # w) (CHR '':'')"
    by (simp only: Split_join)
  moreover have "Split (''v0'' @ CHR '':'' # w) (CHR '':'') = ''v0'' # Split w (CHR '':'')"
    by (rule Split_append) simp
  ultimately have "''v0'' \<in> set (Split ?f (CHR '':''))" by (simp del: append_Cons)
  then have "''v0'' \<in> {''keyfp'', ''v1'', d, ToLower h}"
    using fingerprint_split [OF _ assms(1) valid, of "''v1''"] by (simp del: append_Cons)
  moreover have "length (ToLower h) = 4" "length d = 32"
    using assms(1) valid by (simp_all add: digest_ok_def validAPIKeyFingerprintSuffix_def del: length_ToLower)
  then have "ToLower h \<noteq> ''v0''" "d \<noteq> ''v0''" by (auto simp del: length_ToLower)
  ultimately show False by simp
qed

text \<open>A fingerprint is stored as it is.\<close>

lemma stored_fingerprint:
  assumes "digest_ok d" "validAPIKeyFingerprintSuffix h"
  defines "f \<equiv> ''keyfp:v1:'' @ d @ '':'' @ h"
  shows "bind_result (rewriteLegacyV0Fingerprints resolve f) (\<lambda>v. bind_result (replaceConfiguredCredentials ke v []) (protect_remaining ke)) = Inr f"
proof -
  have "rewriteLegacyV0Fingerprints resolve f = Inr f"
    using fingerprint_no_v0 [OF assms(1,2)] unfolding f_def rewriteLegacyV0Fingerprints_def by (simp del: append_Cons)
  moreover have "TrimSpace f = f" unfolding f_def using fingerprint_trim [OF assms(2), of "''eyfp:v1:'' @ d @ '':''"] by simp
  moreover have "parseAPIKeyFingerprint f = Some (''v1'', d, h)"
    using parse_v1 [OF assms(1,2)] unfolding f_def by simp
  ultimately show ?thesis
    by (simp add: protect_remaining_def credentialFromStoredIdentity_def Let_def)
qed

lemma normalizeRawAPIKey_trim [simp]: "TrimSpace (normalizeRawAPIKey v) = normalizeRawAPIKey v"
  by (simp add: normalizeRawAPIKey_def Let_def)

lemma raw_key_fingerprint:
  assumes "privacySafeAPIKeyWithError ke raw = Inr f" "normalizeRawAPIKey raw = raw" "raw \<noteq> []" "\<not> isAPIKeyFingerprint raw"
  obtains secret where "f = fingerprintRawAPIKeyWithSecret ke secret raw"
proof -
  have "parseAPIKeyFingerprint raw = None" using assms(4) unfolding isAPIKeyFingerprint_def by blast
  with assms(1-3) that show thesis by (auto simp: privacySafeAPIKeyWithError_def split: sum.splits if_splits)
qed

lemma stored_raw_key:
  assumes "\<forall>k m. digest_ok (ke_mac ke k m)" "normalizeRawAPIKey raw = raw" "raw \<noteq> []" "\<not> isAPIKeyFingerprint raw"
    and "privacySafeAPIKeyWithError ke raw = Inr f"
  shows "privacySafeStoredIdentity ke raw raw f [] = Inr f"
proof -
  obtain secret where f: "f = fingerprintRawAPIKeyWithSecret ke secret raw"
    using raw_key_fingerprint [OF assms(5,2-4)] .
  then have shape: "f = ''keyfp:v1:'' @ ke_mac ke secret raw @ '':'' @ safeKeyLast4 raw"
    using assms(2,3) by (simp add: fingerprintRawAPIKeyWithSecret_def)
  have trim: "TrimSpace raw = raw" using assms(2) normalizeRawAPIKey_trim by metis
  have "sanitizeStoredIdentity raw raw f = f"
    using trim assms(2,3) shape by (simp add: sanitizeStoredIdentity_def Index_longer ReplaceAll_whole)
  then show ?thesis
    using stored_fingerprint [of "ke_mac ke secret raw" "safeKeyLast4 raw" "privacySafeAPIKeyWithError ke" ke] assms(1) safeKeyLast4_valid
    unfolding privacySafeStoredIdentity_def shape by (simp del: append_Cons)
qed

section \<open>What is left of a key after it is replaced\<close>

text \<open>
  Replacing a text can bring it back where the new text runs into what surrounds it. The two texts
  overlap when one contains the other or an end of one is the beginning of the other.
\<close>

definition overlaps :: "string \<Rightarrow> string \<Rightarrow> bool" where
  "overlaps old new \<longleftrightarrow> Contains new old \<or> Contains old new
     \<or> list_ex (\<lambda>k. HasSuffix new (take k old) \<or> HasPrefix new (drop k old)) [1..<length old]"

lemma overlaps_ends: "old = p @ q \<Longrightarrow> p \<noteq> [] \<Longrightarrow> q \<noteq> [] \<Longrightarrow> HasSuffix new p \<or> HasPrefix new q \<Longrightarrow> overlaps old new"
  unfolding overlaps_def list_ex_iff by (rule disjI2, rule disjI2, rule bexI [of _ "length p"]) (auto simp: Suc_le_eq)

lemma append_cases:
  assumes "a @ b = c @ d"
  obtains x where "a = c @ x" "x @ b = d" | x where "c = a @ x" "b = x @ d"
  using assms unfolding append_eq_append_conv2 by blast

lemma splice_free:
  assumes "\<not> overlaps old new" "\<not> Contains p old" "\<not> Contains r old"
  shows "\<not> Contains (p @ new @ r) old"
proof
  assume "Contains (p @ new @ r) old"
  then obtain u w where eq: "p @ new @ r = u @ old @ w" by (auto simp: Contains_iff)
  have inside: "\<not> Contains new old" "\<not> Contains old new" using assms(1) by (auto simp: overlaps_def)
  consider (left) us where "p = u @ us" "us @ new @ r = old @ w" | (right) us where "u = p @ us" "new @ r = us @ old @ w"
    using eq by (rule append_cases) blast+
  then show False
  proof cases
    case left
    from left(2) consider (covered) x where "us = old @ x" | (cut) o2 where "old = us @ o2" "new @ r = o2 @ w" "o2 \<noteq> []"
      by (rule append_cases) (metis append_Nil2)+
    then show False
    proof cases
      case covered
      with left(1) assms(2) show False unfolding Contains_iff by auto
    next
      case cut
      from cut(2) consider x where "new = o2 @ x" | y where "o2 = new @ y" by (rule append_cases) blast+
      then show False
      proof cases
        case 1
        then have "us = [] \<Longrightarrow> Contains new old" using cut(1) unfolding Contains_iff by (metis append_Nil)
        moreover have "us \<noteq> [] \<Longrightarrow> overlaps old new"
          using 1 cut(3) by (intro overlaps_ends [OF cut(1)] disjI2) (auto simp: HasPrefix_iff)
        ultimately show False using assms(1) inside by blast
      next
        case 2
        with cut(1) inside(2) show False unfolding Contains_iff by auto
      qed
    qed
  next
    case right
    from right(2) consider (after) us' where "us = new @ us'" "r = us' @ old @ w" | (within) n2 where "new = us @ n2" "n2 @ r = old @ w"
      by (rule append_cases) blast+
    then show False
    proof cases
      case after
      with assms(3) show False unfolding Contains_iff by auto
    next
      case within
      from within(2) consider x where "n2 = old @ x" | o2 where "old = n2 @ o2" "r = o2 @ w"
        by (rule append_cases) blast+
      then show False
      proof cases
        case 1
        with within(1) inside(1) show False unfolding Contains_iff by auto
      next
        case 2
        have "n2 = [] \<Longrightarrow> Contains r old" using 2 unfolding Contains_iff by (metis append_Nil)
        moreover have "o2 = [] \<Longrightarrow> Contains new old" using 2 within(1) unfolding Contains_iff by (metis append_Nil2)
        moreover have "n2 \<noteq> [] \<Longrightarrow> o2 \<noteq> [] \<Longrightarrow> overlaps old new"
          using within(1) by (intro overlaps_ends [OF 2(1)] disjI1) (auto simp: HasSuffix_iff)
        ultimately show False using assms(1,3) inside(1) by blast
      qed
    qed
  qed
qed

lemma ReplaceAll_free: "old \<noteq> [] \<Longrightarrow> \<not> overlaps old new \<Longrightarrow> \<not> Contains (ReplaceAll s old new) old"
proof (induction s old new rule: ReplaceAll.induct)
  case (1 s old new)
  show ?case
  proof (cases "Index s old")
    case None
    have "\<not> Contains s old"
    proof
      assume "Contains s old"
      then obtain u w where "s = u @ old @ w" by (auto simp: Contains_iff)
      then have "length u \<le> length s" "HasPrefix (drop (length u) s) old" by (auto simp: HasPrefix_iff)
      with None show False unfolding Index_None by blast
    qed
    with None show ?thesis by simp
  next
    case (Some i)
    have "\<not> Contains (take i s) old"
    proof
      assume "Contains (take i s) old"
      then obtain u w where u: "take i s = u @ old @ w" by (auto simp: Contains_iff)
      then have "length u < i" using "1.prems"(1) by (metis append_take_drop_id length_append length_greater_0_conv length_take
          less_add_same_cancel1 min_less_iff_conj nat_add_left_cancel_less trans_less_add1)
      moreover have "HasPrefix (drop (length u) s) old"
        using u by (metis HasPrefix_iff append.assoc append_eq_conv_conj append_take_drop_id)
      ultimately show False using Index_Some [OF Some] by blast
    qed
    with splice_free [OF "1.prems"(2) _ "1.IH" [OF "1.prems"(1) Some "1.prems"]] Some "1.prems"(1)
    show ?thesis by (simp add: ReplaceAll.simps [of s])
  qed
qed

lemma Contains_TrimSpace: "Contains (TrimSpace v) p \<Longrightarrow> Contains v p"
proof -
  assume "Contains (TrimSpace v) p"
  moreover obtain k j where "strip False v = drop k v" "TrimSpace v = take j (strip False v)"
    using strip_drop TrimSpace_take by metis
  ultimately show ?thesis unfolding Contains_iff
    by (metis append.assoc append_take_drop_id)
qed

lemma lower_char_space: "lower_char c = CHR '' '' \<longleftrightarrow> c = CHR '' ''"
  by (cases c) auto

lemma normalizeRawAPIKey_twice: "normalizeRawAPIKey v \<noteq> [] \<Longrightarrow> normalizeRawAPIKey (normalizeRawAPIKey v) \<noteq> []"
proof -
  assume nonempty: "normalizeRawAPIKey v \<noteq> []"
  let ?v = "normalizeRawAPIKey v"
  have ends: "\<not> leads True (rev ?v)" using not_leads_rev_TrimSpace [of ?v] by simp
  have "TrimSpace (drop 7 ?v) \<noteq> []" if "7 \<le> length ?v" "EqualFold (take 7 ?v) ''bearer ''"
  proof (cases "drop 7 ?v = []")
    case True
    then have "take 7 ?v = ?v" by simp
    with that(2) have "ToLower ?v = ''bearer ''" by (simp add: EqualFold_def ToLower_def lower_char_def)
    then have "ToLower (rev ?v) = CHR '' '' # rev ''bearer''" by (simp add: ToLower_rev)
    then obtain a s where "rev ?v = a # s" "lower_char a = CHR '' ''" by (cases "rev ?v") (auto simp: ToLower_def)
    with ends show ?thesis by (simp add: lower_char_space leads.simps ascii_space_def)
  next
    case False
    have "\<not> leads True (rev (drop 7 ?v))" using ends leads_take by (metis rev_drop)
    with False show ?thesis by (rule TrimSpace_not_blank)
  qed
  then show ?thesis using nonempty by (simp add: normalizeRawAPIKey_def [of ?v] Let_def)
qed

lemma key_stored: "privacySafeAPIKeyWithError ke value = Inr f \<Longrightarrow> normalizeRawAPIKey value \<noteq> [] \<Longrightarrow> f \<noteq> []"
  using normalizeRawAPIKey_twice [of "value"]
  by (auto simp: privacySafeAPIKeyWithError_def Let_def fingerprintRawAPIKeyWithSecret_def fingerprintLegacyV0WithSecret_def
      split: if_splits sum.splits option.splits)

text \<open>The identity of a record does not give the record's own key away.\<close>

lemma stored_identity_free:
  assumes "\<forall>k m. digest_ok (ke_mac ke k m)" "privacySafeStoredIdentity ke value rawAPIKey fingerprint [] = Inr stored"
    and "normalizeRawAPIKey rawAPIKey = raw" "raw \<noteq> []" "fingerprint \<noteq> []" "\<not> overlaps raw fingerprint"
    and "\<not> Contains (ToLower (sanitizeStoredIdentity value rawAPIKey fingerprint)) ''keyfp:v0:''"
  shows "is_v1 stored \<or> \<not> Contains stored raw"
proof -
  let ?v = "sanitizeStoredIdentity value rawAPIKey fingerprint"
  have v: "protect_remaining ke (?v, False) = Inr stored"
    using assms(2,7) by (simp add: privacySafeStoredIdentity_def rewriteLegacyV0Fingerprints_def)
  have free: "\<not> Contains ?v raw"
    using ReplaceAll_free [OF assms(4,6)] assms(3-5)
    by (auto simp: sanitizeStoredIdentity_def Let_def Contains_iff)
  obtain credential whole where c: "credentialFromStoredIdentity ?v [] = (credential, whole)" by fastforce
  show ?thesis
  proof (cases "credential = []")
    case True
    with v c free Contains_TrimSpace show ?thesis by (auto simp: protect_remaining_def)
  next
    case False
    with credential_whole [OF c] v c have "privacySafeAPIKeyWithError ke credential = Inr stored"
      by (simp add: protect_remaining_def)
    from protected_key [OF assms(1) this] assms(4) show ?thesis by (auto simp: Contains_iff)
  qed
qed

section \<open>Examples\<close>

text \<open>A toy MAC: its digest is the last 32 of some zeros and the length of the message in unary.\<close>

definition toy_key_env :: key_env where
  "toy_key_env = \<lparr>ke_secret = Inr ''s'',
     ke_mac = (\<lambda>k m. replicate (32 - length m mod 32) CHR ''0'' @ replicate (length m mod 32) CHR ''1''), ke_sha = (\<lambda>m. replicate 32 CHR ''0'')\<rparr>"

lemma toy_digests: "\<forall>k m. digest_ok (ke_mac toy_key_env k m)"
proof (intro allI)
  fix k m
  have "is_hex CHR ''0''" "is_hex CHR ''1''" by code_simp+
  then show "digest_ok (ke_mac toy_key_env k m)"
    by (simp add: digest_ok_def toy_key_env_def ToLower_def list_all_iff)
qed

section \<open>Properties\<close>

text \<open>The fingerprint of a key can be read back: whatever the key, its fingerprint parses as one of version 1 with the keyed
  digest of the key and its display hint.\<close>

theorem fingerprint_roundtrip:
  assumes "\<forall>k m. digest_ok (ke_mac ke k m)" "normalizeRawAPIKey raw \<noteq> []"
  shows "parseAPIKeyFingerprint (fingerprintRawAPIKeyWithSecret ke secret raw)
       = Some (''v1'', ke_mac ke secret (normalizeRawAPIKey raw), safeKeyLast4 (normalizeRawAPIKey raw))"
  using assms by (rule v1_fingerprint)

theorem fingerprint_roundtrip_witness:
  "parseAPIKeyFingerprint (fingerprintRawAPIKeyWithSecret toy_key_env ''s'' ''Bearer sk-abcd'')
     = Some (''v1'', replicate 25 CHR ''0'' @ replicate 7 CHR ''1'', ''abcd'')"
proof -
  have key: "normalizeRawAPIKey ''Bearer sk-abcd'' = ''sk-abcd''" "safeKeyLast4 ''sk-abcd'' = ''abcd''" by code_simp+
  from fingerprint_roundtrip [OF toy_digests, of "''Bearer sk-abcd''" "''s''"] show ?thesis
    unfolding key by (simp add: toy_key_env_def)
qed

text \<open>C14: No credential is stored with a usage record. When the record can be made safe, its key column is empty or a fingerprint of
  version 1, no identity column is shaped like a credential unless it is such a fingerprint, and every other column is
  unchanged. When the secret cannot be had and the record has a key, nothing is stored; with the secret it always succeeds.
  Nor is the record's own key left inside an identity: where its text and that of its fingerprint do not overlap (neither contains the
  other and no end of one begins the other, so that replacing cannot bring it back) and no fingerprint of the
  old version is left in the identity, the stored identity is a fingerprint of version 1 or does not contain the key.\<close>

theorem usage_record_private:
  assumes "\<forall>k m. digest_ok (ke_mac ke k m)"
  shows "case privacySafeUsageRecord ke rec of
           Inl err \<Rightarrow> \<not> secret_present ke
         | Inr stored \<Rightarrow>
             (ur_APIKey stored = [] \<or> is_v1 (ur_APIKey stored))
             \<and> list_all stored_safe [ur_AuthID stored, ur_AuthIndex stored, ur_Source stored, ur_AuthFile stored]
             \<and> (secret_present ke \<or> normalizeRawAPIKey (TrimSpace (ur_APIKey rec)) = [])
             \<and> (let key = TrimSpace (ur_APIKey rec); raw = normalizeRawAPIKey key
                in raw \<noteq> [] \<and> \<not> overlaps raw (ur_APIKey stored) \<longrightarrow>
                   list_all2 (\<lambda>value kept. Contains (ToLower (sanitizeStoredIdentity value key (ur_APIKey stored))) ''keyfp:v0:''
                                \<or> is_v1 kept \<or> \<not> Contains kept raw)
                     [ur_AuthID rec, ur_AuthIndex rec, ur_Source rec, ur_AuthFile rec]
                     [ur_AuthID stored, ur_AuthIndex stored, ur_Source stored, ur_AuthFile stored])
             \<and> stored\<lparr>ur_APIKey := ur_APIKey rec, ur_AuthID := ur_AuthID rec, ur_AuthIndex := ur_AuthIndex rec,
                      ur_Source := ur_Source rec, ur_AuthFile := ur_AuthFile rec\<rparr> = rec"
proof (cases "privacySafeUsageRecord ke rec")
  case (Inl err)
  have False if p: "secret_present ke"
  proof -
    obtain f where f: "privacySafeAPIKeyWithError ke (TrimSpace (ur_APIKey rec)) = Inr f" using key_present [OF p] by blast
    note total = stored_identity_total [OF p, where raw = "TrimSpace (ur_APIKey rec)" and fingerprint = f]
    obtain a b c d where "privacySafeStoredIdentity ke (ur_AuthID rec) (TrimSpace (ur_APIKey rec)) f [] = Inr a"
        "privacySafeStoredIdentity ke (ur_AuthIndex rec) (TrimSpace (ur_APIKey rec)) f [] = Inr b"
        "privacySafeStoredIdentity ke (ur_Source rec) (TrimSpace (ur_APIKey rec)) f [] = Inr c"
        "privacySafeStoredIdentity ke (ur_AuthFile rec) (TrimSpace (ur_APIKey rec)) f [] = Inr d" using total by metis
    with f Inl show False by (simp add: privacySafeUsageRecord_def)
  qed
  with Inl show ?thesis by auto
next
  case (Inr stored)
  then obtain f a b c d where f: "privacySafeAPIKeyWithError ke (TrimSpace (ur_APIKey rec)) = Inr f"
      and stored: "stored = rec\<lparr>ur_APIKey := f, ur_AuthID := a, ur_AuthIndex := b, ur_Source := c, ur_AuthFile := d\<rparr>"
      and cols: "privacySafeStoredIdentity ke (ur_AuthID rec) (TrimSpace (ur_APIKey rec)) f [] = Inr a"
        "privacySafeStoredIdentity ke (ur_AuthIndex rec) (TrimSpace (ur_APIKey rec)) f [] = Inr b"
        "privacySafeStoredIdentity ke (ur_Source rec) (TrimSpace (ur_APIKey rec)) f [] = Inr c"
        "privacySafeStoredIdentity ke (ur_AuthFile rec) (TrimSpace (ur_APIKey rec)) f [] = Inr d"
    by (auto simp: privacySafeUsageRecord_def Let_def)
  have "Contains (ToLower (sanitizeStoredIdentity v (TrimSpace (ur_APIKey rec)) f)) ''keyfp:v0:'' \<or> is_v1 kept
      \<or> \<not> Contains kept (normalizeRawAPIKey (TrimSpace (ur_APIKey rec)))"
    if "privacySafeStoredIdentity ke v (TrimSpace (ur_APIKey rec)) f [] = Inr kept"
      "normalizeRawAPIKey (TrimSpace (ur_APIKey rec)) \<noteq> []" "\<not> overlaps (normalizeRawAPIKey (TrimSpace (ur_APIKey rec))) f" for v kept
    using stored_identity_free [OF assms that(1) refl that(2) _ that(3)] key_stored [OF f that(2)] by blast
  with cols have own: "normalizeRawAPIKey (TrimSpace (ur_APIKey rec)) \<noteq> [] \<Longrightarrow> \<not> overlaps (normalizeRawAPIKey (TrimSpace (ur_APIKey rec))) f \<Longrightarrow>
      list_all2 (\<lambda>value kept. Contains (ToLower (sanitizeStoredIdentity value (TrimSpace (ur_APIKey rec)) f)) ''keyfp:v0:''
          \<or> is_v1 kept \<or> \<not> Contains kept (normalizeRawAPIKey (TrimSpace (ur_APIKey rec))))
        [ur_AuthID rec, ur_AuthIndex rec, ur_Source rec, ur_AuthFile rec] [a, b, c, d]" by simp
  have "secret_present ke \<or> normalizeRawAPIKey (TrimSpace (ur_APIKey rec)) = []"
    using key_missing [of ke "TrimSpace (ur_APIKey rec)"] f by auto
  then show ?thesis using usage_record_safe [OF assms Inr] Inr own by (simp add: stored Let_def)
qed

theorem usage_record_private_witness:
  "\<exists>stored. privacySafeUsageRecord toy_key_env (no_usage\<lparr>ur_APIKey := ''mysecret'', ur_Source := ''codex:apikey:mysecret'',
       ur_AuthID := ''acct-mysecret''\<rparr>) = Inr stored
     \<and> is_v1 (ur_APIKey stored) \<and> stored_safe (ur_Source stored) \<and> (is_v1 (ur_AuthID stored) \<or> \<not> Contains (ur_AuthID stored) ''mysecret'')"
proof -
  let ?rec = "no_usage\<lparr>ur_APIKey := ''mysecret'', ur_Source := ''codex:apikey:mysecret'', ur_AuthID := ''acct-mysecret''\<rparr>"
  have present: "secret_present toy_key_env" by code_simp
  have raw: "TrimSpace ''mysecret'' = ''mysecret''" "normalizeRawAPIKey ''mysecret'' = ''mysecret''" by code_simp+
  obtain stored where stored: "privacySafeUsageRecord toy_key_env ?rec = Inr stored" "ur_APIKey stored \<noteq> []"
      "\<not> overlaps ''mysecret'' (ur_APIKey stored)"
      "\<not> Contains (ToLower (sanitizeStoredIdentity ''acct-mysecret'' ''mysecret'' (ur_APIKey stored))) ''keyfp:v0:''"
  proof -
    have "case privacySafeUsageRecord toy_key_env ?rec of Inr r \<Rightarrow> ur_APIKey r \<noteq> [] \<and> \<not> overlaps ''mysecret'' (ur_APIKey r)
        \<and> \<not> Contains (ToLower (sanitizeStoredIdentity ''acct-mysecret'' ''mysecret'' (ur_APIKey r))) ''keyfp:v0:'' | Inl _ \<Rightarrow> False" by code_simp
    with that show thesis by (auto split: sum.splits)
  qed
  then show ?thesis using usage_record_private [OF toy_digests, of ?rec] by (simp add: raw Let_def)
qed

text \<open>A restriction stored for an API key finds its candidates. When an identity of a candidate is its explicit key, the form
  in which account protection stores that identity is one of the aliases restrictions are matched by.\<close>

theorem stored_key_is_alias:
  assumes "\<forall>k m. digest_ok (ke_mac ke k m)"
    and "schedulerCandidateExplicitAPIKey c = key" "normalizeRawAPIKey key = key" "key \<noteq> []" "\<not> isAPIKeyFingerprint key"
    and "privacySafeSchedulerIdentity ke c (key, authIndex, source, authFile) = Inr (stored, authIndex', source', authFile')"
  shows "normalizeAccountAlias stored \<in> set (schedulerCandidateAliases (privacySafeAPIKey ke) c)"
proof -
  obtain f where f: "privacySafeAPIKeyWithError ke key = Inr f" "privacySafeStoredIdentity ke key key f [] = Inr stored"
    using assms(2,6) by (auto simp: privacySafeSchedulerIdentity_def Let_def)
  then have stored: "stored = f" using stored_raw_key [OF assms(1,3-5)] by simp
  have "privacySafeAPIKey ke key = f" using f by (simp add: privacySafeAPIKey_def)
  moreover have "normalizeAccountAlias f \<noteq> []"
  proof -
    obtain secret where "f = fingerprintRawAPIKeyWithSecret ke secret key"
      using raw_key_fingerprint [OF f(1) assms(3-5)] .
    then have "parseAPIKeyFingerprint f \<noteq> None" using v1_fingerprint [OF assms(1)] assms(3,4) by simp
    then have "TrimSpace f \<noteq> []" by (auto simp: parseAPIKeyFingerprint_def)
    then show ?thesis by (simp add: normalizeAccountAlias_def)
  qed
  ultimately show ?thesis
    using assms(2-4) by (simp add: stored schedulerCandidateAliases_def Let_def set_add_alias)
qed

definition example_key_candidate :: "string \<Rightarrow> string \<Rightarrow> schedulerAuthCandidate" where
  "example_key_candidate i key = \<lparr>c_ID = i, c_Provider = ''codex'', c_Priority = 0, c_Status = [],
     c_Attributes = (if key = [] then [] else [(''api_key'', key)]), c_Metadata = []\<rparr>"

theorem stored_key_is_alias_witness:
  "\<exists>stored. privacySafeSchedulerIdentity toy_key_env (example_key_candidate ''k1'' ''sk-abcd'') (''sk-abcd'', [], [], []) = Inr (stored, [], [], [])
     \<and> normalizeAccountAlias stored \<in> set (schedulerCandidateAliases (privacySafeAPIKey toy_key_env) (example_key_candidate ''k1'' ''sk-abcd''))"
proof -
  let ?c = "example_key_candidate ''k1'' ''sk-abcd''"
  have key: "schedulerCandidateExplicitAPIKey ?c = ''sk-abcd''" "normalizeRawAPIKey ''sk-abcd'' = ''sk-abcd''"
      "\<not> isAPIKeyFingerprint ''sk-abcd''" by code_simp+
  obtain stored where stored: "privacySafeSchedulerIdentity toy_key_env ?c (''sk-abcd'', [], [], []) = Inr (stored, [], [], [])"
  proof -
    have "case privacySafeSchedulerIdentity toy_key_env ?c (''sk-abcd'', [], [], []) of Inr (_, b) \<Rightarrow> b = ([], [], []) | Inl _ \<Rightarrow> False"
      by code_simp
    with that show thesis by (auto split: sum.splits)
  qed
  from stored_key_is_alias [OF toy_digests key(1,2) _ key(3) stored] stored show ?thesis by blast
qed

text \<open>
  The two readings of an identity with the prefix \<open>codex:apikey:\<close> differ: what follows the prefix is fingerprinted before it is
  stored, whatever its shape, while a candidate gets a fingerprint as alias only for a text that is shaped like a key. A
  restriction stored for such an identity is then no alias of the candidate that has it.
\<close>

lemma apikey_identity_no_alias:
  "case privacySafeSchedulerIdentity toy_key_env (example_key_candidate ''codex:apikey:0123456789ab'' []) (''codex:apikey:0123456789ab'', [], [], []) of
     Inr (stored, _) \<Rightarrow> normalizeAccountAlias stored
        \<notin> set (schedulerCandidateAliases (privacySafeAPIKey toy_key_env) (example_key_candidate ''codex:apikey:0123456789ab'' []))
   | Inl _ \<Rightarrow> False"
  by code_simp

end
