(* ===== verification/XAI_Errors.thy ===== *)
theory XAI_Errors
  imports Redact Usage_Record
begin

text \<open>
  The errors of xAI requests (\<open>xai_error_parser.go\<close>) and the restriction they call for
  (\<open>xaiStateForRecord\<close> and \<open>xaiRetryAfterUnix\<close> of \<open>xai_accounts.go\<close>). The HTTP status fixes the
  family a response may be classified into; the lemmas carry that through to the restriction that is
  stored, its reset time and its reason. The decoding of a JSON body and \<open>http.ParseTime\<close> are
  arguments.
\<close>

section \<open>Error kinds\<close>

datatype xaiErrorKind =
    ErrorUnknown
  | Unauthorized
  | TokenExpired
  | TokenRevoked
  | PermissionDenied
  | AccountUnavailable
  | FreeUsageExhausted
  | RateLimited
  | ModelUnavailable
  | UpstreamTransient

fun kind_text :: "xaiErrorKind \<Rightarrow> string" where
  "kind_text ErrorUnknown = ''unknown''"
| "kind_text Unauthorized = ''unauthorized''"
| "kind_text TokenExpired = ''token_expired''"
| "kind_text TokenRevoked = ''token_revoked''"
| "kind_text PermissionDenied = ''permission_denied''"
| "kind_text AccountUnavailable = ''account_unavailable''"
| "kind_text FreeUsageExhausted = ''free_usage_exhausted''"
| "kind_text RateLimited = ''rate_limited''"
| "kind_text ModelUnavailable = ''model_unavailable''"
| "kind_text UpstreamTransient = ''upstream_transient''"

record xaiParsedError =
  xe_Kind :: xaiErrorKind
  xe_Code :: string
  xe_Message :: string

section \<open>The text of an error\<close>

text \<open>
  A decoded JSON value. A number carries the text \<open>strconv.FormatFloat(v, 'f', -1, 64)\<close> prints. The
  decoder of a body gives the fields of its object, or \<open>None\<close> when the body is no object; it decodes a
  JSON \<open>null\<close> to no fields.
\<close>

datatype xai_json =
    JString string
  | JNumber string
  | JBool bool
  | JObject "(string \<times> xai_json) list"
  | JOther

type_synonym json_decoder = "string \<Rightarrow> (string \<times> xai_json) list option"

fun xaiFirstNonEmpty :: "string list \<Rightarrow> string" where
  "xaiFirstNonEmpty [] = []"
| "xaiFirstNonEmpty (value # rest) = (let v = TrimSpace value in if v \<noteq> [] then v else xaiFirstNonEmpty rest)"

fun xaiErrorString :: "xai_json option \<Rightarrow> string" where
  "xaiErrorString (Some (JString v)) = TrimSpace v"
| "xaiErrorString (Some (JNumber v)) = v"
| "xaiErrorString (Some (JBool b)) = (if b then ''true'' else ''false'')"
| "xaiErrorString _ = []"

definition extractXAIError :: "json_decoder \<Rightarrow> string \<Rightarrow> xaiParsedError" where
  "extractXAIError decode text =
     (let body = TrimSpace text
      in if body = [] then \<lparr>xe_Kind = ErrorUnknown, xe_Code = [], xe_Message = []\<rparr>
         else case decode body of
           None \<Rightarrow> \<lparr>xe_Kind = ErrorUnknown, xe_Code = [], xe_Message = body\<rparr>
         | Some data \<Rightarrow>
             let code = xaiErrorString (map_of data ''code'');
                 (code', message) =
                   (case map_of data ''error'' of
                      Some (JObject value) \<Rightarrow>
                        (xaiFirstNonEmpty [code, xaiErrorString (map_of value ''code'')],
                         xaiFirstNonEmpty [xaiErrorString (map_of value ''message''), xaiErrorString (map_of value ''error'')])
                    | Some (JString value) \<Rightarrow> (code, TrimSpace value)
                    | _ \<Rightarrow> (code, []));
                 message' = xaiFirstNonEmpty [message, xaiErrorString (map_of data ''message'')]
             in \<lparr>xe_Kind = ErrorUnknown, xe_Code = code', xe_Message = (if message' = [] \<and> code' = [] then body else message')\<rparr>)"

section \<open>Classification\<close>

definition containsXAIErrorMarker :: "string \<Rightarrow> string list \<Rightarrow> bool" where
  "containsXAIErrorMarker text markers \<longleftrightarrow> list_ex (Contains text) markers"

definition free_markers :: "string list" where
  "free_markers = [''free-usage-exhausted'', ''included free usage'', ''usage_limit_reached'', ''quota exhausted'']"

definition revoked_markers :: "string list" where
  "revoked_markers = [''token has been invalidated'', ''token invalidated'', ''token_invalidated'', ''token revoked'', ''token_revoked'',
     ''revoked token'', ''credential revoked'']"

definition expired_markers :: "string list" where
  "expired_markers = [''token is expired'', ''token expired'', ''token_expired'', ''expired token'', ''expired_token'', ''jwt expired'',
     ''invalid_grant'']"

definition suspended_markers :: "string list" where
  "suspended_markers = [''account suspended'', ''account_suspended'', ''account banned'', ''account_banned'', ''user suspended'',
     ''user banned'', ''suspended'', ''banned'', ''deactivated'', ''workspace disabled'']"

definition classifyXAIErrorBody :: "string \<Rightarrow> xaiErrorKind" where
  "classifyXAIErrorBody text =
     (if containsXAIErrorMarker text free_markers then FreeUsageExhausted
      else if containsXAIErrorMarker text revoked_markers then TokenRevoked
      else if containsXAIErrorMarker text expired_markers then TokenExpired
      else if containsXAIErrorMarker text [''invalid token'', ''invalid bearer'', ''invalid credential'', ''invalid authentication'',
          ''unauthorized''] then Unauthorized
      else if containsXAIErrorMarker text suspended_markers then AccountUnavailable
      else if containsXAIErrorMarker text [''model unavailable'', ''model_unavailable'', ''model-unavailable'', ''model_not_found'',
          ''model not found'', ''unknown model'', ''model does not exist''] then ModelUnavailable
      else if containsXAIErrorMarker text [''permission-denied'', ''permission_denied'', ''permission denied'',
          ''insufficient permissions'', ''insufficient_scope'', ''access denied'', ''endpoint is denied'', ''not allowed'', ''forbidden'']
        then PermissionDenied
      else if containsXAIErrorMarker text [''rate_limit'', ''rate-limit'', ''rate limited'', ''rate_limited'', ''rate limit'',
          ''too many requests'', ''temporarily throttled'', ''throttling''] then RateLimited
      else if containsXAIErrorMarker text [''upstream error'', ''upstream_error'', ''upstream failure'', ''upstream_failure'',
          ''upstream timeout'', ''upstream_timeout'', ''internal_server_error'', ''service unavailable'', ''temporarily unavailable'',
          ''bad gateway'', ''gateway timeout'', ''request timeout''] then UpstreamTransient
      else ErrorUnknown)"

definition classify_status :: "int \<Rightarrow> string \<Rightarrow> xaiErrorKind" where
  "classify_status status text =
     (if status = 0 then classifyXAIErrorBody text
      else if status = 401
        then (if containsXAIErrorMarker text revoked_markers then TokenRevoked
              else if containsXAIErrorMarker text expired_markers then TokenExpired else Unauthorized)
      else if status = 402 \<or> status = 403
        then (if containsXAIErrorMarker text suspended_markers then AccountUnavailable else PermissionDenied)
      else if status = 404 then ModelUnavailable
      else if status = 429 then (if containsXAIErrorMarker text free_markers then FreeUsageExhausted else RateLimited)
      else if 500 \<le> status then UpstreamTransient else ErrorUnknown)"

definition parseXAIError :: "json_decoder \<Rightarrow> int \<Rightarrow> string \<Rightarrow> xaiParsedError" where
  "parseXAIError decode status body =
     (let parsed = extractXAIError decode body;
          text = ToLower (TrimSpace (xe_Code parsed @ '' '' @ xe_Message parsed))
      in parsed\<lparr>xe_Kind := classify_status status text\<rparr>)"

section \<open>The restriction an error calls for (\<open>xai_accounts.go\<close>)\<close>

definition xaiStateUnauthorized :: string where "xaiStateUnauthorized = ''unauthorized''"
definition xaiStateForbidden :: string where "xaiStateForbidden = ''forbidden''"
definition xaiStateFreeExhausted :: string where "xaiStateFreeExhausted = ''free_usage_exhausted''"
definition xaiStateRateLimited :: string where "xaiStateRateLimited = ''rate_limited''"

definition xaiErrorReason :: "int \<Rightarrow> xaiParsedError \<Rightarrow> string \<Rightarrow> string" where
  "xaiErrorReason status parsed fallback =
     (let code = xe_Code parsed; message = xe_Message parsed;
          raw = (if code \<noteq> [] \<and> message \<noteq> [] \<and> \<not> EqualFold code message then code @ '': '' @ message
                 else firstNonEmptyString [code, message]);
          safe = sanitizeTriggerError raw;
          evidence = (if safe = [] then fallback else safe)
      in if 0 < status then Itoa status @ '' '' @ kind_text (xe_Kind parsed) @ '': '' @ evidence
         else kind_text (xe_Kind parsed) @ '': '' @ evidence)"

text \<open>One value of a \<open>Retry-After\<close> header: seconds, or a date after now; both capped at 15 minutes.\<close>

definition retry_value :: "(string \<Rightarrow> int option) \<Rightarrow> int \<Rightarrow> string \<Rightarrow> int option" where
  "retry_value parse_time now text =
     (let value = TrimSpace text
      in case Atoi value of
           Some seconds \<Rightarrow> if 0 < seconds then Some (now + min seconds 900)
                           else Option.bind (parse_time value) (\<lambda>t. if now < t then Some (min t (now + 900)) else None)
         | None \<Rightarrow> Option.bind (parse_time value) (\<lambda>t. if now < t then Some (min t (now + 900)) else None))"

fun first_some :: "('a \<Rightarrow> 'b option) \<Rightarrow> 'a list \<Rightarrow> 'b option" where
  "first_some f [] = None"
| "first_some f (x # xs) = (case f x of Some y \<Rightarrow> Some y | None \<Rightarrow> first_some f xs)"

definition xaiRetryAfterUnix :: "(string \<Rightarrow> int option) \<Rightarrow> headers \<Rightarrow> int \<Rightarrow> int" where
  "xaiRetryAfterUnix parse_time headers now =
     (case first_some (\<lambda>(key, vs). if EqualFold (TrimSpace key) ''retry-after'' then first_some (retry_value parse_time now) vs else None)
             headers of
        Some reset \<Rightarrow> reset
      | None \<Rightarrow> now + 60)"

text \<open>The environment of the parser: the JSON decoder and the parser of HTTP dates.\<close>

type_synonym xai_parsers = "json_decoder \<times> (string \<Rightarrow> int option)"

definition xaiStateForRecord :: "xai_parsers \<Rightarrow> usageRecord \<Rightarrow> int \<Rightarrow> int \<Rightarrow> string \<times> string \<times> int" where
  "xaiStateForRecord parsers rec status now =
     (if \<not> ur_Failed rec then ([], [], 0)
      else if \<not> isGenerated rec \<and> status \<notin> {401, 402, 403} then ([], [], 0)
      else let parsed = parseXAIError (fst parsers) status (uf_Body (ur_Failure rec))
           in case xe_Kind parsed of
                Unauthorized \<Rightarrow> (xaiStateUnauthorized, xaiErrorReason status parsed ''xAI credential is invalid'', 0)
              | TokenExpired \<Rightarrow> (xaiStateUnauthorized, xaiErrorReason status parsed ''xAI credential is invalid'', 0)
              | TokenRevoked \<Rightarrow> (xaiStateUnauthorized, xaiErrorReason status parsed ''xAI credential is invalid'', 0)
              | PermissionDenied \<Rightarrow> (xaiStateForbidden, xaiErrorReason status parsed ''xAI access is denied'', 0)
              | AccountUnavailable \<Rightarrow> (xaiStateForbidden, xaiErrorReason status parsed ''xAI access is denied'', 0)
              | FreeUsageExhausted \<Rightarrow>
                  (xaiStateFreeExhausted, xaiErrorReason status parsed ''xAI free usage is exhausted'', now + 86400)
              | RateLimited \<Rightarrow> (xaiStateRateLimited, xaiErrorReason status parsed ''temporary xAI throttling'',
                                xaiRetryAfterUnix (snd parsers) (ur_ResponseHeaders rec) now)
              | _ \<Rightarrow> ([], [], 0))"

definition xaiFreeUsageExhaustedBody :: "json_decoder \<Rightarrow> string \<Rightarrow> bool" where
  "xaiFreeUsageExhaustedBody decode body \<longleftrightarrow> xe_Kind (parseXAIError decode 0 body) = FreeUsageExhausted"

section \<open>Lemmas\<close>

lemma first_some_Some: "first_some f xs = Some y \<Longrightarrow> \<exists>x\<in>set xs. f x = Some y"
  by (induction xs) (auto split: option.splits)

lemma retry_value_bounds: "retry_value parse_time now text = Some t \<Longrightarrow> now < t \<and> t \<le> now + 900"
  by (auto simp: retry_value_def Let_def bind_eq_Some_conv split: option.splits if_splits)

lemma retry_bounds: "now < xaiRetryAfterUnix parse_time headers now \<and> xaiRetryAfterUnix parse_time headers now \<le> now + 900"
proof -
  let ?f = "\<lambda>(key, vs). if EqualFold (TrimSpace key) ''retry-after'' then first_some (retry_value parse_time now) vs else None"
  show ?thesis
  proof (cases "first_some ?f headers")
    case (Some t)
    then obtain key vs where "first_some (retry_value parse_time now) vs = Some t"
      by (auto dest!: first_some_Some split: if_splits)
    then have "now < t \<and> t \<le> now + 900" using retry_value_bounds by (auto dest!: first_some_Some)
    with Some show ?thesis by (simp add: xaiRetryAfterUnix_def)
  qed (simp add: xaiRetryAfterUnix_def)
qed

lemma status_texts [simp]: "xaiStateUnauthorized \<noteq> []" "xaiStateForbidden \<noteq> []" "xaiStateFreeExhausted \<noteq> []" "xaiStateRateLimited \<noteq> []"
    "xaiStateUnauthorized \<noteq> xaiStateForbidden" "xaiStateUnauthorized \<noteq> xaiStateFreeExhausted" "xaiStateUnauthorized \<noteq> xaiStateRateLimited"
    "xaiStateForbidden \<noteq> xaiStateFreeExhausted" "xaiStateForbidden \<noteq> xaiStateRateLimited" "xaiStateFreeExhausted \<noteq> xaiStateRateLimited"
  by (simp_all add: xaiStateUnauthorized_def xaiStateForbidden_def xaiStateFreeExhausted_def xaiStateRateLimited_def)

lemmas status_texts_sym [simp] = status_texts [symmetric]

text \<open>The kinds a status allows, and the state and reset time a kind calls for.\<close>

fun kind_state :: "xaiErrorKind \<Rightarrow> string" where
  "kind_state Unauthorized = xaiStateUnauthorized"
| "kind_state TokenExpired = xaiStateUnauthorized"
| "kind_state TokenRevoked = xaiStateUnauthorized"
| "kind_state PermissionDenied = xaiStateForbidden"
| "kind_state AccountUnavailable = xaiStateForbidden"
| "kind_state FreeUsageExhausted = xaiStateFreeExhausted"
| "kind_state RateLimited = xaiStateRateLimited"
| "kind_state _ = []"

lemma classify_family:
  "classify_status 401 text \<in> {Unauthorized, TokenExpired, TokenRevoked}"
  "classify_status 402 text \<in> {PermissionDenied, AccountUnavailable}"
  "classify_status 403 text \<in> {PermissionDenied, AccountUnavailable}"
  "classify_status 429 text \<in> {FreeUsageExhausted, RateLimited}"
  "status \<notin> {0, 401, 402, 403, 429} \<Longrightarrow> classify_status status text \<in> {ModelUnavailable, UpstreamTransient, ErrorUnknown}"
  by (auto simp: classify_status_def)

lemma parse_kind: "\<exists>text. xe_Kind (parseXAIError decode status body) = classify_status status text"
  by (auto simp: parseXAIError_def Let_def)

lemma state_parts:
  "fst (xaiStateForRecord parsers rec status now)
     = (if ur_Failed rec \<and> (isGenerated rec \<or> status \<in> {401, 402, 403})
        then kind_state (xe_Kind (parseXAIError (fst parsers) status (uf_Body (ur_Failure rec)))) else [])"
  by (cases "xe_Kind (parseXAIError (fst parsers) status (uf_Body (ur_Failure rec)))")
    (simp_all add: xaiStateForRecord_def Let_def)

lemma reset_parts:
  assumes "xaiStateForRecord parsers rec status now = (state, reason, reset)"
  shows "state \<in> {xaiStateUnauthorized, xaiStateForbidden} \<longrightarrow> reset = 0"
    and "state = xaiStateFreeExhausted \<longrightarrow> reset = now + 86400"
    and "state = xaiStateRateLimited \<longrightarrow> now < reset \<and> reset \<le> now + 900"
proof -
  from assms have "reset = (if state = xaiStateFreeExhausted then now + 86400
      else if state = xaiStateRateLimited then xaiRetryAfterUnix (snd parsers) (ur_ResponseHeaders rec) now else 0)"
    by (cases "xe_Kind (parseXAIError (fst parsers) status (uf_Body (ur_Failure rec)))")
      (auto simp: xaiStateForRecord_def Let_def split: if_splits)
  then show "state \<in> {xaiStateUnauthorized, xaiStateForbidden} \<longrightarrow> reset = 0"
      "state = xaiStateFreeExhausted \<longrightarrow> reset = now + 86400"
      "state = xaiStateRateLimited \<longrightarrow> now < reset \<and> reset \<le> now + 900"
    using retry_bounds by auto
qed

section \<open>Properties\<close>

text \<open>An xAI request restricts its account exactly as far as its HTTP status allows. A request with a status
  does so exactly when it failed with 401, 402, 403 or 429 (for 429 only when it generated); 401 invalidates the
  credential and 402 and 403 forbid it, both without an end; 429 ends the restriction after a day when the free usage
  is exhausted and otherwise within 15 minutes, and never before it begins. The text of the body does not widen this.\<close>

theorem xai_status_bounds_restriction:
  assumes "xaiStateForRecord parsers rec status now = (state, reason, reset)" and "status \<noteq> 0"
  shows "if ur_Failed rec \<and> status = 401 then state = xaiStateUnauthorized \<and> reset = 0
    else if ur_Failed rec \<and> (status = 402 \<or> status = 403) then state = xaiStateForbidden \<and> reset = 0
    else if ur_Failed rec \<and> status = 429 \<and> isGenerated rec
      then state = xaiStateFreeExhausted \<and> reset = now + 86400
         \<or> state = xaiStateRateLimited \<and> now < reset \<and> reset \<le> now + 900
    else state = []"
proof -
  obtain body where body: "xe_Kind (parseXAIError (fst parsers) status (uf_Body (ur_Failure rec))) = classify_status status body"
    using parse_kind by blast
  have state: "state = (if ur_Failed rec \<and> (isGenerated rec \<or> status \<in> {401, 402, 403}) then kind_state (classify_status status body) else [])"
    using state_parts [of parsers rec status now] unfolding assms(1) body by simp
  note family = classify_family(1-4) [of body]
  have other: "kind_state (classify_status status body) = []" if "status \<notin> {401, 402, 403, 429}"
    using classify_family(5) [of status body] that assms(2) by auto
  consider "status = 401" | "status = 402 \<or> status = 403" | "status = 429" | "status \<notin> {401, 402, 403, 429}" by blast
  then show ?thesis
  proof cases
    case 1
    with family(1) have "kind_state (classify_status status body) = xaiStateUnauthorized" by auto
    with 1 state reset_parts(1) [OF assms(1)] show ?thesis by simp
  next
    case 2
    with family(2,3) have "kind_state (classify_status status body) = xaiStateForbidden" by auto
    with 2 state reset_parts(1) [OF assms(1)] show ?thesis by auto
  next
    case 3
    with family(4) have "kind_state (classify_status status body) \<in> {xaiStateFreeExhausted, xaiStateRateLimited}" by auto
    with 3 state reset_parts(2,3) [OF assms(1)] show ?thesis by auto
  next
    case 4
    with other state show ?thesis by simp
  qed
qed

theorem xai_status_bounds_restriction_witness:
  "xaiStateForRecord (\<lambda>_. None, \<lambda>_. None) (no_usage\<lparr>ur_Failed := True, ur_Generate := True,
       ur_ResponseHeaders := [(''Retry-After'', [''9999''])]\<rparr>) 429 100
     = (xaiStateRateLimited, ''429 rate_limited: temporary xAI throttling'', 1000)
   \<and> xaiStateRateLimited \<noteq> [] \<and> (100::int) < 1000"
proof -
  have run: "xaiStateForRecord (\<lambda>_. None, \<lambda>_. None) (no_usage\<lparr>ur_Failed := True, ur_Generate := True,
       ur_ResponseHeaders := [(''Retry-After'', [''9999''])]\<rparr>) 429 100
     = (xaiStateRateLimited, ''429 rate_limited: temporary xAI throttling'', 1000)" by code_simp
  from xai_status_bounds_restriction [OF run] show ?thesis using run by (auto simp: no_usage_def split: if_splits)
qed

end
