(* ===== verification/XAI_States.thy ===== *)
theory XAI_States
  imports Bans XAI_Errors
begin

text \<open>
  The xAI restrictions (\<open>xai_accounts.go\<close>): the table \<open>xai_account_states\<close>, what a completed request
  writes to it or clears from it, expiry, and the clean-up of states whose account is gone or
  whose credential file was replaced. The lemmas: every operation is a run of the protocol the
  restriction cache is proved for; a failure restricts its account; a success lifts all but the
  exhausted free usage; a clean-up spares the accounts that are still configured.
\<close>

section \<open>The world of the operations\<close>

record xai_world =
  xw_states :: "xaiAccountStateRow list"
  xw_cache :: schedulerStateCache
  xw_refreshRequests :: nat

definition state_key :: "xaiAccountStateRow \<Rightarrow> string \<times> string" where
  "state_key r = (xs_Provider r, xs_StateKey r)"

definition invalidate_xai :: "xai_world \<Rightarrow> xai_world" where
  "invalidate_xai w =
     (let (asks, c) = invalidateProvider ''xai'' (xw_cache w)
      in w\<lparr>xw_cache := c, xw_refreshRequests := xw_refreshRequests w + (if asks then 1 else 0)\<rparr>)"

text \<open>An upsert between \<open>beginRestrictionWrite\<close> and the deferred \<open>finishRestrictionWrite\<close>.\<close>

definition write_state :: "string option \<Rightarrow> xaiAccountStateRow \<Rightarrow> xai_world \<Rightarrow> string option \<times> xai_world" where
  "write_state err row w =
     (let c1 = beginRestrictionWrite ''xai'' (xw_cache w);
          rows = (if err = None then upsert_row state_key (\<lambda>_. row) row (xw_states w) else xw_states w);
          (asks, c2) = finishRestrictionWrite ''xai'' c1
      in (err, w\<lparr>xw_states := rows, xw_cache := c2, xw_refreshRequests := xw_refreshRequests w + (if asks then 1 else 0)\<rparr>))"

definition state_off :: "xaiAccountStateRow \<Rightarrow> xaiAccountStateRow" where "state_off r = r\<lparr>xs_Active := False\<rparr>"

definition clear_states :: "(xaiAccountStateRow \<Rightarrow> bool) \<Rightarrow> xai_world \<Rightarrow> bool \<times> xai_world" where
  "clear_states P w = (let (b, rows) = update_rows P state_off (xw_states w) in (b, w\<lparr>xw_states := rows\<rparr>))"

definition active_state :: "xaiAccountStateRow \<Rightarrow> bool" where
  "active_state r \<longleftrightarrow> xs_Provider r = ''xai'' \<and> xs_Active r"

section \<open>Recording and recovery\<close>

definition xaiStateKeyForRecord :: "usageRecord \<Rightarrow> string \<Rightarrow> string" where
  "xaiStateKeyForRecord rec authFile =
     (if authFile \<noteq> [] then normalizeAccountAlias authFile
      else normalizeAccountAlias (firstNonEmptyString [ur_AuthID rec, ur_AuthIndex rec, ur_Source rec]))"

definition new_state :: "usageRecord \<Rightarrow> int \<Rightarrow> string \<times> string \<times> int \<Rightarrow> int \<Rightarrow> string \<times> int \<Rightarrow> xaiAccountStateRow" where
  "new_state rec status = (\<lambda>(state, reason, resetAt) now (authFile, mtime).
     \<lparr>xs_StateKey = xaiStateKeyForRecord rec authFile, xs_AuthID = TrimSpace (ur_AuthID rec), xs_AuthIndex = TrimSpace (ur_AuthIndex rec),
      xs_Source = TrimSpace (ur_Source rec), xs_Provider = ''xai'', xs_State = state, xs_Reason = reason, xs_ObservedAt = now,
      xs_ObservedAtText = [], xs_ResetAt = resetAt, xs_ResetAtText = [], xs_SecondsRemaining = 0, xs_Active = True,
      xs_LastStatusCode = status, xs_AuthFile = authFile, xs_AuthFileMTime = mtime\<rparr>)"

definition recovers :: "int \<Rightarrow> string \<Rightarrow> xaiAccountStateRow \<Rightarrow> bool" where
  "recovers recoveredAt a r \<longleftrightarrow> active_state r
     \<and> xs_State r \<in> {xaiStateUnauthorized, xaiStateForbidden, xaiStateRateLimited}
     \<and> xs_ObservedAt r \<le> recoveredAt
     \<and> (ToLower (xs_StateKey r) = a \<or> ToLower (xs_AuthID r) = a \<or> ToLower (xs_AuthIndex r) = a
        \<or> ToLower (xs_Source r) = a \<or> ToLower (xs_AuthFile r) = a)"

definition recovery_aliases :: "auth_env \<Rightarrow> usageRecord \<Rightarrow> string list" where
  "recovery_aliases ae rec =
     normalizeAccountAliases [fst (xaiAuthFileStateForRecord ae rec), ur_AuthID rec, ur_AuthIndex rec, ur_Source rec]"

definition clearRecoveredXAIState :: "auth_env \<Rightarrow> usageRecord \<Rightarrow> xai_world \<Rightarrow> string option \<times> bool \<times> xai_world" where
  "clearRecoveredXAIState ae rec =
     run_statements (ae_fails ae) 0 (map (\<lambda>a. clear_states (recovers (record_time ae rec) a)) (recovery_aliases ae rec)) False"

definition recordXAIStateIfNeeded :: "auth_env \<Rightarrow> xai_parsers \<Rightarrow> usageRecord \<Rightarrow> int \<Rightarrow> xai_world \<Rightarrow> string option \<times> xai_world" where
  "recordXAIStateIfNeeded ae parsers rec status w =
     (let now = record_time ae rec
      in if \<not> EqualFold (TrimSpace (ur_Provider rec)) ''xai'' then (None, w)
         else if isGenerated rec \<and> \<not> ur_Failed rec \<and> successfulStatusCode status
           then (case clearRecoveredXAIState ae rec w of
                   (Some err, _, w') \<Rightarrow> (Some err, w')
                 | (None, changed, w') \<Rightarrow> (None, if changed then invalidate_xai w' else w'))
         else let (state, reason, resetAt) = xaiStateForRecord parsers rec status now;
                  file = xaiAuthFileStateForRecord ae rec
              in if state = [] then (None, w)
                 else if xaiStateKeyForRecord rec (fst file) = [] then (None, w)
                 else write_state (ae_fails ae 0) (new_state rec status (state, reason, resetAt) now file) w)"

section \<open>Expiry and clean-up\<close>

definition expireXAIStates :: "string option \<Rightarrow> int \<Rightarrow> xai_world \<Rightarrow> string option \<times> xai_world" where
  "expireXAIStates err now w =
     (case err of
        Some e \<Rightarrow> (Some e, w)
      | None \<Rightarrow> let (changed, w') = clear_states (\<lambda>r. active_state r \<and> 0 < xs_ResetAt r \<and> xs_ResetAt r \<le> now) w
                in (None, if changed then invalidate_xai w' else w'))"

definition keeps_state :: "configuredAccount list \<Rightarrow> xaiAccountStateRow \<Rightarrow> bool" where
  "keeps_state configured r =
     (let files = fileBackedCleanupAliases (xs_StateKey r) (xs_AuthIndex r) (xs_Source r) (xs_AuthFile r)
      in if files \<noteq> [] then aliasesContainAny (configuredStrictAliasSet configured) files
         else aliasesContainAny (configuredAliasSet configured)
                [xs_StateKey r, xs_AuthID r, xs_AuthIndex r, xs_Source r, xs_AuthFile r])"

text \<open>
  The filter works in place: it appends what it keeps to \<open>rows[:0]\<close>, the slice of the caller's array.
  The result is what it returns and what the caller's slice holds afterwards.
\<close>

definition filterMissingXAIStateRows ::
  "xaiAccountStateRow list \<Rightarrow> configuredAccount list \<Rightarrow> bool \<Rightarrow> xaiAccountStateRow list \<times> xaiAccountStateRow list" where
  "filterMissingXAIStateRows rows configured readable =
     (if \<not> readable \<or> rows = [] then (rows, rows)
      else let out = filter (keeps_state configured) rows in (out, out @ drop (length out) rows))"

definition missing_statements :: "configuredAccount list \<Rightarrow> xaiAccountStateRow list \<Rightarrow> (xai_world \<Rightarrow> bool \<times> xai_world) list" where
  "missing_statements configured rows =
     (let (visible, states) = filterMissingXAIStateRows rows configured True
      in map (\<lambda>s. clear_states (\<lambda>r. xs_Provider r = ''xai'' \<and> xs_StateKey r = xs_StateKey s))
           (filter (\<lambda>s. xs_StateKey s \<notin> xs_StateKey ` set visible) states))"

definition replaced_statements :: "configuredAccount list \<Rightarrow> (xai_world \<Rightarrow> bool \<times> xai_world) list" where
  "replaced_statements configured =
     map (\<lambda>cfg. clear_states (\<lambda>r. active_state r \<and> xs_AuthFile r = cg_AuthFile cfg \<and> xs_ObservedAt r < cg_AuthFileMTime cfg))
       (filter (\<lambda>cfg. 0 < cg_AuthFileMTime cfg) configured)"

definition clearReplacedOrMissingXAIStates :: "auth_env \<Rightarrow> string option \<Rightarrow> xai_world \<Rightarrow> string option \<times> xai_world" where
  "clearReplacedOrMissingXAIStates ae query_err w =
     (if ae_xaiReadable ae \<and> query_err \<noteq> None then (query_err, w)
      else let rows = rows_of (queryActiveXAIStates (ae_sched ae) (xw_states w) providerXAI (env_unix (ae_sched ae)));
               missing = (if ae_xaiReadable ae then missing_statements (ae_xai ae) rows else []);
               (err, changed, w') = run_statements (ae_fails ae) 0 (missing @ replaced_statements (ae_xai ae)) False w
           in (err, if err = None \<and> changed then invalidate_xai w' else w'))"

section \<open>All operations\<close>

datatype xai_op =
    RecordXAI xai_parsers usageRecord int
  | ExpireXAI
  | CleanXAI "string option"

fun xai_step :: "auth_env \<Rightarrow> xai_op \<Rightarrow> xai_world \<Rightarrow> xai_world" where
  "xai_step ae (RecordXAI parsers rec status) w = snd (recordXAIStateIfNeeded ae parsers rec status w)"
| "xai_step ae ExpireXAI w = snd (expireXAIStates (ae_fails ae 0) (env_unix (ae_sched ae)) w)"
| "xai_step ae (CleanXAI query_err) w = snd (clearReplacedOrMissingXAIStates ae query_err w)"

text \<open>What every operation is built from.\<close>

locale xai_relation =
  fixes R :: "xai_world \<Rightarrow> xai_world \<Rightarrow> bool"
  assumes R_refl: "R w w"
    and R_trans: "R u v \<Longrightarrow> R v w \<Longrightarrow> R u w"
    and R_clear: "R w (snd (clear_states P w))"
    and R_invalidate: "R w (invalidate_xai w)"
    and R_write: "R w (snd (write_state err row w))"
begin

lemma R_statements:
  "(\<And>s. s \<in> set ss \<Longrightarrow> \<exists>P. s = clear_states P) \<Longrightarrow> R w (snd (snd (run_statements fails n ss b w)))"
proof (rule run_statements_related [where R = R])
  show "reflp R" "transp R" using R_refl R_trans by (auto intro: reflpI transpI)
qed (use R_clear in fastforce)

lemma R_recovered: "R w (snd (snd (clearRecoveredXAIState ae rec w)))"
  unfolding clearRecoveredXAIState_def by (rule R_statements) auto

lemma R_record: "R w (snd (recordXAIStateIfNeeded ae parsers rec status w))"
proof -
  obtain err changed w' where run: "clearRecoveredXAIState ae rec w = (err, changed, w')" by (metis prod_cases3)
  have "R w w'" using R_recovered [of w ae rec] run by simp
  then have "R w (invalidate_xai w')" using R_invalidate R_trans by blast
  with \<open>R w w'\<close> run show ?thesis
    by (cases err) (auto simp: recordXAIStateIfNeeded_def Let_def R_refl R_write split: prod.split)
qed

lemma R_expire: "R w (snd (expireXAIStates err now w))"
proof -
  obtain b w' where run: "clear_states (\<lambda>r. active_state r \<and> 0 < xs_ResetAt r \<and> xs_ResetAt r \<le> now) w = (b, w')" by fastforce
  then have "R w w'" using R_clear by (metis snd_conv)
  then show ?thesis using run R_invalidate R_trans R_refl by (auto simp: expireXAIStates_def split: option.split)
qed

lemma R_clean: "R w (snd (clearReplacedOrMissingXAIStates ae query_err w))"
proof -
  let ?rows = "rows_of (queryActiveXAIStates (ae_sched ae) (xw_states w) providerXAI (env_unix (ae_sched ae)))"
  let ?ss = "(if ae_xaiReadable ae then missing_statements (ae_xai ae) ?rows else []) @ replaced_statements (ae_xai ae)"
  obtain err changed w' where run: "run_statements (ae_fails ae) 0 ?ss False w = (err, changed, w')" by (metis prod_cases3)
  have "R w (snd (snd (run_statements (ae_fails ae) 0 ?ss False w)))"
    by (rule R_statements) (auto simp: missing_statements_def replaced_statements_def split_def Let_def)
  then have "R w w'" "R w (invalidate_xai w')" using run R_invalidate R_trans by auto
  then show ?thesis using run R_refl by (simp add: clearReplacedOrMissingXAIStates_def)
qed

lemma R_step: "R w (xai_step ae op w)"
  by (cases op) (simp_all add: R_record R_expire R_clean)

end

section \<open>The operations run the protocol of the cache\<close>

lemma xai_provider [simp]: "provider_of ''xai'' = Some XAI"
  by code_simp

lemma xai_cache_effects [simp]:
  "sc_xai (xw_cache (invalidate_xai w)) = slot_invalidate (sc_xai (xw_cache w))"
  "sc_codex (xw_cache (invalidate_xai w)) = sc_codex (xw_cache w)"
  "xw_states (invalidate_xai w) = xw_states w"
  "sc_xai (xw_cache (snd (write_state err row w))) = slot_finish_write (slot_begin_write (sc_xai (xw_cache w)))"
  "sc_codex (xw_cache (snd (write_state err row w))) = sc_codex (xw_cache w)"
  "xw_cache (snd (clear_states P w)) = xw_cache w"
  "xw_states (snd (clear_states P w)) = map (\<lambda>r. if P r then state_off r else r) (xw_states w)"
  "xw_states (snd (write_state None row w)) = upsert_row state_key (\<lambda>_. row) row (xw_states w)"
  by (simp_all add: invalidate_xai_def write_state_def clear_states_def invalidateProvider_def beginRestrictionWrite_def
      finishRestrictionWrite_def update_rows_def split_def Let_def)

definition shows_xai :: "(xaiAccountStateRow, xaiAccountStateRow list) protocol \<Rightarrow> xai_world \<Rightarrow> bool" where
  "shows_xai s w \<longleftrightarrow> pr_slot s = sc_xai (xw_cache w) \<and> pr_db s = xw_states w"

definition xai_runs :: "xai_world \<Rightarrow> xai_world \<Rightarrow> bool" where
  "xai_runs w w' \<longleftrightarrow> sc_codex (xw_cache w') = sc_codex (xw_cache w)
     \<and> (\<forall>s. shows_xai s w \<longrightarrow> (\<exists>s'. (protocol_step xai_build xai_removes)\<^sup>*\<^sup>* s s' \<and> shows_xai s' w'
          \<and> pr_writers s' = pr_writers s \<and> pr_readers s' = pr_readers s \<and> pr_now s' = pr_now s))"

interpretation xai_protocol: xai_relation xai_runs
proof unfold_locales
  show "xai_runs w w" for w by (auto simp: xai_runs_def)
  show "xai_runs u w" if "xai_runs u v" "xai_runs v w" for u v w
    using that unfolding xai_runs_def by (metis rtranclp_trans)
  show "xai_runs w (snd (clear_states P w))" for w P
  proof -
    have "xai_removes (xw_states (snd (clear_states P w))) (xw_states w)"
      by (auto simp: xai_removes_def state_off_def)
    then have "\<exists>s'. protocol_step xai_build xai_removes s s' \<and> shows_xai s' (snd (clear_states P w))
        \<and> pr_writers s' = pr_writers s \<and> pr_readers s' = pr_readers s \<and> pr_now s' = pr_now s" if "shows_xai s w" for s
      using that by (intro exI [of _ "s\<lparr>pr_db := xw_states (snd (clear_states P w))\<rparr>"]) (auto simp: shows_xai_def intro: step_remove)
    then show ?thesis unfolding xai_runs_def by (simp del: xai_cache_effects(7)) (meson r_into_rtranclp)
  qed
  show "xai_runs w (invalidate_xai w)" for w
  proof -
    have "\<exists>s'. protocol_step xai_build xai_removes s s' \<and> shows_xai s' (invalidate_xai w)
        \<and> pr_writers s' = pr_writers s \<and> pr_readers s' = pr_readers s \<and> pr_now s' = pr_now s" if "shows_xai s w" for s
      using that step_invalidate [of xai_build xai_removes s]
      by (intro exI [of _ "s\<lparr>pr_slot := slot_invalidate (pr_slot s), pr_generations := Suc (pr_generations s)\<rparr>"])
        (simp add: shows_xai_def)
    then show ?thesis unfolding xai_runs_def by simp (meson r_into_rtranclp)
  qed
  show "xai_runs w (snd (write_state err row w))" for w err row
  proof -
    have "\<exists>s'. (protocol_step xai_build xai_removes)\<^sup>*\<^sup>* s s' \<and> shows_xai s' (snd (write_state err row w))
        \<and> pr_writers s' = pr_writers s \<and> pr_readers s' = pr_readers s \<and> pr_now s' = pr_now s" if "shows_xai s w" for s
      using that protocol_bracket [of xai_build xai_removes s "xw_states (snd (write_state err row w))"] by (simp add: shows_xai_def)
    then show ?thesis by (simp add: xai_runs_def)
  qed
qed

text \<open>The primary key of the table.\<close>

definition states_ok :: "xai_world \<Rightarrow> bool" where
  "states_ok w \<longleftrightarrow> distinct (map state_key (xw_states w))"

interpretation state_keys: xai_relation "\<lambda>w v. states_ok w \<longrightarrow> states_ok v"
proof unfold_locales
  show "states_ok w \<longrightarrow> states_ok (snd (clear_states P w))" for w P
    using update_rows_keys [of state_key state_off P "xw_states w"]
    by (simp add: states_ok_def clear_states_def state_off_def state_key_def split_def Let_def)
  show "states_ok w \<longrightarrow> states_ok (snd (write_state err row w))" for w err row
    by (auto simp: states_ok_def write_state_def split_def Let_def intro: upsert_distinct)
qed (auto simp: states_ok_def)

section \<open>What the statements leave\<close>

lemma run_clears:
  assumes "\<forall>n. fails n = None" and "\<And>P r. P \<in> set Ps \<Longrightarrow> \<not> P (state_off r)"
  shows "run_statements fails n (map clear_states Ps) b w
     = (None, b \<or> list_ex (\<lambda>r. list_ex (\<lambda>P. P r) Ps) (xw_states w),
        w\<lparr>xw_states := map (\<lambda>r. if list_ex (\<lambda>P. P r) Ps then state_off r else r) (xw_states w)\<rparr>)"
  using assms(2)
proof (induction Ps arbitrary: n b w)
  case (Cons P Ps)
  have off: "\<not> Q (state_off r)" if "Q \<in> set Ps" for Q r using Cons.prems [of Q r] that by simp
  define v where "v = w\<lparr>xw_states := map (\<lambda>r. if P r then state_off r else r) (xw_states w)\<rparr>"
  have first: "clear_states P w = (list_ex P (xw_states w), v)"
    by (simp add: clear_states_def update_rows_def v_def)
  have rest: "run_statements fails (Suc n) (map clear_states Ps) (b \<or> list_ex P (xw_states w)) v
      = (None, (b \<or> list_ex P (xw_states w)) \<or> list_ex (\<lambda>r. list_ex (\<lambda>P. P r) Ps) (xw_states v),
         v\<lparr>xw_states := map (\<lambda>r. if list_ex (\<lambda>P. P r) Ps then state_off r else r) (xw_states v)\<rparr>)"
    by (rule Cons.IH) (rule off)
  have flag: "(b \<or> list_ex P (xw_states w)) \<or> list_ex (\<lambda>r. list_ex (\<lambda>P. P r) Ps) (xw_states v)
      \<longleftrightarrow> b \<or> list_ex (\<lambda>r. list_ex (\<lambda>P. P r) (P # Ps)) (xw_states w)"
    using off by (auto simp: list_ex_iff v_def)
  have combined: "(\<lambda>r. if list_ex (\<lambda>P. P r) Ps then state_off r else r) \<circ> (\<lambda>r. if P r then state_off r else r)
      = (\<lambda>r. if list_ex (\<lambda>P. P r) (P # Ps) then state_off r else r)"
    using off by (auto simp: fun_eq_iff list_ex_iff)
  have rows: "v\<lparr>xw_states := map (\<lambda>r. if list_ex (\<lambda>P. P r) Ps then state_off r else r) (xw_states v)\<rparr>
      = w\<lparr>xw_states := map (\<lambda>r. if list_ex (\<lambda>P. P r) (P # Ps) then state_off r else r) (xw_states w)\<rparr>"
    unfolding v_def combined [symmetric] by simp
  have "run_statements fails n (map clear_states (P # Ps)) b w
      = run_statements fails (Suc n) (map clear_states Ps) (b \<or> list_ex P (xw_states w)) v"
    using assms(1) first by (simp add: assms(1) [rule_format])
  then show ?case unfolding rest flag rows .
qed (simp add: list_ex_iff)

lemma recovers_off [simp]: "\<not> recovers t a (state_off r)"
  by (simp add: recovers_def active_state_def state_off_def)

lemma run_spares:
  assumes "r \<in> set (xw_states w)" and "\<And>P. P \<in> set Ps \<Longrightarrow> \<not> P r"
  shows "r \<in> set (xw_states (snd (snd (run_statements fails n (map clear_states Ps) b w))))"
  using assms
proof (induction Ps arbitrary: n b w)
  case (Cons P Ps)
  obtain c w' where w': "clear_states P w = (c, w')" by fastforce
  have "r \<in> set (xw_states (snd (clear_states P w)))" using Cons.prems by force
  with Cons w' show ?case by (cases "fails n") auto
qed simp

text \<open>The conditions of the statements of a clean-up.\<close>

definition missing_conditions :: "configuredAccount list \<Rightarrow> xaiAccountStateRow list \<Rightarrow> (xaiAccountStateRow \<Rightarrow> bool) list" where
  "missing_conditions configured rows =
     (let (visible, states) = filterMissingXAIStateRows rows configured True
      in map (\<lambda>s r. xs_Provider r = ''xai'' \<and> xs_StateKey r = xs_StateKey s)
           (filter (\<lambda>s. xs_StateKey s \<notin> xs_StateKey ` set visible) states))"

definition replaced_conditions :: "configuredAccount list \<Rightarrow> (xaiAccountStateRow \<Rightarrow> bool) list" where
  "replaced_conditions configured =
     map (\<lambda>cfg r. active_state r \<and> xs_AuthFile r = cg_AuthFile cfg \<and> xs_ObservedAt r < cg_AuthFileMTime cfg)
       (filter (\<lambda>cfg. 0 < cg_AuthFileMTime cfg) configured)"

lemma statements_conditions:
  "missing_statements configured rows = map clear_states (missing_conditions configured rows)"
  "replaced_statements configured = map clear_states (replaced_conditions configured)"
  by (simp_all add: missing_statements_def missing_conditions_def replaced_statements_def replaced_conditions_def split_def Let_def)

lemma clean_states:
  assumes "query_err = None \<or> \<not> ae_xaiReadable ae"
  shows "xw_states (snd (clearReplacedOrMissingXAIStates ae query_err w)) = xw_states (snd (snd (run_statements (ae_fails ae) 0
      (map clear_states ((if ae_xaiReadable ae then missing_conditions (ae_xai ae)
           (rows_of (queryActiveXAIStates (ae_sched ae) (xw_states w) providerXAI (env_unix (ae_sched ae)))) else [])
         @ replaced_conditions (ae_xai ae))) False w)))"
  using assms
  by (cases "ae_xaiReadable ae") (auto simp: clearReplacedOrMissingXAIStates_def split_def Let_def statements_conditions)

lemma scan_columns [simp]:
  "xs_StateKey (scanXAIState env now r) = xs_StateKey r" "keeps_state configured (scanXAIState env now r) = keeps_state configured r"
  by (simp_all add: scanXAIState_def keeps_state_def)

text \<open>A condition of the missing states holds of no row that is kept, nor of one that the query did not return.\<close>

lemma missing_condition_spares:
  assumes P: "P \<in> set (missing_conditions configured
      (rows_of (queryActiveXAIStates env rows providerXAI now)))"
    and r: "r \<in> set rows" "distinct (map state_key rows)" "keeps_state configured r"
  shows "\<not> P r"
proof
  assume "P r"
  let ?rows = "rows_of (queryActiveXAIStates env rows providerXAI now)"
  have query: "set ?rows = scanXAIState env now `
      {r \<in> set rows. xs_Provider r = providerXAI \<and> xs_Active r \<and> (xs_ResetAt r = 0 \<or> now < xs_ResetAt r)}"
    by (rule set_query_xai) (simp add: rows_of_def queryActiveXAIStates_def)
  let ?out = "filter (keeps_state configured) ?rows"
  from P \<open>P r\<close> obtain s where s: "s \<in> set ?rows" "xs_StateKey s \<notin> xs_StateKey ` set ?out" "xs_Provider r = ''xai''" "xs_StateKey r = xs_StateKey s"
    by (auto simp: missing_conditions_def filterMissingXAIStateRows_def Let_def split: if_splits dest: in_set_dropD)
  then obtain q where q: "q \<in> set rows" "s = scanXAIState env now q" "xs_Provider q = ''xai''"
    unfolding query by (auto simp: providerXAI_def)
  with s r have "q = r" by (simp add: state_key_def distinct_map inj_on_def)
  with r(3) q(2) s(1) have "s \<in> set ?out" by simp
  with s(2) show False by blast
qed

section \<open>Examples\<close>

definition example_xai_world :: "xaiAccountStateRow list \<Rightarrow> xai_world" where
  "example_xai_world rows = \<lparr>xw_states = rows, xw_cache = \<lparr>sc_codex = empty_slot, sc_xai = empty_slot\<rparr>, xw_refreshRequests = 0\<rparr>"

definition example_xai_record :: "bool \<Rightarrow> usageRecord" where
  "example_xai_record failing = no_usage\<lparr>ur_Provider := '' xAI'', ur_AuthID := ''b.json'', ur_Failed := failing, ur_Generate := True\<rparr>"

definition no_parsers :: xai_parsers where "no_parsers = (\<lambda>_. None, \<lambda>_. None)"

definition example_account :: "string \<Rightarrow> configuredAccount" where
  "example_account file = \<lparr>cg_AuthIndex = [], cg_AuthID = file, cg_Source = [], cg_Provider = ''xai'', cg_Email = [],
     cg_Name = [], cg_AuthFile = file, cg_AuthFileMTime = 0, cg_Disabled = False, cg_Expired = False, cg_PlanType = [],
     cg_XAITier = [], cg_XAITierSource = [], cg_XAITierDetail = [], cg_RuntimeStatus = [], cg_RuntimeMessage = [],
     cg_RuntimeUnavailable = False, cg_AccessToken = [], cg_ChatGPTAccountID = []\<rparr>"

section \<open>The account of a record\<close>

text \<open>
  What a record calls its account: its file or that of a configured account, and its three identities. It stands for the
  candidates of the files among them, and when there is none for those known by any of them.
\<close>

definition record_names :: "configuredAccount list \<Rightarrow> usageRecord \<Rightarrow> string list" where
  "record_names configured rec = [record_account configured [] rec, ur_AuthID rec, ur_AuthIndex rec, ur_Source rec]"

definition record_identifies :: "fingerprinter \<Rightarrow> configuredAccount list \<Rightarrow> usageRecord \<Rightarrow> schedulerAuthCandidate \<Rightarrow> bool" where
  "record_identifies fp configured rec c \<longleftrightarrow>
     (let names = record_names configured rec; files = filter (\<lambda>n. fileNameIfJSON n \<noteq> []) names
      in list_ex (\<lambda>n. identifies fp n c) (if files \<noteq> [] then files else names))"

lemma xai_record_file:
  "firstNonEmptyString (fst (xaiAuthFileStateForRecord ae rec) # others) = TrimSpace (record_account (ae_xai ae) others rec)"
proof -
  let ?files = "map fileNameIfJSON [ur_AuthFile rec, ur_AuthIndex rec, ur_Source rec, ur_AuthID rec]"
  have blank: "TrimSpace (fileNameIfJSON v) = [] \<longleftrightarrow> fileNameIfJSON v = []" for v using fileNameIfJSON_not_blank by auto
  have normal: "normalizeAccountAlias a = a \<and> a \<noteq> []" if "a \<in> set (configuredAccountMatchAliases cfg counts)" for a cfg counts
    using that normalizeAccountAliases_normal by (auto simp: configuredAccountMatchAliases_def Let_def split: if_splits)
  have accept: "aliasesOverlap (normalizeAccountAliases vs) (configuredAccountMatchAliases cfg counts)
      \<longleftrightarrow> set (normalizeAccountAliases vs) \<inter> set (configuredAccountMatchAliases cfg counts) \<noteq> {}" for vs cfg counts
  proof -
    have "map normalizeAccountAlias (normalizeAccountAliases vs) = normalizeAccountAliases vs"
      using normalizeAccountAliases_normal by (intro map_idI) blast
    then show ?thesis
      using normal [of _ cfg counts] normalizeAccountAliases_normal [of _ vs]
      by (auto simp: aliasesOverlap_def list_ex_iff)
  qed
  show ?thesis
  proof (cases "filter (\<lambda>f. f \<noteq> []) ?files")
    case Nil
    then show ?thesis
      by (auto simp: xaiAuthFileStateForRecord_def record_file_state_def record_account_def Let_def accept take_1_filter
          split: option.split if_splits)
  next
    case (Cons f fs)
    then show ?thesis
      by (auto simp: xaiAuthFileStateForRecord_def record_file_state_def record_account_def authFileStateForName_def Let_def blank
          split: if_splits)
  qed
qed

lemma fileNameIfJSON_alias: "fileNameIfJSON (normalizeAccountAlias v) = ToLower (fileNameIfJSON v)"
  by (simp add: fileNameIfJSON_def normalizeAccountAlias_def Let_def flip: ToLower_TrimSpace ToLower_Base)

lemma record_has_key:
  assumes "\<forall>cfg\<in>set (ae_xai ae). cg_AuthFile cfg = [] \<or> TrimSpace (cg_AuthFile cfg) \<noteq> []" "record_identifies fp (ae_xai ae) rec c"
  shows "xaiStateKeyForRecord rec (fst (xaiAuthFileStateForRecord ae rec)) \<noteq> []"
proof -
  let ?path = "fst (xaiAuthFileStateForRecord ae rec)"
  from assms(2) obtain n where "n \<in> set (record_names (ae_xai ae) rec)" "TrimSpace n \<noteq> []"
    by (auto simp: record_identifies_def Let_def list_ex_iff split: if_splits dest: identifies_not_blank)
  moreover have "TrimSpace (record_account (ae_xai ae) [] rec) = TrimSpace ?path"
    using xai_record_file [of ae rec "[]"] by (cases "TrimSpace ?path = []") (simp_all add: Let_def)
  ultimately have "firstNonEmptyString [?path, ur_AuthID rec, ur_AuthIndex rec, ur_Source rec] \<noteq> []"
    by (auto simp: record_names_def firstNonEmptyString_Nil_iff simp del: firstNonEmptyString.simps)
  moreover have "?path = [] \<or> TrimSpace ?path \<noteq> []"
    using assms(1) fileNameIfJSON_not_blank
    by (auto simp: xaiAuthFileStateForRecord_def record_file_state_def authFileStateForName_def Let_def
        split: option.splits if_splits dest!: find_Some_mem)
  ultimately show ?thesis
    by (auto simp: xaiStateKeyForRecord_def normalizeAccountAlias_def Let_def split: if_splits)
qed

text \<open>The row that is written restricts the candidates of the record.\<close>

definition state_values :: "xaiAccountStateRow \<Rightarrow> string list" where
  "state_values r = [xs_StateKey r, xs_AuthID r, xs_AuthIndex r, xs_Source r, xs_AuthFile r]"

lemma row_aliases_file:
  assumes "v \<in> set (state_values r)" "fileNameIfJSON v \<noteq> []"
  shows "snd (xaiRowAliases r) \<and> set (normalizeAccountAliases [fileNameIfJSON v]) \<subseteq> set (fst (xaiRowAliases r))"
proof -
  define files where "files = strictAuthStateAliasesForValues (xs_AuthID r) (xs_AuthIndex r) (xs_Source r) (xs_AuthFile r)"
  define strict where "strict = (if fileNameIfJSON (xs_StateKey r) \<noteq> [] then normalizeAccountAliases (files @ [fileNameIfJSON (xs_StateKey r)]) else files)"
  have self: "normalizeAccountAlias (fileNameIfJSON v) \<in> set (normalizeAccountAliases [fileNameIfJSON v])"
    using fileNameIfJSON_not_blank [OF assms(2)] by (simp add: normalizeAccountAliases_def normalizeAccountAlias_in_expand)
  have "set (normalizeAccountAliases [fileNameIfJSON v]) \<subseteq> set strict"
  proof (cases "v = xs_StateKey r")
    case True
    then have "strict = expandAccountAliases (files @ [fileNameIfJSON v]) True"
      using assms(2) by (simp add: strict_def normalizeAccountAliases_def)
    moreover have "set (expandAccountAliases [fileNameIfJSON v] True) \<subseteq> set (expandAccountAliases (files @ [fileNameIfJSON v]) True)"
      by (rule expandAccountAliases_mono) simp
    ultimately show ?thesis by (simp add: normalizeAccountAliases_def)
  next
    case False
    with assms have "set (normalizeAccountAliases [fileNameIfJSON v]) \<subseteq> set files"
      unfolding files_def strictAuthStateAliasesForValues_def normalizeAccountAliases_def
      by (intro expandAccountAliases_mono) (auto simp: state_values_def)
    moreover have "set files \<subseteq> set strict"
    proof -
      have "set files = set (normalizeAccountAliases files)"
        unfolding files_def strictAuthStateAliasesForValues_def normalizeAccountAliases_def by (rule set_expandAccountAliases_idem [symmetric])
      also have "\<dots> \<subseteq> set (normalizeAccountAliases (files @ [fileNameIfJSON (xs_StateKey r)]))"
        unfolding normalizeAccountAliases_def by (rule expandAccountAliases_mono) auto
      finally show ?thesis by (simp add: strict_def)
    qed
    ultimately show ?thesis by blast
  qed
  with self have "strict \<noteq> [] \<and> set (normalizeAccountAliases [fileNameIfJSON v]) \<subseteq> set strict" by auto
  moreover have "xaiRowAliases r = (if strict \<noteq> [] then (strict, True) else (xaiStateAliases r, False))"
    unfolding xaiRowAliases_def Let_def strict_def files_def by (rule refl)
  ultimately show ?thesis by simp
qed

lemma row_aliases_broad:
  assumes "\<forall>v\<in>set (state_values r). fileNameIfJSON v = []"
  shows "xaiRowAliases r = (normalizeAccountAliases (state_values r), False)"
proof -
  have "strictAuthStateAliasesForValues (xs_AuthID r) (xs_AuthIndex r) (xs_Source r) (xs_AuthFile r) = []"
    using assms by (simp add: state_values_def strictAuthStateAliasesForValues_def normalizeAccountAliases_def expandAccountAliases_Nil_iff)
  with assms show ?thesis by (simp add: xaiRowAliases_def xaiStateAliases_def state_values_def)
qed

lemma new_state_restricts:
  assumes "record_identifies fp (ae_xai ae) rec c"
  shows "xai_restricts fp (new_state rec status outcome now (xaiAuthFileStateForRecord ae rec)) c"
proof -
  let ?row = "new_state rec status outcome now (xaiAuthFileStateForRecord ae rec)"
  let ?path = "fst (xaiAuthFileStateForRecord ae rec)"
  have row: "state_values ?row = [xaiStateKeyForRecord rec ?path, TrimSpace (ur_AuthID rec), TrimSpace (ur_AuthIndex rec),
      TrimSpace (ur_Source rec), ?path]"
    by (simp add: new_state_def state_values_def split_def)
  have path: "TrimSpace (record_account (ae_xai ae) [] rec) = TrimSpace ?path"
    using xai_record_file [of ae rec "[]"] by (cases "TrimSpace ?path = []") (simp_all add: Let_def)
  have held: "\<exists>v\<in>set (state_values ?row). TrimSpace v = TrimSpace n" if "n \<in> set (record_names (ae_xai ae) rec)" for n
    using that unfolding record_names_def row by (auto simp: path)
  show ?thesis
  proof (cases "filter (\<lambda>n. fileNameIfJSON n \<noteq> []) (record_names (ae_xai ae) rec) = []")
    case False
    with assms obtain n where n: "n \<in> set (record_names (ae_xai ae) rec)" "fileNameIfJSON n \<noteq> []" "identifies fp n c"
      by (auto simp: record_identifies_def Let_def list_ex_iff split: if_splits)
    from held [OF n(1)] obtain v where "v \<in> set (state_values ?row)" "fileNameIfJSON v = fileNameIfJSON n"
      by (metis fileNameIfJSON_TrimSpace)
    with row_aliases_file [of v ?row] n show ?thesis
      by (auto simp: row_restricts_def identifies_def Let_def list_ex_iff)
  next
    case True
    with assms obtain n where n: "n \<in> set (record_names (ae_xai ae) rec)" "identifies fp n c"
      by (auto simp: record_identifies_def list_ex_iff)
    from True have none: "fileNameIfJSON m = []" if "m \<in> set (record_names (ae_xai ae) rec)" for m
      using that by (simp add: filter_empty_conv)
    then have ids: "fileNameIfJSON (ur_AuthID rec) = []" "fileNameIfJSON (ur_AuthIndex rec) = []" "fileNameIfJSON (ur_Source rec) = []"
        "fileNameIfJSON (record_account (ae_xai ae) [] rec) = []" by (simp_all add: record_names_def)
    have "fileNameIfJSON ?path = []" using ids(4) path by (metis fileNameIfJSON_TrimSpace)
    moreover have "fileNameIfJSON (firstNonEmptyString [ur_AuthID rec, ur_AuthIndex rec, ur_Source rec]) = []"
      using ids by (auto simp: Let_def)
    ultimately have "\<forall>v\<in>set (state_values ?row). fileNameIfJSON v = []"
      unfolding row using ids by (simp add: xaiStateKeyForRecord_def fileNameIfJSON_alias del: firstNonEmptyString.simps)
    moreover have "set (normalizeAccountAliases [n]) \<subseteq> set (normalizeAccountAliases (state_values ?row))"
      unfolding normalizeAccountAliases_def by (rule expandAccountAliases_mono_trimmed) (use held [OF n(1)] in auto)
    ultimately show ?thesis
      using n none [OF n(1)] by (auto simp: row_aliases_broad row_restricts_def identifies_def Let_def list_ex_iff)
  qed
qed

section \<open>Properties\<close>

text \<open>C28: Every operation on the xAI restrictions refines the protocol the cache is proved for: seen through the xAI slot and
  the table, a recording, recovery, expiry or clean-up is a run of protocol steps whichever statement fails, the bracket
  around a write is always closed, and the codex slot is left alone.\<close>

theorem xai_operations_run_protocol:
  assumes "shows_xai s w"
  shows "\<exists>s'. (protocol_step xai_build xai_removes)\<^sup>*\<^sup>* s s' \<and> shows_xai s' (xai_step ae op w)
       \<and> pr_writers s' = pr_writers s \<and> pr_readers s' = pr_readers s
       \<and> sc_codex (xw_cache (xai_step ae op w)) = sc_codex (xw_cache w)"
  using xai_protocol.R_step [of w ae op] assms unfolding xai_runs_def by blast

theorem xai_operations_run_protocol_witness:
  "let w = (example_xai_world [example_state ''b.json''])\<lparr>xw_cache := \<lparr>sc_codex = empty_slot, sc_xai = pr_slot example_xai_published\<rparr>\<rparr>
   in \<exists>s'. (protocol_step xai_build xai_removes)\<^sup>*\<^sup>* example_xai_published s'
        \<and> shows_xai s' (xai_step (example_auth_env 20) (RecordXAI no_parsers (example_xai_record True) 403) w)"
proof -
  let ?w = "(example_xai_world [example_state ''b.json''])\<lparr>xw_cache := \<lparr>sc_codex = empty_slot, sc_xai = pr_slot example_xai_published\<rparr>\<rparr>"
  have "shows_xai example_xai_published ?w"
    by (simp add: shows_xai_def example_xai_world_def example_xai_published_def protocol_init_def)
  from xai_operations_run_protocol [OF this, of "example_auth_env 20" "RecordXAI no_parsers (example_xai_record True) 403"]
  show ?thesis by (auto simp: Let_def)
qed

text \<open>C29: A restricting xAI failure takes effect at once. When the failure calls for a state, every candidate the record stands
  for is blocked afterwards (until the reset time, if there is one), and the cache cannot serve a snapshot taken before. A record stands
  for the candidates of the credential files it names (or of the file of the first configured account that shares an alias with
  it), and where there is no file for those known by its auth ID, its auth index or its source.\<close>

theorem xai_failure_blocks:
  assumes "EqualFold (TrimSpace (ur_Provider rec)) ''xai''"
    and "xaiStateForRecord parsers rec status (record_time ae rec) = (state, reason, reset)" "state \<noteq> []"
    and "\<forall>cfg\<in>set (ae_xai ae). cg_AuthFile cfg = [] \<or> TrimSpace (cg_AuthFile cfg) \<noteq> []" "ae_fails ae 0 = None"
    and "reset = 0 \<or> now < reset"
    and "record_identifies fp (ae_xai ae) rec c"
  shows "\<exists>w'. recordXAIStateIfNeeded ae parsers rec status w = (None, w') \<and> xai_blocks fp now (xw_states w') c
       \<and> \<not> sl_Initialized (sc_xai (xw_cache w'))"
proof -
  let ?row = "new_state rec status (state, reason, reset) (record_time ae rec) (xaiAuthFileStateForRecord ae rec)"
  let ?w = "snd (write_state None ?row w)"
  have "ur_Failed rec" using state_parts [of parsers rec status "record_time ae rec"] assms(2,3) by (auto split: if_splits)
  moreover have "xaiStateKeyForRecord rec (fst (xaiAuthFileStateForRecord ae rec)) \<noteq> []"
    using assms(4,7) by (rule record_has_key)
  ultimately have "recordXAIStateIfNeeded ae parsers rec status w = (None, ?w)"
    using assms(1-3,5) by (simp add: recordXAIStateIfNeeded_def write_state_def split_def Let_def)
  moreover have "?row \<in> set (xw_states ?w)" by (simp add: upsert_replaced)
  moreover have "xs_Provider ?row = providerXAI" "xs_Active ?row" "xs_ResetAt ?row = reset"
    by (simp_all add: new_state_def providerXAI_def split_def)
  ultimately show ?thesis
    using assms(6) new_state_restricts [OF assms(7)] by (auto simp: xai_blocks_def list_ex_iff slot_finish_write_def intro!: bexI [of _ ?row])
qed

theorem xai_failure_blocks_witness:
  "\<exists>w'. recordXAIStateIfNeeded (example_auth_env 20) no_parsers (example_xai_record True) 403 (example_xai_world []) = (None, w')
     \<and> xai_blocks (\<lambda>s. s) 999 (xw_states w') (example_candidate ''B.json'') \<and> \<not> sl_Initialized (sc_xai (xw_cache w'))"
proof (rule xai_failure_blocks)
  show "EqualFold (TrimSpace (ur_Provider (example_xai_record True))) ''xai''" by code_simp
  show "xaiStateForRecord no_parsers (example_xai_record True) 403 (record_time (example_auth_env 20) (example_xai_record True))
      = (''forbidden'', ''403 permission_denied: xAI access is denied'', 0)" by code_simp
  show "record_identifies (\<lambda>s. s) (ae_xai (example_auth_env 20)) (example_xai_record True) (example_candidate ''B.json'')" by code_simp
qed (simp_all add: example_auth_env_def)

text \<open>A success lifts exactly what it may lift. When a generated xAI request succeeds and no statement fails, the active
  states of the account (by any of its aliases) that were observed before the request and say unauthorized, forbidden or
  rate limited are cleared, every other row stays as it is (an exhausted free usage and a newer state among
  them), and the cache is invalidated exactly when a row changed.\<close>

theorem xai_success_lifts:
  assumes "EqualFold (TrimSpace (ur_Provider rec)) ''xai''" "isGenerated rec" "\<not> ur_Failed rec" "successfulStatusCode status"
    and "\<forall>n. ae_fails ae n = None"
  defines "lifted r \<equiv> list_ex (\<lambda>a. recovers (record_time ae rec) a r) (recovery_aliases ae rec)"
  shows "\<exists>w'. recordXAIStateIfNeeded ae parsers rec status w = (None, w')
       \<and> xw_states w' = map (\<lambda>r. if lifted r then state_off r else r) (xw_states w)
       \<and> xw_cache w' = (if list_ex lifted (xw_states w) then snd (invalidateProvider ''xai'' (xw_cache w)) else xw_cache w)"
proof -
  let ?Ps = "map (recovers (record_time ae rec)) (recovery_aliases ae rec)"
  let ?w = "w\<lparr>xw_states := map (\<lambda>r. if lifted r then state_off r else r) (xw_states w)\<rparr>"
  have "clearRecoveredXAIState ae rec w = (None, list_ex lifted (xw_states w), ?w)"
  proof -
    have "run_statements (ae_fails ae) 0 (map clear_states ?Ps) False w
        = (None, False \<or> list_ex (\<lambda>r. list_ex (\<lambda>P. P r) ?Ps) (xw_states w),
           w\<lparr>xw_states := map (\<lambda>r. if list_ex (\<lambda>P. P r) ?Ps then state_off r else r) (xw_states w)\<rparr>)"
      by (rule run_clears [OF assms(5)]) auto
    then show ?thesis unfolding clearRecoveredXAIState_def lifted_def by (simp add: comp_def list_ex_iff)
  qed
  then have "recordXAIStateIfNeeded ae parsers rec status w = (None, if list_ex lifted (xw_states w) then invalidate_xai ?w else ?w)"
    using assms(1-4) by (simp add: recordXAIStateIfNeeded_def)
  then show ?thesis by (auto simp: invalidate_xai_def split_def Let_def)
qed

theorem xai_success_lifts_witness:
  "\<exists>w'. recordXAIStateIfNeeded (example_auth_env 20) no_parsers (example_xai_record False) 200
         (example_xai_world [example_state ''b.json'', (example_state ''c.json'')\<lparr>xs_AuthFile := ''B.json'', xs_State := ''free_usage_exhausted''\<rparr>]) = (None, w')
     \<and> map xs_Active (xw_states w') = [False, True]"
proof -
  let ?w = "example_xai_world [example_state ''b.json'', (example_state ''c.json'')\<lparr>xs_AuthFile := ''B.json'', xs_State := ''free_usage_exhausted''\<rparr>]"
  have hyps: "EqualFold (TrimSpace (ur_Provider (example_xai_record False))) ''xai''" "isGenerated (example_xai_record False)"
      "\<not> ur_Failed (example_xai_record False)" "successfulStatusCode 200" by code_simp+
  have ok: "\<forall>n. ae_fails (example_auth_env 20) n = None" by (simp add: example_auth_env_def)
  from xai_success_lifts [OF hyps ok, of no_parsers ?w] obtain w' where
    w': "recordXAIStateIfNeeded (example_auth_env 20) no_parsers (example_xai_record False) 200 ?w = (None, w')"
      "xw_states w' = map (\<lambda>r. if list_ex (\<lambda>a. recovers (record_time (example_auth_env 20) (example_xai_record False)) a r)
         (recovery_aliases (example_auth_env 20) (example_xai_record False)) then state_off r else r) (xw_states ?w)" by blast
  have "map xs_Active (map (\<lambda>r. if list_ex (\<lambda>a. recovers (record_time (example_auth_env 20) (example_xai_record False)) a r)
         (recovery_aliases (example_auth_env 20) (example_xai_record False)) then state_off r else r) (xw_states ?w)) = [False, True]"
    by code_simp
  with w' show ?thesis by auto
qed

text \<open>A clean-up spares what is configured. A state whose account is still configured, and whose credential file was
  not replaced after it was observed, is untouched, whatever else is cleared and wherever the clean-up fails.\<close>

theorem cleanup_spares_configured:
  assumes "r \<in> set (xw_states w)" "distinct (map state_key (xw_states w))" "keeps_state (ae_xai ae) r"
    and "\<forall>cfg\<in>set (ae_xai ae). cg_AuthFile cfg = xs_AuthFile r \<longrightarrow> cg_AuthFileMTime cfg \<le> xs_ObservedAt r"
  shows "r \<in> set (xw_states (snd (clearReplacedOrMissingXAIStates ae query_err w)))"
proof (cases "query_err = None \<or> \<not> ae_xaiReadable ae")
  case True
  have "\<not> P r" if "P \<in> set (replaced_conditions (ae_xai ae))" for P
    using that assms(4) by (auto simp: replaced_conditions_def)
  moreover have "\<not> P r" if "P \<in> set (missing_conditions (ae_xai ae)
      (rows_of (queryActiveXAIStates (ae_sched ae) (xw_states w) providerXAI (env_unix (ae_sched ae)))))" for P
    using missing_condition_spares [OF that assms(1-3)] .
  ultimately show ?thesis unfolding clean_states [OF True] by (intro run_spares [OF assms(1)]) (auto split: if_splits)
next
  case False
  with assms(1) show ?thesis by (auto simp: clearReplacedOrMissingXAIStates_def)
qed

theorem cleanup_spares_configured_witness:
  "example_state ''b.json'' \<in> set (xw_states (snd (clearReplacedOrMissingXAIStates
     ((example_auth_env 20)\<lparr>ae_xaiReadable := True, ae_xai := [example_account ''b.json'']\<rparr>) None
     (example_xai_world [example_state ''b.json'', example_state ''c.json'']))))"
proof (rule cleanup_spares_configured)
  show "keeps_state (ae_xai ((example_auth_env 20)\<lparr>ae_xaiReadable := True, ae_xai := [example_account ''b.json'']\<rparr>)) (example_state ''b.json'')"
    by code_simp
qed (simp_all add: example_xai_world_def example_account_def state_key_def example_state_def)

text \<open>
  The filter writes what it keeps over the caller's rows, so a missing state that comes before a kept one
  in the order of the query is overwritten before the clearing loop reaches it: it stays active.
\<close>

lemma missing_state_overlooked:
  "map (\<lambda>r. (xs_StateKey r, xs_Active r)) (xw_states (snd (clearReplacedOrMissingXAIStates
     ((example_auth_env 20)\<lparr>ae_xaiReadable := True, ae_xai := [example_account ''b.json'']\<rparr>) None
     (example_xai_world [example_state ''gone.json'', example_state ''b.json'']))))
   = [(''gone.json'', True), (''b.json'', True)]"
  "map (\<lambda>r. (xs_StateKey r, xs_Active r)) (xw_states (snd (clearReplacedOrMissingXAIStates
     ((example_auth_env 20)\<lparr>ae_xaiReadable := True, ae_xai := [example_account ''b.json'']\<rparr>) None
     (example_xai_world [example_state ''b.json'', example_state ''gone.json'']))))
   = [(''b.json'', True), (''gone.json'', False)]"
  by code_simp+

end
