(* ===== verification/Usage.thy ===== *)
theory Usage
  imports Usage_Tables Privacy Protection XAI_States "HOL-Library.Signed_Division"
begin

text \<open>
  Recording the usage of a finished request (\<open>recordUsage\<close>, \<open>main.go\<close>): the row that is inserted, the
  reservation that is released with it in one transaction, and the five restriction updates that follow, each of which
  runs whatever became of the others. The lemmas: a record that is not stored changes nothing; what is stored and
  derived for a failure reaches the tables the picks are restricted by.
\<close>

section \<open>State\<close>

record usage_diagnostics =
  ud_ReleaseMatched :: int
  ud_ReleaseMissed :: int

record usage_world =
  uw_db :: usage_db
  uw_reservations :: reservation_db
  uw_codex :: ban_world
  uw_xai :: "xaiAccountStateRow list"
  uw_diagnostics :: usage_diagnostics

text \<open>
  What one call reads and which of its steps fail: \<open>ue_float\<close> is \<open>strconv.ParseFloat\<close>, \<open>ue_release\<close> the error of the
  delete of a reservation (no other connection writes inside the transaction), and \<open>ue_step k\<close> the errors of the statements of the k-th restriction update.
\<close>

record usage_env =
  ue_auth :: auth_env
  ue_keys :: key_env
  ue_parsers :: xai_parsers
  ue_float :: "string \<Rightarrow> go_float option"
  ue_open :: "string option"
  ue_begin :: "string option"
  ue_insert :: "string option"
  ue_query :: "string option"
  ue_release :: "int \<Rightarrow> string option"
  ue_commit :: "string option"
  ue_recent :: "string option"
  ue_step :: "nat \<Rightarrow> nat \<Rightarrow> string option"

definition step_env :: "usage_env \<Rightarrow> nat \<Rightarrow> auth_env" where
  "step_env ue k = (ue_auth ue)\<lparr>ae_fails := ue_step ue k\<rparr>"

datatype usage_error =
    UsageError string
  | UsagePostProcessError string

fun usage_error_text :: "usage_error \<Rightarrow> string" where
  "usage_error_text (UsageError err) = err"
| "usage_error_text (UsagePostProcessError err) = ''usage stored but derived account state update failed: '' @ err"

definition appendUsagePostProcessError :: "string list \<Rightarrow> string \<Rightarrow> string option \<Rightarrow> string list" where
  "appendUsagePostProcessError errs name err = (case err of None \<Rightarrow> errs | Some e \<Rightarrow> errs @ [name @ '': '' @ e])"

section \<open>The row\<close>

text \<open>64-bit sums, and a division that truncates towards zero.\<close>

definition wrap64 :: "int \<Rightarrow> int" where
  "wrap64 x = signed_take_bit 63 x"

definition durationToMilliseconds :: "int \<Rightarrow> int" where
  "durationToMilliseconds value =
     (if value \<le> 0 then 0 else if 10000 < value then wrap64 (value + 999999) sdiv 1000000 else value)"

definition headerFloat :: "(string \<Rightarrow> go_float option) \<Rightarrow> headers \<Rightarrow> string \<Rightarrow> go_float option" where
  "headerFloat parse headers key = (let value = headerValue headers key in if value = [] then None else parse value)"

definition total_tokens :: "usageDetail \<Rightarrow> int" where
  "total_tokens d =
     (let spent = wrap64 (ud_InputTokens d + ud_OutputTokens d + ud_ReasoningTokens d)
      in if ud_TotalTokens d \<noteq> 0 then ud_TotalTokens d
         else if spent \<noteq> 0 then spent else wrap64 (spent + ud_CachedTokens d))"

definition stored_status :: "usageRecord \<Rightarrow> int" where
  "stored_status rec =
     (let status = uf_StatusCode (ur_Failure rec) in if ur_Failed rec \<and> status = 0 then 599 else status)"

definition stored_latency :: "usageRecord \<Rightarrow> int \<times> int" where
  "stored_latency rec =
     (let latency = durationToMilliseconds (ur_Latency rec); ttft = durationToMilliseconds (ur_TTFT rec)
      in (if 0 < ttft \<and> (latency \<le> 0 \<or> latency < ttft) then ttft else latency, ttft))"

definition header_window :: "(string \<Rightarrow> go_float option) \<Rightarrow> headers \<Rightarrow> string \<Rightarrow> quota_window" where
  "header_window parse headers name =
     (headerFloat parse headers (''x-codex-'' @ name @ ''-used-percent''), headerInt headers (''x-codex-'' @ name @ ''-reset-at''))"

definition normalized_window :: "quota_window \<Rightarrow> quota_window" where
  "normalized_window q = (fst q, normalizeInt64Ptr (snd q))"

definition record_windows :: "(string \<Rightarrow> go_float option) \<Rightarrow> usageRecord \<Rightarrow> quota_window \<times> quota_window" where
  "record_windows parse rec =
     (normalized_window (header_window parse (ur_ResponseHeaders rec) ''primary''),
      normalized_window (header_window parse (ur_ResponseHeaders rec) ''secondary''))"

text \<open>\<open>RequestedAt.Unix()\<close>; the zero time has been replaced.\<close>

definition unix_seconds :: "int option \<Rightarrow> int" where
  "unix_seconds t = (case t of None \<Rightarrow> 0 | Some ns \<Rightarrow> ns div 1000000000)"

definition usage_row :: "usageRecord \<Rightarrow> usageRecord \<Rightarrow> quota_window \<times> quota_window \<Rightarrow> int \<Rightarrow> usage_event" where
  "usage_row rec stored windows i =
     \<lparr>ev_ID = i, ev_RequestedAt = unix_seconds (ur_RequestedAt rec), ev_Provider = ur_Provider rec,
      ev_ExecutorType = TrimSpace (ur_ExecutorType rec), ev_Model = TrimSpace (ur_Model rec), ev_Alias = TrimSpace (ur_Alias rec),
      ev_APIKey = TrimSpace (ur_APIKey stored), ev_AuthID = TrimSpace (ur_AuthID stored), ev_AuthIndex = TrimSpace (ur_AuthIndex stored),
      ev_AuthType = TrimSpace (ur_AuthType rec), ev_Source = TrimSpace (ur_Source stored),
      ev_ReasoningEffort = TrimSpace (ur_ReasoningEffort rec), ev_ServiceTier = TrimSpace (ur_ServiceTier rec),
      ev_Generate = isGenerated rec, ev_LatencyMs = fst (stored_latency rec), ev_TTFTMs = snd (stored_latency rec),
      ev_Failed = ur_Failed rec, ev_StatusCode = stored_status rec,
      ev_Detail = (ur_Detail rec)\<lparr>ud_TotalTokens := total_tokens (ur_Detail rec)\<rparr>,
      ev_Primary = fst windows, ev_Secondary = snd windows\<rparr>"

section \<open>Restriction updates\<close>

text \<open>The xAI table and the Codex tables share the scheduler cache.\<close>

definition on_xai :: "(xai_world \<Rightarrow> string option \<times> xai_world) \<Rightarrow> usage_world \<Rightarrow> string option \<times> usage_world" where
  "on_xai step w =
     (let (err, v) = step \<lparr>xw_states = uw_xai w, xw_cache = bw_cache (uw_codex w), xw_refreshRequests = bw_refreshRequests (uw_codex w)\<rparr>
      in (err, w\<lparr>uw_xai := xw_states v,
                 uw_codex := (uw_codex w)\<lparr>bw_cache := xw_cache v, bw_refreshRequests := xw_refreshRequests v\<rparr>\<rparr>))"

definition on_codex :: "(ban_world \<Rightarrow> string option \<times> ban_world) \<Rightarrow> usage_world \<Rightarrow> string option \<times> usage_world" where
  "on_codex step w = (let (err, v) = step (uw_codex w) in (err, w\<lparr>uw_codex := v\<rparr>))"

definition recent_query :: "string option \<Rightarrow> usage_db \<Rightarrow> string list \<Rightarrow> nat \<Rightarrow> (int \<times> bool) list option" where
  "recent_query err db aliases limit = (case err of None \<Rightarrow> Some (recent_outcomes db aliases limit) | Some _ \<Rightarrow> None)"

definition usage_steps ::
  "usage_env \<Rightarrow> usageRecord \<Rightarrow> int \<Rightarrow> quota_window \<times> quota_window \<Rightarrow> usage_db
   \<Rightarrow> (string \<times> (usage_world \<Rightarrow> string option \<times> usage_world)) list" where
  "usage_steps ue rec status windows db =
     [(''record xAI state'', on_xai (recordXAIStateIfNeeded (step_env ue 0) (ue_parsers ue) rec status)),
      (''record invalid auth'', on_codex (recordInvalidAuthIfNeeded (step_env ue 1) rec status)),
      (''record repeated forbidden'',
         on_codex (recordRepeatedForbiddenIfNeeded (step_env ue 2) (recent_query (ue_recent ue) db) rec status)),
      (''clear recovered auth state'', on_codex (clearRecoveredAuthStateIfNeeded (step_env ue 3) rec status)),
      (''record auto-ban'', on_codex (recordAutobanIfNeeded (step_env ue 4) rec status
         (fst (fst windows)) (snd (fst windows)) (fst (snd windows)) (snd (snd windows))))]"

fun run_usage_steps ::
  "(string \<times> (usage_world \<Rightarrow> string option \<times> usage_world)) list \<Rightarrow> string list \<Rightarrow> usage_world \<Rightarrow> string list \<times> usage_world" where
  "run_usage_steps [] errs w = (errs, w)"
| "run_usage_steps ((name, step) # steps) errs w =
     (let (err, v) = step w in run_usage_steps steps (appendUsagePostProcessError errs name err) v)"

section \<open>Recording\<close>

definition recordLegacyReservationRelease :: "bool \<Rightarrow> usage_diagnostics \<Rightarrow> usage_diagnostics" where
  "recordLegacyReservationRelease matched d =
     (if matched then d\<lparr>ud_ReleaseMatched := wrap64 (ud_ReleaseMatched d + 1)\<rparr>
      else d\<lparr>ud_ReleaseMissed := wrap64 (ud_ReleaseMissed d + 1)\<rparr>)"

definition joined_errors :: "string list \<Rightarrow> string" where
  "joined_errors errs = Join errs [CHR 0x0A]"

text \<open>The transaction: the world is changed only when it commits.\<close>

definition store_usage ::
  "usage_env \<Rightarrow> usageRecord \<Rightarrow> usageRecord \<Rightarrow> quota_window \<times> quota_window \<Rightarrow> usage_world \<Rightarrow> (string, usage_world) result" where
  "store_usage ue rec stored windows w =
     (case ue_begin ue of Some err \<Rightarrow> Inl err | None \<Rightarrow>
      case ue_insert ue of Some err \<Rightarrow> Inl err | None \<Rightarrow>
      case releaseProtectionReservation (alone (ue_release ue)) (ue_query ue) (env_unix (ae_sched (ue_auth ue))) stored (uw_reservations w) of
        (Inl err, _) \<Rightarrow> Inl (''release protection reservation: '' @ err)
      | (Inr matched, reservations) \<Rightarrow>
          case ue_commit ue of Some err \<Rightarrow> Inl err | None \<Rightarrow>
          Inr (w\<lparr>uw_db := insert_event (usage_row rec stored windows) (uw_db w), uw_reservations := reservations,
                 uw_diagnostics := recordLegacyReservationRelease matched (uw_diagnostics w)\<rparr>))"

definition normalized_record :: "usage_env \<Rightarrow> string \<Rightarrow> usageRecord \<Rightarrow> usageRecord" where
  "normalized_record ue provider rec =
     rec\<lparr>ur_Provider := provider,
         ur_RequestedAt := (case ur_RequestedAt rec of None \<Rightarrow> Some (env_now (ae_sched (ue_auth ue))) | Some t \<Rightarrow> Some t)\<rparr>"

definition recordUsage :: "usage_env \<Rightarrow> usageRecord \<Rightarrow> usage_world \<Rightarrow> usage_error option \<times> usage_world" where
  "recordUsage ue rec0 w =
     (let provider = canonicalProvider (ur_Provider rec0);
          rec = normalized_record ue provider rec0;
          windows = record_windows (ue_float ue) rec;
          status = stored_status rec
      in if provider = [] then (Some (UsageError ''usage provider is required''), w)
         else case ue_open ue of Some err \<Rightarrow> (Some (UsageError err), w) | None \<Rightarrow>
         case privacySafeUsageRecord (ue_keys ue) rec of Inl err \<Rightarrow> (Some (UsageError err), w) | Inr stored \<Rightarrow>
         case store_usage ue rec stored windows w of Inl err \<Rightarrow> (Some (UsageError err), w) | Inr w1 \<Rightarrow>
         let (errs, w2) = run_usage_steps (usage_steps ue stored status windows (uw_db w1)) [] w1
         in (if errs = [] then None else Some (UsagePostProcessError (joined_errors errs)), w2))"

text \<open>The answer of the plugin call; \<open>None\<close> is a request that is not a record.\<close>

record usage_response =
  up_stored :: "bool option"
  up_ignored :: bool
  up_warning :: string
  up_error :: string

definition handleUsage :: "usage_env \<Rightarrow> usageRecord option \<Rightarrow> usage_world \<Rightarrow> usage_response \<times> usage_world" where
  "handleUsage ue request w =
     (case request of
        None \<Rightarrow> (\<lparr>up_stored = None, up_ignored = True, up_warning = [], up_error = ''usage payload is invalid''\<rparr>, w)
      | Some rec \<Rightarrow>
          case recordUsage ue rec w of
            (None, v) \<Rightarrow> (\<lparr>up_stored = Some True, up_ignored = False, up_warning = [], up_error = []\<rparr>, v)
          | (Some (UsagePostProcessError _), v) \<Rightarrow>
              (\<lparr>up_stored = Some True, up_ignored = False, up_warning = ''usage stored; derived account state update failed'', up_error = []\<rparr>, v)
          | (Some (UsageError _), v) \<Rightarrow>
              (\<lparr>up_stored = Some False, up_ignored = False, up_warning = [], up_error = ''usage storage is temporarily unavailable''\<rparr>, v))"

section \<open>What a call changes\<close>

lemma stored_safe_trim [simp]: "stored_safe (TrimSpace s) = stored_safe s"
  by (simp add: stored_safe_def credentialShapedValue_def is_v1_def parseAPIKeyFingerprint_def)

lemma is_v1_trim [simp]: "is_v1 (TrimSpace s) = is_v1 s"
  by (simp add: is_v1_def parseAPIKeyFingerprint_def)

lemma deleteFirst_at_most_one:
  "snd (deleteFirstProtectionReservation (alone errs) p ids db) = db
   \<or> (\<exists>rid. snd (deleteFirstProtectionReservation (alone errs) p ids db) = delete_id rid p db)"
proof (induction ids)
  case (Cons rid ids)
  show ?case
  proof (cases "holds_id p db rid")
    case True
    then show ?thesis by (cases "errs rid") (auto simp: alone_def Let_def delete_present_id)
  next
    case False
    with Cons show ?thesis by (auto simp: alone_def Let_def delete_absent_id split: option.split)
  qed
qed simp

lemma release_at_most_one:
  "snd (releaseProtectionReservation (alone errs) query_err now rec db) = db
   \<or> (\<exists>rid. snd (releaseProtectionReservation (alone errs) query_err now rec db) = delete_id rid providerCodex db)"
  using deleteFirst_at_most_one [of errs providerCodex _ db]
  by (auto simp: releaseProtectionReservation_def Let_def split: option.split prod.split)

text \<open>The restriction updates leave the other tables alone.\<close>

lemma on_step_tables [simp]:
  "uw_db (snd (on_xai step w)) = uw_db w" "uw_reservations (snd (on_xai step w)) = uw_reservations w"
  "uw_diagnostics (snd (on_xai step w)) = uw_diagnostics w"
  "uw_db (snd (on_codex update w)) = uw_db w" "uw_reservations (snd (on_codex update w)) = uw_reservations w"
  "uw_diagnostics (snd (on_codex update w)) = uw_diagnostics w"
  by (simp_all add: on_xai_def on_codex_def Let_def split_def)

lemma run_usage_steps_world:
  "snd (run_usage_steps steps errs w) = foldl (\<lambda>v (_, step). snd (step v)) w steps"
  by (induction steps errs w rule: run_usage_steps.induct) (simp_all add: Let_def split_def)

lemma recordUsage_cases:
  obtains (failed) err where "recordUsage ue rec w = (Some (UsageError err), w)"
  | (stored) stored w1 err where "privacySafeUsageRecord (ue_keys ue) (normalized_record ue (canonicalProvider (ur_Provider rec)) rec) = Inr stored"
      "store_usage ue (normalized_record ue (canonicalProvider (ur_Provider rec)) rec) stored
         (record_windows (ue_float ue) (normalized_record ue (canonicalProvider (ur_Provider rec)) rec)) w = Inr w1"
      "recordUsage ue rec w = (err, foldl (\<lambda>v (_, step). snd (step v)) w1
         (usage_steps ue stored (stored_status rec) (record_windows (ue_float ue) rec) (uw_db w1)))"
      "\<forall>e. err \<noteq> Some (UsageError e)"
proof -
  let ?rec = "normalized_record ue (canonicalProvider (ur_Provider rec)) rec"
  have status: "stored_status ?rec = stored_status rec" "record_windows (ue_float ue) ?rec = record_windows (ue_float ue) rec"
    by (simp_all add: normalized_record_def stored_status_def record_windows_def)
  show thesis
  proof (cases "canonicalProvider (ur_Provider rec) = [] \<or> ue_open ue \<noteq> None \<or> (\<exists>err. privacySafeUsageRecord (ue_keys ue) ?rec = Inl err)
      \<or> (\<exists>stored err. privacySafeUsageRecord (ue_keys ue) ?rec = Inr stored
            \<and> store_usage ue ?rec stored (record_windows (ue_float ue) ?rec) w = Inl err)")
    case True
    then have "\<exists>err. recordUsage ue rec w = (Some (UsageError err), w)"
      by (auto simp: recordUsage_def Let_def split: option.split sum.split)
    with failed show thesis by blast
  next
    case False
    then obtain kept w1 where run: "privacySafeUsageRecord (ue_keys ue) ?rec = Inr kept" "canonicalProvider (ur_Provider rec) \<noteq> []"
        "ue_open ue = None" "store_usage ue ?rec kept (record_windows (ue_float ue) ?rec) w = Inr w1"
      by (metis old.sum.exhaust not_None_eq)
    obtain errs v where steps: "run_usage_steps (usage_steps ue kept (stored_status rec) (record_windows (ue_float ue) rec) (uw_db w1)) [] w1 = (errs, v)"
      by fastforce
    then have "v = foldl (\<lambda>v (_, step). snd (step v)) w1 (usage_steps ue kept (stored_status rec) (record_windows (ue_float ue) rec) (uw_db w1))"
      using run_usage_steps_world by (metis snd_conv)
    with run steps show thesis by (intro stored [OF run(1,4)]) (auto simp: recordUsage_def Let_def status split: if_splits)
  qed
qed

lemma usage_steps_keep:
  "uw_db (foldl (\<lambda>v (_, step). snd (step v)) w (usage_steps ue stored status windows db)) = uw_db w"
  "uw_reservations (foldl (\<lambda>v (_, step). snd (step v)) w (usage_steps ue stored status windows db)) = uw_reservations w"
  by (simp_all add: usage_steps_def)

lemma store_usage_Inr:
  assumes "store_usage ue rec stored windows w = Inr w1"
  obtains matched reservations where
    "releaseProtectionReservation (alone (ue_release ue)) (ue_query ue) (env_unix (ae_sched (ue_auth ue))) stored (uw_reservations w)
       = (Inr matched, reservations)"
    "w1 = w\<lparr>uw_db := insert_event (usage_row rec stored windows) (uw_db w), uw_reservations := reservations,
            uw_diagnostics := recordLegacyReservationRelease matched (uw_diagnostics w)\<rparr>"
  using assms by (auto simp: store_usage_def split: option.splits prod.splits sum.splits)

section \<open>A call whose statements succeed\<close>

definition reliable :: "usage_env \<Rightarrow> bool" where
  "reliable ue \<longleftrightarrow> ue_open ue = None \<and> ue_begin ue = None \<and> ue_insert ue = None \<and> ue_query ue = None \<and> ue_commit ue = None
     \<and> ue_recent ue = None \<and> ue_release ue = (\<lambda>_. None) \<and> ue_step ue = (\<lambda>_ _. None)"

definition kept_record :: "usage_env \<Rightarrow> usageRecord \<Rightarrow> usageRecord option" where
  "kept_record ue rec =
     (case privacySafeUsageRecord (ue_keys ue) (normalized_record ue (canonicalProvider (ur_Provider rec)) rec) of
        Inl _ \<Rightarrow> None | Inr stored \<Rightarrow> Some stored)"

definition recorded_row :: "usage_env \<Rightarrow> usageRecord \<Rightarrow> usageRecord \<Rightarrow> int \<Rightarrow> usage_event" where
  "recorded_row ue rec stored =
     usage_row (normalized_record ue (canonicalProvider (ur_Provider rec)) rec) stored (record_windows (ue_float ue) rec)"

lemma deleteFirst_reliable: "\<exists>matched reservations. deleteFirstProtectionReservation (alone (\<lambda>_. None)) p ids db = (Inr matched, reservations)"
  by (induction ids arbitrary: db) (auto simp: alone_def Let_def)

lemma release_reliable: "\<exists>matched reservations. releaseProtectionReservation (alone (\<lambda>_. None)) None now rec db = (Inr matched, reservations)"
  using deleteFirst_reliable by (auto simp: releaseProtectionReservation_def Let_def split: option.split prod.split)

lemma record_windows_normalized [simp]: "record_windows parse (normalized_record ue p rec) = record_windows parse rec"
  by (simp add: record_windows_def normalized_record_def)

lemma recordUsage_reliable:
  assumes "reliable ue" "canonicalProvider (ur_Provider rec) = ''codex''" "kept_record ue rec = Some stored"
  obtains w1 err where "recordUsage ue rec w = (err, foldl (\<lambda>v (_, step). snd (step v)) w1
        (usage_steps ue stored (stored_status rec) (record_windows (ue_float ue) rec) (uw_db w1)))"
    "\<forall>e. err \<noteq> Some (UsageError e)" "uw_codex w1 = uw_codex w" "uw_db w1 = insert_event (recorded_row ue rec stored) (uw_db w)"
proof -
  let ?rec = "normalized_record ue (canonicalProvider (ur_Provider rec)) rec"
  have kept: "privacySafeUsageRecord (ue_keys ue) ?rec = Inr stored" using assms(3) by (auto simp: kept_record_def split: sum.splits)
  obtain w1 where w1: "store_usage ue ?rec stored (record_windows (ue_float ue) ?rec) w = Inr w1"
    using release_reliable [of "env_unix (ae_sched (ue_auth ue))" stored "uw_reservations w"] assms(1)
    by (auto simp: store_usage_def reliable_def)
  then have tables: "uw_codex w1 = uw_codex w" "uw_db w1 = insert_event (recorded_row ue rec stored) (uw_db w)"
    by (elim store_usage_Inr; simp add: recorded_row_def)+
  show thesis
  proof (cases rule: recordUsage_cases [of ue rec w])
    case failed
    with kept w1 assms(1,2) show thesis by (simp add: recordUsage_def reliable_def Let_def split_def split: if_splits)
  next
    case (stored kept' w1' err)
    with kept w1 show thesis using that [OF _ _ tables] by simp
  qed
qed

text \<open>The provider of a stored Codex record, and what its first restriction update does: nothing.\<close>

lemma stored_fields:
  assumes "kept_record ue rec = Some stored"
  shows "ur_Provider stored = canonicalProvider (ur_Provider rec)" "ur_Failed stored = ur_Failed rec"
    "isGenerated stored = isGenerated rec" "ur_ResponseHeaders stored = ur_ResponseHeaders rec" "ur_Failure stored = ur_Failure rec"
  using assms by (auto simp: kept_record_def privacySafeUsageRecord_def Let_def normalized_record_def isGenerated_def split: sum.splits)

lemma codex_folds [simp]: "EqualFold (TrimSpace ''codex'') ''codex''" "\<not> EqualFold (TrimSpace ''codex'') ''xai''"
  by code_simp+

lemma on_xai_codex: "ur_Provider stored = ''codex'' \<Longrightarrow> snd (on_xai (recordXAIStateIfNeeded ae parsers stored status) w) = w"
  by (simp add: on_xai_def recordXAIStateIfNeeded_def)

lemma on_codex_world [simp]: "uw_codex (snd (on_codex update w)) = snd (update (uw_codex w))"
  by (simp add: on_codex_def split_def Let_def)

lemma codex_after_steps:
  assumes "ur_Provider stored = ''codex''"
  shows "uw_codex (foldl (\<lambda>v (_, step). snd (step v)) w (usage_steps ue stored status windows db)) =
    snd (recordAutobanIfNeeded (step_env ue 4) stored status (fst (fst windows)) (snd (fst windows)) (fst (snd windows)) (snd (snd windows))
      (snd (clearRecoveredAuthStateIfNeeded (step_env ue 3) stored status
        (snd (recordRepeatedForbiddenIfNeeded (step_env ue 2) (recent_query (ue_recent ue) db) stored status
          (snd (recordInvalidAuthIfNeeded (step_env ue 1) stored status (uw_codex w))))))))"
  by (simp add: usage_steps_def on_xai_codex [OF assms])

text \<open>The updates each status leads to.\<close>

lemma update_skips:
  "status \<notin> {401, 402} \<Longrightarrow> recordInvalidAuthIfNeeded ae rec status v = (None, v)"
  "status \<noteq> 403 \<or> \<not> ur_Failed rec \<Longrightarrow> recordRepeatedForbiddenIfNeeded ae recent rec status v = (None, v)"
  "ur_Failed rec \<Longrightarrow> clearRecoveredAuthStateIfNeeded ae rec status v = (None, v)"
  "status \<noteq> 429 \<or> \<not> ur_Failed rec \<Longrightarrow> recordAutobanIfNeeded ae rec status pp pr sp sr v = (None, v)"
  by (auto simp: recordInvalidAuthIfNeeded_def invalidAuthReasonForRecord_def StatusUnauthorized_def StatusPaymentRequired_def
      recordRepeatedForbiddenIfNeeded_def StatusForbidden_def clearRecoveredAuthStateIfNeeded_def recordAutobanIfNeeded_def Let_def)

definition forbidden_aliases :: "auth_env \<Rightarrow> usageRecord \<Rightarrow> string list" where
  "forbidden_aliases ae rec = normalizeAccountAliases
     [fst (authFileStateForRecord ae rec), fileNameIfJSON (ur_AuthID rec), fileNameIfJSON (ur_AuthIndex rec), ur_AuthIndex rec]"

definition forbidden_row :: "auth_env \<Rightarrow> usageRecord \<Rightarrow> invalidAuthRow" where
  "forbidden_row ae rec = new_invalid (firstNonEmptyString [fst (authFileStateForRecord ae rec), fileNameIfJSON (ur_AuthID rec), ur_AuthIndex rec])
     rec 403 ''403 forbidden: repeated failures for this credential/workspace'' (authFileStateForRecord ae rec) (env_unix (ae_sched ae))"

lemma step_env_simps [simp]:
  "ae_sched (step_env ue k) = ae_sched (ue_auth ue)" "authFileStateForRecord (step_env ue k) rec = authFileStateForRecord (ue_auth ue) rec"
  "ae_fails (step_env ue k) = ue_step ue k"
  by (simp_all add: step_env_def authFileStateForRecord_def record_file_state_def authFileStateForName_def Let_def)

lemma sqlLowerIn_set: "set as = set bs \<Longrightarrow> sqlLowerIn cs as = sqlLowerIn cs bs"
  unfolding sqlLowerIn_def by (intro arg_cong [where f = "\<lambda>P. list_ex P cs"] ext) simp

lemma recent_outcomes_set: "set as = set bs \<Longrightarrow> recent_outcomes db as n = recent_outcomes db bs n"
proof -
  assume "set as = set bs"
  then have "sqlLowerIn cs as = sqlLowerIn cs bs" for cs by (rule sqlLowerIn_set)
  then show ?thesis by (simp add: recent_outcomes_def outcome_rows_def)
qed

lemma forbidden_aliases_normal: "set (remdups (filter (\<lambda>a. a \<noteq> []) (map normalizeAccountAlias (forbidden_aliases ae rec)))) = set (forbidden_aliases ae rec)"
  using normalizeAccountAliases_normal by (force simp: forbidden_aliases_def)

lemma repeated_forbidden:
  assumes "ur_Provider rec = ''codex''" "isGenerated rec" "ur_Failed rec" "TrimSpace (ur_AuthIndex rec) \<noteq> []" "ue_step ue k 0 = None"
  shows "recordRepeatedForbiddenIfNeeded (step_env ue k) (recent_query None db) rec 403 v =
    (None, if recent_outcomes db (forbidden_aliases (ue_auth ue) rec) 3 = replicate 3 (403, True)
           then close_write ((\<lambda>v. v\<lparr>bw_invalids := upsert_row invalid_key (\<lambda>_. forbidden_row (ue_auth ue) rec)
                  (forbidden_row (ue_auth ue) rec) (bw_invalids v)\<rparr>) (open_write v)) else v)"
proof -
  let ?as = "forbidden_aliases (ue_auth ue) rec"
  let ?rows = "recent_outcomes db ?as 3"
  have "normalizeAccountAlias (ur_AuthIndex rec) \<in> set ?as"
    using normalizeAccountAlias_in_expand assms(4) by (simp add: forbidden_aliases_def normalizeAccountAliases_def)
  then have some: "?as \<noteq> []" by auto
  have few: "length ?rows \<le> 3" by (simp add: recent_outcomes_def)
  have full: "?rows = replicate 3 (403, True) \<longleftrightarrow> list_all (\<lambda>(status, failed). failed \<and> status = 403) ?rows \<and> 3 \<le> length ?rows"
  proof
    assume r: "list_all (\<lambda>(status, failed). failed \<and> status = 403) ?rows \<and> 3 \<le> length ?rows"
    with few have "length ?rows = 3" by simp
    then show "?rows = replicate 3 (403, True)" using r by (intro replicate_eqI) (auto simp: list_all_iff)
  qed (simp add: list_all_iff)
  have query: "recent_outcomes db (remdups (filter (\<lambda>a. a \<noteq> []) (map normalizeAccountAlias ?as))) 3 = ?rows"
    by (rule recent_outcomes_set) (rule forbidden_aliases_normal)
  have key: "firstNonEmptyString [fst (authFileStateForRecord (ue_auth ue) rec), fileNameIfJSON (ur_AuthID rec), ur_AuthIndex rec] \<noteq> []"
    using assms(4) by (simp add: firstNonEmptyString_Nil_iff del: firstNonEmptyString.simps)
  have reached: "recentForbiddenThresholdReached (recent_query None db) ?as forbiddenInvalidAuthThreshold \<longleftrightarrow> ?rows = replicate 3 (403, True)"
    unfolding full using some query by (simp add: recentForbiddenThresholdReached_def recent_query_def forbiddenInvalidAuthThreshold_def StatusForbidden_def)
  show ?thesis
    using assms(1-3,5) some reached key
    by (simp add: recordRepeatedForbiddenIfNeeded_def StatusForbidden_def upsertInvalidAuth_def restriction_write_def
        forbidden_row_def Let_def flip: forbidden_aliases_def del: firstNonEmptyString.simps)
qed

lemma quota_row_step [simp]: "quota_row (step_env ue k) rec pp pr sp sr = quota_row (ue_auth ue) rec pp pr sp sr"
  "autoban_id (step_env ue k) rec = autoban_id (ue_auth ue) rec"
  by (simp_all add: quota_row_def autoban_id_def Let_def)

lemma invalid_blocks:
  assumes "row \<in> set (bw_invalids v)" "ia_Provider row = providerCodex" "ia_Active row" "key_blocks fp (invalidAuthAsAutoban row) c"
  shows "codex_blocks fp now (ban_tables v) c"
  using assms by (force simp: codex_blocks_def ban_tables_def list_ex_iff)

lemma forbidden_row_fields: "ur_Provider rec = ''codex'' \<Longrightarrow> ia_Provider (forbidden_row ae rec) = providerCodex \<and> ia_Active (forbidden_row ae rec)"
  by (simp add: forbidden_row_def new_invalid_def split_def canonicalProviderOr_folded)

text \<open>The row of a third refusal blocks the account of the record.\<close>

lemma forbidden_row_blocks:
  assumes "identifies fp (record_account (ae_codex ae) [ur_AuthIndex rec] rec) c"
  shows "key_blocks fp (invalidAuthAsAutoban (forbidden_row ae rec)) c"
proof -
  let ?i = "record_account (ae_codex ae) [ur_AuthIndex rec] rec"
  let ?row = "invalidAuthAsAutoban (forbidden_row ae rec)" and ?file = "fst (authFileStateForRecord ae rec)"
  have id: "TrimSpace ?i = firstNonEmptyString [?file, ur_AuthIndex rec]" by (rule record_file_account [symmetric])
  have blank: "fileNameIfJSON (ur_AuthID rec) = []" if "TrimSpace ?file = []"
    using that fileNameIfJSON_not_blank
    by (fastforce simp: authFileStateForRecord_def record_file_state_def authFileStateForName_def Let_def split: if_splits)
  have "firstNonEmptyString [?file, fileNameIfJSON (ur_AuthID rec), ur_AuthIndex rec] = TrimSpace ?i"
    unfolding id using blank by (cases "TrimSpace ?file = []") (simp_all add: Let_def)
  then have row: "ab_AuthID ?row = TrimSpace ?i" "ab_AuthIndex ?row = TrimSpace (ur_AuthIndex rec)"
      "ab_Source ?row = TrimSpace (ur_Source rec)" "ab_AuthFile ?row = ?file"
    by (simp_all add: forbidden_row_def new_invalid_def split_def invalidAuthAsAutoban_def Let_def del: firstNonEmptyString.simps)
  have same: "fileNameIfJSON ?file = [] \<or> fileNameIfJSON ?file = fileNameIfJSON ?i"
  proof (cases "TrimSpace ?file = []")
    case False
    then have "TrimSpace ?i = TrimSpace ?file" unfolding id by (simp add: Let_def)
    then show ?thesis by (metis fileNameIfJSON_TrimSpace)
  qed simp
  have "key_blocks fp ?row c \<longleftrightarrow> identifies fp ?i c"
  proof (rule key_blocks_identity [OF row(1)])
    show "TrimSpace ?i \<noteq> []" using assms by (rule identifies_not_blank)
    show "list_all (\<lambda>v. fileNameIfJSON v = []) [ab_AuthFile ?row, ab_AuthIndex ?row, ab_Source ?row]" if "fileNameIfJSON ?i = []"
      using that record_account_no_file [OF that] same by (simp add: row(2-4))
  qed (use same in \<open>auto simp: row(4)\<close>)
  with assms show ?thesis by simp
qed

section \<open>Examples\<close>

definition example_usage_env :: "int \<Rightarrow> usage_env" where
  "example_usage_env now = \<lparr>ue_auth = example_auth_env now, ue_keys = toy_key_env, ue_parsers = no_parsers,
     ue_float = (\<lambda>s. if s = ''100'' then Some (Fin 100) else None), ue_open = None, ue_begin = None, ue_insert = None, ue_query = None,
     ue_release = (\<lambda>_. None), ue_commit = None, ue_recent = None, ue_step = (\<lambda>_ _. None)\<rparr>"

definition example_report :: "int \<Rightarrow> int \<Rightarrow> headers \<Rightarrow> usageRecord" where
  "example_report t status hs = no_usage\<lparr>ur_Provider := ''Codex'', ur_AuthIndex := ''a.json'', ur_RequestedAt := Some (t * 1000000000),
     ur_Failed := True, ur_Failure := \<lparr>uf_StatusCode = status, uf_Body = []\<rparr>, ur_ResponseHeaders := hs\<rparr>"

definition example_usage_world :: usage_world where
  "example_usage_world = \<lparr>uw_db = \<lparr>us_events = [], us_nextEvent = 1, us_runs = [], us_nextRun = 1\<rparr>,
     uw_reservations = \<lparr>rd_Rows = [], rd_NextID = 1\<rparr>, uw_codex = example_ban_world, uw_xai = [],
     uw_diagnostics = \<lparr>ud_ReleaseMatched = 0, ud_ReleaseMissed = 0\<rparr>\<rparr>"

definition refused_world :: usage_world where
  "refused_world = snd (recordUsage (example_usage_env 60) (example_report 51 403 [])
     (snd (recordUsage (example_usage_env 60) (example_report 50 403 []) example_usage_world)))"

definition exhausted_headers :: headers where
  "exhausted_headers = [(''X-Codex-Primary-Used-Percent'', [''100'']), (''X-Codex-Primary-Reset-At'', [''500''])]"

lemma example_reliable: "reliable (example_usage_env now)"
  by (simp add: reliable_def example_usage_env_def)

section \<open>Properties\<close>

text \<open>C13: A usage record is stored whole or not at all. When \<open>recordUsage\<close> reports that a record was not stored, nothing has
  changed: no row, no reservation, no restriction. In every other case, also when a restriction update failed
  afterwards, exactly one row was added under the next id, at most one reservation was released, and no credential is in
  the columns of the row: the key is empty or a fingerprint of version 1, and no identity is shaped like a credential.\<close>

theorem usage_stored_whole:
  assumes "\<forall>k m. digest_ok (ke_mac (ue_keys ue) k m)"
  shows "case recordUsage ue rec w of
           (Some (UsageError _), v) \<Rightarrow> v = w
         | (_, v) \<Rightarrow>
             (\<exists>e. uw_db v = (uw_db w)\<lparr>us_events := us_events (uw_db w) @ [e], us_nextEvent := us_nextEvent (uw_db w) + 1\<rparr>
                \<and> ev_ID e = us_nextEvent (uw_db w) \<and> ev_StatusCode e = stored_status rec
                \<and> (ev_APIKey e = [] \<or> is_v1 (ev_APIKey e))
                \<and> list_all stored_safe [ev_AuthID e, ev_AuthIndex e, ev_Source e])
             \<and> (uw_reservations v = uw_reservations w
                \<or> (\<exists>rid. uw_reservations v = delete_id rid providerCodex (uw_reservations w)))"
proof (cases rule: recordUsage_cases [of ue rec w])
  case (stored kept w1 err)
  let ?rec = "normalized_record ue (canonicalProvider (ur_Provider rec)) rec"
  let ?windows = "record_windows (ue_float ue) ?rec"
  obtain matched reservations where release: "releaseProtectionReservation (alone (ue_release ue)) (ue_query ue)
        (env_unix (ae_sched (ue_auth ue))) kept (uw_reservations w) = (Inr matched, reservations)"
      and w1: "w1 = w\<lparr>uw_db := insert_event (usage_row ?rec kept ?windows) (uw_db w), uw_reservations := reservations,
            uw_diagnostics := recordLegacyReservationRelease matched (uw_diagnostics w)\<rparr>"
    using store_usage_Inr [OF stored(2)] .
  have "reservations = uw_reservations w \<or> (\<exists>rid. reservations = delete_id rid providerCodex (uw_reservations w))"
    using release_at_most_one [of "ue_release ue" "ue_query ue" "env_unix (ae_sched (ue_auth ue))" kept "uw_reservations w"] release by simp
  moreover have "(ur_APIKey kept = [] \<or> is_v1 (ur_APIKey kept))
      \<and> list_all stored_safe [ur_AuthID kept, ur_AuthIndex kept, ur_Source kept]"
    using usage_record_safe [OF assms stored(1)] by simp
  ultimately show ?thesis using stored(4) unfolding stored(3) w1
    by (auto simp: usage_steps_keep insert_event_def usage_row_def normalized_record_def stored_status_def Let_def split: option.split usage_error.split)
qed simp

theorem usage_stored_whole_witness:
  "\<exists>e. us_events (uw_db (snd (recordUsage (example_usage_env 60) (example_report 50 403 []) example_usage_world))) = [e]
     \<and> ev_ID e = 1 \<and> stored_safe (ev_AuthIndex e)"
proof -
  let ?run = "recordUsage (example_usage_env 60) (example_report 50 403 []) example_usage_world"
  have "fst ?run = None" "us_events (uw_db example_usage_world) = []" "us_nextEvent (uw_db example_usage_world) = 1" by code_simp+
  moreover have "\<forall>k m. digest_ok (ke_mac (ue_keys (example_usage_env 60)) k m)" using toy_digests by (simp add: example_usage_env_def)
  from usage_stored_whole [OF this, where rec = "example_report 50 403 []" and w = example_usage_world]
  have "case ?run of (Some (UsageError _), v) \<Rightarrow> v = example_usage_world | (_, v) \<Rightarrow>
     \<exists>e. us_events (uw_db v) = us_events (uw_db example_usage_world) @ [e] \<and> ev_ID e = us_nextEvent (uw_db example_usage_world)
        \<and> stored_safe (ev_AuthIndex e)" by (auto split: prod.splits option.splits usage_error.splits)
  ultimately show ?thesis by (cases ?run) simp
qed

text \<open>C12: A recorded quota failure restricts the account. When a generated Codex request that failed with 429 is recorded, then
  afterwards, until the reset that was classified from its headers, every candidate that the account of the record stands for
  is blocked, and no snapshot from before can be served; the window headers are read and normalised on the way. The account is
  that of the record as it is kept, whichever columns it has: the first credential file that one of them names, else the
  file of the first configured account that shares an alias with them, else its auth ID, its auth index, or its source.\<close>

theorem recorded_quota_failure_blocks:
  assumes "reliable ue" "canonicalProvider (ur_Provider rec) = ''codex''" "kept_record ue rec = Some stored"
    and "ur_Failed rec" "isGenerated rec" "stored_status rec = 429"
    and "record_windows (ue_float ue) rec = ((pp, pr), (sp, sr))"
    and "now < fst (classifyCodexBan (ur_ResponseHeaders rec) pp (normalizeInt64Ptr pr) sp (normalizeInt64Ptr sr) (env_unix (ae_sched (ue_auth ue))))"
    and "identifies fp (record_account (ae_codex (ue_auth ue)) [ur_AuthID stored, ur_AuthIndex stored, ur_Source stored] stored) c"
  shows "codex_blocks fp now (ban_tables (uw_codex (snd (recordUsage ue rec w)))) c
       \<and> \<not> sl_Initialized (sc_codex (bw_cache (uw_codex (snd (recordUsage ue rec w)))))"
proof -
  note fields = stored_fields [OF assms(3)]
  obtain w1 err where run: "recordUsage ue rec w = (err, foldl (\<lambda>v (_, step). snd (step v)) w1
      (usage_steps ue stored (stored_status rec) (record_windows (ue_float ue) rec) (uw_db w1)))" "uw_codex w1 = uw_codex w"
    using recordUsage_reliable [OF assms(1-3)] by metis
  let ?row = "quota_row (ue_auth ue) stored pp pr sp sr"
  let ?v = "close_write (upsert_ban ?row (open_write (uw_codex w)))"
  have "autoban_id (ue_auth ue) stored \<noteq> []" using identifies_not_blank [OF assms(9)] by (simp add: autoban_id_account)
  then have "uw_codex (snd (recordUsage ue rec w)) = ?v"
    using assms fields by (simp add: run codex_after_steps update_skips recordAutoban_quota reliable_def)
  moreover have "?row \<in> set (bw_bans ?v)" by (simp add: upsert_ban_def upsert_replaced)
  moreover have "ab_Provider ?row = providerCodex" "ab_Active ?row" "now < ab_ResetAt ?row"
    using assms(2,8) fields by (simp_all add: quota_row_def new_ban_def Let_def split_def canonicalProviderOr_folded)
  ultimately show ?thesis using ban_blocks [OF _ _ _ _ quota_row_blocks [OF assms(9)]] by (simp add: slot_finish_write_def)
qed

theorem recorded_quota_failure_blocks_witness:
  "codex_blocks (\<lambda>s. s) 499 (ban_tables (uw_codex (snd (recordUsage (example_usage_env 60) (example_report 52 429 exhausted_headers)
     example_usage_world)))) (example_candidate ''A.json'')"
proof -
  let ?rec = "example_report 52 429 exhausted_headers"
  let ?stored = "?rec\<lparr>ur_Provider := ''codex''\<rparr>"
  note blocks = recorded_quota_failure_blocks [where stored = ?stored and pp = "Some (Fin 100)" and pr = "Some 500" and sp = None and sr = None
      and ue = "example_usage_env 60" and rec = ?rec and now = 499 and fp = "\<lambda>s. s" and c = "example_candidate ''A.json''" and w = example_usage_world]
  have "canonicalProvider (ur_Provider ?rec) = ''codex''" "kept_record (example_usage_env 60) ?rec = Some ?stored" "ur_Failed ?rec"
      "isGenerated ?rec" "stored_status ?rec = 429"
      "record_windows (ue_float (example_usage_env 60)) ?rec = ((Some (Fin 100), Some 500), (None, None))"
      "499 < fst (classifyCodexBan (ur_ResponseHeaders ?rec) (Some (Fin 100)) (normalizeInt64Ptr (Some 500)) None (normalizeInt64Ptr None)
         (env_unix (ae_sched (ue_auth (example_usage_env 60)))))"
      "identifies (\<lambda>s. s) (record_account (ae_codex (ue_auth (example_usage_env 60))) [ur_AuthID ?stored, ur_AuthIndex ?stored, ur_Source ?stored]
         ?stored) (example_candidate ''A.json'')" by code_simp+
  from blocks [OF example_reliable this] show ?thesis by simp
qed

text \<open>C15: The third refusal in a row disables the credential, and no earlier one does. When a generated Codex request that
  failed with 403 is recorded with an auth index and is later than every outcome of its account, two cases remain: the last two outcomes were
  refusals too, and then every candidate that the account of the record stands for is blocked; or they were not, or there were
  fewer, and then no Codex restriction changes. The account is the first credential file that the kept record names, else that of a
  configured account, else its auth index. (A record with a blank auth index that names no file has no aliases to count by, and is
  never disabled.)\<close>

theorem third_refusal_blocks:
  assumes "reliable ue" "canonicalProvider (ur_Provider rec) = ''codex''" "kept_record ue rec = Some stored"
    and "ur_Failed rec" "isGenerated rec" "stored_status rec = 403" "TrimSpace (ur_AuthIndex stored) \<noteq> []"
    and "aliases = forbidden_aliases (ue_auth ue) stored"
    and "\<forall>row\<in>set (outcome_rows (uw_db w) aliases). outcome_time row < ev_RequestedAt (recorded_row ue rec stored (us_nextEvent (uw_db w)))"
    and "identifies fp (record_account (ae_codex (ue_auth ue)) [ur_AuthIndex stored] stored) c"
  shows "if recent_outcomes (uw_db w) aliases 2 = [(403, True), (403, True)]
         then codex_blocks fp now (ban_tables (uw_codex (snd (recordUsage ue rec w)))) c
         else ban_tables (uw_codex (snd (recordUsage ue rec w))) = ban_tables (uw_codex w)"
proof -
  note fields = stored_fields [OF assms(3)]
  let ?new = "recorded_row ue rec stored (us_nextEvent (uw_db w))"
  obtain w1 err where run: "recordUsage ue rec w = (err, foldl (\<lambda>v (_, step). snd (step v)) w1
      (usage_steps ue stored (stored_status rec) (record_windows (ue_float ue) rec) (uw_db w1)))" "uw_codex w1 = uw_codex w"
      "uw_db w1 = insert_event (recorded_row ue rec stored) (uw_db w)"
    using recordUsage_reliable [OF assms(1-3)] by metis
  have row: "ev_Provider ?new = ''codex''" "ev_Generate ?new" "ev_StatusCode ?new = 403" "ev_Failed ?new"
      "ev_AuthIndex ?new = TrimSpace (ur_AuthIndex stored)"
    using assms(2,4-6) by (simp_all add: recorded_row_def usage_row_def normalized_record_def isGenerated_def stored_status_def)
  have "normalizeAccountAlias (ur_AuthIndex stored) \<in> set aliases"
    using normalizeAccountAlias_in_expand assms(7) by (simp add: assms(8) forbidden_aliases_def normalizeAccountAliases_def)
  then have "ToLower (ev_AuthIndex ?new) \<in> normalizeAccountAlias ` set aliases"
    by (intro image_eqI [where x = "normalizeAccountAlias (ur_AuthIndex stored)"]) (simp_all add: row(5) normalizeAccountAlias_def flip: ToLower_TrimSpace)
  moreover have "ToLower (ev_AuthIndex ?new) \<noteq> []" using assms(7) by (simp add: row(5))
  ultimately have "sqlLowerIn [ev_AuthID ?new, ev_AuthIndex ?new] aliases" by (simp add: sqlLowerIn_def)
  from recent_after_event [where n = 2 and row = "recorded_row ue rec stored" and i = "us_nextEvent (uw_db w)", OF row(1,2) this refl assms(9)] row
  have recent: "recent_outcomes (uw_db w1) aliases 3 = (403, True) # recent_outcomes (uw_db w) aliases 2"
    by (simp add: run(3) numeral_3_eq_3 numeral_2_eq_2)
  let ?row = "forbidden_row (ue_auth ue) stored"
  let ?blocked = "close_write ((\<lambda>v. v\<lparr>bw_invalids := upsert_row invalid_key (\<lambda>_. ?row) ?row (bw_invalids v)\<rparr>) (open_write (uw_codex w)))"
  have "uw_codex (snd (recordUsage ue rec w)) = (if recent_outcomes (uw_db w) aliases 2 = [(403, True), (403, True)] then ?blocked else uw_codex w)"
    using assms(1,2,4-7) fields recent
    by (simp add: run codex_after_steps update_skips repeated_forbidden reliable_def numeral_3_eq_3 flip: assms(8))
  moreover have "codex_blocks fp now (ban_tables ?blocked) c"
  proof (rule invalid_blocks)
    show "?row \<in> set (bw_invalids ?blocked)" by (simp add: upsert_replaced)
    show "key_blocks fp (invalidAuthAsAutoban ?row) c" using assms(10) by (rule forbidden_row_blocks)
  qed (use assms(2) fields forbidden_row_fields in simp_all)
  ultimately show ?thesis by simp
qed

theorem third_refusal_blocks_witness:
  "codex_blocks (\<lambda>s. s) 61 (ban_tables (uw_codex (snd (recordUsage (example_usage_env 60) (example_report 52 403 []) refused_world))))
     (example_candidate ''A.json'')"
proof -
  let ?rec = "example_report 52 403 []"
  let ?stored = "?rec\<lparr>ur_Provider := ''codex''\<rparr>"
  have recent: "recent_outcomes (uw_db refused_world) (forbidden_aliases (ue_auth (example_usage_env 60)) ?stored) 2 = [(403, True), (403, True)]"
    by code_simp
  have "if recent_outcomes (uw_db refused_world) (forbidden_aliases (ue_auth (example_usage_env 60)) ?stored) 2 = [(403, True), (403, True)]
      then codex_blocks (\<lambda>s. s) 61 (ban_tables (uw_codex (snd (recordUsage (example_usage_env 60) ?rec refused_world)))) (example_candidate ''A.json'')
      else ban_tables (uw_codex (snd (recordUsage (example_usage_env 60) ?rec refused_world))) = ban_tables (uw_codex refused_world)"
  proof (rule third_refusal_blocks [where stored = ?stored])
    show "kept_record (example_usage_env 60) ?rec = Some ?stored" by code_simp
    show "identifies (\<lambda>s. s) (record_account (ae_codex (ue_auth (example_usage_env 60))) [ur_AuthIndex ?stored] ?stored) (example_candidate ''A.json'')"
      by code_simp
    show "\<forall>row\<in>set (outcome_rows (uw_db refused_world) (forbidden_aliases (ue_auth (example_usage_env 60)) ?stored)).
        outcome_time row < ev_RequestedAt (recorded_row (example_usage_env 60) ?rec ?stored (us_nextEvent (uw_db refused_world)))" by code_simp
    show "canonicalProvider (ur_Provider ?rec) = ''codex''" "ur_Failed ?rec" "isGenerated ?rec" "stored_status ?rec = 403"
      "TrimSpace (ur_AuthIndex ?stored) \<noteq> []" by code_simp+
  qed (simp_all add: example_reliable)
  with recent show ?thesis by simp
qed

end
