(* ===== verification/Quota_Windows.thy ===== *)
theory Quota_Windows
  imports Accounts Usage
begin

text \<open>
  The quota windows of the accounts of a summary (\<open>summary.go\<close>): which accounts an alias stands for, the last snapshot
  of each account, the tokens it used in its window, and the capacity that is estimated from them. The lemmas: the
  single pass over the sorted snapshots gives every account its first matching one, and the batched count of tokens is the sum
  over the events of the window as long as the aliases fit into one chunk.
\<close>

section \<open>Aliases of several accounts\<close>

definition uniqueNonEmptyAliases :: "string list \<Rightarrow> string list" where
  "uniqueNonEmptyAliases values' = rev (remdups (rev (filter (\<lambda>a. a \<noteq> []) (map normalizeAccountAlias values'))))"

definition accountQuotaAliasSets :: "accountRow list \<Rightarrow> string list list" where
  "accountQuotaAliasSets accounts =
     (let raw = map (\<lambda>a. uniqueNonEmptyAliases (accountAliases a @ [ar_ChatGPTAccountID a])) accounts;
          counts = alias_counts raw
      in map (\<lambda>(a, as). uniqueNonEmptyAliases (strictFileIdentityAliases [ar_AuthFile a] @ filter (\<lambda>x. lookup_or 0 counts x = 1) as))
           (zip accounts raw))"

text \<open>The accounts an alias stands for: the value of the index map at the alias.\<close>

definition alias_accounts :: "string list list \<Rightarrow> string \<Rightarrow> nat list" where
  "alias_accounts sets a = filter (\<lambda>i. a \<noteq> [] \<and> a \<in> set (sets ! i)) [0..<length sets]"

definition accountQuotaAliasIndex :: "accountRow list \<Rightarrow> string \<Rightarrow> nat list" where
  "accountQuotaAliasIndex accounts = alias_accounts (accountQuotaAliasSets accounts)"

text \<open>A pass over rows in their order: a row is given to the accounts of its aliases that have none yet.\<close>

definition claim :: "'s \<Rightarrow> (nat \<times> 's) list \<Rightarrow> nat \<Rightarrow> (nat \<times> 's) list" where
  "claim s out i = (if i \<in> fst ` set out then out else out @ [(i, s)])"

definition claim_rows :: "(string \<Rightarrow> nat list) \<Rightarrow> (string list \<times> 's) list \<Rightarrow> (nat \<times> 's) list" where
  "claim_rows index rows = foldl (\<lambda>out (as, s). foldl (\<lambda>out a. foldl (claim s) out (index a)) out as) [] rows"

section \<open>Snapshots\<close>

record quotaWindowSnapshot =
  qs_Percent :: "go_float option"
  qs_ResetAt :: "int option"
  qs_Source :: string
  qs_ObservedAt :: int
  qs_ID :: int

definition no_snapshot :: quotaWindowSnapshot where
  "no_snapshot = \<lparr>qs_Percent = None, qs_ResetAt = None, qs_Source = [], qs_ObservedAt = 0, qs_ID = 0\<rparr>"

definition trustedUsageQuotaSnapshot :: "usage_event \<Rightarrow> bool" where
  "trustedUsageQuotaSnapshot e \<longleftrightarrow> \<not> ev_Failed e \<and> (ev_StatusCode e = 0 \<or> 200 \<le> ev_StatusCode e \<and> ev_StatusCode e < 300)
     \<or> ev_StatusCode e = 429"

definition observed_window :: "quota_window \<Rightarrow> bool" where
  "observed_window q \<longleftrightarrow> fst q \<noteq> None \<or> snd q \<noteq> None"

definition snapshot_of :: "string \<Rightarrow> int \<Rightarrow> int \<Rightarrow> quota_window \<Rightarrow> quotaWindowSnapshot" where
  "snapshot_of source i t q = \<lparr>qs_Percent = fst q, qs_ResetAt = snd q, qs_Source = source, qs_ObservedAt = t, qs_ID = i\<rparr>"

text \<open>The rows of the query with their identity columns, in its order; \<open>window\<close> picks the column.\<close>

definition snapshot_rows ::
  "usage_db \<Rightarrow> (usage_event \<Rightarrow> quota_window) \<Rightarrow> (quotaTriggerRun \<Rightarrow> quota_window) \<Rightarrow> int \<Rightarrow> (string list \<times> quotaWindowSnapshot) list" where
  "snapshot_rows db window run_window since =
     sort_key (\<lambda>(_, s). (- qs_ObservedAt s, - qs_ID s))
       (map (\<lambda>e. (map ToLower [ev_AuthIndex e, ev_AuthID e, ev_Source e] @ [[]], snapshot_of ''usage'' (ev_ID e) (ev_RequestedAt e) (window e)))
          (filter (\<lambda>e. since \<le> ev_RequestedAt e \<and> ev_Provider e = ''codex'' \<and> trustedUsageQuotaSnapshot e \<and> observed_window (window e))
             (us_events db))
        @ map (\<lambda>(i, r). (map ToLower [qr_AuthIndex r, qr_AuthID r, qr_Source r, qr_AuthFile r],
                 snapshot_of ''trigger'' i (qr_FinishedAt r) (run_window r)))
            (filter (\<lambda>(i, r). since \<le> qr_FinishedAt r \<and> qr_Provider r = ''codex'' \<and> qr_Status r = ''success'' \<and> observed_window (run_window r))
               (us_runs db)))"

text \<open>A snapshot whose reset has passed is skipped; a reset is normalised.\<close>

definition current_snapshot :: "int \<Rightarrow> quotaWindowSnapshot \<Rightarrow> quotaWindowSnapshot option" where
  "current_snapshot now s =
     (case qs_ResetAt s of
        None \<Rightarrow> Some s
      | Some t \<Rightarrow> if normalizeUnixSeconds t \<le> now then None else Some (s\<lparr>qs_ResetAt := Some (normalizeUnixSeconds t)\<rparr>))"

definition current_rows :: "int \<Rightarrow> (string list \<times> quotaWindowSnapshot) list \<Rightarrow> (string list \<times> quotaWindowSnapshot) list" where
  "current_rows now rows =
     concat (map (\<lambda>(cols, s). case current_snapshot now s of None \<Rightarrow> [] | Some s' \<Rightarrow> [(normalizeAccountAliases cols, s')]) rows)"

definition queryLatestAccountWindowQuotaSnapshots ::
  "usage_db \<Rightarrow> accountRow list \<Rightarrow> (usage_event \<Rightarrow> quota_window) \<Rightarrow> (quotaTriggerRun \<Rightarrow> quota_window) \<Rightarrow> int \<Rightarrow> int
   \<Rightarrow> (nat \<times> quotaWindowSnapshot) list" where
  "queryLatestAccountWindowQuotaSnapshots db accounts window run_window since now =
     (if accounts = [] then []
      else claim_rows (accountQuotaAliasIndex accounts) (current_rows now (snapshot_rows db window run_window since)))"

definition snapshot_at :: "(nat \<times> quotaWindowSnapshot) list \<Rightarrow> nat \<Rightarrow> quotaWindowSnapshot" where
  "snapshot_at snapshots i = (case map_of snapshots i of None \<Rightarrow> no_snapshot | Some s \<Rightarrow> s)"

definition queryLatestAccountWindowQuota ::
  "usage_db \<Rightarrow> accountRow \<Rightarrow> (usage_event \<Rightarrow> quota_window) \<Rightarrow> (quotaTriggerRun \<Rightarrow> quota_window) \<Rightarrow> int \<Rightarrow> int \<Rightarrow> quotaWindowSnapshot" where
  "queryLatestAccountWindowQuota db account window run_window since now =
     snapshot_at (queryLatestAccountWindowQuotaSnapshots db [account] window run_window since now) 0"

section \<open>Windows of an account\<close>

definition isFreePlan :: "string \<Rightarrow> bool" where
  "isFreePlan plan0 \<longleftrightarrow>
     (let plan = ToLower (TrimSpace plan0) in plan = ''free'' \<or> Contains plan ''free'' \<or> Contains plan ''trial'')"

text \<open>Durations are seconds.\<close>

definition day :: int where "day = 86400"

definition secondaryQuotaDuration :: "int \<Rightarrow> accountRow \<Rightarrow> int option \<Rightarrow> int" where
  "secondaryQuotaDuration now account reset =
     (if isFreePlan (ar_PlanType account) then 30 * day
      else case reset of
             Some t \<Rightarrow> if 8 * day < normalizeUnixSeconds t - now then 30 * day else 7 * day
           | None \<Rightarrow> 7 * day)"

definition secondaryQuotaWindowLabel :: "int \<Rightarrow> string" where
  "secondaryQuotaWindowLabel duration = (if 28 * day \<le> duration then ''month'' else ''7d'')"

definition secondaryQuotaWindowSource :: "accountRow \<Rightarrow> int option \<Rightarrow> int \<Rightarrow> string" where
  "secondaryQuotaWindowSource account reset duration =
     (if isFreePlan (ar_PlanType account) then ''plan_type''
      else if reset \<noteq> None \<and> 28 * day \<le> duration then ''reset_duration'' else ''default_7d'')"

definition moveMonthlyPrimaryQuotaToSecondary ::
  "int \<Rightarrow> quotaWindowSnapshot \<Rightarrow> quotaWindowSnapshot \<Rightarrow> quotaWindowSnapshot \<times> quotaWindowSnapshot" where
  "moveMonthlyPrimaryQuotaToSecondary now primary secondary =
     (case (qs_Percent primary, qs_ResetAt primary, qs_ResetAt secondary) of
        (Some _, Some t, None) \<Rightarrow>
          if normalizeUnixSeconds t - now \<le> 8 * day then (primary, secondary)
          else (no_snapshot, primary\<lparr>qs_ResetAt := Some (normalizeUnixSeconds t)\<rparr>)
      | _ \<Rightarrow> (primary, secondary))"

definition quotaObservedFrom :: "string \<Rightarrow> string" where
  "quotaObservedFrom source =
     (let s = ToLower (TrimSpace source)
      in if s = ''usage'' then ''response_header'' else if s = ''trigger'' then ''quota_trigger'' else source)"

definition apply_if :: "bool \<Rightarrow> ('a \<Rightarrow> 'a) \<Rightarrow> 'a \<Rightarrow> 'a" where
  "apply_if b f x = (if b then f x else x)"

definition applyAccountQuotaSnapshot :: "quotaWindowSnapshot \<Rightarrow> quotaWindowSnapshot \<Rightarrow> accountRow \<Rightarrow> accountRow" where
  "applyAccountQuotaSnapshot primary secondary account =
     (let a1 = apply_if (qs_Percent primary \<noteq> None) (ar_PrimaryUsedPercent_update (\<lambda>_. qs_Percent primary)) account;
          a2 = apply_if (qs_ResetAt primary \<noteq> None)
                 (\<lambda>a. a\<lparr>ar_PrimaryResetAt := qs_ResetAt primary, ar_PrimaryQuotaWindow := ''5h''\<rparr>) a1;
          a3 = apply_if (qs_Source primary \<noteq> [])
                 (\<lambda>a. a\<lparr>ar_PrimaryQuotaSource := qs_Source primary, ar_PrimaryQuotaObservedFrom := quotaObservedFrom (qs_Source primary)\<rparr>) a2;
          a4 = apply_if (qs_Percent secondary \<noteq> None) (ar_SecondaryUsedPercent_update (\<lambda>_. qs_Percent secondary)) a3;
          a5 = apply_if (qs_ResetAt secondary \<noteq> None) (ar_SecondaryResetAt_update (\<lambda>_. qs_ResetAt secondary)) a4
      in apply_if (qs_Source secondary \<noteq> [])
           (\<lambda>a. a\<lparr>ar_SecondaryQuotaSource := qs_Source secondary,
                   ar_SecondaryQuotaObservedFrom := quotaObservedFrom (qs_Source secondary)\<rparr>) a5)"

definition applyAccountQuotaSource :: "accountRow \<Rightarrow> accountRow" where
  "applyAccountQuotaSource account =
     (let source = (if ar_SecondaryQuotaEstimateSource account \<noteq> [] then ar_SecondaryQuotaEstimateSource account
                    else if ar_SecondaryQuotaSource account \<noteq> [] then ar_SecondaryQuotaSource account
                    else ar_PrimaryQuotaSource account)
      in account\<lparr>ar_QuotaSource := source, ar_QuotaCredibility := source\<rparr>)"

section \<open>Tokens of a window\<close>

record accountTokenWindow =
  wt_Start :: int
  wt_End :: int
  wt_Aliases :: "string list"

definition no_window :: accountTokenWindow where
  "no_window = \<lparr>wt_Start = 0, wt_End = 0, wt_Aliases = []\<rparr>"

definition accountTokenWindowForReset :: "int \<Rightarrow> int option \<Rightarrow> int \<Rightarrow> string list \<Rightarrow> accountTokenWindow" where
  "accountTokenWindowForReset now reset duration aliases =
     (case reset of
        None \<Rightarrow> no_window
      | Some t \<Rightarrow>
          let stop = normalizeUnixSeconds t; first = stop - duration; first' = (if now < first then now - duration else first)
          in if t \<le> 0 \<or> stop \<le> 0 \<or> stop \<le> now then no_window
             else \<lparr>wt_Start = max 0 first', wt_End = stop, wt_Aliases = aliases\<rparr>)"

definition counted_window :: "accountTokenWindow \<Rightarrow> bool" where
  "counted_window w \<longleftrightarrow> 0 < wt_End w \<and> wt_Start w \<le> wt_End w"

definition window_aliases :: "accountTokenWindow \<Rightarrow> string list" where
  "window_aliases w = (if counted_window w then uniqueNonEmptyAliases (wt_Aliases w) else [])"

fun min_start :: "accountTokenWindow list \<Rightarrow> int \<Rightarrow> int" where
  "min_start [] m = m"
| "min_start (w # ws) m = min_start ws (if counted_window w \<and> (m = 0 \<or> wt_Start w < m) then wt_Start w else m)"

fun max_end :: "accountTokenWindow list \<Rightarrow> int \<Rightarrow> int" where
  "max_end [] m = m"
| "max_end (w # ws) m = max_end ws (if counted_window w \<and> m < wt_End w then wt_End w else m)"

function chunks :: "nat \<Rightarrow> 'a list \<Rightarrow> 'a list list" where
  "chunks k xs = (if xs = [] \<or> k = 0 then [] else take k xs # chunks k (drop k xs))"
  by pat_completeness auto

termination by (relation "measure (\<lambda>(k, xs). length xs)") auto

declare chunks.simps [simp del]

definition event_columns :: "usage_event \<Rightarrow> string list" where
  "event_columns e = map ToLower [ev_AuthIndex e, ev_AuthID e, ev_Source e]"

definition chunk_events :: "usage_db \<Rightarrow> int \<Rightarrow> int \<Rightarrow> string list \<Rightarrow> usage_event list" where
  "chunk_events db lo hi chunk =
     filter (\<lambda>e. ev_Provider e = ''codex'' \<and> ev_Generate e \<and> lo \<le> ev_RequestedAt e \<and> ev_RequestedAt e \<le> hi
        \<and> list_ex (\<lambda>c. c \<noteq> [] \<and> c \<in> set chunk) (event_columns e)) (us_events db)"

text \<open>The windows one row is added to: each that an identity column stands for and whose bounds hold the time, once.\<close>

definition matched_windows :: "accountTokenWindow list \<Rightarrow> usage_event \<Rightarrow> nat list" where
  "matched_windows windows e =
     remdups (filter (\<lambda>i. wt_Start (windows ! i) \<le> ev_RequestedAt e \<and> ev_RequestedAt e \<le> wt_End (windows ! i))
       (concat (map (\<lambda>c. alias_accounts (map window_aliases windows) (normalizeAccountAlias c)) (event_columns e))))"

definition add_tokens :: "int \<Rightarrow> int list \<Rightarrow> nat \<Rightarrow> int list" where
  "add_tokens tokens out i = out[i := wrap64 (out ! i + tokens)]"

definition count_event :: "accountTokenWindow list \<Rightarrow> int list \<Rightarrow> usage_event \<Rightarrow> int list" where
  "count_event windows out e = foldl (add_tokens (ud_TotalTokens (ev_Detail e))) out (matched_windows windows e)"

definition tokenChunkSize :: nat where "tokenChunkSize = 250"

text \<open>\<open>order\<close> is the order in which the runtime iterates over the map of the aliases; a query that fails leaves its chunk out.\<close>

definition queryAccountWindowTokensBatch ::
  "(nat \<Rightarrow> bool) \<Rightarrow> (string list \<Rightarrow> string list) \<Rightarrow> usage_db \<Rightarrow> accountTokenWindow list \<Rightarrow> int list" where
  "queryAccountWindowTokensBatch query_ok order db windows =
     (let lo = min_start windows 0; hi = max_end windows 0;
          aliases = remdups (concat (map window_aliases windows));
          zeros = replicate (length windows) 0
      in if lo = 0 \<or> hi = 0 \<or> aliases = [] then zeros
         else foldl (\<lambda>out (n, chunk). if query_ok n then foldl (count_event windows) out (chunk_events db lo hi chunk) else out)
                zeros (zip [0..<length aliases] (chunks tokenChunkSize (order aliases))))"

text \<open>A sum that leaves the 64 bits is an error of the database, and the result stays 0.\<close>

definition queryAccountTokensBetween :: "usage_db \<Rightarrow> int \<Rightarrow> accountRow \<Rightarrow> int \<Rightarrow> int \<Rightarrow> string list \<Rightarrow> int" where
  "queryAccountTokensBetween db now account start stop aliases0 =
     (let hi = (if stop \<le> 0 then now else stop); lo = max 0 start;
          aliases = (if aliases0 = [] then accountAliases account else aliases0)
      in if hi < lo \<or> aliases = [] then 0
         else let total = sum_list (map (\<lambda>e. ud_TotalTokens (ev_Detail e)) (chunk_events db lo hi aliases))
              in if in_int64 total then total else 0)"

definition cleared_quota :: "accountRow \<Rightarrow> accountRow" where
  "cleared_quota account = account\<lparr>ar_PrimaryUsedPercent := None, ar_PrimaryResetAt := None, ar_PrimaryQuotaWindow := [],
     ar_PrimaryQuotaSource := [], ar_PrimaryQuotaObservedFrom := [], ar_SecondaryUsedPercent := None, ar_SecondaryResetAt := None,
     ar_SecondaryQuotaSource := [], ar_SecondaryQuotaObservedFrom := [], ar_PrimaryWindowTokens := 0, ar_SecondaryWindowTokens := 0\<rparr>"

text \<open>
  The two passes of \<open>applyLatestQuotaSnapshots\<close>. The second one moves a monthly window again for the source of the
  window, but only for accounts that have a primary snapshot.
\<close>

definition applyLatestQuotaSnapshots ::
  "(nat \<Rightarrow> bool) \<Rightarrow> (string list \<Rightarrow> string list) \<Rightarrow> usage_db \<Rightarrow> int \<Rightarrow> int \<Rightarrow> accountRow list \<Rightarrow> accountRow list" where
  "applyLatestQuotaSnapshots query_ok order db since now accounts =
     (let primaries = queryLatestAccountWindowQuotaSnapshots db accounts ev_Primary qr_Primary since now;
          secondaries = queryLatestAccountWindowQuotaSnapshots db accounts ev_Secondary qr_Secondary since now;
          aliases = accountQuotaAliasSets accounts;
          moved = map (\<lambda>i. moveMonthlyPrimaryQuotaToSecondary now (snapshot_at primaries i) (snapshot_at secondaries i)) [0..<length accounts];
          durations = map (\<lambda>(a, _, s). secondaryQuotaDuration now a (qs_ResetAt s)) (zip accounts moved);
          primaryTokens = queryAccountWindowTokensBatch query_ok order db
            (map (\<lambda>((p, _), as). accountTokenWindowForReset now (qs_ResetAt p) (5 * 3600) as) (zip moved aliases));
          secondaryTokens = queryAccountWindowTokensBatch query_ok order db
            (map (\<lambda>((_, s), d, as). accountTokenWindowForReset now (qs_ResetAt s) d as) (zip moved (zip durations aliases)))
      in map (\<lambda>i. let (p, s) = moved ! i;
                      a1 = applyAccountQuotaSnapshot p s (cleared_quota (accounts ! i));
                      shown = (if i \<in> fst ` set primaries then s else snapshot_at secondaries i)
                  in applyAccountQuotaSource (a1\<lparr>ar_PrimaryWindowTokens := primaryTokens ! i, ar_SecondaryWindowTokens := secondaryTokens ! i,
                       ar_SecondaryQuotaWindow := secondaryQuotaWindowLabel (durations ! i),
                       ar_QuotaWindowSource := secondaryQuotaWindowSource a1 (qs_ResetAt shown) (durations ! i)\<rparr>))
           [0..<length accounts])"

section \<open>Capacities\<close>

record secondaryQuotaCapacitySnapshot =
  cs_Total :: int
  cs_Remaining :: int
  cs_ResetAt :: "int option"
  cs_FinishedAt :: int

text \<open>A run counts when its reset lies ahead and its limit and remainder are sensible.\<close>

definition run_capacity :: "int \<Rightarrow> quotaTriggerRun \<Rightarrow> secondaryQuotaCapacitySnapshot option" where
  "run_capacity now r =
     (let reset = normalizeInt64Ptr (snd (qr_Secondary r))
      in case (qr_SecondaryLimit r, qr_SecondaryRemaining r) of
           (Some limit, Some remaining) \<Rightarrow>
             if (case reset of Some t \<Rightarrow> t \<le> now | None \<Rightarrow> False) \<or> limit \<le> 0 \<or> remaining < 0 \<or> limit < remaining then None
             else Some \<lparr>cs_Total = limit, cs_Remaining = remaining, cs_ResetAt = reset, cs_FinishedAt = qr_FinishedAt r\<rparr>
         | _ \<Rightarrow> None)"

definition latestSecondaryQuotaTriggerCapacities ::
  "usage_db \<Rightarrow> accountRow list \<Rightarrow> int \<Rightarrow> int \<Rightarrow> (nat \<times> secondaryQuotaCapacitySnapshot) list" where
  "latestSecondaryQuotaTriggerCapacities db accounts since now =
     (if accounts = [] then []
      else claim_rows (accountQuotaAliasIndex accounts)
        (concat (map (\<lambda>(i, r). case run_capacity now r of None \<Rightarrow> []
             | Some c \<Rightarrow> [(normalizeAccountAliases [qr_AuthIndex r, qr_AuthID r, qr_Source r, qr_AuthFile r], c)])
          (sort_key (\<lambda>(i, r). (- qr_FinishedAt r, - i))
            (filter (\<lambda>(i, r). since \<le> qr_FinishedAt r \<and> qr_Provider r = ''codex'' \<and> qr_Status r = ''success''
               \<and> (qr_SecondaryLimit r \<noteq> None \<or> qr_SecondaryRemaining r \<noteq> None)) (us_runs db))))))"

definition adjustedSecondaryQuotaTriggerCapacity ::
  "usage_db \<Rightarrow> int \<Rightarrow> accountRow \<Rightarrow> secondaryQuotaCapacitySnapshot \<Rightarrow> string list \<Rightarrow> int \<times> int" where
  "adjustedSecondaryQuotaTriggerCapacity db now account capacity aliases =
     (let total = cs_Total capacity; remain = cs_Remaining capacity;
          duration = secondaryQuotaDuration now account (cs_ResetAt capacity);
          reset = (case cs_ResetAt capacity of None \<Rightarrow> 0 | Some t \<Rightarrow> t);
          windowStart = max 0 (normalizeUnixSeconds reset - duration);
          start = max (cs_FinishedAt capacity) windowStart;
          used = queryAccountTokensBetween db now account (start + 1) now aliases
      in if total \<le> 0 \<or> total < remain then (0, 0)
         else (total, if 0 < used then max 0 (remain - used) else remain))"

text \<open>
  \<open>fe_round\<close> rounds an exact result to the nearest \<open>float64\<close>; the conversion to an integer truncates, and
  is left to the processor outside the 64 bits and for a NaN.
\<close>

record float_env =
  fe_round :: "rat \<Rightarrow> rat"
  fe_convert :: "rat \<Rightarrow> int"
  fe_nan :: int

definition to_int64 :: "float_env \<Rightarrow> rat \<Rightarrow> int" where
  "to_int64 fe q =
     (let n = (if 0 \<le> q then \<lfloor>q\<rfloor> else \<lceil>q\<rceil>) in if in_int64 n then n else fe_convert fe q)"

definition estimateQuotaFromUsedPercent :: "float_env \<Rightarrow> int \<Rightarrow> go_float option \<Rightarrow> int \<times> int" where
  "estimateQuotaFromUsedPercent fe usedTokens usedPercent =
     (let rnd = fe_round fe;
          clamp = (\<lambda>total0. let total = max total0 usedTokens in (total, max 0 (total - usedTokens)))
      in if usedTokens \<le> 0 then (0, 0)
         else case usedPercent of
                Some (Fin p) \<Rightarrow> if p \<le> 0 then (0, 0)
                  else clamp (to_int64 fe (rnd (rnd (rnd (rnd (of_int usedTokens) * 100) / p) + 1 / 2)))
              | Some PosInf \<Rightarrow> clamp (to_int64 fe (1 / 2))
              | Some NaN \<Rightarrow> clamp (fe_nan fe)
              | _ \<Rightarrow> (0, 0))"

record secondary_totals =
  st_TotalEstimate :: int
  st_RemainingEstimate :: int
  st_EstimatedAccounts :: int

definition not_enough_tokens :: string where
  "not_enough_tokens = bytes [0xE6, 0x97, 0xA0, 0xE8, 0xB6, 0xB3, 0xE5, 0xA4, 0x9F, 0xE6, 0x9C, 0xAC, 0xE5, 0x9C, 0xB0]
     @ '' token'' @ bytes [0xEF, 0xBC, 0x8C, 0xE6, 0x97, 0xA0, 0xE6, 0xB3, 0x95, 0xE4, 0xBC, 0xB0, 0xE7, 0xAE, 0x97, 0xE6, 0x80, 0xBB,
       0xE9, 0xA2, 0x9D]"

definition estimate_account ::
  "float_env \<Rightarrow> usage_db \<Rightarrow> int \<Rightarrow> secondaryQuotaCapacitySnapshot option \<Rightarrow> string list \<Rightarrow> accountRow \<Rightarrow> accountRow \<times> int \<times> int" where
  "estimate_account fe db now capacity aliases account =
     (let a0 = account\<lparr>ar_SecondaryQuotaEstimateSource := [], ar_SecondaryQuotaEstimateMethod := [], ar_QuotaEstimateNote := []\<rparr>;
          known = (case capacity of None \<Rightarrow> (0, 0) | Some c \<Rightarrow> adjustedSecondaryQuotaTriggerCapacity db now a0 c aliases);
          guess = estimateQuotaFromUsedPercent fe (ar_SecondaryWindowTokens a0) (ar_SecondaryUsedPercent a0);
          (total, remaining) = (if 0 < fst known then known else guess);
          a1 = (if 0 < fst known
                then a0\<lparr>ar_SecondaryQuotaEstimateSource := ''trigger'', ar_SecondaryQuotaEstimateMethod := ''quota_trigger_capacity''\<rparr>
                else if 0 < fst guess
                then a0\<lparr>ar_SecondaryQuotaEstimateSource := ''estimated'', ar_SecondaryQuotaEstimateMethod := ''local_tokens_percent_estimate''\<rparr>
                else a0)
      in if total \<le> 0
         then (applyAccountQuotaSource
                 (if ar_SecondaryUsedPercent a1 \<noteq> None \<and> ar_SecondaryWindowTokens a1 \<le> 0
                  then a1\<lparr>ar_QuotaCredibility := ''insufficient_local_tokens'', ar_SecondaryQuotaEstimateMethod := ''not_enough_local_tokens'',
                           ar_QuotaEstimateNote := not_enough_tokens\<rparr>
                  else a1), 0, 0)
         else (applyAccountQuotaSource (a1\<lparr>ar_SecondaryQuotaTotalEstimate := total, ar_SecondaryQuotaRemainingEstimate := remaining\<rparr>),
               total, remaining))"

definition applySecondaryQuotaEstimates ::
  "float_env \<Rightarrow> usage_db \<Rightarrow> int \<Rightarrow> int \<Rightarrow> accountRow list \<Rightarrow> secondary_totals \<Rightarrow> accountRow list \<times> secondary_totals" where
  "applySecondaryQuotaEstimates fe db since now accounts totals =
     (let capacities = latestSecondaryQuotaTriggerCapacities db accounts since now;
          aliases = accountQuotaAliasSets accounts;
          results = map (\<lambda>i. estimate_account fe db now (map_of capacities i) (aliases ! i) (accounts ! i)) [0..<length accounts];
          (total, remaining, n) = foldl (\<lambda>(t, r, n) (_, dt, dr). if 0 < dt then (wrap64 (t + dt), wrap64 (r + dr), n + 1) else (t, r, n))
            (st_TotalEstimate totals, st_RemainingEstimate totals, 0) results
      in (map fst results, \<lparr>st_TotalEstimate = total, st_RemainingEstimate = remaining, st_EstimatedAccounts = n\<rparr>))"

section \<open>One pass gives every account its first row\<close>

lemma map_of_claim: "map_of (claim s out j) i = (case map_of out i of Some x \<Rightarrow> Some x | None \<Rightarrow> if i = j then Some s else None)"
proof -
  have "j \<in> fst ` set out \<longleftrightarrow> map_of out j \<noteq> None" by (metis map_of_eq_None_iff)
  then show ?thesis by (auto simp: claim_def map_add_def split: option.split)
qed

lemma map_of_claims: "map_of (foldl (claim s) out js) i = (case map_of out i of Some x \<Rightarrow> Some x | None \<Rightarrow> if i \<in> set js then Some s else None)"
  by (induction js arbitrary: out) (auto simp: map_of_claim split: option.split)

lemma map_of_claim_aliases:
  "map_of (foldl (\<lambda>out a. foldl (claim s) out (index a)) out as) i =
     (case map_of out i of Some x \<Rightarrow> Some x | None \<Rightarrow> if \<exists>a\<in>set as. i \<in> set (index a) then Some s else None)"
  by (induction as arbitrary: out) (auto simp: map_of_claims split: option.split)

lemma map_of_claim_rows_from:
  "map_of (foldl (\<lambda>out (as, s). foldl (\<lambda>out a. foldl (claim s) out (index a)) out as) out rows) i =
     (case map_of out i of Some x \<Rightarrow> Some x | None \<Rightarrow> map_option snd (find (\<lambda>(as, _). \<exists>a\<in>set as. i \<in> set (index a)) rows))"
  by (induction rows arbitrary: out) (auto simp: map_of_claim_aliases split: option.split prod.split)

lemma map_of_claim_rows: "map_of (claim_rows index rows) i = map_option snd (find (\<lambda>(as, _). \<exists>a\<in>set as. i \<in> set (index a)) rows)"
  by (simp add: claim_rows_def map_of_claim_rows_from)

section \<open>The batched count\<close>

lemma wrap64_add: "wrap64 (wrap64 a + b) = wrap64 (a + b)"
  unfolding wrap64_def by (metis signed_take_bit_add signed_take_bit_signed_take_bit min.idem)

lemma length_add_tokens [simp]: "length (foldl (add_tokens t) out js) = length out"
  by (induction js arbitrary: out) (simp_all add: add_tokens_def)

lemma nth_add_tokens:
  "distinct js \<Longrightarrow> i < length out \<Longrightarrow> foldl (add_tokens t) out js ! i = (if i \<in> set js then wrap64 (out ! i + t) else out ! i)"
proof (induction js arbitrary: out)
  case (Cons j js)
  then show ?case by (cases "i = j") (simp_all add: add_tokens_def)
qed simp

lemma length_count_events [simp]: "length (foldl (count_event windows) out es) = length out"
  by (induction es arbitrary: out) (simp_all add: count_event_def)

lemma nth_count_events:
  assumes "i < length out"
  shows "wrap64 (foldl (count_event windows) out es ! i) =
    wrap64 (out ! i + sum_list (map (\<lambda>e. ud_TotalTokens (ev_Detail e)) (filter (\<lambda>e. i \<in> set (matched_windows windows e)) es)))"
  using assms
proof (induction es arbitrary: out)
  case (Cons e es)
  let ?out = "count_event windows out e"
  have n: "?out ! i = (if i \<in> set (matched_windows windows e) then wrap64 (out ! i + ud_TotalTokens (ev_Detail e)) else out ! i)"
    unfolding count_event_def using Cons.prems by (intro nth_add_tokens) (simp_all add: matched_windows_def)
  have "i < length ?out" using Cons.prems by (simp add: count_event_def)
  from Cons.IH [OF this] show ?case by (simp add: n wrap64_add add.assoc)
qed simp

text \<open>A sum that starts from 0 is wrapped already.\<close>

lemma add_tokens_wrapped:
  "\<forall>x\<in>set out. wrap64 x = x \<Longrightarrow> \<forall>x\<in>set (foldl (add_tokens t) out js). wrap64 x = x"
proof (induction js arbitrary: out)
  case (Cons j js)
  have "\<forall>x\<in>set (add_tokens t out j). wrap64 x = x"
    using Cons.prems set_update_subset_insert [of out j] by (fastforce simp: add_tokens_def wrap64_def)
  then show ?case using Cons.IH by simp
qed simp

lemma count_events_wrapped:
  "\<forall>x\<in>set out. wrap64 x = x \<Longrightarrow> \<forall>x\<in>set (foldl (count_event windows) out es). wrap64 x = x"
proof (induction es arbitrary: out)
  case (Cons e es)
  from Cons.IH [OF add_tokens_wrapped [OF Cons.prems]] show ?case by (simp add: count_event_def)
qed simp

definition trimmed_event :: "usage_event \<Rightarrow> bool" where
  "trimmed_event e \<longleftrightarrow> list_all (\<lambda>c. TrimSpace c = c) [ev_AuthIndex e, ev_AuthID e, ev_Source e]"

definition window_event :: "accountTokenWindow \<Rightarrow> usage_event \<Rightarrow> bool" where
  "window_event w e \<longleftrightarrow> ev_Provider e = ''codex'' \<and> ev_Generate e \<and> wt_Start w \<le> ev_RequestedAt e \<and> ev_RequestedAt e \<le> wt_End w
     \<and> list_ex (\<lambda>c. c \<noteq> [] \<and> c \<in> set (window_aliases w)) (event_columns e)"

definition window_tokens :: "usage_db \<Rightarrow> accountTokenWindow \<Rightarrow> int" where
  "window_tokens db w = wrap64 (sum_list (map (\<lambda>e. ud_TotalTokens (ev_Detail e)) (filter (window_event w) (us_events db))))"

lemma trimmed_columns: "trimmed_event e \<Longrightarrow> c \<in> set (event_columns e) \<Longrightarrow> normalizeAccountAlias c = c"
  by (auto simp: trimmed_event_def event_columns_def normalizeAccountAlias_def simp flip: ToLower_TrimSpace)

lemma matched_iff:
  assumes "trimmed_event e" "i < length windows"
  shows "i \<in> set (matched_windows windows e) \<longleftrightarrow> wt_Start (windows ! i) \<le> ev_RequestedAt e \<and> ev_RequestedAt e \<le> wt_End (windows ! i)
     \<and> list_ex (\<lambda>c. c \<noteq> [] \<and> c \<in> set (window_aliases (windows ! i))) (event_columns e)"
proof -
  have "(\<exists>c\<in>set (event_columns e). i \<in> set (alias_accounts (map window_aliases windows) (normalizeAccountAlias c)))
      \<longleftrightarrow> list_ex (\<lambda>c. c \<noteq> [] \<and> c \<in> set (window_aliases (windows ! i))) (event_columns e)"
    using trimmed_columns [OF assms(1)] assms(2) by (auto simp: alias_accounts_def list_ex_iff)
  then show ?thesis by (auto simp: matched_windows_def)
qed

lemma min_start_le: "\<forall>w\<in>set ws. counted_window w \<longrightarrow> 0 < wt_Start w \<Longrightarrow> 0 \<le> m \<Longrightarrow>
   (0 < m \<longrightarrow> 0 < min_start ws m \<and> min_start ws m \<le> m)
   \<and> (\<forall>w\<in>set ws. counted_window w \<longrightarrow> 0 < min_start ws m \<and> min_start ws m \<le> wt_Start w)"
proof (induction ws arbitrary: m)
  case (Cons w ws)
  let ?m = "if counted_window w \<and> (m = 0 \<or> wt_Start w < m) then wt_Start w else m"
  have "0 \<le> ?m" "0 < m \<longrightarrow> ?m \<le> m" "counted_window w \<longrightarrow> 0 < ?m \<and> ?m \<le> wt_Start w" "0 < m \<longrightarrow> 0 < ?m" using Cons.prems by auto
  moreover have "(0 < ?m \<longrightarrow> 0 < min_start ws ?m \<and> min_start ws ?m \<le> ?m)
     \<and> (\<forall>w\<in>set ws. counted_window w \<longrightarrow> 0 < min_start ws ?m \<and> min_start ws ?m \<le> wt_Start w)"
    using Cons.prems \<open>0 \<le> ?m\<close> by (intro Cons.IH) auto
  ultimately show ?case by (force simp del: if_split)
qed simp

lemma max_end_ge: "m \<le> max_end ws m \<and> (\<forall>w\<in>set ws. counted_window w \<longrightarrow> wt_End w \<le> max_end ws m)"
proof (induction ws arbitrary: m)
  case (Cons w ws)
  from Cons [of "if counted_window w \<and> m < wt_End w then wt_End w else m"] show ?case by (auto split: if_splits)
qed simp

lemma chunks_whole: "xs \<noteq> [] \<Longrightarrow> length xs \<le> k \<Longrightarrow> chunks k xs = [xs]"
  by (cases xs) (simp_all add: chunks.simps [of k] chunks.simps [of k "[]"])

lemma window_event_matched:
  assumes "trimmed_event e" "i < length windows" "set aliases = set (concat (map window_aliases windows))"
    and "counted_window (windows ! i) \<longrightarrow> lo \<le> wt_Start (windows ! i) \<and> wt_End (windows ! i) \<le> hi"
  shows "window_event (windows ! i) e \<longleftrightarrow> (ev_Provider e = ''codex'' \<and> ev_Generate e \<and> lo \<le> ev_RequestedAt e \<and> ev_RequestedAt e \<le> hi
     \<and> list_ex (\<lambda>c. c \<noteq> [] \<and> c \<in> set aliases) (event_columns e)) \<and> i \<in> set (matched_windows windows e)"
proof -
  have sub: "set (window_aliases (windows ! i)) \<subseteq> set aliases" using assms(2,3) by auto
  have "counted_window (windows ! i)" if "c \<in> set (window_aliases (windows ! i))" for c
    using that by (auto simp: window_aliases_def split: if_splits)
  then show ?thesis using assms(4) sub unfolding matched_iff [OF assms(1,2)] window_event_def by (fastforce simp: list_ex_iff)
qed

section \<open>Examples\<close>

definition example_event :: "string \<Rightarrow> string \<Rightarrow> int \<Rightarrow> quota_window \<Rightarrow> usage_event" where
  "example_event index authID t q = \<lparr>ev_ID = 1, ev_RequestedAt = t, ev_Provider = ''codex'', ev_ExecutorType = [], ev_Model = [], ev_Alias = [],
     ev_APIKey = [], ev_AuthID = authID, ev_AuthIndex = index, ev_AuthType = [], ev_Source = [], ev_ReasoningEffort = [], ev_ServiceTier = [],
     ev_Generate = True, ev_LatencyMs = 0, ev_TTFTMs = 0, ev_Failed = False, ev_StatusCode = 200,
     ev_Detail = (ur_Detail no_usage)\<lparr>ud_TotalTokens := 10\<rparr>, ev_Primary = q, ev_Secondary = (None, None)\<rparr>"

definition example_db :: "usage_event list \<Rightarrow> usage_db" where
  "example_db es = \<lparr>us_events = es, us_nextEvent = 2, us_runs = [], us_nextRun = 1\<rparr>"

definition example_row :: "string \<Rightarrow> accountRow" where
  "example_row file = no_account\<lparr>ar_AuthIndex := file, ar_AuthFile := file\<rparr>"

section \<open>Properties\<close>



text \<open>C19: The batched count of the tokens of all windows is right while the aliases fit into one query. Then every window gets the
  64-bit sum of the tokens of the events in its bounds that name one of its aliases, each event once, in whatever order the
  aliases are asked for.\<close>

theorem batched_tokens_reference:
  assumes "\<forall>w\<in>set windows. counted_window w \<longrightarrow> 0 < wt_Start w" "list_all trimmed_event (us_events db)"
    and "length (remdups (concat (map window_aliases windows))) \<le> tokenChunkSize" "\<forall>as. mset (order as) = mset as" "query_ok 0"
  shows "queryAccountWindowTokensBatch query_ok order db windows = map (window_tokens db) windows"
proof (cases "concat (map window_aliases windows) = []")
  case True
  then have "\<not> window_event w e" if "w \<in> set windows" for w e using that by (auto simp: window_event_def list_ex_iff)
  then have "map (window_tokens db) windows = replicate (length windows) 0"
    by (intro replicate_eqI) (auto simp: window_tokens_def wrap64_def)
  with True show ?thesis by (simp add: queryAccountWindowTokensBatch_def Let_def)
next
  case False
  let ?lo = "min_start windows 0" and ?hi = "max_end windows 0"
  let ?aliases = "remdups (concat (map window_aliases windows))"
  have sets: "set (order as) = set as" "length (order as) = length as" for as
    using assms(4) by (metis mset_eq_setD, metis mset_eq_length)
  obtain v where "v \<in> set windows" "window_aliases v \<noteq> []" using False by auto
  then have v: "v \<in> set windows" "counted_window v" by (auto simp: window_aliases_def split: if_splits)
  have bounds: "\<forall>w\<in>set windows. counted_window w \<longrightarrow> 0 < ?lo \<and> ?lo \<le> wt_Start w \<and> wt_End w \<le> ?hi"
    using min_start_le [OF assms(1), of 0] max_end_ge [of 0 windows] by simp
  have nonzero: "?lo \<noteq> 0" "?hi \<noteq> 0" using bounds v by (auto simp: counted_window_def)
  have "chunks tokenChunkSize (order ?aliases) = [order ?aliases]"
    using False assms(3) sets by (intro chunks_whole) (metis remdups_eq_nil_iff length_0_conv, simp)
  moreover have "[0..<length ?aliases] = 0 # [Suc 0..<length ?aliases]"
    using False by (intro upt_conv_Cons) (simp del: upt_Suc)
  ultimately have run: "queryAccountWindowTokensBatch query_ok order db windows =
      foldl (count_event windows) (replicate (length windows) 0) (chunk_events db ?lo ?hi (order ?aliases))"
    using False nonzero assms(5) unfolding queryAccountWindowTokensBatch_def Let_def by (auto simp del: upt_Suc)
  show ?thesis
  proof (rule nth_equalityI)
    fix i assume "i < length (queryAccountWindowTokensBatch query_ok order db windows)"
    then have i: "i < length windows" by (simp add: run)
    let ?out = "foldl (count_event windows) (replicate (length windows) 0) (chunk_events db ?lo ?hi (order ?aliases))"
    have "\<forall>x\<in>set ?out. wrap64 x = x" by (rule count_events_wrapped) (simp add: wrap64_def)
    then have "?out ! i = wrap64 (?out ! i)" using i by (simp add: list_all_length [unfolded list_all_iff])
    also have "\<dots> = wrap64 (sum_list (map (\<lambda>e. ud_TotalTokens (ev_Detail e))
        (filter (\<lambda>e. i \<in> set (matched_windows windows e)) (chunk_events db ?lo ?hi (order ?aliases)))))"
      using i by (subst nth_count_events) simp_all
    also have "filter (\<lambda>e. i \<in> set (matched_windows windows e)) (chunk_events db ?lo ?hi (order ?aliases)) = filter (window_event (windows ! i)) (us_events db)"
    proof -
      have "window_event (windows ! i) e \<longleftrightarrow> (ev_Provider e = ''codex'' \<and> ev_Generate e \<and> ?lo \<le> ev_RequestedAt e \<and> ev_RequestedAt e \<le> ?hi
          \<and> list_ex (\<lambda>c. c \<noteq> [] \<and> c \<in> set (order ?aliases)) (event_columns e)) \<and> i \<in> set (matched_windows windows e)"
        if "e \<in> set (us_events db)" for e
        using that assms(2) i bounds by (intro window_event_matched) (auto simp: sets list_all_iff)
      then show ?thesis unfolding chunk_events_def by (auto intro: filter_cong)
    qed
    finally show "queryAccountWindowTokensBatch query_ok order db windows ! i = map (window_tokens db) windows ! i"
      using i by (simp add: run window_tokens_def)
  qed (simp add: run)
qed

theorem batched_tokens_reference_witness:
  "queryAccountWindowTokensBatch (\<lambda>_. True) rev (example_db [example_event ''a'' ''b'' 50 (None, None)])
     [\<lparr>wt_Start = 40, wt_End = 60, wt_Aliases = [''A'', ''B'']\<rparr>, \<lparr>wt_Start = 51, wt_End = 60, wt_Aliases = [''a'']\<rparr>] = [10, 0]"
proof -
  let ?windows = "[\<lparr>wt_Start = 40, wt_End = 60, wt_Aliases = [''A'', ''B'']\<rparr>, \<lparr>wt_Start = 51, wt_End = 60, wt_Aliases = [''a'']\<rparr>]"
  let ?db = "example_db [example_event ''a'' ''b'' 50 (None, None)]"
  have "list_all trimmed_event (us_events ?db)" "length (remdups (concat (map window_aliases ?windows))) \<le> tokenChunkSize"
    "map (window_tokens ?db) ?windows = [10, 0]" by code_simp+
  then show ?thesis using batched_tokens_reference [of ?windows ?db rev "\<lambda>_. True"] by simp
qed

text \<open>
  With more aliases than one query takes, an event whose columns are asked for in two chunks is counted twice: the
  map of the windows that were given its tokens is made anew for every chunk.
\<close>

lemma chunks_two: "length xs = k \<Longrightarrow> 0 < k \<Longrightarrow> ys \<noteq> [] \<Longrightarrow> length ys \<le> k \<Longrightarrow> chunks k (xs @ ys) = [xs, ys]"
  by (subst chunks.simps) (simp add: chunks_whole)

lemma chunked_tokens_counted_twice:
  assumes "counted_window w" "0 < wt_Start w" "window_event w e" "trimmed_event e"
    and "order (remdups (window_aliases w)) = as @ bs" "length as = tokenChunkSize" "length bs \<le> tokenChunkSize"
    and "ev_AuthIndex e \<noteq> []" "ToLower (ev_AuthIndex e) \<in> set as" "ev_AuthID e \<noteq> []" "ToLower (ev_AuthID e) \<in> set bs"
    and "length (remdups (window_aliases w)) = length (as @ bs)"
  shows "queryAccountWindowTokensBatch (\<lambda>_. True) order (example_db [e]) [w] = [wrap64 (2 * ud_TotalTokens (ev_Detail e))]"
proof -
  have k: "0 < tokenChunkSize" "as \<noteq> []" "bs \<noteq> []" using assms(6,9,11) by (auto simp: tokenChunkSize_def)
  have two: "chunks tokenChunkSize (as @ bs) = [as, bs]" using assms(6,7) k by (intro chunks_two) simp_all
  have upt: "[0..<length (as @ bs)] = 0 # 1 # [2..<length (as @ bs)]"
    using k assms(6) by (cases bs) (simp_all add: upt_conv_Cons tokenChunkSize_def numeral_2_eq_2)
  have start: "min_start [w] 0 = wt_Start w" "max_end [w] 0 = wt_End w" using assms(1) by (simp_all add: counted_window_def)
  have hit: "chunk_events (example_db [e]) (wt_Start w) (wt_End w) as = [e]" "chunk_events (example_db [e]) (wt_Start w) (wt_End w) bs = [e]"
    using assms(3,8-11) by (simp_all add: chunk_events_def example_db_def window_event_def event_columns_def)
  have "set (matched_windows [w] e) = {0}"
    using matched_iff [OF assms(4), of 0 "[w]"] assms(3) by (auto simp: window_event_def matched_windows_def alias_accounts_def)
  moreover have "distinct (matched_windows [w] e)" by (simp add: matched_windows_def)
  ultimately have "matched_windows [w] e = [0]" by (cases "matched_windows [w] e"; cases "tl (matched_windows [w] e)") auto
  then have "count_event [w] [n] e = [wrap64 (n + ud_TotalTokens (ev_Detail e))]" for n
    by (simp add: count_event_def add_tokens_def)
  moreover have "window_aliases w \<noteq> []" using assms(12) k by auto
  moreover have "wt_End w \<noteq> 0" "wt_Start w \<noteq> 0" using assms(1,2) by (auto simp: counted_window_def)
  ultimately show ?thesis using assms(5,12)
    by (simp add: queryAccountWindowTokensBatch_def Let_def start two upt hit wrap64_add del: upt_Suc length_append min_start.simps max_end.simps)
qed

text \<open>
  The credibility that is meant to say that there are too few local tokens is overwritten at once.
\<close>

lemma insufficient_tokens_overwritten:
  "ar_QuotaCredibility (fst (estimate_account fe db now capacity aliases account)) = ar_QuotaSource (fst (estimate_account fe db now capacity aliases account))"
  by (simp add: estimate_account_def applyAccountQuotaSource_def Let_def split_def)

end
