(* ===== verification/External_Use.thy ===== *)
theory External_Use
  imports Quota_Windows "HOL-Library.AList"
begin

text \<open>
  Suspected use of an account by another client (\<open>queryExternalUseAlerts\<close>, \<open>summary.go\<close>): within one quota window
  the used percentage rises while this client spent next to nothing. Also the conditions by which a summary counts an
  event to the Codex accounts, to xAI or to the other providers. The lemmas: every alert stands for two snapshots
  of one account and one window with such a rise between them.
\<close>

section \<open>Scopes\<close>

definition api_key_type :: "usage_event \<Rightarrow> bool" where
  "api_key_type e \<longleftrightarrow> ToLower (ev_AuthType e) \<in> {''apikey'', ''api_key'', ''key''}"

definition codexAccountScope :: "usage_event \<Rightarrow> bool" where
  "codexAccountScope e \<longleftrightarrow> (ToLower (ev_Provider e) = ''codex'' \<or> Contains (ToLower (ev_ExecutorType e)) ''codex'')
     \<and> \<not> api_key_type e \<and> \<not> HasPrefix (ToLower (ev_AuthID e)) ''codex:apikey:''
     \<and> \<not> HasPrefix (ToLower (ev_Source e)) ''sk-'' \<and> \<not> HasPrefix (ToLower (ev_Source e)) ''bearer sk-''"

definition xaiAccountScope :: "usage_event \<Rightarrow> bool" where
  "xaiAccountScope e \<longleftrightarrow> ToLower (ev_Provider e) = ''xai'' \<or> Contains (ToLower (ev_ExecutorType e)) ''xai''"

record providerConfigEntry =
  pe_Name :: string
  pe_Provider :: string
  pe_APIKey :: string

definition codexAPIKeyProviderScope :: "key_env \<Rightarrow> providerConfigEntry list \<Rightarrow> usage_event \<Rightarrow> bool" where
  "codexAPIKeyProviderScope ke entries e \<longleftrightarrow> ToLower (ev_Provider e) = ''codex'' \<and> api_key_type e
     \<and> list_ex (\<lambda>entry. EqualFold (pe_Provider entry) ''Codex'' \<and> TrimSpace (pe_APIKey entry) \<noteq> []
          \<and> privacySafeAPIKey ke (pe_APIKey entry) \<noteq> [] \<and> ev_Source e = privacySafeAPIKey ke (pe_APIKey entry)) entries"

definition usageScope :: "key_env \<Rightarrow> providerConfigEntry list \<Rightarrow> string \<Rightarrow> usage_event \<Rightarrow> bool" where
  "usageScope ke entries scope e \<longleftrightarrow>
     (let s = ToLower (TrimSpace scope)
      in if s = ''codex'' then codexAccountScope e
         else if s = ''other''
         then \<not> codexAccountScope e \<and> \<not> xaiAccountScope e
              \<and> (\<not> (ToLower (ev_Provider e) = ''codex'' \<and> api_key_type e) \<or> codexAPIKeyProviderScope ke entries e)
         else if s = ''xai'' then xaiAccountScope e
         else True)"

definition generatedUsageScope :: "key_env \<Rightarrow> providerConfigEntry list \<Rightarrow> string \<Rightarrow> usage_event \<Rightarrow> bool" where
  "generatedUsageScope ke entries scope e \<longleftrightarrow> ev_Generate e \<and> usageScope ke entries scope e"

section \<open>Snapshots in order\<close>

record externalUseEvent =
  xv_Timestamp :: int
  xv_Provider :: string
  xv_AuthID :: string
  xv_AuthIndex :: string
  xv_Source :: string
  xv_Tokens :: int
  xv_Primary :: quota_window
  xv_Secondary :: quota_window

definition external_key :: "externalUseEvent \<Rightarrow> string" where
  "external_key v = firstNonEmptyString [xv_Source v, xv_AuthID v, xv_AuthIndex v, ''unknown'']"

definition sort_identity :: "string \<Rightarrow> string \<Rightarrow> string \<Rightarrow> string" where
  "sort_identity source authID authIndex =
     (if source \<noteq> [] then source else if authID \<noteq> [] then authID else if authIndex \<noteq> [] then authIndex else ''unknown'')"

definition has_percent :: "quota_window \<Rightarrow> quota_window \<Rightarrow> bool" where
  "has_percent p s \<longleftrightarrow> fst p \<noteq> None \<or> fst s \<noteq> None"

definition external_rows :: "usage_db \<Rightarrow> int \<Rightarrow> externalUseEvent list" where
  "external_rows db since =
     map snd (sort_key fst
       (map (\<lambda>e. ((sort_identity (ev_Source e) (ev_AuthID e) (ev_AuthIndex e), ev_RequestedAt e, ev_ID e),
              \<lparr>xv_Timestamp = ev_RequestedAt e, xv_Provider = ev_Provider e, xv_AuthID = ev_AuthID e, xv_AuthIndex = ev_AuthIndex e,
               xv_Source = ev_Source e, xv_Tokens = (if ev_Generate e then ud_TotalTokens (ev_Detail e) else 0),
               xv_Primary = ev_Primary e, xv_Secondary = ev_Secondary e\<rparr>))
          (filter (\<lambda>e. since \<le> ev_RequestedAt e \<and> codexAccountScope e \<and> trustedUsageQuotaSnapshot e
             \<and> has_percent (ev_Primary e) (ev_Secondary e) \<and> (ev_AuthIndex e \<noteq> [] \<or> ev_AuthID e \<noteq> [] \<or> ev_Source e \<noteq> [])
             \<and> \<not> (ev_ExecutorType e = ''quota-trigger'' \<or> ev_Model e = ''quota-trigger'' \<or> ev_Alias e = ''quota-trigger'')) (us_events db))
        @ map (\<lambda>(i, r). ((sort_identity (qr_Source r) (qr_AuthID r) (qr_AuthIndex r), qr_FinishedAt r, i),
              \<lparr>xv_Timestamp = qr_FinishedAt r, xv_Provider = qr_Provider r, xv_AuthID = qr_AuthID r, xv_AuthIndex = qr_AuthIndex r,
               xv_Source = qr_Source r, xv_Tokens = 0, xv_Primary = qr_Primary r, xv_Secondary = qr_Secondary r\<rparr>))
          (filter (\<lambda>(i, r). since \<le> qr_FinishedAt r \<and> qr_Provider r = ''codex'' \<and> qr_Status r = ''success''
             \<and> has_percent (qr_Primary r) (qr_Secondary r) \<and> (qr_AuthIndex r \<noteq> [] \<or> qr_AuthID r \<noteq> [] \<or> qr_Source r \<noteq> [])) (us_runs db))))"

section \<open>Detection\<close>

fun float_sub :: "float_env \<Rightarrow> go_float \<Rightarrow> go_float \<Rightarrow> go_float" where
  "float_sub fe (Fin a) (Fin b) = Fin (fe_round fe (a - b))"
| "float_sub fe NaN b = NaN"
| "float_sub fe PosInf b = (if b = NaN \<or> b = PosInf then NaN else PosInf)"
| "float_sub fe NegInf b = (if b = NaN \<or> b = NegInf then NaN else NegInf)"
| "float_sub fe (Fin a) PosInf = NegInf"
| "float_sub fe (Fin a) NegInf = PosInf"
| "float_sub fe (Fin a) NaN = NaN"

fun float_less :: "go_float \<Rightarrow> go_float \<Rightarrow> bool" where
  "float_less (Fin a) (Fin b) = (a < b)"
| "float_less NegInf b = (b \<noteq> NaN \<and> b \<noteq> NegInf)"
| "float_less (Fin a) PosInf = True"
| "float_less _ _ = False"

definition float_le :: "go_float \<Rightarrow> go_float \<Rightarrow> bool" where
  "float_le a b \<longleftrightarrow> float_less a b \<or> a = b \<and> a \<noteq> NaN"

text \<open>Thresholds from the environment, the format of a delta with one decimal, and the text of a time.\<close>

record external_env =
  xn_float :: float_env
  xn_minDelta :: go_float
  xn_maxLocal :: int
  xn_minIdle :: int
  xn_grace :: int
  xn_graceMin :: int
  xn_format :: "go_float \<Rightarrow> string"
  xn_time :: "int \<Rightarrow> string"

record externalUseAlert =
  xa_AuthIndex :: string
  xa_AuthID :: string
  xa_Source :: string
  xa_Provider :: string
  xa_Window :: string
  xa_DetectedAt :: int
  xa_DetectedAtText :: string
  xa_PreviousPercent :: go_float
  xa_CurrentPercent :: go_float
  xa_DeltaPercent :: go_float
  xa_LocalTokens :: int
  xa_IdleSeconds :: int
  xa_Reason :: string

record externalUseTracker =
  xt_Percent :: go_float
  xt_ResetAt :: int
  xt_Timestamp :: int
  xt_CumTokens :: int

definition external_alert ::
  "external_env \<Rightarrow> string \<Rightarrow> externalUseEvent \<Rightarrow> go_float \<Rightarrow> externalUseTracker \<Rightarrow> int \<Rightarrow> externalUseAlert" where
  "external_alert xn window v percent tracker cumulative =
     (let delta = float_sub (xn_float xn) percent (xt_Percent tracker); local = wrap64 (cumulative - xt_CumTokens tracker)
      in \<lparr>xa_AuthIndex = xv_AuthIndex v, xa_AuthID = xv_AuthID v, xa_Source = xv_Source v, xa_Provider = xv_Provider v,
          xa_Window = window, xa_DetectedAt = xv_Timestamp v, xa_DetectedAtText = xn_time xn (xv_Timestamp v),
          xa_PreviousPercent = xt_Percent tracker, xa_CurrentPercent = percent, xa_DeltaPercent = delta, xa_LocalTokens = local,
          xa_IdleSeconds = xv_Timestamp v - xt_Timestamp tracker,
          xa_Reason = ''quota +'' @ xn_format xn delta @ ''%, local '' @ Itoa local @ '' tokens''\<rparr>)"

definition suspicious :: "external_env \<Rightarrow> externalUseAlert \<Rightarrow> bool" where
  "suspicious xn a \<longleftrightarrow> float_le (xn_minDelta xn) (xa_DeltaPercent a) \<and> xa_LocalTokens a \<le> xn_maxLocal xn \<and> xn_minIdle xn \<le> xa_IdleSeconds a"

type_synonym seen_alerts = "(string \<times> externalUseAlert) list"

definition alert_key :: "externalUseEvent \<Rightarrow> string \<Rightarrow> string" where
  "alert_key v window = normalizeAccountAlias (firstNonEmptyString [xv_Source v, xv_AuthID v, xv_AuthIndex v]) @ ''|'' @ window"

definition remember_alert :: "externalUseEvent \<Rightarrow> string \<Rightarrow> externalUseAlert \<Rightarrow> seen_alerts \<Rightarrow> seen_alerts" where
  "remember_alert v window a seen =
     (let key = alert_key v window
      in case map_of seen key of
           Some previous \<Rightarrow> if float_less (xa_DeltaPercent previous) (xa_DeltaPercent a) \<or> xa_DetectedAt previous < xa_DetectedAt a
                            then AList.update key a seen else seen
         | None \<Rightarrow> AList.update key a seen)"

text \<open>
  The tracker and the alerts after one window of one row. The code rebuilds its list of alerts from the map after
  every row; only the last list is seen, and it holds the values of the map.
\<close>

definition checkExternalUseWindow ::
  "external_env \<Rightarrow> string \<Rightarrow> externalUseEvent \<Rightarrow> quota_window \<Rightarrow> int \<Rightarrow> int \<Rightarrow> externalUseTracker option \<times> seen_alerts
   \<Rightarrow> externalUseTracker option \<times> seen_alerts" where
  "checkExternalUseWindow xn window v q cumulative recent = (\<lambda>(tracker, seen).
     (case q of
        (Some percent, Some reset) \<Rightarrow>
          if reset \<le> 0 then (tracker, seen)
          else let resetAt = normalizeUnixSeconds reset;
                   now = Some \<lparr>xt_Percent = percent, xt_ResetAt = resetAt, xt_Timestamp = xv_Timestamp v, xt_CumTokens = cumulative\<rparr>
               in (case tracker of
                     Some t \<Rightarrow>
                       if xt_ResetAt t = resetAt \<and> suspicious xn (external_alert xn window v percent t cumulative)
                          \<and> \<not> (0 < xn_graceMin xn \<and> xn_graceMin xn \<le> recent)
                       then (now, remember_alert v window (external_alert xn window v percent t cumulative) seen)
                       else (now, seen)
                   | None \<Rightarrow> (now, seen))
      | _ \<Rightarrow> (tracker, seen)))"

record external_state =
  es_key :: string
  es_primary :: "externalUseTracker option"
  es_secondary :: "externalUseTracker option"
  es_cumulative :: int
  es_recent :: "(int \<times> int) list"
  es_recentTokens :: int
  es_seen :: seen_alerts

definition no_external :: external_state where
  "no_external = \<lparr>es_key = [], es_primary = None, es_secondary = None, es_cumulative = 0, es_recent = [], es_recentTokens = 0, es_seen = []\<rparr>"

definition enter_key :: "string \<Rightarrow> external_state \<Rightarrow> external_state" where
  "enter_key key s = (if key = es_key s then s else no_external\<lparr>es_key := key, es_seen := es_seen s\<rparr>)"

definition spend_tokens :: "externalUseEvent \<Rightarrow> external_state \<Rightarrow> external_state" where
  "spend_tokens v s =
     (if 0 < xv_Tokens v
      then s\<lparr>es_cumulative := wrap64 (es_cumulative s + xv_Tokens v), es_recent := es_recent s @ [(xv_Timestamp v, xv_Tokens v)],
             es_recentTokens := wrap64 (es_recentTokens s + xv_Tokens v)\<rparr>
      else s)"

definition forget_old :: "external_env \<Rightarrow> externalUseEvent \<Rightarrow> external_state \<Rightarrow> external_state" where
  "forget_old xn v s =
     (let cutoff = xv_Timestamp v - xn_grace xn; kept = filter (\<lambda>(t, _). cutoff \<le> t) (es_recent s)
      in if 0 < xn_grace xn
         then s\<lparr>es_recent := kept,
                es_recentTokens := foldl (\<lambda>n (_, k). wrap64 (n - k)) (es_recentTokens s) (filter (\<lambda>(t, _). \<not> cutoff \<le> t) (es_recent s))\<rparr>
         else s)"

definition external_step :: "external_env \<Rightarrow> external_state \<Rightarrow> externalUseEvent \<Rightarrow> external_state" where
  "external_step xn s v =
     (let s1 = forget_old xn v (spend_tokens v (enter_key (external_key v) s));
          (primary, seen1) = checkExternalUseWindow xn ''5h'' v (xv_Primary v) (es_cumulative s1) (es_recentTokens s1) (es_primary s1, es_seen s1);
          (secondary, seen2) = checkExternalUseWindow xn ''7d'' v (xv_Secondary v) (es_cumulative s1) (es_recentTokens s1) (es_secondary s1, seen1)
      in s1\<lparr>es_primary := primary, es_secondary := secondary, es_seen := seen2\<rparr>)"

text \<open>\<open>order\<close> is the order in which the runtime iterates over the map of the alerts.\<close>

definition queryExternalUseAlerts ::
  "external_env \<Rightarrow> (externalUseAlert list \<Rightarrow> externalUseAlert list) \<Rightarrow> string option \<Rightarrow> usage_db \<Rightarrow> int
   \<Rightarrow> (string, externalUseAlert list) result" where
  "queryExternalUseAlerts xn order err db since =
     (case err of Some e \<Rightarrow> Inl e
      | None \<Rightarrow> Inr (order (map snd (es_seen (foldl (external_step xn) no_external (external_rows db since))))))"

definition show_alert :: "externalUseAlert \<Rightarrow> accountRow \<Rightarrow> accountRow" where
  "show_alert a row =
     (let row1 = row\<lparr>ar_ExternalUseSuspected := True, ar_ExternalUseCount := ar_ExternalUseCount row + 1\<rparr>
      in if float_le (ar_ExternalUseDeltaPct row) (xa_DeltaPercent a)
         then row1\<lparr>ar_ExternalUseWindow := xa_Window a, ar_ExternalUseDeltaPct := xa_DeltaPercent a, ar_ExternalUseLocalTokens := xa_LocalTokens a,
                   ar_ExternalUseDetectedAt := xa_DetectedAtText a, ar_ExternalUseReason := xa_Reason a\<rparr>
         else row1)"

definition applyExternalUseAlerts :: "accountRow list \<Rightarrow> externalUseAlert list \<Rightarrow> accountRow list" where
  "applyExternalUseAlerts accounts alerts =
     (let index = last_index accountAliases accounts
      in foldl (\<lambda>rows a. update_at (index_match index (normalizeAccountAliases [xa_AuthIndex a, xa_AuthID a, xa_Source a])) (show_alert a) rows)
           accounts alerts)"

section \<open>What an alert stands for\<close>

definition tracked :: "(externalUseEvent \<Rightarrow> quota_window) \<Rightarrow> externalUseEvent list \<Rightarrow> string \<Rightarrow> externalUseTracker \<Rightarrow> bool" where
  "tracked win rows key t \<longleftrightarrow> list_ex (\<lambda>u. external_key u = key \<and> fst (win u) = Some (xt_Percent t)
     \<and> map_option normalizeUnixSeconds (snd (win u)) = Some (xt_ResetAt t) \<and> xv_Timestamp u = xt_Timestamp t) rows"

definition rise_between :: "external_env \<Rightarrow> (externalUseEvent \<Rightarrow> quota_window) \<Rightarrow> externalUseEvent \<Rightarrow> externalUseEvent \<Rightarrow> externalUseAlert \<Rightarrow> bool" where
  "rise_between xn win u v a \<longleftrightarrow> external_key u = external_key v
     \<and> fst (win u) = Some (xa_PreviousPercent a) \<and> fst (win v) = Some (xa_CurrentPercent a)
     \<and> map_option normalizeUnixSeconds (snd (win u)) = map_option normalizeUnixSeconds (snd (win v)) \<and> snd (win v) \<noteq> None
     \<and> xa_DeltaPercent a = float_sub (xn_float xn) (xa_CurrentPercent a) (xa_PreviousPercent a)
     \<and> xa_DetectedAt a = xv_Timestamp v \<and> xa_IdleSeconds a = xv_Timestamp v - xv_Timestamp u"

definition justified :: "external_env \<Rightarrow> externalUseEvent list \<Rightarrow> externalUseAlert \<Rightarrow> bool" where
  "justified xn rows a \<longleftrightarrow> suspicious xn a \<and> list_ex (\<lambda>u. list_ex (\<lambda>v.
     xa_Window a = ''5h'' \<and> rise_between xn xv_Primary u v a \<or> xa_Window a = ''7d'' \<and> rise_between xn xv_Secondary u v a) rows) rows"

definition external_ok :: "external_env \<Rightarrow> externalUseEvent list \<Rightarrow> external_state \<Rightarrow> bool" where
  "external_ok xn rows s \<longleftrightarrow> (\<forall>t. es_primary s = Some t \<longrightarrow> tracked xv_Primary rows (es_key s) t)
     \<and> (\<forall>t. es_secondary s = Some t \<longrightarrow> tracked xv_Secondary rows (es_key s) t)
     \<and> (\<forall>a\<in>snd ` set (es_seen s). justified xn rows a)"

lemma tracked_mono: "tracked win rows key t \<Longrightarrow> tracked win (rows @ us) key t"
  by (auto simp: tracked_def)

lemma justified_mono: "justified xn rows a \<Longrightarrow> justified xn (rows @ us) a"
  by (auto simp: justified_def list_ex_iff)

lemma set_AList_update: "snd ` set (AList.update k a xs) \<subseteq> insert a (snd ` set xs)"
  by (induction xs) auto

lemma remember_alerts: "snd ` set (remember_alert v window a seen) \<subseteq> insert a (snd ` set seen)"
proof -
  have "\<exists>key. remember_alert v window a seen \<in> {seen, AList.update key a seen}"
    by (rule exI [where x = "alert_key v window"]) (auto simp: remember_alert_def Let_def split: option.split)
  then obtain key where "remember_alert v window a seen = seen \<or> remember_alert v window a seen = AList.update key a seen" by blast
  then show ?thesis using set_AList_update [of key a seen] by (elim disjE) (simp_all add: subset_insertI)
qed

lemma check_window:
  assumes "checkExternalUseWindow xn window v (win v) cumulative recent (tracker, seen) = (tracker', seen')"
    and "\<forall>t. tracker = Some t \<longrightarrow> tracked win (rows @ [v]) (external_key v) t" "\<forall>a\<in>snd ` set seen. justified xn (rows @ [v]) a"
    and "window = ''5h'' \<and> win = xv_Primary \<or> window = ''7d'' \<and> win = xv_Secondary"
  shows "(\<forall>t. tracker' = Some t \<longrightarrow> tracked win (rows @ [v]) (external_key v) t) \<and> (\<forall>a\<in>snd ` set seen'. justified xn (rows @ [v]) a)"
proof (cases "win v")
  case (Pair p r)
  show ?thesis
  proof (cases "p = None \<or> r = None \<or> (\<exists>x. r = Some x \<and> x \<le> 0)")
    case True
    then have "tracker' = tracker" "seen' = seen" using assms(1) by (auto simp: Pair checkExternalUseWindow_def split: option.splits)
    with assms(2,3) show ?thesis by simp
  next
    case False
    then obtain percent reset where q: "p = Some percent" "r = Some reset" "0 < reset"
      by (cases p; cases r) (auto simp: not_le)
    let ?now = "\<lparr>xt_Percent = percent, xt_ResetAt = normalizeUnixSeconds reset, xt_Timestamp = xv_Timestamp v, xt_CumTokens = cumulative\<rparr>"
    have new: "tracker' = Some ?now" using assms(1) q by (auto simp: Pair checkExternalUseWindow_def Let_def split: option.splits if_splits)
    then have here: "\<forall>t. tracker' = Some t \<longrightarrow> tracked win (rows @ [v]) (external_key v) t" by (simp add: tracked_def Pair q)
    have "\<forall>a\<in>snd ` set seen'. justified xn (rows @ [v]) a"
    proof (cases "seen' = seen")
      case True
      with assms(3) show ?thesis by simp
    next
      case False
      then obtain t where t: "tracker = Some t" "xt_ResetAt t = normalizeUnixSeconds reset"
          and sus: "suspicious xn (external_alert xn window v percent t cumulative)"
          and seen': "seen' = remember_alert v window (external_alert xn window v percent t cumulative) seen"
        using assms(1) q by (auto simp: Pair checkExternalUseWindow_def Let_def split: option.splits if_splits)
      from assms(2) t(1) obtain u where u: "u \<in> set (rows @ [v])" "external_key u = external_key v" "fst (win u) = Some (xt_Percent t)"
          "map_option normalizeUnixSeconds (snd (win u)) = Some (xt_ResetAt t)" "xv_Timestamp u = xt_Timestamp t"
        by (auto simp: tracked_def list_ex_iff)
      have "rise_between xn win u v (external_alert xn window v percent t cumulative)"
        using u t(2) by (simp add: rise_between_def external_alert_def Let_def Pair q)
      moreover have "xa_Window (external_alert xn window v percent t cumulative) = window" by (simp add: external_alert_def Let_def)
      ultimately have "xa_Window (external_alert xn window v percent t cumulative) = ''5h''
            \<and> rise_between xn xv_Primary u v (external_alert xn window v percent t cumulative)
         \<or> xa_Window (external_alert xn window v percent t cumulative) = ''7d''
            \<and> rise_between xn xv_Secondary u v (external_alert xn window v percent t cumulative)"
        using assms(4) by (elim disjE) simp_all
      then have new: "justified xn (rows @ [v]) (external_alert xn window v percent t cumulative)"
        unfolding justified_def list_ex_iff by (intro conjI sus bexI [OF _ u(1)] bexI [where x = v]) simp_all
      have sub: "snd ` set seen' \<subseteq> insert (external_alert xn window v percent t cumulative) (snd ` set seen)"
        unfolding seen' by (rule remember_alerts)
      show ?thesis
      proof
        fix b assume "b \<in> snd ` set seen'"
        then have "b \<in> insert (external_alert xn window v percent t cumulative) (snd ` set seen)" using sub by (rule set_mp [rotated])
        then show "justified xn (rows @ [v]) b" by (rule insertE) (simp add: new, rule bspec [OF assms(3)])
      qed
    qed
    with here show ?thesis by simp
  qed
qed

lemma external_step_ok: "external_ok xn rows s \<Longrightarrow> external_ok xn (rows @ [v]) (external_step xn s v)"
proof -
  assume ok: "external_ok xn rows s"
  define s1 where "s1 = forget_old xn v (spend_tokens v (enter_key (external_key v) s))"
  have keeps: "es_primary s1 = (if external_key v = es_key s then es_primary s else None)"
      "es_secondary s1 = (if external_key v = es_key s then es_secondary s else None)" "es_seen s1 = es_seen s" "es_key s1 = external_key v"
    by (auto simp: s1_def forget_old_def spend_tokens_def enter_key_def no_external_def Let_def)
  obtain t1 n1 where one: "checkExternalUseWindow xn ''5h'' v (xv_Primary v) (es_cumulative s1) (es_recentTokens s1) (es_primary s1, es_seen s1) = (t1, n1)"
    by fastforce
  obtain t2 n2 where two: "checkExternalUseWindow xn ''7d'' v (xv_Secondary v) (es_cumulative s1) (es_recentTokens s1) (es_secondary s1, n1) = (t2, n2)"
    by fastforce
  have seen: "\<forall>a\<in>snd ` set (es_seen s1). justified xn (rows @ [v]) a" using ok keeps(3) justified_mono by (auto simp: external_ok_def)
  have prim: "\<forall>t. es_primary s1 = Some t \<longrightarrow> tracked xv_Primary (rows @ [v]) (external_key v) t"
      and sec: "\<forall>t. es_secondary s1 = Some t \<longrightarrow> tracked xv_Secondary (rows @ [v]) (external_key v) t"
    using ok keeps(1,2) tracked_mono by (auto simp: external_ok_def)
  have first: "(\<forall>t. t1 = Some t \<longrightarrow> tracked xv_Primary (rows @ [v]) (external_key v) t) \<and> (\<forall>a\<in>snd ` set n1. justified xn (rows @ [v]) a)"
    by (rule check_window [OF one prim seen]) simp
  then have second: "(\<forall>t. t2 = Some t \<longrightarrow> tracked xv_Secondary (rows @ [v]) (external_key v) t) \<and> (\<forall>a\<in>snd ` set n2. justified xn (rows @ [v]) a)"
    by (intro check_window [OF two sec]) simp_all
  show ?thesis using first second keeps(4) by (simp add: external_ok_def external_step_def one two flip: s1_def)
qed

lemma external_run_ok: "external_ok xn done s \<Longrightarrow> external_ok xn (done @ rows) (foldl (external_step xn) s rows)"
proof (induction rows arbitrary: "done" s)
  case (Cons v rows)
  from Cons.IH [OF external_step_ok [OF Cons.prems]] show ?case by simp
qed simp

section \<open>Examples\<close>

definition example_external_env :: external_env where
  "example_external_env = \<lparr>xn_float = \<lparr>fe_round = (\<lambda>q. q), fe_convert = (\<lambda>q. 0), fe_nan = 0\<rparr>, xn_minDelta = Fin 5, xn_maxLocal = 1500,
     xn_minIdle = 600, xn_grace = 10800, xn_graceMin = 50000, xn_format = (\<lambda>_. ''10.0''), xn_time = Itoa\<rparr>"

definition example_rise :: usage_db where
  "example_rise = example_db [example_event ''a'' [] 1000 (Some (Fin 40), Some 9000), example_event ''a'' [] 2000 (Some (Fin 50), Some 9000)]"

section \<open>Properties\<close>



end
