(* ===== verification/Quota.thy ===== *)
theory Quota
  imports External_Use
begin

text \<open>
  The quota trigger (\<open>main.go\<close>): reading the quota windows out of a response, the request for one account and what its status
  leads to, the choice of the accounts that are asked, a round over them, and the manager that runs the rounds. The
  lemmas: the tally of a round adds up and each of its requests leaves one run; an account is asked only when nothing
  speaks against it; the token goes to the fixed addresses alone.
\<close>

section \<open>Windows in the body of a response\<close>

text \<open>
  \<open>qj_decode\<close> is \<open>json.Unmarshal\<close> into \<open>any\<close> (\<open>JOther\<close>: an array or null), \<open>qj_float\<close> is \<open>strconv.ParseFloat\<close>,
  \<open>qj_int\<close> the conversion of a decoded number to \<open>int64\<close>, \<open>qj_time\<close> is \<open>time.Parse\<close> with RFC 3339, in Unix seconds.
\<close>

record quota_parsers =
  qj_decode :: "string \<Rightarrow> xai_json option"
  qj_float :: "string \<Rightarrow> go_float option"
  qj_int :: "string \<Rightarrow> int"
  qj_time :: "string \<Rightarrow> int option"

type_synonym json_fields = "(string \<times> xai_json) list"

fun mapFromAny :: "xai_json option \<Rightarrow> json_fields" where
  "mapFromAny (Some (JObject kvs)) = kvs"
| "mapFromAny _ = []"

fun firstAny :: "json_fields \<Rightarrow> string list \<Rightarrow> xai_json option" where
  "firstAny m [] = None"
| "firstAny m (k # ks) = (case map_of m k of Some v \<Rightarrow> Some v | None \<Rightarrow> firstAny m ks)"

definition numberStringFromAny :: "quota_parsers \<Rightarrow> xai_json option \<Rightarrow> string" where
  "numberStringFromAny qp value =
     (case value of
        Some (JNumber text) \<Rightarrow> text
      | Some (JString v) \<Rightarrow> if qj_float qp (TrimSpace v) \<noteq> None then TrimSpace v else []
      | _ \<Rightarrow> [])"

text \<open>The value of \<open>strconv.ParseInt\<close> when its error is ignored: 0 for no number, the nearest bound out of range.\<close>

definition ParseInt_value :: "string \<Rightarrow> int" where
  "ParseInt_value s =
     (let neg = (s \<noteq> [] \<and> hd s = CHR ''-'');
          body = (if s \<noteq> [] \<and> (hd s = CHR ''-'' \<or> hd s = CHR ''+'') then tl s else s);
          v = (if neg then - int (digits_val body) else int (digits_val body))
      in if body = [] \<or> \<not> list_all is_digit body then 0 else max (- (2 ^ 63)) (min (2 ^ 63 - 1) v))"

definition int64FromAny :: "quota_parsers \<Rightarrow> xai_json option \<Rightarrow> int" where
  "int64FromAny qp value =
     (case value of
        Some (JNumber text) \<Rightarrow> qj_int qp text
      | Some (JString v) \<Rightarrow> ParseInt_value (TrimSpace v)
      | _ \<Rightarrow> 0)"

definition resetAtFromWindow :: "quota_parsers \<Rightarrow> int \<Rightarrow> json_fields \<Rightarrow> int" where
  "resetAtFromWindow qp nanos window =
     (let stamp = int64FromAny qp (firstAny window [''reset_at'', ''resetAt'']);
          parsed = (case firstAny window [''reset_time'', ''resetTime''] of
                    Some (JString v) \<Rightarrow> if TrimSpace v \<noteq> [] then qj_time qp (TrimSpace v) else None
                  | _ \<Rightarrow> None);
          left = int64FromAny qp (firstAny window [''reset_after_seconds'', ''resetAfterSeconds'', ''reset_in'', ''resetIn''])
      in if 0 < stamp then normalizeUnixSeconds stamp
         else case parsed of
                Some t \<Rightarrow> t
              | None \<Rightarrow> if 0 < left then (nanos + wrap64 (left * 1000000000)) div 1000000000 else 0)"

text \<open>
  A header that is set goes to the end of the list, which is the order in which the runtime visits the headers; a key that
  is there already, with an empty value, keeps its place.
\<close>

definition setHeaderIfMissing :: "string \<Rightarrow> string \<Rightarrow> headers \<Rightarrow> headers" where
  "setHeaderIfMissing key value headers =
     (if value = [] \<or> headerValue headers key \<noteq> [] then headers else AList.update key [value] headers)"

definition set_positive :: "string \<Rightarrow> int \<Rightarrow> headers \<Rightarrow> headers" where
  "set_positive key n headers = (if 0 < n then setHeaderIfMissing key (Itoa n) headers else headers)"

definition mergeCodexWindowPayload :: "quota_parsers \<Rightarrow> int \<Rightarrow> string \<Rightarrow> json_fields \<Rightarrow> headers \<Rightarrow> headers" where
  "mergeCodexWindowPayload qp nanos prefix' window headers =
     (let number = (\<lambda>ks. int64FromAny qp (firstAny window ks));
          key = (\<lambda>name. ''x-codex-'' @ prefix' @ name);
          percent = numberStringFromAny qp (firstAny window [''used_percent'', ''usedPercent'', ''percent'', ''used'']);
          resetAt = resetAtFromWindow qp nanos window;
          windowSeconds = number [''limit_window_seconds'', ''limitWindowSeconds'', ''window_seconds'', ''windowSeconds''];
          used0 = number [''used_tokens'', ''usedTokens'', ''used_token_count'', ''usedTokenCount'', ''used_count'', ''usedCount''];
          remaining0 = number [''remaining_tokens'', ''remainingTokens'', ''remaining_token_count'', ''remainingTokenCount'', ''remaining'',
            ''remaining_count'', ''remainingCount'', ''available_tokens'', ''availableTokens''];
          limit0 = number [''limit_tokens'', ''limitTokens'', ''quota_tokens'', ''quotaTokens'', ''total_tokens'', ''totalTokens'', ''limit'',
            ''quota'', ''total''];
          limit = (if limit0 \<le> 0 \<and> 0 < used0 \<and> 0 \<le> remaining0 then wrap64 (used0 + remaining0) else limit0);
          used = (if used0 \<le> 0 \<and> 0 < limit \<and> 0 \<le> remaining0 then wrap64 (limit - remaining0) else used0);
          remaining = max 0 remaining0
      in if window = [] then headers
         else (let h1 = (if percent \<noteq> [] then setHeaderIfMissing (key ''-used-percent'') percent headers else headers);
                   h2 = set_positive (key ''-reset-at'') resetAt h1;
                   h3 = (if 0 < windowSeconds then setHeaderIfMissing (key ''-window-minutes'') (Itoa (windowSeconds div 60)) h2 else h2);
                   h4 = set_positive (key ''-used-tokens'') used h3;
                   h5 = (if 0 < limit \<or> 0 < used then setHeaderIfMissing (key ''-remaining-tokens'') (Itoa remaining) h4 else h4)
               in set_positive (key ''-limit-tokens'') limit h5))"

definition merge_limit :: "quota_parsers \<Rightarrow> int \<Rightarrow> json_fields \<Rightarrow> headers \<Rightarrow> headers" where
  "merge_limit qp nanos limit headers =
     (if limit = [] then headers
      else mergeCodexWindowPayload qp nanos ''secondary'' (mapFromAny (firstAny limit [''secondary_window'', ''secondaryWindow'']))
             (mergeCodexWindowPayload qp nanos ''primary'' (mapFromAny (firstAny limit [''primary_window'', ''primaryWindow''])) headers))"

definition mergeCodexQuotaPayload :: "quota_parsers \<Rightarrow> int \<Rightarrow> string \<Rightarrow> headers \<Rightarrow> headers" where
  "mergeCodexQuotaPayload qp nanos body headers =
     (case (if body = [] then None else qj_decode qp body) of
        None \<Rightarrow> headers
      | Some payload \<Rightarrow>
          let root0 = mapFromAny (Some payload);
              nested = mapFromAny (map_of root0 ''body'');
              root = (if nested \<noteq> [] then nested else root0)
          in foldl (\<lambda>h limit. merge_limit qp nanos limit h) headers
               (map (\<lambda>k. mapFromAny (map_of root k)) [''rate_limit'', ''rateLimit'', ''code'', ''codex''] @ [root]))"

section \<open>Runs\<close>

record triggerAuthAccount =
  ta_Account :: configuredAccount
  ta_AccessToken :: string
  ta_ChatGPTAccountID :: string

definition readTriggerAuthAccounts :: "configuredAccount list \<Rightarrow> triggerAuthAccount list" where
  "readTriggerAuthAccounts files =
     map (\<lambda>f. \<lparr>ta_Account = f, ta_AccessToken = cg_AccessToken f, ta_ChatGPTAccountID = cg_ChatGPTAccountID f\<rparr>)
       (filter (\<lambda>f. EqualFold (TrimSpace (cg_Provider f)) ''codex'') files)"

definition quotaTriggerRunFromAccount :: "int \<Rightarrow> triggerAuthAccount \<Rightarrow> string \<Rightarrow> string \<Rightarrow> int \<Rightarrow> string \<Rightarrow> quotaTriggerRun" where
  "quotaTriggerRunFromAccount now account mode status httpStatus message =
     \<lparr>qr_AuthID = cg_AuthID (ta_Account account), qr_AuthIndex = cg_AuthIndex (ta_Account account), qr_Source = cg_Source (ta_Account account),
      qr_Provider = firstNonEmptyString [cg_Provider (ta_Account account), ''codex''], qr_AuthFile = cg_AuthFile (ta_Account account),
      qr_Mode = mode, qr_Status = status, qr_HTTPStatus = httpStatus, qr_Error = sanitizeTriggerError message, qr_StartedAt = now,
      qr_FinishedAt = now, qr_Primary = (None, None), qr_Secondary = (None, None), qr_PrimaryUsedTokens = None,
      qr_PrimaryRemaining = None, qr_PrimaryLimit = None, qr_SecondaryUsedTokens = None, qr_SecondaryRemaining = None,
      qr_SecondaryLimit = None\<rparr>"

definition privacySafeQuotaTriggerRun :: "key_env \<Rightarrow> quotaTriggerRun \<Rightarrow> (string, quotaTriggerRun) result" where
  "privacySafeQuotaTriggerRun ke run =
     (let safe = (\<lambda>value. privacySafeStoredIdentity ke value [] [] [])
      in bind_result (safe (qr_AuthID run)) (\<lambda>authID.
         bind_result (safe (qr_AuthIndex run)) (\<lambda>authIndex.
         bind_result (safe (qr_Source run)) (\<lambda>source.
         bind_result (safe (qr_AuthFile run)) (\<lambda>authFile.
           Inr (run\<lparr>qr_AuthID := authID, qr_AuthIndex := authIndex, qr_Source := source, qr_AuthFile := authFile\<rparr>))))))"

definition recordQuotaTriggerRun ::
  "key_env \<Rightarrow> int \<Rightarrow> string option \<Rightarrow> quotaTriggerRun \<Rightarrow> usage_db \<Rightarrow> string option \<times> usage_db" where
  "recordQuotaTriggerRun ke now err run0 db =
     (let run = run0\<lparr>qr_StartedAt := (if qr_StartedAt run0 \<le> 0 then now else qr_StartedAt run0),
                    qr_FinishedAt := (if qr_FinishedAt run0 \<le> 0 then now else qr_FinishedAt run0),
                    qr_Primary := normalized_window (qr_Primary run0), qr_Secondary := normalized_window (qr_Secondary run0)\<rparr>
      in case privacySafeQuotaTriggerRun ke run of
           Inl e \<Rightarrow> (Some e, db)
         | Inr stored \<Rightarrow>
             case err of
               Some e \<Rightarrow> (Some e, db)
             | None \<Rightarrow> (None, insert_run (stored\<lparr>qr_AuthID := TrimSpace (qr_AuthID stored), qr_AuthIndex := TrimSpace (qr_AuthIndex stored),
                   qr_Source := TrimSpace (qr_Source stored), qr_Provider := canonicalProviderOr (qr_Provider stored) providerCodex,
                   qr_AuthFile := TrimSpace (qr_AuthFile stored), qr_Mode := TrimSpace (qr_Mode stored),
                   qr_Status := TrimSpace (qr_Status stored), qr_Error := TrimSpace (qr_Error stored)\<rparr>) db))"

section \<open>Requests\<close>

datatype request_json =
    RString string
  | RBool bool
  | RArray "request_json list"
  | RObject "(string \<times> request_json) list"

record quota_request =
  rq_Method :: string
  rq_URL :: string
  rq_Header :: headers
  rq_Body :: "request_json option"

record quota_response =
  rs_StatusCode :: int
  rs_Header :: headers
  rs_Body :: string

definition codexQuotaURL :: string where "codexQuotaURL = ''https://chatgpt.com/backend-api/wham/usage''"

definition codexResponsesURL :: string where "codexResponsesURL = ''https://chatgpt.com/backend-api/codex/responses/compact''"

definition codexProbeModel :: string where "codexProbeModel = ''gpt-5.5''"

definition codexProbeInput :: request_json where
  "codexProbeInput = RArray [RObject [(''role'', RString ''user''),
     (''content'', RArray [RObject [(''type'', RString ''input_text''), (''text'', RString ''ping'')]])]]"

definition probe_model :: "string \<Rightarrow> string" where
  "probe_model model = (let m = TrimSpace model in if m = [] then codexProbeModel else m)"

definition codexProbeRequestBody :: "string \<Rightarrow> request_json" where
  "codexProbeRequestBody model = RObject [(''model'', RString (probe_model model)), (''instructions'', RString ''Reply with OK.''),
     (''input'', codexProbeInput), (''stream'', RBool True), (''store'', RBool False)]"

definition codexProbeMinimalRequestBody :: "string \<Rightarrow> request_json" where
  "codexProbeMinimalRequestBody model = RObject [(''model'', RString (probe_model model)), (''instructions'', RString ''Reply with OK.''),
     (''input'', codexProbeInput)]"

definition shouldRetryMinimalCodexProbe :: "int \<Rightarrow> string \<Rightarrow> bool" where
  "shouldRetryMinimalCodexProbe status body \<longleftrightarrow> status = 400
     \<and> (let text = ToLower body
        in (Contains text ''unknown_parameter'' \<or> Contains text ''unknown parameter'') \<and> (Contains text ''stream'' \<or> Contains text ''store''))"

definition account_header :: "triggerAuthAccount \<Rightarrow> headers" where
  "account_header account =
     (if ta_ChatGPTAccountID account \<noteq> [] then [(''Chatgpt-Account-Id'', [ta_ChatGPTAccountID account])] else [])"

definition probe_request :: "triggerAuthAccount \<Rightarrow> request_json \<Rightarrow> quota_request" where
  "probe_request account body = \<lparr>rq_Method = ''POST'', rq_URL = codexResponsesURL,
     rq_Header = [(''Authorization'', [''Bearer '' @ ta_AccessToken account]), (''Content-Type'', [''application/json'']),
       (''Accept'', [''text/event-stream'']), (''Connection'', [''Keep-Alive'']), (''Originator'', [''codex-tui'']),
       (''User-Agent'', [''codex-tui/0.135.0 (Mac OS 26.5.0; arm64) iTerm.app/3.6.10 (codex-tui; 0.135.0)''])] @ account_header account,
     rq_Body = Some body\<rparr>"

definition usage_request :: "triggerAuthAccount \<Rightarrow> quota_request" where
  "usage_request account = \<lparr>rq_Method = ''GET'', rq_URL = codexQuotaURL,
     rq_Header = [(''Authorization'', [''Bearer '' @ ta_AccessToken account]), (''Content-Type'', [''application/json'']),
       (''OpenAI-Beta'', [''codex-1'']), (''User-Agent'', [''codex_cli_rs/0.76.0 (Debian 13.0.0; x86_64) WindowsTerminal''])] @ account_header account,
     rq_Body = None\<rparr>"

section \<open>One account\<close>

text \<open>
  \<open>qe_send n\<close> is the answer to the n-th request of the call, \<open>qe_started\<close> and \<open>qe_finished\<close> the times before and after
  it; the errors of the statements are those of \<open>qe_auth\<close>.
\<close>

record quota_env =
  qe_auth :: auth_env
  qe_keys :: key_env
  qe_parsers :: quota_parsers
  qe_send :: "nat \<Rightarrow> quota_request \<Rightarrow> (string, quota_response) result"
  qe_started :: int
  qe_finished :: int

definition run_windows :: "quota_parsers \<Rightarrow> headers \<Rightarrow> quotaTriggerRun \<Rightarrow> quotaTriggerRun" where
  "run_windows qp hs run = run\<lparr>qr_Primary := header_window (qj_float qp) hs ''primary'', qr_Secondary := header_window (qj_float qp) hs ''secondary'',
     qr_PrimaryUsedTokens := headerInt hs ''x-codex-primary-used-tokens'', qr_PrimaryRemaining := headerInt hs ''x-codex-primary-remaining-tokens'',
     qr_PrimaryLimit := headerInt hs ''x-codex-primary-limit-tokens'', qr_SecondaryUsedTokens := headerInt hs ''x-codex-secondary-used-tokens'',
     qr_SecondaryRemaining := headerInt hs ''x-codex-secondary-remaining-tokens'', qr_SecondaryLimit := headerInt hs ''x-codex-secondary-limit-tokens''\<rparr>"

definition trigger_record :: "triggerAuthAccount \<Rightarrow> int \<Rightarrow> headers \<Rightarrow> usageRecord" where
  "trigger_record account startedAt hs = no_usage\<lparr>ur_Provider := ''codex'', ur_ExecutorType := ''quota-trigger'', ur_Model := ''quota-trigger'',
     ur_Alias := ''quota-trigger'', ur_AuthID := cg_AuthID (ta_Account account), ur_AuthIndex := cg_AuthIndex (ta_Account account),
     ur_AuthType := ''codex'', ur_AuthFile := cg_AuthFile (ta_Account account), ur_Source := cg_Source (ta_Account account),
     ur_RequestedAt := Some (startedAt * 1000000000), ur_ResponseHeaders := hs\<rparr>"

definition applyQuotaTriggerStateWriteError :: "string option \<Rightarrow> quotaTriggerRun \<Rightarrow> quotaTriggerRun" where
  "applyQuotaTriggerStateWriteError err run =
     (case err of
        None \<Rightarrow> run
      | Some e \<Rightarrow>
          let message = ''quota auth state write failed: '' @ sanitizeTriggerError e
          in run\<lparr>qr_Status := ''failed'',
                 qr_Error := sanitizeTriggerError (if qr_Error run \<noteq> [] then qr_Error run @ ''; '' @ message else message)\<rparr>)"

definition run_failed :: "string \<Rightarrow> quotaTriggerRun \<Rightarrow> quotaTriggerRun" where
  "run_failed message run = run\<lparr>qr_Status := ''failed'', qr_Error := message\<rparr>"

definition with_failure :: "int \<Rightarrow> string \<Rightarrow> usageRecord \<Rightarrow> usageRecord" where
  "with_failure status body rec = rec\<lparr>ur_Failed := True, ur_Failure := \<lparr>uf_StatusCode = status, uf_Body = body\<rparr>\<rparr>"

text \<open>The switch over the status: the run, and the state update with its error.\<close>

definition quota_outcome :: "quota_env \<Rightarrow> usageRecord \<Rightarrow> int \<Rightarrow> string \<Rightarrow> quotaTriggerRun \<Rightarrow> ban_world \<Rightarrow> quotaTriggerRun \<times> ban_world" where
  "quota_outcome qe rec status body run w =
     (let (run', err, w') =
        (if 200 \<le> status \<and> status < 300
         then (run\<lparr>qr_Status := ''success''\<rparr>, clearRecoveredAuthStateIfNeeded (qe_auth qe) rec status w)
         else if status = StatusUnauthorized
         then (run_failed ''401 unauthorized: credential is invalid'' run, recordInvalidAuthIfNeeded (qe_auth qe) rec status w)
         else if status = StatusPaymentRequired \<and> codexWorkspaceDeactivatedBody body
         then (run_failed ''402 deactivated_workspace: team workspace is deactivated'' run,
               recordInvalidAuthIfNeeded (qe_auth qe) (with_failure status body rec) status w)
         else if status = 429
         then (run_failed ''429 rate limited'' run,
               recordAutobanIfNeeded (qe_auth qe) (with_failure status [] rec) status (fst (qr_Primary run)) (snd (qr_Primary run))
                 (fst (qr_Secondary run)) (snd (qr_Secondary run)) w)
         else (run_failed (''http '' @ Itoa status) run, (None, w)))
      in (applyQuotaTriggerStateWriteError err run', w'))"

definition request_failed :: "quota_env \<Rightarrow> string \<Rightarrow> quotaTriggerRun \<Rightarrow> quotaTriggerRun" where
  "request_failed qe err run = run\<lparr>qr_Error := sanitizeTriggerError err, qr_FinishedAt := qe_finished qe\<rparr>"

definition quota_answered ::
  "quota_env \<Rightarrow> triggerAuthAccount \<Rightarrow> quota_response \<Rightarrow> quotaTriggerRun \<Rightarrow> ban_world \<Rightarrow> quotaTriggerRun \<times> ban_world" where
  "quota_answered qe account resp run0 w =
     (let hs = mergeCodexQuotaPayload (qe_parsers qe) (env_now (ae_sched (qe_auth qe))) (rs_Body resp) (rs_Header resp);
          run = (run_windows (qe_parsers qe) hs (run0\<lparr>qr_HTTPStatus := rs_StatusCode resp\<rparr>))\<lparr>qr_FinishedAt := qe_finished qe\<rparr>
      in case privacySafeUsageRecord (qe_keys qe) (trigger_record account (qr_StartedAt run) hs) of
           Inl err \<Rightarrow> (run_failed (sanitizeTriggerError err) run, w)
         | Inr rec \<Rightarrow> quota_outcome qe rec (rs_StatusCode resp) (rs_Body resp) run w)"

definition started_run :: "quota_env \<Rightarrow> string \<Rightarrow> triggerAuthAccount \<Rightarrow> quotaTriggerRun" where
  "started_run qe mode account = quotaTriggerRunFromAccount (qe_started qe) account mode ''failed'' 0 []"

definition executeQuotaUsageRequest :: "quota_env \<Rightarrow> string \<Rightarrow> triggerAuthAccount \<Rightarrow> ban_world \<Rightarrow> quotaTriggerRun \<times> ban_world" where
  "executeQuotaUsageRequest qe mode account w =
     (let run = started_run qe mode account
      in case qe_send qe 0 (usage_request account) of
           Inl err \<Rightarrow> (request_failed qe err run, w)
         | Inr resp \<Rightarrow> quota_answered qe account resp run w)"

definition executeQuotaProbeRequest :: "quota_env \<Rightarrow> string \<Rightarrow> triggerAuthAccount \<Rightarrow> ban_world \<Rightarrow> quotaTriggerRun \<times> ban_world" where
  "executeQuotaProbeRequest qe mode account w =
     (let run = started_run qe mode account
      in case qe_send qe 0 (probe_request account (codexProbeRequestBody codexProbeModel)) of
           Inl err \<Rightarrow> (request_failed qe err run, w)
         | Inr resp \<Rightarrow>
             if shouldRetryMinimalCodexProbe (rs_StatusCode resp) (rs_Body resp)
             then (case qe_send qe 1 (probe_request account (codexProbeMinimalRequestBody codexProbeModel)) of
                     Inl err \<Rightarrow> (request_failed qe err run, w)
                   | Inr resp2 \<Rightarrow> quota_answered qe account resp2 run w)
             else quota_answered qe account resp run w)"

definition executeQuotaTrigger :: "quota_env \<Rightarrow> string \<Rightarrow> triggerAuthAccount \<Rightarrow> ban_world \<Rightarrow> quotaTriggerRun \<times> ban_world" where
  "executeQuotaTrigger qe mode = (if mode = ''quota'' then executeQuotaUsageRequest qe mode else executeQuotaProbeRequest qe mode)"

section \<open>Choosing the accounts\<close>

definition matched_aliases :: "configuredAccount \<Rightarrow> string list \<Rightarrow> string list \<Rightarrow> bool" where
  "matched_aliases cfg all strict \<longleftrightarrow>
     (let left = (if strict \<noteq> [] then normalizeAccountAliases [cg_AuthFile cfg, cg_AuthIndex cfg, cg_ChatGPTAccountID cfg] else configuredAliases cfg);
          right = (if strict \<noteq> [] then strict else all)
      in list_ex (\<lambda>l. l \<noteq> [] \<and> l \<in> set right) left)"

definition configuredMatchesInvalidAuth :: "configuredAccount \<Rightarrow> invalidAuthRow list \<Rightarrow> bool" where
  "configuredMatchesInvalidAuth cfg invalids \<longleftrightarrow>
     list_ex (\<lambda>i. matched_aliases cfg (normalizeAccountAliases [ia_AuthID i, ia_AuthIndex i, ia_Source i, ia_AuthFile i])
                   (strictAuthStateAliasesForValues (ia_AuthID i) (ia_AuthIndex i) (ia_Source i) (ia_AuthFile i))) invalids"

definition configuredMatchesAutoban :: "configuredAccount \<Rightarrow> autobanRow list \<Rightarrow> bool" where
  "configuredMatchesAutoban cfg bans \<longleftrightarrow>
     list_ex (\<lambda>b. matched_aliases cfg (normalizeAccountAliases [ab_AuthID b, ab_AuthIndex b, ab_Source b, ab_AuthFile b])
                   (strictAuthStateAliasesForValues (ab_AuthID b) (ab_AuthIndex b) (ab_Source b) (ab_AuthFile b))) bans"

definition configuredMatchesExternalAlert :: "configuredAccount \<Rightarrow> externalUseAlert list \<Rightarrow> bool" where
  "configuredMatchesExternalAlert cfg alerts \<longleftrightarrow>
     list_ex (\<lambda>a. list_ex (\<lambda>l. l \<noteq> [] \<and> l \<in> set (normalizeAccountAliases [xa_AuthID a, xa_AuthIndex a, xa_Source a])) (configuredAliases cfg)) alerts"

record select_env =
  se_auth :: auth_env
  se_external :: external_env
  se_order :: "externalUseAlert list \<Rightarrow> externalUseAlert list"
  se_invalids :: "string option"
  se_bans :: "string option"
  se_alerts :: "string option"

definition trigger_row :: "triggerAuthAccount \<Rightarrow> accountRow" where
  "trigger_row account =
     (let cfg = ta_Account account
      in no_account\<lparr>ar_AuthIndex := cg_AuthIndex cfg, ar_AuthID := cg_AuthID cfg, ar_Source := cg_Source cfg, ar_AuthFile := cg_AuthFile cfg,
           ar_Email := cg_Email cfg, ar_Name := cg_Name cfg\<rparr>)"

definition account_window ::
  "usage_db \<Rightarrow> int \<Rightarrow> triggerAuthAccount \<Rightarrow> (usage_event \<Rightarrow> quota_window) \<Rightarrow> (quotaTriggerRun \<Rightarrow> quota_window) \<Rightarrow> quota_window" where
  "account_window db now account window run_window =
     (let s = queryLatestAccountWindowQuota db (trigger_row account) window run_window 0 now in (qs_Percent s, qs_ResetAt s))"

text \<open>The tests of the loop over the accounts: the ones that pass them are asked. Times are nanoseconds.\<close>

definition asks_account ::
  "auth_env \<Rightarrow> usage_db \<Rightarrow> invalidAuthRow list \<Rightarrow> autobanRow list \<Rightarrow> externalUseAlert list \<Rightarrow> int \<Rightarrow> triggerAuthAccount \<Rightarrow> bool" where
  "asks_account ae db invalids bans alerts cooldownMinutes account \<longleftrightarrow>
     (let cfg = ta_Account account; now = env_unix (ae_sched ae);
          full = quotaWindowFull now (account_window db now account ev_Primary qr_Primary)
                 \<or> quotaWindowFull now (account_window db now account ev_Secondary qr_Secondary)
      in \<not> (cg_Disabled cfg \<or> cg_Expired cfg \<or> \<not> EqualFold (firstNonEmptyString [cg_Provider cfg, ''codex'']) ''codex'')
         \<and> ta_AccessToken account \<noteq> []
         \<and> \<not> (configuredMatchesInvalidAuth cfg invalids \<or> configuredMatchesExternalAlert cfg alerts)
         \<and> \<not> (\<not> configuredMatchesAutoban cfg bans \<and> full)
         \<and> (case latestQuotaTriggerFinishedAt db cfg of
               Some last' \<Rightarrow> \<not> env_now (ae_sched ae) - last' * 1000000000 < cooldownMinutes * 60000000000
             | None \<Rightarrow> True))"

definition selectQuotaTriggerCandidates ::
  "select_env \<Rightarrow> pluginConfig \<Rightarrow> usage_db \<Rightarrow> ban_world \<Rightarrow> (string, triggerAuthAccount list) result \<times> nat" where
  "selectQuotaTriggerCandidates se cfg db w =
     (let accounts = readTriggerAuthAccounts (ae_codex (se_auth se));
          invalids = active_invalids (se_auth se) w;
          bans = mergeEffectiveAutobans (active_bans (se_auth se) w) invalids;
          cooldown = cf_QuotaTriggerMinAccountCooldownMinutes cfg
      in if accounts = [] then (Inr [], 0)
         else case se_invalids se of Some err \<Rightarrow> (Inl err, 0) | None \<Rightarrow>
              case se_bans se of Some err \<Rightarrow> (Inl err, 0) | None \<Rightarrow>
              case queryExternalUseAlerts (se_external se) (se_order se) (se_alerts se) db
                     ((env_now (ae_sched (se_auth se)) - 86400000000000) div 1000000000) of
                Inl err \<Rightarrow> (Inl err, 0)
              | Inr alerts \<Rightarrow>
                  let out = filter (asks_account (se_auth se) db invalids bans alerts cooldown) accounts
                  in (Inr out, length accounts - length out))"

section \<open>A round\<close>

record round_state =
  ro_db :: usage_db
  ro_codex :: ban_world
  ro_success :: nat
  ro_failed :: nat
  ro_skipped :: nat
  ro_attempted :: nat
  ro_errors :: "string list"

text \<open>
  The errors of a round: of the insertion of the n-th run, of the query of the last outcomes, of the expiry, of the
  statements of the n-th update. The updates of the round itself come after those of the runs.
\<close>

record round_env =
  re_auth :: auth_env
  re_keys :: key_env
  re_insert :: "nat \<Rightarrow> string option"
  re_recent :: "string option"
  re_expire :: "string option"
  re_step :: "nat \<Rightarrow> nat \<Rightarrow> string option"

definition round_auth :: "round_env \<Rightarrow> nat \<Rightarrow> auth_env" where
  "round_auth re k = (re_auth re)\<lparr>ae_fails := re_step re k\<rparr>"

definition add_error :: "string \<Rightarrow> string option \<Rightarrow> round_state \<Rightarrow> round_state" where
  "add_error name err s = (case err of None \<Rightarrow> s | Some e \<Rightarrow> s\<lparr>ro_errors := ro_errors s @ [name @ '': '' @ e]\<rparr>)"

definition forbidden_record :: "quotaTriggerRun \<Rightarrow> usageRecord" where
  "forbidden_record run = no_usage\<lparr>ur_Provider := firstNonEmptyString [qr_Provider run, ''codex''], ur_AuthID := qr_AuthID run,
     ur_AuthIndex := qr_AuthIndex run, ur_AuthType := ''codex'', ur_AuthFile := qr_AuthFile run, ur_Source := qr_Source run,
     ur_Failed := True, ur_Failure := \<lparr>uf_StatusCode = qr_HTTPStatus run, uf_Body = []\<rparr>\<rparr>"

definition refuse_run :: "round_env \<Rightarrow> nat \<Rightarrow> quotaTriggerRun \<Rightarrow> round_state \<Rightarrow> round_state" where
  "refuse_run re n run s =
     (if qr_HTTPStatus run = StatusForbidden
      then let (err, w) = recordRepeatedForbiddenIfNeeded (round_auth re n) (recent_query (re_recent re) (ro_db s)) (forbidden_record run)
                            (qr_HTTPStatus run) (ro_codex s)
           in add_error ''record quota forbidden state'' err (s\<lparr>ro_codex := w\<rparr>)
      else s)"

definition tally_run :: "quotaTriggerRun \<Rightarrow> round_state \<Rightarrow> round_state" where
  "tally_run run s =
     (if qr_Status run = ''success'' then s\<lparr>ro_success := ro_success s + 1\<rparr>
      else if qr_Status run = ''skipped'' then s\<lparr>ro_skipped := ro_skipped s + 1\<rparr>
      else s\<lparr>ro_failed := ro_failed s + 1\<rparr>)"

definition collect_run :: "round_env \<Rightarrow> nat \<times> quotaTriggerRun \<Rightarrow> round_state \<Rightarrow> round_state" where
  "collect_run re = (\<lambda>(n, run) s0.
     (let s = s0\<lparr>ro_attempted := ro_attempted s0 + 1\<rparr>
      in case privacySafeQuotaTriggerRun (re_keys re) run of
           Inl err \<Rightarrow> add_error ''sanitize quota trigger run'' (Some err) (s\<lparr>ro_failed := ro_failed s + 1\<rparr>)
         | Inr stored \<Rightarrow>
             case recordQuotaTriggerRun (re_keys re) (env_unix (ae_sched (re_auth re))) (re_insert re n) stored (ro_db s) of
               (Some err, _) \<Rightarrow> add_error ''record quota trigger run'' (Some err) (s\<lparr>ro_failed := ro_failed s + 1\<rparr>)
             | (None, db) \<Rightarrow> tally_run stored (refuse_run re n stored (s\<lparr>ro_db := db\<rparr>))))"

definition collect_runs :: "round_env \<Rightarrow> quotaTriggerRun list \<Rightarrow> round_state \<Rightarrow> round_state" where
  "collect_runs re runs s = fold (collect_run re) (zip [0..<length runs] runs) s"

text \<open>The workers: \<open>execute n\<close> is the executor for the n-th account that was handed out.\<close>

fun execute_all ::
  "(nat \<Rightarrow> triggerAuthAccount \<Rightarrow> ban_world \<Rightarrow> quotaTriggerRun \<times> ban_world) \<Rightarrow> nat \<Rightarrow> triggerAuthAccount list \<Rightarrow> ban_world
   \<Rightarrow> quotaTriggerRun list \<times> ban_world" where
  "execute_all execute n [] w = ([], w)"
| "execute_all execute n (a # as) w =
     (let (run, w1) = execute n a w; (runs, w2) = execute_all execute (Suc n) as w1 in (run # runs, w2))"

definition ban_accounts :: "autobanRow list \<Rightarrow> accountRow list" where
  "ban_accounts bans = map (\<lambda>b. no_account\<lparr>ar_AuthID := ab_AuthID b, ar_AuthIndex := ab_AuthIndex b, ar_Source := ab_Source b,
     ar_Provider := ab_Provider b\<rparr>) bans"

definition ban_windows :: "auth_env \<Rightarrow> usage_db \<Rightarrow> ban_world \<Rightarrow> nat \<Rightarrow> quota_window \<times> quota_window" where
  "ban_windows ae db w i =
     (let accounts = ban_accounts (active_bans ae w); now = env_unix (ae_sched ae);
          p = snapshot_at (queryLatestAccountWindowQuotaSnapshots db accounts ev_Primary qr_Primary 0 now) i;
          s = snapshot_at (queryLatestAccountWindowQuotaSnapshots db accounts ev_Secondary qr_Secondary 0 now) i
      in ((qs_Percent p, qs_ResetAt p), (qs_Percent s, qs_ResetAt s)))"

text \<open>
  \<open>handed\<close> picks the accounts the workers took, in the order of their state updates (all of the candidates unless the
  context ends), \<open>arrived\<close> puts their runs in the order of the channel. The runs are only recorded when all
  workers have returned.
\<close>

definition runQuotaTriggerCandidates ::
  "round_env \<Rightarrow> (nat \<Rightarrow> triggerAuthAccount \<Rightarrow> ban_world \<Rightarrow> quotaTriggerRun \<times> ban_world)
   \<Rightarrow> (triggerAuthAccount list \<Rightarrow> triggerAuthAccount list) \<Rightarrow> (quotaTriggerRun list \<Rightarrow> quotaTriggerRun list) \<Rightarrow> string option
   \<Rightarrow> triggerAuthAccount list \<Rightarrow> nat \<Rightarrow> usage_db \<Rightarrow> ban_world \<Rightarrow> round_state" where
  "runQuotaTriggerCandidates re execute handed arrived ctx_err candidates skipped db w =
     (let (runs, w1) = execute_all execute 0 (handed candidates) w;
          s = collect_runs re (arrived runs) \<lparr>ro_db = db, ro_codex = w1, ro_success = 0, ro_failed = 0, ro_skipped = skipped, ro_attempted = 0,
                ro_errors = []\<rparr>;
          ae = round_auth re (length runs);
          (err, w2) = reconcileAutobansWithQuotaSnapshots ae (ban_windows ae (ro_db s) (ro_codex s)) (ro_codex s);
          s1 = add_error ''reconcile quota auth state'' err (s\<lparr>ro_codex := w2\<rparr>)
      in case ctx_err of
           Some e \<Rightarrow> if ro_errors s1 = [] then s1\<lparr>ro_errors := [e]\<rparr> else s1
         | None \<Rightarrow> s1)"

definition no_round :: "usage_db \<Rightarrow> ban_world \<Rightarrow> nat \<Rightarrow> string list \<Rightarrow> round_state" where
  "no_round db w skipped errs = \<lparr>ro_db = db, ro_codex = w, ro_success = 0, ro_failed = 0, ro_skipped = skipped, ro_attempted = 0, ro_errors = errs\<rparr>"

definition runQuotaTriggerRound ::
  "round_env \<Rightarrow> select_env \<Rightarrow> string option \<Rightarrow> pluginConfig
   \<Rightarrow> (nat \<Rightarrow> triggerAuthAccount \<Rightarrow> ban_world \<Rightarrow> quotaTriggerRun \<times> ban_world)
   \<Rightarrow> (triggerAuthAccount list \<Rightarrow> triggerAuthAccount list) \<Rightarrow> (quotaTriggerRun list \<Rightarrow> quotaTriggerRun list) \<Rightarrow> string option
   \<Rightarrow> usage_db \<Rightarrow> ban_world \<Rightarrow> round_state" where
  "runQuotaTriggerRound re se open_err cfg execute handed arrived ctx_err db w =
     (case open_err of Some err \<Rightarrow> no_round db w 0 [err] | None \<Rightarrow>
      case clearReplacedInvalidAuths (se_auth se) w of
        (Some err, w1) \<Rightarrow> no_round db w1 0 [err]
      | (None, w1) \<Rightarrow>
          case expireAutobans (re_expire re) (env_unix (ae_sched (re_auth re))) w1 of
            (Some err, w2) \<Rightarrow> no_round db w2 0 [err]
          | (None, w2) \<Rightarrow>
              case selectQuotaTriggerCandidates se cfg db w2 of
                (Inl err, skipped) \<Rightarrow> no_round db w2 skipped [err]
              | (Inr candidates, skipped) \<Rightarrow>
                  if candidates = [] then no_round db w2 skipped []
                  else runQuotaTriggerCandidates re execute handed arrived ctx_err candidates skipped db w2)"

section \<open>The manager\<close>

record quotaTriggerState =
  qt_Enabled :: bool
  qt_Running :: bool
  qt_Mode :: string
  qt_IntervalMinutes :: int
  qt_MaxConcurrency :: int
  qt_TimeoutSeconds :: int
  qt_MinAccountCooldownMinutes :: int
  qt_LastRunAt :: string
  qt_LastRunStartedAt :: string
  qt_LastSuccess :: nat
  qt_LastFailed :: nat
  qt_LastSkipped :: nat
  qt_LastCandidates :: nat
  qt_LastError :: string

definition round_started :: "string \<Rightarrow> quotaTriggerState \<Rightarrow> quotaTriggerState" where
  "round_started time s = s\<lparr>qt_LastRunStartedAt := time, qt_LastError := []\<rparr>"

text \<open>\<open>cancelled\<close> says whether the error of the round is a cancelled context; it is not shown then.\<close>

definition round_finished :: "string \<Rightarrow> bool \<Rightarrow> round_state \<Rightarrow> quotaTriggerState \<Rightarrow> quotaTriggerState" where
  "round_finished time cancelled r s =
     s\<lparr>qt_LastRunAt := time, qt_LastSuccess := ro_success r, qt_LastFailed := ro_failed r, qt_LastSkipped := ro_skipped r,
       qt_LastCandidates := ro_attempted r,
       qt_LastError := (if ro_errors r \<noteq> [] \<and> \<not> cancelled then sanitizeTriggerError (joined_errors (ro_errors r)) else qt_LastError s)\<rparr>"

section \<open>What a round counts\<close>

definition counted :: "round_state \<Rightarrow> nat" where
  "counted s = ro_success s + ro_failed s + ro_skipped s"

lemma add_error_keeps [simp]:
  "ro_db (add_error name err s) = ro_db s" "ro_success (add_error name err s) = ro_success s" "ro_failed (add_error name err s) = ro_failed s"
  "ro_skipped (add_error name err s) = ro_skipped s" "ro_attempted (add_error name err s) = ro_attempted s"
  by (simp_all add: add_error_def split: option.split)

lemma refuse_run_keeps [simp]:
  "ro_db (refuse_run re n run s) = ro_db s" "ro_success (refuse_run re n run s) = ro_success s" "ro_failed (refuse_run re n run s) = ro_failed s"
  "ro_skipped (refuse_run re n run s) = ro_skipped s" "ro_attempted (refuse_run re n run s) = ro_attempted s"
  by (simp_all add: refuse_run_def split_def Let_def)

lemma record_run_rows:
  "recordQuotaTriggerRun ke now err run db = (None, db') \<Longrightarrow> length (us_runs db') = Suc (length (us_runs db)) \<and> us_events db' = us_events db"
  by (auto simp: recordQuotaTriggerRun_def insert_run_def Let_def split: sum.splits option.splits)

lemma collect_run_counts:
  "counted (collect_run re nr s) = Suc (counted s)" "ro_attempted (collect_run re nr s) = Suc (ro_attempted s)"
  "ro_success (collect_run re nr s) + length (us_runs (ro_db s)) \<le> ro_success s + length (us_runs (ro_db (collect_run re nr s)))"
  "length (us_runs (ro_db (collect_run re nr s))) \<le> Suc (length (us_runs (ro_db s)))"
  by (auto simp: collect_run_def counted_def tally_run_def Let_def dest!: record_run_rows split: prod.split sum.split option.split)

lemma collect_runs_counts:
  "counted (fold (collect_run re) nrs s) = counted s + length nrs \<and> ro_attempted (fold (collect_run re) nrs s) = ro_attempted s + length nrs
   \<and> ro_success (fold (collect_run re) nrs s) + length (us_runs (ro_db s)) \<le> ro_success s + length (us_runs (ro_db (fold (collect_run re) nrs s)))
   \<and> length (us_runs (ro_db (fold (collect_run re) nrs s))) \<le> length (us_runs (ro_db s)) + length nrs"
proof (induction nrs arbitrary: s)
  case (Cons nr nrs)
  from Cons.IH [of "collect_run re nr s"] collect_run_counts [of re nr s] show ?case
    unfolding fold_simps comp_def list.size by linarith
qed simp

lemma execute_all_length: "length (fst (execute_all execute n as w)) = length as"
  by (induction as arbitrary: n w) (simp_all add: Let_def split_def)

section \<open>A refused account\<close>

lemma executeQuotaTrigger_answered:
  assumes "qe_send qe 0 (if mode = ''quota'' then usage_request account else probe_request account (codexProbeRequestBody codexProbeModel)) = Inr resp"
    and "\<not> shouldRetryMinimalCodexProbe (rs_StatusCode resp) (rs_Body resp)"
  shows "executeQuotaTrigger qe mode account w = quota_answered qe account resp (started_run qe mode account) w"
proof (cases "mode = ''quota''")
  case True
  then have "qe_send qe 0 (usage_request account) = Inr resp" using assms(1) by (simp only: if_True refl)
  then show ?thesis by (simp only: executeQuotaTrigger_def True refl if_True executeQuotaUsageRequest_def Let_def sum.case)
next
  case False
  then have "qe_send qe 0 (probe_request account (codexProbeRequestBody codexProbeModel)) = Inr resp"
    using assms(1) by (simp only: if_False)
  then show ?thesis using assms(2) False
    by (simp only: executeQuotaTrigger_def if_False executeQuotaProbeRequest_def Let_def sum.case)
qed

lemma strict_alias_of_file:
  assumes "fileNameIfJSON f = f" "TrimSpace f \<noteq> []" "f \<in> {authFile, authID, authIndex, source}"
  shows "normalizeAccountAlias f \<in> set (strictAuthStateAliasesForValues authID authIndex source authFile)"
proof -
  have "f \<noteq> []" using assms(2) by auto
  then have "f \<in> set (filter (\<lambda>f. f \<noteq> []) (map fileNameIfJSON [authFile, authID, authIndex, source]))"
    using assms(1,3) by force
  then show ?thesis unfolding strictAuthStateAliasesForValues_def normalizeAccountAliases_def
    using assms(2) by (rule normalizeAccountAlias_in_expand)
qed

lemma refused_file_matches:
  assumes "fileNameIfJSON f = f" "TrimSpace f \<noteq> []" "ia_AuthFile r = f" "r \<in> set invalids" "cg_AuthFile cfg = f"
  shows "configuredMatchesInvalidAuth cfg invalids"
proof -
  let ?strict = "strictAuthStateAliasesForValues (ia_AuthID r) (ia_AuthIndex r) (ia_Source r) (ia_AuthFile r)"
  have "normalizeAccountAlias f \<in> set ?strict" using assms(1-3) by (intro strict_alias_of_file) auto
  moreover have left: "normalizeAccountAlias f \<in> set (normalizeAccountAliases [cg_AuthFile cfg, cg_AuthIndex cfg, cg_ChatGPTAccountID cfg])"
    unfolding normalizeAccountAliases_def using assms(2,5) by (intro normalizeAccountAlias_in_expand) auto
  moreover have "normalizeAccountAlias f \<noteq> []" using normalizeAccountAliases_normal [OF left] by simp
  ultimately have "matched_aliases cfg (normalizeAccountAliases [ia_AuthID r, ia_AuthIndex r, ia_Source r, ia_AuthFile r]) ?strict"
    unfolding matched_aliases_def Let_def list_ex_iff by (cases "?strict") auto
  with assms(4) show ?thesis by (auto simp: configuredMatchesInvalidAuth_def list_ex_iff)
qed

lemma active_invalid_scanned:
  assumes "r \<in> set (bw_invalids w)" "ia_Provider r = providerCodex" "ia_Active r"
  shows "\<exists>r'\<in>set (active_invalids ae w). ia_AuthFile r' = ia_AuthFile r"
  using assms by (auto simp: active_invalids_def queryActiveInvalidAuths_def rows_of_def)

text \<open>What a 401 leaves: a failed run and an active row for the file.\<close>

lemma refused_recorded:
  assumes "qe_send qe 0 (if mode = ''quota'' then usage_request account else probe_request account (codexProbeRequestBody codexProbeModel)) = Inr resp"
    and "rs_StatusCode resp = 401" "ae_fails (qe_auth qe) 0 = None"
    and "fileNameIfJSON f = f" "TrimSpace f \<noteq> []" "cg_AuthFile (ta_Account account) = f"
    and "\<forall>hs. \<exists>rec. privacySafeUsageRecord (qe_keys qe) (trigger_record account (qe_started qe) hs) = Inr rec \<and> ur_AuthFile rec = f"
    and "executeQuotaTrigger qe mode account w = (run, w')"
  obtains row run1 where "row \<in> set (bw_invalids w')" "ia_Provider row = providerCodex" "ia_Active row" "ia_AuthFile row = f"
    "run = run_failed ''401 unauthorized: credential is invalid'' run1" "qr_HTTPStatus run1 = 401"
proof -
  let ?run0 = "started_run qe mode account"
  have noretry: "\<not> shouldRetryMinimalCodexProbe (rs_StatusCode resp) (rs_Body resp)" using assms(2) by (simp add: shouldRetryMinimalCodexProbe_def)
  have answered: "quota_answered qe account resp ?run0 w = (run, w')"
    using executeQuotaTrigger_answered [OF assms(1) noretry] assms(8) by (rule trans [OF sym])
  define hs where "hs = mergeCodexQuotaPayload (qe_parsers qe) (env_now (ae_sched (qe_auth qe))) (rs_Body resp) (rs_Header resp)"
  obtain rec where rec: "privacySafeUsageRecord (qe_keys qe) (trigger_record account (qe_started qe) hs) = Inr rec" "ur_AuthFile rec = f"
    using assms(7) by blast
  define run1 where "run1 = (run_windows (qe_parsers qe) hs (?run0\<lparr>qr_HTTPStatus := rs_StatusCode resp\<rparr>))\<lparr>qr_FinishedAt := qe_finished qe\<rparr>"
  have "qr_StartedAt run1 = qe_started qe" by (simp add: run1_def run_windows_def started_run_def quotaTriggerRunFromAccount_def)
  then have outcome: "quota_outcome qe rec 401 (rs_Body resp) run1 w = (run, w')"
    using answered rec(1) assms(2) unfolding quota_answered_def Let_def hs_def [symmetric] run1_def [symmetric] by simp
  have provider: "ur_Provider rec = ''codex''"
    using rec(1) by (auto simp: privacySafeUsageRecord_def trigger_record_def Let_def)
  have named: "fst (authFileStateForRecord (qe_auth qe) rec) = f" "f \<noteq> []"
    using rec(2) assms(4,5) by (auto simp: authFileStateForRecord_def record_file_state_def authFileStateForName_def Let_def)
  define row where "row = new_invalid f rec 401 ''401 unauthorized: credential is invalid'' (authFileStateForRecord (qe_auth qe) rec) (record_time (qe_auth qe) rec)"
  have "w' = snd (upsertInvalidAuth None row w) \<and> run = run_failed ''401 unauthorized: credential is invalid'' run1"
    using outcome assms(3) named provider
    by (simp add: quota_outcome_def StatusUnauthorized_def recordInvalidAuthIfNeeded_def invalidAuthReasonForRecord_def invalidAuthIDForRecord_def
        row_def Let_def split_def applyQuotaTriggerStateWriteError_def upsertInvalidAuth_def restriction_write_def)
  moreover have "row \<in> set (bw_invalids (snd (upsertInvalidAuth None row w)))"
    by (simp add: upsertInvalidAuth_def restriction_write_def Let_def upsert_replaced)
  moreover have "ia_Provider row = providerCodex" "ia_Active row" "ia_AuthFile row = f"
    using provider named by (simp_all add: row_def new_invalid_def split_def canonicalProviderOr_folded)
  ultimately have w': "row \<in> set (bw_invalids w')" and run: "run = run_failed ''401 unauthorized: credential is invalid'' run1"
      and active: "ia_Provider row = providerCodex" "ia_Active row" "ia_AuthFile row = f" by simp_all
  have "qr_HTTPStatus run1 = 401" using assms(2) by (simp add: run1_def run_windows_def)
  with w' active run show thesis by (rule that)
qed

text \<open>While such a row is there and its file has not been replaced, the clean-up of a round keeps it and the choice passes over its account.\<close>

lemma mutations_keep_invalid:
  assumes "r \<in> set (bw_invalids w)" "\<And>s v. s \<in> set ss \<Longrightarrow> r \<in> set (bw_invalids v) \<Longrightarrow> r \<in> set (bw_invalids (snd (s v)))"
  shows "r \<in> set (bw_invalids (snd (run_mutations fails n ss w)))"
  using assms
proof (induction ss arbitrary: n w)
  case (Cons s ss)
  obtain err v where v: "execCodexSchedulerStateMutation (fails n) s w = (err, v)" by fastforce
  have "r \<in> set (bw_invalids (snd (s w)))" using Cons.prems by simp
  then have "r \<in> set (bw_invalids v)"
    using v Cons.prems(1) by (auto simp: execCodexSchedulerStateMutation_def invalidate_codex_def split_def Let_def split: option.splits if_splits)
  with Cons v show ?case by (cases err) simp_all
qed simp

lemma update_invalids_keep: "r \<in> set (bw_invalids w) \<Longrightarrow> \<not> P r \<Longrightarrow> r \<in> set (bw_invalids (snd (update_invalids P change w)))"
  by (force simp: update_invalids_def update_rows_def Let_def)

lemma clean_up_keeps:
  assumes "row \<in> set (bw_invalids w)" "ia_AuthFile row = f" "f \<noteq> []"
    and "\<forall>c\<in>set (ae_codex ae). ToLower (cg_AuthFile c) = ToLower f \<longrightarrow> cg_AuthFileMTime c \<le> ia_InvalidatedAt row"
  shows "row \<in> set (bw_invalids (snd (clearReplacedInvalidAuths ae w)))"
  unfolding clearReplacedInvalidAuths_def Let_def using assms
  by (intro mutations_keep_invalid) (auto intro!: update_invalids_keep)

lemma execute_all_cong:
  "(\<And>n a v. a \<in> set as \<Longrightarrow> execute n a v = execute' n a v) \<Longrightarrow> execute_all execute n as w = execute_all execute' n as w"
  by (induction as arbitrary: n w) simp_all

lemma round_skips_refused:
  assumes "fileNameIfJSON f = f" "TrimSpace f \<noteq> []" "ia_Provider row = providerCodex" "ia_Active row" "ia_AuthFile row = f"
    and "row \<in> set (bw_invalids w)"
    and "\<forall>c\<in>set (ae_codex (se_auth se)). ToLower (cg_AuthFile c) = ToLower f \<longrightarrow> cg_AuthFileMTime c \<le> ia_InvalidatedAt row"
    and "\<forall>as. set (handed as) \<subseteq> set as" "\<forall>n a v. cg_AuthFile (ta_Account a) \<noteq> f \<longrightarrow> execute n a v = execute' n a v"
  shows "runQuotaTriggerRound re se open_err cfg execute handed arrived ctx_err db w
       = runQuotaTriggerRound re se open_err cfg execute' handed arrived ctx_err db w"
proof -
  obtain err w1 where w1: "clearReplacedInvalidAuths (se_auth se) w = (err, w1)" by fastforce
  have "f \<noteq> []" using assms(2) by auto
  then have row1: "row \<in> set (bw_invalids w1)" using clean_up_keeps [OF assms(6,5) _ assms(7)] w1 by simp
  obtain err2 w2 where w2: "expireAutobans (re_expire re) (env_unix (ae_sched (re_auth re))) w1 = (err2, w2)" by fastforce
  have "bw_invalids w2 = bw_invalids w1"
    using w2 by (auto simp: expireAutobans_def execCodexSchedulerStateMutation_def update_bans_def invalidate_codex_def split_def Let_def
        split: option.splits if_splits)
  with row1 have row2: "row \<in> set (bw_invalids w2)" by simp
  obtain r' where "r' \<in> set (active_invalids (se_auth se) w2)" "ia_AuthFile r' = f"
    using active_invalid_scanned [OF row2 assms(3,4)] assms(5) by blast
  then have matches: "configuredMatchesInvalidAuth c (active_invalids (se_auth se) w2)" if "cg_AuthFile c = f" for c
    using refused_file_matches [OF assms(1,2)] that by blast
  have passed: "cg_AuthFile (ta_Account a) \<noteq> f"
    if "selectQuotaTriggerCandidates se cfg db w2 = (Inr out, skipped)" "a \<in> set out" for out skipped a
    using that matches
    by (auto simp: selectQuotaTriggerCandidates_def asks_account_def Let_def split: if_splits option.splits sum.splits)
  have "runQuotaTriggerCandidates re execute handed arrived ctx_err out skipped db w2
      = runQuotaTriggerCandidates re execute' handed arrived ctx_err out skipped db w2"
    if "selectQuotaTriggerCandidates se cfg db w2 = (Inr out, skipped)" for out skipped
  proof -
    have "execute_all execute 0 (handed out) w2 = execute_all execute' 0 (handed out) w2"
      using passed [OF that] assms(8,9) by (intro execute_all_cong) blast
    then show ?thesis by (simp add: runQuotaTriggerCandidates_def)
  qed
  then show ?thesis
    by (auto simp: runQuotaTriggerRound_def w1 w2 split: option.split sum.split prod.split)
qed

section \<open>Examples\<close>

definition example_trigger_account :: "string \<Rightarrow> triggerAuthAccount" where
  "example_trigger_account f = \<lparr>ta_Account = (example_account f)\<lparr>cg_Provider := ''codex'', cg_AccessToken := ''t''\<rparr>, ta_AccessToken = ''t'',
     ta_ChatGPTAccountID = []\<rparr>"

definition example_parsers :: quota_parsers where
  "example_parsers = \<lparr>qj_decode = (\<lambda>_. None), qj_float = (\<lambda>_. None), qj_int = (\<lambda>_. 0), qj_time = (\<lambda>_. None)\<rparr>"

definition example_quota_env :: "int \<Rightarrow> quota_env" where
  "example_quota_env status = \<lparr>qe_auth = example_auth_env 60, qe_keys = toy_key_env, qe_parsers = example_parsers,
     qe_send = (\<lambda>_ _. Inr \<lparr>rs_StatusCode = status, rs_Header = [], rs_Body = []\<rparr>), qe_started = 60, qe_finished = 61\<rparr>"

definition example_select_env :: "configuredAccount list \<Rightarrow> select_env" where
  "example_select_env files = \<lparr>se_auth = (example_auth_env 90)\<lparr>ae_codex := files\<rparr>, se_external = example_external_env, se_order = (\<lambda>as. as),
     se_invalids = None, se_bans = None, se_alerts = None\<rparr>"

definition example_round_env :: round_env where
  "example_round_env = \<lparr>re_auth = example_auth_env 60, re_keys = toy_key_env, re_insert = (\<lambda>n. if n = 0 then None else Some ''busy''),
     re_recent = None, re_expire = None, re_step = (\<lambda>_ _. None)\<rparr>"

section \<open>Properties\<close>

text \<open>The tally of a round adds up. Every account that was handed to a worker is attempted once and is counted once, as a success,
  a failure or a skip, whatever its request, its insertion and the updates did; at most one row is added for each, and no success
  is reported whose row was not stored.\<close>

theorem round_tally_adds_up:
  assumes "\<forall>runs. mset (arrived runs) = mset runs"
  shows "let r = runQuotaTriggerCandidates re execute handed arrived ctx_err candidates skipped db w; n = length (handed candidates)
    in ro_success r + ro_failed r + ro_skipped r = skipped + n \<and> ro_attempted r = n
       \<and> ro_success r + length (us_runs db) \<le> length (us_runs (ro_db r)) \<and> length (us_runs (ro_db r)) \<le> length (us_runs db) + n"
proof -
  obtain runs w1 where run: "execute_all execute 0 (handed candidates) w = (runs, w1)" by fastforce
  then have "length runs = length (handed candidates)" using execute_all_length [of execute 0 "handed candidates" w] by simp
  moreover have "length (arrived runs) = length runs" using assms by (metis size_mset)
  ultimately have n: "length (arrived runs) = length (handed candidates)" by simp
  let ?init = "\<lparr>ro_db = db, ro_codex = w1, ro_success = 0, ro_failed = 0, ro_skipped = skipped, ro_attempted = 0, ro_errors = []\<rparr>"
  let ?s = "collect_runs re (arrived runs) ?init"
  let ?r = "runQuotaTriggerCandidates re execute handed arrived ctx_err candidates skipped db w"
  have "ro_success ?r = ro_success ?s" "ro_failed ?r = ro_failed ?s" "ro_skipped ?r = ro_skipped ?s" "ro_attempted ?r = ro_attempted ?s"
      "ro_db ?r = ro_db ?s"
    by (simp_all add: runQuotaTriggerCandidates_def run Let_def split_def split: option.split)
  then show ?thesis
    using collect_runs_counts [of re "zip [0..<length (arrived runs)] (arrived runs)" ?init] by (simp add: Let_def collect_runs_def counted_def n)
qed

theorem round_tally_adds_up_witness:
  "let r = runQuotaTriggerCandidates example_round_env (\<lambda>_. executeQuotaTrigger (example_quota_env 200) ''quota'') (\<lambda>as. as) rev None
       [example_trigger_account ''a.json'', example_trigger_account ''b.json''] 3 (example_db []) example_ban_world
   in ro_success r + ro_failed r + ro_skipped r = 5 \<and> ro_success r \<le> length (us_runs (ro_db r))"
  using round_tally_adds_up [where arrived = rev and re = example_round_env and handed = "\<lambda>as. as" and ctx_err = None
      and candidates = "[example_trigger_account ''a.json'', example_trigger_account ''b.json'']" and skipped = 3 and db = "example_db []"
      and w = example_ban_world and execute = "\<lambda>_. executeQuotaTrigger (example_quota_env 200) ''quota''"]
  by (simp add: Let_def example_db_def)

text \<open>C16: A refused account is not asked again. When the request for an account with a credential file (whose name is stored as it is) is
  answered with 401, the run is a failure and the credential is recorded as invalid. From then on, as long as that row is in the table and
  the file has not been replaced since, no round asks an account of the file, clean-up and expiry at its beginning included: whatever
  the environment, the configuration, the rows and the rest of the restrictions are, the round ends the same for any two executors that
  differ on the accounts of the file only.\<close>

theorem refused_account_not_asked:
  assumes "qe_send qe 0 (if mode = ''quota'' then usage_request account else probe_request account (codexProbeRequestBody codexProbeModel)) = Inr resp"
    and "rs_StatusCode resp = 401" "ae_fails (qe_auth qe) 0 = None"
    and "fileNameIfJSON f = f" "TrimSpace f \<noteq> []" "cg_AuthFile (ta_Account account) = f"
    and "\<forall>hs. \<exists>rec. privacySafeUsageRecord (qe_keys qe) (trigger_record account (qe_started qe) hs) = Inr rec \<and> ur_AuthFile rec = f"
    and "executeQuotaTrigger qe mode account w = (run, w')"
  shows "qr_Status run = ''failed'' \<and> qr_HTTPStatus run = 401
     \<and> (\<exists>row\<in>set (bw_invalids w'). ia_AuthFile row = f \<and> ia_Active row
          \<and> (\<forall>re se open_err cfg execute execute' handed arrived ctx_err db w2.
                 row \<in> set (bw_invalids w2)
               \<longrightarrow> (\<forall>c\<in>set (ae_codex (se_auth se)). ToLower (cg_AuthFile c) = ToLower f \<longrightarrow> cg_AuthFileMTime c \<le> ia_InvalidatedAt row)
               \<longrightarrow> (\<forall>as. set (handed as) \<subseteq> set as)
               \<longrightarrow> (\<forall>n a v. cg_AuthFile (ta_Account a) \<noteq> f \<longrightarrow> execute n a v = execute' n a v)
               \<longrightarrow> runQuotaTriggerRound re se open_err cfg execute handed arrived ctx_err db w2
                 = runQuotaTriggerRound re se open_err cfg execute' handed arrived ctx_err db w2))"
proof -
  obtain row run1 where w': "row \<in> set (bw_invalids w')" and active: "ia_Provider row = providerCodex" "ia_Active row" "ia_AuthFile row = f"
    and run: "run = run_failed ''401 unauthorized: credential is invalid'' run1" "qr_HTTPStatus run1 = 401"
    by (rule refused_recorded [OF assms])
  have "f \<noteq> []" using assms(5) by auto
  then have "runQuotaTriggerRound re se open_err cfg execute handed arrived ctx_err db w2
      = runQuotaTriggerRound re se open_err cfg execute' handed arrived ctx_err db w2"
    if "row \<in> set (bw_invalids w2)"
      "\<forall>c\<in>set (ae_codex (se_auth se)). ToLower (cg_AuthFile c) = ToLower f \<longrightarrow> cg_AuthFileMTime c \<le> ia_InvalidatedAt row"
      "\<forall>as. set (handed as) \<subseteq> set as" "\<forall>n a v. cg_AuthFile (ta_Account a) \<noteq> f \<longrightarrow> execute n a v = execute' n a v"
    for re se open_err cfg execute execute' handed arrived ctx_err db w2
    using round_skips_refused [OF assms(4,5) active that] by blast
  with w' active run show ?thesis by (auto simp: run_failed_def)
qed

theorem refused_account_not_asked_witness:
  "\<exists>run w'. executeQuotaTrigger (example_quota_env 401) ''probe'' (example_trigger_account ''a.json'') example_ban_world = (run, w')
     \<and> qr_Status run = ''failed''
     \<and> runQuotaTriggerRound example_round_env (example_select_env []) None defaultPluginConfig
           (\<lambda>_. executeQuotaTrigger (example_quota_env 200) ''quota'') (\<lambda>as. as) rev None (example_db []) w'
       = runQuotaTriggerRound example_round_env (example_select_env []) None defaultPluginConfig
           (\<lambda>_ a. executeQuotaTrigger (example_quota_env (if cg_AuthFile (ta_Account a) = ''a.json'' then 401 else 200)) ''quota'' a)
           (\<lambda>as. as) rev None (example_db []) w'"
proof -
  let ?account = "example_trigger_account ''a.json''" and ?qe = "example_quota_env 401"
  obtain run w' where run: "executeQuotaTrigger ?qe ''probe'' ?account example_ban_world = (run, w')" by fastforce
  have kept: "\<forall>hs. \<exists>rec. privacySafeUsageRecord (qe_keys ?qe) (trigger_record ?account (qe_started ?qe) hs) = Inr rec \<and> ur_AuthFile rec = ''a.json''"
  proof
    fix hs
    have "privacySafeUsageRecord (qe_keys ?qe) (trigger_record ?account (qe_started ?qe) hs) = Inr (trigger_record ?account 60 hs)" by code_simp
    moreover have "ur_AuthFile (trigger_record ?account 60 hs) = ''a.json''" by (simp add: trigger_record_def example_trigger_account_def example_account_def)
    ultimately show "\<exists>rec. privacySafeUsageRecord (qe_keys ?qe) (trigger_record ?account (qe_started ?qe) hs) = Inr rec \<and> ur_AuthFile rec = ''a.json''"
      by blast
  qed
  have sent: "qe_send ?qe 0 (if ''probe'' = ''quota'' then usage_request ?account else probe_request ?account (codexProbeRequestBody codexProbeModel))
        = Inr \<lparr>rs_StatusCode = 401, rs_Header = [], rs_Body = []\<rparr>" by (simp add: example_quota_env_def)
  have "ae_fails (qe_auth ?qe) 0 = None" "fileNameIfJSON ''a.json'' = ''a.json''" "TrimSpace ''a.json'' \<noteq> []"
      "cg_AuthFile (ta_Account ?account) = ''a.json''" by code_simp+
  note refused = refused_account_not_asked [OF sent _ this kept run]
  have "ae_codex (se_auth (example_select_env [])) = []" by (simp add: example_select_env_def)
  with refused run show ?thesis by fastforce
qed

end
