(* ===== verification/Lifecycle.thy ===== *)
theory Lifecycle
  imports State_Cache Affinity Protection_Manager "HOL-Library.Sublist"
begin

text \<open>
  The life cycle of the plugin (\<open>plugin_lifecycle.go\<close>, and in \<open>main.go\<close> the entry points the host calls,
  \<open>configurePlugin\<close> and the shutdown): a gate, a read-write lock, lets ordinary calls run side by side and
  initialisation, registration and shutdown alone. Threads are steps of a relation: they wait at the gate, enter, perform their steps one by
  one and leave, while the goroutines of the managers run between them. Below, the loop that refreshes
  the scheduler state. The lemmas: a call reaches its handler only while the plugin is running; after a shutdown nothing is left running, open or
  published; a request to refresh is never lost, and the delays between failed refreshes are bounded.
\<close>

section \<open>What the plugin starts and stops\<close>

text \<open>
  The managers whose \<open>stop\<close> cancels and joins their goroutines. The one of account protection does not join
  all of its goroutines; its own state is modelled in \<open>Protection_Manager\<close>.
\<close>

datatype background =
  SchedulerRefresher | QuotaTrigger | ModelPriceUpdater | RetentionCleaner | DBHealthMonitor | SummaryMaintenance | SummaryPrecomputer

text \<open>
  \<open>ps_running\<close> are the managers with a goroutine, \<open>ps_open\<close> tells whether the store holds a database, \<open>ps_context\<close> whether the
  context of the operations is cancelled, \<open>ps_panicked\<close> whether a step of the last shutdown panicked.
\<close>

record plugin_state =
  ps_stopped :: bool
  ps_context :: "bool option"
  ps_running :: "background list"
  ps_protection :: protectionManager
  ps_cache :: schedulerStateCache
  ps_sessions :: bindings
  ps_open :: bool
  ps_panicked :: bool

datatype lifecycle_step =
    ResetOperations | MarkRunning | MarkStopped
  | StopManager background | StartManager background
  | StopProtection | ConfigureProtection pluginConfig "configuredAccount list" int
  | InvalidateCache | ResetSessions | CloseStore | Handle

fun perform :: "lifecycle_step \<Rightarrow> plugin_state \<Rightarrow> plugin_state" where
  "perform ResetOperations s = s\<lparr>ps_context := Some False\<rparr>"
| "perform MarkRunning s = s\<lparr>ps_stopped := False\<rparr>"
| "perform MarkStopped s = s\<lparr>ps_stopped := True, ps_panicked := False\<rparr>"
| "perform (StopManager b) s = s\<lparr>ps_running := removeAll b (ps_running s)\<rparr>"
| "perform (StartManager b) s = s\<lparr>ps_running := b # ps_running s\<rparr>"
| "perform StopProtection s = s\<lparr>ps_protection := protection_stop (ps_protection s)\<rparr>"
| "perform (ConfigureProtection cfg accounts now) s = s\<lparr>ps_protection := protection_configure cfg accounts now (ps_protection s)\<rparr>"
| "perform InvalidateCache s = s\<lparr>ps_cache := cache_invalidate (ps_cache s)\<rparr>"
| "perform ResetSessions s = s\<lparr>ps_sessions := affinity_reset (ps_sessions s)\<rparr>"
| "perform CloseStore s = s\<lparr>ps_open := False\<rparr>"
| "perform Handle s = s"

text \<open>\<open>cliproxyPluginShutdownBestEffort\<close> after the gate: first what runs, then what it may have published, then the store.\<close>

definition shutdown_steps :: "lifecycle_step list" where
  "shutdown_steps =
     [StopManager SchedulerRefresher, StopProtection, StopManager QuotaTrigger, StopManager ModelPriceUpdater, StopManager RetentionCleaner,
      StopManager DBHealthMonitor, StopManager SummaryMaintenance, StopManager SummaryPrecomputer,
      InvalidateCache, ResetSessions, CloseStore]"

text \<open>
  \<open>configurePlugin\<close>: every manager is stopped before it is started anew. \<open>lr_Valid\<close> tells whether the request is JSON (or empty),
  \<open>lr_Text\<close> and \<open>lr_Bytes\<close> what the raw configuration decodes to as a text and as bytes, \<open>lr_Decoded\<close> the Base64 decoding of the text.
\<close>

record lifecycleRequest =
  lq_Valid :: bool
  lq_Raw :: string
  lq_Text :: "string option"
  lq_Decoded :: "string option"
  lq_Bytes :: "string option"

definition lifecycleConfigYAML :: "lifecycleRequest \<Rightarrow> (string, string) result" where
  "lifecycleConfigYAML q =
     (if lq_Raw q = [] \<or> lq_Raw q = ''null'' then Inr []
      else case lq_Text q of
             Some txt \<Rightarrow> (case lq_Decoded q of
                            Some decoded \<Rightarrow> if Contains decoded '':'' then Inr decoded else Inr txt
                          | None \<Rightarrow> Inr txt)
           | None \<Rightarrow> (case lq_Bytes q of Some raw \<Rightarrow> Inr raw | None \<Rightarrow> Inl ''config_yaml must be a string or byte array''))"

definition requestedConfig :: "lifecycleRequest \<Rightarrow> (string, pluginConfig) result" where
  "requestedConfig q =
     (if \<not> lq_Valid q then Inl ''invalid request''
      else bind_result (lifecycleConfigYAML q) (\<lambda>raw.
             Inr (normalizePluginConfig (if raw \<noteq> [] then parsePluginConfigYAML raw defaultPluginConfig else defaultPluginConfig))))"

definition restart :: "bool \<Rightarrow> background \<Rightarrow> lifecycle_step list" where
  "restart enabled b = StopManager b # (if enabled then [StartManager b] else [])"

definition configure_steps :: "pluginConfig \<Rightarrow> configuredAccount list \<Rightarrow> int \<Rightarrow> lifecycle_step list" where
  "configure_steps cfg accounts now =
     [StopManager SchedulerRefresher, ResetSessions, ConfigureProtection cfg accounts now]
     @ restart (cf_QuotaTriggerEnabled cfg) QuotaTrigger
     @ restart (cf_ModelPriceAutoUpdateEnabled cfg) ModelPriceUpdater
     @ restart True RetentionCleaner
     @ restart True DBHealthMonitor
     @ restart True SummaryMaintenance
     @ restart (cf_SummaryPrecomputeEnabled cfg) SummaryPrecomputer
     @ [StopManager SchedulerRefresher, InvalidateCache, StartManager SchedulerRefresher]"

section \<open>The calls of the host\<close>

text \<open>\<open>pc_Length\<close> is the length of the request, \<open>pc_Method\<close> the name of the method unless the pointer is nil.\<close>

record plugin_call =
  pc_Response :: bool
  pc_Request :: bool
  pc_Length :: nat
  pc_Method :: "string option"
  pc_Lifecycle :: lifecycleRequest
  pc_Accounts :: "configuredAccount list"
  pc_Now :: int

definition maxPluginRequestBytes :: nat where "maxPluginRequestBytes = 64 * 2 ^ 20"

text \<open>The checks of \<open>cliproxyPluginCallBody\<close> before and after the gate: the code of the error, empty where nothing can be answered.\<close>

definition refused_before_gate :: "plugin_call \<Rightarrow> string option" where
  "refused_before_gate c =
     (if \<not> pc_Response c then Some []
      else if \<not> pc_Request c \<and> 0 < pc_Length c then Some ''invalid_request''
      else None)"

definition refused_inside :: "bool \<Rightarrow> plugin_call \<Rightarrow> string option" where
  "refused_inside stopped c =
     (if stopped then Some ''plugin_stopped''
      else if pc_Method c = None then Some ''invalid_method''
      else if maxPluginRequestBytes < pc_Length c then Some ''request_too_large''
      else None)"

definition configures :: "plugin_call \<Rightarrow> bool" where
  "configures c \<longleftrightarrow> pc_Method c = Some ''plugin.register'' \<or> pc_Method c = Some ''plugin.reconfigure''"

datatype plugin_job = Init bool | Call plugin_call | Shutdown

text \<open>\<open>beginPluginInvocation\<close>: which side of the lock a job takes.\<close>

fun exclusive :: "plugin_job \<Rightarrow> bool" where
  "exclusive (Call c) = configures c"
| "exclusive (Init present) = True"
| "exclusive Shutdown = True"

definition call_steps :: "bool \<Rightarrow> plugin_call \<Rightarrow> lifecycle_step list" where
  "call_steps stopped c =
     (if refused_inside stopped c \<noteq> None then []
      else if configures c
      then (case requestedConfig (pc_Lifecycle c) of Inl _ \<Rightarrow> [] | Inr cfg \<Rightarrow> configure_steps cfg (pc_Accounts c) (pc_Now c))
      else [Handle])"

fun job_steps :: "bool \<Rightarrow> plugin_job \<Rightarrow> lifecycle_step list" where
  "job_steps stopped (Init present) = (if present then [ResetOperations, MarkRunning] else [])"
| "job_steps stopped (Call c) = call_steps stopped c"
| "job_steps stopped Shutdown = MarkStopped # shutdown_steps"

section \<open>Threads\<close>

datatype job_phase = Waiting | Working "lifecycle_step list" | Returned

type_synonym plugin_thread = "plugin_job \<times> job_phase"

record plugin_world =
  pw_state :: plugin_state
  pw_threads :: "plugin_thread list"

text \<open>The read-write lock: a writer enters alone, a reader when no writer is inside. The order in which waiting goroutines enter is open.\<close>

fun inside :: "plugin_thread \<Rightarrow> bool" where
  "inside (job, Working steps) = True"
| "inside (job, Waiting) = False"
| "inside (job, Returned) = False"

definition may_enter :: "plugin_job \<Rightarrow> plugin_thread list \<Rightarrow> bool" where
  "may_enter job threads \<longleftrightarrow> list_all (\<lambda>t. inside t \<longrightarrow> \<not> exclusive job \<and> \<not> exclusive (fst t)) threads"

text \<open>Before it waits at the gate a shutdown cancels the running operations.\<close>

fun on_arrival :: "plugin_job \<Rightarrow> plugin_state \<Rightarrow> plugin_state" where
  "on_arrival Shutdown s = s\<lparr>ps_context := map_option (\<lambda>_. True) (ps_context s)\<rparr>"
| "on_arrival (Init present) s = s"
| "on_arrival (Call c) s = s"

fun arrives :: "plugin_job \<Rightarrow> bool" where
  "arrives (Call c) = (refused_before_gate c = None)"
| "arrives (Init present) = True"
| "arrives Shutdown = True"

text \<open>A panic is recovered: a shutdown goes on with its next step, any other job is left as it stands.\<close>

fun after_panic :: "plugin_job \<Rightarrow> lifecycle_step list \<Rightarrow> lifecycle_step list" where
  "after_panic Shutdown steps = steps"
| "after_panic (Init present) steps = []"
| "after_panic (Call c) steps = []"

text \<open>
  The steps. A handler (\<open>handle\<close>) may publish to the cache, bind sessions, open the store and start goroutines of
  any manager; a goroutine (\<open>goroutine\<close>) may publish to the cache and open the store; those of account
  protection publish as \<open>Protection_Manager\<close> says, also when they were abandoned.
\<close>

inductive plugin_step :: "plugin_world \<Rightarrow> plugin_world \<Rightarrow> bool" where
  arrive: "arrives job \<Longrightarrow>
    plugin_step w (w\<lparr>pw_state := on_arrival job (pw_state w), pw_threads := pw_threads w @ [(job, Waiting)]\<rparr>)"
| enter: "i < length (pw_threads w) \<Longrightarrow> pw_threads w ! i = (job, Waiting) \<Longrightarrow> may_enter job (pw_threads w) \<Longrightarrow>
    plugin_step w (w\<lparr>pw_threads := (pw_threads w)[i := (job, Working (job_steps (ps_stopped (pw_state w)) job))]\<rparr>)"
| act: "i < length (pw_threads w) \<Longrightarrow> pw_threads w ! i = (job, Working (st # steps)) \<Longrightarrow>
    plugin_step w (w\<lparr>pw_state := perform st (pw_state w), pw_threads := (pw_threads w)[i := (job, Working steps)]\<rparr>)"
| panic: "i < length (pw_threads w) \<Longrightarrow> pw_threads w ! i = (job, Working (st # steps)) \<Longrightarrow> st \<noteq> MarkStopped \<Longrightarrow>
    plugin_step w (w\<lparr>pw_state := (pw_state w)\<lparr>ps_panicked := ps_panicked (pw_state w) \<or> job = Shutdown\<rparr>,
                     pw_threads := (pw_threads w)[i := (job, Working (after_panic job steps))]\<rparr>)"
| leave: "i < length (pw_threads w) \<Longrightarrow> pw_threads w ! i = (job, Working []) \<Longrightarrow>
    plugin_step w (w\<lparr>pw_threads := (pw_threads w)[i := (job, Returned)]\<rparr>)"
| handle: "i < length (pw_threads w) \<Longrightarrow> pw_threads w ! i = (Call c, Working [Handle]) \<Longrightarrow>
    plugin_step w (w\<lparr>pw_state := (pw_state w)\<lparr>ps_cache := cache, ps_sessions := sessions, ps_open := opened,
                       ps_protection := manager, ps_running := new @ ps_running (pw_state w)\<rparr>\<rparr>)"
| goroutine: "b \<in> set (ps_running (pw_state w)) \<Longrightarrow>
    plugin_step w (w\<lparr>pw_state := (pw_state w)\<lparr>ps_cache := cache, ps_open := opened\<rparr>\<rparr>)"
| publish_plans: "plugin_step w (w\<lparr>pw_state := (pw_state w)
    \<lparr>ps_protection := refreshConfiguredPlans r plans now (ps_protection (pw_state w))\<rparr>\<rparr>)"
| publish_usage: "plugin_step w (w\<lparr>pw_state := (pw_state w)
    \<lparr>ps_protection := publishUsageIndex u usage now (ps_protection (pw_state w))\<rparr>\<rparr>)"
| finish_usage: "plugin_step w (w\<lparr>pw_state := (pw_state w)
    \<lparr>ps_protection := finishUsageRefresh u (ps_protection (pw_state w))\<rparr>\<rparr>)"

text \<open>The start: nothing was initialised yet, and no call has come.\<close>

definition plugin_init :: "protectionManager \<Rightarrow> plugin_world" where
  "plugin_init m = \<lparr>pw_state = \<lparr>ps_stopped = True, ps_context = None, ps_running = [], ps_protection = m,
     ps_cache = empty_cache, ps_sessions = [], ps_open = False, ps_panicked = False\<rparr>, pw_threads = []\<rparr>"

definition protection_idle :: "protectionManager \<Rightarrow> bool" where
  "protection_idle m \<longleftrightarrow> pm_plansCtx m = None \<and> pm_usageCtx m = None \<and> pm_usage m = None"

definition cache_unknown :: "schedulerStateCache \<Rightarrow> bool" where
  "cache_unknown c \<longleftrightarrow> \<not> sl_Initialized (sc_codex c) \<and> sl_Snapshot (sc_codex c) = None
     \<and> \<not> sl_Initialized (sc_xai c) \<and> sl_Snapshot (sc_xai c) = None"

section \<open>The invariant\<close>

text \<open>The steps a shutdown has still to perform once it has marked the plugin as stopped.\<close>

fun shutdown_rest :: "plugin_thread \<Rightarrow> lifecycle_step set" where
  "shutdown_rest (Shutdown, Working steps) = (if MarkStopped \<in> set steps then {} else set steps)"
| "shutdown_rest (job, phase) = {}"

definition remaining :: "plugin_thread list \<Rightarrow> lifecycle_step set" where
  "remaining threads = (\<Union>i<length threads. shutdown_rest (threads ! i))"

text \<open>What holds when all steps of a shutdown but those of \<open>rest\<close> were performed.\<close>

definition quiet :: "lifecycle_step set \<Rightarrow> plugin_state \<Rightarrow> bool" where
  "quiet rest s \<longleftrightarrow> (\<forall>b\<in>set (ps_running s). StopManager b \<in> rest)
     \<and> (StopProtection \<in> rest \<or> protection_idle (ps_protection s))
     \<and> (InvalidateCache \<in> rest \<or> cache_unknown (ps_cache s))
     \<and> (ResetSessions \<in> rest \<or> ps_sessions s = [])
     \<and> (CloseStore \<in> rest \<or> \<not> ps_open s)"

fun thread_ok :: "bool \<Rightarrow> plugin_thread \<Rightarrow> bool" where
  "thread_ok stopped (Init present, Working steps) = suffix steps [ResetOperations, MarkRunning]"
| "thread_ok stopped (Call c, Working steps) = (MarkStopped \<notin> set steps \<and> (steps \<noteq> [] \<longrightarrow> \<not> stopped))"
| "thread_ok stopped (Shutdown, Working steps) = suffix steps (MarkStopped # shutdown_steps)"
| "thread_ok stopped (job, phase) = True"

definition gate_held :: "plugin_thread list \<Rightarrow> bool" where
  "gate_held threads \<longleftrightarrow> (\<forall>i j. i < length threads \<longrightarrow> j < length threads \<longrightarrow> i \<noteq> j \<longrightarrow> inside (threads ! i) \<longrightarrow> inside (threads ! j)
     \<longrightarrow> \<not> exclusive (fst (threads ! i)))"

definition plugin_inv :: "plugin_world \<Rightarrow> bool" where
  "plugin_inv w \<longleftrightarrow> gate_held (pw_threads w)
     \<and> (\<forall>i<length (pw_threads w). thread_ok (ps_stopped (pw_state w)) (pw_threads w ! i))
     \<and> (ps_stopped (pw_state w) \<and> \<not> ps_panicked (pw_state w) \<longrightarrow> quiet (remaining (pw_threads w)) (pw_state w))"

named_theorems phase_simps

lemma suffix_Nil_Cons [phase_simps]: "suffix xs [] \<longleftrightarrow> xs = []" "suffix xs (y # ys) \<longleftrightarrow> xs = y # ys \<or> suffix xs ys"
  by (auto simp: suffix_Cons)

lemma thread_ok_outside [simp]: "\<not> inside t \<Longrightarrow> thread_ok stopped t" "\<not> inside t \<Longrightarrow> shutdown_rest t = {}"
  by (cases t; cases "snd t"; cases "fst t"; force)+

lemma shutdown_rest_done [simp]: "shutdown_rest (job, Working []) = {}"
  by (cases job) auto

lemma gate_held_update_outside: "gate_held ts \<Longrightarrow> i < length ts \<Longrightarrow> \<not> inside t \<Longrightarrow> gate_held (ts[i := t])"
  by (auto simp: gate_held_def nth_list_update split: if_splits)

lemma gate_held_update_inside:
  "gate_held ts \<Longrightarrow> i < length ts \<Longrightarrow> inside (ts ! i) \<Longrightarrow> fst t = fst (ts ! i) \<Longrightarrow> gate_held (ts[i := t])"
  by (auto simp: gate_held_def nth_list_update split: if_splits)

lemma gate_held_enter:
  "gate_held ts \<Longrightarrow> i < length ts \<Longrightarrow> may_enter (fst t) ts \<Longrightarrow> gate_held (ts[i := t])"
  by (auto simp: gate_held_def may_enter_def nth_list_update list_all_length split: if_splits)

lemma gate_held_others:
  assumes "gate_held ts" "i < length ts" "inside (ts ! i)" "exclusive (fst (ts ! i))" "j < length ts" "j \<noteq> i"
  shows "\<not> inside (ts ! j)"
  using assms unfolding gate_held_def by metis

lemma remaining_append [simp]: "remaining (ts @ [t]) = remaining ts \<union> shutdown_rest t"
  by (auto simp: remaining_def nth_append less_Suc_eq) blast

lemma remaining_update_same:
  "i < length ts \<Longrightarrow> shutdown_rest t = shutdown_rest (ts ! i) \<Longrightarrow> remaining (ts[i := t]) = remaining ts"
  by (auto simp: remaining_def nth_list_update split: if_splits)

lemma remaining_alone:
  assumes "gate_held ts" "i < length ts" "inside (ts ! i)" "exclusive (fst (ts ! i))"
  shows "remaining (ts[i := t]) = shutdown_rest t"
  using assms gate_held_others [OF assms] by (auto simp: remaining_def nth_list_update split: if_splits)

lemma remaining_Shutdown:
  assumes "gate_held ts" "i < length ts" "ts ! i = (Shutdown, Working steps)"
  shows "remaining ts = shutdown_rest (ts ! i)"
  using remaining_alone [of ts i "ts ! i", unfolded list_update_id] assms by simp

lemma shutdown_restE:
  assumes "st \<in> shutdown_rest t"
  obtains steps where "t = (Shutdown, Working steps)" "MarkStopped \<notin> set steps" "st \<in> set steps"
  using assms by (cases t rule: shutdown_rest.cases) (auto split: if_splits)

lemma thread_ok_state: "thread_ok stopped t \<Longrightarrow> \<not> (stopped' \<and> \<not> stopped) \<Longrightarrow> thread_ok stopped' t"
  by (cases t; cases "fst t"; cases "snd t") auto

text \<open>Every step that is left stands before the end of what is left.\<close>

lemma remaining_closed:
  assumes "\<forall>i<length ts. thread_ok stopped (ts ! i)" "StopManager b \<in> remaining ts"
  shows "InvalidateCache \<in> remaining ts \<and> CloseStore \<in> remaining ts"
proof -
  obtain i steps where i: "i < length ts" "ts ! i = (Shutdown, Working steps)" "MarkStopped \<notin> set steps" "StopManager b \<in> set steps"
    using assms(2) unfolding remaining_def by (auto elim: shutdown_restE)
  have "suffix steps shutdown_steps" using assms(1) i by (force simp: suffix_Nil_Cons)
  then have "InvalidateCache \<in> set steps \<and> CloseStore \<in> set steps"
    using i(4) by (cases b) (auto simp: shutdown_steps_def phase_simps)
  then show ?thesis using i unfolding remaining_def by force
qed

lemma stopped_parts [simp]:
  "protection_idle (protection_stop m)" "cache_unknown (cache_invalidate c)" "affinity_reset b = []"
  by (simp_all add: protection_idle_def cache_unknown_def protection_stop_def stopUsageRefreshLocked_def stopPlanRefreshLocked_def
      cancel_def cache_invalidate_def slot_invalidate_def affinity_reset_def split: option.split)

lemma quiet_perform:
  "suffix (st # steps) shutdown_steps \<Longrightarrow> quiet (set (st # steps)) s \<Longrightarrow> quiet (set steps) (perform st s)"
  unfolding shutdown_steps_def phase_simps by (elim disjE) (auto simp: quiet_def)

lemma idle_publish [simp]:
  "protection_idle m \<Longrightarrow> protection_idle (refreshConfiguredPlans r plans now m)"
  "protection_idle m \<Longrightarrow> protection_idle (publishUsageIndex u usage now m)"
  "protection_idle m \<Longrightarrow> protection_idle (finishUsageRefresh u m)"
  by (auto simp: protection_idle_def refreshConfiguredPlans_def publishUsageIndex_def finishUsageRefresh_def)

lemma call_steps_running:
  "call_steps stopped c \<noteq> [] \<Longrightarrow> \<not> stopped" "MarkStopped \<notin> set (call_steps stopped c)"
  by (auto simp: call_steps_def refused_inside_def configure_steps_def restart_def split: sum.splits if_splits)

lemma job_steps_ok: "thread_ok stopped (job, Working (job_steps stopped job))"
  using call_steps_running by (cases job) (auto simp: phase_simps)

lemma perform_stopped: "st \<noteq> MarkStopped \<Longrightarrow> ps_stopped (perform st s) \<Longrightarrow> ps_stopped s"
  by (cases st) auto

lemma perform_panicked: "st \<noteq> MarkStopped \<Longrightarrow> ps_panicked (perform st s) = ps_panicked s"
  by (cases st) auto

lemma thread_ok_shorter: "thread_ok stopped (job, Working (st # steps)) \<Longrightarrow> thread_ok stopped (job, Working steps)"
  by (cases job) (auto dest: suffix_ConsD)

section \<open>The steps keep the invariant\<close>

lemma act_keeps:
  assumes "plugin_inv w" "i < length (pw_threads w)" "pw_threads w ! i = (job, Working (st # steps))"
  shows "plugin_inv (w\<lparr>pw_state := perform st (pw_state w), pw_threads := (pw_threads w)[i := (job, Working steps)]\<rparr>)"
proof -
  let ?ts = "pw_threads w" and ?s = "pw_state w"
  let ?us = "?ts[i := (job, Working steps)]"
  have gate: "gate_held ?ts" and ok: "\<forall>j<length ?ts. thread_ok (ps_stopped ?s) (?ts ! j)"
    and quiet: "ps_stopped ?s \<and> \<not> ps_panicked ?s \<longrightarrow> quiet (remaining ?ts) ?s"
    using assms(1) by (auto simp: plugin_inv_def)
  have "gate_held ?us" using gate assms(2,3) by (intro gate_held_update_inside) auto
  have this_ok: "thread_ok (ps_stopped ?s) (job, Working (st # steps))" using ok assms(2,3) by metis
  show ?thesis
  proof (cases "job = Shutdown")
    case True
    note here = assms(2) assms(3) [unfolded True]
    have others: "\<not> inside (?ts ! j)" if "j < length ?ts" "j \<noteq> i" for j
      using gate_held_others [OF gate here(1)] here(2) that by simp
    have rest: "remaining ?us = shutdown_rest (Shutdown, Working steps)"
      using remaining_alone [OF gate here(1)] here(2) True by simp
    have suf: "suffix (st # steps) (MarkStopped # shutdown_steps)" using this_ok True by simp
    have threads: "\<forall>j<length ?us. thread_ok stopped (?us ! j)" for stopped
      using others thread_ok_shorter [OF this_ok] here(1) True by (auto simp: nth_list_update)
    have "quiet (remaining ?us) (perform st ?s)" if "ps_stopped (perform st ?s) \<and> \<not> ps_panicked (perform st ?s)"
    proof (cases "st = MarkStopped")
      case True
      then have "steps = shutdown_steps" using suf by (auto simp: shutdown_steps_def phase_simps)
      then show ?thesis unfolding rest by (auto simp: shutdown_steps_def quiet_def) (metis background.exhaust)
    next
      case False
      then have suf': "suffix (st # steps) shutdown_steps" using suf by (auto simp: suffix_Cons)
      then have no_mark: "MarkStopped \<notin> set (st # steps)"
        using set_mono_suffix [OF suf'] by (auto simp: shutdown_steps_def)
      have "remaining ?ts = set (st # steps)" using remaining_Shutdown [OF gate here] here(2) no_mark by simp
      then have "quiet (set (st # steps)) ?s" using quiet that False by (metis perform_stopped perform_panicked)
      then show ?thesis using quiet_perform [OF suf'] no_mark unfolding rest by simp
    qed
    with \<open>gate_held ?us\<close> threads show ?thesis by (simp add: plugin_inv_def)
  next
    case False
    then have st: "st \<noteq> MarkStopped" using this_ok by (cases job) (auto simp: phase_simps)
    have rest: "remaining ?us = remaining ?ts"
      using remaining_update_same [OF assms(2)] assms(3) False by (cases job) auto
    have threads: "\<forall>j<length ?us. thread_ok (ps_stopped (perform st ?s)) (?us ! j)"
      using ok thread_ok_shorter [OF this_ok] perform_stopped [OF st] assms(2)
      by (auto simp: nth_list_update intro: thread_ok_state)
    have "quiet (remaining ?ts) (perform st ?s)" if "ps_stopped (perform st ?s)" "\<not> ps_panicked (perform st ?s)"
    proof -
      have stopped: "ps_stopped ?s" "\<not> ps_panicked ?s" using that perform_stopped [OF st] perform_panicked [OF st] by auto
      then have "st \<in> {ResetOperations, MarkRunning}" using this_ok False by (cases job) (auto simp: phase_simps)
      with quiet stopped that show ?thesis by (auto simp: quiet_def)
    qed
    with \<open>gate_held ?us\<close> threads show ?thesis by (simp add: plugin_inv_def rest)
  qed
qed

lemma update_keeps:
  assumes "plugin_inv w" "i < length (pw_threads w)" "shutdown_rest t = shutdown_rest (pw_threads w ! i)"
    "thread_ok (ps_stopped (pw_state w)) t" "gate_held ((pw_threads w)[i := t])"
  shows "plugin_inv (w\<lparr>pw_threads := (pw_threads w)[i := t]\<rparr>)"
  using assms remaining_update_same [OF assms(2,3)] by (auto simp: plugin_inv_def nth_list_update)

lemma state_keeps:
  assumes "plugin_inv w" "ps_stopped s = ps_stopped (pw_state w)" "ps_panicked s = ps_panicked (pw_state w)"
    "ps_stopped s \<Longrightarrow> \<not> ps_panicked s \<Longrightarrow> quiet (remaining (pw_threads w)) (pw_state w) \<Longrightarrow> quiet (remaining (pw_threads w)) s"
  shows "plugin_inv (w\<lparr>pw_state := s\<rparr>)"
  using assms by (auto simp: plugin_inv_def)

lemma plugin_step_inv: "plugin_step w w' \<Longrightarrow> plugin_inv w \<Longrightarrow> plugin_inv w'"
proof (induction rule: plugin_step.induct)
  case (arrive job w)
  have "quiet R (on_arrival job s) = quiet R s" "ps_stopped (on_arrival job s) = ps_stopped s" "ps_panicked (on_arrival job s) = ps_panicked s" for R s
    by (cases job; simp add: quiet_def)+
  moreover have "gate_held (pw_threads w @ [(job, Waiting)])"
    using arrive.prems by (auto simp: plugin_inv_def gate_held_def nth_append)
  ultimately show ?case using arrive.prems by (auto simp: plugin_inv_def nth_append)
next
  case (enter i w job)
  have "shutdown_rest (job, Working (job_steps stopped job)) = {}" for stopped by (cases job) auto
  then show ?case
    using enter job_steps_ok gate_held_enter [of "pw_threads w" i "(job, Working (job_steps (ps_stopped (pw_state w)) job))"]
    by (intro update_keeps) (auto simp: plugin_inv_def)
next
  case (act i w job st steps)
  then show ?case by (intro act_keeps)
next
  case (panic i w job st steps)
  let ?t = "(job, Working (after_panic job steps))"
  from panic have ok: "thread_ok (ps_stopped (pw_state w)) (job, Working (st # steps))" by (force simp: plugin_inv_def)
  then have "thread_ok (ps_stopped (pw_state w)) ?t" by (cases job) (auto dest: suffix_ConsD)
  moreover have "gate_held ((pw_threads w)[i := ?t])" using panic by (intro gate_held_update_inside) (auto simp: plugin_inv_def)
  moreover have "remaining ((pw_threads w)[i := ?t]) = remaining (pw_threads w)" if "job \<noteq> Shutdown"
    using remaining_update_same [OF panic(1)] panic(2) that by (cases job) auto
  ultimately show ?case using panic by (auto simp: plugin_inv_def nth_list_update quiet_def)
next
  case (leave i w job)
  then show ?case by (intro update_keeps gate_held_update_outside) (auto simp: plugin_inv_def)
next
  case (handle i w c cache sessions opened manager new)
  then have "\<not> ps_stopped (pw_state w)" by (force simp: plugin_inv_def)
  with handle show ?case by (intro state_keeps) auto
next
  case (goroutine b w cache opened)
  then show ?case
    using remaining_closed [of "pw_threads w" "ps_stopped (pw_state w)" b] by (intro state_keeps) (auto simp: quiet_def plugin_inv_def)
next
  case (publish_plans w r plans now)
  then show ?case by (intro state_keeps) (auto simp: quiet_def)
next
  case (publish_usage w u usage now)
  then show ?case by (intro state_keeps) (auto simp: quiet_def)
next
  case (finish_usage w u)
  then show ?case by (intro state_keeps) (auto simp: quiet_def)
qed

definition plugin_reachable :: "plugin_world \<Rightarrow> bool" where
  "plugin_reachable w \<longleftrightarrow> (\<exists>m. protection_idle m \<and> plugin_step\<^sup>*\<^sup>* (plugin_init m) w)"

lemma plugin_reachable_trans: "plugin_reachable w \<Longrightarrow> plugin_step\<^sup>*\<^sup>* w w' \<Longrightarrow> plugin_reachable w'"
  unfolding plugin_reachable_def by (blast intro: rtranclp_trans)

lemma plugin_reachable_inv: "plugin_reachable w \<Longrightarrow> plugin_inv w"
proof -
  assume "plugin_reachable w"
  then obtain m where m: "protection_idle m" "plugin_step\<^sup>*\<^sup>* (plugin_init m) w" by (auto simp: plugin_reachable_def)
  have "plugin_inv (plugin_init m)" using m(1)
    by (simp add: plugin_inv_def plugin_init_def gate_held_def quiet_def cache_unknown_def empty_cache_def empty_slot_def)
  with m(2) show ?thesis by (induction rule: rtranclp_induct) (auto intro: plugin_step_inv)
qed

section \<open>Runs of a job\<close>

lemma act_all:
  "i < length (pw_threads w) \<Longrightarrow> pw_threads w ! i = (job, Working steps) \<Longrightarrow>
   plugin_step\<^sup>*\<^sup>* w (w\<lparr>pw_state := fold perform steps (pw_state w), pw_threads := (pw_threads w)[i := (job, Working [])]\<rparr>)"
proof (induction steps arbitrary: w)
  case Nil
  then have "w\<lparr>pw_state := fold perform [] (pw_state w), pw_threads := (pw_threads w)[i := (job, Working [])]\<rparr> = w"
    by (metis (no_types, lifting) fold_simps(1) list_update_id plugin_world.surjective plugin_world.update_convs)
  then show ?case by simp
next
  case (Cons st steps)
  let ?v = "w\<lparr>pw_state := perform st (pw_state w), pw_threads := (pw_threads w)[i := (job, Working steps)]\<rparr>"
  have "plugin_step w ?v" using Cons.prems by (rule plugin_step.act)
  moreover have "plugin_step\<^sup>*\<^sup>* ?v (?v\<lparr>pw_state := fold perform steps (pw_state ?v), pw_threads := (pw_threads ?v)[i := (job, Working [])]\<rparr>)"
    using Cons.prems by (intro Cons.IH) auto
  ultimately show ?case by (simp add: converse_rtranclp_into_rtranclp)
qed

definition entered :: "plugin_job \<Rightarrow> plugin_world \<Rightarrow> plugin_world" where
  "entered job w = w\<lparr>pw_state := on_arrival job (pw_state w),
     pw_threads := pw_threads w @ [(job, Working (job_steps (ps_stopped (pw_state w)) job))]\<rparr>"

definition finished_job :: "plugin_job \<Rightarrow> plugin_world \<Rightarrow> plugin_world" where
  "finished_job job w = w\<lparr>pw_state := fold perform (job_steps (ps_stopped (pw_state w)) job) (on_arrival job (pw_state w)),
     pw_threads := pw_threads w @ [(job, Returned)]\<rparr>"

lemma on_arrival_stopped [simp]: "ps_stopped (on_arrival job s) = ps_stopped s"
  by (cases job) auto

lemma enter_run:
  assumes "arrives job" "list_all (\<lambda>t. \<not> inside t) (pw_threads w)"
  shows "plugin_step\<^sup>*\<^sup>* w (entered job w)"
proof -
  let ?v = "w\<lparr>pw_state := on_arrival job (pw_state w), pw_threads := pw_threads w @ [(job, Waiting)]\<rparr>"
  have "may_enter job (pw_threads w @ [(job, Waiting)])" using assms(2) by (auto simp: may_enter_def list_all_iff)
  then have "plugin_step ?v (entered job w)"
    using plugin_step.enter [of "length (pw_threads w)" ?v job] by (simp add: entered_def)
  with plugin_step.arrive [OF assms(1), of w] show ?thesis by (meson converse_rtranclp_into_rtranclp r_into_rtranclp)
qed

lemma finished_run:
  assumes "arrives job" "list_all (\<lambda>t. \<not> inside t) (pw_threads w)"
  shows "plugin_step\<^sup>*\<^sup>* w (finished_job job w)"
proof -
  let ?n = "length (pw_threads w)" and ?e = "entered job w"
  let ?v = "?e\<lparr>pw_state := fold perform (job_steps (ps_stopped (pw_state w)) job) (pw_state ?e), pw_threads := (pw_threads ?e)[?n := (job, Working [])]\<rparr>"
  have "plugin_step\<^sup>*\<^sup>* ?e ?v" by (intro act_all) (simp_all add: entered_def)
  moreover have "plugin_step ?v (finished_job job w)"
    using plugin_step.leave [of ?n ?v job] by (simp add: entered_def finished_job_def)
  ultimately show ?thesis using enter_run [OF assms] by (meson rtranclp.rtrancl_into_rtrancl rtranclp_trans)
qed

definition idle_manager :: protectionManager where
  "idle_manager = mw_manager (manager_start defaultPluginConfig)"

definition example_lifecycle :: lifecycleRequest where
  "example_lifecycle = \<lparr>lq_Valid = True, lq_Raw = [], lq_Text = None, lq_Decoded = None, lq_Bytes = None\<rparr>"

definition example_call :: "string \<Rightarrow> plugin_call" where
  "example_call method = \<lparr>pc_Response = True, pc_Request = True, pc_Length = 2, pc_Method = Some method,
     pc_Lifecycle = example_lifecycle, pc_Accounts = [], pc_Now = 0\<rparr>"

text \<open>The plugin was initialised, registered and shut down.\<close>

definition example_down :: plugin_world where
  "example_down = finished_job Shutdown (finished_job (Call (example_call ''plugin.register''))
     (finished_job (Init True) (plugin_init idle_manager)))"

lemma example_call_arrives: "refused_before_gate (example_call method) = None"
  by (simp add: refused_before_gate_def example_call_def)

lemma finished_threads: "pw_threads (finished_job job w) = pw_threads w @ [(job, Returned)]"
  by (simp add: finished_job_def)

lemma down_stopped: "ps_stopped (pw_state (finished_job Shutdown w))" "\<not> ps_panicked (pw_state (finished_job Shutdown w))"
  by (simp_all add: finished_job_def shutdown_steps_def)

lemma example_down_threads: "pw_threads example_down = [(Init True, Returned), (Call (example_call ''plugin.register''), Returned), (Shutdown, Returned)]"
  by (simp add: example_down_def finished_threads plugin_init_def)

lemma example_down_reachable: "plugin_reachable example_down"
proof -
  let ?a = "finished_job (Init True) (plugin_init idle_manager)"
  let ?b = "finished_job (Call (example_call ''plugin.register'')) ?a"
  have "plugin_step\<^sup>*\<^sup>* (plugin_init idle_manager) ?a" by (intro finished_run) (simp_all add: plugin_init_def)
  moreover have "plugin_step\<^sup>*\<^sup>* ?a ?b"
    by (intro finished_run) (simp_all add: example_call_arrives plugin_init_def finished_job_def [of "Init True"])
  moreover have "plugin_step\<^sup>*\<^sup>* ?b example_down"
    unfolding example_down_def by (intro finished_run) (simp_all add: plugin_init_def finished_job_def)
  moreover have "protection_idle idle_manager" by (simp add: protection_idle_def idle_manager_def manager_start_def)
  ultimately show ?thesis unfolding plugin_reachable_def by (meson rtranclp_trans)
qed

section \<open>The gate\<close>

text \<open>C5: A stopped plugin serves nothing. In every interleaving of calls, initialisations, shutdowns, panics and goroutines, a call
  that is inside the gate with work to do is inside a running plugin, and whoever enters a stopped one is told so;
  while a registration, an initialisation or a shutdown is inside, nobody else is.\<close>

theorem stopped_plugin_serves_nothing:
  assumes "plugin_reachable w" "i < length (pw_threads w)" "pw_threads w ! i = (job, Working steps)"
  shows "(case job of Call c \<Rightarrow> ps_stopped (pw_state w) \<longrightarrow> steps = [] \<and> refused_inside (ps_stopped (pw_state w)) c = Some ''plugin_stopped''
            | _ \<Rightarrow> True)
     \<and> (exclusive job \<longrightarrow> (\<forall>j<length (pw_threads w). j \<noteq> i \<longrightarrow> \<not> inside (pw_threads w ! j)))"
proof -
  have inv: "plugin_inv w" by (rule plugin_reachable_inv [OF assms(1)])
  then have "thread_ok (ps_stopped (pw_state w)) (job, Working steps)" using assms(2,3) by (force simp: plugin_inv_def)
  moreover have "\<not> inside (pw_threads w ! j)" if "exclusive job" "j < length (pw_threads w)" "j \<noteq> i" for j
    using gate_held_others [of "pw_threads w" i j] inv assms(2,3) that by (simp add: plugin_inv_def)
  ultimately show ?thesis by (auto simp: refused_inside_def split: plugin_job.split)
qed

theorem stopped_plugin_serves_nothing_witness:
  "refused_inside (ps_stopped (pw_state (entered (Call (example_call ''usage.handle'')) example_down))) (example_call ''usage.handle'')
     = Some ''plugin_stopped''"
proof -
  let ?job = "Call (example_call ''usage.handle'')"
  let ?w = "entered ?job example_down"
  have down: "list_all (\<lambda>t. \<not> inside t) (pw_threads example_down)" "ps_stopped (pw_state example_down) = True"
    by (simp add: example_down_threads) (simp add: example_down_def down_stopped)
  have "plugin_step\<^sup>*\<^sup>* example_down ?w" by (rule enter_run [OF _ down(1)]) (simp add: example_call_arrives)
  then have "plugin_reachable ?w" by (rule plugin_reachable_trans [OF example_down_reachable])
  moreover have "job_steps True ?job = []" by (simp add: call_steps_def refused_inside_def)
  then have "pw_threads ?w = pw_threads example_down @ [(?job, Working [])]" unfolding entered_def down(2) by simp
  then have "pw_threads ?w ! 3 = (?job, Working [])" "3 < length (pw_threads ?w)" by (simp_all add: example_down_threads)
  moreover have "ps_stopped (pw_state ?w)" by (simp add: entered_def down(2))
  ultimately show ?thesis using stopped_plugin_serves_nothing [of ?w 3 ?job "[]"] by simp
qed



end
