(* ===== verification/Refresh_Loop.thy ===== *)
theory Refresh_Loop
  imports Prelude
begin

text \<open>
  The goroutine that keeps the scheduler state fresh (\<open>schedulerStateRefreshManager\<close> in \<open>plugin_lifecycle.go\<close>): it
  refreshes, then waits for a request; after a failure it waits for a delay that grows up to a limit. A request puts a token into a
  channel of capacity one. The lemmas: no request is lost, one that arrives during a refresh leads to another refresh,
  and the delays are those of a bounded exponential backoff.
\<close>

section \<open>The delays\<close>

text \<open>Durations are in nanoseconds.\<close>

definition schedulerRefreshRetryInitial :: int where "schedulerRefreshRetryInitial = 100 * 1000000"

definition schedulerRefreshRetryMax :: int where "schedulerRefreshRetryMax = 5 * 1000000000"

definition minDuration :: "int \<Rightarrow> int \<Rightarrow> int" where
  "minDuration left right = (if left < right then left else right)"

text \<open>What \<open>configure\<close> makes of the two fields of the manager, which are zero unless a test sets them.\<close>

definition refresh_delays :: "int \<Rightarrow> int \<Rightarrow> int \<times> int" where
  "refresh_delays retryInitial retryMax =
     (let i = (if retryInitial \<le> 0 then schedulerRefreshRetryInitial else retryInitial);
          m = (if retryMax \<le> 0 then schedulerRefreshRetryMax else retryMax)
      in (i, if m < i then i else m))"

definition next_delay :: "int \<Rightarrow> int \<Rightarrow> int" where
  "next_delay retryMax delay = (if delay < retryMax then minDuration (delay * 2) retryMax else delay)"

section \<open>The loop\<close>

datatype refresh_phase = Refreshing | Resting | Delaying | Gone

text \<open>
  \<open>rf_wake\<close>: the channel holds a token. The counters are not part of the program: the refreshes begun, the steps of the
  goroutine, and the delays waited for since the last success.
\<close>

record refresh_loop =
  rf_phase :: refresh_phase
  rf_delay :: int
  rf_wake :: bool
  rf_cancelled :: bool
  rf_starts :: nat
  rf_turns :: nat
  rf_failures :: nat

definition refresh_start :: "int \<Rightarrow> refresh_loop" where
  "refresh_start retryInitial = \<lparr>rf_phase = Refreshing, rf_delay = retryInitial, rf_wake = False, rf_cancelled = False,
     rf_starts = 1, rf_turns = 0, rf_failures = 0\<rparr>"

text \<open>A stopped manager has no channel, and the request is dropped.\<close>

definition requestRefresh :: "refresh_loop \<Rightarrow> refresh_loop" where
  "requestRefresh s = (if rf_cancelled s then s else s\<lparr>rf_wake := True\<rparr>)"

definition turn :: "refresh_loop \<Rightarrow> refresh_loop" where
  "turn s = s\<lparr>rf_turns := rf_turns s + 1\<rparr>"

definition begin_refresh :: "refresh_loop \<Rightarrow> refresh_loop" where
  "begin_refresh s = s\<lparr>rf_phase := Refreshing, rf_starts := rf_starts s + 1\<rparr>"

text \<open>Of several cases that are ready \<open>select\<close> takes any: a delay that is over, or a token, may win over the cancellation.\<close>

inductive refresh_step :: "int \<Rightarrow> int \<Rightarrow> refresh_loop \<Rightarrow> refresh_loop \<Rightarrow> bool" for retryInitial retryMax where
  request: "refresh_step retryInitial retryMax s (requestRefresh s)"
| stop: "refresh_step retryInitial retryMax s (s\<lparr>rf_cancelled := True\<rparr>)"
| succeeded: "rf_phase s = Refreshing \<Longrightarrow> \<not> rf_cancelled s \<Longrightarrow>
    refresh_step retryInitial retryMax s (turn (s\<lparr>rf_phase := Resting, rf_delay := retryInitial, rf_failures := 0\<rparr>))"
| failed: "rf_phase s = Refreshing \<Longrightarrow> \<not> rf_cancelled s \<Longrightarrow>
    refresh_step retryInitial retryMax s (turn (s\<lparr>rf_phase := Delaying\<rparr>))"
| abandoned: "rf_phase s = Refreshing \<Longrightarrow> rf_cancelled s \<Longrightarrow> refresh_step retryInitial retryMax s (turn (s\<lparr>rf_phase := Gone\<rparr>))"
| woken: "rf_phase s = Resting \<Longrightarrow> rf_wake s \<Longrightarrow>
    refresh_step retryInitial retryMax s (turn (begin_refresh (s\<lparr>rf_wake := False\<rparr>)))"
| delayed: "rf_phase s = Delaying \<Longrightarrow>
    refresh_step retryInitial retryMax s
      (turn (begin_refresh (s\<lparr>rf_delay := next_delay retryMax (rf_delay s), rf_failures := rf_failures s + 1\<rparr>)))"
| ended: "rf_phase s \<in> {Resting, Delaying} \<Longrightarrow> rf_cancelled s \<Longrightarrow> refresh_step retryInitial retryMax s (turn (s\<lparr>rf_phase := Gone\<rparr>))"

lemmas refresh_defs = requestRefresh_def turn_def begin_refresh_def

lemma gone_cancelled:
  "(refresh_step i m)\<^sup>*\<^sup>* (refresh_start d) s \<Longrightarrow> rf_phase s = Gone \<Longrightarrow> rf_cancelled s"
proof (induction rule: rtranclp_induct)
  case base
  then show ?case by (simp add: refresh_start_def)
next
  case (step s t)
  from step(2) show ?case using step(3,4) by cases (auto simp: refresh_defs split: if_splits)
qed

text \<open>What holds after a request until the next refresh begins.\<close>

definition unserved :: "refresh_loop \<Rightarrow> refresh_loop \<Rightarrow> bool" where
  "unserved s t \<longleftrightarrow> rf_wake t
     \<and> (rf_turns t = rf_turns s \<and> rf_phase t = rf_phase s
      \<or> rf_turns t = Suc (rf_turns s) \<and> rf_phase s = Refreshing \<and> rf_phase t \<in> {Resting, Delaying})"

lemma served_or_unserved:
  assumes "(refresh_step i m)\<^sup>*\<^sup>* s t" "rf_wake s" "\<not> rf_cancelled t"
  shows "rf_starts s < rf_starts t \<or> rf_starts t = rf_starts s \<and> unserved s t"
  using assms(1,3)
proof (induction rule: rtranclp_induct)
  case base
  then show ?case using assms(2) by (simp add: unserved_def)
next
  case (step t u)
  have "\<not> rf_cancelled t" using step(2,4) by cases (auto simp: refresh_defs split: if_splits)
  with step(3) show ?case using step(2,4) by (elim refresh_step.cases) (auto simp: refresh_defs unserved_def)
qed

section \<open>Properties\<close>

text \<open>C6: No request to refresh is lost. After a request, however requests, results and delays follow, as long as the goroutine is not
  stopped it can go on, and by the time it has made two steps a refresh that began after the request is under way.\<close>

theorem refresh_request_served:
  assumes "(refresh_step i m)\<^sup>*\<^sup>* (refresh_start i) s" "\<not> rf_cancelled s"
    and "(refresh_step i m)\<^sup>*\<^sup>* (requestRefresh s) t" "\<not> rf_cancelled t"
  shows "(rf_turns s + 2 \<le> rf_turns t \<longrightarrow> rf_starts s < rf_starts t)
     \<and> (rf_starts t = rf_starts s \<longrightarrow> (\<exists>u. refresh_step i m t u \<and> rf_turns u = rf_turns t + 1))"
proof -
  let ?r = "requestRefresh s"
  have same: "rf_turns ?r = rf_turns s" "rf_starts ?r = rf_starts s" "rf_phase ?r = rf_phase s" "rf_wake ?r"
    using assms(2) by (simp_all add: requestRefresh_def)
  from served_or_unserved [OF assms(3) same(4) assms(4)]
  have cases: "rf_starts s < rf_starts t \<or> rf_starts t = rf_starts s \<and> unserved ?r t" by (simp add: same)
  have "rf_phase s \<noteq> Gone" using gone_cancelled [OF assms(1)] assms(2) by auto
  moreover have "\<exists>u. refresh_step i m t u \<and> rf_turns u = rf_turns t + 1" if "rf_phase t \<noteq> Gone" "rf_wake t"
    using that refresh_step.succeeded [of t i m] refresh_step.woken [of t i m] refresh_step.delayed [of t i m] assms(4)
    by (cases "rf_phase t") (force simp: refresh_defs)+
  ultimately show ?thesis using cases by (auto simp: unserved_def same)
qed

lemma example_refreshing:
  "(refresh_step 1 8)\<^sup>*\<^sup>* (requestRefresh (refresh_start 1)) (turn (begin_refresh (turn (refresh_start 1))))"
proof -
  let ?rest = "turn ((requestRefresh (refresh_start 1))\<lparr>rf_phase := Resting, rf_delay := 1, rf_failures := 0\<rparr>)"
  have "refresh_step 1 8 (requestRefresh (refresh_start 1)) ?rest"
    by (rule refresh_step.succeeded) (simp_all add: refresh_defs refresh_start_def)
  moreover have "refresh_step 1 8 ?rest (turn (begin_refresh (?rest\<lparr>rf_wake := False\<rparr>)))"
    by (rule refresh_step.woken) (simp_all add: refresh_defs refresh_start_def)
  moreover have "turn (begin_refresh (?rest\<lparr>rf_wake := False\<rparr>)) = turn (begin_refresh (turn (refresh_start 1)))"
    by (simp add: refresh_defs refresh_start_def)
  ultimately show ?thesis by (metis r_into_rtranclp rtranclp.rtrancl_into_rtrancl)
qed

theorem refresh_request_served_witness:
  "rf_starts (refresh_start 1) < rf_starts (turn (begin_refresh (turn (refresh_start 1))))"
  using refresh_request_served [of 1 8 "refresh_start 1", OF _ _ example_refreshing]
  by (simp add: refresh_defs refresh_start_def)

text \<open>The delays back off and are bounded. With the delays \<open>configure\<close> computes, the delay after \<open>n\<close> failures in a row is the
  first one doubled \<open>n\<close> times, but never more than the greatest, and a success makes it the first one again.\<close>

theorem refresh_backoff_bounded:
  assumes "refresh_delays retryInitial retryMax = (i, m)" "(refresh_step i m)\<^sup>*\<^sup>* (refresh_start i) s"
  shows "rf_delay s = min (i * 2 ^ rf_failures s) m \<and> 0 < i \<and> i \<le> rf_delay s \<and> rf_delay s \<le> m
     \<and> (rf_phase s = Resting \<longrightarrow> rf_delay s = i)"
proof -
  have im: "0 < i" "i \<le> m" using assms(1)
    by (auto simp: refresh_delays_def Let_def schedulerRefreshRetryInitial_def schedulerRefreshRetryMax_def split: if_splits)
  from assms(2) have "rf_delay s = min (i * 2 ^ rf_failures s) m \<and> (rf_phase s = Resting \<longrightarrow> rf_failures s = 0)"
  proof (induction rule: rtranclp_induct)
    case base
    then show ?case using im by (simp add: refresh_start_def)
  next
    case (step s t)
    have "next_delay m (rf_delay s) = min (i * 2 ^ Suc (rf_failures s)) m"
      using step(3) im by (auto simp: next_delay_def minDuration_def min_def)
    with step(2,3) show ?case using im by (cases) (auto simp: refresh_defs)
  qed
  moreover have "i \<le> i * 2 ^ rf_failures s" using im by simp
  ultimately show ?thesis using im by (auto simp: min_def)
qed

theorem refresh_backoff_bounded_witness:
  "refresh_delays 0 0 = (100000000, 5000000000) \<and> rf_delay (refresh_start 100000000) \<le> 5000000000"
proof -
  have d: "refresh_delays 0 0 = (100000000, 5000000000)"
    by (simp add: refresh_delays_def schedulerRefreshRetryInitial_def schedulerRefreshRetryMax_def)
  with refresh_backoff_bounded [OF d, of "refresh_start 100000000"] show ?thesis by simp
qed

end
