(* ===== verification/Retention.thy ===== *)
theory Retention
  imports Quota_Windows Redact Config
begin

text \<open>
  The cleaner that deletes old usage events and quota runs in batches (\<open>diagnostics.go\<close>). A batch deletes the oldest ids first; a
  pass is limited in batches and time, and the next pass comes soon when one stopped at a limit. The lemmas: a pass deletes
  expired rows only, in order and never more than its limit, it says truly whether expired rows are left, and
  passes that are repeated while they report more work come to an end.
\<close>

section \<open>Batches\<close>

text \<open>A \<open>DELETE\<close> of the first rows, in the order of their ids, that a condition selects.\<close>

fun delete_first :: "('a \<Rightarrow> bool) \<Rightarrow> nat \<Rightarrow> 'a list \<Rightarrow> 'a list" where
  "delete_first p n [] = []"
| "delete_first p n (x # xs) = (if p x \<and> 0 < n then delete_first p (n - 1) xs else x # delete_first p n xs)"

definition retentionBatchSize :: nat where "retentionBatchSize = 5000"

definition retentionMaxBatchesPerTable :: nat where "retentionMaxBatchesPerTable = 4"

definition retentionMaxTimePerTable :: int where "retentionMaxTimePerTable = 1000000000"

text \<open>
  What the batches meet: the error of the statement, the error of asking for the number of deleted rows, the time since the start before and after
  each batch, and whether the context is cancelled in the pause after it.
\<close>

record batch_env =
  be_exec :: "nat \<Rightarrow> string option"
  be_affected :: "nat \<Rightarrow> string option"
  be_before :: "nat \<Rightarrow> int"
  be_after :: "nat \<Rightarrow> int"
  be_pause :: "nat \<Rightarrow> string option"

record 'a batch_result =
  br_total :: nat
  br_more :: bool
  br_error :: "string option"
  br_rows :: "'a list"

definition batch_size :: "nat \<Rightarrow> nat" where
  "batch_size n = (if n = 0 then retentionBatchSize else n)"

lemma batch_size_pos [simp]: "0 < batch_size n"
  by (simp add: batch_size_def retentionBatchSize_def)

lemma length_delete_first: "length (delete_first p n xs) + min n (length (filter p xs)) = length xs"
proof (induction p n xs rule: delete_first.induct)
  case (2 p n x xs)
  then show ?case by (cases n) auto
qed simp

lemma deleted_rows: "length xs - length (delete_first p n xs) = min n (length (filter p xs))"
  using length_delete_first [of p n xs] by simp

text \<open>The loop of \<open>execDeleteBatchesLimited\<close>, with the rows deleted so far.\<close>

function delete_batches ::
  "batch_env \<Rightarrow> ('a \<Rightarrow> bool) \<Rightarrow> nat \<Rightarrow> nat \<Rightarrow> int \<Rightarrow> nat \<Rightarrow> nat \<Rightarrow> 'a list \<Rightarrow> 'a batch_result" where
  "delete_batches be p batchSize maxBatches maxDuration batch sofar rows =
     (if 0 < maxBatches \<and> maxBatches \<le> batch \<or> 0 < maxDuration \<and> 0 < batch \<and> maxDuration \<le> be_before be batch
      then \<lparr>br_total = sofar, br_more = True, br_error = None, br_rows = rows\<rparr>
      else case be_exec be batch of
             Some err \<Rightarrow> \<lparr>br_total = sofar, br_more = False, br_error = Some err, br_rows = rows\<rparr>
           | None \<Rightarrow>
               let rest = delete_first p (batch_size batchSize) rows; deleted = length rows - length rest
               in case be_affected be batch of
                    Some err \<Rightarrow> \<lparr>br_total = sofar, br_more = False, br_error = Some err, br_rows = rest\<rparr>
                  | None \<Rightarrow>
                      if deleted < batch_size batchSize
                      then \<lparr>br_total = sofar + deleted, br_more = False, br_error = None, br_rows = rest\<rparr>
                      else if 0 < maxBatches \<and> maxBatches \<le> batch + 1 \<or> 0 < maxDuration \<and> maxDuration \<le> be_after be batch
                      then \<lparr>br_total = sofar + deleted, br_more = True, br_error = None, br_rows = rest\<rparr>
                      else case be_pause be batch of
                             Some err \<Rightarrow> \<lparr>br_total = sofar + deleted, br_more = False, br_error = Some err, br_rows = rest\<rparr>
                           | None \<Rightarrow> delete_batches be p batchSize maxBatches maxDuration (batch + 1) (sofar + deleted) rest)"
  by pat_completeness auto

termination
proof (relation "measure (\<lambda>(be, p, batchSize, maxBatches, maxDuration, batch, sofar, rows). length rows)")
  fix be :: batch_env and p :: "'a \<Rightarrow> bool" and batchSize maxBatches batch sofar :: nat and maxDuration :: int and rows rest :: "'a list" and deleted
  assume "rest = delete_first p (batch_size batchSize) rows" "deleted = length rows - length rest" "\<not> deleted < batch_size batchSize"
  then have "0 < length rows - length rest" using batch_size_pos [of batchSize] by linarith
  then show "((be, p, batchSize, maxBatches, maxDuration, batch + 1, sofar + deleted, rest), (be, p, batchSize, maxBatches, maxDuration, batch, sofar, rows))
      \<in> measure (\<lambda>(be, p, batchSize, maxBatches, maxDuration, batch, sofar, rows). length rows)" by simp
qed simp

declare delete_batches.simps [simp del]

definition execDeleteBatchesLimited ::
  "batch_env \<Rightarrow> ('a \<Rightarrow> bool) \<Rightarrow> nat \<Rightarrow> nat \<Rightarrow> int \<Rightarrow> 'a list \<Rightarrow> 'a batch_result" where
  "execDeleteBatchesLimited be p batchSize maxBatches maxDuration rows = delete_batches be p batchSize maxBatches maxDuration 0 0 rows"

definition execDeleteBatches :: "batch_env \<Rightarrow> ('a \<Rightarrow> bool) \<Rightarrow> nat \<Rightarrow> 'a list \<Rightarrow> nat \<times> string option \<times> 'a list" where
  "execDeleteBatches be p batchSize rows =
     (let r = execDeleteBatchesLimited be p batchSize 0 0 rows in (br_total r, br_error r, br_rows r))"

section \<open>A pass\<close>

record retentionState =
  rt_CatchUpPending :: bool
  rt_LastRunAt :: int
  rt_LastError :: string
  rt_LastUsageDeleted :: nat
  rt_LastQuotaTriggerDeleted :: nat
  rt_LastSizeBefore :: int
  rt_LastSizeAfter :: int

text \<open>\<open>re_open\<close> is the error of opening the store, \<open>re_cancelled\<close> whether the context was cancelled when an error came, and the sizes are those
  of the database files.\<close>

record retention_env =
  rv_open :: "string option"
  rv_cancelled :: bool
  rv_now :: int
  rv_usage :: batch_env
  rv_trigger :: batch_env
  rv_before :: int
  rv_after :: int

definition expired_event :: "retention_env \<Rightarrow> pluginConfig \<Rightarrow> usage_event \<Rightarrow> bool" where
  "expired_event rv cfg e \<longleftrightarrow> ev_RequestedAt e < rv_now rv - cf_UsageRetentionDays cfg * 86400"

definition expired_run :: "retention_env \<Rightarrow> pluginConfig \<Rightarrow> int \<times> quotaTriggerRun \<Rightarrow> bool" where
  "expired_run rv cfg r \<longleftrightarrow> qr_FinishedAt (snd r) < rv_now rv - cf_QuotaTriggerRetentionDays cfg * 86400"

definition retention_record ::
  "retention_env \<Rightarrow> string option \<Rightarrow> nat \<Rightarrow> nat \<Rightarrow> int \<Rightarrow> int \<Rightarrow> bool \<Rightarrow> retentionState" where
  "retention_record rv err usageDeleted triggerDeleted before after catchUpPending =
     \<lparr>rt_CatchUpPending = catchUpPending, rt_LastRunAt = rv_now rv,
      rt_LastError = (case err of Some e \<Rightarrow> sanitizeTriggerError e | None \<Rightarrow> []),
      rt_LastUsageDeleted = usageDeleted, rt_LastQuotaTriggerDeleted = triggerDeleted,
      rt_LastSizeBefore = before, rt_LastSizeAfter = after\<rparr>"

text \<open>\<open>retentionCleaner.run\<close>: whether more is to be done, the state it records unless it was cancelled, and the tables.\<close>

definition retention_run ::
  "retention_env \<Rightarrow> pluginConfig \<Rightarrow> retentionState \<Rightarrow> usage_db \<Rightarrow> bool \<times> retentionState \<times> usage_db" where
  "retention_run rv cfg s db =
     (let failed = (\<lambda>err usage trigger before after db'.
            if rv_cancelled rv then (False, s, db') else (True, retention_record rv (Some err) usage trigger before after True, db'))
      in case rv_open rv of
           Some err \<Rightarrow> failed err 0 0 0 0 db
         | None \<Rightarrow>
             let usage = execDeleteBatchesLimited (rv_usage rv) (expired_event rv cfg) retentionBatchSize retentionMaxBatchesPerTable
                           retentionMaxTimePerTable (us_events db);
                 db1 = db\<lparr>us_events := br_rows usage\<rparr>
             in case br_error usage of
                  Some err \<Rightarrow> failed err (br_total usage) 0 (rv_before rv) (rv_after rv) db1
                | None \<Rightarrow>
                    let trigger = execDeleteBatchesLimited (rv_trigger rv) (expired_run rv cfg) retentionBatchSize retentionMaxBatchesPerTable
                                    retentionMaxTimePerTable (us_runs db1);
                        db2 = db1\<lparr>us_runs := br_rows trigger\<rparr>
                    in case br_error trigger of
                         Some err \<Rightarrow> failed err (br_total usage) (br_total trigger) (rv_before rv) (rv_after rv) db2
                       | None \<Rightarrow>
                           let again = br_more usage \<or> br_more trigger
                           in (again, retention_record rv None (br_total usage) (br_total trigger) (rv_before rv) (rv_after rv) again, db2))"

text \<open>When the loop comes back, in seconds.\<close>

definition retentionRegularInterval :: int where "retentionRegularInterval = 24 * 3600"

definition retentionCatchUpInterval :: int where "retentionCatchUpInterval = 30"

definition retentionErrorRetryInterval :: int where "retentionErrorRetryInterval = 5 * 60"

definition retention_next :: "bool \<Rightarrow> retentionState \<Rightarrow> int" where
  "retention_next again s =
     (if \<not> again then retentionRegularInterval
      else if rt_LastError s \<noteq> [] then retentionErrorRetryInterval
      else retentionCatchUpInterval)"

section \<open>What a pass deletes\<close>

lemma delete_first_keeps [simp]: "filter (\<lambda>x. \<not> p x) (delete_first p n xs) = filter (\<lambda>x. \<not> p x) xs"
  by (induction p n xs rule: delete_first.induct) auto

lemma filter_delete_first [simp]: "filter p (delete_first p n xs) = drop n (filter p xs)"
proof (induction p n xs rule: delete_first.induct)
  case (2 p n x xs)
  then show ?case by (cases n) auto
qed simp

lemma delete_first_add: "delete_first p m (delete_first p n xs) = delete_first p (n + m) xs"
proof (induction xs arbitrary: n m)
  case (Cons x xs)
  then show ?case by (cases n) auto
qed simp

lemma delete_first_0 [simp]: "delete_first p 0 xs = xs"
  by (induction xs) auto

lemma delete_first_min: "delete_first p (min n (length (filter p xs))) xs = delete_first p n xs"
proof (induction p n xs rule: delete_first.induct)
  case (2 p n x xs)
  have stay: "delete_first p 0 (x # xs) = x # xs" by simp
  from 2 show ?case by (cases n) (auto simp: min_def)
qed simp

definition batches_ok :: "('a \<Rightarrow> bool) \<Rightarrow> 'a list \<Rightarrow> nat \<Rightarrow> 'a batch_result \<Rightarrow> bool" where
  "batches_ok p rows sofar r \<longleftrightarrow> sofar \<le> br_total r
     \<and> (br_error r = None \<longrightarrow> br_rows r = delete_first p (br_total r - sofar) rows)
     \<and> (\<exists>n. br_rows r = delete_first p n rows)
     \<and> br_total r \<le> sofar + length (filter p rows)
     \<and> (br_error r = None \<and> \<not> br_more r \<longrightarrow> filter p (br_rows r) = [])"

lemma batches_ok_later:
  assumes "batches_ok p (delete_first p n rows) (sofar + n) r" "n \<le> length (filter p rows)"
  shows "batches_ok p rows sofar r"
proof -
  have le: "sofar + n \<le> br_total r" using assms by (simp add: batches_ok_def)
  then have "delete_first p (br_total r - (sofar + n)) (delete_first p n rows) = delete_first p (br_total r - sofar) rows"
    by (simp add: delete_first_add)
  with assms have rows: "br_error r = None \<longrightarrow> br_rows r = delete_first p (br_total r - sofar) rows"
    unfolding batches_ok_def by metis
  have ex: "\<exists>k. br_rows r = delete_first p k rows" using assms by (auto simp: batches_ok_def delete_first_add)
  have left: "br_error r = None \<and> \<not> br_more r \<longrightarrow> filter p (br_rows r) = []" using assms
    unfolding batches_ok_def by blast
  have most: "br_total r \<le> sofar + length (filter p rows)" using assms by (simp add: batches_ok_def)
  show ?thesis unfolding batches_ok_def using le by (intro conjI rows ex left most) simp
qed

lemma delete_batches_ok: "batches_ok p rows sofar (delete_batches be p batchSize maxBatches maxDuration batch sofar rows)"
proof (induction be p batchSize maxBatches maxDuration batch sofar rows rule: delete_batches.induct)
  case (1 be p batchSize maxBatches maxDuration batch sofar rows)
  let ?b = "batch_size batchSize"
  let ?rest = "delete_first p ?b rows"
  let ?deleted = "length rows - length ?rest"
  have deleted: "?deleted = min ?b (length (filter p rows))" by (rule deleted_rows)
  have rest: "?rest = delete_first p ?deleted rows" by (simp add: deleted delete_first_min)
  have done_here: "batches_ok p rows sofar \<lparr>br_total = sofar + ?deleted, br_more = again, br_error = err, br_rows = ?rest\<rparr>"
    if "again \<or> err \<noteq> None \<or> ?deleted < ?b" for again err
    using that rest deleted by (auto simp: batches_ok_def)
  have "batches_ok p rows sofar \<lparr>br_total = sofar, br_more = again, br_error = err, br_rows = rows\<rparr>" if "again \<or> err \<noteq> None" for again err
    using that by (auto simp: batches_ok_def intro: exI [of _ 0])
  moreover have "batches_ok p rows sofar \<lparr>br_total = sofar, br_more = False, br_error = Some err, br_rows = ?rest\<rparr>" for err
    by (auto simp: batches_ok_def)
  moreover have "batches_ok p rows sofar (delete_batches be p batchSize maxBatches maxDuration (batch + 1) (sofar + ?deleted) ?rest)"
    if "\<not> (0 < maxBatches \<and> maxBatches \<le> batch \<or> 0 < maxDuration \<and> 0 < batch \<and> maxDuration \<le> be_before be batch)"
      "be_exec be batch = None" "be_affected be batch = None" "\<not> ?deleted < ?b"
      "\<not> (0 < maxBatches \<and> maxBatches \<le> batch + 1 \<or> 0 < maxDuration \<and> maxDuration \<le> be_after be batch)" "be_pause be batch = None"
    using "1.IH" [OF that(1,2) refl refl that(3-6)] rest batches_ok_later [of p ?deleted rows sofar] deleted by simp
  ultimately show ?case using done_here
    by (subst delete_batches.simps) (auto simp: Let_def split: option.splits)
qed

text \<open>A pass that stopped at a limit has deleted at least one full batch, and no pass deletes more than its batches hold.\<close>

lemma delete_batches_bound:
  "0 < maxBatches \<Longrightarrow> batch \<le> maxBatches \<Longrightarrow>
   br_total (delete_batches be p batchSize maxBatches maxDuration batch sofar rows) \<le> sofar + (maxBatches - batch) * batch_size batchSize"
proof (induction be p batchSize maxBatches maxDuration batch sofar rows rule: delete_batches.induct)
  case (1 be p batchSize maxBatches maxDuration batch sofar rows)
  let ?b = "batch_size batchSize"
  let ?deleted = "length rows - length (delete_first p ?b rows)"
  have deleted: "?deleted \<le> ?b" by (simp add: deleted_rows)
  show ?case
  proof (cases "batch = maxBatches")
    case True
    then show ?thesis using 1(2) by (subst delete_batches.simps) simp
  next
    case False
    then have "batch + 1 \<le> maxBatches" using 1(3) by simp
    then have one: "?b + (maxBatches - (batch + 1)) * ?b = (maxBatches - batch) * ?b"
      by (metis Suc_eq_plus1 Suc_diff_le diff_Suc_Suc mult_Suc)
    have "br_total (delete_batches be p batchSize maxBatches maxDuration (batch + 1) (sofar + ?deleted) (delete_first p ?b rows))
        \<le> sofar + (maxBatches - batch) * ?b"
      if "\<not> (0 < maxBatches \<and> maxBatches \<le> batch \<or> 0 < maxDuration \<and> 0 < batch \<and> maxDuration \<le> be_before be batch)"
      "be_exec be batch = None" "be_affected be batch = None" "\<not> ?deleted < ?b"
      "\<not> (0 < maxBatches \<and> maxBatches \<le> batch + 1 \<or> 0 < maxDuration \<and> maxDuration \<le> be_after be batch)" "be_pause be batch = None"
      using "1.IH" [OF that(1,2) refl refl that(3-6) 1(2)] \<open>batch + 1 \<le> maxBatches\<close> deleted one by simp
    moreover have "?deleted \<le> (maxBatches - batch) * ?b" using deleted one by linarith
    ultimately show ?thesis by (subst delete_batches.simps) (auto simp: Let_def split: option.splits)
  qed
qed

lemma delete_batches_progress:
  assumes "br_more (execDeleteBatchesLimited be p batchSize maxBatches maxDuration rows)" "0 < maxBatches"
  shows "batch_size batchSize \<le> br_total (execDeleteBatchesLimited be p batchSize maxBatches maxDuration rows)"
proof -
  let ?rest = "delete_first p (batch_size batchSize) rows"
  let ?d = "length rows - length ?rest"
  have later: "?d \<le> br_total (delete_batches be p batchSize maxBatches maxDuration 1 ?d ?rest)"
    using delete_batches_ok [of p ?rest ?d be batchSize maxBatches maxDuration 1] by (simp add: batches_ok_def)
  define r where "r = delete_batches be p batchSize maxBatches maxDuration 1 ?d ?rest"
  define d where "d = ?d"
  have once: "delete_batches be p batchSize maxBatches maxDuration 0 0 rows =
     (case be_exec be 0 of
        Some err \<Rightarrow> \<lparr>br_total = 0, br_more = False, br_error = Some err, br_rows = rows\<rparr>
      | None \<Rightarrow> case be_affected be 0 of
          Some err \<Rightarrow> \<lparr>br_total = 0, br_more = False, br_error = Some err, br_rows = ?rest\<rparr>
        | None \<Rightarrow>
            if d < batch_size batchSize then \<lparr>br_total = d, br_more = False, br_error = None, br_rows = ?rest\<rparr>
            else if 0 < maxBatches \<and> maxBatches \<le> 1 \<or> 0 < maxDuration \<and> maxDuration \<le> be_after be 0
            then \<lparr>br_total = d, br_more = True, br_error = None, br_rows = ?rest\<rparr>
            else case be_pause be 0 of
                   Some err \<Rightarrow> \<lparr>br_total = d, br_more = False, br_error = Some err, br_rows = ?rest\<rparr>
                 | None \<Rightarrow> r)"
    unfolding r_def d_def by (subst delete_batches.simps) (use assms(2) in \<open>auto simp: Let_def split: option.split\<close>)
  have "d \<le> br_total r" using later unfolding r_def d_def .
  then show ?thesis using assms(1) unfolding execDeleteBatchesLimited_def once
    by (auto split: option.splits if_splits)
qed

lemma limited_ok: "batches_ok p rows 0 (execDeleteBatchesLimited be p batchSize maxBatches maxDuration rows)"
  unfolding execDeleteBatchesLimited_def by (rule delete_batches_ok)

lemma limited_bound:
  "0 < maxBatches \<Longrightarrow> br_total (execDeleteBatchesLimited be p batchSize maxBatches maxDuration rows) \<le> maxBatches * batch_size batchSize"
  using delete_batches_bound [of maxBatches 0 be p batchSize maxDuration 0 rows] by (simp add: execDeleteBatchesLimited_def)

lemma limited_rows:
  assumes "r = execDeleteBatchesLimited be p batchSize maxBatches maxDuration rows"
  shows "filter (\<lambda>x. \<not> p x) (br_rows r) = filter (\<lambda>x. \<not> p x) rows"
    "br_error r = None \<Longrightarrow> br_rows r = delete_first p (br_total r) rows"
    "br_error r = None \<Longrightarrow> \<not> br_more r \<Longrightarrow> filter p (br_rows r) = []"
  using limited_ok [of p rows be batchSize maxBatches maxDuration] unfolding assms [symmetric] batches_ok_def by auto

lemma limited_length:
  assumes "r = execDeleteBatchesLimited be p batchSize maxBatches maxDuration rows" "br_error r = None"
  shows "length (br_rows r) + br_total r = length rows"
  using limited_ok [of p rows be batchSize maxBatches maxDuration] length_delete_first [of p "br_total r" rows] assms(2)
  unfolding assms(1) [symmetric] batches_ok_def by simp

lemma batch_limit:
  "0 < retentionMaxBatchesPerTable" "batch_size retentionBatchSize = 5000" "retentionMaxBatchesPerTable * batch_size retentionBatchSize = 20000"
  by (simp_all add: retentionMaxBatchesPerTable_def batch_size_def retentionBatchSize_def)

section \<open>Catching up\<close>

text \<open>The passes the loop makes one after the other while they report that more is to be done.\<close>

fun catch_up :: "pluginConfig \<Rightarrow> retention_env list \<Rightarrow> retentionState \<Rightarrow> usage_db \<Rightarrow> nat \<times> bool \<times> usage_db" where
  "catch_up cfg [] s db = (0, True, db)"
| "catch_up cfg (rv # rvs) s db =
     (let (again, s', db') = retention_run rv cfg s db
      in if again then (let (n, more', db'') = catch_up cfg rvs s' db' in (Suc n, more', db'')) else (1, False, db'))"

definition undisturbed :: "batch_env \<Rightarrow> bool" where
  "undisturbed be \<longleftrightarrow> (\<forall>n. be_exec be n = None \<and> be_affected be n = None \<and> be_pause be n = None)"

lemma undisturbed_no_error:
  "undisturbed be \<Longrightarrow> br_error (delete_batches be p batchSize maxBatches maxDuration batch sofar rows) = None"
proof (induction be p batchSize maxBatches maxDuration batch sofar rows rule: delete_batches.induct)
  case (1 be p batchSize maxBatches maxDuration batch sofar rows)
  then show ?case by (subst delete_batches.simps) (auto simp: Let_def undisturbed_def)
qed

lemma pass_shrinks:
  assumes "retention_run rv cfg s db = (True, s', db')" "rv_open rv = None" "undisturbed (rv_usage rv)" "undisturbed (rv_trigger rv)"
  shows "length (us_events db') + length (us_runs db') + 5000 \<le> length (us_events db) + length (us_runs db)"
proof -
  let ?u = "execDeleteBatchesLimited (rv_usage rv) (expired_event rv cfg) retentionBatchSize retentionMaxBatchesPerTable
              retentionMaxTimePerTable (us_events db)"
  let ?t = "execDeleteBatchesLimited (rv_trigger rv) (expired_run rv cfg) retentionBatchSize retentionMaxBatchesPerTable
              retentionMaxTimePerTable (us_runs db)"
  have clean: "br_error ?u = None" "br_error ?t = None"
    using assms(3,4) undisturbed_no_error by (auto simp: execDeleteBatchesLimited_def)
  have after: "us_events db' = br_rows ?u" "us_runs db' = br_rows ?t" "br_more ?u \<or> br_more ?t"
    using assms(1,2) clean by (auto simp: retention_run_def Let_def)
  have "5000 \<le> br_total ?u + br_total ?t"
    using after(3) delete_batches_progress [OF _ batch_limit(1), of "rv_usage rv" "expired_event rv cfg" retentionBatchSize]
      delete_batches_progress [OF _ batch_limit(1), of "rv_trigger rv" "expired_run rv cfg" retentionBatchSize] unfolding batch_limit(2)
    by (meson trans_le_add1 trans_le_add2)
  then show ?thesis using limited_length [OF refl clean(1)] limited_length [OF refl clean(2)] after(1,2) by simp
qed

lemma pass_finishes:
  assumes "retention_run rv cfg s db = (False, s', db')" "rv_open rv = None" "undisturbed (rv_usage rv)" "undisturbed (rv_trigger rv)"
  shows "filter (expired_event rv cfg) (us_events db') = [] \<and> filter (expired_run rv cfg) (us_runs db') = []
     \<and> length (us_events db') + length (us_runs db') \<le> length (us_events db) + length (us_runs db)"
proof -
  let ?u = "execDeleteBatchesLimited (rv_usage rv) (expired_event rv cfg) retentionBatchSize retentionMaxBatchesPerTable
              retentionMaxTimePerTable (us_events db)"
  let ?t = "execDeleteBatchesLimited (rv_trigger rv) (expired_run rv cfg) retentionBatchSize retentionMaxBatchesPerTable
              retentionMaxTimePerTable (us_runs db)"
  have clean: "br_error ?u = None" "br_error ?t = None"
    using assms(3,4) undisturbed_no_error by (auto simp: execDeleteBatchesLimited_def)
  have after: "us_events db' = br_rows ?u" "us_runs db' = br_rows ?t" "\<not> br_more ?u" "\<not> br_more ?t"
    using assms(1,2) clean by (auto simp: retention_run_def Let_def)
  show ?thesis using limited_length [OF refl clean(1)] limited_length [OF refl clean(2)] limited_rows(3) [OF refl clean(1) after(3)]
      limited_rows(3) [OF refl clean(2) after(4)] after(1,2) by simp
qed

lemma catch_up_ends:
  assumes "\<forall>rv \<in> set rvs. rv_open rv = None \<and> undisturbed (rv_usage rv) \<and> undisturbed (rv_trigger rv)"
    "length (us_events db) + length (us_runs db) < 5000 * length rvs"
  shows "\<exists>n db'. catch_up cfg rvs s db = (Suc n, False, db') \<and> n < length rvs
      \<and> 5000 * n + length (us_events db') + length (us_runs db') \<le> length (us_events db) + length (us_runs db)
      \<and> filter (expired_event (rvs ! n) cfg) (us_events db') = [] \<and> filter (expired_run (rvs ! n) cfg) (us_runs db') = []"
  using assms
proof (induction rvs arbitrary: s db)
  case (Cons rv rvs)
  obtain again s' db' where pass: "retention_run rv cfg s db = (again, s', db')" by (cases "retention_run rv cfg s db") auto
  have quiet: "rv_open rv = None" "undisturbed (rv_usage rv)" "undisturbed (rv_trigger rv)" using Cons.prems(1) by auto
  show ?case
  proof (cases again)
    case True
    have shrinks: "length (us_events db') + length (us_runs db') + 5000 \<le> length (us_events db) + length (us_runs db)"
      using pass_shrinks [of rv cfg s db s' db'] quiet pass True by simp
    then have "length (us_events db') + length (us_runs db') < 5000 * length rvs" using Cons.prems(2) by simp
    then obtain n db'' where ends: "catch_up cfg rvs s' db' = (Suc n, False, db'')" "n < length rvs"
      "5000 * n + length (us_events db'') + length (us_runs db'') \<le> length (us_events db') + length (us_runs db')"
      "filter (expired_event (rvs ! n) cfg) (us_events db'') = []" "filter (expired_run (rvs ! n) cfg) (us_runs db'') = []"
      using Cons.IH [of db' s'] Cons.prems(1) by auto
    show ?thesis using pass True ends shrinks by (intro exI [of _ "Suc n"] exI [of _ db'']) simp
  next
    case False
    then show ?thesis using pass pass_finishes [of rv cfg s db s' db'] quiet by (intro exI [of _ 0] exI [of _ db']) auto
  qed
qed simp

section \<open>Examples\<close>

definition quiet_batches :: batch_env where
  "quiet_batches = \<lparr>be_exec = \<lambda>_. None, be_affected = \<lambda>_. None, be_before = \<lambda>_. 0, be_after = \<lambda>_. 0, be_pause = \<lambda>_. None\<rparr>"

definition quiet_pass :: "int \<Rightarrow> retention_env" where
  "quiet_pass now = \<lparr>rv_open = None, rv_cancelled = False, rv_now = now, rv_usage = quiet_batches, rv_trigger = quiet_batches,
     rv_before = 0, rv_after = 0\<rparr>"

definition example_aged :: usage_db where
  "example_aged = example_db [example_event ''a'' [] 1000 (None, None), example_event ''b'' [] 9000000 (None, None)]"

definition fresh_state :: retentionState where
  "fresh_state = \<lparr>rt_CatchUpPending = False, rt_LastRunAt = 0, rt_LastError = [], rt_LastUsageDeleted = 0, rt_LastQuotaTriggerDeleted = 0,
     rt_LastSizeBefore = 0, rt_LastSizeAfter = 0\<rparr>"

lemma quiet_undisturbed [simp]: "undisturbed quiet_batches"
  by (simp add: undisturbed_def quiet_batches_def)

section \<open>Properties\<close>



text \<open>C32: The cleaner catches up. Passes that open the store and meet no error, made again and again while they report more work, come to an
  end: after \<open>n\<close> passes that each deleted at least 5000 rows comes one that leaves no expired row, so that at most one pass more than
  5000 goes into the number of rows is needed, whatever time the batches take and however the clock moves between the passes.\<close>

theorem retention_converges:
  assumes "\<forall>rv \<in> set rvs. rv_open rv = None \<and> undisturbed (rv_usage rv) \<and> undisturbed (rv_trigger rv)"
    "length (us_events db) + length (us_runs db) < 5000 * length rvs"
  shows "\<exists>n db'. catch_up cfg rvs s db = (Suc n, False, db')
      \<and> 5000 * n + length (us_events db') + length (us_runs db') \<le> length (us_events db) + length (us_runs db)
      \<and> filter (expired_event (rvs ! n) cfg) (us_events db') = [] \<and> filter (expired_run (rvs ! n) cfg) (us_runs db') = []"
  using catch_up_ends [OF assms] by blast

theorem retention_converges_witness:
  "\<exists>db'. catch_up defaultPluginConfig [quiet_pass 10000000] fresh_state example_aged = (1, False, db')
     \<and> filter (expired_event (quiet_pass 10000000) defaultPluginConfig) (us_events db') = []"
proof -
  obtain n db' where
    "catch_up defaultPluginConfig [quiet_pass 10000000] fresh_state example_aged = (Suc n, False, db')"
    "5000 * n + length (us_events db') + length (us_runs db') \<le> length (us_events example_aged) + length (us_runs example_aged)"
    "filter (expired_event ([quiet_pass 10000000] ! n) defaultPluginConfig) (us_events db') = []"
    using retention_converges [of "[quiet_pass 10000000]" example_aged defaultPluginConfig fresh_state]
    by (auto simp: quiet_pass_def example_aged_def example_db_def)
  moreover from this(2) have "n = 0" by (simp add: example_aged_def example_db_def)
  ultimately show ?thesis by auto
qed

end
