(* ===== verification/Pricing.thy ===== *)
theory Pricing
  imports External_Use
begin

text \<open>
  The prices of models and the cost of usage (\<open>pricing.go\<close>). A float operation rounds its exact result with
  \<open>pv_round\<close> (to the nearest \<open>float64\<close>, or an infinity beyond the largest); \<open>pv_parse\<close> is \<open>strconv.ParseFloat\<close>: the
  value and whether there was no error. The lemmas: a price is never negative nor above the limit, a registered price is found under its name in any
  case, and with one price for everything each token is paid once.
\<close>

section \<open>Float arithmetic\<close>

record price_env =
  pv_round :: "rat \<Rightarrow> go_float"
  pv_parse :: "string \<Rightarrow> go_float \<times> bool"

fun float_sign :: "go_float \<Rightarrow> rat" where
  "float_sign (Fin q) = sgn q"
| "float_sign PosInf = 1"
| "float_sign NegInf = - 1"
| "float_sign NaN = 0"

definition infinite_of :: "rat \<Rightarrow> go_float" where
  "infinite_of s = (if s = 0 then NaN else if 0 < s then PosInf else NegInf)"

fun float_mul :: "price_env \<Rightarrow> go_float \<Rightarrow> go_float \<Rightarrow> go_float" where
  "float_mul pv (Fin p) (Fin q) = pv_round pv (p * q)"
| "float_mul pv a b = (if a = NaN \<or> b = NaN then NaN else infinite_of (float_sign a * float_sign b))"

fun float_add :: "price_env \<Rightarrow> go_float \<Rightarrow> go_float \<Rightarrow> go_float" where
  "float_add pv (Fin p) (Fin q) = pv_round pv (p + q)"
| "float_add pv (Fin p) b = b"
| "float_add pv a (Fin q) = a"
| "float_add pv a b = (if a = b then a else NaN)"

definition float_infinite :: "go_float \<Rightarrow> bool" where
  "float_infinite v \<longleftrightarrow> v = PosInf \<or> v = NegInf"

text \<open>\<open>v / 1_000_000.0\<close>.\<close>

fun per_million :: "price_env \<Rightarrow> go_float \<Rightarrow> go_float" where
  "per_million pv (Fin p) = pv_round pv (p / 1000000)"
| "per_million pv v = v"

definition float_of_int :: "price_env \<Rightarrow> int \<Rightarrow> go_float" where
  "float_of_int pv n = pv_round pv (of_int n)"

section \<open>Prices\<close>

record modelPrice =
  mp_Prompt :: go_float
  mp_Completion :: go_float
  mp_Cache :: go_float
  mp_CacheRead :: go_float
  mp_CacheCreation :: go_float
  mp_CacheSet :: bool
  mp_CacheReadSet :: bool
  mp_CacheCreateSet :: bool

type_synonym model_prices = "(string \<times> modelPrice) list"

definition normalizeModelName :: "string \<Rightarrow> string" where
  "normalizeModelName s = ToLower (TrimSpace s)"

text \<open>Prices of one million tokens as the code writes them: without a cache price, with one, with a price to read the cache, and so on.\<close>

definition plain_price :: "price_env \<Rightarrow> rat \<Rightarrow> rat \<Rightarrow> modelPrice" where
  "plain_price pv p c = \<lparr>mp_Prompt = pv_round pv p, mp_Completion = pv_round pv c, mp_Cache = Fin 0, mp_CacheRead = Fin 0, mp_CacheCreation = Fin 0,
     mp_CacheSet = False, mp_CacheReadSet = False, mp_CacheCreateSet = False\<rparr>"

definition with_cache :: "price_env \<Rightarrow> rat \<Rightarrow> modelPrice \<Rightarrow> modelPrice" where
  "with_cache pv q price = price\<lparr>mp_Cache := pv_round pv q, mp_CacheSet := True\<rparr>"

definition with_read :: "price_env \<Rightarrow> rat \<Rightarrow> modelPrice \<Rightarrow> modelPrice" where
  "with_read pv q price = price\<lparr>mp_CacheRead := pv_round pv q, mp_CacheReadSet := True\<rparr>"

definition with_creation :: "price_env \<Rightarrow> rat \<Rightarrow> modelPrice \<Rightarrow> modelPrice" where
  "with_creation pv q price = price\<lparr>mp_CacheCreation := pv_round pv q, mp_CacheCreateSet := True\<rparr>"

definition builtin_prices :: "price_env \<Rightarrow> model_prices" where
  "builtin_prices pv =
     (let gpt = (\<lambda>p c k. with_cache pv k (plain_price pv p c));
          sonnet = with_creation pv (15 / 4) (with_read pv (3 / 10) (with_cache pv (3 / 10) (plain_price pv 3 15)));
          gemini = with_read pv (1 / 8) (with_cache pv (1 / 8) (plain_price pv (5 / 4) 10));
          deepseek = with_creation pv 0 (with_read pv (28 / 1000) (with_cache pv (28 / 1000) (plain_price pv (28 / 100) (42 / 100))));
          reads = (\<lambda>p c r. with_read pv r (plain_price pv p c))
      in [(''gpt-5.5'', gpt 5 30 (1 / 2)), (''openai/gpt-5.5'', gpt 5 30 (1 / 2)),
          (''gpt-5.4'', gpt (5 / 2) 15 (1 / 4)), (''openai/gpt-5.4'', gpt (5 / 2) 15 (1 / 4)),
          (''gpt-5.4-mini'', gpt (3 / 4) (9 / 2) (75 / 1000)), (''openai/gpt-5.4-mini'', gpt (3 / 4) (9 / 2) (75 / 1000)),
          (''gpt-5.4-nano'', gpt (2 / 10) (5 / 4) (2 / 100)), (''gpt-4o'', gpt (5 / 2) 10 (5 / 4)),
          (''gpt-4o-mini'', gpt (15 / 100) (6 / 10) (75 / 1000)),
          (''claude-sonnet-4.5'', sonnet), (''anthropic/claude-sonnet-4.5'', sonnet), (''claude-3-5-sonnet-20241022'', sonnet),
          (''gemini/gemini-2.5-pro'', gemini), (''gemini-2.5-pro'', gemini),
          (''deepseek/deepseek-chat'', deepseek), (''deepseek-chat'', deepseek),
          (''gpt-4.1'', reads 2 8 (1 / 2)), (''gpt-4.1-mini'', reads (4 / 10) (16 / 10) (1 / 10)),
          (''gpt-4.1-nano'', reads (1 / 10) (4 / 10) (25 / 1000)),
          (''deepseek-v4-pro'', plain_price pv (174 / 100) (348 / 100)), (''deepseek-v4-flash'', plain_price pv (19 / 100) (51 / 100)),
          (''kimi-k2.6'', reads (95 / 100) 4 (16 / 100)),
          (''glm-5.1'', reads (14 / 10) (44 / 10) (26 / 100)), (''glm-5.2'', reads (14 / 10) (44 / 10) (26 / 100)),
          (''minimax-m2.5'', plain_price pv (36 / 100) (144 / 100))])"

section \<open>Prices of a file\<close>

text \<open>
  An entry of the file is an object decoded from JSON. A number carries the text that \<open>FormatFloat\<close> prints for it,
  which parses back to it.
\<close>

type_synonym price_entry = "(string \<times> any_value) list"

definition entry_value :: "price_entry \<Rightarrow> string \<Rightarrow> any_value" where
  "entry_value entry key = (case map_of entry key of Some v \<Rightarrow> v | None \<Rightarrow> AnyNil)"

fun strictFloatFromAny :: "price_env \<Rightarrow> any_value \<Rightarrow> go_float \<times> bool" where
  "strictFloatFromAny pv (AnyFloat _ text) = (fst (pv_parse pv text), True)"
| "strictFloatFromAny pv (AnyInt v) = (float_of_int pv v, True)"
| "strictFloatFromAny pv (AnyInt64 v) = (float_of_int pv v, True)"
| "strictFloatFromAny pv (AnyString v) = (if TrimSpace v = [] then (Fin 0, False) else pv_parse pv (TrimSpace v))"
| "strictFloatFromAny pv _ = (Fin 0, False)"

definition floatFromAny :: "price_env \<Rightarrow> any_value \<Rightarrow> go_float" where
  "floatFromAny pv v = fst (strictFloatFromAny pv v)"

fun firstPositiveFloat :: "go_float list \<Rightarrow> go_float" where
  "firstPositiveFloat [] = Fin 0"
| "firstPositiveFloat (v # vs) = (if float_less (Fin 0) v \<and> v \<noteq> NaN \<and> \<not> float_infinite v then v else firstPositiveFloat vs)"

definition perTokenToPerMillion :: "price_env \<Rightarrow> go_float \<Rightarrow> go_float" where
  "perTokenToPerMillion pv v = (if float_le v (Fin 0) \<or> v = NaN \<or> float_infinite v then Fin 0 else float_mul pv v (Fin 1000000))"

fun firstPresentFloat :: "price_env \<Rightarrow> price_entry \<Rightarrow> string list \<Rightarrow> go_float \<times> bool \<times> bool" where
  "firstPresentFloat pv entry [] = (Fin 0, False, False)"
| "firstPresentFloat pv entry (key # ks) =
     (case map_of entry key of
        Some v \<Rightarrow> (let (parsed, valid) = strictFloatFromAny pv v in (parsed, True, valid))
      | None \<Rightarrow> firstPresentFloat pv entry ks)"

fun detectedPriceKey :: "price_entry \<Rightarrow> string list \<Rightarrow> string" where
  "detectedPriceKey entry [] = []"
| "detectedPriceKey entry (key # ks) = (if map_of entry key \<noteq> None then key else detectedPriceKey entry ks)"

definition priceKeys :: "string list" where
  "priceKeys = [''prompt'', ''prompt_price_per_1m'', ''prompt_price_per1_m'', ''input_cost_per_token'',
     ''completion'', ''completion_price_per_1m'', ''completion_price_per1_m'', ''output_cost_per_token'',
     ''cache'', ''cache_price_per_1m'', ''cache_price_per1_m'', ''input_cost_per_token_cache_hit'',
     ''cache_read_input_token_cost'', ''cacheRead'', ''cache_read'', ''cache_read_per_1m'',
     ''cacheCreation'', ''cache_creation'', ''cache_creation_per_1m'', ''cache_creation_price_per_1m'',
     ''cache_creation_price_per1_m'', ''cache_creation_input_token_cost'']"

definition validModelPriceEntry :: "price_env \<Rightarrow> price_entry \<Rightarrow> bool" where
  "validModelPriceEntry pv entry \<longleftrightarrow>
     list_all (\<lambda>key. case map_of entry key of
                 None \<Rightarrow> True
               | Some raw \<Rightarrow> let (v, valid) = strictFloatFromAny pv raw
                    in valid \<and> v \<noteq> NaN \<and> \<not> float_infinite v \<and> \<not> float_less v (Fin 0)) priceKeys"

definition price_fields :: "modelPrice \<Rightarrow> go_float list" where
  "price_fields price = [mp_Prompt price, mp_Completion price, mp_Cache price, mp_CacheRead price, mp_CacheCreation price]"

definition validModelPrice :: "modelPrice \<Rightarrow> bool" where
  "validModelPrice price \<longleftrightarrow>
     list_all (\<lambda>v. v \<noteq> NaN \<and> \<not> float_infinite v \<and> \<not> float_less v (Fin 0) \<and> \<not> float_less (Fin 1000000) v) (price_fields price)"

text \<open>One of the three cache prices: absent, given, or given but no number, which refuses the entry.\<close>

definition optional_price :: "price_env \<Rightarrow> price_entry \<Rightarrow> string list \<Rightarrow> go_float option option" where
  "optional_price pv entry ks =
     (let (v, present, valid) = firstPresentFloat pv entry ks
      in if present \<and> valid
         then Some (Some (if Contains (detectedPriceKey entry ks) ''_cost'' then perTokenToPerMillion pv v else v))
         else if present then None else Some None)"

definition modelPriceFromJSON :: "price_env \<Rightarrow> price_entry \<Rightarrow> modelPrice option" where
  "modelPriceFromJSON pv entry =
     (let num = (\<lambda>key. floatFromAny pv (entry_value entry key)) in
      if \<not> validModelPriceEntry pv entry then None
      else let
        prompt = firstPositiveFloat [num ''prompt'', num ''prompt_price_per_1m'', num ''prompt_price_per1_m'',
                   perTokenToPerMillion pv (num ''input_cost_per_token'')];
        completion = firstPositiveFloat [num ''completion'', num ''completion_price_per_1m'', num ''completion_price_per1_m'',
                   perTokenToPerMillion pv (num ''output_cost_per_token'')]
      in case optional_price pv entry [''cache'', ''cache_price_per_1m'', ''cache_price_per1_m'', ''input_cost_per_token_cache_hit'',
                ''cache_read_input_token_cost''] of
           None \<Rightarrow> None
         | Some cache \<Rightarrow>
        (case optional_price pv entry [''cacheRead'', ''cache_read'', ''cache_read_per_1m'', ''cache_read_input_token_cost''] of
           None \<Rightarrow> None
         | Some cacheRead \<Rightarrow>
        (case optional_price pv entry [''cacheCreation'', ''cache_creation'', ''cache_creation_per_1m'', ''cache_creation_price_per_1m'',
                ''cache_creation_price_per1_m'', ''cache_creation_input_token_cost''] of
           None \<Rightarrow> None
         | Some cacheCreation \<Rightarrow>
             let given = (\<lambda>p. case p of Some v \<Rightarrow> v | None \<Rightarrow> Fin 0);
                 price = \<lparr>mp_Prompt = prompt, mp_Completion = completion, mp_Cache = given cache, mp_CacheRead = given cacheRead,
                   mp_CacheCreation = given cacheCreation, mp_CacheSet = (cache \<noteq> None), mp_CacheReadSet = (cacheRead \<noteq> None),
                   mp_CacheCreateSet = (cacheCreation \<noteq> None)\<rparr>
             in if float_le prompt (Fin 0) \<and> float_le completion (Fin 0) then None
                else if \<not> validModelPrice price then None else Some price)))"

definition TrimSuffix :: "string \<Rightarrow> string \<Rightarrow> string" where
  "TrimSuffix s p = (if HasSuffix s p then drop_last (length p) s else s)"

definition registerPriceCandidate :: "model_prices \<Rightarrow> string \<Rightarrow> modelPrice \<Rightarrow> model_prices" where
  "registerPriceCandidate prices model price =
     (let key = TrimSet (TrimPrefix (normalizeModelName model) ''openai/'') ''/''
      in if key = [] then prices
         else let prices1 = AList.update key price prices; name = TrimSpace (TrimSuffix key '' openai'')
              in if HasSuffix key '' openai'' \<and> name \<noteq> [] then AList.update name price prices1 else prices1)"

text \<open>The entries of the file in the order in which the Go map is read.\<close>

definition register_entry :: "price_env \<Rightarrow> model_prices \<Rightarrow> string \<times> price_entry \<Rightarrow> model_prices" where
  "register_entry pv prices = (\<lambda>(model, entry).
     case modelPriceFromJSON pv entry of
       None \<Rightarrow> prices
     | Some price \<Rightarrow>
         let prices1 = registerPriceCandidate prices model price;
             provider = stringFromAny (entry_value entry ''litellm_provider'');
             prices2 = (if provider \<noteq> [] then registerPriceCandidate prices1 (provider @ ''/'' @ model) price else prices1);
             sourceModel = firstNonEmptyString [stringFromAny (entry_value entry ''source_model_id''), stringFromAny (entry_value entry ''sourceModelId'')]
         in if sourceModel \<noteq> [] then registerPriceCandidate prices2 sourceModel price else prices2)"

definition file_prices :: "price_env \<Rightarrow> (string \<times> price_entry) list \<Rightarrow> model_prices" where
  "file_prices pv entries = foldl (register_entry pv) [] entries"

definition defaultModelPrices :: "price_env \<Rightarrow> model_prices \<Rightarrow> model_prices" where
  "defaultModelPrices pv from_file =
     foldl (\<lambda>prices (model, price). AList.update (normalizeModelName model) price prices) (builtin_prices pv) from_file"

text \<open>
  The cache of the decoded file. What is on disk: \<open>os.Stat\<close> with the path, the time of the last change and the size, and the entries that
  reading and decoding gives, if they succeed.
\<close>

record price_file =
  pf_path :: string
  pf_modTime :: int
  pf_size :: int
  pf_entries :: "(string \<times> price_entry) list option"

record price_file_cache =
  pc_path :: string
  pc_modTime :: int
  pc_size :: int
  pc_prices :: model_prices

definition readModelPricesFromFile :: "price_env \<Rightarrow> price_file option \<Rightarrow> price_file_cache \<Rightarrow> model_prices \<times> price_file_cache" where
  "readModelPricesFromFile pv disk cache =
     (case disk of
        None \<Rightarrow> ([], cache)
      | Some f \<Rightarrow>
          if pf_size f \<le> 0 then ([], cache)
          else if pc_path cache = pf_path f \<and> pc_modTime cache = pf_modTime f \<and> pc_size cache = pf_size f
          then (pc_prices cache, cache)
          else case pf_entries f of
                 None \<Rightarrow> ([], cache)
               | Some entries \<Rightarrow>
                   let prices = file_prices pv entries
                   in (prices, \<lparr>pc_path = pf_path f, pc_modTime = pf_modTime f, pc_size = pf_size f, pc_prices = prices\<rparr>))"

section \<open>Names\<close>

definition LastIndex :: "string \<Rightarrow> char \<Rightarrow> nat option" where
  "LastIndex s c = (if c \<in> set s then Some (length s - 1 - length (takeWhile (\<lambda>d. d \<noteq> c) (rev s))) else None)"

definition allDigits :: "string \<Rightarrow> bool" where
  "allDigits s \<longleftrightarrow> s \<noteq> [] \<and> list_all is_digit s"

lemma LastIndex_less: "LastIndex s c = Some i \<Longrightarrow> i < length s"
  by (cases s) (auto simp: LastIndex_def split: if_splits)

function stripDateSuffixCandidates :: "string \<Rightarrow> string list" where
  "stripDateSuffixCandidates current =
     (case LastIndex current (CHR ''-'') of
        None \<Rightarrow> []
      | Some i \<Rightarrow>
          if i = 0 \<or> i = length current - 1 then []
          else if length (drop (i + 1) current) < 4 \<or> \<not> allDigits (drop (i + 1) current) then []
          else take i current # stripDateSuffixCandidates (take i current))"
  by pat_completeness auto

termination
  by (relation "measure length") (auto dest: LastIndex_less)

declare stripDateSuffixCandidates.simps [simp del]

definition add_name :: "string list \<Rightarrow> string \<Rightarrow> string list" where
  "add_name out candidate =
     (let c = TrimSet (normalizeModelName candidate) ''/''
      in if c = [] \<or> c \<in> set out then out else out @ [c])"

definition priceNameCandidates :: "string \<Rightarrow> string list" where
  "priceNameCandidates s =
     (if normalizeModelName s = [] then []
      else let key = TrimPrefix (normalizeModelName s) ''openai/'';
        out1 = add_name [] key;
        out2 = (if HasSuffix key '' openai'' then add_name out1 (TrimSpace (TrimSuffix key '' openai'')) else out1);
        parts = Split key (CHR ''/'');
        out3 = foldl add_name out2 (map (\<lambda>i. Join (drop i parts) ''/'') [1..<length parts]);
        out4 = add_name out3 (last parts);
        out5 = foldl add_name out4 (concat (map stripDateSuffixCandidates out4))
      in case LastIndex key (CHR '':'') of
           Some i \<Rightarrow> if 0 < i then add_name out5 (take i key) else out5
         | None \<Rightarrow> out5)"

record costTokenRow =
  ct_Model :: string
  ct_Alias :: string
  ct_Provider :: string
  ct_ServiceTier :: string
  ct_InputTokens :: int
  ct_OutputTokens :: int
  ct_CachedTokens :: int
  ct_CacheReadTokens :: int
  ct_CacheCreationTokens :: int
  ct_TotalTokens :: int

definition price_names :: "costTokenRow \<Rightarrow> string list" where
  "price_names row = concat (map priceNameCandidates
     [ct_Provider row @ ''/'' @ ct_Model row, ct_Provider row @ ''/'' @ ct_Alias row, ct_Model row, ct_Alias row])"

definition resolveModelPrice :: "costTokenRow \<Rightarrow> model_prices \<Rightarrow> modelPrice option" where
  "resolveModelPrice row prices =
     (case find (\<lambda>name. map_of prices name \<noteq> None) (price_names row) of
        Some name \<Rightarrow> map_of prices name
      | None \<Rightarrow> None)"

section \<open>Costs\<close>

definition effectiveCachePrice :: "modelPrice \<Rightarrow> go_float" where
  "effectiveCachePrice price =
     (if mp_CacheSet price then mp_Cache price else if mp_CacheReadSet price then mp_CacheRead price else mp_Prompt price)"

definition effectiveCacheReadPrice :: "modelPrice \<Rightarrow> go_float" where
  "effectiveCacheReadPrice price = (if mp_CacheReadSet price then mp_CacheRead price else effectiveCachePrice price)"

definition effectiveCacheCreationPrice :: "modelPrice \<Rightarrow> go_float" where
  "effectiveCacheCreationPrice price = (if mp_CacheCreateSet price then mp_CacheCreation price else mp_Prompt price)"

definition isModelFamily :: "string \<Rightarrow> string \<Rightarrow> bool" where
  "isModelFamily modelName family \<longleftrightarrow> modelName = family \<or> HasPrefix modelName (family @ ''-'')"

definition serviceTierMultiplier :: "string \<Rightarrow> string \<Rightarrow> go_float" where
  "serviceTierMultiplier modelName serviceTier =
     (let tier = ToLower (TrimSpace serviceTier); name = normalizeModelName modelName
      in if tier \<noteq> ''priority'' \<and> tier \<noteq> ''fast'' then Fin 1
         else if isModelFamily name ''gpt-5.5'' then Fin (5 / 2)
         else if isModelFamily name ''gpt-5.4-mini'' then Fin 2
         else if isModelFamily name ''gpt-5.4'' then Fin 2
         else if isModelFamily name ''gpt-5.3-codex'' then Fin 2
         else Fin 1)"

definition maxInt64 :: "int \<Rightarrow> int \<Rightarrow> int" where
  "maxInt64 v low = (if v < low then low else v)"

definition residual_cached :: "costTokenRow \<Rightarrow> int" where
  "residual_cached row =
     (let cached = maxInt64 (ct_CachedTokens row) 0; cacheRead = maxInt64 (ct_CacheReadTokens row) 0;
          creation = maxInt64 (ct_CacheCreationTokens row) 0
      in if 0 < cacheRead \<or> 0 < creation then maxInt64 (wrap64 (wrap64 (cached - cacheRead) - creation)) 0 else cached)"

definition prompt_tokens :: "costTokenRow \<Rightarrow> int" where
  "prompt_tokens row = maxInt64 (wrap64 (maxInt64 (ct_InputTokens row) 0 - maxInt64 (ct_CachedTokens row) 0)) 0"

definition token_cost :: "price_env \<Rightarrow> int \<Rightarrow> go_float \<Rightarrow> go_float" where
  "token_cost pv tokens price = per_million pv (float_mul pv (float_of_int pv tokens) price)"

definition costForTokens :: "price_env \<Rightarrow> costTokenRow \<Rightarrow> model_prices \<Rightarrow> go_float option" where
  "costForTokens pv row prices =
     map_option (\<lambda>price.
       let cost = float_add pv (float_add pv (float_add pv (float_add pv
             (token_cost pv (prompt_tokens row) (mp_Prompt price))
             (token_cost pv (maxInt64 (ct_OutputTokens row) 0) (mp_Completion price)))
             (token_cost pv (residual_cached row) (effectiveCachePrice price)))
             (token_cost pv (maxInt64 (ct_CacheReadTokens row) 0) (effectiveCacheReadPrice price)))
             (token_cost pv (maxInt64 (ct_CacheCreationTokens row) 0) (effectiveCacheCreationPrice price))
       in float_mul pv cost (serviceTierMultiplier (ct_Model row) (ct_ServiceTier row)))
     (resolveModelPrice row prices)"

definition usageTokenInputRequiresPricing :: "costTokenRow \<Rightarrow> bool" where
  "usageTokenInputRequiresPricing row \<longleftrightarrow>
     0 < ct_InputTokens row \<or> 0 < ct_OutputTokens row \<or> 0 < ct_CachedTokens row \<or> 0 < ct_CacheReadTokens row \<or> 0 < ct_CacheCreationTokens row"

record costSummary =
  cs_CostUSD :: go_float
  cs_UnpricedTokens :: int

definition no_cost :: costSummary where
  "no_cost = \<lparr>cs_CostUSD = Fin 0, cs_UnpricedTokens = 0\<rparr>"

definition addCost :: "price_env \<Rightarrow> model_prices \<Rightarrow> costSummary \<Rightarrow> costTokenRow \<Rightarrow> costSummary" where
  "addCost pv prices acc row =
     (case costForTokens pv row prices of
        None \<Rightarrow> if usageTokenInputRequiresPricing row
                then acc\<lparr>cs_UnpricedTokens := wrap64 (cs_UnpricedTokens acc + ct_TotalTokens row)\<rparr> else acc
      | Some cost \<Rightarrow> acc\<lparr>cs_CostUSD := float_add pv (cs_CostUSD acc) cost\<rparr>)"

definition summarizeCost :: "price_env \<Rightarrow> costTokenRow list \<Rightarrow> model_prices \<Rightarrow> costSummary" where
  "summarizeCost pv rows prices = foldl (addCost pv prices) no_cost rows"

definition addCostSummary ::
  "price_env \<Rightarrow> model_prices \<Rightarrow> (string \<times> costSummary) list \<Rightarrow> string \<times> costTokenRow \<Rightarrow> (string \<times> costSummary) list" where
  "addCostSummary pv prices costs = (\<lambda>(key, row). AList.update key (addCost pv prices (lookup_or no_cost costs key) row) costs)"

definition costAvailable :: "int \<Rightarrow> int \<Rightarrow> bool" where
  "costAvailable totalTokens unpricedTokens \<longleftrightarrow> 0 < totalTokens \<and> unpricedTokens = 0"

definition modelCostKey :: "string \<Rightarrow> string \<Rightarrow> string \<Rightarrow> string" where
  "modelCostKey model name provider = normalizeModelName provider @ [CHR 0x00] @ normalizeModelName model @ [CHR 0x00] @ normalizeModelName name"

section \<open>Names that are found\<close>

lemma leads_before_slash:
  assumes "\<not> leads r s" "s \<noteq> []"
  shows "\<not> leads r (s @ CHR ''/'' # t)"
proof -
  have "\<not> sp2 r a (CHR ''/'')" "\<not> sp3 r a b (CHR ''/'')" "\<not> sp3 r a (CHR ''/'') b" for a b
    by (auto simp: sp2_def sp3_def space2_def space3_def)
  with assms show ?thesis by (cases s rule: triple_cases; cases t rule: triple_cases) auto
qed

lemma trimmed_ends:
  assumes "TrimSpace s = s"
  shows "\<not> leads False s" "\<not> leads True (rev s)"
  using not_leads_TrimSpace [of s] not_leads_rev_TrimSpace [of s] assms by auto

lemma TrimSpace_slash:
  assumes "TrimSpace p = p" "TrimSpace m = m" "p \<noteq> []" "m \<noteq> []"
  shows "TrimSpace (p @ ''/'' @ m) = p @ ''/'' @ m"
  using leads_before_slash [OF trimmed_ends(1) [OF assms(1)] assms(3), of m]
    leads_before_slash [OF trimmed_ends(2) [OF assms(2)], of "rev p"] assms(4)
  by (intro TrimSpace_id) auto

lemma add_name_extends: "\<exists>t. add_name out c = out @ t"
  by (simp add: add_name_def Let_def)

lemma add_names_extend: "\<exists>t. foldl add_name out cs = out @ t"
proof (induction cs arbitrary: out)
  case (Cons c cs)
  obtain t where "add_name out c = out @ t" using add_name_extends by blast
  with Cons.IH [of "out @ t"] show ?case by auto
qed simp

lemma TrimSet_slash_id: "s \<noteq> [] \<Longrightarrow> hd s \<noteq> CHR ''/'' \<Longrightarrow> last s \<noteq> CHR ''/'' \<Longrightarrow> TrimSet s ''/'' = s"
  using dropWhile_eq_self_iff [of "\<lambda>c. c = CHR ''/''" s] dropWhile_eq_self_iff [of "\<lambda>c. c = CHR ''/''" "rev s"]
  by (simp add: TrimSet_def hd_rev)

lemma slash_ToLower [simp]: "CHR ''/'' \<in> set (ToLower m) \<longleftrightarrow> CHR ''/'' \<in> set m"
proof -
  have "c = CHR ''/''" if "CHR ''/'' = lower_char c" for c using that lower_char_slash [of c] by simp
  moreover have "lower_char (CHR ''/'') = CHR ''/''" by simp
  ultimately show ?thesis unfolding ToLower_def set_map by (metis imageE imageI)
qed

lemma plain_name:
  assumes "TrimSpace m = m" "m \<noteq> []" "CHR ''/'' \<notin> set m"
  shows "normalizeModelName m = ToLower m" "TrimPrefix (ToLower m) ''openai/'' = ToLower m" "TrimSet (ToLower m) ''/'' = ToLower m"
    "normalizeModelName (ToLower m) = ToLower m" "CHR ''/'' \<notin> set (ToLower m)"
proof -
  show slash: "CHR ''/'' \<notin> set (ToLower m)" using assms(3) by simp
  show "normalizeModelName m = ToLower m" using assms(1) by (simp add: normalizeModelName_def)
  show "normalizeModelName (ToLower m) = ToLower m" using assms(1) by (simp add: normalizeModelName_def flip: ToLower_TrimSpace)
  show "TrimPrefix (ToLower m) ''openai/'' = ToLower m" using slash
    by (auto simp: TrimPrefix_def HasPrefix_iff simp del: slash_ToLower)
  show "TrimSet (ToLower m) ''/'' = ToLower m" using slash assms(2) hd_in_set [of "ToLower m"] last_in_set [of "ToLower m"]
    by (intro TrimSet_slash_id) (auto simp del: hd_in_set last_in_set)
qed

text \<open>The first names tried for a model of a provider: the two together, then the model alone.\<close>

lemma first_names:
  assumes "TrimSpace p = p" "p \<noteq> []" "CHR ''/'' \<notin> set p" "ToLower p \<noteq> ''openai''"
    "TrimSpace m = m" "m \<noteq> []" "CHR ''/'' \<notin> set m" "\<not> HasSuffix (ToLower m) '' openai''"
  shows "\<exists>t. priceNameCandidates (p @ ''/'' @ m) = (ToLower p @ ''/'' @ ToLower m) # ToLower m # t"
proof -
  note P = plain_name [OF assms(1-3)] and M = plain_name [OF assms(5-7)]
  let ?k = "ToLower p @ ''/'' @ ToLower m"
  have norm: "normalizeModelName (p @ ''/'' @ m) = ?k"
    using TrimSpace_slash [OF assms(1,5,2,6)] by (simp add: normalizeModelName_def)
  have norm2: "normalizeModelName ?k = ?k"
    using TrimSpace_slash [OF assms(1,5,2,6)] by (simp add: normalizeModelName_def flip: ToLower_TrimSpace)
      (metis ToLower_TrimSpace ToLower_append ToLower_idem ToLower_simps(1,2) append_Cons append_Nil lower_char_slash)
  have key: "TrimPrefix ?k ''openai/'' = ?k"
  proof -
    have "ToLower p = ''openai''" if "?k = ''openai/'' @ t" for t
    proof -
      have "takeWhile (\<lambda>c. c \<noteq> CHR ''/'') ?k = ToLower p" using P(5) by (subst takeWhile_append2) auto
      moreover have "takeWhile (\<lambda>c. c \<noteq> CHR ''/'') (''openai/'' @ t) = ''openai''" by simp
      ultimately show ?thesis using that by simp
    qed
    with assms(4) show ?thesis by (auto simp: TrimPrefix_def HasPrefix_iff)
  qed
  have ends: "hd ?k \<noteq> CHR ''/''" "last ?k \<noteq> CHR ''/''" using P(5) M(5) assms(2,6) hd_in_set [of "ToLower p"] last_in_set [of "ToLower m"]
    by (auto simp: hd_append simp del: hd_in_set last_in_set)
  have once: "add_name [] ?k = [?k]" using TrimSet_slash_id [OF _ ends] norm2 by (simp add: add_name_def Let_def)
  have no: "\<not> HasSuffix ?k '' openai''"
  proof
    assume "HasSuffix ?k '' openai''"
    then obtain t where t: "ToLower p @ CHR ''/'' # ToLower m = t @ '' openai''" by (auto simp: HasSuffix_iff)
    have "us @ CHR ''/'' # x \<noteq> '' openai''" for us x
    proof
      assume "us @ CHR ''/'' # x = '' openai''"
      then have "CHR ''/'' \<in> set '' openai''" by (metis in_set_conv_decomp)
      then show False by simp
    qed
    with t have "\<exists>u. ToLower m = u @ '' openai''" by (auto simp: append_eq_append_conv2 Cons_eq_append_conv)
    with assms(8) show False by (simp add: HasSuffix_iff)
  qed
  have parts: "Split ?k (CHR ''/'') = [ToLower p, ToLower m]"
    using Split_Join [of "[ToLower p, ToLower m]" "CHR ''/''"] P(5) M(5) by simp
  have two: "add_name [?k] (ToLower m) = [?k, ToLower m]"
    using M(3,4,5) assms(6) by (auto simp: add_name_def Let_def)
  let ?first = "[?k, ToLower m]"
  have both: "foldl add_name [?k] (map (\<lambda>i. Join (drop i [ToLower p, ToLower m]) ''/'') [1..<length [ToLower p, ToLower m]]) = ?first"
    using two by (simp add: upt_rec)
  have last_part: "last [ToLower p, ToLower m] = ToLower m" by simp
  obtain u where u: "add_name ?first (ToLower m) = ?first @ u" using add_name_extends by blast
  obtain v where v: "foldl add_name (?first @ u) (concat (map stripDateSuffixCandidates (?first @ u))) = (?first @ u) @ v"
    using add_names_extend by blast
  have "\<exists>t. (case LastIndex ?k (CHR '':'') of Some i \<Rightarrow> if 0 < i then add_name ((?first @ u) @ v) (take i ?k) else (?first @ u) @ v
      | None \<Rightarrow> (?first @ u) @ v) = ?k # ToLower m # t"
    using add_name_extends [of "(?first @ u) @ v"] by (auto split: option.split)
  moreover have "priceNameCandidates (p @ ''/'' @ m) =
      (case LastIndex ?k (CHR '':'') of Some i \<Rightarrow> if 0 < i then add_name ((?first @ u) @ v) (take i ?k) else (?first @ u) @ v
      | None \<Rightarrow> (?first @ u) @ v)"
    unfolding priceNameCandidates_def norm key Let_def parts once if_not_P [OF no] both last_part u v by simp
  ultimately show ?thesis by simp
qed

section \<open>Bounds\<close>

text \<open>The nearest \<open>float64\<close> to a number is never negative for one that is not, nor more than twice as large.\<close>

definition rounding_sound :: "price_env \<Rightarrow> bool" where
  "rounding_sound pv \<longleftrightarrow> (\<forall>q. 0 \<le> q \<and> q \<le> 10 ^ 40 \<longrightarrow> (\<exists>r. pv_round pv q = Fin r \<and> 0 \<le> r \<and> r \<le> 2 * q))"

definition in_range :: "go_float \<Rightarrow> rat \<Rightarrow> bool" where
  "in_range v b \<longleftrightarrow> (\<exists>q. v = Fin q \<and> 0 \<le> q \<and> q \<le> b)"

lemma in_range_Fin [simp]: "in_range (Fin q) b \<longleftrightarrow> 0 \<le> q \<and> q \<le> b"
  by (simp add: in_range_def)

lemma in_range_le: "in_range v b \<Longrightarrow> b \<le> b' \<Longrightarrow> in_range v b'"
  by (auto simp: in_range_def)

lemma round_in_range:
  assumes "rounding_sound pv" "0 \<le> q" "q \<le> b" "b \<le> 10 ^ 40"
  shows "in_range (pv_round pv q) (2 * b)"
proof -
  obtain r where "pv_round pv q = Fin r" "0 \<le> r" "r \<le> 2 * q" using assms unfolding rounding_sound_def by (meson order_trans)
  with assms(3) show ?thesis by (auto simp: in_range_def)
qed

lemma mul_in_range:
  assumes "rounding_sound pv" "in_range v a" "in_range w b" "0 \<le> a" "a * b \<le> 10 ^ 40"
  shows "in_range (float_mul pv v w) (2 * (a * b))"
proof -
  obtain p q where "v = Fin p" "w = Fin q" "0 \<le> p" "p \<le> a" "0 \<le> q" "q \<le> b" using assms(2,3) by (auto simp: in_range_def)
  moreover from this have "p * q \<le> a * b" using assms(4) by (intro mult_mono) auto
  ultimately show ?thesis using round_in_range [OF assms(1) _ _ assms(5), of "p * q"] by simp
qed

lemma add_in_range:
  assumes "rounding_sound pv" "in_range v a" "in_range w b" "a + b \<le> 10 ^ 40"
  shows "in_range (float_add pv v w) (2 * (a + b))"
proof -
  obtain p q where "v = Fin p" "w = Fin q" "0 \<le> p" "p \<le> a" "0 \<le> q" "q \<le> b" using assms(2,3) by (auto simp: in_range_def)
  then show ?thesis using round_in_range [OF assms(1) _ _ assms(4), of "p + q"] by simp
qed

lemma per_million_in_range:
  assumes "rounding_sound pv" "in_range v a" "a / 1000000 \<le> 10 ^ 40"
  shows "in_range (per_million pv v) (2 * (a / 1000000))"
proof -
  obtain p where "v = Fin p" "0 \<le> p" "p \<le> a" using assms(2) by (auto simp: in_range_def)
  then show ?thesis using round_in_range [OF assms(1) _ _ assms(3), of "p / 1000000"] by (simp add: divide_right_mono)
qed

lemma token_cost_in_range:
  assumes "rounding_sound pv" "0 \<le> n" "n < 2 ^ 63" "in_range price 1000000"
  shows "in_range (token_cost pv n price) (10 ^ 20)"
proof -
  have "in_range (float_of_int pv n) (2 * 2 ^ 63)"
    unfolding float_of_int_def by (rule round_in_range [OF assms(1)]) (use assms(2,3) in \<open>simp_all add: of_int_less_numeral_iff order_less_imp_le\<close>)
  then have "in_range (float_mul pv (float_of_int pv n) price) (2 * (2 * 2 ^ 63 * 1000000))"
    by (rule mul_in_range [OF assms(1) _ assms(4)]) simp_all
  then have "in_range (token_cost pv n price) (2 * (2 * (2 * 2 ^ 63 * 1000000) / 1000000))"
    unfolding token_cost_def by (rule per_million_in_range [OF assms(1)]) simp
  then show ?thesis by (rule in_range_le) simp
qed

lemma multiplier_in_range: "in_range (serviceTierMultiplier m t) (5 / 2)"
  by (simp add: serviceTierMultiplier_def Let_def)

lemma validModelPrice_in_range: "validModelPrice price \<longleftrightarrow> (\<forall>v\<in>set (price_fields price). in_range v 1000000)"
proof -
  have "(v \<noteq> NaN \<and> \<not> float_infinite v \<and> \<not> float_less v (Fin 0) \<and> \<not> float_less (Fin 1000000) v) = in_range v 1000000" for v
    by (cases v) (auto simp: float_infinite_def in_range_def)
  then show ?thesis by (simp add: validModelPrice_def list_all_iff)
qed

lemma effective_in_range:
  assumes "validModelPrice price"
  shows "in_range (mp_Prompt price) 1000000" "in_range (mp_Completion price) 1000000" "in_range (effectiveCachePrice price) 1000000"
    "in_range (effectiveCacheReadPrice price) 1000000" "in_range (effectiveCacheCreationPrice price) 1000000"
  using assms by (auto simp: validModelPrice_in_range price_fields_def effectiveCachePrice_def effectiveCacheReadPrice_def
      effectiveCacheCreationPrice_def)

lemma wrap64_bounds: "- (2 ^ 63) \<le> wrap64 i" "wrap64 i < 2 ^ 63"
  using signed_take_bit_int_greater_eq_minus_exp [of 63 i] signed_take_bit_int_less_exp [of 63 i] by (simp_all add: wrap64_def)

lemma token_classes_bounds:
  assumes "ct_CachedTokens row < 2 ^ 63"
  shows "0 \<le> prompt_tokens row" "prompt_tokens row < 2 ^ 63" "0 \<le> residual_cached row" "residual_cached row < 2 ^ 63"
  using wrap64_bounds assms by (auto simp: prompt_tokens_def residual_cached_def maxInt64_def Let_def)

definition row_int64 :: "costTokenRow \<Rightarrow> bool" where
  "row_int64 row \<longleftrightarrow> list_all in_int64 [ct_InputTokens row, ct_OutputTokens row, ct_CachedTokens row, ct_CacheReadTokens row,
     ct_CacheCreationTokens row, ct_TotalTokens row]"

lemma cost_in_range:
  assumes "rounding_sound pv" "row_int64 row" "resolveModelPrice row prices = Some price" "validModelPrice price"
  shows "\<exists>c. costForTokens pv row prices = Some c \<and> in_range c (10 ^ 23)"
proof -
  note t = token_cost_in_range [OF assms(1)] and e = effective_in_range [OF assms(4)]
  have b: "ct_CachedTokens row < 2 ^ 63" using assms(2) by (simp add: row_int64_def in_int64_def)
  note c = token_classes_bounds [OF b]
  have m: "0 \<le> maxInt64 n 0 \<and> maxInt64 n 0 < 2 ^ 63" if "in_int64 n" for n using that by (simp add: maxInt64_def in_int64_def)
  let ?a = "token_cost pv (prompt_tokens row) (mp_Prompt price)"
  let ?b = "token_cost pv (maxInt64 (ct_OutputTokens row) 0) (mp_Completion price)"
  let ?c = "token_cost pv (residual_cached row) (effectiveCachePrice price)"
  let ?d = "token_cost pv (maxInt64 (ct_CacheReadTokens row) 0) (effectiveCacheReadPrice price)"
  let ?e = "token_cost pv (maxInt64 (ct_CacheCreationTokens row) 0) (effectiveCacheCreationPrice price)"
  have w: "in_range ?a (10 ^ 20)" "in_range ?b (10 ^ 20)" "in_range ?c (10 ^ 20)" "in_range ?d (10 ^ 20)" "in_range ?e (10 ^ 20)"
    using t [OF c(1,2) e(1)] t [OF _ _ e(2)] t [OF c(3,4) e(3)] t [OF _ _ e(4)] t [OF _ _ e(5)] m assms(2) by (simp_all add: row_int64_def)
  have "in_range (float_add pv ?a ?b) (4 * 10 ^ 20)" using add_in_range [OF assms(1) w(1,2)] by simp
  then have "in_range (float_add pv (float_add pv ?a ?b) ?c) (10 * 10 ^ 20)" using add_in_range [OF assms(1) _ w(3)] by fastforce
  then have "in_range (float_add pv (float_add pv (float_add pv ?a ?b) ?c) ?d) (22 * 10 ^ 20)" using add_in_range [OF assms(1) _ w(4)] by fastforce
  then have "in_range (float_add pv (float_add pv (float_add pv (float_add pv ?a ?b) ?c) ?d) ?e) (46 * 10 ^ 20)"
    using add_in_range [OF assms(1) _ w(5)] by fastforce
  then have "in_range (float_mul pv (float_add pv (float_add pv (float_add pv (float_add pv ?a ?b) ?c) ?d) ?e)
      (serviceTierMultiplier (ct_Model row) (ct_ServiceTier row))) (2 * (46 * 10 ^ 20 * (5 / 2)))"
    by (rule mul_in_range [OF assms(1) _ multiplier_in_range]) simp_all
  then have "in_range (float_mul pv (float_add pv (float_add pv (float_add pv (float_add pv ?a ?b) ?c) ?d) ?e)
      (serviceTierMultiplier (ct_Model row) (ct_ServiceTier row))) (10 ^ 23)" by (rule in_range_le) simp
  then show ?thesis using assms(3) by (simp add: costForTokens_def Let_def)
qed

text \<open>Every price of the table, built in or read from a file, is valid.\<close>

definition prices_valid :: "model_prices \<Rightarrow> bool" where
  "prices_valid prices \<longleftrightarrow> (\<forall>(name, price)\<in>set prices. validModelPrice price)"

lemma update_subset: "set (AList.update name price prices) \<subseteq> insert (name, price) (set prices)"
  by (induction prices) auto

lemma prices_valid_update: "prices_valid prices \<Longrightarrow> validModelPrice price \<Longrightarrow> prices_valid (AList.update name price prices)"
  using update_subset [of name price prices] unfolding prices_valid_def by fastforce

lemma registered_valid: "prices_valid prices \<Longrightarrow> validModelPrice price \<Longrightarrow> prices_valid (registerPriceCandidate prices model price)"
  by (simp add: registerPriceCandidate_def Let_def prices_valid_update)

lemma modelPriceFromJSON_valid: "modelPriceFromJSON pv entry = Some price \<Longrightarrow> validModelPrice price"
  by (auto simp: modelPriceFromJSON_def Let_def simp del: firstPositiveFloat.simps split: if_splits option.splits)

lemma register_entry_valid: "prices_valid prices \<Longrightarrow> prices_valid (register_entry pv prices e)"
  by (cases e) (auto simp: register_entry_def Let_def registered_valid modelPriceFromJSON_valid split: option.splits)

lemma file_prices_valid: "prices_valid (file_prices pv entries)"
proof -
  have "prices_valid (foldl (register_entry pv) prices entries)" if "prices_valid prices" for prices
    using that by (induction entries arbitrary: prices) (simp_all add: register_entry_valid)
  from this [of "[]"] show ?thesis by (simp add: file_prices_def prices_valid_def)
qed

lemma literal_in_range: "rounding_sound pv \<Longrightarrow> 0 \<le> q \<Longrightarrow> q \<le> 500000 \<Longrightarrow> in_range (pv_round pv q) 1000000"
  using round_in_range [of pv q 500000] by simp

lemma builtin_prices_valid: "rounding_sound pv \<Longrightarrow> prices_valid (builtin_prices pv)"
  unfolding prices_valid_def builtin_prices_def Let_def
  by (simp add: validModelPrice_in_range price_fields_def plain_price_def with_cache_def with_read_def with_creation_def literal_in_range)

lemma defaultModelPrices_valid:
  assumes "rounding_sound pv" "prices_valid from_file"
  shows "prices_valid (defaultModelPrices pv from_file)"
proof -
  have "prices_valid (foldl (\<lambda>prices (model, price). AList.update (normalizeModelName model) price prices) prices from_file)"
    if "prices_valid prices" for prices
    using that assms(2)
  proof (induction from_file arbitrary: prices)
    case (Cons entry from_file)
    from Cons.prems(2) have rest: "prices_valid from_file" "validModelPrice (snd entry)" by (auto simp: prices_valid_def)
    from Cons.IH [OF prices_valid_update [OF Cons.prems(1) rest(2)] rest(1), of "normalizeModelName (fst entry)"]
    show ?case by (simp add: split_beta)
  qed simp
  then show ?thesis using builtin_prices_valid [OF assms(1)] by (simp add: defaultModelPrices_def)
qed

lemma resolved_valid:
  assumes "prices_valid prices" "resolveModelPrice row prices = Some price"
  shows "validModelPrice price"
  using assms by (auto simp: resolveModelPrice_def prices_valid_def find_Some_iff split: option.splits dest!: map_of_SomeD)

section \<open>What the names and the tiers leave out\<close>

text \<open>A date with dashes is not taken off a name: its day is shorter than four digits.\<close>

lemma LastIndex_append: "c \<notin> set t \<Longrightarrow> LastIndex (s @ c # t) c = Some (length s)"
proof -
  assume "c \<notin> set t"
  then have "takeWhile (\<lambda>d. d \<noteq> c) (rev t @ c # rev s) = rev t" by (subst takeWhile_append2) auto
  then show ?thesis by (simp add: LastIndex_def)
qed

lemma dashed_date_stays:
  assumes "length d < 4" "CHR ''-'' \<notin> set d"
  shows "stripDateSuffixCandidates (name @ CHR ''-'' # d) = []"
  using assms by (subst stripDateSuffixCandidates.simps) (simp add: LastIndex_append)

lemma dated_model_unpriced: "priceNameCandidates ''gpt-4o-2024-08-06'' = [''gpt-4o-2024-08-06'']"
  "priceNameCandidates ''gpt-4o-20240806'' = [''gpt-4o-20240806'', ''gpt-4o'']"
  by code_simp+

text \<open>The prefix \<open>openai/\<close> is taken off a name when a price is looked up, but not when the tier is.\<close>

lemma prefixed_model_not_multiplied:
  "map_option id (find (\<lambda>n. n = ''gpt-5.5'') (priceNameCandidates ''openai/gpt-5.5'')) = Some ''gpt-5.5''"
  "serviceTierMultiplier ''openai/gpt-5.5'' ''priority'' = Fin 1" "serviceTierMultiplier ''gpt-5.5'' ''priority'' = Fin (5 / 2)"
  by code_simp+

text \<open>Two names of a file that differ in that prefix share one price, and which of the two depends on the order of a map.\<close>

definition example_pricing :: price_env where
  "example_pricing = \<lparr>pv_round = Fin, pv_parse = (\<lambda>text. if text = ''2'' then (Fin 2, True) else (Fin 1, True))\<rparr>"

lemma prefixed_names_collide:
  "map_option mp_Prompt (map_of (file_prices example_pricing [(''m'', [(''prompt'', AnyFloat (Some 1) ''1'')]),
      (''openai/m'', [(''prompt'', AnyFloat (Some 2) ''2'')])]) ''m'') = Some (Fin 2)"
  "map_option mp_Prompt (map_of (file_prices example_pricing [(''openai/m'', [(''prompt'', AnyFloat (Some 2) ''2'')]),
      (''m'', [(''prompt'', AnyFloat (Some 1) ''1'')])]) ''m'') = Some (Fin 1)"
  by code_simp+

section \<open>Properties\<close>

text \<open>C25: The cost of a row is a finite number that is not negative, whatever the file of prices holds and whatever counts the row has: with
  the prices built in and those of any file, each priced row of 64-bit counts costs between 0 and 10^23 dollars.\<close>

theorem cost_bounded:
  assumes "rounding_sound pv" "row_int64 row" "costForTokens pv row (defaultModelPrices pv (file_prices pv entries)) = Some c"
  shows "\<exists>q. c = Fin q \<and> 0 \<le> q \<and> q \<le> 10 ^ 23"
proof -
  obtain price where price: "resolveModelPrice row (defaultModelPrices pv (file_prices pv entries)) = Some price"
    using assms(3) by (auto simp: costForTokens_def)
  then have "validModelPrice price"
    using resolved_valid defaultModelPrices_valid [OF assms(1) file_prices_valid] by blast
  from cost_in_range [OF assms(1,2) price this] assms(3) show ?thesis by (auto simp: in_range_def)
qed

definition example_cost_row :: costTokenRow where
  "example_cost_row = \<lparr>ct_Model = ''GPT-4o'', ct_Alias = [], ct_Provider = ''codex'', ct_ServiceTier = [], ct_InputTokens = 3000000,
     ct_OutputTokens = 1000000, ct_CachedTokens = 1000000, ct_CacheReadTokens = 0, ct_CacheCreationTokens = 0, ct_TotalTokens = 4000000\<rparr>"

theorem cost_bounded_witness:
  "\<exists>q. costForTokens example_pricing example_cost_row (defaultModelPrices example_pricing (file_prices example_pricing [])) = Some (Fin q)
     \<and> 0 \<le> q \<and> q \<le> 10 ^ 23"
proof -
  have "rounding_sound example_pricing" by (auto simp: rounding_sound_def example_pricing_def)
  moreover have "row_int64 example_cost_row" by code_simp
  moreover obtain c where c: "costForTokens example_pricing example_cost_row
      (defaultModelPrices example_pricing (file_prices example_pricing [])) = Some c"
  proof -
    have "costForTokens example_pricing example_cost_row (defaultModelPrices example_pricing (file_prices example_pricing [])) \<noteq> None" by code_simp
    then show ?thesis using that by blast
  qed
  ultimately show ?thesis using cost_bounded [of example_pricing example_cost_row "[]" c] by auto
qed

text \<open>Each token of a row is paid once. The counts of the four classes of input tokens the price list tells apart add up to the input
  tokens whenever the cached tokens are part of the input and contain those read and those written; otherwise every token above is
  paid as well, none is paid twice, and nothing is lost to the 64 bits.\<close>

theorem tokens_paid_once:
  assumes "list_all (\<lambda>n. 0 \<le> n \<and> in_int64 n) [ct_InputTokens row, ct_CachedTokens row, ct_CacheReadTokens row, ct_CacheCreationTokens row]"
    "in_int64 (ct_CacheReadTokens row + ct_CacheCreationTokens row)"
  shows "prompt_tokens row + residual_cached row + maxInt64 (ct_CacheReadTokens row) 0 + maxInt64 (ct_CacheCreationTokens row) 0
     = ct_InputTokens row + max 0 (ct_CachedTokens row - ct_InputTokens row)
        + max 0 (ct_CacheReadTokens row + ct_CacheCreationTokens row - ct_CachedTokens row)"
proof -
  have w: "wrap64 n = n" if "- (2 ^ 63) \<le> n" "n < 2 ^ 63" for n
    using that by (simp add: wrap64_def signed_take_bit_int_eq_self)
  show ?thesis using assms by (auto simp: prompt_tokens_def residual_cached_def maxInt64_def Let_def in_int64_def w)
qed

theorem tokens_paid_once_witness:
  "prompt_tokens example_cost_row + residual_cached example_cost_row + maxInt64 (ct_CacheReadTokens example_cost_row) 0
     + maxInt64 (ct_CacheCreationTokens example_cost_row) 0 = 3000000"
  using tokens_paid_once [of example_cost_row] by (simp add: example_cost_row_def in_int64_def)

text \<open>A registered price is found. A price registered under a plain model name is the price of every row with this model, in any letter
  case, of a provider that has no price of its own for the model.\<close>

theorem registered_price_found:
  assumes "TrimSpace model = model" "model \<noteq> []" "CHR ''/'' \<notin> set model" "\<not> HasSuffix (ToLower model) '' openai''"
    "TrimSpace (ct_Provider row) = ct_Provider row" "ct_Provider row \<noteq> []" "CHR ''/'' \<notin> set (ct_Provider row)" "ToLower (ct_Provider row) \<noteq> ''openai''"
    "TrimSpace (ct_Model row) = ct_Model row" "ToLower (ct_Model row) = ToLower model"
    "map_of prices (ToLower (ct_Provider row) @ ''/'' @ ToLower model) = None"
  shows "resolveModelPrice row (registerPriceCandidate prices model price) = Some price"
proof -
  note M = plain_name [OF assms(1-3)]
  have registered: "registerPriceCandidate prices model price = AList.update (ToLower model) price prices"
    using assms(2,4) by (simp add: registerPriceCandidate_def M Let_def)
  have "ct_Model row \<noteq> []" "CHR ''/'' \<notin> set (ct_Model row)"
    using assms(2,3,10) slash_ToLower by (metis ToLower_eq_Nil(1), metis)
  then obtain t where "price_names row = (ToLower (ct_Provider row) @ ''/'' @ ToLower model) # ToLower model # t"
    using first_names [OF assms(5-9)] assms(4,10) by (auto simp: price_names_def)
  moreover have "ToLower (ct_Provider row) @ ''/'' @ ToLower model \<noteq> ToLower model" by simp
  ultimately show ?thesis using assms(11) by (simp add: registered resolveModelPrice_def)
qed

theorem registered_price_found_witness:
  "resolveModelPrice example_cost_row (registerPriceCandidate [] ''gpt-4O'' (plain_price example_pricing 1 2)) = Some (plain_price example_pricing 1 2)"
proof (rule registered_price_found)
  show "TrimSpace ''gpt-4O'' = ''gpt-4O''" "TrimSpace (ct_Provider example_cost_row) = ct_Provider example_cost_row"
    "TrimSpace (ct_Model example_cost_row) = ct_Model example_cost_row" "\<not> HasSuffix (ToLower ''gpt-4O'') '' openai''" by code_simp+
qed (simp_all add: example_cost_row_def)

end
