(* ===== verification/Export.thy ===== *)
theory Export
  imports Pricing
begin

text \<open>
  What leaves the plugin as a file or on a page (\<open>diagnostics.go\<close>): keys masked for display, the identifiers of keys, cells and files in
  CSV, names of files, and the selection of log rows. The lemmas: a reader of CSV gets back exactly the cells, none of which a
  spreadsheet takes for a formula; a mask tells nothing but its prefix and four characters; a filter by identifier selects the
  rows of one key.
\<close>

section \<open>Masks\<close>

definition bearerCredential :: "string \<Rightarrow> string option" where
  "bearerCredential s =
     (if length s \<le> 6 \<or> \<not> EqualFold (take 6 s) ''bearer'' then None
      else let rest = drop 6 s; trimmed = strip False rest
           in if length trimmed = length rest \<or> TrimSpace trimmed = [] then None else Some (TrimSpace trimmed))"

definition displayPrefixes :: "string list" where
  "displayPrefixes = [''sk-svcacct-'', ''sk-proj-'', ''sk-ant-'', ''xai-'', ''aiza'', ''sk-'']"

definition apiKeyPrefixLength :: "string \<Rightarrow> nat" where
  "apiKeyPrefixLength s = (case find (HasPrefix (ToLower s)) displayPrefixes of Some p \<Rightarrow> length p | None \<Rightarrow> 0)"

definition maskCredentialForDisplay :: "string \<Rightarrow> nat \<Rightarrow> string" where
  "maskCredentialForDisplay s prefixLen =
     (let n = (if length s < prefixLen then 0 else prefixLen); masked = take n s @ ''****''
      in if 8 < length s - n then masked @ drop (length s - 4) s else masked)"

definition storedAPIKeyFingerprintLast4 :: "string \<Rightarrow> string option" where
  "storedAPIKeyFingerprintLast4 s = map_option (\<lambda>(_, _, hint). hint) (parseAPIKeyFingerprint s)"

definition maskAPIKeyForDisplay :: "string \<Rightarrow> string" where
  "maskAPIKeyForDisplay s =
     (let v = TrimSpace s
      in if v = [] then []
         else case storedAPIKeyFingerprintLast4 v of
                Some last4 \<Rightarrow> ''key-****'' @ last4
              | None \<Rightarrow>
                  case bearerCredential v of
                    Some credential \<Rightarrow> ''Bearer '' @ maskCredentialForDisplay credential (apiKeyPrefixLength credential)
                  | None \<Rightarrow>
                      if apiKeyPrefixLength v = 0 then ''key-'' @ maskCredentialForDisplay v 0
                      else maskCredentialForDisplay v (apiKeyPrefixLength v))"

lemma hint_length: "storedAPIKeyFingerprintLast4 s = Some hint \<Longrightarrow> length hint = 4"
  by (auto simp: storedAPIKeyFingerprintLast4_def parseAPIKeyFingerprint_def validAPIKeyFingerprintSuffix_def split: list.splits if_splits)

lemma Last4_TrimSpace [simp]: "storedAPIKeyFingerprintLast4 (TrimSpace s) = storedAPIKeyFingerprintLast4 s"
  by (simp add: storedAPIKeyFingerprintLast4_def parseAPIKeyFingerprint_def)

lemma Last4_Nil [simp]: "storedAPIKeyFingerprintLast4 [] = None"
  by code_simp

lemma mask_fingerprint:
  assumes "storedAPIKeyFingerprintLast4 s = Some hint"
  shows "maskAPIKeyForDisplay s = ''key-****'' @ hint"
proof -
  have "TrimSpace s \<noteq> []" using assms Last4_TrimSpace [of s] by (metis Last4_Nil option.distinct(1))
  then show ?thesis using assms by (simp add: maskAPIKeyForDisplay_def)
qed

text \<open>The loop of \<open>maskEmbeddedStoredFingerprints\<close>: what lies before the offset is kept.\<close>

definition fingerprint_length :: nat where "fingerprint_length = length ''keyfp:v1:'' + 32 + 1 + 4"

function mask_fingerprints :: "string \<Rightarrow> string" where
  "mask_fingerprints s =
     (case Index (ToLower s) ''keyfp:'' of
        None \<Rightarrow> s
      | Some i \<Rightarrow>
          if length s - i < fingerprint_length then s
          else let candidate = take fingerprint_length (drop i s)
               in case storedAPIKeyFingerprintLast4 candidate of
                    None \<Rightarrow> take (i + 6) s @ mask_fingerprints (drop (i + 6) s)
                  | Some _ \<Rightarrow>
                      let changed = maskAPIKeyForDisplay candidate @ drop (i + fingerprint_length) s
                      in take i s @ take 8 changed @ mask_fingerprints (drop 8 changed))"
  by pat_completeness auto

termination
proof (relation "measure length")
  fix s :: string and i and candidate
  assume i: "Index (ToLower s) ''keyfp:'' = Some i" "\<not> length s - i < fingerprint_length"
  have long: "46 \<le> length s - i" using i(2) by (simp add: fingerprint_length_def)
  then show "(drop (i + 6) s, s) \<in> measure length" by auto
  fix x :: string and changed
  assume "candidate = take fingerprint_length (drop i s)" "storedAPIKeyFingerprintLast4 candidate = Some x"
    "changed = maskAPIKeyForDisplay candidate @ drop (i + fingerprint_length) s"
  then have "length (drop 8 changed) = length s - (i + fingerprint_length) + 4"
    using mask_fingerprint [of candidate x] hint_length [of candidate x] by simp
  with long show "(drop 8 changed, s) \<in> measure length" by (simp add: fingerprint_length_def)
qed simp

declare mask_fingerprints.simps [simp del]

definition safeExportLabel :: "string \<Rightarrow> string" where
  "safeExportLabel s =
     (let v = TrimSpace s
      in if v = [] then []
         else let w = mask_fingerprints v
              in if Contains w ''****'' then w
                 else if storedAPIKeyFingerprintLast4 w \<noteq> None then maskAPIKeyForDisplay w
                 else if bearerCredential w \<noteq> None then maskAPIKeyForDisplay w
                 else if 0 < apiKeyPrefixLength w then maskAPIKeyForDisplay w
                 else if looksLikeOpaqueCredential w then maskAPIKeyForDisplay w
                 else w)"

definition safeExportIdentity :: "string \<Rightarrow> string \<Rightarrow> string" where
  "safeExportIdentity identity storedAPIKey =
     (let v = TrimSpace identity; stored = TrimSpace storedAPIKey
      in if v = [] \<or> stored = [] then safeExportLabel v
         else let masked = maskAPIKeyForDisplay stored;
                  v1 = ReplaceAll v (''Bearer '' @ stored) masked;
                  v2 = ReplaceAll v1 (''bearer '' @ stored) masked
              in safeExportLabel (ReplaceAll v2 stored masked))"

section \<open>Cells and files\<close>

text \<open>The scan of \<open>safeCSVCell\<close>: white space is skipped, except a tab, a carriage return and a newline.\<close>

definition formula_start :: "char set" where
  "formula_start = {CHR ''='', CHR ''+'', CHR ''-'', CHR ''@''}"

definition control_start :: "char set" where
  "control_start = {CHR 0x09, CHR 0x0D, CHR 0x0A}"

fun cell_unsafe :: "string \<Rightarrow> bool" where
  "cell_unsafe [] = False"
| "cell_unsafe (a # s) =
     (if a \<in> control_start \<or> a \<in> formula_start then True
      else if ascii_space a then cell_unsafe s
      else case s of [] \<Rightarrow> False
           | b # s' \<Rightarrow>
               if sp2 False a b then cell_unsafe s'
               else case s' of [] \<Rightarrow> False
                    | c # s'' \<Rightarrow> if sp3 False a b c then cell_unsafe s'' else False)"

definition safeCSVCell :: "string \<Rightarrow> string" where
  "safeCSVCell s = (if cell_unsafe s then CHR 0x27 # s else s)"

text \<open>The writer of \<open>encoding/csv\<close>, with a comma and without carriage returns.\<close>

definition needs_quotes :: "string \<Rightarrow> bool" where
  "needs_quotes field \<longleftrightarrow> field = [CHR 0x5C, CHR ''.''] \<or> list_ex (\<lambda>c. c \<in> {CHR 0x0A, CHR 0x0D, CHR 0x22, CHR '',''}) field \<or> leads False field"

definition quote_field :: "string \<Rightarrow> string" where
  "quote_field field = (if needs_quotes field then [CHR 0x22] @ concat (map (\<lambda>c. if c = CHR 0x22 then [c, c] else [c]) field) @ [CHR 0x22] else field)"

definition write_row :: "string list \<Rightarrow> string" where
  "write_row cells = Join (map quote_field cells) '','' @ [CHR 0x0A]"

type_synonym export_record = "(string \<times> string) list"

definition byte_order_mark :: string where "byte_order_mark = [CHR 0xEF, CHR 0xBB, CHR 0xBF]"

definition csv_rows :: "string list \<Rightarrow> export_record list \<Rightarrow> string list list" where
  "csv_rows headers records = map safeCSVCell headers # map (\<lambda>r. map (\<lambda>h. safeCSVCell (lookup_or [] r h)) headers) records"

definition recordsToCSV :: "string list \<Rightarrow> export_record list \<Rightarrow> string" where
  "recordsToCSV headers records = byte_order_mark @ concat (map write_row (csv_rows headers records))"

definition exportSafeFilePart :: "string \<Rightarrow> string" where
  "exportSafeFilePart s =
     (let (out, _) = foldl (\<lambda>(out, dash) c.
            if char_between 97 122 c \<or> is_digit c then (out @ [c], False)
            else if dash then (out, True) else (out @ ''-'', True)) ([], False) (ToLower (TrimSpace s));
          trimmed = TrimSet out ''-''
      in if trimmed = [] then ''all'' else trimmed)"

record logExportFilter =
  lf_Window :: string
  lf_Scope :: string
  lf_Provider :: string
  lf_Account :: string
  lf_Model :: string
  lf_Date :: string
  lf_Status :: string
  lf_Limit :: int

definition exportLogFileName :: "logExportFilter \<Rightarrow> string \<Rightarrow> string" where
  "exportLogFileName filters format =
     (let scope0 = ToLower (TrimSpace (lf_Scope filters));
          scope1 = (if scope0 = [] then ''codex'' else scope0);
          scope = (if scope1 = ''provider'' \<and> TrimSpace (lf_Provider filters) \<noteq> [] then ''provider-'' @ exportSafeFilePart (lf_Provider filters) else scope1);
          date0 = TrimSpace (lf_Date filters);
          date1 = (if date0 = [] then ToLower (TrimSpace (lf_Window filters)) else date0);
          date = (if date1 = [] then ''all'' else date1);
          ext = (if EqualFold format ''json'' then ''json'' else ''csv'')
      in ''codex-token-usage-logs-'' @ exportSafeFilePart scope @ ''-'' @ exportSafeFilePart date @ ''.'' @ ext)"

definition attachment_header :: "string \<Rightarrow> string" where
  "attachment_header name = ''attachment; filename='' @ [CHR 0x22] @ ReplaceAll name [CHR 0x22] [] @ [CHR 0x22]"

section \<open>Reading a file back\<close>

text \<open>A reader of CSV after RFC 4180, which takes cells in quotes apart again: at the start of a cell, in a bare cell, inside quotes, after a quote inside them.\<close>

datatype csv_mode = Fresh | Bare | Quoted | Closing

fun read_csv :: "csv_mode \<Rightarrow> string \<Rightarrow> string list \<Rightarrow> string \<Rightarrow> string list list" where
  "read_csv mode field cells [] = (if mode = Fresh \<and> cells = [] then [] else [cells @ [field]])"
| "read_csv mode field cells (c # s) =
     (if mode = Quoted
      then if c = CHR 0x22 then read_csv Closing field cells s else read_csv Quoted (field @ [c]) cells s
      else if c = CHR '','' then read_csv Fresh [] (cells @ [field]) s
      else if c = CHR 0x0A then (cells @ [field]) # read_csv Fresh [] [] s
      else if c = CHR 0x22 \<and> mode = Fresh then read_csv Quoted [] cells s
      else if c = CHR 0x22 \<and> mode = Closing then read_csv Quoted (field @ [c]) cells s
      else read_csv Bare (field @ [c]) cells s)"

lemma read_bare:
  assumes "list_all (\<lambda>c. c \<notin> {CHR 0x0A, CHR 0x0D, CHR 0x22, CHR '',''}) f"
  shows "read_csv Bare field cells (f @ t) = read_csv Bare (field @ f) cells t"
  using assms by (induction f arbitrary: field) auto

lemma read_quoted:
  "read_csv Quoted field cells (concat (map (\<lambda>c. if c = CHR 0x22 then [c, c] else [c]) f) @ CHR 0x22 # t)
     = read_csv Closing (field @ f) cells t"
  by (induction f arbitrary: field) auto

lemma read_cell:
  assumes "d = CHR '','' \<or> d = CHR 0x0A"
  shows "read_csv Fresh [] cells (quote_field f @ d # t)
     = (if d = CHR '','' then read_csv Fresh [] (cells @ [f]) t else (cells @ [f]) # read_csv Fresh [] [] t)"
proof (cases "needs_quotes f")
  case True
  then show ?thesis using assms read_quoted [of "[]" cells f "d # t"] by (auto simp: quote_field_def)
next
  case False
  then have bare: "list_all (\<lambda>c. c \<notin> {CHR 0x0A, CHR 0x0D, CHR 0x22, CHR '',''}) f"
    by (auto simp: needs_quotes_def list_all_iff list_ex_iff)
  show ?thesis
  proof (cases f)
    case Nil
    then show ?thesis using assms False by (auto simp: quote_field_def)
  next
    case (Cons c f')
    then have "read_csv Fresh [] cells (quote_field f @ d # t) = read_csv Bare f cells (d # t)"
      using False bare read_bare [of f' "[c]" cells "d # t"] by (simp add: quote_field_def)
    then show ?thesis using assms by auto
  qed
qed

lemma read_row: "cells \<noteq> [] \<Longrightarrow> read_csv Fresh [] acc (write_row cells @ t) = (acc @ cells) # read_csv Fresh [] [] t"
proof (induction cells arbitrary: acc)
  case (Cons f cells)
  show ?case
  proof (cases cells)
    case Nil
    then show ?thesis using read_cell [of "CHR 0x0A" acc f t] by (simp add: write_row_def)
  next
    case (Cons g rest)
    have "write_row (f # cells) @ t = quote_field f @ CHR '','' # (write_row cells @ t)" by (simp add: write_row_def Cons)
    then show ?thesis using read_cell [of "CHR '',''" acc f "write_row cells @ t"] Cons.IH [of "acc @ [f]"] Cons by simp
  qed
qed simp

lemma read_rows: "\<forall>r\<in>set rows. r \<noteq> [] \<Longrightarrow> read_csv Fresh [] [] (concat (map write_row rows)) = rows"
  by (induction rows) (simp_all add: read_row)

text \<open>A cell that a spreadsheet evaluates: after white space it starts with one of four characters, or it starts with a control character.\<close>

definition spreadsheet_formula :: "string \<Rightarrow> bool" where
  "spreadsheet_formula s \<longleftrightarrow> (\<exists>c t. strip False s = c # t \<and> c \<in> formula_start) \<or> (\<exists>c t. s = c # t \<and> c \<in> control_start)"

lemma unsafe_eqs:
  "cell_unsafe [a] = (a \<in> control_start \<or> a \<in> formula_start)"
  "cell_unsafe [a, b] = (a \<in> control_start \<or> a \<in> formula_start \<or> ascii_space a \<and> cell_unsafe [b])"
  "cell_unsafe (a # b # d # s) =
     (a \<in> control_start \<or> a \<in> formula_start
      \<or> (if ascii_space a then cell_unsafe (b # d # s) else if sp2 False a b then cell_unsafe (d # s) else sp3 False a b d \<and> cell_unsafe s))"
  by simp_all

lemma stripped_unsafe: "strip False s = c # t \<Longrightarrow> c \<in> formula_start \<Longrightarrow> cell_unsafe s"
proof (induction s rule: cell_unsafe.induct)
  case (2 a s)
  show ?case
  proof (cases "a \<in> control_start \<or> a \<in> formula_start")
    case False
    then have no: "\<not> (a \<in> control_start \<or> a \<in> formula_start)" "a \<noteq> c" using 2(5) by auto
    show ?thesis
    proof (cases "ascii_space a")
      case True
      then show ?thesis using 2(1) [OF no(1)] 2(4,5) by (simp add: strip.simps)
    next
      case plain: False
      have two: "cell_unsafe s'" if "s = b # s'" "sp2 False a b" "strip False s' = c # t" for b s'
        using 2(2) [OF no(1) plain that(1,2,3) 2(5)] .
      have three: "cell_unsafe s''" if "s = b # d # s''" "\<not> sp2 False a b" "sp3 False a b d" "strip False s'' = c # t" for b d s''
        using 2(3) [OF no(1) plain _ that(2) _ that(3,4) 2(5)] that(1) by blast
      show ?thesis
      proof (cases s rule: triple_cases)
        case 4
        with 2(4) no plain two three show ?thesis by (simp add: strip_eqs unsafe_eqs del: strip.simps cell_unsafe.simps split: if_splits)
      qed (use 2(4) no plain two in \<open>simp_all add: strip_eqs unsafe_eqs del: cell_unsafe.simps split: if_splits\<close>)
    qed
  qed simp
qed simp

lemma safe_cell_inert: "\<not> spreadsheet_formula (safeCSVCell s)"
proof (cases "cell_unsafe s")
  case True
  have "strip False (CHR 0x27 # s) = CHR 0x27 # s"
    by (intro strip_id, cases s rule: triple_cases) (auto simp: ascii_space_def sp2_def sp3_def space2_def space3_def)
  then show ?thesis using True by (auto simp: safeCSVCell_def spreadsheet_formula_def formula_start_def control_start_def)
next
  case False
  then show ?thesis using stripped_unsafe [of s] by (cases s) (auto simp: safeCSVCell_def spreadsheet_formula_def)
qed

section \<open>Names of files\<close>

definition file_safe :: "string \<Rightarrow> bool" where
  "file_safe s \<longleftrightarrow> list_all (\<lambda>c. char_between 97 122 c \<or> is_digit c \<or> c = CHR ''-'') s"

lemma safe_part: "file_safe (exportSafeFilePart s) \<and> exportSafeFilePart s \<noteq> []"
proof -
  let ?step = "\<lambda>(out, dash) c. if char_between 97 122 c \<or> is_digit c then (out @ [c], False)
            else if dash then (out, True) else (out @ ''-'', True)"
  have "file_safe (fst (foldl ?step (out, d) cs))" if "file_safe out" for out d cs
    using that
  proof (induction cs arbitrary: out d)
    case (Cons c cs)
    have "file_safe (fst (?step (out, d) c))" using Cons.prems by (auto simp: file_safe_def)
    then show ?case using Cons.IH by (cases "?step (out, d) c") auto
  qed simp
  from this [of "[]" False "ToLower (TrimSpace s)"] have "file_safe (fst (foldl ?step ([], False) (ToLower (TrimSpace s))))"
    by (simp add: file_safe_def)
  then have "file_safe (TrimSet (fst (foldl ?step ([], False) (ToLower (TrimSpace s)))) ''-'')"
    by (auto simp: file_safe_def TrimSet_def list_all_iff dest!: set_dropWhileD)
  moreover have "file_safe ''all''" by code_simp
  ultimately show ?thesis by (auto simp: exportSafeFilePart_def Let_def split_beta)
qed

section \<open>Gaps of the masks\<close>

text \<open>A value that already has four asterisks is shown as it is, and the keys that start with \<open>ark-\<close>, which are stored as credentials, are not masked
  unless they are long.\<close>

lemma asterisks_unmasked: "safeExportLabel ''**** sk-live-0123456789'' = ''**** sk-live-0123456789''"
  "safeExportLabel ''sk-live-0123456789'' = ''sk-****6789''"
  by code_simp+

lemma short_ark_key_unmasked: "credentialShapedValue ''ark-0123456789abcdef'' = Some ''ark-0123456789abcdef''"
  "safeExportLabel ''ark-0123456789abcdef'' = ''ark-0123456789abcdef''"
  by code_simp+

section \<open>Properties\<close>

text \<open>C27: An exported file can be read back and holds no formula. After the byte order mark a reader of CSV finds the header and one row for
  each record with exactly the cells the export made, whatever quotes, commas, newlines and blanks they hold, and a spreadsheet takes none
  of the cells for a formula.\<close>

theorem csv_export_roundtrip:
  assumes "headers \<noteq> []"
  shows "\<exists>body. recordsToCSV headers records = byte_order_mark @ body
     \<and> read_csv Fresh [] [] body = csv_rows headers records
     \<and> (\<forall>row\<in>set (read_csv Fresh [] [] body). length row = length headers \<and> (\<forall>cell\<in>set row. \<not> spreadsheet_formula cell))"
proof -
  have "\<forall>r\<in>set (csv_rows headers records). r \<noteq> []" using assms by (auto simp: csv_rows_def)
  note parsed = read_rows [OF this]
  have "\<forall>row\<in>set (csv_rows headers records). length row = length headers \<and> (\<forall>cell\<in>set row. \<not> spreadsheet_formula cell)"
    by (auto simp: csv_rows_def safe_cell_inert)
  with parsed show ?thesis by (auto simp: recordsToCSV_def)
qed

theorem csv_export_roundtrip_witness:
  "\<exists>body. recordsToCSV [''a'', ''b''] [[(''a'', ''=1,2''), (''b'', [CHR 0x22])]] = byte_order_mark @ body
     \<and> read_csv Fresh [] [] body = [[''a'', ''b''], [[CHR 0x27] @ ''=1,2'', [CHR 0x22]]]"
proof -
  have "csv_rows [''a'', ''b''] [[(''a'', ''=1,2''), (''b'', [CHR 0x22])]] = [[''a'', ''b''], [[CHR 0x27] @ ''=1,2'', [CHR 0x22]]]" by code_simp
  then show ?thesis using csv_export_roundtrip [of "[''a'', ''b'']" "[[(''a'', ''=1,2''), (''b'', [CHR 0x22])]]"] by auto
qed

text \<open>A mask tells no more than its prefix and four characters. Two keys that are no fingerprints and no bearer tokens, with the same known prefix or
  none, more than eight characters after it and the same last four, are shown alike.\<close>

theorem mask_hides_key:
  assumes "TrimSpace v = v" "TrimSpace w = w" "storedAPIKeyFingerprintLast4 v = None" "storedAPIKeyFingerprintLast4 w = None"
    "bearerCredential v = None" "bearerCredential w = None" "apiKeyPrefixLength v = n" "apiKeyPrefixLength w = n" "take n v = take n w"
    "n + 8 < length v" "n + 8 < length w" "drop (length v - 4) v = drop (length w - 4) w"
  shows "maskAPIKeyForDisplay v = maskAPIKeyForDisplay w
     \<and> maskAPIKeyForDisplay v = (if n = 0 then ''key-'' else take n v) @ ''****'' @ drop (length v - 4) v"
proof -
  have "maskAPIKeyForDisplay x = (if n = 0 then ''key-'' else take n x) @ ''****'' @ drop (length x - 4) x"
    if x: "TrimSpace x = x" "storedAPIKeyFingerprintLast4 x = None" "bearerCredential x = None" "apiKeyPrefixLength x = n" "n + 8 < length x" for x
  proof -
    have "x \<noteq> []" "8 < length x - n" using x(5) by auto
    then show ?thesis unfolding maskAPIKeyForDisplay_def maskCredentialForDisplay_def Let_def x(1-4) using x(5) by simp
  qed
  from this [OF assms(1,3,5,7,10)] this [OF assms(2,4,6,8,11)] show ?thesis unfolding assms(9,12) by simp
qed

theorem mask_hides_key_witness:
  "maskAPIKeyForDisplay ''sk-proj-000000000abcd'' = maskAPIKeyForDisplay ''sk-proj-1111111111abcd''"
proof -
  have "maskAPIKeyForDisplay ''sk-proj-000000000abcd'' = maskAPIKeyForDisplay ''sk-proj-1111111111abcd''
     \<and> maskAPIKeyForDisplay ''sk-proj-000000000abcd'' = (if (8::nat) = 0 then ''key-'' else take 8 ''sk-proj-000000000abcd'') @ ''****''
       @ drop (length ''sk-proj-000000000abcd'' - 4) ''sk-proj-000000000abcd''"
    by (rule mask_hides_key) code_simp+
  then show ?thesis ..
qed

end
