(* ===== verification/Summary_Rows.thy ===== *)
theory Summary_Rows
  imports Export
begin

text \<open>
  The figures of a summary: totals, providers, keys and models over the generated events of a window (\<open>summary.go\<close>), and what they cost
  (\<open>pricing.go\<close>). A query groups the events and adds them up; the order of groups that SQL does not fix is an
  argument, as is the error of a query (a sum that leaves 64 bits is one). The lemmas: the rows of the providers add up to
  the totals, and a cost that is called available leaves out no event.
\<close>

section \<open>Columns computed from an event\<close>

record query_env =
  qv_key :: key_env
  qv_entries :: "providerConfigEntry list"
  qv_concat :: "string list \<Rightarrow> string list"
  qv_time :: "int \<Rightarrow> string"
  qv_digest :: "string \<Rightarrow> string"

definition providerSupportsAPIKeyEndpointName :: "string \<Rightarrow> bool" where
  "providerSupportsAPIKeyEndpointName provider \<longleftrightarrow> ToLower (TrimSpace provider) \<in> {''codex'', ''claude'', ''gemini'', ''antigravity''}"

definition providerSQLPredicate :: "string \<Rightarrow> usage_event \<Rightarrow> bool" where
  "providerSQLPredicate provider e \<longleftrightarrow>
     (let p = ToLower (TrimSpace provider); column = ToLower (ev_Provider e)
      in if p = ''claude'' then column \<in> {''anthropic'', ''claude''}
         else if p = ''gemini'' then HasPrefix column ''gemini''
         else column = p)"

definition names_endpoint :: "query_env \<Rightarrow> providerConfigEntry \<Rightarrow> usage_event \<Rightarrow> bool" where
  "names_endpoint qv entry e \<longleftrightarrow>
     TrimSpace (pe_Provider entry) \<noteq> [] \<and> privacySafeAPIKey (qv_key qv) (pe_APIKey entry) \<noteq> [] \<and> TrimSpace (pe_Name entry) \<noteq> []
     \<and> providerSupportsAPIKeyEndpointName (TrimSpace (pe_Provider entry))
     \<and> providerSQLPredicate (TrimSpace (pe_Provider entry)) e \<and> api_key_type e
     \<and> ev_Source e = privacySafeAPIKey (qv_key qv) (pe_APIKey entry)"

definition like_prefix :: "string \<Rightarrow> string \<Rightarrow> bool" where
  "like_prefix s p \<longleftrightarrow> HasPrefix (ToLower s) (ToLower p)"

text \<open>The \<open>CASE\<close> of \<open>cpaProviderSQLWithEntries\<close>.\<close>

definition cpaProvider :: "query_env \<Rightarrow> usage_event \<Rightarrow> string" where
  "cpaProvider qv e =
     (let rest = drop (length ''openai-compatibility:'') (ev_AuthID e); p = ToLower (ev_Provider e)
      in if like_prefix (ev_AuthID e) ''openai-compatibility:'' \<and> CHR '':'' \<in> set rest then takeWhile (\<lambda>c. c \<noteq> CHR '':'') rest
         else if like_prefix (ev_Provider e) ''openai-compatible-'' then drop (length ''openai-compatible-'') (ev_Provider e)
         else if like_prefix (ev_Provider e) ''openai-compatibility-'' then drop (length ''openai-compatibility-'') (ev_Provider e)
         else if p \<in> {''openai-compatible'', ''openai-compatibility''} \<and> ev_Source e \<noteq> [] \<and> \<not> like_prefix (ev_Source e) ''sk-''
                 \<and> \<not> like_prefix (ev_Source e) ''ark-'' \<and> \<not> like_prefix (ev_Source e) ''Bearer '' then ev_Source e
         else case find (\<lambda>entry. names_endpoint qv entry e) (qv_entries qv) of
                Some entry \<Rightarrow> TrimSpace (pe_Name entry)
              | None \<Rightarrow>
                  if p \<in> {''anthropic'', ''claude''} then ''Claude''
                  else if HasPrefix p ''gemini'' then ''Gemini''
                  else if p = ''codex'' then ''Codex''
                  else if ev_Provider e \<noteq> [] then ev_Provider e else ''unknown'')"

definition keyProtocol :: "usage_event \<Rightarrow> string" where
  "keyProtocol e =
     (let a = ToLower (ev_AuthType e); x = ToLower (ev_ExecutorType e); p = ToLower (ev_Provider e)
      in if a \<in> {''apikey'', ''api_key'', ''key'', ''api-key''} then ''apikey''
         else if a \<in> {''oauth'', ''codex''} then a
         else if Contains x ''codex'' then ''codex''
         else if Contains x ''claude'' \<or> p \<in> {''anthropic'', ''claude''} then ''claude''
         else if Contains x ''gemini'' \<or> HasPrefix p ''gemini'' then ''gemini''
         else if HasPrefix p ''openai'' then ''openai-compatible''
         else if a \<noteq> [] then a else if p \<noteq> [] then p else ''unknown'')"

definition scoped_events :: "query_env \<Rightarrow> usage_db \<Rightarrow> int \<Rightarrow> string \<Rightarrow> usage_event list" where
  "scoped_events qv db since scope =
     filter (\<lambda>e. since \<le> ev_RequestedAt e \<and> generatedUsageScope (qv_key qv) (qv_entries qv) scope e) (us_events db)"

definition keyed_events :: "usage_db \<Rightarrow> int \<Rightarrow> usage_event list" where
  "keyed_events db since = filter (\<lambda>e. ev_Generate e \<and> since \<le> ev_RequestedAt e \<and> ev_APIKey e \<noteq> []) (us_events db)"

section \<open>Groups\<close>

definition groups :: "('e \<Rightarrow> 'k) \<Rightarrow> 'e list \<Rightarrow> ('k \<times> 'e list) list" where
  "groups f es = map (\<lambda>k. (k, filter (\<lambda>e. f e = k) es)) (remdups (map f es))"

definition limit_rows :: "int \<Rightarrow> 'r list \<Rightarrow> 'r list" where
  "limit_rows limit rows = (if limit < 0 then rows else take (nat limit) rows)"

definition event_sum :: "(usageDetail \<Rightarrow> int) \<Rightarrow> usage_event list \<Rightarrow> int" where
  "event_sum column es = sum_list (map (column \<circ> ev_Detail) es)"

definition event_count :: "(usage_event \<Rightarrow> bool) \<Rightarrow> usage_event list \<Rightarrow> int" where
  "event_count p es = int (length (filter p es))"

definition average :: "price_env \<Rightarrow> int list \<Rightarrow> go_float" where
  "average pv ns = (if ns = [] then Fin 0 else pv_round pv (of_int (sum_list ns) / of_nat (length ns)))"

definition event_duration :: "usage_event \<Rightarrow> int" where
  "event_duration e = max (ev_LatencyMs e) (ev_TTFTMs e)"

definition timed :: "usage_event \<Rightarrow> bool" where
  "timed e \<longleftrightarrow> ev_Generate e \<and> 0 < ud_OutputTokens (ev_Detail e) \<and> 1000 \<le> event_duration e
     \<and> \<not> (ev_LatencyMs e = ev_TTFTMs e \<and> 1000 \<le> ud_OutputTokens (ev_Detail e) \<and> event_duration e < 5000)"

definition throughput :: "price_env \<Rightarrow> usage_event list \<Rightarrow> go_float" where
  "throughput pv es =
     (let duration = sum_list (map event_duration (filter timed es))
      in if duration = 0 then Fin 0
         else case float_mul pv (float_of_int pv (event_sum ud_OutputTokens (filter timed es))) (Fin 1000) of
                Fin q \<Rightarrow> pv_round pv (q / of_int duration)
              | v \<Rightarrow> v)"

text \<open>The columns that all rows share; the costs are filled in later.\<close>

record usage_metrics =
  um_Requests :: int
  um_Failed :: int
  um_RateLimited :: int
  um_InputTokens :: int
  um_OutputTokens :: int
  um_ReasoningTokens :: int
  um_CachedTokens :: int
  um_CacheReadTokens :: int
  um_CacheCreationTokens :: int
  um_TotalTokens :: int
  um_AverageLatencyMs :: go_float
  um_AverageTTFTMs :: go_float
  um_OutputTokensPerSecond :: go_float
  um_SlowRequests :: int
  um_SlowTTFTRequests :: int
  um_CostUSD :: go_float
  um_CostAvailable :: bool
  um_UnpricedTokens :: int

definition metrics :: "price_env \<Rightarrow> usage_event list \<Rightarrow> usage_metrics" where
  "metrics pv es = \<lparr>um_Requests = int (length es), um_Failed = event_count ev_Failed es, um_RateLimited = event_count (\<lambda>e. ev_StatusCode e = 429) es,
     um_InputTokens = event_sum ud_InputTokens es, um_OutputTokens = event_sum ud_OutputTokens es,
     um_ReasoningTokens = event_sum ud_ReasoningTokens es, um_CachedTokens = event_sum ud_CachedTokens es,
     um_CacheReadTokens = event_sum ud_CacheReadTokens es, um_CacheCreationTokens = event_sum ud_CacheCreationTokens es,
     um_TotalTokens = event_sum ud_TotalTokens es,
     um_AverageLatencyMs = average pv (filter (\<lambda>n. 0 < n) (map ev_LatencyMs es)),
     um_AverageTTFTMs = average pv (filter (\<lambda>n. 0 < n) (map ev_TTFTMs es)), um_OutputTokensPerSecond = throughput pv es,
     um_SlowRequests = event_count (\<lambda>e. 12000 \<le> ev_LatencyMs e) es, um_SlowTTFTRequests = event_count (\<lambda>e. 3000 \<le> ev_TTFTMs e) es,
     um_CostUSD = Fin 0, um_CostAvailable = False, um_UnpricedTokens = 0\<rparr>"

definition distinct_values :: "string list \<Rightarrow> int" where
  "distinct_values ss = int (length (remdups (filter (\<lambda>s. s \<noteq> []) ss)))"

definition event_account :: "usage_event \<Rightarrow> string" where
  "event_account e = (if ev_AuthIndex e \<noteq> [] then ev_AuthIndex e else if ev_AuthID e \<noteq> [] then ev_AuthID e else ev_Source e)"

section \<open>Totals and rows\<close>

record totalsRow = usage_metrics +
  tt_SecondaryQuotaTotalEstimate :: int
  tt_SecondaryQuotaRemainingEstimate :: int
  tt_SecondaryQuotaEstimatedAccounts :: int

definition queryOneTotals :: "price_env \<Rightarrow> query_env \<Rightarrow> string option \<Rightarrow> usage_db \<Rightarrow> int \<Rightarrow> string \<Rightarrow> (string, totalsRow) result" where
  "queryOneTotals pv qv err db since scope =
     (case err of
        Some e \<Rightarrow> Inl e
      | None \<Rightarrow> Inr (usage_metrics.extend (metrics pv (scoped_events qv db since scope)) (totalsRow.fields 0 0 0)))"

definition queryHasXAIUsage :: "string option \<Rightarrow> usage_db \<Rightarrow> int \<Rightarrow> (string, bool) result" where
  "queryHasXAIUsage err db since =
     (case err of
        Some e \<Rightarrow> Inl e
      | None \<Rightarrow> Inr (list_ex (\<lambda>e. ev_Provider e \<in> {''xai'', ''XAI''} \<and> ev_Generate e \<and> since \<le> ev_RequestedAt e) (us_events db)))"

record providerRow = usage_metrics +
  pr_Provider :: string
  pr_Accounts :: int
  pr_Models :: int
  pr_LastSeen :: string

definition last_seen :: "query_env \<Rightarrow> usage_event list \<Rightarrow> string" where
  "last_seen qv es = qv_time qv (Max (set (map ev_RequestedAt es)))"

definition queryProviders ::
  "price_env \<Rightarrow> query_env \<Rightarrow> string option \<Rightarrow> ((string \<times> usage_event list) list \<Rightarrow> (string \<times> usage_event list) list)
   \<Rightarrow> usage_db \<Rightarrow> int \<Rightarrow> int \<Rightarrow> string \<Rightarrow> (string, providerRow list) result" where
  "queryProviders pv qv err order db since limit scope =
     (case err of
        Some e \<Rightarrow> Inl e
      | None \<Rightarrow>
          Inr (limit_rows limit (sort_key (\<lambda>r. - um_TotalTokens r)
            (map (\<lambda>(provider, es). usage_metrics.extend (metrics pv es)
                (providerRow.fields provider (distinct_values (map event_account es)) (distinct_values (map ev_Model es)) (last_seen qv es)))
              (order (groups (cpaProvider qv) (scoped_events qv db since scope)))))))"

record modelRow = usage_metrics +
  mr_Model :: string
  mr_Alias :: string
  mr_Provider :: string

text \<open>A row of a model has no columns for failures and rate limits.\<close>

definition queryModels ::
  "price_env \<Rightarrow> query_env \<Rightarrow> string option
   \<Rightarrow> (((string \<times> string \<times> string) \<times> usage_event list) list \<Rightarrow> ((string \<times> string \<times> string) \<times> usage_event list) list)
   \<Rightarrow> usage_db \<Rightarrow> int \<Rightarrow> int \<Rightarrow> string \<Rightarrow> (string, modelRow list) result" where
  "queryModels pv qv err order db since limit scope =
     (case err of
        Some e \<Rightarrow> Inl e
      | None \<Rightarrow>
          Inr (limit_rows limit (sort_key (\<lambda>r. - um_TotalTokens r)
            (map (\<lambda>((model, name, provider), es).
                usage_metrics.extend ((metrics pv es)\<lparr>um_Failed := 0, um_RateLimited := 0\<rparr>) (modelRow.fields model name provider))
              (order (groups (\<lambda>e. (ev_Model e, ev_Alias e, cpaProvider qv e)) (scoped_events qv db since scope)))))))"

text \<open>The names of the providers behind a key: one string of names joined by commas comes from \<open>GROUP_CONCAT\<close>.\<close>

definition add_provider_name :: "string list \<Rightarrow> string \<Rightarrow> string list" where
  "add_provider_name out part =
     (let name = TrimSpace part
      in if name = [] \<or> normalizeAccountAlias name \<in> set (map normalizeAccountAlias out) then out else out @ [name])"

definition normalizeKeyProviderNames :: "string \<Rightarrow> string" where
  "normalizeKeyProviderNames names = Join (sort (foldl add_provider_name [] (Split names (CHR '','')))) '' / ''"

function split_names :: "string \<Rightarrow> string list" where
  "split_names s = (case Index s '' / '' of None \<Rightarrow> [s] | Some i \<Rightarrow> take i s # split_names (drop (i + 3) s))"
  by pat_completeness auto

termination
  by (relation "measure length") (auto dest!: Index_Some)

declare split_names.simps [simp del]

definition firstKeyProviderName :: "string \<Rightarrow> string" where
  "firstKeyProviderName names = (case find (\<lambda>part. TrimSpace part \<noteq> []) (split_names names) of Some part \<Rightarrow> TrimSpace part | None \<Rightarrow> [])"

definition keySummaryFilterIDPrefix :: string where "keySummaryFilterIDPrefix = ''keyid:v1:''"

text \<open>\<open>qv_digest\<close> is SHA-256 in hexadecimal digits.\<close>

definition keySummaryFilterID :: "query_env \<Rightarrow> string \<Rightarrow> string" where
  "keySummaryFilterID qv s = (if TrimSpace s = [] then [] else keySummaryFilterIDPrefix @ qv_digest qv (TrimSpace s))"

definition keySummaryGroupKey :: "string \<Rightarrow> string \<Rightarrow> string" where
  "keySummaryGroupKey rawKey protocol = normalizeAccountAlias rawKey @ [CHR 0x00] @ ToLower (TrimSpace protocol)"

record keySummaryRow = usage_metrics +
  ks_KeyID :: string
  ks_KeyDisplay :: string
  ks_RawKeyID :: string
  ks_Protocol :: string
  ks_Provider :: string
  ks_Providers :: int
  ks_ProviderNames :: string
  ks_QuotaUsedTokens :: int
  ks_Models :: int
  ks_LastSeen :: string

definition keySummary :: "price_env \<Rightarrow> query_env \<Rightarrow> (string \<times> string) \<times> usage_event list \<Rightarrow> keySummaryRow" where
  "keySummary pv qv = (\<lambda>((rawKey, protocol), es).
     let providers = remdups (map (cpaProvider qv) es);
         names = normalizeKeyProviderNames (Join (qv_concat qv providers) '','')
     in usage_metrics.extend (metrics pv es)
          (keySummaryRow.fields (keySummaryFilterID qv rawKey) (maskAPIKeyForDisplay rawKey) rawKey protocol
             (firstKeyProviderName names) (int (length providers)) names (event_sum ud_TotalTokens es)
             (distinct_values (map ev_Model es)) (last_seen qv es)))"

definition queryKeySummaries ::
  "price_env \<Rightarrow> query_env \<Rightarrow> string option
   \<Rightarrow> (((string \<times> string) \<times> usage_event list) list \<Rightarrow> ((string \<times> string) \<times> usage_event list) list)
   \<Rightarrow> usage_db \<Rightarrow> int \<Rightarrow> int \<Rightarrow> (string, keySummaryRow list) result" where
  "queryKeySummaries pv qv err order db since limit =
     (case err of
        Some e \<Rightarrow> Inl e
      | None \<Rightarrow>
          Inr (limit_rows limit (sort_key (\<lambda>r. (- um_TotalTokens r, - um_Requests r))
            (map (keySummary pv qv) (order (groups (\<lambda>e. (ev_APIKey e, keyProtocol e)) (keyed_events db since)))))))"

definition mergeConfiguredProviders :: "providerRow list \<Rightarrow> string list \<Rightarrow> providerRow list" where
  "mergeConfiguredProviders rows names =
     foldl (\<lambda>rows name.
        let n = TrimSpace name
        in if n = [] \<or> normalizeAccountAlias n \<in> set (map (normalizeAccountAlias \<circ> pr_Provider) rows) then rows
           else rows @ [usage_metrics.extend \<lparr>um_Requests = 0, um_Failed = 0, um_RateLimited = 0, um_InputTokens = 0, um_OutputTokens = 0,
                   um_ReasoningTokens = 0, um_CachedTokens = 0, um_CacheReadTokens = 0, um_CacheCreationTokens = 0, um_TotalTokens = 0,
                   um_AverageLatencyMs = Fin 0, um_AverageTTFTMs = Fin 0, um_OutputTokensPerSecond = Fin 0, um_SlowRequests = 0,
                   um_SlowTTFTRequests = 0, um_CostUSD = Fin 0, um_CostAvailable = False, um_UnpricedTokens = 0\<rparr> (providerRow.fields n 0 0 [])])
       rows names"

section \<open>Costs of the rows\<close>

definition cost_row :: "string \<Rightarrow> string \<Rightarrow> string \<Rightarrow> string \<Rightarrow> usage_event list \<Rightarrow> costTokenRow" where
  "cost_row model name provider tier es =
     \<lparr>ct_Model = model, ct_Alias = name, ct_Provider = provider, ct_ServiceTier = tier, ct_InputTokens = event_sum ud_InputTokens es,
      ct_OutputTokens = event_sum ud_OutputTokens es, ct_CachedTokens = event_sum ud_CachedTokens es,
      ct_CacheReadTokens = event_sum ud_CacheReadTokens es, ct_CacheCreationTokens = event_sum ud_CacheCreationTokens es,
      ct_TotalTokens = event_sum ud_TotalTokens es\<rparr>"

type_synonym cost_group = "(string \<times> string \<times> string \<times> string) \<times> usage_event list"

definition cost_groups :: "usage_event list \<Rightarrow> cost_group list" where
  "cost_groups es = groups (\<lambda>e. (ev_Model e, ev_Alias e, ev_Provider e, ev_ServiceTier e)) es"

definition group_cost_row :: "cost_group \<Rightarrow> costTokenRow" where
  "group_cost_row = (\<lambda>((model, name, provider, tier), es). cost_row model name provider tier es)"

definition with_cost :: "costSummary \<Rightarrow> 'a usage_metrics_scheme \<Rightarrow> 'a usage_metrics_scheme" where
  "with_cost c row = row\<lparr>um_CostUSD := cs_CostUSD c, um_UnpricedTokens := cs_UnpricedTokens c,
     um_CostAvailable := costAvailable (um_TotalTokens row) (cs_UnpricedTokens c)\<rparr>"

definition applyCosts ::
  "price_env \<Rightarrow> query_env \<Rightarrow> string option \<Rightarrow> (cost_group list \<Rightarrow> cost_group list) \<Rightarrow> usage_db \<Rightarrow> int \<Rightarrow> 'a usage_metrics_scheme
   \<Rightarrow> model_prices \<Rightarrow> string \<Rightarrow> (string, 'a usage_metrics_scheme) result" where
  "applyCosts pv qv err order db since totals prices scope =
     (case err of
        Some e \<Rightarrow> Inl e
      | None \<Rightarrow>
          Inr (with_cost (summarizeCost pv (map group_cost_row (order (cost_groups (scoped_events qv db since scope)))) prices) totals))"

text \<open>The costs per key of the rows that a query returned in some order.\<close>

definition keyed_costs :: "price_env \<Rightarrow> model_prices \<Rightarrow> (string \<times> costTokenRow) list \<Rightarrow> string \<Rightarrow> costSummary" where
  "keyed_costs pv prices rows = lookup_or no_cost (foldl (addCostSummary pv prices) [] rows)"

type_synonym 'k keyed_group = "('k \<times> string \<times> string \<times> string \<times> string) \<times> usage_event list"

definition keyed_cost_rows :: "('k \<Rightarrow> string) \<Rightarrow> 'k keyed_group list \<Rightarrow> (string \<times> costTokenRow) list" where
  "keyed_cost_rows key rows = map (\<lambda>((k, model, name, provider, tier), es). (key k, cost_row model name provider tier es)) rows"

definition applyProviderCosts ::
  "price_env \<Rightarrow> query_env \<Rightarrow> string option \<Rightarrow> (string keyed_group list \<Rightarrow> string keyed_group list) \<Rightarrow> usage_db \<Rightarrow> int \<Rightarrow> providerRow list
   \<Rightarrow> model_prices \<Rightarrow> string \<Rightarrow> (string, providerRow list) result" where
  "applyProviderCosts pv qv err order db since providers prices scope =
     (case err of
        Some e \<Rightarrow> Inl e
      | None \<Rightarrow>
          let costs = keyed_costs pv prices (keyed_cost_rows normalizeAccountAlias (order
                (groups (\<lambda>e. (cpaProvider qv e, ev_Model e, ev_Alias e, ev_Provider e, ev_ServiceTier e)) (scoped_events qv db since scope))))
          in Inr (map (\<lambda>r. with_cost (costs (normalizeAccountAlias (pr_Provider r))) r) providers))"

definition applyKeySummaryCosts ::
  "price_env \<Rightarrow> query_env \<Rightarrow> string option \<Rightarrow> ((string \<times> string) keyed_group list \<Rightarrow> (string \<times> string) keyed_group list) \<Rightarrow> usage_db \<Rightarrow> int
   \<Rightarrow> keySummaryRow list \<Rightarrow> model_prices \<Rightarrow> (string, keySummaryRow list) result" where
  "applyKeySummaryCosts pv qv err order db since ks prices =
     (if ks = [] then Inr ks
      else case err of
        Some e \<Rightarrow> Inl e
      | None \<Rightarrow>
          let costs = keyed_costs pv prices (keyed_cost_rows (\<lambda>(rawKey, protocol). keySummaryGroupKey rawKey protocol) (order
                (groups (\<lambda>e. ((ev_APIKey e, keyProtocol e), ev_Model e, ev_Alias e, cpaProvider qv e, ev_ServiceTier e)) (keyed_events db since))))
          in Inr (map (\<lambda>r. with_cost (costs (keySummaryGroupKey (ks_RawKeyID r) (ks_Protocol r))) r) ks))"

definition applyModelCosts ::
  "price_env \<Rightarrow> query_env \<Rightarrow> string option \<Rightarrow> (cost_group list \<Rightarrow> cost_group list) \<Rightarrow> usage_db \<Rightarrow> int \<Rightarrow> modelRow list
   \<Rightarrow> model_prices \<Rightarrow> string \<Rightarrow> (string, modelRow list) result" where
  "applyModelCosts pv qv err order db since models prices scope =
     (case err of
        Some e \<Rightarrow> Inl e
      | None \<Rightarrow>
          let costs = keyed_costs pv prices (map (\<lambda>((model, name, provider, tier), es).
                (modelCostKey model name provider, cost_row model name provider tier es)) (order
                (groups (\<lambda>e. (ev_Model e, ev_Alias e, cpaProvider qv e, ev_ServiceTier e)) (scoped_events qv db since scope))))
          in Inr (map (\<lambda>r. with_cost (costs (modelCostKey (mr_Model r) (mr_Alias r) (mr_Provider r))) r) models))"

text \<open>A row of an account has its usage beside the columns of \<open>Accounts\<close>.\<close>

type_synonym metered_account = "accountRow \<times> usage_metrics"

definition account_cost_key :: "accountRow \<Rightarrow> string" where
  "account_cost_key row =
     (let key = normalizeAccountAlias (ar_AuthIndex row)
      in if key = [] then normalizeAccountAlias (firstNonEmptyString [ar_AuthID row, ar_Source row]) else key)"

definition applyScopedAccountCosts ::
  "price_env \<Rightarrow> query_env \<Rightarrow> string option \<Rightarrow> (string keyed_group list \<Rightarrow> string keyed_group list) \<Rightarrow> usage_db \<Rightarrow> int \<Rightarrow> metered_account list
   \<Rightarrow> model_prices \<Rightarrow> string \<Rightarrow> (string, metered_account list) result" where
  "applyScopedAccountCosts pv qv err order db since accounts prices scope =
     (case err of
        Some e \<Rightarrow> Inl e
      | None \<Rightarrow>
          let costs = keyed_costs pv prices (keyed_cost_rows normalizeAccountAlias (order
                (groups (\<lambda>e. (if ev_AuthIndex e \<noteq> [] then ev_AuthIndex e else if ev_AuthID e \<noteq> [] then ev_AuthID e else ''unknown'',
                              ev_Model e, ev_Alias e, ev_Provider e, ev_ServiceTier e))
                   (filter (\<lambda>e. ev_AuthIndex e \<noteq> [] \<or> ev_AuthID e \<noteq> [] \<or> ev_Source e \<noteq> []) (scoped_events qv db since scope)))))
          in Inr (map (\<lambda>(row, usage). (row, with_cost (costs (account_cost_key row)) usage)) accounts))"

section \<open>Groups add up\<close>

lemma sum_by_key:
  assumes "finite K" "f ` set es \<subseteq> K"
  shows "(\<Sum>k\<in>K. sum_list (map h (filter (\<lambda>e. f e = k) es))) = (sum_list (map h es) :: int)"
  using assms(2)
proof (induction es)
  case (Cons e es)
  have "(\<Sum>k\<in>K. sum_list (map h (filter (\<lambda>e. f e = k) (e # es))))
      = (\<Sum>k\<in>K. (if f e = k then h e else 0) + sum_list (map h (filter (\<lambda>e. f e = k) es)))"
    by (intro sum.cong) auto
  also have "\<dots> = h e + sum_list (map h es)" using Cons assms(1) by (simp add: sum.distrib)
  finally show ?case by simp
qed simp

lemma groups_add_up: "sum_list (map (\<lambda>(k, es). sum_list (map h es)) (groups f es)) = (sum_list (map h es) :: int)"
proof -
  have "map (\<lambda>(k, es). sum_list (map h es)) (groups f es) = map (\<lambda>k. sum_list (map h (filter (\<lambda>e. f e = k) es))) (remdups (map f es))"
    by (simp add: groups_def)
  then show ?thesis using sum_by_key [of "f ` set es" f es h] by (simp add: sum_list_distinct_conv_sum_set)
qed

lemma event_count_sum: "event_count p es = sum_list (map (\<lambda>e. if p e then 1 else 0) es)"
  by (induction es) (auto simp: event_count_def)

lemma length_sum: "int (length es) = sum_list (map (\<lambda>e. 1) es)"
  by (induction es) auto

lemma permuted_sum:
  assumes "mset ys = mset xs"
  shows "sum_list (map h ys) = (sum_list (map h xs) :: int)"
  using assms by (metis mset_map sum_mset_sum_list)

lemma uncut_limit:
  assumes "int (length (limit_rows limit rows)) < limit"
  shows "limit_rows limit rows = rows"
  using assms by (auto simp: limit_rows_def min_def split: if_splits)

text \<open>A column that adds something up over the events of a row adds up to the same over all rows as over all events.\<close>

lemma provider_column:
  assumes "queryProviders pv qv None order db since limit scope = Inr rows" "\<forall>gs. mset (order gs) = mset gs" "int (length rows) < limit"
    "\<And>es x. column (usage_metrics.extend (metrics pv es) x) = sum_list (map h es)"
  shows "sum_list (map column rows) = (sum_list (map h (scoped_events qv db since scope)) :: int)"
proof -
  let ?row = "\<lambda>(provider, es). usage_metrics.extend (metrics pv es)
                (providerRow.fields provider (distinct_values (map event_account es)) (distinct_values (map ev_Model es)) (last_seen qv es))"
  let ?gs = "groups (cpaProvider qv) (scoped_events qv db since scope)"
  have "rows = sort_key (\<lambda>r. - um_TotalTokens r) (map ?row (order ?gs))"
    using assms(1,3) uncut_limit by (auto simp: queryProviders_def)
  then have "mset rows = mset (map ?row (order ?gs))" by simp
  then have "sum_list (map column rows) = sum_list (map column (map ?row (order ?gs)))" by (rule permuted_sum)
  also have "\<dots> = sum_list (map (\<lambda>(k, es). sum_list (map h es)) (order ?gs))"
    using assms(4) by (simp add: comp_def split_def)
  also have "\<dots> = sum_list (map (\<lambda>(k, es). sum_list (map h es)) ?gs)" using assms(2) by (intro permuted_sum) simp
  also have "\<dots> = sum_list (map h (scoped_events qv db since scope))" by (rule groups_add_up)
  finally show ?thesis .
qed

lemma extended_columns:
  "um_Requests (usage_metrics.extend m x) = um_Requests m" "um_Failed (usage_metrics.extend m x) = um_Failed m"
  "um_RateLimited (usage_metrics.extend m x) = um_RateLimited m" "um_InputTokens (usage_metrics.extend m x) = um_InputTokens m"
  "um_OutputTokens (usage_metrics.extend m x) = um_OutputTokens m" "um_TotalTokens (usage_metrics.extend m x) = um_TotalTokens m"
  "um_SlowRequests (usage_metrics.extend m x) = um_SlowRequests m"
  by (simp_all add: usage_metrics.extend_def)

section \<open>Unpriced tokens\<close>

definition event_cost_row :: "usage_event \<Rightarrow> costTokenRow" where
  "event_cost_row e = cost_row (ev_Model e) (ev_Alias e) (ev_Provider e) (ev_ServiceTier e) [e]"

definition unpriced :: "model_prices \<Rightarrow> costTokenRow \<Rightarrow> bool" where
  "unpriced prices row \<longleftrightarrow> resolveModelPrice row prices = None \<and> usageTokenInputRequiresPricing row"

lemma wrap64_id: "- (2 ^ 63) \<le> n \<Longrightarrow> n < 2 ^ 63 \<Longrightarrow> wrap64 n = n"
  by (simp add: wrap64_def signed_take_bit_int_eq_self)

lemma unpriced_sum:
  assumes "wrap64 (cs_UnpricedTokens c) = cs_UnpricedTokens c"
  shows "cs_UnpricedTokens (foldl (addCost pv prices) c rows)
     = wrap64 (cs_UnpricedTokens c + sum_list (map ct_TotalTokens (filter (unpriced prices) rows)))"
  using assms
proof (induction rows arbitrary: c)
  case (Cons row rows)
  have step: "cs_UnpricedTokens (addCost pv prices c row)
      = (if unpriced prices row then wrap64 (cs_UnpricedTokens c + ct_TotalTokens row) else cs_UnpricedTokens c)"
    by (auto simp: addCost_def unpriced_def costForTokens_def split: option.splits)
  have "wrap64 (cs_UnpricedTokens (addCost pv prices c row)) = cs_UnpricedTokens (addCost pv prices c row)"
    using Cons.prems by (simp add: step wrap64_add [of _ 0, simplified])
  from Cons.IH [OF this] show ?case by (simp add: step wrap64_add add.assoc)
qed simp

text \<open>Whether an event used tokens that cost something, read off its counts.\<close>

definition uses_tokens :: "usage_event \<Rightarrow> bool" where
  "uses_tokens e \<longleftrightarrow> list_ex (\<lambda>column. 0 < column (ev_Detail e))
       [ud_InputTokens, ud_OutputTokens, ud_CachedTokens, ud_CacheReadTokens, ud_CacheCreationTokens]"

lemma uses_tokens_iff: "usageTokenInputRequiresPricing (event_cost_row e) \<longleftrightarrow> uses_tokens e"
  by (simp add: usageTokenInputRequiresPricing_def uses_tokens_def event_cost_row_def cost_row_def event_sum_def)

text \<open>The counts hosts usually report: none is negative, and an event that used tokens has a total. \<open>recordUsage\<close> checks neither.\<close>

definition counts_sound :: "usage_event \<Rightarrow> bool" where
  "counts_sound e \<longleftrightarrow> list_all (\<lambda>column. 0 \<le> column (ev_Detail e))
       [ud_InputTokens, ud_OutputTokens, ud_CachedTokens, ud_CacheReadTokens, ud_CacheCreationTokens, ud_TotalTokens]
     \<and> (uses_tokens e \<longrightarrow> 0 < ud_TotalTokens (ev_Detail e))"

lemma event_sum_pos:
  assumes "\<forall>e\<in>set es. 0 \<le> column (ev_Detail e)"
  shows "0 < event_sum column es \<longleftrightarrow> (\<exists>e\<in>set es. 0 < column (ev_Detail e))"
proof -
  have "0 \<le> sum_list (map (column \<circ> ev_Detail) es)" using assms by (intro sum_list_nonneg) auto
  moreover have "sum_list (map (column \<circ> ev_Detail) es) = 0 \<longleftrightarrow> (\<forall>x\<in>set (map (column \<circ> ev_Detail) es). x = 0)"
    using assms by (intro sum_list_nonneg_eq_0_iff) auto
  ultimately show ?thesis using assms unfolding event_sum_def by (auto simp: less_le)
qed

lemma group_requires:
  assumes "\<forall>e\<in>set es. counts_sound e"
  shows "usageTokenInputRequiresPricing (cost_row m a p t es) \<longleftrightarrow> (\<exists>e\<in>set es. usageTokenInputRequiresPricing (event_cost_row e))"
proof -
  have p: "0 < event_sum column es \<longleftrightarrow> (\<exists>e\<in>set es. 0 < column (ev_Detail e))"
    if "column \<in> {ud_InputTokens, ud_OutputTokens, ud_CachedTokens, ud_CacheReadTokens, ud_CacheCreationTokens}" for column
    using that assms by (intro event_sum_pos) (auto simp: counts_sound_def)
  show ?thesis by (auto simp: usageTokenInputRequiresPricing_def event_cost_row_def cost_row_def p event_sum_def [of _ "[_]"])
qed

lemma resolve_without_prices [simp]: "resolveModelPrice row [] = None"
  by (auto simp: resolveModelPrice_def split: option.split)

lemma resolve_names:
  "ct_Model r = ct_Model r' \<Longrightarrow> ct_Alias r = ct_Alias r' \<Longrightarrow> ct_Provider r = ct_Provider r' \<Longrightarrow>
   resolveModelPrice r prices = resolveModelPrice r' prices"
  by (simp add: resolveModelPrice_def price_names_def)

lemma cost_group_members:
  "g \<in> set (cost_groups es) \<longleftrightarrow> (\<exists>e\<in>set es. g = ((ev_Model e, ev_Alias e, ev_Provider e, ev_ServiceTier e),
      filter (\<lambda>d. (ev_Model d, ev_Alias d, ev_Provider d, ev_ServiceTier d) = (ev_Model e, ev_Alias e, ev_Provider e, ev_ServiceTier e)) es))"
  by (auto simp: cost_groups_def groups_def)

text \<open>A group lacks a price exactly if one of its events does, and then its total is not zero.\<close>

lemma unpriced_group:
  assumes "\<forall>e\<in>set es. counts_sound e" "g \<in> set (cost_groups es)"
  shows "unpriced prices (group_cost_row g) \<longleftrightarrow> (\<exists>e\<in>set (snd g). unpriced prices (event_cost_row e))"
    "unpriced prices (group_cost_row g) \<Longrightarrow> 0 < ct_TotalTokens (group_cost_row g)"
proof -
  obtain e where e: "e \<in> set es" and g: "g = ((ev_Model e, ev_Alias e, ev_Provider e, ev_ServiceTier e),
      filter (\<lambda>d. (ev_Model d, ev_Alias d, ev_Provider d, ev_ServiceTier d) = (ev_Model e, ev_Alias e, ev_Provider e, ev_ServiceTier e)) es)"
    using assms(2) cost_group_members by blast
  have ok: "\<forall>d\<in>set (snd g). counts_sound d" using assms(1) by (auto simp: g)
  have row: "group_cost_row g = cost_row (ev_Model e) (ev_Alias e) (ev_Provider e) (ev_ServiceTier e) (snd g)"
    by (simp add: group_cost_row_def g)
  have same: "resolveModelPrice (group_cost_row g) prices = resolveModelPrice (event_cost_row d) prices" if "d \<in> set (snd g)" for d
  proof -
    have "ev_Model d = ev_Model e" "ev_Alias d = ev_Alias e" "ev_Provider d = ev_Provider e" using that by (auto simp: g)
    then show ?thesis unfolding row by (intro resolve_names) (simp_all add: event_cost_row_def cost_row_def)
  qed
  show iff: "unpriced prices (group_cost_row g) \<longleftrightarrow> (\<exists>e\<in>set (snd g). unpriced prices (event_cost_row e))"
    using same group_requires [OF ok] by (auto simp: unpriced_def row)
  assume "unpriced prices (group_cost_row g)"
  then obtain d where "d \<in> set (snd g)" "0 < ud_TotalTokens (ev_Detail d)" using iff ok by (auto simp: unpriced_def counts_sound_def uses_tokens_iff)
  then have "0 < event_sum ud_TotalTokens (snd g)" using event_sum_pos [of "snd g" ud_TotalTokens] ok by (auto simp: counts_sound_def)
  then show "0 < ct_TotalTokens (group_cost_row g)" by (simp add: row cost_row_def)
qed

lemma cost_groups_cover: "e \<in> set es \<longleftrightarrow> (\<exists>g\<in>set (cost_groups es). e \<in> set (snd g))"
  by (auto simp: cost_groups_def groups_def)

lemma filtered_total_le:
  assumes "\<forall>r\<in>set rows. 0 \<le> h r"
  shows "0 \<le> sum_list (map h (filter p rows)) \<and> sum_list (map h (filter p rows)) \<le> (sum_list (map h rows) :: int)"
  using assms by (induction rows) auto

lemma unpriced_total:
  assumes "\<forall>e\<in>set es. counts_sound e" "event_sum ud_TotalTokens es < 2 ^ 63" "mset gs = mset (cost_groups es)"
  shows "cs_UnpricedTokens (summarizeCost pv (map group_cost_row gs) prices) = 0 \<longleftrightarrow> (\<forall>e\<in>set es. \<not> unpriced prices (event_cost_row e))"
proof -
  have members: "set gs = set (cost_groups es)" using assms(3) by (metis set_mset_mset)
  let ?rows = "map group_cost_row gs"
  let ?U = "filter (unpriced prices) ?rows"
  have total: "ct_TotalTokens (group_cost_row g) = event_sum ud_TotalTokens (snd g)" for g
    by (cases g) (auto simp: group_cost_row_def cost_row_def)
  have nonneg: "\<forall>r\<in>set ?rows. 0 \<le> ct_TotalTokens r"
  proof -
    have "0 \<le> ud_TotalTokens (ev_Detail e)" if "g \<in> set gs" "e \<in> set (snd g)" for g e
      using that assms(1) members cost_groups_cover [of e es] by (auto simp: counts_sound_def)
    then show ?thesis by (fastforce simp: total event_sum_def intro!: sum_list_nonneg)
  qed
  have "sum_list (map ct_TotalTokens ?rows) = sum_list (map (\<lambda>(k, es). sum_list (map (ud_TotalTokens \<circ> ev_Detail) es)) gs)"
    by (simp add: comp_def total event_sum_def split_def)
  also have "\<dots> = sum_list (map (\<lambda>(k, es). sum_list (map (ud_TotalTokens \<circ> ev_Detail) es)) (cost_groups es))"
    by (rule permuted_sum [OF assms(3)])
  also have "\<dots> = event_sum ud_TotalTokens es" unfolding cost_groups_def event_sum_def by (rule groups_add_up)
  finally have all: "sum_list (map ct_TotalTokens ?rows) < 2 ^ 63" using assms(2) by simp
  have "cs_UnpricedTokens (summarizeCost pv ?rows prices) = sum_list (map ct_TotalTokens ?U)"
    using unpriced_sum [of no_cost pv prices ?rows] filtered_total_le [OF nonneg, of "unpriced prices"] all
    by (simp add: summarizeCost_def no_cost_def wrap64_id)
  moreover have "sum_list (map ct_TotalTokens ?U) = 0 \<longleftrightarrow> ?U = []"
  proof
    assume "sum_list (map ct_TotalTokens ?U) = 0"
    then have "\<forall>x\<in>set (map ct_TotalTokens ?U). x = 0" using nonneg by (subst (asm) sum_list_nonneg_eq_0_iff) auto
    moreover have "0 < ct_TotalTokens r" if "r \<in> set ?U" for r
      using that unpriced_group(2) [OF assms(1)] members by auto
    ultimately show "?U = []" by (metis imageI less_irrefl list.set_map list.set_sel(1))
  qed simp
  moreover have "?U = [] \<longleftrightarrow> (\<forall>e\<in>set es. \<not> unpriced prices (event_cost_row e))"
  proof -
    have "?U = [] \<longleftrightarrow> (\<forall>g\<in>set (cost_groups es). \<not> unpriced prices (group_cost_row g))" by (auto simp: members filter_empty_conv)
    also have "\<dots> \<longleftrightarrow> (\<forall>g\<in>set (cost_groups es). \<forall>e\<in>set (snd g). \<not> unpriced prices (event_cost_row e))"
      using unpriced_group(1) [OF assms(1)] by blast
    also have "\<dots> \<longleftrightarrow> (\<forall>e\<in>set es. \<not> unpriced prices (event_cost_row e))" using cost_groups_cover by blast
    finally show ?thesis .
  qed
  ultimately show ?thesis by simp
qed

section \<open>Rows that share a key\<close>

definition example_query :: query_env where
  "example_query = \<lparr>qv_key = toy_key_env, qv_entries = [], qv_concat = (\<lambda>ns. ns), qv_time = Itoa, qv_digest = (\<lambda>s. s)\<rparr>"

definition example_use :: "string \<Rightarrow> string \<Rightarrow> usage_event" where
  "example_use provider model = (example_event ''a'' [] 1000 (None, None))\<lparr>ev_Provider := provider, ev_Model := model,
     ev_Detail := (ur_Detail no_usage)\<lparr>ud_InputTokens := 1000000, ud_TotalTokens := 1000000\<rparr>\<rparr>"

text \<open>The rows of two providers that differ in letter case are each given the costs of both.\<close>

lemma provider_cost_counted_twice:
  "case queryProviders example_pricing example_query None (\<lambda>gs. gs) (example_db [example_use ''Acme'' ''gpt-4o'', example_use ''acme'' ''gpt-4o'']) 0 10 ''other''
   of Inr rows \<Rightarrow>
     (case applyProviderCosts example_pricing example_query None (\<lambda>gs. gs)
            (example_db [example_use ''Acme'' ''gpt-4o'', example_use ''acme'' ''gpt-4o'']) 0 rows
            [(''gpt-4o'', plain_price example_pricing 1 1)] ''other''
      of Inr rows' \<Rightarrow> map um_CostUSD rows' = [Fin 2, Fin 2] \<and> map um_TotalTokens rows' = [1000000, 1000000] | Inl _ \<Rightarrow> False)
   | Inl _ \<Rightarrow> False"
  by code_simp

text \<open>An event that only its executor makes one of xAI is in the scope of xAI, but the test whether there is any such usage overlooks it; it is in no other
  scope either.\<close>

definition example_xai_use :: usage_event where
  "example_xai_use = (example_use ''Xai'' ''grok'')\<lparr>ev_ExecutorType := ''xai-executor''\<rparr>"

lemma xai_usage_overlooked:
  "map (\<lambda>scope. length (scoped_events example_query (example_db [example_xai_use]) 0 scope)) [''xai'', ''codex'', ''other''] = [1, 0, 0]"
  "queryHasXAIUsage None (example_db [example_xai_use]) 0 = Inr False"
  by code_simp+

text \<open>
  An event with cache reads only is stored with the total 0. It has no price, nothing is counted as unpriced for it,
  and the cost of the window is called available.
\<close>

definition example_cache_use :: usage_event where
  "example_cache_use = (let detail = (ur_Detail no_usage)\<lparr>ud_CacheReadTokens := 500\<rparr>
     in (example_use ''Acme'' ''m'')\<lparr>ev_Detail := detail\<lparr>ud_TotalTokens := total_tokens detail\<rparr>\<rparr>)"

lemma cache_only_unnoticed:
  "uses_tokens example_cache_use" "ud_TotalTokens (ev_Detail example_cache_use) = 0"
  "resolveModelPrice (event_cost_row example_cache_use) [(''gpt-4o'', plain_price example_pricing 1 1)] = None"
  "let db = example_db [example_use ''Acme'' ''gpt-4o'', example_cache_use]
   in case queryOneTotals example_pricing example_query None db 0 ''other'' of
        Inr totals \<Rightarrow> (case applyCosts example_pricing example_query None (\<lambda>gs. gs) db 0 totals [(''gpt-4o'', plain_price example_pricing 1 1)] ''other''
                       of Inr totals' \<Rightarrow> um_CostAvailable totals' | Inl _ \<Rightarrow> False)
      | Inl _ \<Rightarrow> False"
  by code_simp+

section \<open>Properties\<close>

text \<open>The providers of a summary add up to its totals. As long as the limit cuts off no row, the requests, failures, rate limits, tokens and slow
  requests of the rows are together those of the totals of the same scope, in whatever order the groups come.\<close>

theorem providers_add_up:
  assumes "queryProviders pv qv None order db since limit scope = Inr rows" "\<forall>gs. mset (order gs) = mset gs" "int (length rows) < limit"
    "queryOneTotals pv qv None db since scope = Inr totals"
  shows "map (\<lambda>column. sum_list (map column rows)) [um_Requests, um_Failed, um_RateLimited, um_InputTokens, um_OutputTokens, um_TotalTokens, um_SlowRequests]
     = map (\<lambda>column. column totals) [um_Requests, um_Failed, um_RateLimited, um_InputTokens, um_OutputTokens, um_TotalTokens, um_SlowRequests]"
proof -
  note column = provider_column [OF assms(1-3)]
  have "totals = usage_metrics.extend (metrics pv (scoped_events qv db since scope)) (totalsRow.fields 0 0 0)"
    using assms(4) by (simp add: queryOneTotals_def)
  then show ?thesis
    using column [of um_Requests "\<lambda>e. 1"] column [of um_Failed "\<lambda>e. if ev_Failed e then 1 else 0"]
      column [of um_RateLimited "\<lambda>e. if ev_StatusCode e = 429 then 1 else 0"] column [of um_InputTokens "ud_InputTokens \<circ> ev_Detail"]
      column [of um_OutputTokens "ud_OutputTokens \<circ> ev_Detail"] column [of um_TotalTokens "ud_TotalTokens \<circ> ev_Detail"]
      column [of um_SlowRequests "\<lambda>e. if 12000 \<le> ev_LatencyMs e then 1 else 0"]
    by (simp add: extended_columns metrics_def event_sum_def event_count_sum length_sum)
qed

theorem providers_add_up_witness:
  "\<exists>rows totals. queryProviders example_pricing example_query None rev (example_db [example_use ''Acme'' ''m'', example_use ''x'' ''m'']) 0 10 ''other'' = Inr rows
     \<and> queryOneTotals example_pricing example_query None (example_db [example_use ''Acme'' ''m'', example_use ''x'' ''m'']) 0 ''other'' = Inr totals
     \<and> sum_list (map um_Requests rows) = um_Requests totals"
proof -
  let ?db = "example_db [example_use ''Acme'' ''m'', example_use ''x'' ''m'']"
  obtain rows totals where r: "queryProviders example_pricing example_query None rev ?db 0 10 ''other'' = Inr rows"
    "queryOneTotals example_pricing example_query None ?db 0 ''other'' = Inr totals"
    by (simp add: queryProviders_def queryOneTotals_def)
  moreover have "(case queryProviders example_pricing example_query None rev ?db 0 10 ''other'' of Inr rows \<Rightarrow> length rows | Inl _ \<Rightarrow> 9) = 2"
    by code_simp
  ultimately have "int (length rows) < 10" by simp
  from providers_add_up [OF r(1) _ this r(2)] r show ?thesis by auto
qed

text \<open>C24: A cost that is called available leaves nothing out. The totals of a window call their cost available exactly if some token was used and every
  generated event of the scope that used input, output, cached, cache-read or cache-creation tokens has a price. This is for events whose counts are
  not negative and where each that used such tokens has a total, as hosts report them; an event with cache reads or writes only is
  stored with the total 0, and then it is left out unnoticed (\<open>cache_only_unnoticed\<close>).\<close>

theorem available_cost_complete:
  assumes "queryOneTotals pv qv None db since scope = Inr totals" "applyCosts pv qv None order db since totals prices scope = Inr totals'"
    "\<forall>gs. mset (order gs) = mset gs" "\<forall>e\<in>set (scoped_events qv db since scope). counts_sound e"
    "event_sum ud_TotalTokens (scoped_events qv db since scope) < 2 ^ 63"
  shows "um_CostAvailable totals' \<longleftrightarrow>
     (\<exists>e\<in>set (scoped_events qv db since scope). 0 < ud_TotalTokens (ev_Detail e))
     \<and> (\<forall>e\<in>set (scoped_events qv db since scope). uses_tokens e
          \<longrightarrow> resolveModelPrice (event_cost_row e) prices \<noteq> None)"
proof -
  let ?es = "scoped_events qv db since scope"
  have "mset (order (cost_groups ?es)) = mset (cost_groups ?es)" using assms(3) by blast
  note zero = unpriced_total [OF assms(4,5) this, of pv prices]
  have total: "um_TotalTokens totals = event_sum ud_TotalTokens ?es"
    using assms(1) by (auto simp: queryOneTotals_def extended_columns metrics_def)
  have used: "0 < event_sum ud_TotalTokens ?es \<longleftrightarrow> (\<exists>e\<in>set ?es. 0 < ud_TotalTokens (ev_Detail e))"
    using assms(4) by (intro event_sum_pos) (auto simp: counts_sound_def)
  have "um_CostAvailable totals' \<longleftrightarrow> 0 < um_TotalTokens totals
      \<and> cs_UnpricedTokens (summarizeCost pv (map group_cost_row (order (cost_groups ?es))) prices) = 0"
    using assms(2) by (auto simp: applyCosts_def with_cost_def costAvailable_def)
  then show ?thesis unfolding zero total used by (auto simp: unpriced_def uses_tokens_iff)
qed

theorem available_cost_complete_witness:
  "\<exists>totals. applyCosts example_pricing example_query None rev (example_db [example_use ''Acme'' ''m'']) 0 totals [] ''other'' = Inr (totals :: totalsRow)
     \<and> \<not> um_CostAvailable totals"
proof -
  let ?db = "example_db [example_use ''Acme'' ''m'']"
  obtain totals totals' where r: "queryOneTotals example_pricing example_query None ?db 0 ''other'' = Inr totals"
    "applyCosts example_pricing example_query None rev ?db 0 totals [] ''other'' = Inr totals'"
    by (simp add: queryOneTotals_def applyCosts_def)
  have es: "scoped_events example_query ?db 0 ''other'' = [example_use ''Acme'' ''m'']"
  proof -
    have "map ev_Provider (scoped_events example_query ?db 0 ''other'') = [''Acme'']" by code_simp
    then show ?thesis by (simp add: scoped_events_def example_db_def split: if_splits)
  qed
  have "counts_sound (example_use ''Acme'' ''m'')" "event_sum ud_TotalTokens [example_use ''Acme'' ''m''] < 2 ^ 63"
    "uses_tokens (example_use ''Acme'' ''m'')" by code_simp+
  then have "\<not> um_CostAvailable totals'"
    using available_cost_complete [OF r(1,2)] unfolding es by auto
  moreover have "applyCosts example_pricing example_query None rev ?db 0 totals' [] ''other'' = Inr totals'"
    using r(2) by (auto simp: applyCosts_def with_cost_def)
  ultimately show ?thesis by blast
qed

end
