(* ===== verification/Log_Export.thy ===== *)
theory Log_Export
  imports Summary_Rows
begin

text \<open>
  The export of log rows (\<open>diagnostics.go\<close>): which events a filter selects, in which order and how many, and the cells of their records.
  The lemmas: a filter by the identifier of a key selects the rows of one stored key, and a display mask selects none.
\<close>

section \<open>Filters\<close>

text \<open>\<open>windowStart\<close> of a window and \<open>localDateRange\<close> of a date, which read the clock and the time zone, and the texts of floats.\<close>

record log_env =
  lg_query :: query_env
  lg_prices :: price_env
  lg_window :: "string \<Rightarrow> int"
  lg_date :: "string \<Rightarrow> (int \<times> int) option"
  lg_money :: "go_float \<Rightarrow> string"
  lg_rate :: "int \<Rightarrow> int \<Rightarrow> string"

definition log_limit :: "logExportFilter \<Rightarrow> nat" where
  "log_limit f = nat (if lf_Limit f \<le> 0 then 5000 else if 20000 < lf_Limit f then 20000 else lf_Limit f)"

definition log_scope :: "logExportFilter \<Rightarrow> string" where
  "log_scope f =
     (let scope = ToLower (TrimSpace (lf_Scope f))
      in if scope \<in> {''providers'', ''provider''} then ''other'' else if scope = ''xai'' then ''xai'' else ''codex'')"

definition in_scope :: "log_env \<Rightarrow> string \<Rightarrow> usage_event \<Rightarrow> bool" where
  "in_scope lg scope e \<longleftrightarrow> usageScope (qv_key (lg_query lg)) (qv_entries (lg_query lg)) scope e"

text \<open>The conditions on the time, the scope and the provider; they also limit the search for a key.\<close>

definition log_base :: "log_env \<Rightarrow> logExportFilter \<Rightarrow> usage_event \<Rightarrow> bool" where
  "log_base lg f e \<longleftrightarrow>
     (if TrimSpace (lf_Date f) \<noteq> []
      then (case lg_date lg (lf_Date f) of Some (start, until) \<Rightarrow> start \<le> ev_RequestedAt e \<and> ev_RequestedAt e < until | None \<Rightarrow> True)
      else lg_window lg (firstNonEmptyString [lf_Window f, ''24h'']) \<le> ev_RequestedAt e)
     \<and> in_scope lg (log_scope f) e
     \<and> (TrimSpace (lf_Provider f) = [] \<or> cpaProvider (lg_query lg) e = TrimSpace (lf_Provider f))"

definition normalizeKeySummaryFilterID :: "string \<Rightarrow> string option" where
  "normalizeKeySummaryFilterID s =
     (let v = ToLower (TrimSpace s); n = length keySummaryFilterIDPrefix
      in if \<not> HasPrefix v keySummaryFilterIDPrefix \<or> length v \<noteq> n + 64 then None
         else if list_all is_hex (drop n v) then Some v else None)"

text \<open>The scan over the distinct keys in the order in which the query returns them.\<close>

fun match_stored :: "query_env \<Rightarrow> string \<Rightarrow> string \<Rightarrow> string list \<Rightarrow> (string, string) result" where
  "match_stored qv filterID matched [] = Inr matched"
| "match_stored qv filterID matched (stored # rest) =
     (if keySummaryFilterID qv stored \<noteq> filterID then match_stored qv filterID matched rest
      else if matched \<noteq> [] \<and> matched \<noteq> stored then Inl ''ambiguous key summary filter identifier''
      else match_stored qv filterID stored rest)"

definition resolveKeySummaryFilterID ::
  "query_env \<Rightarrow> string option \<Rightarrow> (string list \<Rightarrow> string list) \<Rightarrow> usage_db \<Rightarrow> string \<Rightarrow> (usage_event \<Rightarrow> bool)
   \<Rightarrow> (string, string option) result" where
  "resolveKeySummaryFilterID qv err order db filterID p =
     (case err of
        Some e \<Rightarrow> Inl e
      | None \<Rightarrow>
          (case match_stored qv filterID [] (order (remdups (map ev_APIKey (filter (\<lambda>e. p e \<and> ev_APIKey e \<noteq> []) (us_events db))))) of
             Inl e \<Rightarrow> Inl e
           | Inr matched \<Rightarrow> Inr (if matched \<noteq> [] then Some matched else None)))"

definition log_account ::
  "log_env \<Rightarrow> string option \<Rightarrow> (string list \<Rightarrow> string list) \<Rightarrow> usage_db \<Rightarrow> logExportFilter \<Rightarrow> (string, usage_event \<Rightarrow> bool) result" where
  "log_account lg err order db f =
     (let filter_text = TrimSpace (lf_Account f)
      in case normalizeKeySummaryFilterID filter_text of
           Some filterID \<Rightarrow>
             (case resolveKeySummaryFilterID (lg_query lg) err order db filterID (log_base lg f) of
                Inl e \<Rightarrow> Inl e
              | Inr (Some stored) \<Rightarrow> Inr (\<lambda>e. ev_APIKey e = stored)
              | Inr None \<Rightarrow> Inr (\<lambda>e. False))
         | None \<Rightarrow>
             if Contains filter_text ''****'' then Inr (\<lambda>e. False)
             else let account = normalizeAccountAlias filter_text
                  in Inr (\<lambda>e. account = [] \<or> account \<in> {ToLower (ev_APIKey e), ToLower (ev_AuthID e), ToLower (ev_AuthIndex e), ToLower (ev_Source e)}))"

definition log_status :: "logExportFilter \<Rightarrow> usage_event \<Rightarrow> bool" where
  "log_status f e \<longleftrightarrow>
     (let status = ToLower (TrimSpace (lf_Status f)); code = ev_StatusCode e
      in if status = ''success'' then \<not> ev_Failed e \<and> (code = 0 \<or> 200 \<le> code \<and> code < 300)
         else if status = ''failed'' then ev_Failed e \<or> 400 \<le> code
         else if status \<in> {''401'', ''402'', ''403'', ''429''} then Atoi status = Some code
         else if status = ''5xx'' then 500 \<le> code
         else True)"

definition log_model :: "logExportFilter \<Rightarrow> usage_event \<Rightarrow> bool" where
  "log_model f e \<longleftrightarrow> (let model = normalizeAccountAlias (lf_Model f) in model = [] \<or> ToLower (ev_Model e) = model \<or> ToLower (ev_Alias e) = model)"

definition log_rows ::
  "log_env \<Rightarrow> string option \<Rightarrow> string option \<Rightarrow> (string list \<Rightarrow> string list) \<Rightarrow> usage_db \<Rightarrow> logExportFilter \<Rightarrow> (string, usage_event list) result" where
  "log_rows lg key_err err order db f =
     (case log_account lg key_err order db f of
        Inl e \<Rightarrow> Inl e
      | Inr p \<Rightarrow>
          case err of
            Some e \<Rightarrow> Inl e
          | None \<Rightarrow> Inr (take (log_limit f) (sort_key (\<lambda>e. (- ev_RequestedAt e, - ev_ID e))
              (filter (\<lambda>e. log_base lg f e \<and> p e \<and> log_model f e \<and> log_status f e) (us_events db)))))"

section \<open>Records\<close>

definition log_headers :: "string list" where
  "log_headers = [''time'', ''scope'', ''provider'', ''account'', ''api_key'', ''auth_id'', ''auth_index'', ''source'',
     ''model'', ''alias'', ''generate'', ''status_code'', ''failed'', ''input_tokens'', ''output_tokens'', ''cached_tokens'',
     ''cache_read_tokens'', ''cache_creation_tokens'', ''reasoning_tokens'', ''total_tokens'', ''cost_usd'',
     ''latency_ms'', ''ttft_ms'', ''output_tokens_per_second'', ''error_summary'']"

definition FormatBool :: "bool \<Rightarrow> string" where
  "FormatBool b = (if b then ''true'' else ''false'')"

definition log_record :: "log_env \<Rightarrow> model_prices \<Rightarrow> usage_event \<Rightarrow> export_record" where
  "log_record lg prices e =
     (let d = ev_Detail e;
          provider = cpaProvider (lg_query lg) e;
          cost = (if ev_Generate e
                  then case costForTokens (lg_prices lg) (cost_row (ev_Model e) (ev_Alias e) provider (ev_ServiceTier e) [e]) prices of
                         Some c \<Rightarrow> c | None \<Rightarrow> Fin 0
                  else Fin 0);
          ms = (if ev_LatencyMs e < ev_TTFTMs e then ev_TTFTMs e else ev_LatencyMs e);
          rate = (if ev_Generate e \<and> 0 < ud_OutputTokens d \<and> 1000 \<le> ms then lg_rate lg (ud_OutputTokens d) ms else []);
          error = (ev_Failed e \<or> 400 \<le> ev_StatusCode e);
          status = (if error \<and> ev_StatusCode e = 0 then 599 else ev_StatusCode e);
          account = (if TrimSpace (ev_APIKey e) \<noteq> [] then maskAPIKeyForDisplay (ev_APIKey e)
                     else safeExportLabel (firstNonEmptyString [ev_APIKey e, ev_AuthIndex e, ev_AuthID e, ev_Source e]))
      in [(''time'', qv_time (lg_query lg) (ev_RequestedAt e)),
          (''scope'', if in_scope lg ''codex'' e then ''codex'' else if in_scope lg ''xai'' e then ''xai'' else ''providers''),
          (''provider'', provider), (''account'', account), (''api_key'', maskAPIKeyForDisplay (ev_APIKey e)),
          (''auth_id'', safeExportIdentity (ev_AuthID e) (ev_APIKey e)), (''auth_index'', safeExportIdentity (ev_AuthIndex e) (ev_APIKey e)),
          (''source'', safeExportIdentity (ev_Source e) (ev_APIKey e)), (''model'', ev_Model e), (''alias'', ev_Alias e),
          (''generate'', FormatBool (ev_Generate e)), (''status_code'', Itoa status), (''failed'', FormatBool (ev_Failed e)),
          (''input_tokens'', Itoa (ud_InputTokens d)), (''output_tokens'', Itoa (ud_OutputTokens d)),
          (''cached_tokens'', Itoa (ud_CachedTokens d)), (''cache_read_tokens'', Itoa (ud_CacheReadTokens d)),
          (''cache_creation_tokens'', Itoa (ud_CacheCreationTokens d)), (''reasoning_tokens'', Itoa (ud_ReasoningTokens d)),
          (''total_tokens'', Itoa (ud_TotalTokens d)), (''cost_usd'', lg_money lg cost), (''latency_ms'', Itoa (ev_LatencyMs e)),
          (''ttft_ms'', Itoa (ev_TTFTMs e)), (''output_tokens_per_second'', rate),
          (''error_summary'', if error then ''http '' @ Itoa status else [])])"

definition exportLogRecords ::
  "log_env \<Rightarrow> string option \<Rightarrow> string option \<Rightarrow> (string list \<Rightarrow> string list) \<Rightarrow> usage_db \<Rightarrow> logExportFilter \<Rightarrow> model_prices
   \<Rightarrow> (string, export_record list \<times> string list) result" where
  "exportLogRecords lg key_err err order db f prices =
     (case log_rows lg key_err err order db f of
        Inl e \<Rightarrow> Inl e
      | Inr es \<Rightarrow> Inr (map (log_record lg prices) es, log_headers))"

section \<open>The search for a key\<close>

lemma match_stored_found:
  assumes "match_stored qv filterID matched stored = Inr key" "matched \<noteq> [] \<longrightarrow> keySummaryFilterID qv matched = filterID" "[] \<notin> set stored"
  shows "(key \<noteq> [] \<longrightarrow> keySummaryFilterID qv key = filterID) \<and> (\<forall>s\<in>set stored. keySummaryFilterID qv s = filterID \<longrightarrow> s = key)
     \<and> (matched \<noteq> [] \<longrightarrow> key = matched)"
  using assms by (induction qv filterID matched stored rule: match_stored.induct) (auto split: if_splits)

lemma resolved_key:
  assumes "resolveKeySummaryFilterID qv err order db filterID p = Inr found" "\<forall>ss. mset (order ss) = mset ss"
  shows "\<forall>e\<in>set (us_events db). p e \<and> ev_APIKey e \<noteq> [] \<and> keySummaryFilterID qv (ev_APIKey e) = filterID \<longrightarrow> found = Some (ev_APIKey e)"
    "found = Some key \<Longrightarrow> keySummaryFilterID qv key = filterID"
proof -
  let ?stored = "order (remdups (map ev_APIKey (filter (\<lambda>e. p e \<and> ev_APIKey e \<noteq> []) (us_events db))))"
  have members: "set ?stored = ev_APIKey ` {e \<in> set (us_events db). p e \<and> ev_APIKey e \<noteq> []}"
  proof -
    have "set (order ss) = set ss" for ss using assms(2) by (metis set_mset_mset)
    then show ?thesis by auto
  qed
  obtain matched where m: "match_stored qv filterID [] ?stored = Inr matched" "found = (if matched \<noteq> [] then Some matched else None)"
    using assms(1) by (auto simp: resolveKeySummaryFilterID_def split: option.splits sum.splits)
  have "[] \<notin> set ?stored" unfolding members by auto
  from match_stored_found [OF m(1) _ this]
  have found: "matched \<noteq> [] \<longrightarrow> keySummaryFilterID qv matched = filterID"
    "\<forall>s\<in>set ?stored. keySummaryFilterID qv s = filterID \<longrightarrow> s = matched" by simp_all
  show "\<forall>e\<in>set (us_events db). p e \<and> ev_APIKey e \<noteq> [] \<and> keySummaryFilterID qv (ev_APIKey e) = filterID \<longrightarrow> found = Some (ev_APIKey e)"
  proof (intro ballI impI)
    fix e
    assume e: "e \<in> set (us_events db)" "p e \<and> ev_APIKey e \<noteq> [] \<and> keySummaryFilterID qv (ev_APIKey e) = filterID"
    then have "ev_APIKey e \<in> set ?stored" unfolding members by blast
    then show "found = Some (ev_APIKey e)" using found(2) e(2) m(2) by auto
  qed
  show "keySummaryFilterID qv key = filterID" if "found = Some key"
    using that found(1) m(2) by (auto split: if_splits)
qed

section \<open>Properties\<close>

definition example_log_env :: log_env where
  "example_log_env = \<lparr>lg_query = example_query\<lparr>qv_digest := (\<lambda>s. replicate 63 (CHR ''0'') @ take 1 s)\<rparr>, lg_prices = example_pricing,
     lg_window = (\<lambda>_. 0), lg_date = (\<lambda>_. None), lg_money = (\<lambda>_. ''0''), lg_rate = (\<lambda>_ _. ''0'')\<rparr>"

definition example_filter :: "string \<Rightarrow> logExportFilter" where
  "example_filter account = \<lparr>lf_Window = ''all'', lf_Scope = ''codex'', lf_Provider = [], lf_Account = account, lf_Model = [], lf_Date = [],
     lf_Status = [], lf_Limit = 0\<rparr>"

definition example_keys :: usage_db where
  "example_keys = example_db (map (\<lambda>key. (example_use ''codex'' ''m'')\<lparr>ev_APIKey := key\<rparr>) [''a'', ''b'', ''a''])"

text \<open>C26: An exported log holds what was asked for. Its rows are at most 20000 events of the store that meet the filter of time, scope, provider,
  model and status, the newest first; a filter by the identifier of a key selects the events of one stored key with this identifier, all
  of them if the limit allows, and fails if two keys share it; a display mask selects nothing.\<close>

theorem log_export_selects:
  assumes "log_rows lg key_err err order db f = Inr es" "\<forall>ss. mset (order ss) = mset ss"
  shows "length es \<le> 20000 \<and> sorted_wrt (\<lambda>a b. ev_RequestedAt b \<le> ev_RequestedAt a) es
     \<and> (\<forall>e\<in>set es. e \<in> set (us_events db) \<and> log_base lg f e \<and> log_model f e \<and> log_status f e)
     \<and> (\<forall>filterID. normalizeKeySummaryFilterID (TrimSpace (lf_Account f)) = Some filterID \<longrightarrow>
          (\<forall>e\<in>set es. keySummaryFilterID (lg_query lg) (ev_APIKey e) = filterID \<and> ev_APIKey e = ev_APIKey (hd es))
          \<and> (length es < log_limit f \<longrightarrow>
               (\<forall>e\<in>set (us_events db). log_base lg f e \<and> log_model f e \<and> log_status f e \<and> ev_APIKey e \<noteq> []
                  \<and> keySummaryFilterID (lg_query lg) (ev_APIKey e) = filterID \<longrightarrow> e \<in> set es)))
     \<and> (normalizeKeySummaryFilterID (TrimSpace (lf_Account f)) = None \<and> Contains (TrimSpace (lf_Account f)) ''****'' \<longrightarrow> es = [])"
proof -
  obtain p where p: "log_account lg key_err order db f = Inr p"
    and es: "es = take (log_limit f) (sort_key (\<lambda>e. (- ev_RequestedAt e, - ev_ID e))
              (filter (\<lambda>e. log_base lg f e \<and> p e \<and> log_model f e \<and> log_status f e) (us_events db)))"
    using assms(1) by (auto simp: log_rows_def split: sum.splits option.splits)
  let ?sorted = "sort_key (\<lambda>e. (- ev_RequestedAt e, - ev_ID e))
              (filter (\<lambda>e. log_base lg f e \<and> p e \<and> log_model f e \<and> log_status f e) (us_events db))"
  have "log_limit f \<le> 20000" by (auto simp: log_limit_def nat_le_iff)
  moreover have "length es \<le> log_limit f" by (simp add: es)
  ultimately have few: "length es \<le> 20000" by simp
  have "sorted_wrt (\<lambda>a b. ev_RequestedAt b \<le> ev_RequestedAt a) ?sorted"
    using sorted_sort_key [of "\<lambda>e. (- ev_RequestedAt e, - ev_ID e)"
        "filter (\<lambda>e. log_base lg f e \<and> p e \<and> log_model f e \<and> log_status f e) (us_events db)"]
    unfolding sorted_map sorted_wrt_map by (rule sorted_wrt_mono_rel [rotated]) (auto simp: less_eq_prod_def)
  then have newest: "sorted_wrt (\<lambda>a b. ev_RequestedAt b \<le> ev_RequestedAt a) es" unfolding es by (rule sorted_wrt_take)
  have chosen: "e \<in> set (us_events db) \<and> log_base lg f e \<and> p e \<and> log_model f e \<and> log_status f e" if "e \<in> set es" for e
    using that unfolding es by (auto dest!: in_set_takeD)
  have whole: "e \<in> set es" if "length es < log_limit f" "e \<in> set (us_events db)" "log_base lg f e" "p e" "log_model f e" "log_status f e" for e
  proof -
    have "es = ?sorted" using that(1) unfolding es by simp
    then show ?thesis using that(2-) by simp
  qed
  have by_id: "(\<forall>e\<in>set es. keySummaryFilterID (lg_query lg) (ev_APIKey e) = filterID \<and> ev_APIKey e = ev_APIKey (hd es))
      \<and> (length es < log_limit f \<longrightarrow> (\<forall>e\<in>set (us_events db). log_base lg f e \<and> log_model f e \<and> log_status f e \<and> ev_APIKey e \<noteq> []
            \<and> keySummaryFilterID (lg_query lg) (ev_APIKey e) = filterID \<longrightarrow> e \<in> set es))"
    if id: "normalizeKeySummaryFilterID (TrimSpace (lf_Account f)) = Some filterID" for filterID
  proof -
    obtain found where found: "resolveKeySummaryFilterID (lg_query lg) key_err order db filterID (log_base lg f) = Inr found"
      "p = (case found of Some stored \<Rightarrow> (\<lambda>e. ev_APIKey e = stored) | None \<Rightarrow> (\<lambda>e. False))"
      using p id by (auto simp: log_account_def split: sum.splits option.splits)
    note key = resolved_key [OF found(1) assms(2)]
    show ?thesis
    proof (cases found)
      case None
      then show ?thesis using chosen key(1) found(2) by auto
    next
      case (Some stored)
      then have same: "ev_APIKey e = stored" if "e \<in> set es" for e using chosen [OF that] found(2) by simp
      have "\<forall>e\<in>set es. keySummaryFilterID (lg_query lg) (ev_APIKey e) = filterID \<and> ev_APIKey e = ev_APIKey (hd es)"
      proof
        fix e
        assume e: "e \<in> set es"
        then have "hd es \<in> set es" by (cases es) auto
        from same [OF e] same [OF this] key(2) [OF Some]
        show "keySummaryFilterID (lg_query lg) (ev_APIKey e) = filterID \<and> ev_APIKey e = ev_APIKey (hd es)" by simp
      qed
      moreover have "p e" if "e \<in> set (us_events db)" "log_base lg f e" "ev_APIKey e \<noteq> []"
          "keySummaryFilterID (lg_query lg) (ev_APIKey e) = filterID" for e
        using key(1) that found(2) Some by simp
      ultimately show ?thesis using whole by blast
    qed
  qed
  have masked: "es = []" if "normalizeKeySummaryFilterID (TrimSpace (lf_Account f)) = None" "Contains (TrimSpace (lf_Account f)) ''****''"
  proof -
    have "p = (\<lambda>e. False)" using p that by (auto simp: log_account_def)
    then show ?thesis using chosen by (cases es) auto
  qed
  show ?thesis using few newest chosen by_id masked by blast
qed

theorem log_export_selects_witness:
  "(case log_rows example_log_env None None (\<lambda>ss. ss) example_keys (example_filter (''keyid:v1:'' @ replicate 63 (CHR ''0'') @ ''a'')) of
      Inr es \<Rightarrow> map ev_APIKey es = [''a'', ''a''] \<and> length es \<le> 20000 | Inl _ \<Rightarrow> False)"
proof -
  let ?run = "log_rows example_log_env None None (\<lambda>ss. ss) example_keys (example_filter (''keyid:v1:'' @ replicate 63 (CHR ''0'') @ ''a''))"
  have "case ?run of Inr es \<Rightarrow> map ev_APIKey es = [''a'', ''a''] | Inl _ \<Rightarrow> False" by code_simp
  then obtain es where es: "?run = Inr es" "map ev_APIKey es = [''a'', ''a'']" by (auto split: sum.splits)
  from log_export_selects [OF es(1)] es show ?thesis by simp
qed

end
