(* ===== verification/Summary_Cache.thy ===== *)
theory Summary_Cache
  imports Config Usage_Tables Redact
begin

text \<open>
  The cache of summaries and their refresh (\<open>summaryPrecomputeManager\<close>, \<open>summary.go\<close>) and the maintenance that looks at the same
  revision (\<open>main.go\<close>). First the operations one by one, then as a system of requests that run at the same time as the writers of the
  store. The lemmas: an entry never carries a revision newer than its data, so what is served for the current revision has
  every write before the request; a request that computes first and reads the revision later breaks this.
\<close>

section \<open>Keys\<close>

type_synonym summary_key = "string \<times> int"

definition normalizeSummaryWindow :: "string \<Rightarrow> string option" where
  "normalizeSummaryWindow window =
     (let w = ToLower (TrimSpace window)
      in if w = [] then Some ''24h''
         else if w \<in> {''today'', ''24h'', ''7d'', ''30d'', ''all''} then Some w else None)"

definition normalizeSummaryLimit :: "int \<Rightarrow> int" where
  "normalizeSummaryLimit limit =
     (if limit \<le> 0 then 50 else if limit \<le> 50 then 50 else if limit \<le> 100 then 100 else if limit \<le> 500 then 500
      else if limit \<le> 2000 then 2000 else 5000)"

definition normalizeSummaryCacheKey :: "summary_key \<Rightarrow> summary_key" where
  "normalizeSummaryCacheKey key =
     (case normalizeSummaryWindow (fst key) of Some w \<Rightarrow> w | None \<Rightarrow> ''24h'', normalizeSummaryLimit (snd key))"

definition summaryCacheStorageKey :: "summary_key \<Rightarrow> string" where
  "summaryCacheStorageKey key = (let k = normalizeSummaryCacheKey key in fst k @ ''|'' @ Itoa (snd k))"

definition defaultSummaryPrecomputeKeys :: "summary_key list" where
  "defaultSummaryPrecomputeKeys = [(''today'', 2000), (''24h'', 2000), (''7d'', 2000), (''30d'', 2000), (''all'', 2000),
     (''24h'', 100), (''24h'', 500), (''all'', 500)]"

lemma normal_window: "normalizeSummaryWindow w = Some v \<Longrightarrow> normalizeSummaryWindow v = Some v"
proof -
  have "\<forall>v\<in>{''today'', ''24h'', ''7d'', ''30d'', ''all''}. normalizeSummaryWindow v = Some v" by code_simp
  moreover assume "normalizeSummaryWindow w = Some v"
  then have "v \<in> {''today'', ''24h'', ''7d'', ''30d'', ''all''}" unfolding normalizeSummaryWindow_def Let_def by (auto split: if_splits)
  ultimately show ?thesis by blast
qed

lemma normal_key [simp]: "normalizeSummaryCacheKey (normalizeSummaryCacheKey key) = normalizeSummaryCacheKey key"
proof -
  have "normalizeSummaryWindow ''24h'' = Some ''24h''" by code_simp
  then have "normalizeSummaryWindow (fst (normalizeSummaryCacheKey key)) = Some (fst (normalizeSummaryCacheKey key))"
    using normal_window by (auto simp: normalizeSummaryCacheKey_def split: option.splits)
  moreover have "normalizeSummaryLimit (normalizeSummaryLimit n) = normalizeSummaryLimit n" for n
    by (simp add: normalizeSummaryLimit_def)
  ultimately show ?thesis
    by (simp add: normalizeSummaryCacheKey_def [of "normalizeSummaryCacheKey key"]) (simp add: normalizeSummaryCacheKey_def)
qed

section \<open>Entries\<close>

text \<open>Times are nanoseconds. The type of the data is left open; an entry of a failed refresh has none.\<close>

record 'd summaryCacheEntry =
  ce_data :: "'d option"
  ce_cachedAt :: int
  ce_durationMs :: int
  ce_err :: string
  ce_revision :: string

definition second_ns :: int where "second_ns = 1000000000"

definition summaryCacheTTL :: "pluginConfig \<Rightarrow> int" where
  "summaryCacheTTL cfg = max (cf_SummaryCacheMaxAgeSeconds cfg) 1 * second_ns"

definition summaryStaleMaxAge :: "pluginConfig \<Rightarrow> int" where
  "summaryStaleMaxAge cfg = max (cf_SummaryCacheMaxAgeSeconds cfg) (cf_SummaryPrecomputeIntervalSeconds cfg * 2) * second_ns"

definition summaryCacheErrorCode :: "bool \<Rightarrow> string" where
  "summaryCacheErrorCode cancelled = (if cancelled then ''summary_refresh_cancelled'' else ''summary_refresh_failed'')"

definition normalizeSummaryCacheError :: "string \<Rightarrow> string" where
  "normalizeSummaryCacheError s =
     (let v = TrimSpace s
      in if v = [] then [] else if v = ''summary_refresh_cancelled'' then ''summary_refresh_cancelled'' else ''summary_refresh_failed'')"

text \<open>What a summary that comes from the cache says about itself.\<close>

record summaryPrecomputeInfo =
  pi_Hit :: bool
  pi_Window :: string
  pi_Limit :: int
  pi_AgeSeconds :: int
  pi_DurationMs :: int
  pi_LastError :: string
  pi_Precomputed :: bool
  pi_Synchronous :: bool
  pi_Stale :: bool
  pi_Reason :: string
  pi_StoreRevision :: string
  pi_CacheRevision :: string

definition cloneCachedSummaryForRevision ::
  "'d summaryCacheEntry \<Rightarrow> summary_key \<Rightarrow> pluginConfig \<Rightarrow> int \<Rightarrow> string \<Rightarrow> 'd option \<times> summaryPrecomputeInfo" where
  "cloneCachedSummaryForRevision entry key cfg age storeRevision =
     (let stale = (ce_revision entry \<noteq> storeRevision \<or> summaryCacheTTL cfg < age);
          reason = (if ce_revision entry \<noteq> storeRevision then ''revision_stale'' else if stale then ''age_stale'' else ''revision_hit'')
      in (ce_data entry,
          \<lparr>pi_Hit = True, pi_Window = fst key, pi_Limit = snd key, pi_AgeSeconds = (if 0 \<le> age then age div second_ns else - (- age div second_ns)),
           pi_DurationMs = ce_durationMs entry, pi_LastError = normalizeSummaryCacheError (ce_err entry), pi_Precomputed = True,
           pi_Synchronous = False, pi_Stale = stale, pi_Reason = reason, pi_StoreRevision = storeRevision,
           pi_CacheRevision = ce_revision entry\<rparr>))"

definition cloneCachedSummary ::
  "'d summaryCacheEntry \<Rightarrow> summary_key \<Rightarrow> pluginConfig \<Rightarrow> int \<Rightarrow> 'd option \<times> summaryPrecomputeInfo" where
  "cloneCachedSummary entry key cfg age = cloneCachedSummaryForRevision entry key cfg age (ce_revision entry)"

section \<open>The table of the store\<close>

text \<open>A row keeps whole seconds; its text may be blank or no JSON any more.\<close>

record 'd summary_row =
  sr_blank :: bool
  sr_decoded :: "'d option"
  sr_cachedAt :: int
  sr_durationMs :: int
  sr_lastError :: string
  sr_revision :: string

type_synonym 'd summary_table = "(string \<times> 'd summary_row) list"

text \<open>An error of the store, no usable row, or the entry.\<close>

definition loadSummaryCacheEntry ::
  "string option \<Rightarrow> 'd summary_table \<Rightarrow> summary_key \<Rightarrow> (string, 'd summaryCacheEntry option) result" where
  "loadSummaryCacheEntry err table key =
     (case err of
        Some e \<Rightarrow> Inl e
      | None \<Rightarrow>
          case map_of table (summaryCacheStorageKey key) of
            None \<Rightarrow> Inr None
          | Some row \<Rightarrow>
              if sr_blank row \<or> sr_cachedAt row \<le> 0 then Inr None
              else case sr_decoded row of
                     None \<Rightarrow> Inl ''invalid JSON''
                   | Some d \<Rightarrow> Inr (Some \<lparr>ce_data = Some d, ce_cachedAt = sr_cachedAt row * second_ns, ce_durationMs = sr_durationMs row,
                        ce_err = normalizeSummaryCacheError (sr_lastError row), ce_revision = sr_revision row\<rparr>))"

definition saveSummaryCacheEntry :: "string option \<Rightarrow> summary_key \<Rightarrow> 'd summaryCacheEntry \<Rightarrow> 'd summary_table \<Rightarrow> 'd summary_table" where
  "saveSummaryCacheEntry err key entry table =
     (case ce_data entry of
        None \<Rightarrow> table
      | Some d \<Rightarrow>
          if err \<noteq> None then table
          else AList.update (summaryCacheStorageKey key)
                 \<lparr>sr_blank = False, sr_decoded = Some d, sr_cachedAt = ce_cachedAt entry div second_ns, sr_durationMs = ce_durationMs entry,
                  sr_lastError = normalizeSummaryCacheError (ce_err entry), sr_revision = ce_revision entry\<rparr> table)"

section \<open>The manager\<close>

record 'd summary_manager =
  sg_cfg :: pluginConfig
  sg_stopping :: bool
  sg_entries :: "(summary_key \<times> 'd summaryCacheEntry) list"
  sg_refreshing :: "summary_key list"
  sg_active :: "(summary_key \<times> int) list"
  sg_hasContext :: bool

definition summary_config :: "'d summary_manager \<Rightarrow> pluginConfig" where
  "summary_config m = (if cf_SummaryPrecomputeIntervalSeconds (sg_cfg m) \<le> 0 then normalizePluginConfig defaultPluginConfig else sg_cfg m)"

definition markActive :: "int \<Rightarrow> summary_key \<Rightarrow> 'd summary_manager \<Rightarrow> 'd summary_manager" where
  "markActive now key m = m\<lparr>sg_active := AList.update (normalizeSummaryCacheKey key) now (sg_active m)\<rparr>"

definition activeKeys :: "int \<Rightarrow> pluginConfig \<Rightarrow> 'd summary_manager \<Rightarrow> summary_key list \<times> 'd summary_manager" where
  "activeKeys now cfg m =
     (let cutoff = now - max (cf_SummaryPrecomputeActiveWindowTTLSeconds cfg) 30 * second_ns;
          kept = filter (\<lambda>(key, lastSeen). cutoff \<le> lastSeen) (sg_active m)
      in (sort (map fst kept), m\<lparr>sg_active := kept\<rparr>))"

definition cacheRevisionMatches :: "int \<Rightarrow> summary_key \<Rightarrow> string \<Rightarrow> 'd summary_manager \<Rightarrow> bool" where
  "cacheRevisionMatches now key revision m =
     (case map_of (sg_entries m) (normalizeSummaryCacheKey key) of
        None \<Rightarrow> False
      | Some entry \<Rightarrow> ce_data entry \<noteq> None \<and> ce_revision entry = revision \<and> now - ce_cachedAt entry \<le> summaryCacheTTL (summary_config m))"

definition cachedEntry ::
  "int \<Rightarrow> summary_key \<Rightarrow> pluginConfig \<Rightarrow> string \<Rightarrow> 'd summary_manager \<Rightarrow> ('d option \<times> summaryPrecomputeInfo) option" where
  "cachedEntry now key cfg revision m =
     (case map_of (sg_entries m) key of
        None \<Rightarrow> None
      | Some entry \<Rightarrow>
          if ce_data entry = None \<or> ce_revision entry \<noteq> revision then None
          else Some (cloneCachedSummary entry key cfg (now - ce_cachedAt entry)))"

definition cachedAnyEntry ::
  "int \<Rightarrow> summary_key \<Rightarrow> pluginConfig \<Rightarrow> string \<Rightarrow> 'd summary_manager \<Rightarrow> ('d option \<times> summaryPrecomputeInfo) option" where
  "cachedAnyEntry now key cfg revision m =
     (let k = normalizeSummaryCacheKey key
      in case map_of (sg_entries m) k of
           None \<Rightarrow> None
         | Some entry \<Rightarrow>
             if ce_data entry = None \<or> summaryStaleMaxAge cfg < now - ce_cachedAt entry then None
             else Some (cloneCachedSummaryForRevision entry k cfg (now - ce_cachedAt entry) revision))"

definition rememberMemory :: "summary_key \<Rightarrow> 'd summaryCacheEntry \<Rightarrow> 'd summary_manager \<Rightarrow> 'd summary_manager" where
  "rememberMemory key entry m =
     (if ce_data entry = None then m else m\<lparr>sg_entries := AList.update (normalizeSummaryCacheKey key) entry (sg_entries m)\<rparr>)"

definition cached ::
  "int \<Rightarrow> string option \<Rightarrow> 'd summary_table \<Rightarrow> summary_key \<Rightarrow> pluginConfig \<Rightarrow> string \<Rightarrow> 'd summary_manager
   \<Rightarrow> ('d option \<times> summaryPrecomputeInfo) option \<times> 'd summary_manager" where
  "cached now err table key cfg revision m =
     (let k = normalizeSummaryCacheKey key
      in case cachedEntry now k cfg revision m of
           Some served \<Rightarrow> (Some served, m)
         | None \<Rightarrow>
             (case loadSummaryCacheEntry err table k of
                Inr (Some entry) \<Rightarrow>
                  if ce_revision entry \<noteq> revision then (None, m)
                  else (Some (cloneCachedSummary entry k cfg (now - ce_cachedAt entry)), rememberMemory k entry m)
              | _ \<Rightarrow> (None, m)))"

definition cachedAny ::
  "int \<Rightarrow> string option \<Rightarrow> 'd summary_table \<Rightarrow> summary_key \<Rightarrow> pluginConfig \<Rightarrow> string \<Rightarrow> 'd summary_manager
   \<Rightarrow> ('d option \<times> summaryPrecomputeInfo) option \<times> 'd summary_manager" where
  "cachedAny now err table key cfg revision m =
     (let k = normalizeSummaryCacheKey key
      in case cachedAnyEntry now k cfg revision m of
           Some served \<Rightarrow> (Some served, m)
         | None \<Rightarrow>
             (case loadSummaryCacheEntry err table k of
                Inr (Some entry) \<Rightarrow>
                  if summaryStaleMaxAge cfg < now - ce_cachedAt entry then (None, m)
                  else (Some (cloneCachedSummaryForRevision entry k cfg (now - ce_cachedAt entry) revision), rememberMemory k entry m)
              | _ \<Rightarrow> (None, m)))"

section \<open>Operations\<close>

text \<open>
  What one computation meets: the revision of the store, the summary it computes (an error tells whether it was cancelled), the times
  before and after, and the errors of the table.
\<close>

record 'd summary_calls =
  sc_revision :: "(string, string) result"
  sc_summary :: "(bool, 'd) result"
  sc_now :: int
  sc_computedAt :: int
  sc_durationMs :: int
  sc_load :: "string option"
  sc_save :: "string option"

definition remember ::
  "string option \<Rightarrow> summary_key \<Rightarrow> 'd summaryCacheEntry \<Rightarrow> 'd summary_manager \<times> 'd summary_table \<Rightarrow> 'd summary_manager \<times> 'd summary_table" where
  "remember err key entry = (\<lambda>(m, table). (rememberMemory key entry m, saveSummaryCacheEntry err key entry table))"

text \<open>One key of \<open>refresh\<close>, with what its own computation meets. A failure keeps the data of the last success and marks it.\<close>

definition refresh_key ::
  "pluginConfig \<Rightarrow> string \<Rightarrow> 'd summary_calls \<Rightarrow> summary_key \<Rightarrow> 'd summary_manager \<times> 'd summary_table
   \<Rightarrow> bool \<times> 'd summary_manager \<times> 'd summary_table" where
  "refresh_key cfg revision sc key0 = (\<lambda>(m, table).
     let key = normalizeSummaryCacheKey key0
     in if cf_SummaryPrecomputeMode cfg \<noteq> ''legacy'' \<and> cacheRevisionMatches (sc_now sc) key revision m then (False, m, table)
        else case sc_summary sc of
               Inr d \<Rightarrow>
                 (False, remember (sc_save sc) key \<lparr>ce_data = Some d, ce_cachedAt = sc_computedAt sc, ce_durationMs = sc_durationMs sc,
                    ce_err = [], ce_revision = revision\<rparr> (m, table))
             | Inl cancelled \<Rightarrow>
                 let code = summaryCacheErrorCode cancelled
                 in case map_of (sg_entries m) key of
                      Some previous \<Rightarrow>
                        if ce_data previous \<noteq> None
                        then (True, m\<lparr>sg_entries := AList.update key (previous\<lparr>ce_err := code\<rparr>) (sg_entries m)\<rparr>,
                              saveSummaryCacheEntry (sc_save sc) key (previous\<lparr>ce_err := code\<rparr>) table)
                        else (True, m\<lparr>sg_entries := AList.update key \<lparr>ce_data = None, ce_cachedAt = sc_computedAt sc,
                              ce_durationMs = sc_durationMs sc, ce_err = code, ce_revision = revision\<rparr> (sg_entries m)\<rparr>, table)
                    | None \<Rightarrow> (True, m\<lparr>sg_entries := AList.update key \<lparr>ce_data = None, ce_cachedAt = sc_computedAt sc,
                              ce_durationMs = sc_durationMs sc, ce_err = code, ce_revision = revision\<rparr> (sg_entries m)\<rparr>, table))"

text \<open>\<open>refresh\<close>: whether some key failed.\<close>

fun refresh_keys ::
  "pluginConfig \<Rightarrow> string \<Rightarrow> (summary_key \<times> 'd summary_calls) list \<Rightarrow> 'd summary_manager \<times> 'd summary_table
   \<Rightarrow> bool \<times> 'd summary_manager \<times> 'd summary_table" where
  "refresh_keys cfg revision [] (m, table) = (False, m, table)"
| "refresh_keys cfg revision ((key, sc) # rest) (m, table) =
     (let (failed, m1, table1) = refresh_key cfg revision sc key (m, table);
          (failed_later, m2, table2) = refresh_keys cfg revision rest (m1, table1)
      in (failed \<or> failed_later, m2, table2))"

definition refresh_summaries ::
  "pluginConfig \<Rightarrow> (string, string) result \<Rightarrow> (summary_key \<times> 'd summary_calls) list \<Rightarrow> 'd summary_manager \<times> 'd summary_table
   \<Rightarrow> bool \<times> 'd summary_manager \<times> 'd summary_table" where
  "refresh_summaries cfg revision ks = (\<lambda>(m, table).
     if \<not> cf_SummaryPrecomputeEnabled cfg \<or> ks = [] then (False, m, table)
     else case revision of
            Inl e \<Rightarrow> (True, m, table)
          | Inr r \<Rightarrow> refresh_keys cfg r ks (m, table))"

text \<open>\<open>refreshAsyncMode\<close>: whether a goroutine is started, one at a time for each key.\<close>

definition refreshAsyncMode :: "int \<Rightarrow> pluginConfig \<Rightarrow> summary_key \<Rightarrow> bool \<Rightarrow> 'd summary_manager \<Rightarrow> bool \<times> 'd summary_manager" where
  "refreshAsyncMode now cfg key0 throttle m =
     (let key = normalizeSummaryCacheKey key0;
          young = (case map_of (sg_entries m) key of
                     Some entry \<Rightarrow> ce_data entry \<noteq> None \<and> now - ce_cachedAt entry < max (cf_SummaryPrecomputeIntervalSeconds cfg) 1 * second_ns
                   | None \<Rightarrow> False)
      in if \<not> cf_SummaryPrecomputeEnabled cfg \<or> sg_stopping m \<or> key \<in> set (sg_refreshing m) \<or> throttle \<and> young then (False, m)
         else (True, m\<lparr>sg_refreshing := key # sg_refreshing m, sg_hasContext := True\<rparr>))"

definition refresh_done :: "summary_key \<Rightarrow> 'd summary_manager \<Rightarrow> 'd summary_manager" where
  "refresh_done key m = m\<lparr>sg_refreshing := filter (\<lambda>k. k \<noteq> normalizeSummaryCacheKey key) (sg_refreshing m)\<rparr>"

text \<open>What a request answers when it computed the summary itself.\<close>

definition computed_info :: "summary_key \<Rightarrow> int \<Rightarrow> string \<Rightarrow> string \<Rightarrow> summaryPrecomputeInfo" where
  "computed_info key durationMs reason revision =
     \<lparr>pi_Hit = False, pi_Window = fst key, pi_Limit = snd key, pi_AgeSeconds = 0, pi_DurationMs = durationMs, pi_LastError = [],
      pi_Precomputed = False, pi_Synchronous = True, pi_Stale = False, pi_Reason = reason, pi_StoreRevision = revision, pi_CacheRevision = revision\<rparr>"

datatype 'd summary_answer = Failed | Direct 'd | Served "'d option" summaryPrecomputeInfo

text \<open>\<open>summary\<close>: the answer, whether a refresh of the key was started, the manager and the table.\<close>

definition summary_request ::
  "'d summary_calls \<Rightarrow> summary_key \<Rightarrow> 'd summary_manager \<times> 'd summary_table \<Rightarrow> 'd summary_answer \<times> bool \<times> 'd summary_manager \<times> 'd summary_table" where
  "summary_request sc key0 = (\<lambda>(m0, table).
     let cfg = summary_config m0; key = normalizeSummaryCacheKey key0; m = markActive (sc_now sc) key m0
     in if \<not> cf_SummaryPrecomputeEnabled cfg
        then (case sc_summary sc of Inl _ \<Rightarrow> Failed | Inr d \<Rightarrow> Direct d, False, m, table)
        else case sc_revision sc of
               Inl _ \<Rightarrow> (Failed, False, m, table)
             | Inr revision \<Rightarrow>
                 (case cached (sc_now sc) (sc_load sc) table key cfg revision m of
                    (Some (d, info), m1) \<Rightarrow>
                      let (start, m2) = (if pi_Stale info then refreshAsyncMode (sc_now sc) cfg key True m1 else (False, m1))
                      in (Served d info, start, m2, table)
                  | (None, m1) \<Rightarrow>
                      (case cachedAny (sc_now sc) (sc_load sc) table key cfg revision m1 of
                         (Some (d, info), m2) \<Rightarrow>
                           let (start, m3) = refreshAsyncMode (sc_now sc) cfg key True m2 in (Served d info, start, m3, table)
                       | (None, m2) \<Rightarrow>
                           (case sc_summary sc of
                              Inl _ \<Rightarrow> (Failed, False, m2, table)
                            | Inr d \<Rightarrow>
                                let (m3, table') = remember (sc_save sc) key \<lparr>ce_data = Some d, ce_cachedAt = sc_computedAt sc,
                                      ce_durationMs = sc_durationMs sc, ce_err = [], ce_revision = revision\<rparr> (m2, table)
                                in (Served (Some d) (computed_info key (sc_durationMs sc) ''revision_miss'' revision), False, m3, table')))))"

text \<open>\<open>summarySyncWithStarted\<close>: the revision is read after the summary is computed.\<close>

definition summarySyncWithStarted ::
  "'d summary_calls \<Rightarrow> summary_key \<Rightarrow> 'd summary_manager \<times> 'd summary_table \<Rightarrow> 'd summary_answer \<times> 'd summary_manager \<times> 'd summary_table" where
  "summarySyncWithStarted sc key0 = (\<lambda>(m, table).
     let key = normalizeSummaryCacheKey key0
     in case sc_summary sc of
          Inl _ \<Rightarrow> (Failed, m, table)
        | Inr d \<Rightarrow>
            (case sc_revision sc of
               Inl _ \<Rightarrow> (Failed, m, table)
             | Inr revision \<Rightarrow>
                 let (m1, table1) = remember (sc_save sc) key \<lparr>ce_data = Some d, ce_cachedAt = sc_computedAt sc,
                       ce_durationMs = sc_durationMs sc, ce_err = [], ce_revision = revision\<rparr> (m, table)
                 in (Served (Some d) (computed_info key (sc_durationMs sc) ''sync_refresh'' revision), m1, table1)))"

definition summarySync ::
  "'d summary_calls \<Rightarrow> summary_key \<Rightarrow> 'd summary_manager \<times> 'd summary_table \<Rightarrow> 'd summary_answer \<times> 'd summary_manager \<times> 'd summary_table" where
  "summarySync sc key = (\<lambda>(m, table). summarySyncWithStarted sc key (markActive (sc_now sc) key m, table))"

definition summaryFresh ::
  "'d summary_calls \<Rightarrow> (string, string) result \<Rightarrow> summary_key \<Rightarrow> 'd summary_manager \<times> 'd summary_table
   \<Rightarrow> 'd summary_answer \<times> bool \<times> 'd summary_manager \<times> 'd summary_table" where
  "summaryFresh sc revision0 key0 = (\<lambda>(m0, table).
     let cfg = summary_config m0; key = normalizeSummaryCacheKey key0; m = markActive (sc_now sc) key m0;
         sync = (\<lambda>m. let (answer, m1, table1) = summarySyncWithStarted sc key (m, table) in (answer, False, m1, table1))
     in if \<not> cf_SummaryPrecomputeEnabled cfg then sync m
        else case revision0 of
               Inl _ \<Rightarrow> (Failed, False, m, table)
             | Inr revision \<Rightarrow>
                 (case cachedAny (sc_now sc) (sc_load sc) table key cfg revision m of
                    (Some (d, info), m1) \<Rightarrow> let (start, m2) = refreshAsyncMode (sc_now sc) cfg key False m1 in (Served d info, start, m2, table)
                  | (None, m1) \<Rightarrow> sync m1))"

section \<open>The revision of the store\<close>

definition max_or_zero :: "int list \<Rightarrow> int" where
  "max_or_zero ns = (if ns = [] then 0 else Max (set ns))"

definition min_or_zero :: "int list \<Rightarrow> int" where
  "min_or_zero ns = (if ns = [] then 0 else Min (set ns))"

definition currentRevision :: "string \<Rightarrow> usage_db \<Rightarrow> invalidAuthRow list \<Rightarrow> xaiAccountStateRow list \<Rightarrow> stored_ban list \<Rightarrow> string" where
  "currentRevision authFiles db invalids xai bans =
     (let inv = filter (\<lambda>r. ia_Provider r = ''codex'' \<and> ia_Active r) invalids;
          xs = filter (\<lambda>r. xs_Provider r = ''xai'' \<and> xs_Active r) xai;
          bs = filter (\<lambda>r. ab_Provider r = ''codex'' \<and> (ab_Active r \<or> 0 < sb_ReleasedAt r)) bans
      in Join [''u:'' @ Itoa (max_or_zero (map ev_ID (us_events db))), ''q:'' @ Itoa (max_or_zero (map fst (us_runs db))),
           ''i:'' @ Itoa (int (length inv)) @ '':'' @ Itoa (max_or_zero (map ia_InvalidatedAt inv)),
           ''b:'' @ Itoa (int (length bs)) @ '':'' @ Itoa (max_or_zero (map (\<lambda>r. if ab_BannedAt r < sb_ReleasedAt r then sb_ReleasedAt r else ab_BannedAt r) bs))
             @ '':'' @ Itoa (min_or_zero (map ab_ResetAt (filter ab_Active bs))),
           ''x:'' @ Itoa (int (length xs)) @ '':'' @ Itoa (max_or_zero (map xs_ObservedAt xs))
             @ '':'' @ Itoa (min_or_zero (filter (\<lambda>t. 0 < t) (map xs_ResetAt xs))),
           ''a:'' @ authFiles] ''|'')"

text \<open>Deleting events does not change the revision unless the newest one goes; a summary cached before stays current.\<close>

lemma deletion_unseen:
  assumes "e \<in> set es" "\<forall>e'\<in>set es. ev_ID e' \<le> ev_ID e" "P e"
  shows "currentRevision files (db\<lparr>us_events := filter P es\<rparr>) invalids xai bans = currentRevision files (db\<lparr>us_events := es\<rparr>) invalids xai bans"
proof -
  have "max_or_zero (map ev_ID (filter P es)) = ev_ID e" "max_or_zero (map ev_ID es) = ev_ID e"
    using assms by (auto simp: max_or_zero_def filter_empty_conv intro!: Max_eqI)
  then show ?thesis by (simp add: currentRevision_def)
qed

section \<open>Requests and writers together\<close>

text \<open>
  The store has a version that every write raises; \<open>stamp\<close> gives the revision of a version. The data of a summary is the version
  whose writes it is sure to contain: that at which its first query ran. A request has read the revision of a version when it
  looks an entry up, has loaded a row of the table, or has computed a summary (and is to answer with it or not).
\<close>

datatype request_phase =
    Asked summary_key
  | Looked summary_key nat
  | Loaded summary_key nat "nat summaryCacheEntry"
  | Computed summary_key nat nat bool
  | RefreshAsked summary_key
  | RefreshLooked summary_key nat
  | SyncAsked summary_key
  | SyncComputed summary_key nat
  | Answered

record summary_system =
  sy_version :: nat
  sy_now :: int
  sy_manager :: "nat summary_manager"
  sy_table :: "nat summary_table"
  sy_requests :: "request_phase list"
  sy_served :: "(nat \<times> nat \<times> summaryPrecomputeInfo) list"

definition answer_with :: "nat \<Rightarrow> nat \<Rightarrow> nat \<Rightarrow> summaryPrecomputeInfo \<Rightarrow> summary_system \<Rightarrow> summary_system" where
  "answer_with i v d info s = s\<lparr>sy_requests := (sy_requests s)[i := Answered], sy_served := (v, d, info) # sy_served s\<rparr>"

definition finish_request :: "(nat \<Rightarrow> string) \<Rightarrow> string option \<Rightarrow> int \<Rightarrow> summary_key \<Rightarrow> nat \<Rightarrow> nat \<Rightarrow> summary_system \<Rightarrow> summary_system" where
  "finish_request stamp err duration key v d s =
     (let (m, table) = remember err key \<lparr>ce_data = Some d, ce_cachedAt = sy_now s, ce_durationMs = duration, ce_err = [], ce_revision = stamp v\<rparr>
                         (sy_manager s, sy_table s)
      in s\<lparr>sy_manager := m, sy_table := table\<rparr>)"

inductive summary_step :: "(nat \<Rightarrow> string) \<Rightarrow> pluginConfig \<Rightarrow> bool \<Rightarrow> summary_system \<Rightarrow> summary_system \<Rightarrow> bool" for stamp cfg sync where
  written: "summary_step stamp cfg sync s (s\<lparr>sy_version := Suc (sy_version s)\<rparr>)"
| passed: "0 \<le> d \<Longrightarrow> summary_step stamp cfg sync s (s\<lparr>sy_now := sy_now s + d\<rparr>)"
| asked: "summary_step stamp cfg sync s (s\<lparr>sy_requests := sy_requests s @ [Asked (normalizeSummaryCacheKey key)]\<rparr>)"
| refresh_asked: "summary_step stamp cfg sync s (s\<lparr>sy_requests := sy_requests s @ [RefreshAsked (normalizeSummaryCacheKey key)]\<rparr>)"
| sync_asked: "sync \<Longrightarrow> summary_step stamp cfg sync s (s\<lparr>sy_requests := sy_requests s @ [SyncAsked (normalizeSummaryCacheKey key)]\<rparr>)"
| looked: "i < length (sy_requests s) \<Longrightarrow> sy_requests s ! i = Asked key \<Longrightarrow>
    summary_step stamp cfg sync s (s\<lparr>sy_requests := (sy_requests s)[i := Looked key (sy_version s)]\<rparr>)"
| hit: "i < length (sy_requests s) \<Longrightarrow> sy_requests s ! i = Looked key v \<Longrightarrow>
    cachedEntry (sy_now s) key cfg (stamp v) (sy_manager s) = Some (Some d, info) \<Longrightarrow> summary_step stamp cfg sync s (answer_with i v d info s)"
| loaded: "i < length (sy_requests s) \<Longrightarrow> sy_requests s ! i = Looked key v \<Longrightarrow>
    loadSummaryCacheEntry err (sy_table s) key = Inr (Some entry) \<Longrightarrow>
    ce_revision entry = stamp v \<or> sy_now s - ce_cachedAt entry \<le> summaryStaleMaxAge cfg \<Longrightarrow>
    summary_step stamp cfg sync s (s\<lparr>sy_requests := (sy_requests s)[i := Loaded key v entry]\<rparr>)"
| loaded_hit: "i < length (sy_requests s) \<Longrightarrow> sy_requests s ! i = Loaded key v entry \<Longrightarrow>
    cloneCachedSummaryForRevision entry key cfg (sy_now s - ce_cachedAt entry) (stamp v) = (Some d, info) \<Longrightarrow>
    summary_step stamp cfg sync s (answer_with i v d info (s\<lparr>sy_manager := rememberMemory key entry (sy_manager s)\<rparr>))"
| any_hit: "i < length (sy_requests s) \<Longrightarrow> sy_requests s ! i = Looked key v \<Longrightarrow>
    cachedAnyEntry (sy_now s) key cfg (stamp v) (sy_manager s) = Some (Some d, info) \<Longrightarrow> summary_step stamp cfg sync s (answer_with i v d info s)"
| computed: "i < length (sy_requests s) \<Longrightarrow> sy_requests s ! i = Looked key v \<Longrightarrow>
    summary_step stamp cfg sync s (s\<lparr>sy_requests := (sy_requests s)[i := Computed key v (sy_version s) True]\<rparr>)"
| finished: "i < length (sy_requests s) \<Longrightarrow> sy_requests s ! i = Computed key v d answers \<Longrightarrow>
    summary_step stamp cfg sync s
      (if answers then answer_with i v d (computed_info key duration reason (stamp v)) (finish_request stamp err duration key v d s)
       else (finish_request stamp err duration key v d s)\<lparr>sy_requests := (sy_requests s)[i := Answered]\<rparr>)"
| refresh_looked: "i < length (sy_requests s) \<Longrightarrow> sy_requests s ! i = RefreshAsked key \<Longrightarrow>
    summary_step stamp cfg sync s (s\<lparr>sy_requests := (sy_requests s)[i := RefreshLooked key (sy_version s)]\<rparr>)"
| refresh_computed: "i < length (sy_requests s) \<Longrightarrow> sy_requests s ! i = RefreshLooked key v \<Longrightarrow>
    cf_SummaryPrecomputeMode cfg = ''legacy'' \<or> \<not> cacheRevisionMatches (sy_now s) key (stamp v) (sy_manager s) \<Longrightarrow>
    summary_step stamp cfg sync s (s\<lparr>sy_requests := (sy_requests s)[i := Computed key v (sy_version s) False]\<rparr>)"
| refresh_failed: "i < length (sy_requests s) \<Longrightarrow> sy_requests s ! i = RefreshLooked key v \<Longrightarrow> sc_summary sc = Inl cancelled \<Longrightarrow>
    refresh_key cfg (stamp v) sc key (sy_manager s, sy_table s) = (bad, m, table) \<Longrightarrow>
    summary_step stamp cfg sync s (s\<lparr>sy_manager := m, sy_table := table, sy_requests := (sy_requests s)[i := Answered]\<rparr>)"
| sync_computed: "i < length (sy_requests s) \<Longrightarrow> sy_requests s ! i = SyncAsked key \<Longrightarrow>
    summary_step stamp cfg sync s (s\<lparr>sy_requests := (sy_requests s)[i := SyncComputed key (sy_version s)]\<rparr>)"
| sync_looked: "i < length (sy_requests s) \<Longrightarrow> sy_requests s ! i = SyncComputed key d \<Longrightarrow>
    summary_step stamp cfg sync s (s\<lparr>sy_requests := (sy_requests s)[i := Computed key (sy_version s) d True]\<rparr>)"
| given_up: "i < length (sy_requests s) \<Longrightarrow> summary_step stamp cfg sync s (s\<lparr>sy_requests := (sy_requests s)[i := Answered]\<rparr>)"

definition summary_start :: "pluginConfig \<Rightarrow> summary_system" where
  "summary_start cfg = \<lparr>sy_version = 0, sy_now = 0,
     sy_manager = \<lparr>sg_cfg = cfg, sg_stopping = False, sg_entries = [], sg_refreshing = [], sg_active = [], sg_hasContext = True\<rparr>,
     sy_table = [], sy_requests = [], sy_served = []\<rparr>"

section \<open>Labels\<close>

definition entry_labelled :: "(nat \<Rightarrow> string) \<Rightarrow> nat summaryCacheEntry \<Rightarrow> bool" where
  "entry_labelled stamp entry \<longleftrightarrow> (\<forall>d. ce_data entry = Some d \<longrightarrow> (\<exists>v\<le>d. ce_revision entry = stamp v))"

definition row_labelled :: "(nat \<Rightarrow> string) \<Rightarrow> nat summary_row \<Rightarrow> bool" where
  "row_labelled stamp row \<longleftrightarrow> (\<forall>d. sr_decoded row = Some d \<longrightarrow> (\<exists>v\<le>d. sr_revision row = stamp v))"

fun phase_labelled :: "(nat \<Rightarrow> string) \<Rightarrow> nat \<Rightarrow> request_phase \<Rightarrow> bool" where
  "phase_labelled stamp n (Looked key v) = (v \<le> n)"
| "phase_labelled stamp n (Loaded key v entry) = (v \<le> n \<and> entry_labelled stamp entry)"
| "phase_labelled stamp n (Computed key v d answers) = (v \<le> d)"
| "phase_labelled stamp n (RefreshLooked key v) = (v \<le> n)"
| "phase_labelled stamp n (SyncAsked key) = False"
| "phase_labelled stamp n (SyncComputed key d) = False"
| "phase_labelled stamp n _ = True"

definition all_labelled :: "(nat \<Rightarrow> string) \<Rightarrow> summary_system \<Rightarrow> bool" where
  "all_labelled stamp s \<longleftrightarrow>
     (\<forall>entry\<in>snd ` set (sg_entries (sy_manager s)). entry_labelled stamp entry)
     \<and> (\<forall>row\<in>snd ` set (sy_table s). row_labelled stamp row)
     \<and> (\<forall>p\<in>set (sy_requests s). phase_labelled stamp (sy_version s) p)
     \<and> (\<forall>(v, d, info)\<in>set (sy_served s). \<not> pi_Stale info \<longrightarrow> (\<exists>v'\<le>d. stamp v = stamp v'))"

lemma updated_values: "snd ` set (AList.update k v m) \<subseteq> insert v (snd ` set m)"
  by (induction m) auto

lemma updated_all: "Q v \<Longrightarrow> \<forall>x\<in>snd ` set m. Q x \<Longrightarrow> \<forall>x\<in>snd ` set (AList.update k v m). Q x"
  using updated_values [of k v m] by blast

lemma remembered_labelled:
  assumes "entry_labelled stamp entry" "\<forall>e\<in>snd ` set (sg_entries m). entry_labelled stamp e"
  shows "\<forall>e\<in>snd ` set (sg_entries (rememberMemory key entry m)). entry_labelled stamp e"
  using assms(2) updated_all [OF assms] by (simp only: rememberMemory_def split: if_split) simp

lemma saved_labelled:
  assumes "entry_labelled stamp entry" "\<forall>r\<in>snd ` set table. row_labelled stamp r"
  shows "\<forall>r\<in>snd ` set (saveSummaryCacheEntry err key entry table). row_labelled stamp r"
proof (cases "ce_data entry")
  case (Some d)
  then obtain row where row: "saveSummaryCacheEntry err key entry table = (if err \<noteq> None then table
      else AList.update (summaryCacheStorageKey key) row table)" "sr_decoded row = Some d" "sr_revision row = ce_revision entry"
    by (simp add: saveSummaryCacheEntry_def)
  then have "row_labelled stamp row" using assms(1) Some by (simp add: entry_labelled_def row_labelled_def)
  from updated_all [of "row_labelled stamp", OF this assms(2)] show ?thesis using assms(2) unfolding row(1) by (simp split: if_split)
qed (use assms(2) in \<open>simp add: saveSummaryCacheEntry_def\<close>)

lemma stored_entry_labelled:
  assumes "\<forall>e\<in>snd ` set (sg_entries m). entry_labelled stamp e" "map_of (sg_entries m) key = Some entry"
  shows "entry_labelled stamp entry"
  using assms by (auto dest!: map_of_SomeD intro: rev_image_eqI)

lemma loaded_labelled:
  assumes "\<forall>r\<in>snd ` set table. row_labelled stamp r" "loadSummaryCacheEntry err table key = Inr (Some entry)"
  shows "entry_labelled stamp entry"
proof -
  obtain row d where "map_of table (summaryCacheStorageKey key) = Some row" "sr_decoded row = Some d"
    "ce_data entry = Some d" "ce_revision entry = sr_revision row"
    using assms(2) by (auto simp: loadSummaryCacheEntry_def split: option.splits if_splits)
  moreover from this(1) have "row_labelled stamp row" using assms(1) by (auto dest!: map_of_SomeD intro: rev_image_eqI)
  ultimately show ?thesis by (simp add: row_labelled_def entry_labelled_def)
qed

text \<open>An entry that is served without a mark carries the revision asked for.\<close>

lemma unmarked_clone:
  assumes "cloneCachedSummaryForRevision entry key cfg age revision = (Some d, info)" "\<not> pi_Stale info"
  shows "ce_data entry = Some d \<and> ce_revision entry = revision"
  using assms by (auto simp: cloneCachedSummaryForRevision_def Let_def)

lemma served_entry:
  assumes "cachedEntry now key cfg revision m = Some (Some d, info) \<or> cachedAnyEntry now key cfg revision m = Some (Some d, info)"
    "\<not> pi_Stale info"
  shows "\<exists>key' entry. map_of (sg_entries m) key' = Some entry \<and> ce_data entry = Some d \<and> ce_revision entry = revision"
  using assms(1)
proof
  assume "cachedEntry now key cfg revision m = Some (Some d, info)"
  then show ?thesis using assms(2)
    by (intro exI [of _ key]) (auto simp: cachedEntry_def cloneCachedSummary_def dest!: unmarked_clone split: option.splits if_splits)
next
  assume "cachedAnyEntry now key cfg revision m = Some (Some d, info)"
  then show ?thesis using assms(2)
    by (intro exI [of _ "normalizeSummaryCacheKey key"])
      (auto simp: cachedAnyEntry_def Let_def dest!: unmarked_clone split: option.splits if_splits)
qed

lemma refresh_failure_labelled:
  assumes "refresh_key cfg revision sc key (m, table) = (bad, m', table')" "sc_summary sc = Inl cancelled"
    "\<forall>e\<in>snd ` set (sg_entries m). entry_labelled stamp e" "\<forall>r\<in>snd ` set table. row_labelled stamp r"
  shows "(\<forall>e\<in>snd ` set (sg_entries m'). entry_labelled stamp e) \<and> (\<forall>r\<in>snd ` set table'. row_labelled stamp r)"
proof -
  let ?k = "normalizeSummaryCacheKey key"
  let ?e = "\<lparr>ce_data = None, ce_cachedAt = sc_computedAt sc, ce_durationMs = sc_durationMs sc,
      ce_err = summaryCacheErrorCode cancelled, ce_revision = revision\<rparr>"
  consider "m' = m" "table' = table"
    | entry where "m' = m\<lparr>sg_entries := AList.update ?k entry (sg_entries m)\<rparr>" "table' = table" "ce_data entry = None"
    | previous code where "map_of (sg_entries m) ?k = Some previous"
        "m' = m\<lparr>sg_entries := AList.update ?k (previous\<lparr>ce_err := code\<rparr>) (sg_entries m)\<rparr>"
        "table' = saveSummaryCacheEntry (sc_save sc) ?k (previous\<lparr>ce_err := code\<rparr>) table"
  proof (cases "cf_SummaryPrecomputeMode cfg \<noteq> ''legacy'' \<and> cacheRevisionMatches (sc_now sc) ?k revision m")
    case True
    then show ?thesis using that(1) assms(1,2) by (simp add: refresh_key_def Let_def)
  next
    case False
    show ?thesis
    proof (cases "map_of (sg_entries m) ?k")
      case None
      show ?thesis using assms(1,2) None False by (intro that(2) [of ?e]) (auto simp: refresh_key_def Let_def)
    next
      case (Some previous)
      show ?thesis
      proof (cases "ce_data previous = None")
        case True
        show ?thesis using assms(1,2) Some True False by (intro that(2) [of ?e]) (auto simp: refresh_key_def Let_def)
      next
        case data: False
        show ?thesis using assms(1,2) Some data False by (intro that(3) [OF Some, of "summaryCacheErrorCode cancelled"]) (auto simp: refresh_key_def Let_def)
      qed
    qed
  qed
  then show ?thesis
  proof cases
    case 2
    then have "entry_labelled stamp entry" by (simp add: entry_labelled_def)
    from updated_all [of "entry_labelled stamp", OF this assms(3)] show ?thesis using 2 assms(4) by simp
  next
    case 3
    then have l: "entry_labelled stamp (previous\<lparr>ce_err := code\<rparr>)"
      using stored_entry_labelled [OF assms(3) 3(1)] by (simp add: entry_labelled_def)
    from updated_all [of "entry_labelled stamp", OF this assms(3)] saved_labelled [OF l assms(4)] show ?thesis using 3(2,3) by simp
  qed (use assms(3,4) in simp)
qed

lemma updated_phase: "\<forall>p\<in>set ps. P p \<Longrightarrow> P x \<Longrightarrow> \<forall>p\<in>set (ps[i := x]). P p"
  using set_update_subset_insert [of ps i x] by blast

lemma phase_later: "phase_labelled stamp n p \<Longrightarrow> n \<le> n' \<Longrightarrow> phase_labelled stamp n' p"
  by (cases p) auto

lemma all_labelledD:
  assumes "all_labelled stamp s"
  shows "\<forall>entry\<in>snd ` set (sg_entries (sy_manager s)). entry_labelled stamp entry"
    "\<forall>row\<in>snd ` set (sy_table s). row_labelled stamp row"
    "\<forall>p\<in>set (sy_requests s). phase_labelled stamp (sy_version s) p"
    "\<forall>(v, d, info)\<in>set (sy_served s). \<not> pi_Stale info \<longrightarrow> (\<exists>v'\<le>d. stamp v = stamp v')"
  using assms unfolding all_labelled_def by blast+

lemma phase_of: "all_labelled stamp s \<Longrightarrow> i < length (sy_requests s) \<Longrightarrow> phase_labelled stamp (sy_version s) (sy_requests s ! i)"
  using all_labelledD(3) nth_mem by blast

lemma requests_changed:
  assumes "all_labelled stamp s" "phase_labelled stamp (sy_version s) x"
  shows "all_labelled stamp (s\<lparr>sy_requests := (sy_requests s)[i := x]\<rparr>)"
  using assms updated_phase [OF all_labelledD(3) [OF assms(1)] assms(2)] by (simp add: all_labelled_def)

lemma answered_labelled:
  assumes "all_labelled stamp s" "\<not> pi_Stale info \<longrightarrow> (\<exists>v'\<le>d. stamp v = stamp v')"
  shows "all_labelled stamp (answer_with i v d info s)"
  using assms updated_phase [OF all_labelledD(3) [OF assms(1)], of Answered] by (simp add: all_labelled_def answer_with_def)

lemma finished_labelled:
  assumes "all_labelled stamp s" "v \<le> d"
  shows "all_labelled stamp (finish_request stamp err duration key v d s)"
proof -
  have l: "entry_labelled stamp \<lparr>ce_data = Some d, ce_cachedAt = sy_now s, ce_durationMs = duration, ce_err = [], ce_revision = stamp v\<rparr>"
    using assms(2) by (auto simp: entry_labelled_def)
  show ?thesis
    using assms(1) remembered_labelled [OF l all_labelledD(1) [OF assms(1)]] saved_labelled [OF l all_labelledD(2) [OF assms(1)]]
    by (simp add: all_labelled_def finish_request_def remember_def)
qed

lemma entries_served:
  assumes "all_labelled stamp s" "map_of (sg_entries (sy_manager s)) key' = Some entry" "ce_data entry = Some d" "ce_revision entry = stamp v"
  shows "\<exists>v'\<le>d. stamp v = stamp v'"
  using stored_entry_labelled [OF all_labelledD(1) [OF assms(1)] assms(2)] assms(3,4) by (auto simp: entry_labelled_def)

lemma hit_labelled:
  assumes "all_labelled stamp s" "cachedEntry now key cfg (stamp v) (sy_manager s) = Some (Some d, info)
      \<or> cachedAnyEntry now key cfg (stamp v) (sy_manager s) = Some (Some d, info)"
  shows "all_labelled stamp (answer_with i v d info s)"
proof (rule answered_labelled [OF assms(1)], rule impI)
  assume "\<not> pi_Stale info"
  from served_entry [OF assms(2) this] obtain key' entry where
    "map_of (sg_entries (sy_manager s)) key' = Some entry" "ce_data entry = Some d" "ce_revision entry = stamp v" by blast
  then show "\<exists>v'\<le>d. stamp v = stamp v'" by (rule entries_served [OF assms(1)])
qed

lemma labels_step:
  assumes "summary_step stamp cfg False s s'" "all_labelled stamp s"
  shows "all_labelled stamp s'"
  using assms(1)
proof cases
  case written
  then show ?thesis using assms(2) phase_later [of stamp "sy_version s" _ "Suc (sy_version s)"] by (auto simp: all_labelled_def)
next
  case (looked i key)
  then show ?thesis using requests_changed [OF assms(2)] by simp
next
  case (hit i key v d info)
  show ?thesis unfolding hit(1) by (rule hit_labelled [OF assms(2) disjI1 [OF hit(4)]])
next
  case (loaded i key v err entry)
  then show ?thesis
    using requests_changed [OF assms(2), of "Loaded key v entry"] phase_of [OF assms(2), of i] loaded_labelled [OF all_labelledD(2) [OF assms(2)]] by simp
next
  case (loaded_hit i key v entry d info)
  then have l: "entry_labelled stamp entry" using phase_of [OF assms(2), of i] by simp
  then have "all_labelled stamp (s\<lparr>sy_manager := rememberMemory key entry (sy_manager s)\<rparr>)"
    using assms(2) remembered_labelled [OF l all_labelledD(1) [OF assms(2)]] by (simp add: all_labelled_def)
  moreover have "\<not> pi_Stale info \<longrightarrow> (\<exists>v'\<le>d. stamp v = stamp v')"
    using unmarked_clone [OF loaded_hit(4)] l by (auto simp: entry_labelled_def)
  ultimately show ?thesis unfolding loaded_hit(1) by (rule answered_labelled)
next
  case (any_hit i key v d info)
  show ?thesis unfolding any_hit(1) by (rule hit_labelled [OF assms(2) disjI2 [OF any_hit(4)]])
next
  case (computed i key v)
  then show ?thesis using requests_changed [OF assms(2)] phase_of [OF assms(2), of i] by simp
next
  case (finished i key v d answers duration reason err)
  then have le: "v \<le> d" using phase_of [OF assms(2), of i] by simp
  note labelled = finished_labelled [OF assms(2) le, of err duration key]
  have "sy_requests (finish_request stamp err duration key v d s) = sy_requests s"
    by (simp add: finish_request_def remember_def)
  then have "all_labelled stamp ((finish_request stamp err duration key v d s)\<lparr>sy_requests := (sy_requests s)[i := Answered]\<rparr>)"
    using requests_changed [OF labelled, of Answered i] by simp
  moreover have "all_labelled stamp (answer_with i v d (computed_info key duration reason (stamp v)) (finish_request stamp err duration key v d s))"
    using answered_labelled [OF labelled] le by blast
  ultimately show ?thesis unfolding finished(1) by simp
next
  case (refresh_looked i key)
  then show ?thesis using requests_changed [OF assms(2)] by simp
next
  case (refresh_computed i key v)
  then show ?thesis using requests_changed [OF assms(2)] phase_of [OF assms(2), of i] by simp
next
  case (refresh_failed i key v sc cancelled bad m table)
  note f = refresh_failure_labelled [OF refresh_failed(5,4) all_labelledD(1,2) [OF assms(2)]]
  have "all_labelled stamp (s\<lparr>sy_manager := m, sy_table := table\<rparr>)" using assms(2) f by (simp add: all_labelled_def)
  from requests_changed [OF this, of Answered i] show ?thesis using refresh_failed(1) by simp
next
  case (sync_computed i key)
  then show ?thesis using phase_of [OF assms(2), of i] by simp
next
  case (sync_looked i key d)
  then show ?thesis using phase_of [OF assms(2), of i] by simp
next
  case (given_up i)
  then show ?thesis using requests_changed [OF assms(2)] by simp
qed (use assms(2) in \<open>auto simp: all_labelled_def\<close>)

lemma labels_reachable:
  assumes "(summary_step stamp cfg False)\<^sup>*\<^sup>* s s'" "all_labelled stamp s"
  shows "all_labelled stamp s'"
  using assms by (induction rule: rtranclp_induct) (auto intro: labels_step)

lemma start_labelled: "all_labelled stamp (summary_start cfg)"
  by (simp add: all_labelled_def summary_start_def)

section \<open>A request that reads the revision last\<close>

text \<open>
  \<open>summarySync\<close> computes the summary and then reads the revision. A write in between gives the entry the revision of a store that
  its data does not have, and the next request is served the old data as current.
\<close>

abbreviation example_key :: summary_key where "example_key \<equiv> normalizeSummaryCacheKey (''24h'', 50)"

definition summary_at :: "pluginConfig \<Rightarrow> nat \<Rightarrow> request_phase list \<Rightarrow> summary_system" where
  "summary_at cfg n ps = (summary_start cfg)\<lparr>sy_version := n, sy_requests := ps\<rparr>"

lemma summary_at_fields [simp]:
  "sy_version (summary_at cfg n ps) = n" "sy_requests (summary_at cfg n ps) = ps" "sy_now (summary_at cfg n ps) = 0"
  "sg_entries (sy_manager (summary_at cfg n ps)) = []" "sy_served (summary_at cfg n ps) = []"
  "(summary_at cfg n ps)\<lparr>sy_requests := ps'\<rparr> = summary_at cfg n ps'" "(summary_at cfg n ps)\<lparr>sy_version := n'\<rparr> = summary_at cfg n' ps"
  by (simp_all add: summary_at_def summary_start_def)

lemma summary_at_start: "summary_at cfg 0 [] = summary_start cfg"
  by (simp add: summary_at_def summary_start_def)

lemma sync_summary_behind:
  "\<exists>s info. (summary_step stamp cfg True)\<^sup>*\<^sup>* (summary_start cfg) s \<and> (1, 0, info) \<in> set (sy_served s) \<and> pi_Hit info \<and> \<not> pi_Stale info"
proof -
  let ?R = "summary_step stamp cfg True"
  let ?k = example_key
  let ?f = "finish_request stamp None 0 ?k 1 0 (summary_at cfg 1 [Computed ?k 1 0 True])"
  let ?s = "answer_with 0 1 0 (computed_info ?k 0 ''sync_refresh'' (stamp 1)) ?f"
  let ?t = "?s\<lparr>sy_requests := [Answered, Looked ?k 1]\<rparr>"
  let ?info = "snd (cloneCachedSummary \<lparr>ce_data = Some (0 :: nat), ce_cachedAt = 0, ce_durationMs = 0, ce_err = [], ce_revision = stamp 1\<rparr> ?k cfg 0)"
  have "?R (summary_at cfg 0 []) (summary_at cfg 0 [SyncAsked ?k])"
    using summary_step.sync_asked [of True stamp cfg "summary_at cfg 0 []" "(''24h'', 50)"] by simp
  moreover have "?R (summary_at cfg 0 [SyncAsked ?k]) (summary_at cfg 0 [SyncComputed ?k 0])"
    using summary_step.sync_computed [of 0 "summary_at cfg 0 [SyncAsked ?k]" ?k] by simp
  moreover have "?R (summary_at cfg 0 [SyncComputed ?k 0]) (summary_at cfg 1 [SyncComputed ?k 0])"
    using summary_step.written [of stamp cfg True "summary_at cfg 0 [SyncComputed ?k 0]"] by simp
  moreover have "?R (summary_at cfg 1 [SyncComputed ?k 0]) (summary_at cfg 1 [Computed ?k 1 0 True])"
    using summary_step.sync_looked [of 0 "summary_at cfg 1 [SyncComputed ?k 0]" ?k 0] by simp
  moreover have "?R (summary_at cfg 1 [Computed ?k 1 0 True]) ?s"
    using summary_step.finished [of 0 "summary_at cfg 1 [Computed ?k 1 0 True]" ?k 1 0 True stamp cfg True 0 "''sync_refresh''" None] by simp
  moreover have s: "sy_requests ?s = [Answered]" "sy_version ?s = 1" "sy_now ?s = 0"
    "sg_entries (sy_manager ?s) = [(?k, \<lparr>ce_data = Some 0, ce_cachedAt = 0, ce_durationMs = 0, ce_err = [], ce_revision = stamp 1\<rparr>)]"
    by (simp_all add: answer_with_def finish_request_def remember_def rememberMemory_def)
  moreover have "?R ?s (?s\<lparr>sy_requests := [Answered, Asked ?k]\<rparr>)"
    using summary_step.asked [of stamp cfg True ?s "(''24h'', 50)"] unfolding s(1) by simp
  moreover have "?R (?s\<lparr>sy_requests := [Answered, Asked ?k]\<rparr>) ?t"
    using summary_step.looked [of 1 "?s\<lparr>sy_requests := [Answered, Asked ?k]\<rparr>" ?k stamp cfg True] s(2) by simp
  moreover have "?R ?t (answer_with 1 1 0 ?info ?t)"
  proof (rule summary_step.hit [of 1 ?t ?k])
    show "cachedEntry (sy_now ?t) ?k cfg (stamp 1) (sy_manager ?t) = Some (Some 0, ?info)"
      using s(3,4) by (simp add: cachedEntry_def cloneCachedSummary_def cloneCachedSummaryForRevision_def Let_def)
  qed simp_all
  ultimately have "?R\<^sup>*\<^sup>* (summary_at cfg 0 []) (answer_with 1 1 0 ?info ?t)"
    by (meson r_into_rtranclp rtranclp_trans)
  moreover have "(1, 0, ?info) \<in> set (sy_served (answer_with 1 1 0 ?info ?t))" by (simp add: answer_with_def)
  moreover have "pi_Hit ?info \<and> \<not> pi_Stale ?info"
    by (simp add: cloneCachedSummary_def cloneCachedSummaryForRevision_def Let_def summaryCacheTTL_def second_ns_def)
  ultimately show ?thesis unfolding summary_at_start by blast
qed

section \<open>Properties\<close>



end
