(* ===== verification/Auth_Import.thy ===== *)
theory Auth_Import
  imports Auth_State "HOL-Library.Sublist"
begin

text \<open>
  The import of accounts from pasted text (\<open>auth_import.go\<close>): the JSON documents in a text, the records in them, what a record
  becomes, and the files that the host is asked to save. The lemmas: documents between other text are found exactly; a file that the host has is
  not overwritten without being asked for; and file names are harmless.
\<close>

section \<open>JSON\<close>

text \<open>
  A decoded \<open>any\<close>. A number keeps the text that \<open>%.0f\<close> prints for it. The members of an object have distinct keys. The
  decoders, the clock in nanoseconds, and the parsing and formatting of RFC 3339 times are arguments.
\<close>

datatype json =
    JNull
  | JBool bool
  | JNumber string
  | JString string
  | JArray "json list"
  | JObject "(string \<times> json) list"

type_synonym import_object = "(string \<times> json) list"

record import_env =
  im_unmarshal :: "string \<Rightarrow> json option"
  im_base64 :: "string \<Rightarrow> string option"
  im_encode :: "json \<Rightarrow> string"
  im_digest :: "string \<Rightarrow> string"
  im_now_ns :: int
  im_parse :: "string \<Rightarrow> int option"
  im_format :: "int \<Rightarrow> string"

fun import_path :: "json \<Rightarrow> string list \<Rightarrow> json option" where
  "import_path v [] = Some v"
| "import_path (JObject members) (part # parts) =
     (case map_of members part of Some v \<Rightarrow> import_path v parts | None \<Rightarrow> None)"
| "import_path _ (part # parts) = None"

definition importPath :: "import_object \<Rightarrow> string \<Rightarrow> json option" where
  "importPath members path = import_path (JObject members) (Split path (CHR ''.''))"

fun importString :: "import_object \<Rightarrow> string list \<Rightarrow> string" where
  "importString members [] = []"
| "importString members (path # paths) =
     (case importPath members path of
        Some (JString s) \<Rightarrow> if TrimSpace s \<noteq> [] then TrimSpace s else importString members paths
      | _ \<Rightarrow> importString members paths)"

fun importNumberString :: "import_object \<Rightarrow> string list \<Rightarrow> string" where
  "importNumberString members [] = []"
| "importNumberString members (path # paths) =
     (case importPath members path of Some (JNumber n) \<Rightarrow> n | _ \<Rightarrow> importNumberString members paths)"

declare importString.simps [simp del] importNumberString.simps [simp del]

definition importBool :: "import_object \<Rightarrow> string \<Rightarrow> bool" where
  "importBool members path = (case importPath members path of Some (JBool b) \<Rightarrow> b | _ \<Rightarrow> False)"

definition importTimestamp :: "import_env \<Rightarrow> string \<Rightarrow> string" where
  "importTimestamp im s =
     (let v = TrimSpace s;
          formatted = (case im_parse im v of Some t \<Rightarrow> im_format im t | None \<Rightarrow> [])
      in if v = [] then []
         else case Atoi v of
                Some n \<Rightarrow> if 0 < normalizeUnixSeconds n then im_format im (normalizeUnixSeconds n) else formatted
              | None \<Rightarrow> formatted)"

definition setImportString :: "import_object \<Rightarrow> string \<Rightarrow> string \<Rightarrow> import_object" where
  "setImportString target key s = (if TrimSpace s \<noteq> [] then AList.update key (JString (TrimSpace s)) target else target)"

definition appendUnique :: "'w list \<Rightarrow> 'w \<Rightarrow> 'w list" where
  "appendUnique ws w = (if w \<in> set ws then ws else ws @ [w])"

section \<open>Documents in a text\<close>

text \<open>
  The scanner of \<open>extractAuthImportJSONFragments\<close>. Inside a fragment it keeps what it read, in reverse, the open brackets, and whether it is in a string.
\<close>

datatype scan_mode = Plain | InString | Escaped

datatype scan_state = Outside | Inside string "char list" scan_mode

definition open_bracket :: "char set" where "open_bracket = {CHR 0x7B, CHR 0x5B}"
definition close_bracket :: "char set" where "close_bracket = {CHR 0x7D, CHR 0x5D}"

definition closer :: "char \<Rightarrow> char" where
  "closer c = (if c = CHR 0x7B then CHR 0x7D else CHR 0x5D)"

fun scan_step :: "scan_state \<Rightarrow> char \<Rightarrow> scan_state \<times> string list" where
  "scan_step Outside c = (if c \<in> open_bracket then Inside [c] [c] Plain else Outside, [])"
| "scan_step (Inside seen stack Escaped) c = (Inside (c # seen) stack InString, [])"
| "scan_step (Inside seen stack InString) c =
     (Inside (c # seen) stack (if c = CHR 0x5C then Escaped else if c = CHR 0x22 then Plain else InString), [])"
| "scan_step (Inside seen stack Plain) c =
     (if c = CHR 0x22 then (Inside (c # seen) stack InString, [])
      else if c \<in> open_bracket then (Inside (c # seen) (c # stack) Plain, [])
      else if c \<in> close_bracket
      then (case stack of
              [] \<Rightarrow> (Outside, [])
            | bracket # rest \<Rightarrow>
                if c \<noteq> closer bracket then (Outside, [])
                else if rest = [] then (Outside, [rev (c # seen)])
                else (Inside (c # seen) rest Plain, []))
      else (Inside (c # seen) stack Plain, []))"

fun scan_text :: "scan_state \<Rightarrow> string \<Rightarrow> string list" where
  "scan_text st [] = []"
| "scan_text st (c # s) = (let (st', found) = scan_step st c in found @ scan_text st' s)"

definition extractAuthImportJSONFragments :: "string \<Rightarrow> string list" where
  "extractAuthImportJSONFragments text = scan_text Outside text"

datatype import_error =
    BadFragment nat
  | BadLine nat
  | NoDocument
  | NoAccessToken nat
  | NoIdentity nat
  | DuplicateFile nat string
  | EncodeFailed string
  | SaveFailed string

text \<open>The lines of a text without fragments: the first bracket starts the document.\<close>

definition line_document :: "string \<Rightarrow> string option" where
  "line_document line =
     (let v = TrimSpace (if HasSuffix line [CHR 0x0D] then butlast line else line); document = dropWhile (\<lambda>c. c \<notin> open_bracket) v
      in if document = [] then None else Some document)"

definition decodeAuthImportDocuments :: "import_env \<Rightarrow> string \<Rightarrow> json list \<times> import_error list" where
  "decodeAuthImportDocuments im text =
     (case im_unmarshal im text of
        Some v \<Rightarrow> ([v], [])
      | None \<Rightarrow>
          let fragments = extractAuthImportJSONFragments text;
              documents = List.map_filter (im_unmarshal im) fragments;
              errors = map (\<lambda>(i, _). BadFragment (i + 1)) (filter (\<lambda>(_, f). im_unmarshal im f = None) (enumerate 0 fragments));
              lines = List.map_filter (\<lambda>(i, line). map_option (Pair i) (line_document line)) (enumerate 0 (Split text (CHR 0x0A)));
              line_documents = List.map_filter (\<lambda>(_, d). im_unmarshal im d) lines;
              line_errors = map (\<lambda>(i, _). BadLine (i + 1)) (filter (\<lambda>(_, d). im_unmarshal im d = None) lines)
          in if documents \<noteq> [] then (documents, errors)
             else (line_documents, errors @ line_errors @ (if line_documents = [] then [NoDocument] else [])))"

section \<open>Records\<close>

definition access_token_paths :: "string list" where
  "access_token_paths = [''accessToken'', ''access_token'', ''tokens.accessToken'', ''tokens.access_token'', ''token.accessToken'',
     ''token.access_token'', ''credentials.accessToken'', ''credentials.access_token'']"

definition id_token_paths :: "string list" where
  "id_token_paths = [''idToken'', ''id_token'', ''tokens.idToken'', ''tokens.id_token'', ''token.idToken'', ''token.id_token'',
     ''credentials.id_token'']"

lemma member_size: "(key, v) \<in> set members \<Longrightarrow> size v < Suc (size_list (size_prod (\<lambda>_. 0) size) members)"
  by (induction members) (auto simp: less_Suc_eq)

lemma item_size: "v \<in> set vs \<Longrightarrow> size v < Suc (size_list size vs)"
  by (induction vs) (auto simp: less_Suc_eq)

function collectImportRecords :: "json \<Rightarrow> import_object list" where
  "collectImportRecords (JObject members) =
     (if importString members access_token_paths \<noteq> [] then [members]
      else concat (map (\<lambda>(_, v). collectImportRecords v) (sort_key fst members)))"
| "collectImportRecords (JArray vs) = concat (map collectImportRecords vs)"
| "collectImportRecords JNull = []"
| "collectImportRecords (JBool b) = []"
| "collectImportRecords (JNumber n) = []"
| "collectImportRecords (JString s) = []"
  by pat_completeness auto

termination
  by (relation "measure size") (auto dest: member_size item_size)

definition parseImportJWTPayload :: "import_env \<Rightarrow> string \<Rightarrow> import_object" where
  "parseImportJWTPayload im token =
     (case Split (TrimSpace token) (CHR ''.'') of
        _ # part # _ \<Rightarrow>
          (case im_base64 im part of
             Some raw \<Rightarrow> (case im_unmarshal im raw of Some (JObject members) \<Rightarrow> members | _ \<Rightarrow> [])
           | None \<Rightarrow> [])
      | _ \<Rightarrow> [])"

definition import_now :: "import_env \<Rightarrow> int" where
  "import_now im = im_now_ns im div 10 ^ 9"

definition buildSyntheticImportIDToken :: "import_env \<Rightarrow> string \<Rightarrow> string \<Rightarrow> string \<Rightarrow> string \<Rightarrow> string \<Rightarrow> string" where
  "buildSyntheticImportIDToken im email accountID planType userID expiresAt =
     (let expires = (case im_parse im expiresAt of Some t \<Rightarrow> t | None \<Rightarrow> import_now im + 90 * 24 * 3600);
          auth = setImportString (setImportString [(''chatgpt_account_id'', JString accountID)] ''chatgpt_plan_type'' planType)
                   ''chatgpt_user_id'' userID;
          payload = setImportString [(''iat'', JNumber (Itoa (import_now im))), (''exp'', JNumber (Itoa expires)),
                      (''https://api.openai.com/auth'', JObject auth)] ''email'' email;
          header = [(''alg'', JString ''none''), (''typ'', JString ''JWT''), (''cpa_synthetic'', JBool True)]
      in im_encode im (JObject header) @ ''.'' @ im_encode im (JObject payload) @ ''.synthetic'')"

definition detectImportFormat :: "import_object \<Rightarrow> string" where
  "detectImportFormat r =
     (if importString r [''platform''] = ''openai'' \<and> importString r [''credentials.access_token''] \<noteq> [] then ''sub2api/account-product''
      else if importString r [''provider''] = ''codex'' \<and> importString r [''authType''] = ''oauth'' then ''9router''
      else if importString r [''auth_mode''] = ''chatgpt'' \<and> importString r [''tokens.access_token''] \<noteq> [] then ''codex/axonhub''
      else if importString r [''meta.label''] \<noteq> [] \<and> importString r [''tokens.access_token''] \<noteq> [] then ''codex-manager''
      else if importString r [''accessToken''] \<noteq> [] \<and> importString r [''user.email'', ''account.id''] \<noteq> [] then ''chatgpt-session''
      else ''generic-codex'')"

definition allowed_in_file :: "char \<Rightarrow> bool" where
  "allowed_in_file c \<longleftrightarrow> char_between 97 122 c \<or> is_digit c \<or> c \<in> {CHR ''@'', CHR ''.'', CHR ''_'', CHR ''-''}"

definition sanitize_step :: "string \<times> bool \<Rightarrow> char \<Rightarrow> string \<times> bool" where
  "sanitize_step = (\<lambda>(out, lastDash) c.
     if allowed_in_file c then (out @ [c], c = CHR ''-'') else if \<not> lastDash then (out @ ''-'', True) else (out, lastDash))"

definition sanitizeImportFilePart :: "string \<Rightarrow> string" where
  "sanitizeImportFilePart s = TrimSet (fst (foldl sanitize_step ([], False) (ToLower (TrimSpace s)))) ''-.''"

definition importCredentialFileName :: "import_env \<Rightarrow> string \<Rightarrow> string \<Rightarrow> string \<Rightarrow> nat \<Rightarrow> string" where
  "importCredentialFileName im email planType accountID index =
     (let mail = sanitizeImportFilePart (firstNonEmptyString [email, ''account-'' @ Itoa (int index)]); plan = sanitizeImportFilePart planType
      in if plan \<in> {''team'', ''k12''} \<and> accountID \<noteq> []
         then ''codex-'' @ take 8 (im_digest im accountID) @ ''-'' @ mail @ ''-'' @ plan @ ''.json''
         else if plan \<noteq> [] then ''codex-'' @ mail @ ''-'' @ plan @ ''.json''
         else ''codex-'' @ mail @ ''.json'')"

datatype import_warning = NoRefreshToken | NoAccountID | TokenExpired | FileExists

record authImportItem =
  ai_Index :: nat
  ai_SourceFormat :: string
  ai_FileName :: string
  ai_Email :: string
  ai_PlanType :: string
  ai_ExpiresAt :: string
  ai_HasRefreshToken :: bool
  ai_Existing :: bool
  ai_Warnings :: "import_warning list"
  ai_AuthJSON :: import_object

definition record_email :: "import_object \<Rightarrow> import_object \<Rightarrow> import_object \<Rightarrow> string" where
  "record_email r access ids = firstNonEmptyString
     [importString r [''user.email'', ''email'', ''credentials.email'', ''providerSpecificData.email'', ''meta.label'', ''label''],
      importString access [''https://api.openai.com/profile.email'', ''email''], importString ids [''email'']]"

definition record_account :: "import_object \<Rightarrow> import_object \<Rightarrow> import_object \<Rightarrow> string" where
  "record_account r access ids = firstNonEmptyString
     [importString r [''account.id'', ''account_id'', ''tokens.accountId'', ''tokens.account_id'', ''chatgptAccountId'', ''chatgpt_account_id'',
        ''meta.chatgptAccountId'', ''meta.chatgpt_account_id'', ''tokens.chatgptAccountId'', ''tokens.chatgpt_account_id'',
        ''providerSpecificData.chatgptAccountId'', ''providerSpecificData.chatgpt_account_id'', ''credentials.chatgpt_account_id''],
      importString access [''https://api.openai.com/auth.chatgpt_account_id''],
      importString ids [''https://api.openai.com/auth.chatgpt_account_id'']]"

definition record_user :: "import_object \<Rightarrow> import_object \<Rightarrow> import_object \<Rightarrow> string" where
  "record_user r access ids =
     (let claims = [''https://api.openai.com/auth.chatgpt_user_id'', ''https://api.openai.com/auth.user_id'', ''sub'']
      in firstNonEmptyString
           [importString r [''user.id'', ''user_id'', ''chatgptUserId'', ''credentials.chatgpt_user_id'', ''providerSpecificData.chatgptUserId'',
              ''providerSpecificData.chatgpt_user_id''],
            importString access claims, importString ids claims])"

definition record_plan :: "import_object \<Rightarrow> import_object \<Rightarrow> import_object \<Rightarrow> string" where
  "record_plan r access ids = ToLower (firstNonEmptyString
     [importString r [''account.planType'', ''account.plan_type'', ''planType'', ''plan_type'', ''credentials.plan_type'',
        ''providerSpecificData.chatgptPlanType'', ''providerSpecificData.chatgpt_plan_type''],
      importString access [''https://api.openai.com/auth.chatgpt_plan_type''],
      importString ids [''https://api.openai.com/auth.chatgpt_plan_type'']])"

text \<open>The file of a record: its texts, whether the identity token was made up, when it expires and whether it is disabled.\<close>

definition record_auth_json :: "import_object \<Rightarrow> string \<Rightarrow> string \<Rightarrow> string list \<Rightarrow> string \<Rightarrow> string \<Rightarrow> string \<Rightarrow> import_object" where
  "record_auth_json r accessToken lastRefresh texts given idToken expiresAt =
     (let auth0 = [(''type'', JString ''codex''), (''access_token'', JString accessToken), (''last_refresh'', JString lastRefresh)];
          auth1 = foldl (\<lambda>target (key, v). setImportString target key v) auth0
            (zip [''email'', ''account_id'', ''plan_type'', ''refresh_token'', ''session_token'', ''id_token''] (texts @ [idToken]));
          auth2 = (if idToken \<noteq> [] \<and> given = [] then AList.update ''id_token_synthetic'' (JBool True) auth1 else auth1);
          auth3 = (if expiresAt \<noteq> [] \<and> texts ! 3 = [] then AList.update ''expired'' (JString expiresAt) auth2 else auth2)
      in if importBool r ''disabled'' then AList.update ''disabled'' (JBool True) auth3 else auth3)"

definition convertImportRecord :: "import_env \<Rightarrow> import_object \<Rightarrow> nat \<Rightarrow> (import_error, authImportItem) result" where
  "convertImportRecord im r index =
     (let accessToken = importString r access_token_paths
      in if accessToken = [] then Inl (NoAccessToken index)
      else let
        access = parseImportJWTPayload im accessToken;
        given = importString r id_token_paths;
        ids = parseImportJWTPayload im given;
        refreshToken = importString r [''refreshToken'', ''refresh_token'', ''tokens.refreshToken'', ''tokens.refresh_token'', ''token.refreshToken'',
          ''token.refresh_token'', ''credentials.refresh_token''];
        sessionToken = importString r [''sessionToken'', ''session_token'', ''tokens.sessionToken'', ''tokens.session_token'', ''token.sessionToken'',
          ''token.session_token'', ''credentials.session_token''];
        email = record_email r access ids; accountID = record_account r access ids; planType = record_plan r access ids;
        expiresAt = importTimestamp im (firstNonEmptyString
          [importString r [''expires'', ''expiresAt'', ''expired'', ''expires_at'', ''credentials.expires_at''], importNumberString access [''exp'']]);
        refreshed = importTimestamp im (firstNonEmptyString
          [importString r [''last_refresh'', ''lastRefresh'', ''extra.last_refresh'', ''updatedAt''], importNumberString access [''iat'']]);
        lastRefresh = (if refreshed = [] then im_format im (import_now im) else refreshed);
        idToken = (if given = [] \<and> accountID \<noteq> []
          then buildSyntheticImportIDToken im email accountID planType (record_user r access ids) expiresAt else given);
        auth = record_auth_json r accessToken lastRefresh [email, accountID, planType, refreshToken, sessionToken] given idToken expiresAt;
        expired = (case im_parse im expiresAt of Some t \<Rightarrow> expiresAt \<noteq> [] \<and> t * 10 ^ 9 \<le> im_now_ns im | None \<Rightarrow> False)
      in if email = [] \<and> accountID = [] then Inl (NoIdentity index)
         else Inr \<lparr>ai_Index = index, ai_SourceFormat = detectImportFormat r, ai_FileName = importCredentialFileName im email planType accountID index,
           ai_Email = email, ai_PlanType = planType, ai_ExpiresAt = expiresAt, ai_HasRefreshToken = (refreshToken \<noteq> []), ai_Existing = False,
           ai_Warnings = (if refreshToken = [] then [NoRefreshToken] else []) @ (if accountID = [] then [NoAccountID] else [])
             @ (if expired then [TokenExpired] else []), ai_AuthJSON = auth\<rparr>)"

text \<open>The records in order, with the lower-case file names seen so far.\<close>

fun convert_records :: "import_env \<Rightarrow> string list \<Rightarrow> (nat \<times> import_object) list \<Rightarrow> authImportItem list \<times> import_error list" where
  "convert_records im seen [] = ([], [])"
| "convert_records im seen ((i, r) # rest) =
     (case convertImportRecord im r (i + 1) of
        Inl e \<Rightarrow> let (items, errors) = convert_records im seen rest in (items, e # errors)
      | Inr item \<Rightarrow>
          if ToLower (ai_FileName item) \<in> set seen
          then let (items, errors) = convert_records im seen rest in (items, DuplicateFile (i + 1) (ai_FileName item) # errors)
          else let (items, errors) = convert_records im (ToLower (ai_FileName item) # seen) rest in (item # items, errors))"

definition parseAuthImportText :: "import_env \<Rightarrow> string \<Rightarrow> authImportItem list \<times> import_error list" where
  "parseAuthImportText im text =
     (let (documents, decode_errors) = decodeAuthImportDocuments im text;
          (items, errors) = convert_records im [] (enumerate 0 (concat (map collectImportRecords documents)))
      in (items, decode_errors @ errors))"

section \<open>Preview and commit\<close>

text \<open>
  What the host answers to \<open>host.auth.list\<close>: no answer, one that cannot be decoded, or the names and paths of its files. A context may be cancelled at
  any of the points where the code asks for it; saving an item may fail to encode or to be saved.
\<close>

datatype import_failure = HostUnavailable | HostInvalid | Cancelled

datatype host_answer = NoAnswer | Undecodable | Files "(string \<times> string) list"

record import_calls =
  ic_cancelled :: "nat \<Rightarrow> bool"
  ic_list :: host_answer
  ic_encodes :: "authImportItem \<Rightarrow> bool"
  ic_saves :: "authImportItem \<Rightarrow> bool"
  ic_before :: "authImportItem \<Rightarrow> bool"
  ic_after :: "authImportItem \<Rightarrow> bool"

definition host_names :: "(string \<times> string) list \<Rightarrow> string list" where
  "host_names files = filter (\<lambda>name. HasSuffix name ''.json'') (map (\<lambda>(name, path). ToLower (filepath_Base (firstNonEmptyString [name, path]))) files)"

definition existingHostAuthFileNames :: "import_calls \<Rightarrow> nat \<Rightarrow> (import_failure, string list) result" where
  "existingHostAuthFileNames ic point =
     (if ic_cancelled ic point then Inl Cancelled
      else case ic_list ic of
             NoAnswer \<Rightarrow> Inl HostUnavailable
           | Undecodable \<Rightarrow> if ic_cancelled ic (point + 1) then Inl Cancelled else Inl HostInvalid
           | Files files \<Rightarrow> if ic_cancelled ic (point + 1) then Inl Cancelled else Inr (host_names files))"

record authImportResult =
  ix_Detected :: nat
  ix_Imported :: nat
  ix_Skipped :: nat
  ix_Failed :: nat
  ix_Items :: "authImportItem list"
  ix_Errors :: "import_error list"

definition no_result :: authImportResult where
  "no_result = \<lparr>ix_Detected = 0, ix_Imported = 0, ix_Skipped = 0, ix_Failed = 0, ix_Items = [], ix_Errors = []\<rparr>"

definition previewAuthImport :: "import_env \<Rightarrow> import_calls \<Rightarrow> string \<Rightarrow> (import_failure, authImportResult) result" where
  "previewAuthImport im ic text =
     (if ic_cancelled ic 0 then Inl Cancelled
      else let (items, errors) = parseAuthImportText im text
      in if ic_cancelled ic 1 then Inl Cancelled
         else case existingHostAuthFileNames ic 2 of
                Inl f \<Rightarrow> Inl f
              | Inr existing \<Rightarrow> Inr \<lparr>ix_Detected = length items, ix_Imported = 0, ix_Skipped = length errors, ix_Failed = 0,
                  ix_Items = map (\<lambda>item. item\<lparr>ai_Existing := (ToLower (ai_FileName item) \<in> set existing)\<rparr>) items, ix_Errors = errors\<rparr>)"

text \<open>The state of a commit: the items so far, the counts, and the calls to \<open>host.auth.save\<close> in order.\<close>

record commit_state =
  cm_Existing :: "string list"
  cm_Items :: "authImportItem list"
  cm_Imported :: nat
  cm_Skipped :: nat
  cm_Failed :: nat
  cm_Errors :: "import_error list"
  cm_Saved :: "(string \<times> import_object) list"

text \<open>One item: whether the context was cancelled, and the state.\<close>

definition commit_item :: "import_calls \<Rightarrow> bool \<Rightarrow> authImportItem \<Rightarrow> commit_state \<Rightarrow> bool \<times> commit_state" where
  "commit_item ic overwrite item0 s =
     (let name = ToLower (ai_FileName item0);
          item = item0\<lparr>ai_Existing := (name \<in> set (cm_Existing s))\<rparr>;
          kept = s\<lparr>cm_Items := cm_Items s @ [item]\<rparr>;
          asked = kept\<lparr>cm_Saved := cm_Saved s @ [(ai_FileName item, ai_AuthJSON item)]\<rparr>
      in if ic_before ic item0 then (True, s\<lparr>cm_Items := cm_Items s @ [item0]\<rparr>)
         else if ai_Existing item \<and> \<not> overwrite
         then (False, s\<lparr>cm_Items := cm_Items s @ [item\<lparr>ai_Warnings := appendUnique (ai_Warnings item) FileExists\<rparr>], cm_Skipped := cm_Skipped s + 1\<rparr>)
         else if \<not> ic_encodes ic item0
         then (False, kept\<lparr>cm_Failed := cm_Failed s + 1, cm_Errors := cm_Errors s @ [EncodeFailed (ai_FileName item)]\<rparr>)
         else if \<not> ic_saves ic item0
         then (False, asked\<lparr>cm_Failed := cm_Failed s + 1, cm_Errors := cm_Errors s @ [SaveFailed (ai_FileName item)]\<rparr>)
         else if ic_after ic item0 then (True, asked)
         else (False, asked\<lparr>cm_Imported := cm_Imported s + 1, cm_Existing := name # cm_Existing s\<rparr>))"

fun commit_items :: "import_calls \<Rightarrow> bool \<Rightarrow> authImportItem list \<Rightarrow> commit_state \<Rightarrow> bool \<times> commit_state" where
  "commit_items ic overwrite [] s = (False, s)"
| "commit_items ic overwrite (item # rest) s =
     (case commit_item ic overwrite item s of
        (True, s') \<Rightarrow> (True, s'\<lparr>cm_Items := cm_Items s' @ rest\<rparr>)
      | (False, s') \<Rightarrow> commit_items ic overwrite rest s')"

definition commit_start :: "string list \<Rightarrow> import_error list \<Rightarrow> commit_state" where
  "commit_start existing errors = \<lparr>cm_Existing = existing, cm_Items = [], cm_Imported = 0, cm_Skipped = length errors, cm_Failed = 0,
     cm_Errors = errors, cm_Saved = []\<rparr>"

text \<open>The failure, the result, which may be one of a commit that was cut short, and the calls that were made.\<close>

definition commitAuthImport ::
  "import_env \<Rightarrow> import_calls \<Rightarrow> string \<Rightarrow> bool \<Rightarrow> import_failure option \<times> authImportResult \<times> (string \<times> import_object) list" where
  "commitAuthImport im ic text overwrite =
     (if ic_cancelled ic 0 then (Some Cancelled, no_result, [])
      else let (items, errors) = parseAuthImportText im text
      in if ic_cancelled ic 1 then (Some Cancelled, no_result, [])
         else case existingHostAuthFileNames ic 2 of
                Inl f \<Rightarrow> (Some f, no_result, [])
              | Inr existing \<Rightarrow>
                  let (cancelled, s) = commit_items ic overwrite items (commit_start existing errors)
                  in (if cancelled then Some Cancelled else None,
                      \<lparr>ix_Detected = length items, ix_Imported = cm_Imported s, ix_Skipped = cm_Skipped s, ix_Failed = cm_Failed s,
                       ix_Items = cm_Items s, ix_Errors = cm_Errors s\<rparr>, cm_Saved s))"

section \<open>Claims with a dot in their name\<close>

text \<open>A path is split at every dot, the dots of \<open>https://api.openai.com\<close> included, so the claims of a token that it is meant to name are never read.\<close>

lemma namespaced_claim_unread:
  assumes "map_of claims ''https://api'' = None"
  shows "importPath claims (''https://api.openai.com/'' @ path) = None"
proof -
  have "Split (''https://api.openai.com/'' @ path) (CHR ''.'') = ''https://api'' # Split (''openai.com/'' @ path) (CHR ''.'')"
    using Split_append [of "CHR ''.''" "''https://api''" "''openai.com/'' @ path"] by simp
  with assms show ?thesis by (simp add: importPath_def)
qed

definition example_claims :: import_object where
  "example_claims = [(''https://api.openai.com/auth'', JObject [(''chatgpt_account_id'', JString ''acct-1'')])]"

lemma claimed_account_unread: "record_account [] example_claims example_claims = []"
  by code_simp

section \<open>File names\<close>

lemma dash_allowed: "allowed_in_file (CHR ''-'')"
  by (simp add: allowed_in_file_def)

lemma sanitized_run: "list_all allowed_in_file (fst acc) \<Longrightarrow> list_all allowed_in_file (fst (foldl sanitize_step acc s))"
proof (induction s arbitrary: acc)
  case (Cons c s)
  have "list_all allowed_in_file (fst (sanitize_step acc c))"
    using Cons.prems dash_allowed by (cases acc) (simp add: sanitize_step_def)
  from Cons.IH [OF this] show ?case by simp
qed simp

lemma TrimSet_ends:
  assumes "TrimSet s cs \<noteq> []"
  shows "hd (TrimSet s cs) \<notin> set cs \<and> last (TrimSet s cs) \<notin> set cs"
proof -
  let ?in = "\<lambda>c. c \<in> set cs"
  let ?a = "dropWhile ?in s"
  have t: "TrimSet s cs = rev (dropWhile ?in (rev ?a))" by (simp add: TrimSet_def)
  then have d: "dropWhile ?in (rev ?a) \<noteq> []" using assms by simp
  have l: "last (TrimSet s cs) = hd (dropWhile ?in (rev ?a))" unfolding t using d by (simp add: last_rev)
  obtain k where k: "rev ?a = k @ dropWhile ?in (rev ?a)" by (metis takeWhile_dropWhile_id)
  then have "?a = TrimSet s cs @ rev k" unfolding t by (metis rev_append rev_rev_ident)
  then have "hd ?a = hd (TrimSet s cs)" "?a \<noteq> []" using assms by auto
  then show ?thesis using l d hd_dropWhile [of ?in s] hd_dropWhile [of ?in "rev ?a"] by auto
qed

lemma TrimSet_subset: "set (TrimSet s cs) \<subseteq> set s"
  unfolding TrimSet_def by (metis set_dropWhileD set_rev subsetI)

lemma sanitized_allowed: "list_all allowed_in_file (sanitizeImportFilePart s)"
  using sanitized_run [of "([], False)"] TrimSet_subset by (fastforce simp: sanitizeImportFilePart_def list_all_iff)


definition safe_import_name :: "string \<Rightarrow> bool" where
  "safe_import_name f \<longleftrightarrow> HasPrefix f ''codex-'' \<and> HasSuffix f ''.json'' \<and> list_all allowed_in_file f"

lemma plain_allowed: "list_all allowed_in_file (''codex-'')" "list_all allowed_in_file (''.json'')"
  by code_simp+

lemma import_name_safe:
  assumes "\<forall>s. list_all allowed_in_file (im_digest im s)"
  shows "safe_import_name (importCredentialFileName im email plan account index)"
proof -
  define mail where "mail = sanitizeImportFilePart (firstNonEmptyString [email, ''account-'' @ Itoa (int index)])"
  define suffix where "suffix = sanitizeImportFilePart plan"
  define mid where "mid = (if suffix \<in> {''team'', ''k12''} \<and> account \<noteq> [] then take 8 (im_digest im account) @ ''-'' @ mail @ ''-'' @ suffix
    else if suffix \<noteq> [] then mail @ ''-'' @ suffix else mail)"
  have "list_all allowed_in_file (take 8 (im_digest im account))"
    using assms by (meson list.pred_set in_set_takeD)
  moreover have "list_all allowed_in_file mail" "list_all allowed_in_file suffix" by (simp_all add: mail_def suffix_def sanitized_allowed)
  ultimately have "list_all allowed_in_file mid" using dash_allowed by (simp add: mid_def)
  moreover have "importCredentialFileName im email plan account index = ''codex-'' @ mid @ ''.json''"
    by (simp add: importCredentialFileName_def mid_def mail_def suffix_def del: firstNonEmptyString.simps)
  ultimately show ?thesis
    using plain_allowed list_all_append [of allowed_in_file "''codex-''" "mid @ ''.json''"] list_all_append [of allowed_in_file mid "''.json''"]
    by (simp only: safe_import_name_def) (simp add: HasPrefix_def HasSuffix_def)
qed

lemma lower_allowed: "list_all allowed_in_file f \<Longrightarrow> ToLower f = f"
  unfolding ToLower_def by (intro map_idI) (auto simp: allowed_in_file_def list_all_iff char_between_def is_digit_def lower_char_def)

lemma Let_iff: "Let a f = v \<longleftrightarrow> (\<exists>x. x = a \<and> f x = v)"
  by simp

lemma if_Inl_iff: "(if c then Inl e else t) = Inr v \<longleftrightarrow> \<not> c \<and> t = Inr v"
  by simp

lemma converted_name:
  assumes "convertImportRecord im r i = Inr item"
  shows "\<exists>email plan account. ai_FileName item = importCredentialFileName im email plan account i"
  using assms unfolding convertImportRecord_def
  by (simp only: Let_iff if_Inl_iff sum.inject) (elim exE conjE, drule sym, simp only: authImportItem.select_convs, blast)

definition names_fresh :: "string list \<Rightarrow> authImportItem list \<Rightarrow> bool" where
  "names_fresh seen items \<longleftrightarrow> distinct (map (ToLower \<circ> ai_FileName) items)
     \<and> (\<forall>item\<in>set items. ToLower (ai_FileName item) \<notin> set seen \<and> safe_import_name (ai_FileName item))"

lemma names_fresh_Cons:
  "safe_import_name (ai_FileName item) \<Longrightarrow> ToLower (ai_FileName item) \<notin> set seen \<Longrightarrow> names_fresh (ToLower (ai_FileName item) # seen) items
   \<Longrightarrow> names_fresh seen (item # items)"
  by (auto simp: names_fresh_def)

lemma converted_names:
  assumes "\<forall>s. list_all allowed_in_file (im_digest im s)"
  shows "names_fresh seen (fst (convert_records im seen rs))"
proof (induction rs arbitrary: seen)
  case (Cons p rest)
  obtain i r where p: "p = (i, r)" by fastforce
  show ?case
  proof (cases "convertImportRecord im r (i + 1)")
    case (Inr item)
    have "safe_import_name (ai_FileName item)" using converted_name [OF Inr] import_name_safe [OF assms] by metis
    then show ?thesis using Inr Cons p names_fresh_Cons by (simp add: Let_def split: prod.splits) (metis fst_conv)
  qed (use Cons p in \<open>simp split: prod.splits\<close>, metis fst_conv)
qed (simp add: names_fresh_def)

lemma subseq_keeps: "subseq xs ys \<Longrightarrow> set xs \<subseteq> set ys \<and> (distinct ys \<longrightarrow> distinct xs)"
  by (induction rule: list_emb.induct) auto

definition file_names :: "commit_state \<Rightarrow> string list" where
  "file_names s = map fst (cm_Saved s)"

lemma item_saved:
  assumes "commit_item ic overwrite item s = (b, s')"
  shows "(file_names s' = file_names s \<or> file_names s' = file_names s @ [ai_FileName item]
      \<and> (overwrite \<or> ToLower (ai_FileName item) \<notin> set (cm_Existing s))) \<and> set (cm_Existing s) \<subseteq> set (cm_Existing s')"
  using assms by (auto simp: commit_item_def Let_def file_names_def split: if_splits)

lemma items_saved:
  "commit_items ic overwrite items s = (b, s') \<Longrightarrow>
   \<exists>fs. file_names s' = file_names s @ fs \<and> subseq fs (map ai_FileName items)
      \<and> (overwrite \<or> (\<forall>f\<in>set fs. ToLower f \<notin> set (cm_Existing s)))"
proof (induction ic overwrite items s arbitrary: b s' rule: commit_items.induct)
  case (2 ic overwrite item rest s)
  obtain c s1 where c: "commit_item ic overwrite item s = (c, s1)" by fastforce
  note one = item_saved [OF c]
  show ?case
  proof (cases c)
    case True
    with 2(2) c have "file_names s' = file_names s1" by (auto simp: file_names_def)
    with one show ?thesis by (auto intro: exI [of _ "[]"] exI [of _ "[ai_FileName item]"])
  next
    case False
    with 2(2) c have "commit_items ic overwrite rest s1 = (b, s')" "(False, s1) = commit_item ic overwrite item s" by simp_all
    from 2(1) [OF this(2) refl this(1)] obtain fs where fs: "file_names s' = file_names s1 @ fs" "subseq fs (map ai_FileName rest)"
      "overwrite \<or> (\<forall>f\<in>set fs. ToLower f \<notin> set (cm_Existing s1))" by auto
    from one consider "file_names s1 = file_names s" "set (cm_Existing s) \<subseteq> set (cm_Existing s1)"
      | "file_names s1 = file_names s @ [ai_FileName item]" "set (cm_Existing s) \<subseteq> set (cm_Existing s1)"
        "overwrite \<or> ToLower (ai_FileName item) \<notin> set (cm_Existing s)" by blast
    then show ?thesis
    proof cases
      case 1
      with fs show ?thesis by (intro exI [of _ fs]) auto
    next
      case 2
      with fs show ?thesis by (intro exI [of _ "ai_FileName item # fs"]) auto
    qed
  qed
qed auto

lemma item_tally:
  assumes "commit_item ic overwrite item s = (False, s')"
  shows "cm_Imported s' + cm_Skipped s' + cm_Failed s' = cm_Imported s + cm_Skipped s + cm_Failed s + 1"
  using assms by (auto simp: commit_item_def Let_def split: if_splits)

lemma items_tally:
  "commit_items ic overwrite items s = (False, s') \<Longrightarrow>
   cm_Imported s' + cm_Skipped s' + cm_Failed s' = cm_Imported s + cm_Skipped s + cm_Failed s + length items"
proof (induction items arbitrary: s)
  case (Cons item rest)
  then obtain s1 where "commit_item ic overwrite item s = (False, s1)" "commit_items ic overwrite rest s1 = (False, s')"
    by (auto split: prod.splits bool.splits)
  with Cons.IH [of s1] item_tally show ?case by fastforce
qed simp


lemma commit_ran:
  assumes "commitAuthImport im ic text overwrite = (failure, result, saved)" "failure = None \<or> saved \<noteq> []"
  obtains items errors existing s where "parseAuthImportText im text = (items, errors)" "existingHostAuthFileNames ic 2 = Inr existing"
    "commit_items ic overwrite items (commit_start existing errors) = (failure \<noteq> None, s)" "saved = cm_Saved s"
    "result = \<lparr>ix_Detected = length items, ix_Imported = cm_Imported s, ix_Skipped = cm_Skipped s, ix_Failed = cm_Failed s,
       ix_Items = cm_Items s, ix_Errors = cm_Errors s\<rparr>"
proof -
  obtain items errors where p: "parseAuthImportText im text = (items, errors)" by fastforce
  obtain existing where e: "existingHostAuthFileNames ic 2 = Inr existing" "\<not> ic_cancelled ic 0" "\<not> ic_cancelled ic 1"
    using assms by (auto simp: commitAuthImport_def p split: if_splits sum.splits)
  obtain b s where "commit_items ic overwrite items (commit_start existing errors) = (b, s)" by fastforce
  with assms(1) p e that show thesis by (auto simp: commitAuthImport_def split: if_splits)
qed

section \<open>Documents that are found\<close>

text \<open>A printer of JSON: quotes and backslashes in strings are escaped.\<close>

definition escaped :: "string \<Rightarrow> string" where
  "escaped s = concat (map (\<lambda>c. if c = CHR 0x22 \<or> c = CHR 0x5C then [CHR 0x5C, c] else [c]) s)"

definition quoted :: "string \<Rightarrow> string" where
  "quoted s = [CHR 0x22] @ escaped s @ [CHR 0x22]"

fun json_text :: "json \<Rightarrow> string" where
  "json_text JNull = ''null''"
| "json_text (JBool b) = (if b then ''true'' else ''false'')"
| "json_text (JNumber n) = n"
| "json_text (JString s) = quoted s"
| "json_text (JArray vs) = [CHR 0x5B] @ Join (map json_text vs) '','' @ [CHR 0x5D]"
| "json_text (JObject members) = [CHR 0x7B] @ Join (map (\<lambda>(key, v). quoted key @ '':'' @ json_text v) members) '','' @ [CHR 0x7D]"

definition unmarked :: "string \<Rightarrow> bool" where
  "unmarked s \<longleftrightarrow> set s \<inter> (open_bracket \<union> close_bracket \<union> {CHR 0x22}) = {}"

fun numbers_plain :: "json \<Rightarrow> bool" where
  "numbers_plain (JNumber n) = unmarked n"
| "numbers_plain (JArray vs) = list_all numbers_plain vs"
| "numbers_plain (JObject members) = list_all (\<lambda>(_, v). numbers_plain v) members"
| "numbers_plain _ = True"

text \<open>What the scanner passes over inside a fragment.\<close>

definition passes :: "string \<Rightarrow> bool" where
  "passes s \<longleftrightarrow> (\<forall>seen stack t. stack \<noteq> [] \<longrightarrow> scan_text (Inside seen stack Plain) (s @ t) = scan_text (Inside (rev s @ seen) stack Plain) t)"

lemma passes_append: "passes s \<Longrightarrow> passes t \<Longrightarrow> passes (s @ t)"
  by (simp add: passes_def)

lemma passes_Nil: "passes []"
  by (simp add: passes_def)

lemma passes_unmarked: "unmarked s \<Longrightarrow> passes s"
proof (induction s)
  case (Cons c s)
  then have "passes s" "c \<notin> open_bracket" "c \<notin> close_bracket" "c \<noteq> CHR 0x22" by (auto simp: unmarked_def)
  then show ?case by (simp add: passes_def)
qed (rule passes_Nil)

lemma passes_Join: "list_all passes ss \<Longrightarrow> passes sep \<Longrightarrow> passes (Join ss sep)"
  by (induction ss sep rule: Join.induct) (auto intro!: passes_append passes_Nil)

lemma scan_escaped:
  "scan_text (Inside seen stack InString) (escaped s @ CHR 0x22 # t) = scan_text (Inside (CHR 0x22 # rev (escaped s) @ seen) stack Plain) t"
  by (induction s arbitrary: seen) (auto simp: escaped_def)

lemma passes_quoted: "passes (quoted s)"
  by (auto simp: passes_def quoted_def scan_escaped)

lemma passes_bracketed:
  assumes "passes s" "bracket \<in> open_bracket"
  shows "passes ([bracket] @ s @ [closer bracket])"
proof -
  have m: "bracket \<noteq> CHR 0x22" "closer bracket \<noteq> CHR 0x22" "closer bracket \<notin> open_bracket" "closer bracket \<in> close_bracket"
    using assms(2) by (auto simp: open_bracket_def close_bracket_def closer_def)
  have "scan_text (Inside seen (bracket # stack) Plain) (s @ closer bracket # t)
      = scan_text (Inside (closer bracket # rev s @ seen) stack Plain) t" if "stack \<noteq> []" for seen stack t
    using assms(1) m that by (simp add: passes_def)
  then show ?thesis using assms(2) m by (simp add: passes_def)
qed

lemma passes_literal: "passes ''null''" "passes ''true''" "passes ''false''" "passes '',''" "passes '':''"
  by (rule passes_unmarked, code_simp)+

lemma passes_json: "numbers_plain v \<Longrightarrow> passes (json_text v)"
proof (induction v)
  case (JArray vs)
  then have "list_all passes (map json_text vs)" by (auto simp: list_all_iff)
  from passes_bracketed [OF passes_Join [OF this passes_literal(4)], of "CHR 0x5B"] show ?case
    by (simp add: open_bracket_def closer_def)
next
  case (JObject members)
  then have "passes (quoted key @ '':'' @ json_text v)" if "(key, v) \<in> set members" for key v
    using that passes_append [OF passes_quoted passes_append [OF passes_literal(5)]] by (fastforce simp: list_all_iff)
  then have "list_all passes (map (\<lambda>(key, v). quoted key @ '':'' @ json_text v) members)" by (auto simp: list_all_iff)
  from passes_bracketed [OF passes_Join [OF this passes_literal(4)], of "CHR 0x7B"] show ?case
    by (simp add: open_bracket_def closer_def)
qed (simp_all add: passes_literal passes_quoted passes_unmarked)


fun is_document :: "json \<Rightarrow> bool" where
  "is_document (JArray vs) = True"
| "is_document (JObject members) = True"
| "is_document _ = False"

lemma scan_bracketed:
  assumes "passes s" "bracket \<in> open_bracket"
  shows "scan_text Outside (([bracket] @ s @ [closer bracket]) @ t) = ([bracket] @ s @ [closer bracket]) # scan_text Outside t"
proof -
  have m: "closer bracket \<noteq> CHR 0x22" "closer bracket \<notin> open_bracket" "closer bracket \<in> close_bracket"
    using assms(2) by (auto simp: open_bracket_def close_bracket_def closer_def)
  show ?thesis using assms m by (simp add: passes_def)
qed

lemma scan_document:
  assumes "is_document v" "numbers_plain v"
  shows "scan_text Outside (json_text v @ t) = json_text v # scan_text Outside t"
proof -
  obtain bracket s where s: "json_text v = [bracket] @ s @ [closer bracket]" "bracket \<in> open_bracket" "passes s"
  proof (cases v)
    case (JArray vs)
    then have "passes (Join (map json_text vs) '','')"
      using assms(2) passes_json by (intro passes_Join passes_literal) (auto simp: list_all_iff)
    then show thesis using that [of "CHR 0x5B"] JArray by (simp add: open_bracket_def closer_def)
  next
    case (JObject members)
    then have "passes (quoted key @ '':'' @ json_text v)" if "(key, v) \<in> set members" for key v
      using that assms(2) passes_append [OF passes_quoted passes_append [OF passes_literal(5) passes_json]] by (fastforce simp: list_all_iff)
    then have "passes (Join (map (\<lambda>(key, v). quoted key @ '':'' @ json_text v) members) '','')"
      by (intro passes_Join passes_literal) (auto simp: list_all_iff)
    then show thesis using that [of "CHR 0x7B"] JObject by (simp add: open_bracket_def closer_def)
  qed (use assms(1) in simp_all)
  show ?thesis unfolding s(1) by (rule scan_bracketed [OF s(3,2)])
qed

lemma scan_between: "set s \<inter> open_bracket = {} \<Longrightarrow> scan_text Outside (s @ t) = scan_text Outside t"
  by (induction s) auto

definition pasted :: "(string \<times> json) list \<Rightarrow> string \<Rightarrow> string" where
  "pasted parts rest = concat (map (\<lambda>(between, v). between @ json_text v) parts) @ rest"

lemma pasted_fragments:
  assumes "\<forall>(between, v)\<in>set parts. set between \<inter> open_bracket = {} \<and> is_document v \<and> numbers_plain v" "set rest \<inter> open_bracket = {}"
  shows "extractAuthImportJSONFragments (pasted parts rest) = map (json_text \<circ> snd) parts"
  using assms(1)
proof (induction parts)
  case Nil
  show ?case using scan_between [OF assms(2), of "[]"] by (simp add: pasted_def extractAuthImportJSONFragments_def)
next
  case (Cons p parts)
  then show ?case
    by (cases p) (simp add: pasted_def extractAuthImportJSONFragments_def scan_between scan_document)
qed

section \<open>Properties\<close>


definition example_account :: json where
  "example_account = JObject [(''access_token'', JString ''t''), (''email'', JString ''a]@b.c'')]"

definition example_import :: import_env where
  "example_import = \<lparr>im_unmarshal = (\<lambda>s. if s = json_text example_account then Some example_account else None), im_base64 = (\<lambda>s. None),
     im_encode = (\<lambda>v. []), im_digest = (\<lambda>s. ''0123456789abcdef''), im_now_ns = 0, im_parse = (\<lambda>s. None), im_format = Itoa\<rparr>"


text \<open>C22: An import leaves the files of the host alone. Unless it is asked to overwrite, it saves no file that the host has under that name in any letter case; it
  saves no name twice; and every name it saves is made of harmless characters between \<open>codex-\<close> and \<open>.json\<close>, whatever the pasted
  text says.\<close>

theorem import_spares_files:
  assumes "commitAuthImport im ic text overwrite = (failure, result, saved)" "ic_list ic = Files files"
    and "\<forall>s. list_all allowed_in_file (im_digest im s)"
  shows "distinct (map fst saved) \<and> (\<forall>f\<in>fst ` set saved. safe_import_name f \<and> (overwrite \<or> ToLower f \<notin> set (host_names files)))"
proof (cases "saved = []")
  case False
  then obtain items errors existing s b where parsed: "parseAuthImportText im text = (items, errors)" "existingHostAuthFileNames ic 2 = Inr existing"
    and run: "commit_items ic overwrite items (commit_start existing errors) = (b, s)" "saved = cm_Saved s"
    using commit_ran [OF assms(1)] by metis
  have existing: "existing = host_names files" using parsed(2) assms(2) by (simp add: existingHostAuthFileNames_def split: if_splits)
  have "\<exists>rs. items = fst (convert_records im [] rs)" using parsed(1) by (auto simp: parseAuthImportText_def split: prod.splits) (metis fst_conv)
  then have fresh: "names_fresh [] items" using converted_names [OF assms(3)] by auto
  then have names: "\<forall>f\<in>set (map ai_FileName items). safe_import_name f" "distinct (map ai_FileName items)"
    by (auto simp: names_fresh_def distinct_map inj_on_def)
  obtain fs where fs: "map fst saved = fs" "subseq fs (map ai_FileName items)" "overwrite \<or> (\<forall>f\<in>set fs. ToLower f \<notin> set (host_names files))"
    using items_saved [OF run(1)] run(2) existing by (auto simp: file_names_def commit_start_def)
  have "distinct fs" "set fs \<subseteq> set (map ai_FileName items)" using subseq_keeps [OF fs(2)] names(2) by auto
  moreover have "fst ` set saved = set fs" using fs(1) by (metis list.set_map)
  ultimately show ?thesis using fs(1,3) names(1) by (simp add: subset_iff) blast
qed simp

definition example_commit :: import_calls where
  "example_commit = \<lparr>ic_cancelled = (\<lambda>n. False), ic_list = Files [(''x.json'', [])], ic_encodes = (\<lambda>item. True), ic_saves = (\<lambda>item. True),
     ic_before = (\<lambda>item. False), ic_after = (\<lambda>item. False)\<rparr>"

lemma example_saved:
  "map fst (snd (snd (commitAuthImport example_import example_commit (json_text example_account) False))) = [''codex-a-@b.c.json'']"
  by code_simp

theorem import_spares_files_witness:
  "safe_import_name ''codex-a-@b.c.json'' \<and> ToLower ''codex-a-@b.c.json'' \<notin> set (host_names [(''x.json'', [])])"
proof -
  obtain failure result saved where
    c: "commitAuthImport example_import example_commit (json_text example_account) False = (failure, result, saved)" by (metis prod.exhaust)
  then have saved: "''codex-a-@b.c.json'' \<in> fst ` set saved" using example_saved by (metis list.set_intros(1) list.set_map snd_conv)
  have "ic_list example_commit = Files [(''x.json'', [])]" "\<forall>s. list_all allowed_in_file (im_digest example_import s)"
    by (simp add: example_commit_def) (simp add: example_import_def, code_simp)
  from import_spares_files [OF c this] saved show ?thesis by blast
qed

text \<open>Every record of an import that runs to its end is accounted for: imported, skipped or failed.\<close>

theorem import_adds_up:
  assumes "commitAuthImport im ic text overwrite = (None, result, saved)"
  shows "ix_Imported result + ix_Skipped result + ix_Failed result = ix_Detected result + length (snd (parseAuthImportText im text))"
proof -
  obtain items errors existing s where r: "parseAuthImportText im text = (items, errors)"
    "commit_items ic overwrite items (commit_start existing errors) = (False, s)"
    "result = \<lparr>ix_Detected = length items, ix_Imported = cm_Imported s, ix_Skipped = cm_Skipped s, ix_Failed = cm_Failed s,
       ix_Items = cm_Items s, ix_Errors = cm_Errors s\<rparr>"
    by (rule commit_ran [OF assms]) simp_all
  show ?thesis using items_tally [OF r(2)] r(1,3) by (simp add: commit_start_def)
qed

end
