(* ===== verification/Auth_Source.thy ===== *)
theory Auth_Source
  imports Bans Redact
begin

text \<open>
  Where the configured accounts come from: the list of the host, kept for three seconds, and the credential files as a fallback
  (\<open>codex_auth_source.go\<close>, \<open>xai_auth_source.go\<close>, \<open>auth_source_diagnostics.go\<close>, \<open>summary.go\<close>). The lemmas: only an answer of the host
  is authoritative, a failing host makes no account vanish and no restriction is cleared for it; the list and the flag are
  read one after the other, which an answer in between can exploit.
\<close>

section \<open>Providers and addresses\<close>

definition normalizeAuthProvider :: "string \<Rightarrow> string \<Rightarrow> string" where
  "normalizeAuthProvider provider filename =
     (let v = ToLower (TrimSpace provider); name = ToLower (TrimSpace filename)
      in if v \<in> {''codex'', ''openai'', ''chatgpt''} then ''codex''
         else if v \<in> {''anthropic'', ''claude''} then ''anthropic''
         else if v = ''antigravity'' then ''antigravity''
         else if v \<in> {''gemini'', ''google''} then ''gemini''
         else if v \<in> {''xai'', ''grok''} then ''xai''
         else if Contains name ''anthropic'' \<or> Contains name ''claude'' then ''anthropic''
         else if Contains name ''antigravity'' then ''antigravity''
         else if Contains name ''gemini'' \<or> Contains name ''google'' then ''gemini''
         else if Contains name ''xai'' \<or> Contains name ''grok'' then ''xai''
         else ''codex'')"

definition isCodexAuthProvider :: "string \<Rightarrow> bool" where
  "isCodexAuthProvider provider \<longleftrightarrow> EqualFold (TrimSpace provider) ''codex''"

text \<open>\<open>se_address\<close> is the address that \<open>mail.ParseAddress\<close> finds, \<open>se_digest\<close> SHA-256 cut to 16 bytes, in hexadecimal digits, and
  \<open>se_stamp\<close> the format of a time.\<close>

record source_env =
  se_address :: "string \<Rightarrow> string option"
  se_digest :: "string \<Rightarrow> string"
  se_stamp :: "int \<Rightarrow> string"

definition plain_address :: "source_env \<Rightarrow> string \<Rightarrow> bool" where
  "plain_address se v \<longleftrightarrow>
     v \<noteq> [] \<and> set v \<inter> {CHR 0x00, CHR 0x0D, CHR 0x0A} = {} \<and> credentialShapedValue v = None \<and> se_address se v = Some v
     \<and> CHR ''@'' \<in> set v \<and> takeWhile (\<lambda>c. c \<noteq> CHR ''@'') (rev v) \<noteq> [] \<and> length (takeWhile (\<lambda>c. c \<noteq> CHR ''@'') (rev v)) < length v - 1"

text \<open>The account column, the second value, is a credential if the account is of the type of an API key.\<close>

definition safeAuthAccountEmail :: "source_env \<Rightarrow> string \<Rightarrow> string list \<Rightarrow> string" where
  "safeAuthAccountEmail se accountType texts =
     (let api_key = (filter (\<lambda>c. c \<notin> {CHR ''_'', CHR ''-'', CHR '' ''}) (ToLower (TrimSpace accountType)) = ''apikey'')
      in case find (\<lambda>(i, v). \<not> (i = 1 \<and> api_key) \<and> plain_address se (TrimSpace v)) (enumerate 0 texts) of
           Some (_, v) \<Rightarrow> TrimSpace v
         | None \<Rightarrow> [])"

section \<open>The entries of the host\<close>

record codexHostAuthFileEntry =
  he_ID :: string
  he_AuthIndex :: string
  he_Name :: string
  he_Type :: string
  he_Provider :: string
  he_Status :: string
  he_StatusMessage :: string
  he_Disabled :: bool
  he_Unavailable :: bool
  he_Path :: string
  he_ModTime :: "int option"
  he_UpdatedAt :: "int option"
  he_Email :: string
  he_AccountType :: string
  he_Account :: string

definition unixSecondsOrZero :: "int option \<Rightarrow> int" where
  "unixSecondsOrZero t = (case t of Some s \<Rightarrow> s | None \<Rightarrow> 0)"

definition codexConfiguredAccountFromHostEntry :: "source_env \<Rightarrow> codexHostAuthFileEntry \<Rightarrow> configuredAccount option" where
  "codexConfiguredAccountFromHostEntry se entry =
     (let provider = normalizeAuthProvider (firstNonEmptyString [he_Provider entry, he_Type entry])
                       (firstNonEmptyString [he_Name entry, he_Path entry, he_AuthIndex entry])
      in if \<not> isCodexAuthProvider provider then None
      else let
        email = safeAuthAccountEmail se (he_AccountType entry) [he_Email entry, he_Account entry];
        authFile = firstNonEmptyString [fileNameIfJSON (he_Name entry), fileNameIfJSON (he_Path entry), fileNameIfJSON (he_ID entry)];
        authIndex = firstNonEmptyString [he_AuthIndex entry, authFile, he_ID entry];
        authID = firstNonEmptyString [he_ID entry, authIndex, authFile];
        name = firstNonEmptyString [he_Name entry, filepath_Base (he_Path entry), he_ID entry];
        source = firstNonEmptyString [email, name, authIndex, authID];
        modified = (if he_ModTime entry = None then he_UpdatedAt entry else he_ModTime entry);
        status = TrimSpace (he_Status entry)
      in if authIndex = [] \<and> authID = [] \<and> source = [] then None
         else Some \<lparr>cg_AuthIndex = authIndex, cg_AuthID = authID, cg_Source = source, cg_Provider = ''codex'', cg_Email = email, cg_Name = name,
           cg_AuthFile = authFile, cg_AuthFileMTime = unixSecondsOrZero modified,
           cg_Disabled = (he_Disabled entry \<or> EqualFold status ''disabled''), cg_Expired = EqualFold status ''expired'', cg_PlanType = [],
           cg_XAITier = [], cg_XAITierSource = [], cg_XAITierDetail = [], cg_RuntimeStatus = status,
           cg_RuntimeMessage = sanitizeTriggerError (he_StatusMessage entry), cg_RuntimeUnavailable = he_Unavailable entry,
           cg_AccessToken = [], cg_ChatGPTAccountID = []\<rparr>)"

text \<open>The identity of a list of accounts: a digest of their sorted rows.\<close>

definition revision_row :: "configuredAccount \<Rightarrow> string" where
  "revision_row a = Join [cg_Provider a, cg_AuthIndex a, cg_AuthID a, cg_AuthFile a, cg_Email a, Itoa (cg_AuthFileMTime a),
     if cg_Disabled a then ''true'' else ''false'', if cg_Expired a then ''true'' else ''false'', cg_RuntimeStatus a,
     if cg_RuntimeUnavailable a then ''true'' else ''false''] [CHR 0x00]"

definition configuredAccountListRevision :: "source_env \<Rightarrow> configuredAccount list \<Rightarrow> string" where
  "configuredAccountListRevision se accounts =
     Itoa (int (length accounts)) @ '':'' @ se_digest se (concat (map (\<lambda>row. row @ [CHR 0x00]) (sort (map revision_row accounts))))"

section \<open>Joining lists\<close>

text \<open>Files describe the accounts of the host; they add none and no token. The last account with an alias describes it.\<close>

definition describe_account :: "configuredAccount list \<Rightarrow> configuredAccount \<Rightarrow> configuredAccount" where
  "describe_account metadata a =
     (let index = (\<lambda>alias'. find (\<lambda>item. alias' \<noteq> [] \<and> alias' \<in> set (configuredAliases item)) (rev metadata))
      in case find (\<lambda>alias'. index alias' \<noteq> None) (configuredAliases a) of
           None \<Rightarrow> a
         | Some alias' \<Rightarrow>
             (case index alias' of
                None \<Rightarrow> a
              | Some d \<Rightarrow> a\<lparr>cg_Email := firstNonEmptyString [cg_Email a, cg_Email d], cg_Name := firstNonEmptyString [cg_Name a, cg_Name d],
                  cg_PlanType := firstNonEmptyString [cg_PlanType a, cg_PlanType d],
                  cg_ChatGPTAccountID := firstNonEmptyString [cg_ChatGPTAccountID a, cg_ChatGPTAccountID d],
                  cg_AuthFileMTime := (if cg_AuthFileMTime a = 0 then cg_AuthFileMTime d else cg_AuthFileMTime a)\<rparr>))"

definition mergeConfiguredAccountMetadata :: "configuredAccount list \<Rightarrow> configuredAccount list \<Rightarrow> configuredAccount list" where
  "mergeConfiguredAccountMetadata accounts metadata = (if accounts = [] \<or> metadata = [] then accounts else map (describe_account metadata) accounts)"

definition mergeCodexAccountSnapshots :: "configuredAccount list \<Rightarrow> configuredAccount list \<Rightarrow> configuredAccount list" where
  "mergeCodexAccountSnapshots hosted files =
     foldl (\<lambda>merged candidate. if list_ex (\<lambda>a. aliasesOverlap (configuredAliases candidate) (configuredAliases a)) merged then merged
                               else merged @ [candidate]) hosted files"

definition merge_aliases :: "configuredAccount \<Rightarrow> string list" where
  "merge_aliases a = normalizeAccountAliases [cg_AuthFile a, cg_AuthIndex a, cg_AuthID a, cg_Email a]"

definition mergeXAIAccountSnapshots :: "configuredAccount list \<Rightarrow> configuredAccount list \<Rightarrow> configuredAccount list" where
  "mergeXAIAccountSnapshots hosted files =
     foldl (\<lambda>merged candidate. if list_ex (\<lambda>a. aliasesOverlap (merge_aliases candidate) (merge_aliases a)) merged then merged
                               else merged @ [candidate]) hosted files"

section \<open>The source of Codex accounts\<close>

datatype host_error = HostListUnavailable | HostListInvalid

definition host_error_text :: "host_error \<Rightarrow> string" where
  "host_error_text e = (case e of HostListUnavailable \<Rightarrow> ''host.auth.list unavailable'' | HostListInvalid \<Rightarrow> ''host.auth.list returned an invalid response'')"

definition hostAuthDiagnosticStatus :: "host_error option \<Rightarrow> string" where
  "hostAuthDiagnosticStatus e = (case e of None \<Rightarrow> ''ok'' | Some HostListInvalid \<Rightarrow> ''invalid_response'' | Some HostListUnavailable \<Rightarrow> ''unavailable'')"

definition authSourceFallbackDiagnostic :: "string \<Rightarrow> string \<Rightarrow> string" where
  "authSourceFallbackDiagnostic hostStatus fallbackStatus =
     (let h = TrimSpace hostStatus; f = TrimSpace fallbackStatus
      in ''host_'' @ (if h = [] then ''unavailable'' else h) @ '';filesystem_'' @ (if f = [] then ''unknown'' else f))"

record authSourceDiagnostics =
  sd_Source :: string
  sd_Authoritative :: bool
  sd_Accounts :: nat
  sd_MetadataReadErrors :: nat
  sd_HostStatus :: string
  sd_FallbackStatus :: string
  sd_LastSuccessAt :: string
  sd_LastError :: string

text \<open>Times are nanoseconds; \<open>None\<close> is the zero time.\<close>

record auth_source =
  as_fetchedAt :: "int option"
  as_callbackErr :: "host_error option"
  as_hostSnapshot :: "configuredAccount list"
  as_accounts :: "configuredAccount list"
  as_revision :: string
  as_diagnostics :: authSourceDiagnostics

definition codexAuthSourceCacheTTL :: int where "codexAuthSourceCacheTTL = 3 * 10 ^ 9"

definition authoritative :: "auth_source \<Rightarrow> bool" where
  "authoritative m \<longleftrightarrow> sd_Authoritative (as_diagnostics m)"

definition from_host :: "auth_source \<Rightarrow> bool" where
  "from_host m \<longleftrightarrow> sd_Source (as_diagnostics m) = ''host_callback'' \<and> authoritative m"

definition cachedHostResult :: "int \<Rightarrow> auth_source \<Rightarrow> (host_error, configuredAccount list) result option" where
  "cachedHostResult now m =
     (case as_fetchedAt m of
        None \<Rightarrow> None
      | Some t \<Rightarrow>
          if now - t < 0 \<or> codexAuthSourceCacheTTL \<le> now - t then None
          else case as_callbackErr m of
                 Some e \<Rightarrow> Some (Inl e)
               | None \<Rightarrow> if \<not> from_host m then None else Some (Inr (as_accounts m)))"

definition recordHostFailure :: "int \<Rightarrow> host_error \<Rightarrow> auth_source \<Rightarrow> auth_source" where
  "recordHostFailure now failure m =
     m\<lparr>as_fetchedAt := Some now, as_callbackErr := Some failure,
       as_diagnostics := \<lparr>sd_Source = ''host_callback_error'', sd_Authoritative = False, sd_Accounts = length (as_accounts m),
         sd_MetadataReadErrors = 0, sd_HostStatus = hostAuthDiagnosticStatus (Some failure), sd_FallbackStatus = [],
         sd_LastSuccessAt = sd_LastSuccessAt (as_diagnostics m), sd_LastError = host_error_text failure\<rparr>\<rparr>"

definition recordHostSuccess :: "source_env \<Rightarrow> int \<Rightarrow> configuredAccount list \<Rightarrow> auth_source \<Rightarrow> auth_source" where
  "recordHostSuccess se now accounts m =
     m\<lparr>as_fetchedAt := Some now, as_callbackErr := None, as_hostSnapshot := accounts, as_accounts := accounts,
       as_revision := configuredAccountListRevision se accounts,
       as_diagnostics := \<lparr>sd_Source = ''host_callback'', sd_Authoritative = True, sd_Accounts = length accounts, sd_MetadataReadErrors = 0,
         sd_HostStatus = ''ok'', sd_FallbackStatus = [], sd_LastSuccessAt = se_stamp se now, sd_LastError = []\<rparr>\<rparr>"

text \<open>What the host answers to \<open>host.auth.list\<close>: an error, no JSON, or its entries.\<close>

datatype 'e host_listing = NoListing | BadListing | Listing "'e list"

definition fetch_accounts :: "source_env \<Rightarrow> codexHostAuthFileEntry host_listing \<Rightarrow> (host_error, configuredAccount list) result" where
  "fetch_accounts se answer =
     (case answer of
        NoListing \<Rightarrow> Inl HostListUnavailable
      | BadListing \<Rightarrow> Inl HostListInvalid
      | Listing entries \<Rightarrow> Inr (List.map_filter (codexConfiguredAccountFromHostEntry se) entries))"

text \<open>The answer of the host is recorded at a time after the cache was looked at.\<close>

definition hostAccounts ::
  "source_env \<Rightarrow> int \<Rightarrow> codexHostAuthFileEntry host_listing \<Rightarrow> int \<Rightarrow> auth_source \<Rightarrow> (host_error, configuredAccount list) result \<times> auth_source" where
  "hostAccounts se now answer answered m =
     (case cachedHostResult now m of
        Some r \<Rightarrow> (r, m)
      | None \<Rightarrow>
          (case fetch_accounts se answer of
             Inl e \<Rightarrow> (Inl e, recordHostFailure answered e m)
           | Inr accounts \<Rightarrow> (Inr accounts, recordHostSuccess se answered accounts m)))"

definition markFilesystemFallback ::
  "source_env \<Rightarrow> string \<Rightarrow> configuredAccount list \<Rightarrow> host_error \<Rightarrow> auth_source \<Rightarrow> configuredAccount list \<times> auth_source" where
  "markFilesystemFallback se fallbackStatus files hostErr m =
     (if as_callbackErr m = None \<and> from_host m then (mergeConfiguredAccountMetadata (as_hostSnapshot m) files, m)
      else let merged = mergeCodexAccountSnapshots (as_hostSnapshot m) files; hostStatus = hostAuthDiagnosticStatus (Some hostErr)
           in (merged, m\<lparr>as_accounts := merged, as_revision := configuredAccountListRevision se merged,
                 as_diagnostics := \<lparr>sd_Source = ''filesystem_fallback'', sd_Authoritative = False, sd_Accounts = length merged,
                   sd_MetadataReadErrors = 0, sd_HostStatus = hostStatus, sd_FallbackStatus = fallbackStatus,
                   sd_LastSuccessAt = sd_LastSuccessAt (as_diagnostics m),
                   sd_LastError = authSourceFallbackDiagnostic hostStatus fallbackStatus\<rparr>\<rparr>))"

definition invalidate_source :: "auth_source \<Rightarrow> auth_source" where
  "invalidate_source m = m\<lparr>as_fetchedAt := None, as_callbackErr := None\<rparr>"

text \<open>What a reader meets: the clock, the answer of the host, the accounts of the credential files and how reading them went.\<close>

record source_io =
  io_now :: int
  io_answer :: "codexHostAuthFileEntry host_listing"
  io_answered :: int
  io_files :: "configuredAccount list"
  io_fallback :: string

definition codex_files :: "source_io \<Rightarrow> configuredAccount list" where
  "codex_files io = filter (\<lambda>a. isCodexAuthProvider (cg_Provider a)) (io_files io)"

definition readConfiguredAuthAccounts :: "source_env \<Rightarrow> source_io \<Rightarrow> auth_source \<Rightarrow> configuredAccount list \<times> auth_source" where
  "readConfiguredAuthAccounts se io m =
     (case hostAccounts se (io_now io) (io_answer io) (io_answered io) m of
        (Inr accounts, m') \<Rightarrow> (mergeConfiguredAccountMetadata accounts (codex_files io), m')
      | (Inl e, m') \<Rightarrow> markFilesystemFallback se (io_fallback io) (codex_files io) e m')"

definition source_start :: auth_source where
  "source_start = \<lparr>as_fetchedAt = None, as_callbackErr = None, as_hostSnapshot = [], as_accounts = [], as_revision = [],
     as_diagnostics = \<lparr>sd_Source = [], sd_Authoritative = False, sd_Accounts = 0, sd_MetadataReadErrors = 0, sd_HostStatus = [],
       sd_FallbackStatus = [], sd_LastSuccessAt = [], sd_LastError = []\<rparr>\<rparr>"

section \<open>Readers at the same time\<close>

text \<open>
  Readers go on step by step: they ask the host, read the files when it failed, and read the flag afterwards. Others
  may invalidate the source. A reader that is done has its list and the flag.
\<close>

datatype reader =
    Starting
  | Failed host_error
  | Listed "configuredAccount list"
  | Flagged "configuredAccount list" bool

record source_system =
  ss_source :: auth_source
  ss_readers :: "reader list"

inductive source_step :: "source_env \<Rightarrow> source_system \<Rightarrow> source_system \<Rightarrow> bool" for se where
  arrives: "source_step se s (s\<lparr>ss_readers := ss_readers s @ [Starting]\<rparr>)"
| lists: "i < length (ss_readers s) \<Longrightarrow> ss_readers s ! i = Starting \<Longrightarrow>
    hostAccounts se now answer answered (ss_source s) = (Inr accounts, m) \<Longrightarrow>
    source_step se s (s\<lparr>ss_source := m, ss_readers := (ss_readers s)[i := Listed (mergeConfiguredAccountMetadata accounts files)]\<rparr>)"
| fails: "i < length (ss_readers s) \<Longrightarrow> ss_readers s ! i = Starting \<Longrightarrow>
    hostAccounts se now answer answered (ss_source s) = (Inl e, m) \<Longrightarrow>
    source_step se s (s\<lparr>ss_source := m, ss_readers := (ss_readers s)[i := Failed e]\<rparr>)"
| falls_back: "i < length (ss_readers s) \<Longrightarrow> ss_readers s ! i = Failed e \<Longrightarrow>
    markFilesystemFallback se status files e (ss_source s) = (accounts, m) \<Longrightarrow>
    source_step se s (s\<lparr>ss_source := m, ss_readers := (ss_readers s)[i := Listed accounts]\<rparr>)"
| flags: "i < length (ss_readers s) \<Longrightarrow> ss_readers s ! i = Listed accounts \<Longrightarrow>
    source_step se s (s\<lparr>ss_readers := (ss_readers s)[i := Flagged accounts (authoritative (ss_source s))]\<rparr>)"
| invalidates: "source_step se s (s\<lparr>ss_source := invalidate_source (ss_source s)\<rparr>)"

inductive_cases source_stepE: "source_step se s s'"


section \<open>What the flag says\<close>

definition source_ok :: "auth_source \<Rightarrow> bool" where
  "source_ok m \<longleftrightarrow> (authoritative m \<longrightarrow> from_host m \<and> as_callbackErr m = None \<and> as_accounts m = as_hostSnapshot m)"

lemma ok_start: "source_ok source_start"
  by (simp add: source_ok_def source_start_def authoritative_def)

lemma ok_recorded: "source_ok (recordHostFailure now e m)" "source_ok (recordHostSuccess se now accounts m)"
  by (simp_all add: source_ok_def recordHostFailure_def recordHostSuccess_def authoritative_def from_host_def)

lemma ok_invalidated: "source_ok m \<Longrightarrow> source_ok (invalidate_source m)"
  by (simp add: source_ok_def invalidate_source_def authoritative_def from_host_def)

lemma ok_hosted: "source_ok m \<Longrightarrow> hostAccounts se now answer answered m = (r, m') \<Longrightarrow> source_ok m'"
  using ok_recorded by (auto simp: hostAccounts_def split: option.splits sum.splits)

lemma ok_marked: "source_ok m \<Longrightarrow> markFilesystemFallback se status files e m = (accounts, m') \<Longrightarrow> source_ok m'"
  by (auto simp: markFilesystemFallback_def Let_def source_ok_def authoritative_def split: if_splits)

lemma ok_step: "source_step se s s' \<Longrightarrow> source_ok (ss_source s) \<Longrightarrow> source_ok (ss_source s')"
  by (cases rule: source_step.cases) (auto dest: ok_hosted ok_marked ok_invalidated)

lemma hosted_list:
  assumes "source_ok m" "hostAccounts se now answer answered m = (Inr accounts, m')"
  shows "authoritative m' \<and> accounts = as_hostSnapshot m'"
  using assms by (auto simp: hostAccounts_def cachedHostResult_def recordHostSuccess_def source_ok_def from_host_def authoritative_def
    split: option.splits sum.splits if_splits)

lemma failed_list:
  assumes "hostAccounts se now answer answered m = (Inl e, m')" "source_ok m"
  shows "\<not> authoritative m' \<and> as_callbackErr m' \<noteq> None \<and> as_hostSnapshot m' = as_hostSnapshot m"
  using assms by (auto simp: hostAccounts_def cachedHostResult_def recordHostFailure_def source_ok_def authoritative_def
    split: option.splits sum.splits if_splits)

lemma merge_keeps: "set hosted \<subseteq> set (mergeCodexAccountSnapshots hosted files)"
proof -
  have "set acc \<subseteq> set (foldl (\<lambda>merged candidate. if list_ex (\<lambda>a. aliasesOverlap (configuredAliases candidate) (configuredAliases a)) merged
      then merged else merged @ [candidate]) acc files)" for acc
  proof (induction files arbitrary: acc)
    case (Cons candidate files)
    show ?case
      using Cons.IH [of acc] Cons.IH [of "acc @ [candidate]"] by auto
  qed simp
  then show ?thesis by (simp add: mergeCodexAccountSnapshots_def)
qed

text \<open>The list and the flag of a reader that nobody interrupts.\<close>

lemma reading:
  assumes "source_ok m" "readConfiguredAuthAccounts se io m = (accounts, m')"
  shows "source_ok m'"
    and "authoritative m' \<Longrightarrow> accounts = mergeConfiguredAccountMetadata (as_hostSnapshot m') (codex_files io)"
    and "\<not> authoritative m' \<Longrightarrow> set (as_hostSnapshot m') \<subseteq> set accounts \<and> as_hostSnapshot m' = as_hostSnapshot m"
proof -
  obtain r m1 where h: "hostAccounts se (io_now io) (io_answer io) (io_answered io) m = (r, m1)" by fastforce
  have "source_ok m' \<and> (authoritative m' \<longrightarrow> accounts = mergeConfiguredAccountMetadata (as_hostSnapshot m') (codex_files io))
    \<and> (\<not> authoritative m' \<longrightarrow> set (as_hostSnapshot m') \<subseteq> set accounts \<and> as_hostSnapshot m' = as_hostSnapshot m)"
  proof (cases r)
    case (Inr list)
    with h assms(2) have "m' = m1" "accounts = mergeConfiguredAccountMetadata list (codex_files io)"
      by (auto simp: readConfiguredAuthAccounts_def)
    then show ?thesis using hosted_list [OF assms(1)] ok_hosted [OF assms(1)] h Inr by auto
  next
    case (Inl e)
    with h assms(2) have f: "markFilesystemFallback se (io_fallback io) (codex_files io) e m1 = (accounts, m')"
      by (simp add: readConfiguredAuthAccounts_def)
    have m1: "\<not> authoritative m1" "as_callbackErr m1 \<noteq> None" "as_hostSnapshot m1 = as_hostSnapshot m" "source_ok m1"
      using failed_list [OF _ assms(1)] ok_hosted [OF assms(1)] h Inl by auto
    with f have "\<not> authoritative m'" "accounts = mergeCodexAccountSnapshots (as_hostSnapshot m1) (codex_files io)" "as_hostSnapshot m' = as_hostSnapshot m1"
      by (auto simp: markFilesystemFallback_def Let_def authoritative_def split: if_splits)
    then show ?thesis using m1 merge_keeps ok_marked [OF m1(4) f] by auto
  qed
  then show "source_ok m'" "authoritative m' \<Longrightarrow> accounts = mergeConfiguredAccountMetadata (as_hostSnapshot m') (codex_files io)"
    "\<not> authoritative m' \<Longrightarrow> set (as_hostSnapshot m') \<subseteq> set accounts \<and> as_hostSnapshot m' = as_hostSnapshot m" by blast+
qed

lemma failed_reading:
  assumes "source_ok m" "readConfiguredAuthAccounts se io m = (accounts, m')"
    "isl (fst (hostAccounts se (io_now io) (io_answer io) (io_answered io) m))"
  shows "\<not> authoritative m'"
proof -
  obtain e m1 where h: "hostAccounts se (io_now io) (io_answer io) (io_answered io) m = (Inl e, m1)"
    using assms(3) by (metis isl_def prod.collapse)
  then have f: "markFilesystemFallback se (io_fallback io) (codex_files io) e m1 = (accounts, m')"
    using assms(2) by (simp add: readConfiguredAuthAccounts_def)
  show ?thesis using failed_list [OF h assms(1)] f by (auto simp: markFilesystemFallback_def Let_def authoritative_def split: if_splits)
qed

section \<open>What a description keeps\<close>

lemma aliases_mono:
  assumes "\<And>v. v \<in> set vs \<Longrightarrow> TrimSpace v \<noteq> [] \<Longrightarrow> \<exists>w\<in>set ws. TrimSpace w = TrimSpace v"
  shows "set (normalizeAccountAliases vs) \<subseteq> set (normalizeAccountAliases ws)"
proof -
  have "alias_reach True (set ws) v" if "alias_reach True (set vs) v" for v
    using that
  proof (induction rule: alias_reach.induct)
    case (input v)
    then show ?case using assms by (metis alias_reach.input)
  qed (auto intro: alias_reach.intros)
  then show ?thesis by (auto simp: normalizeAccountAliases_def set_expandAccountAliases)
qed

lemma described_columns:
  "cg_AuthIndex (describe_account md a) = cg_AuthIndex a" "cg_AuthID (describe_account md a) = cg_AuthID a"
  "cg_Source (describe_account md a) = cg_Source a" "cg_AuthFile (describe_account md a) = cg_AuthFile a"
  "TrimSpace (cg_Email a) \<noteq> [] \<Longrightarrow> TrimSpace (cg_Email (describe_account md a)) = TrimSpace (cg_Email a)"
  "TrimSpace (cg_Name a) \<noteq> [] \<Longrightarrow> TrimSpace (cg_Name (describe_account md a)) = TrimSpace (cg_Name a)"
  "TrimSpace (cg_ChatGPTAccountID a) \<noteq> [] \<Longrightarrow> TrimSpace (cg_ChatGPTAccountID (describe_account md a)) = TrimSpace (cg_ChatGPTAccountID a)"
  by (auto simp: describe_account_def Let_def split: option.split)

lemma described_aliases: "set (configuredAliases a) \<subseteq> set (configuredAliases (describe_account md a))"
  unfolding configuredAliases_def accountIdentityAliases_def
  by (rule aliases_mono) (auto simp: described_columns)

lemma described_strict:
  "set (normalizeAccountAliases [cg_AuthFile a, cg_AuthIndex a, cg_ChatGPTAccountID a])
   \<subseteq> set (normalizeAccountAliases [cg_AuthFile (describe_account md a), cg_AuthIndex (describe_account md a), cg_ChatGPTAccountID (describe_account md a)])"
  by (rule aliases_mono) (auto simp: described_columns)

lemma described_sets:
  "set (configuredAliasSet accounts) \<subseteq> set (configuredAliasSet (mergeConfiguredAccountMetadata accounts md))"
  "set (configuredStrictAliasSet accounts) \<subseteq> set (configuredStrictAliasSet (mergeConfiguredAccountMetadata accounts md))"
  using described_aliases described_strict
  by (fastforce simp: mergeConfiguredAccountMetadata_def configuredAliasSet_def configuredStrictAliasSet_def)+

lemma missing_antitone:
  assumes "set aliases \<subseteq> set aliases'" "set strict \<subseteq> set strict'" "account_missing aliases' strict' authID authIndex source authFile"
  shows "account_missing aliases strict authID authIndex source authFile"
  using assms by (auto simp: account_missing_def Let_def aliasesContainAny_def list_ex_iff split: if_splits)

section \<open>What the clean-up touches\<close>

lemma run_mutations_keep:
  assumes "\<And>s v. s \<in> set ss \<Longrightarrow> I v \<Longrightarrow> I (snd (s v))" "\<And>v. I v \<Longrightarrow> I (invalidate_codex v)" "I w"
  shows "I (snd (run_mutations fails n ss w))"
  using assms
proof (induction ss arbitrary: n w)
  case (Cons s ss)
  have "I (snd (execCodexSchedulerStateMutation (fails n) s w))"
    using Cons.prems by (auto simp: execCodexSchedulerStateMutation_def Let_def split_def split: option.split)
  with Cons show ?case by (auto split: option.split prod.split)
qed simp

lemma bans_invalidated [simp]: "bw_bans (invalidate_codex v) = bw_bans v" "bw_invalids (invalidate_codex v) = bw_invalids v"
  by (simp_all add: invalidate_codex_def split_def Let_def)

lemma dropped_others:
  "bw_bans (snd (drop_invalid i v)) = bw_bans v" "bw_invalids (snd (drop_ban i v)) = bw_invalids v"
  "r \<in> set (bw_bans v) \<Longrightarrow> ab_AuthID r \<noteq> i \<Longrightarrow> r \<in> set (bw_bans (snd (drop_ban i v)))"
  "q \<in> set (bw_invalids v) \<Longrightarrow> ia_AuthID q \<noteq> i \<Longrightarrow> q \<in> set (bw_invalids (snd (drop_invalid i v)))"
  by (force simp: drop_invalid_def drop_ban_def update_bans_def update_invalids_def update_rows_def split_def Let_def)+

definition ban_listed :: "configuredAccount list \<Rightarrow> stored_ban \<Rightarrow> bool" where
  "ban_listed hosted r \<longleftrightarrow> \<not> account_missing (configuredAliasSet hosted) (configuredStrictAliasSet hosted)
     (ab_AuthID r) (ab_AuthIndex r) (ab_Source r)
     (firstNonEmptyString [fileNameIfJSON (ab_AuthID r), fileNameIfJSON (ab_AuthIndex r), fileNameIfJSON (ab_Source r)])"

definition invalid_listed :: "configuredAccount list \<Rightarrow> invalidAuthRow \<Rightarrow> bool" where
  "invalid_listed hosted r \<longleftrightarrow> \<not> account_missing (configuredAliasSet hosted) (configuredStrictAliasSet hosted)
     (ia_AuthID r) (ia_AuthIndex r) (ia_Source r) (ia_AuthFile r)"

text \<open>An account of the host with the credential file that a restriction names is listed.\<close>

lemma listed_by_file:
  assumes "a \<in> set hosted" "cg_AuthFile a = fileNameIfJSON (ab_AuthID r)" "fileNameIfJSON (ab_AuthID r) \<noteq> []"
  shows "ban_listed hosted r"
proof -
  let ?f = "fileNameIfJSON (ab_AuthID r)" and ?auto = "firstNonEmptyString [fileNameIfJSON (ab_AuthID r), fileNameIfJSON (ab_AuthIndex r), fileNameIfJSON (ab_Source r)]"
  let ?cleanup = "fileBackedCleanupAliases (ab_AuthID r) (ab_AuthIndex r) (ab_Source r) ?auto"
  have f: "TrimSpace ?f \<noteq> []" using assms(3) by (rule fileNameIfJSON_not_blank)
  have c: "normalizeAccountAlias ?f \<in> set ?cleanup"
    unfolding fileBackedCleanupAliases_def normalizeAccountAliases_def
    by (rule normalizeAccountAlias_in_expand) (use assms(3) f in auto)
  have n: "normalizeAccountAlias ?f \<noteq> []" using f by (simp add: normalizeAccountAlias_def)
  then have "TrimSpace (normalizeAccountAlias ?f) \<noteq> []" by (simp add: normalizeAccountAlias_def flip: ToLower_TrimSpace)
  with c have "normalizeAccountAlias ?f \<in> set (normalizeAccountAliases ?cleanup)"
    unfolding normalizeAccountAliases_def by (metis normalizeAccountAlias_in_expand normalizeAccountAlias_idem)
  moreover have "normalizeAccountAlias ?f \<in> set (normalizeAccountAliases [cg_AuthFile a, cg_AuthIndex a, cg_ChatGPTAccountID a])"
    unfolding normalizeAccountAliases_def by (rule normalizeAccountAlias_in_expand) (use assms(2) f in auto)
  then have "normalizeAccountAlias ?f \<in> set (configuredStrictAliasSet hosted)"
    using assms(1) n by (auto simp: configuredStrictAliasSet_def)
  ultimately have "aliasesContainAny (configuredStrictAliasSet hosted) ?cleanup"
    by (auto simp: aliasesContainAny_def list_ex_iff)
  moreover have "?cleanup \<noteq> []" using c by auto
  ultimately show ?thesis unfolding ban_listed_def account_missing_def Let_def by simp
qed

lemma shown_ban:
  assumes "row \<in> set (active_bans ae w)"
  shows "\<exists>r\<in>set (bw_bans w). active_ban r \<and> row = scanAutoban (ae_sched ae) (env_unix (ae_sched ae)) (autobanRow.truncate r)"
  using assms by (auto simp: active_bans_def rows_of_def queryActiveAutobans_def ban_tables_def active_ban_def providerCodex_def
      autobanRow.truncate_def simp flip: providerCodex_def)

lemma shown_invalid:
  assumes "row \<in> set (active_invalids ae w)"
  shows "\<exists>r\<in>set (bw_invalids w). active_invalid r \<and> row = r\<lparr>ia_InvalidatedAtText := unixTime (ae_sched ae) (ia_InvalidatedAt r)\<rparr>"
  using assms by (auto simp: active_invalids_def rows_of_def queryActiveInvalidAuths_def active_invalid_def providerCodex_def
      simp flip: providerCodex_def)

text \<open>Of the rows that have a primary key in common there is one only, so another row is not cleared.\<close>

lemma missing_ban_other:
  assumes "tables_ok w" "r \<in> set (bw_bans w)" "active_ban r" "ban_listed hosted r" "row \<in> set (active_bans ae w)"
    "account_missing (configuredAliasSet hosted) (configuredStrictAliasSet hosted) (ab_AuthID row) (ab_AuthIndex row) (ab_Source row) (ab_AuthFile row)"
  shows "ab_AuthID r \<noteq> ab_AuthID row"
proof
  assume same: "ab_AuthID r = ab_AuthID row"
  obtain q where q: "q \<in> set (bw_bans w)" "active_ban q" "row = scanAutoban (ae_sched ae) (env_unix (ae_sched ae)) (autobanRow.truncate q)"
    using shown_ban [OF assms(5)] by auto
  then have "ban_key q = ban_key r" using same assms(3) by (simp add: ban_key_def active_ban_def scanAutoban_def)
  then have "q = r" using assms(1,2) q(1) by (auto simp: tables_ok_def distinct_map dest: inj_onD)
  with q(3) assms(4,6) show False by (simp add: ban_listed_def scanAutoban_def autobanRow.truncate_def)
qed

lemma missing_invalid_other:
  assumes "tables_ok w" "r \<in> set (bw_invalids w)" "active_invalid r" "invalid_listed hosted r" "row \<in> set (active_invalids ae w)"
    "account_missing (configuredAliasSet hosted) (configuredStrictAliasSet hosted) (ia_AuthID row) (ia_AuthIndex row) (ia_Source row) (ia_AuthFile row)"
  shows "ia_AuthID r \<noteq> ia_AuthID row"
proof
  assume same: "ia_AuthID r = ia_AuthID row"
  obtain q where q: "q \<in> set (bw_invalids w)" "active_invalid q" "row = q\<lparr>ia_InvalidatedAtText := unixTime (ae_sched ae) (ia_InvalidatedAt q)\<rparr>"
    using shown_invalid [OF assms(5)] by auto
  then have "invalid_key q = invalid_key r" using same assms(3) by (simp add: invalid_key_def active_invalid_def)
  then have "q = r" using assms(1,2) q(1) by (auto simp: tables_ok_def distinct_map dest: inj_onD)
  with q(3) assms(4,6) show False by (simp add: invalid_listed_def)
qed

lemma cleared_invalids:
  assumes "tables_ok w" "set (configuredAliasSet hosted) \<subseteq> set aliases" "set (configuredStrictAliasSet hosted) \<subseteq> set strict"
  shows "bw_bans (snd (clearMissingInvalidAuths ae aliases strict w)) = bw_bans w"
    and "q \<in> set (bw_invalids w) \<Longrightarrow> active_invalid q \<Longrightarrow> invalid_listed hosted q \<Longrightarrow>
      q \<in> set (bw_invalids (snd (clearMissingInvalidAuths ae aliases strict w)))"
    and "tables_ok (snd (clearMissingInvalidAuths ae aliases strict w))"
proof -
  let ?clear = "clearMissingInvalidAuths ae aliases strict"
  show "bw_bans (snd (?clear w)) = bw_bans w"
    unfolding clearMissingInvalidAuths_def by (rule run_mutations_keep) (auto simp: dropped_others)
  show "tables_ok (snd (?clear w))"
    unfolding clearMissingInvalidAuths_def
    by (rule primary_keys.R_mutations [rule_format]) (use primary_keys.R_drop assms(1) in auto)
  show "q \<in> set (bw_invalids (snd (?clear w)))" if q: "q \<in> set (bw_invalids w)" "active_invalid q" "invalid_listed hosted q"
  proof -
    have other: "ia_AuthID q \<noteq> ia_AuthID row" if "row \<in> set (active_invalids ae w)"
      "account_missing aliases strict (ia_AuthID row) (ia_AuthIndex row) (ia_Source row) (ia_AuthFile row)" for row
      by (rule missing_invalid_other [OF assms(1) q that(1)], rule missing_antitone [OF _ _ that(2)]) (use assms(2,3) in auto)
    show ?thesis
      unfolding clearMissingInvalidAuths_def
      by (rule run_mutations_keep) (use q(1) other in \<open>auto simp: dropped_others\<close>)
  qed
qed

lemma cleared_bans:
  assumes "tables_ok w" "set (configuredAliasSet hosted) \<subseteq> set aliases" "set (configuredStrictAliasSet hosted) \<subseteq> set strict"
  shows "bw_invalids (snd (clearMissingAutobans ae aliases strict w)) = bw_invalids w"
    and "r \<in> set (bw_bans w) \<Longrightarrow> active_ban r \<Longrightarrow> ban_listed hosted r \<Longrightarrow> r \<in> set (bw_bans (snd (clearMissingAutobans ae aliases strict w)))"
proof -
  let ?clear = "clearMissingAutobans ae aliases strict"
  show "bw_invalids (snd (?clear w)) = bw_invalids w"
    unfolding clearMissingAutobans_def by (rule run_mutations_keep) (auto simp: dropped_others)
  show "r \<in> set (bw_bans (snd (?clear w)))" if r: "r \<in> set (bw_bans w)" "active_ban r" "ban_listed hosted r"
  proof -
    have other: "ab_AuthID r \<noteq> ab_AuthID row" if "row \<in> set (active_bans ae w)"
      "account_missing aliases strict (ab_AuthID row) (ab_AuthIndex row) (ab_Source row) (ab_AuthFile row)" for row
      by (rule missing_ban_other [OF assms(1) r that(1)], rule missing_antitone [OF _ _ that(2)]) (use assms(2,3) in auto)
    show ?thesis
      unfolding clearMissingAutobans_def
      by (rule run_mutations_keep) (use r(1) other in \<open>auto simp: dropped_others\<close>)
  qed
qed

lemma cleared_listed:
  assumes "tables_ok w" "set (configuredAliasSet hosted) \<subseteq> set (configuredAliasSet (ae_codex ae))"
    "set (configuredStrictAliasSet hosted) \<subseteq> set (configuredStrictAliasSet (ae_codex ae))"
  shows "r \<in> set (bw_bans w) \<Longrightarrow> active_ban r \<Longrightarrow> ban_listed hosted r \<Longrightarrow> r \<in> set (bw_bans (snd (clearMissingConfiguredAuthState ae w)))"
    and "q \<in> set (bw_invalids w) \<Longrightarrow> active_invalid q \<Longrightarrow> invalid_listed hosted q \<Longrightarrow>
      q \<in> set (bw_invalids (snd (clearMissingConfiguredAuthState ae w)))"
proof -
  let ?a = "configuredAliasSet (ae_codex ae)" and ?s = "configuredStrictAliasSet (ae_codex ae)"
  obtain err v where v: "clearMissingInvalidAuths ae ?a ?s w = (err, v)" by fastforce
  have invalids: "bw_bans v = bw_bans w" "tables_ok v"
    "\<And>q. q \<in> set (bw_invalids w) \<Longrightarrow> active_invalid q \<Longrightarrow> invalid_listed hosted q \<Longrightarrow> q \<in> set (bw_invalids v)"
    using cleared_invalids [where ae = ae, OF assms] v by auto
  have end_state: "snd (clearMissingConfiguredAuthState ae w) \<in> {w, v, snd (clearMissingAutobans ae ?a ?s v)}"
    using v by (auto simp: clearMissingConfiguredAuthState_def Let_def split: option.split)
  show "r \<in> set (bw_bans (snd (clearMissingConfiguredAuthState ae w)))" if "r \<in> set (bw_bans w)" "active_ban r" "ban_listed hosted r"
    using end_state that invalids(1) cleared_bans(2) [where ae = ae, OF invalids(2) assms(2,3)] by auto
  show "q \<in> set (bw_invalids (snd (clearMissingConfiguredAuthState ae w)))"
    if "q \<in> set (bw_invalids w)" "active_invalid q" "invalid_listed hosted q"
    using end_state that invalids(3) [of q] cleared_bans(1) [where ae = ae, OF invalids(2) assms(2,3)] by auto
qed

lemma ok_reached:
  assumes "(source_step se)\<^sup>*\<^sup>* \<lparr>ss_source = source_start, ss_readers = []\<rparr> s"
  shows "source_ok (ss_source s)"
  using assms by (induction rule: rtranclp_induct) (auto simp: ok_start intro: ok_step)

section \<open>Examples\<close>

definition example_source_env :: source_env where
  "example_source_env = \<lparr>se_address = Some, se_digest = (\<lambda>s. s), se_stamp = (\<lambda>_. [])\<rparr>"

definition example_entry :: "string \<Rightarrow> codexHostAuthFileEntry" where
  "example_entry name = \<lparr>he_ID = [], he_AuthIndex = [], he_Name = name, he_Type = ''codex'', he_Provider = [], he_Status = [],
     he_StatusMessage = [], he_Disabled = False, he_Unavailable = False, he_Path = [], he_ModTime = None, he_UpdatedAt = None,
     he_Email = [], he_AccountType = [], he_Account = []\<rparr>"

definition example_io :: "codexHostAuthFileEntry host_listing \<Rightarrow> source_io" where
  "example_io answer = \<lparr>io_now = 1, io_answer = answer, io_answered = 2, io_files = [], io_fallback = ''ok''\<rparr>"

section \<open>Properties\<close>



section \<open>Findings\<close>

text \<open>
  The list and the flag are read one after the other (\<open>main.go\<close>, \<open>summary.go\<close>). A reader whose call of the host failed and
  who fell back to no files can read the flag after another reader's answer: it then holds an empty list that counts as
  authoritative, and the clean-up ends the restriction of an account that the host has just listed.
\<close>

lemma flag_read_late:
  "\<exists>s. (source_step example_source_env)\<^sup>*\<^sup>* \<lparr>ss_source = source_start, ss_readers = []\<rparr> s \<and> ss_readers s ! 0 = Flagged [] True
     \<and> ban_listed (as_hostSnapshot (ss_source s)) (example_stored True 0 429)
     \<and> example_stored True 0 429 \<notin> set (bw_bans (snd (clearMissingConfiguredAuthState
         ((example_auth_env 5)\<lparr>ae_codex := [], ae_codexReadable := True\<rparr>) (example_ban_world\<lparr>bw_bans := [example_stored True 0 429]\<rparr>))))"
proof -
  let ?e = "example_source_env"
  let ?failed = "recordHostFailure 2 HostListUnavailable source_start"
  let ?fallback = "markFilesystemFallback ?e ''ok'' [] HostListUnavailable ?failed"
  let ?again = "hostAccounts ?e 4000000000 (Listing [example_entry ''a.json'']) 4000000000 (snd ?fallback)"
  let ?list = "mergeConfiguredAccountMetadata (projr (fst ?again)) []"
  let ?s = "\<lambda>m rs. \<lparr>ss_source = m, ss_readers = rs\<rparr>"
  have "hostAccounts ?e 1 NoListing 2 source_start = (Inl HostListUnavailable, ?failed)" by code_simp
  moreover have "fst ?fallback = []" by code_simp
  then have "?fallback = ([], snd ?fallback)" by (metis prod.collapse)
  moreover have "\<not> isl (fst ?again)" by code_simp
  then have "?again = (Inr (projr (fst ?again)), snd ?again)" by (metis prod.collapse sum.collapse(2))
  moreover have "authoritative (snd ?again)" by code_simp
  ultimately have "source_step ?e (?s source_start []) (?s source_start [Starting])"
      "source_step ?e (?s source_start [Starting]) (?s ?failed [Failed HostListUnavailable])"
      "source_step ?e (?s ?failed [Failed HostListUnavailable]) (?s (snd ?fallback) [Listed []])"
      "source_step ?e (?s (snd ?fallback) [Listed []]) (?s (snd ?fallback) [Listed [], Starting])"
      "source_step ?e (?s (snd ?fallback) [Listed [], Starting]) (?s (snd ?again) [Listed [], Listed ?list])"
      "source_step ?e (?s (snd ?again) [Listed [], Listed ?list]) (?s (snd ?again) [Flagged [] True, Listed ?list])"
    using arrives [of ?e "?s source_start []"] arrives [of ?e "?s (snd ?fallback) [Listed []]"]
      fails [of 0 "?s source_start [Starting]" ?e 1 NoListing 2] falls_back [of 0 "?s ?failed [Failed HostListUnavailable]" HostListUnavailable ?e]
      lists [of 1 "?s (snd ?fallback) [Listed [], Starting]" ?e 4000000000 "Listing [example_entry ''a.json'']" 4000000000 _ _ "[]"]
      flags [of 0 "?s (snd ?again) [Listed [], Listed ?list]" "[]" ?e]
    by simp_all
  then have "(source_step ?e)\<^sup>*\<^sup>* (?s source_start []) (?s (snd ?again) [Flagged [] True, Listed ?list])"
    by (meson converse_rtranclp_into_rtranclp rtranclp.rtrancl_refl)
  moreover have "ban_listed (as_hostSnapshot (snd ?again)) (example_stored True 0 429)" by code_simp
  moreover have "example_stored True 0 429 \<notin> set (bw_bans (snd (clearMissingConfiguredAuthState
      ((example_auth_env 5)\<lparr>ae_codex := [], ae_codexReadable := True\<rparr>) (example_ban_world\<lparr>bw_bans := [example_stored True 0 429]\<rparr>))))"
    by code_simp
  ultimately show ?thesis by (intro exI) auto
qed

text \<open>
  The base name of an empty path is a dot, and it becomes the name of an entry without name and path. Two such entries then
  share an alias, so the second is taken for the first when lists are joined.
\<close>

lemma nameless_entries_joined:
  "let account = (\<lambda>i. codexConfiguredAccountFromHostEntry example_source_env ((example_entry [])\<lparr>he_ID := i, he_AuthIndex := i\<rparr>))
   in map_option cg_Name (account ''x'') = Some ''.'' \<and>
      mergeCodexAccountSnapshots [the (account ''x'')] [the (account ''y'')] = [the (account ''x'')] \<and> account ''x'' \<noteq> account ''y''"
  by code_simp

text \<open>The account column does become the address of an account, though the comment on it says that it is ignored.\<close>

lemma account_column_used:
  "map_option cg_Email (codexConfiguredAccountFromHostEntry example_source_env ((example_entry ''a.json'')\<lparr>he_Account := ''a@b.c''\<rparr>)) = Some ''a@b.c''"
  by code_simp

end
