(* ===== verification/Spec2Isabelle.thy ===== *)
theory Spec2Isabelle
  imports Picker Quota Lifecycle Refresh_Loop Retention Log_Export Summary_Cache Auth_Import Auth_Source
begin

text \<open>
  This development models the plugin \<open>codex-token-usage\<close>: a scheduler that picks, for each
  request, one of the credentials ("auth candidates") a host offers, and a store that records the usage of the
  requests and derives from it which credentials are restricted for how long.

  The parts and how they interact. A request to pick goes through the request filter (inactive
  candidates, foreign and quarantined providers), then to the Codex, the xAI or the mixed pick. Those read the
  restriction state of their provider from a cache or rebuild it from the database, drop the restricted
  candidates, and choose among the rest by session affinity, rotation and, for Codex accounts with a
  plan, by the concurrency limits of account protection. A completed request is reported as a usage record: it
  releases its reservation, and a failure writes a restriction (a ban, an invalid credential, an xAI state) while a
  success clears the older ones. Every such write goes through a bracket in the cache, and the
  background maintenance (expiry, clean-up, reconciliation, backfill, manual release) invalidates the cache.

  Theories and code:
  \<^item> \<open>Prelude\<close>, \<open>GoStrings\<close>: results, tables and byte strings with the functions of \<open>strings\<close> and \<open>strconv\<close> the code uses.
  \<^item> \<open>Identity\<close>: account identities and their aliases (\<open>provider.go\<close>, \<open>summary.go\<close>, \<open>main.go\<close>, \<open>privacy.go\<close>, \<open>reporting.go\<close>).
  \<^item> \<open>Route_Filter\<close>: \<open>scheduler_filter.go\<close>; \<open>Affinity\<close>: \<open>scheduler_affinity.go\<close>; \<open>Rotation\<close>: \<open>scheduler_rotation.go\<close>.
  \<^item> \<open>Restrictions\<close>, \<open>Store\<close>: the restriction rows, their merging and indexing (\<open>reporting.go\<close>, \<open>scheduler_state.go\<close>) and the queries of
    the active rows.
  \<^item> \<open>State_Cache\<close>: the cache of \<open>scheduler_state.go\<close> with its generations and pending writes, and the protocol its users follow as an
    inductive step relation. \<open>Revision\<close>: reconciliation with changes other processes make
    (\<open>provider_revision.go\<close>, the quarantine of \<open>privacy.go\<close>).
  \<^item> \<open>Config\<close>: the configuration text and its bounds (\<open>main.go\<close>).
  \<^item> \<open>Protection_Metrics\<close>, \<open>Protection_Choice\<close>, \<open>Protection\<close>, \<open>Protection_Manager\<close>: \<open>account_protection.go\<close>.
  \<^item> \<open>Picker\<close>: \<open>pickAuth\<close> and what it calls (\<open>main.go\<close>, \<open>xai_accounts.go\<close>, \<open>scheduler_mixed.go\<close>).
  \<^item> \<open>Usage_Record\<close>, \<open>Auth_State\<close>, \<open>Bans\<close>: what a usage record writes and clears for Codex, and the maintenance of it
    (\<open>main.go\<close>). \<open>Redact\<close>, \<open>XAI_Errors\<close>, \<open>XAI_States\<close>: the same for xAI (\<open>xai_error_parser.go\<close>, \<open>xai_accounts.go\<close>).
  \<^item> \<open>Privacy\<close>: what a key and an identity become before they are stored (\<open>privacy.go\<close>). \<open>Usage_Tables\<close>: the usage events and the
    quota runs, with the queries over them. \<open>Usage\<close>: \<open>recordUsage\<close> as a whole, transaction and follow-up steps (\<open>main.go\<close>).
  \<^item> \<open>Accounts\<close>: the rows of a summary (\<open>summary.go\<close>). \<open>Quota_Windows\<close>: their quota windows, token counts and estimates.
    \<open>External_Use\<close>: the alerts of use outside the host (\<open>summary.go\<close>).
  \<^item> \<open>Quota\<close>: the rounds that ask the provider for the quota of idle accounts (\<open>main.go\<close>).
  \<^item> \<open>Lifecycle\<close>: the entry points, their gate, configuration and shutdown as steps of threads that run at the same time
    (\<open>plugin_lifecycle.go\<close>, \<open>main.go\<close>, \<open>abi_panic.go\<close>). \<open>Refresh_Loop\<close>: the goroutine that refreshes the restriction caches.
  \<^item> \<open>Retention\<close>: the deletion of expired rows in batches (\<open>diagnostics.go\<close>).
  \<^item> \<open>Pricing\<close>: prices, their file and the cost of usage (\<open>pricing.go\<close>). \<open>Summary_Rows\<close>: totals, providers, keys and models of a window
    with their costs (\<open>summary.go\<close>, \<open>pricing.go\<close>). \<open>Summary_Cache\<close>: the cache of summaries, its table and its refresh (\<open>summary.go\<close>).
  \<^item> \<open>Auth_Source\<close>: where the configured accounts come from, the host or the credential files (\<open>codex_auth_source.go\<close>, \<open>auth_source_diagnostics.go\<close>,
    \<open>summary.go\<close>). \<open>Auth_Import\<close>: credentials pasted as text (\<open>auth_import.go\<close>).
  \<^item> \<open>Export\<close>, \<open>Log_Export\<close>: masks, CSV and the export of log rows (\<open>diagnostics.go\<close>).
  \<^item> This theory: what the parts promise together.

  State. A table of the database is the list of its rows in storage order; a statement is a function on it, and a
  query that fails, or a statement that fails, is an argument of the operation. A Go map whose order matters is an
  association list in iteration order. Counters, cursors and generations are words of 64 bits. Times
  are seconds or nanoseconds as integers, the clock is part of the environment (\<open>sched_env\<close>, \<open>auth_env\<close>). A float column
  is an exact rational or one of the special values. Strings are byte strings; letter case is folded for ASCII letters only.

  Lemmas. The cache: a snapshot that is served covers every committed restriction (\<open>State_Cache\<close>), each operation on the
  restrictions is a run of that protocol (\<open>Bans\<close>, \<open>XAI_States\<close>), a pick respects the snapshot it is
  served (\<open>Picker\<close>), and together a blocked account is never picked (below). Protection: the live
  reservations of an account never exceed its limit. Affinity and rotation: bounded tables, sticky sessions,
  fair turns. Identity: the alias expansion is a closure. Usage: a record is stored whole or not at all, without any
  credential, and a quota failure or a third refusal restricts the account it is recorded for. Accounts: merging keeps what was observed,
  the one-pass search finds the latest snapshot of each account, the batched count equals the count window by window, and an alert
  is justified by two snapshots. Quota: the tally of a round adds up and a refused account is not asked again. Life cycle: nothing runs
  or is published after a shutdown, and a request to refresh is not lost. Retention: only expired rows go, the oldest first, and
  repeated passes end. Summaries: costs are bounded, rows add up to their totals, an available cost leaves nothing out, and a summary
  from the cache is marked when it is behind. Accounts: a failing host clears
  no restriction, and an import overwrites nothing it is not asked to. Export: CSV reads back, no cell is a formula, a key filter selects one key. Interfaces are locales, each interpreted on the
  definitions of the code (\<open>restriction_source\<close>, \<open>privacy_store\<close>, \<open>candidate_chooser\<close>, \<open>candidate_aliases\<close>,
  \<open>ban_relation\<close>, \<open>xai_relation\<close>).

  Bounds and loops. Loops over lists and strings are structural or have a measure; the only loop that may
  go on for ever (\<open>stabilizePrivacySnapshot\<close>) counts its rounds as the code does, and the passes of the retention are bounded by the
  number of rows. 64-bit generations are assumed not to have wrapped
  within one run (\<open>pr_generations s < 2 ^ 64\<close>).

  Not modelled: the dashboard (static text), the transport of HTTP requests (a request is data and its answer an argument), the text of
  the SQL statements other than what they select and write, logging, and the texts and totals of a summary that are only displayed.
  HMAC and SHA-256, JSON decoding, the parsing of HTTP dates and of floats, float division, the clock, the order in
  which workers finish and the iteration order of Go maps are arguments.
\<close>

section \<open>What is blocked throughout an attempt\<close>

text \<open>
  An account is blocked throughout an attempt when the tables the attempt may read block it, and
  the restriction slots it may read belong to runs of the protocol of \<open>State_Cache\<close> whose tables block it.
\<close>

definition slot_run_blocks ::
  "(sched_env \<Rightarrow> 'db \<Rightarrow> 'row schedulerSnapshot) \<Rightarrow> ('db \<Rightarrow> 'db \<Rightarrow> bool) \<Rightarrow> (int \<Rightarrow> 'db \<Rightarrow> schedulerAuthCandidate \<Rightarrow> bool)
   \<Rightarrow> 'row provider_slot \<Rightarrow> schedulerAuthCandidate \<Rightarrow> bool" where
  "slot_run_blocks build removes blocks slot c \<longleftrightarrow>
     (\<exists>db start s. (protocol_step build removes)\<^sup>*\<^sup>* (protocol_init db start) s \<and> pr_generations s < 2 ^ 64
        \<and> pr_slot s = slot \<and> blocks (pr_now s) (pr_db s) c)"

definition codex_blocked_throughout :: "pick_env \<Rightarrow> schedulerStateCache \<Rightarrow> schedulerAuthCandidate \<Rightarrow> bool" where
  "codex_blocked_throughout pk cache c \<longleftrightarrow>
     (let blocks = codex_blocks (env_fp (pk_env pk))
      in blocks (env_unix (pk_env pk)) (db_bans (pk_tables pk), db_invalids (pk_tables pk)) c
       \<and> slot_run_blocks codex_build codex_removes blocks (sc_codex cache) c
       \<and> slot_run_blocks codex_build codex_removes blocks (sc_codex (pk_others pk cache)) c)"

definition xai_blocked_throughout :: "pick_env \<Rightarrow> schedulerStateCache \<Rightarrow> schedulerAuthCandidate \<Rightarrow> bool" where
  "xai_blocked_throughout pk cache c \<longleftrightarrow>
     (let blocks = xai_blocks (env_fp (pk_env pk))
      in blocks (env_unix (pk_env pk)) (db_xai (pk_tables pk)) c
       \<and> slot_run_blocks xai_build xai_removes blocks (sc_xai cache) c
       \<and> slot_run_blocks xai_build xai_removes blocks (sc_xai (pk_others pk cache)) c)"

lemma slot_read_published: "slot_read env now slot = Some sn \<Longrightarrow> sl_Initialized slot \<and> sl_Snapshot slot = Some sn"
  by (auto simp: slot_read_def Let_def split: if_splits option.splits)

lemma codex_slot_matches:
  assumes "slot_run_blocks codex_build codex_removes (codex_blocks fp) slot c" "sl_Initialized slot" "sl_Snapshot slot = Some sn"
  shows "fst (codex_matchIndexes fp (Some sn) c)"
  using assms codex_source.published_covers by (fastforce simp: slot_run_blocks_def)

lemma xai_slot_matches:
  assumes "slot_run_blocks xai_build xai_removes (xai_blocks fp) slot c" "sl_Initialized slot" "sl_Snapshot slot = Some sn"
  shows "xai_matches fp (Some sn) c"
  using assms xai_source.published_covers by (fastforce simp: slot_run_blocks_def)

lemma codex_serves_blocked:
  assumes "codex_serves pk cache s" "codex_blocked_throughout pk cache c"
  shows "codex_matched pk s c"
proof -
  note blocked = assms(2) [unfolded codex_blocked_throughout_def Let_def]
  consider "s = Some (codex_build (pk_env pk) (db_bans (pk_tables pk), db_invalids (pk_tables pk)))"
    | sn stale where "s = Some sn" "slot_for_pick (pk_env pk) (env_unix (pk_env pk)) (sc_codex cache) = (Some sn, stale, True)"
    | sn where "s = Some sn" "slot_read (pk_env pk) (env_unix (pk_env pk)) (sc_codex (pk_others pk cache)) = Some sn"
    using assms(1) unfolding codex_serves_def by (cases s) (blast, metis)
  then show ?thesis
  proof cases
    case 1
    with blocked show ?thesis by (simp add: codex_matched_def codex_build_matches)
  next
    case 2
    with blocked slot_for_pick_published [OF 2(2)] show ?thesis by (auto simp: codex_matched_def intro: codex_slot_matches)
  next
    case 3
    with blocked slot_read_published [OF 3(2)] show ?thesis by (auto simp: codex_matched_def intro: codex_slot_matches)
  qed
qed

lemma xai_serves_blocked:
  assumes "xai_serves pk cache s" "xai_blocked_throughout pk cache c"
  shows "xai_matches (env_fp (pk_env pk)) s c"
proof -
  note blocked = assms(2) [unfolded xai_blocked_throughout_def Let_def]
  consider "s = Some (xai_build (pk_env pk) (db_xai (pk_tables pk)))"
    | sn stale where "s = Some sn" "slot_for_pick (pk_env pk) (env_unix (pk_env pk)) (sc_xai cache) = (Some sn, stale, True)"
    | sn where "s = Some sn" "slot_read (pk_env pk) (env_unix (pk_env pk)) (sc_xai (pk_others pk cache)) = Some sn"
    using assms(1) unfolding xai_serves_def by (cases s) (blast, metis)
  then show ?thesis
  proof cases
    case 1
    with blocked show ?thesis by (simp add: xai_source.build_blocks)
  next
    case 2
    with blocked slot_for_pick_published [OF 2(2)] show ?thesis by (auto intro: xai_slot_matches)
  next
    case 3
    with blocked slot_read_published [OF 3(2)] show ?thesis by (auto intro: xai_slot_matches)
  qed
qed

section \<open>Properties of the whole\<close>


definition example_global_env :: pick_env where
  "example_global_env = (example_pick_env [example_ban ''a.json'' ''1'' 9])\<lparr>pk_global := True\<rparr>"

definition example_global_state :: pick_state where
  "example_global_state = (example_pick_state False)
     \<lparr>ks_cache := \<lparr>sc_codex = pr_slot example_published, sc_xai = empty_slot\<rparr>\<rparr>"

lemma example_blocked:
  "codex_blocked_throughout example_global_env (ks_cache example_global_state) (example_candidate ''a.json'')"
proof -
  have "codex_blocks (\<lambda>s. s) (pr_now example_published) (pr_db example_published) (example_candidate ''a.json'')" by code_simp
  moreover have "pr_generations example_published < 2 ^ 64" by (simp add: example_published_def)
  ultimately have "slot_run_blocks codex_build codex_removes (codex_blocks (\<lambda>s. s)) (pr_slot example_published) (example_candidate ''a.json'')"
    using example_published_reachable unfolding slot_run_blocks_def example_start_def by blast
  moreover have "codex_blocks (\<lambda>s. s) 0 ([example_ban ''a.json'' ''1'' 9], []) (example_candidate ''a.json'')" by code_simp
  ultimately show ?thesis
    by (simp add: codex_blocked_throughout_def example_global_env_def example_pick_env_def example_global_state_def
        example_env_def env_unix_def Let_def)
qed


end
